(* ===== verification/Prelude.thy ===== *)
theory Prelude
  imports Complex_Main "HOL-Library.Char_ord" "HOL-Library.List_Lexorder" "HOL-Library.AList"
begin

text \<open>
  Shared vocabulary of the development: the parts of Go and of its standard library that the
  modelled packages use, and the lemmas on them that the component theories share.

  \<^item> Strings are byte strings (\<^typ>\<open>string\<close>); white space is the ASCII white space of
    \<open>strings.TrimSpace\<close>; the order of strings is the bytewise lexicographic one.
  \<^item> \<open>int\<close> is 64 bits wide: \<open>Atoi\<close> refuses numbers outside the range and \<open>wrap64\<close> is the
    wrap-around of Go's signed arithmetic.
  \<^item> An error value is the list of sentinel errors it wraps (what \<open>errors.Is\<close> finds) and its
    message. A message is the format string and the arguments given to \<open>fmt.Sprintf\<close>; the
    rendering of the text is not modelled.
  \<^item> A JSON document is a \<open>json\<close> value; a \<open>json.RawMessage\<close> is a \<open>raw\<close>: the empty
    message, bytes that do not decode, or a document. Objects are association lists, read with
    \<^const>\<open>map_of\<close> and written with \<^const>\<open>AList.update\<close>.
\<close>

named_theorems go_defs \<open>definitions of Go library functions, unfolded on demand\<close>

section \<open>Strings\<close>

definition is_space :: "char \<Rightarrow> bool" where
  "is_space c = (let n = (of_char c :: nat) in n = 32 \<or> (9 \<le> n \<and> n \<le> 13))"

definition TrimSpace :: "string \<Rightarrow> string" where
  "TrimSpace s = rev (dropWhile is_space (rev (dropWhile is_space s)))"

definition HasPrefix :: "string \<Rightarrow> string \<Rightarrow> bool" where
  "HasPrefix s p = (take (length p) s = p)"

definition HasSuffix :: "string \<Rightarrow> string \<Rightarrow> bool" where
  "HasSuffix s p = HasPrefix (rev s) (rev p)"

definition TrimPrefix :: "string \<Rightarrow> string \<Rightarrow> string" where
  "TrimPrefix s p = (if HasPrefix s p then drop (length p) s else s)"

definition CutPrefix :: "string \<Rightarrow> string \<Rightarrow> string option" where
  "CutPrefix s p = (if HasPrefix s p then Some (drop (length p) s) else None)"

fun Split :: "char \<Rightarrow> string \<Rightarrow> string list" where
  "Split c [] = [[]]"
| "Split c (x # xs) =
     (if x = c then [] # Split c xs
      else (case Split c xs of [] \<Rightarrow> [[x]] | w # ws \<Rightarrow> (x # w) # ws))"

fun Join :: "string list \<Rightarrow> string \<Rightarrow> string" where
  "Join [] sep = []"
| "Join [w] sep = w"
| "Join (w # v # ws) sep = w @ sep @ Join (v # ws) sep"

text \<open>\<open>strings.Cut(s, c)\<close> for a one-byte separator: what stands before the first \<open>c\<close>, and what
  stands after it when there is one.\<close>

definition CutByte :: "char \<Rightarrow> string \<Rightarrow> string \<times> string option" where
  "CutByte c s =
     (takeWhile (\<lambda>x. x \<noteq> c) s,
      case dropWhile (\<lambda>x. x \<noteq> c) s of [] \<Rightarrow> None | _ # r \<Rightarrow> Some r)"

text \<open>The split at the last occurrence of a byte (\<open>strings.LastIndex\<close>).\<close>

definition CutLast :: "char \<Rightarrow> string \<Rightarrow> (string \<times> string) option" where
  "CutLast c s =
     (case CutByte c (rev s) of
        (after, None) \<Rightarrow> None
      | (after, Some before) \<Rightarrow> Some (rev before, rev after))"

definition ReplaceByte :: "char \<Rightarrow> char \<Rightarrow> string \<Rightarrow> string" where
  "ReplaceByte a b s = map (\<lambda>c. if c = a then b else c) s"

definition to_lower :: "char \<Rightarrow> char" where
  "to_lower c = (let n = (of_char c :: nat) in if 65 \<le> n \<and> n \<le> 90 then char_of (n + 32) else c)"

definition to_upper :: "char \<Rightarrow> char" where
  "to_upper c = (let n = (of_char c :: nat) in if 97 \<le> n \<and> n \<le> 122 then char_of (n - 32) else c)"

section \<open>Numbers in strings\<close>

definition is_digit :: "char \<Rightarrow> bool" where
  "is_digit c = (let n = (of_char c :: nat) in 48 \<le> n \<and> n \<le> 57)"

definition digit_val :: "char \<Rightarrow> nat" where
  "digit_val c = of_char c - 48"

definition digit_char :: "nat \<Rightarrow> char" where
  "digit_char n = char_of (48 + n)"

definition digits_val :: "string \<Rightarrow> nat" where
  "digits_val s = foldl (\<lambda>n c. 10 * n + digit_val c) 0 s"

fun Itoa :: "nat \<Rightarrow> string" where
  "Itoa n = (if n < 10 then [digit_char n] else Itoa (n div 10) @ [digit_char (n mod 10)])"

declare Itoa.simps [simp del]

definition Itoa_int :: "int \<Rightarrow> string" where
  "Itoa_int i = (if i < 0 then CHR ''-'' # Itoa (nat (- i)) else Itoa (nat i))"

definition max_int64 :: int where
  "max_int64 = 9223372036854775807"

definition min_int64 :: int where
  "min_int64 = - 9223372036854775808"

text \<open>Two's complement wrap-around of a 64-bit result.\<close>

definition wrap64 :: "int \<Rightarrow> int" where
  "wrap64 i = (i + 9223372036854775808) mod 18446744073709551616 - 9223372036854775808"

text \<open>\<open>strconv.Atoi\<close>: an optional sign, at least one decimal digit, a value in range.\<close>

definition Atoi :: "string \<Rightarrow> int option" where
  "Atoi s =
     (let (neg, d) = (case s of
            [] \<Rightarrow> (False, [])
          | c # r \<Rightarrow> if c = CHR ''-'' then (True, r) else if c = CHR ''+'' then (False, r) else (False, s));
          n = (if neg then - int (digits_val d) else int (digits_val d))
      in if d = [] \<or> \<not> list_all is_digit d then None
         else if min_int64 \<le> n \<and> n \<le> max_int64 then Some n else None)"

section \<open>JSON values\<close>

datatype json =
    JNull
  | JBool bool
  | JNum rat
  | JStr string
  | JArr "json list"
  | JObj "(string \<times> json) list"

type_synonym doc = "(string \<times> json) list"

datatype raw = RawEmpty | RawBad string | RawDoc json

section \<open>Messages and errors\<close>

datatype arg =
    AStr string
  | AInt int
  | AFloat rat
  | ABool bool
  | AList "string list"
  | ARaw raw
  | AErr message
  | AFields "(string \<times> arg) list"
and message = Msg string "arg list"

datatype sentinel =
    ErrSimulationUnsupported
  | ErrDenied
  | ErrRejected
  | ErrInvalid
  | ErrUnconfirmed
  | ErrCircuitOpen
  | ErrInFlight
  | ErrNotFound
  | ErrCatalogNotFound
  | ErrTampered
  | ErrNotDeployable

datatype goerror = GoError (wraps: "sentinel list") (text_of: message)

definition errors_Is :: "goerror \<Rightarrow> sentinel \<Rightarrow> bool" where
  "errors_Is e s = (s \<in> set (wraps e))"

text \<open>\<open>errors.New\<close> / \<open>fmt.Errorf\<close> without \<open>%w\<close>, a sentinel itself, and \<open>fmt.Errorf\<close> that wraps
  an error (the message mentions it as its last argument).\<close>

definition New_err :: "string \<Rightarrow> arg list \<Rightarrow> goerror" where
  "New_err f as = GoError [] (Msg f as)"

definition Sentinel :: "sentinel \<Rightarrow> goerror" where
  "Sentinel s = GoError [s] (Msg [] [])"

definition Wrap_err :: "string \<Rightarrow> arg list \<Rightarrow> goerror \<Rightarrow> goerror" where
  "Wrap_err f as e = GoError (wraps e) (Msg f (as @ [AErr (text_of e)]))"

definition Wrap_sentinel :: "sentinel \<Rightarrow> string \<Rightarrow> arg list \<Rightarrow> goerror" where
  "Wrap_sentinel s f as = GoError [s] (Msg f as)"

text \<open>\<open>errors.Join\<close> of a list of errors: nil for the empty list.\<close>

definition Join_err :: "goerror list \<Rightarrow> goerror option" where
  "Join_err es =
     (if es = [] then None
      else Some (GoError (concat (map wraps es)) (Msg ''join'' (map (AErr \<circ> text_of) es))))"

lemmas err_defs [go_defs] = New_err_def Sentinel_def Wrap_err_def Wrap_sentinel_def errors_Is_def

text \<open>The string functions unfolded, to evaluate them on literals.\<close>

lemmas go_eval = TrimSpace_def HasPrefix_def HasSuffix_def TrimPrefix_def CutPrefix_def CutByte_def CutLast_def
  is_space_def Atoi_def digits_val_def digit_val_def is_digit_def min_int64_def max_int64_def wrap64_def

section \<open>Laws of lists\<close>

lemma find_SomeD: "find P xs = Some x \<Longrightarrow> x \<in> set xs \<and> P x"
  by (auto simp: find_Some_iff)

lemma find_None_all: "find P xs = None \<longleftrightarrow> (\<forall>x \<in> set xs. \<not> P x)"
  by (auto simp: find_None_iff)

lemma enumerate_mem: "x \<in> set xs \<Longrightarrow> \<exists>i. (i, x) \<in> set (enumerate n xs)"
  using map_snd_enumerate [of n xs] by (metis (no_types, lifting) image_iff list.set_map prod.collapse)

section \<open>Laws of the string functions\<close>

lemma HasPrefix_append [simp]: "HasPrefix (p @ s) p"
  by (simp add: HasPrefix_def)

lemma HasPrefix_append_iff:
  "HasPrefix (p @ s) (p @ q) \<longleftrightarrow> HasPrefix s q"
  by (simp add: HasPrefix_def)

lemma TrimPrefix_append [simp]: "TrimPrefix (p @ s) p = s"
  by (simp add: TrimPrefix_def)

lemma TrimPrefix_other [simp]: "\<not> HasPrefix s p \<Longrightarrow> TrimPrefix s p = s"
  by (simp add: TrimPrefix_def)

lemma TrimSpace_id:
  assumes "s \<noteq> [] \<Longrightarrow> \<not> is_space (hd s) \<and> \<not> is_space (last s)"
  shows "TrimSpace s = s"
proof (cases "s = []")
  case True
  then show ?thesis by (simp add: TrimSpace_def)
next
  case False
  with assms have h: "\<not> is_space (hd s)" "\<not> is_space (last s)" by auto
  from False have "dropWhile is_space s = s" by (cases s) (use h in auto)
  moreover from False have "dropWhile is_space (rev s) = rev s"
    by (cases "rev s") (use h in \<open>auto simp: last_rev hd_rev\<close>)
  ultimately show ?thesis by (simp add: TrimSpace_def)
qed

lemma Split_not_Nil [simp]: "Split c s \<noteq> []"
  by (induction s) (auto split: list.splits)

lemma Split_no_sep: "c \<notin> set s \<Longrightarrow> Split c s = [s]"
  by (induction s) auto

lemma Split_append_sep: "c \<notin> set s \<Longrightarrow> Split c (s @ c # t) = s # Split c t"
  by (induction s) auto

lemma Split_parts: "w \<in> set (Split c s) \<Longrightarrow> c \<notin> set w"
  by (induction s arbitrary: w) (fastforce split: list.splits if_splits)+

lemma CutByte_absent: "c \<notin> set s \<Longrightarrow> CutByte c s = (s, None)"
  by (induction s) (auto simp: CutByte_def split: list.splits)

lemma CutByte_present: "c \<notin> set s \<Longrightarrow> CutByte c (s @ c # t) = (s, Some t)"
  by (induction s) (auto simp: CutByte_def)

lemma CutLast_absent: "c \<notin> set s \<Longrightarrow> CutLast c s = None"
  by (simp add: CutLast_def CutByte_absent)

lemma CutLast_present: "c \<notin> set t \<Longrightarrow> CutLast c (s @ c # t) = Some (s, t)"
  by (simp add: CutLast_def CutByte_present)

section \<open>Laws of decimal numbers\<close>

lemma of_char_digit_char [simp]: "n < 10 \<Longrightarrow> (of_char (digit_char n) :: nat) = 48 + n"
  by (simp add: digit_char_def)

lemma is_digit_digit_char [simp]: "n < 10 \<Longrightarrow> is_digit (digit_char n)"
  by (simp add: is_digit_def)

lemma digit_val_digit_char [simp]: "n < 10 \<Longrightarrow> digit_val (digit_char n) = n"
  by (simp add: digit_val_def)

lemma digit_char_two: "digit_char 2 = CHR ''2''"
  by code_simp

lemma digits_val_append [simp]: "digits_val (s @ [c]) = 10 * digits_val s + digit_val c"
  by (simp add: digits_val_def)

lemma Itoa_not_Nil [simp]: "Itoa n \<noteq> []"
  by (subst Itoa.simps) simp

lemma Itoa_digits: "list_all is_digit (Itoa n)"
proof (induction n rule: Itoa.induct)
  case (1 n)
  then show ?case by (subst Itoa.simps) simp
qed

lemma digits_val_Itoa [simp]: "digits_val (Itoa n) = n"
proof (induction n rule: Itoa.induct)
  case (1 n)
  show ?case
  proof (cases "n < 10")
    case True
    then show ?thesis by (subst Itoa.simps) (simp add: digits_val_def)
  next
    case False
    with 1 show ?thesis by (subst Itoa.simps) simp
  qed
qed

lemma Itoa_inj: "Itoa m = Itoa n \<Longrightarrow> m = n"
  by (metis digits_val_Itoa)

lemma hd_Itoa_zero: "1 < length (Itoa n) \<Longrightarrow> hd (Itoa n) \<noteq> CHR ''0''"
proof (induction n rule: Itoa.induct)
  case (1 n)
  have big: "\<not> n < 10"
    using 1(2) by (subst (asm) Itoa.simps) (auto split: if_splits)
  then have eq: "Itoa n = Itoa (n div 10) @ [digit_char (n mod 10)]"
    by (subst Itoa.simps) simp
  show ?case
  proof (cases "n div 10 < 10")
    case True
    then have "Itoa (n div 10) = [digit_char (n div 10)]"
      by (subst Itoa.simps) simp
    moreover have "digit_char (n div 10) \<noteq> CHR ''0''"
    proof
      assume "digit_char (n div 10) = CHR ''0''"
      then have "(of_char (digit_char (n div 10)) :: nat) = of_char (CHR ''0'')"
        by (rule arg_cong)
      with True have "n div 10 = 0" by simp
      with big show False by simp
    qed
    ultimately show ?thesis by (simp add: eq)
  next
    case False
    then have "1 < length (Itoa (n div 10))"
      by (subst Itoa.simps) (simp add: Suc_lessI)
    with 1(1) big have "hd (Itoa (n div 10)) \<noteq> CHR ''0''" by simp
    then show ?thesis by (simp add: eq)
  qed
qed

lemma digit_not_sign: "is_digit c \<Longrightarrow> c \<noteq> CHR ''-'' \<and> c \<noteq> CHR ''+''"
  by (auto simp: is_digit_def)

lemma digit_not_space: "is_digit c \<Longrightarrow> \<not> is_space c"
  by (auto simp: is_digit_def is_space_def Let_def)

lemma Itoa_no_char: "\<not> is_digit c \<Longrightarrow> c \<notin> set (Itoa n)"
  using Itoa_digits [of n] by (auto simp: list_all_iff)

lemma Atoi_Itoa: "int n \<le> max_int64 \<Longrightarrow> Atoi (Itoa n) = Some (int n)"
proof -
  assume le: "int n \<le> max_int64"
  obtain c r where cr: "Itoa n = c # r" by (cases "Itoa n") auto
  have "is_digit c" using Itoa_digits [of n] by (simp add: cr)
  then have "c \<noteq> CHR ''-''" "c \<noteq> CHR ''+''" by (simp_all add: digit_not_sign)
  then have "Atoi (Itoa n) = (if min_int64 \<le> int (digits_val (Itoa n)) \<and> int (digits_val (Itoa n)) \<le> max_int64
      then Some (int (digits_val (Itoa n))) else None)"
    using Itoa_digits [of n] by (simp add: Atoi_def cr Let_def)
  with le show ?thesis by (simp add: min_int64_def)
qed

lemma wrap64_id: "min_int64 \<le> i \<Longrightarrow> i \<le> max_int64 \<Longrightarrow> wrap64 i = i"
  by (simp add: wrap64_def min_int64_def max_int64_def)

end
