(* ===== verification/Float64.thy ===== *)
theory Float64
  imports Prelude "HOL-Library.Log_Nat"
begin

text \<open>
  Go's \<open>float64\<close>. A finite value is a rational number, and every arithmetic operation rounds
  its exact result with \<open>fl\<close>: to the nearest number with a 53-bit significand, ties to the
  even one. The exponent is unbounded, so overflow to infinity, subnormal numbers and NaN are
  not modelled. \<open>fl\<close> is executable; the lemmas show that it is monotone and keeps signs and
  small integers, which is all the component proofs use of it.
\<close>

definition round_even :: "rat \<Rightarrow> int" where
  "round_even q =
     (let f = \<lfloor>q\<rfloor>; d = q - of_int f
      in if d < 1 / 2 then f else if 1 / 2 < d then f + 1 else if even f then f else f + 1)"

text \<open>The integer part of the binary logarithm of a positive rational.\<close>

definition ilog2 :: "rat \<Rightarrow> int" where
  "ilog2 x =
     (let (p, q) = quotient_of x;
          e = int (floorlog 2 (nat p)) - int (floorlog 2 (nat q))
      in if 2 powi e \<le> x then e else e - 1)"

definition fl :: "rat \<Rightarrow> rat" where
  "fl x =
     (if x = 0 then 0
      else let u = 2 powi (ilog2 \<bar>x\<bar> - 52) in of_int (round_even (x / u)) * u)"

text \<open>Integer division as Go has it (towards zero), and the conversion of a float to an integer.\<close>

definition go_div :: "int \<Rightarrow> int \<Rightarrow> int" where
  "go_div a b = sgn a * sgn b * (\<bar>a\<bar> div \<bar>b\<bar>)"

definition go_mod :: "int \<Rightarrow> int \<Rightarrow> int" where
  "go_mod a b = a - b * go_div a b"

definition trunc_int :: "rat \<Rightarrow> int" where
  "trunc_int q = (if 0 \<le> q then \<lfloor>q\<rfloor> else \<lceil>q\<rceil>)"

text \<open>\<open>time.Duration.Seconds\<close>; a duration counts nanoseconds.\<close>

definition Second :: int where
  "Second = 1000000000"

definition Seconds :: "int \<Rightarrow> rat" where
  "Seconds d = fl (of_int (go_div d Second) + fl (of_int (go_mod d Second) / 1000000000))"

section \<open>Rounding\<close>

lemma round_even_of_int [simp]: "round_even (of_int n) = n"
  by (simp add: round_even_def)

lemma round_even_cases: "round_even q = \<lfloor>q\<rfloor> \<or> round_even q = \<lfloor>q\<rfloor> + 1"
  by (auto simp: round_even_def Let_def)

lemma round_even_mono: "p \<le> q \<Longrightarrow> round_even p \<le> round_even q"
proof (cases "\<lfloor>p\<rfloor> = \<lfloor>q\<rfloor>")
  case True
  assume "p \<le> q"
  with True show ?thesis by (auto simp: round_even_def Let_def)
next
  case False
  assume "p \<le> q"
  with False have "\<lfloor>p\<rfloor> + 1 \<le> \<lfloor>q\<rfloor>" using floor_mono by fastforce
  then show ?thesis using round_even_cases [of p] round_even_cases [of q] by auto
qed

lemma round_even_upper: "q \<le> of_int n \<Longrightarrow> round_even q \<le> n"
  using round_even_mono [of q "of_int n"] by simp

lemma round_even_lower: "of_int n \<le> q \<Longrightarrow> n \<le> round_even q"
  using round_even_mono [of "of_int n" q] by simp

lemma ilog2_bounds:
  assumes "0 < x"
  shows "2 powi (ilog2 x) \<le> x \<and> x < 2 powi (ilog2 x + 1)"
proof -
  obtain p q where pq: "quotient_of x = (p, q)" by (cases "quotient_of x")
  have q: "0 < q" by (rule quotient_of_denom_pos [OF pq])
  have x: "x = of_int p / of_int q" by (rule quotient_of_div [OF pq])
  with assms q have p: "0 < p" by (simp add: zero_less_divide_iff)
  let ?a = "floorlog 2 (nat p)" and ?b = "floorlog 2 (nat q)"
  have "2 ^ (?a - 1) \<le> nat p \<and> nat p < 2 ^ ?a" "2 ^ (?b - 1) \<le> nat q \<and> nat q < 2 ^ ?b"
    using p q floorlog_bounds [of "nat p" 2] floorlog_bounds [of "nat q" 2] by simp_all
  moreover have "?a > 0" "?b > 0"
    using p q by (simp_all add: zero_less_iff_neq_zero floorlog_eq_zero_iff)
  ultimately have P: "(2::nat) ^ ?a \<le> 2 * nat p" "nat p < 2 ^ ?a"
    and Q: "(2::nat) ^ ?b \<le> 2 * nat q" "nat q < 2 ^ ?b"
    by (metis One_nat_def Suc_pred mult_le_mono2 power_Suc)+
  have to_rat: "of_nat (nat p) = (of_int p :: rat)" "of_nat (nat q) = (of_int q :: rat)"
    using p q by simp_all
  have P': "(2::rat) ^ ?a \<le> 2 * of_int p" "of_int p < (2::rat) ^ ?a"
    using of_nat_mono [where 'a = rat, OF P(1)] of_nat_less_iff [where 'a = rat, THEN iffD2, OF P(2)]
    by (simp_all add: to_rat)
  have Q': "(2::rat) ^ ?b \<le> 2 * of_int q" "of_int q < (2::rat) ^ ?b"
    using of_nat_mono [where 'a = rat, OF Q(1)] of_nat_less_iff [where 'a = rat, THEN iffD2, OF Q(2)]
    by (simp_all add: to_rat)
  let ?e = "int ?a - int ?b"
  have e: "(2::rat) powi ?e = 2 ^ ?a / 2 ^ ?b"
    by (simp add: power_int_diff)
  have e': "(2::rat) powi (?e - 1) = 2 ^ ?a / 2 ^ ?b / 2" "(2::rat) powi (?e + 1) = 2 ^ ?a / 2 ^ ?b * 2"
    by (subst power_int_diff, simp, simp add: e) (subst power_int_add, simp, simp add: e)
  have qr: "0 < (of_int q :: rat)" using q by simp
  have lo: "2 powi (?e - 1) \<le> x"
  proof -
    have "2 ^ ?a * of_int q \<le> 2 * of_int p * (2::rat) ^ ?b"
      using P'(1) Q'(2) p q by (intro mult_mono) auto
    then show ?thesis
      using qr unfolding e' by (simp add: x field_simps)
  qed
  have hi: "x < 2 powi (?e + 1)"
  proof -
    have "of_int p * (2::rat) ^ ?b < 2 ^ ?a * (2 * of_int q)"
      using P'(2) Q'(1) p q by (intro mult_less_le_imp_less) auto
    then show ?thesis
      using qr unfolding e' by (simp add: x field_simps)
  qed
  show ?thesis
    using lo hi by (auto simp: ilog2_def pq Let_def)
qed

lemma powi2_le_iff [simp]: "(2::rat) powi m \<le> 2 powi n \<longleftrightarrow> m \<le> n"
proof
  assume "(2::rat) powi m \<le> 2 powi n"
  then show "m \<le> n"
    by (metis linorder_not_le one_less_numeral_iff power_int_strict_increasing semiring_norm(76))
next
  assume "m \<le> n"
  then show "(2::rat) powi m \<le> 2 powi n" by (intro power_int_increasing) auto
qed

lemma powi2_less_iff: "(2::rat) powi m < 2 powi n \<longleftrightarrow> m < n"
  using powi2_le_iff [of n m] by (simp only: not_le [symmetric])

lemma ilog2_mono:
  assumes "0 < x" "x \<le> y"
  shows "ilog2 x \<le> ilog2 y"
proof -
  have "2 powi (ilog2 x) \<le> x" using ilog2_bounds [of x] assms by simp
  also have "x \<le> y" by fact
  also have "y < 2 powi (ilog2 y + 1)" using ilog2_bounds [of y] assms by simp
  finally have "ilog2 x < ilog2 y + 1" by (simp only: powi2_less_iff)
  then show ?thesis by simp
qed

lemma fl_zero [simp]: "fl 0 = 0"
  by (simp add: fl_def)

lemma fl_pos_bounds:
  assumes "0 < x"
  shows "2 powi (ilog2 x) \<le> fl x \<and> fl x \<le> 2 powi (ilog2 x + 1)"
proof -
  let ?u = "(2::rat) powi (ilog2 x - 52)"
  have u: "0 < ?u" by simp
  have pow: "2 powi (ilog2 x) = of_int (2 ^ 52) * ?u" "2 powi (ilog2 x + 1) = of_int (2 ^ 53) * ?u"
    by (simp_all add: power_int_add power_int_diff)
  have "of_int (2 ^ 52) \<le> x / ?u" "x / ?u \<le> of_int (2 ^ 53)"
    using ilog2_bounds [OF assms] u unfolding pow by (auto simp: pos_le_divide_eq pos_divide_le_eq)
  then have "2 ^ 52 \<le> round_even (x / ?u)" "round_even (x / ?u) \<le> 2 ^ 53"
    by (auto intro: round_even_lower round_even_upper)
  then have "of_int (2 ^ 52) * ?u \<le> of_int (round_even (x / ?u)) * ?u"
    "of_int (round_even (x / ?u)) * ?u \<le> of_int (2 ^ 53) * ?u"
    using u by (intro mult_right_mono; simp only: of_int_le_iff less_imp_le)+
  then show ?thesis
    using assms unfolding pow by (simp add: fl_def Let_def)
qed

lemma fl_pos: "0 < x \<Longrightarrow> 0 < fl x"
  using fl_pos_bounds [of x] by (metis less_le_trans zero_less_numeral zero_less_power_int)

lemma fl_nonneg: "0 \<le> x \<Longrightarrow> 0 \<le> fl x"
  using fl_pos [of x] by (cases "x = 0") auto

lemma fl_mono_pos:
  assumes "0 < x" "x \<le> y"
  shows "fl x \<le> fl y"
proof (cases "ilog2 x = ilog2 y")
  case True
  let ?u = "(2::rat) powi (ilog2 y - 52)"
  have "x / ?u \<le> y / ?u" using assms by (simp add: divide_right_mono)
  then have "round_even (x / ?u) \<le> round_even (y / ?u)" by (rule round_even_mono)
  then show ?thesis
    using assms True by (simp add: fl_def Let_def mult_right_mono)
next
  case False
  with ilog2_mono [OF assms] have "ilog2 x + 1 \<le> ilog2 y" by simp
  then have "(2::rat) powi (ilog2 x + 1) \<le> 2 powi (ilog2 y)" by simp
  then show ?thesis
    using fl_pos_bounds [of x] fl_pos_bounds [of y] assms by linarith
qed

lemma fl_mono: "0 \<le> x \<Longrightarrow> x \<le> y \<Longrightarrow> fl x \<le> fl y"
  using fl_mono_pos [of x y] fl_nonneg [of y] by (cases "x = 0") auto

text \<open>The relative error of rounding.\<close>

lemma round_even_near: "of_int (round_even q) \<le> q + 1 \<and> q - 1 \<le> of_int (round_even q)"
proof -
  have "of_int \<lfloor>q\<rfloor> \<le> q" "q < of_int \<lfloor>q\<rfloor> + 1" using floor_correct [of q] by simp_all
  then show ?thesis using round_even_cases [of q] by (elim disjE) (simp_all, linarith)
qed

lemma fl_error:
  assumes "0 < x"
  shows "x * (1 - 1 / 2 ^ 52) \<le> fl x" "fl x \<le> x * (1 + 1 / 2 ^ 52)"
proof -
  let ?u = "(2::rat) powi (ilog2 x - 52)"
  have u: "0 < ?u" by simp
  have "2 powi (ilog2 x) \<le> x" using ilog2_bounds [OF assms] by simp
  moreover have "2 powi (ilog2 x) = 2 ^ 52 * ?u" by (simp add: power_int_diff)
  ultimately have ux: "?u \<le> x / 2 ^ 52" by simp
  have eq: "fl x = of_int (round_even (x / ?u)) * ?u" using assms by (simp add: fl_def Let_def)
  have "of_int (round_even (x / ?u)) * ?u \<le> (x / ?u + 1) * ?u"
    "(x / ?u - 1) * ?u \<le> of_int (round_even (x / ?u)) * ?u"
    using round_even_near [of "x / ?u"] u by (intro mult_right_mono; simp)+
  moreover have "(x / ?u + 1) * ?u = x + ?u" "(x / ?u - 1) * ?u = x - ?u"
    using u by (simp_all add: field_simps)
  ultimately have "fl x \<le> x + ?u" "x - ?u \<le> fl x" unfolding eq by simp_all
  then show "x * (1 - 1 / 2 ^ 52) \<le> fl x" "fl x \<le> x * (1 + 1 / 2 ^ 52)"
    using ux by (simp_all add: field_simps)
qed

text \<open>A number with at most 53 significant bits is exact; so rounding twice is rounding once.\<close>

lemma fl_exact:
  assumes "0 < m" "m < 2 ^ 53"
  shows "fl (of_int m * 2 powi k) = of_int m * 2 powi k"
proof -
  let ?y = "of_int m * 2 powi k :: rat"
  have y: "0 < ?y" using assms by simp
  have "2 powi (ilog2 ?y) \<le> ?y" using ilog2_bounds [OF y] by simp
  also have "?y < of_int (2 ^ 53) * 2 powi k"
    using assms(2) by (intro mult_strict_right_mono) (simp_all only: of_int_less_iff, simp)
  also have "of_int (2 ^ 53) * 2 powi k = (2::rat) powi (53 + k)" by (simp add: power_int_add)
  finally have "ilog2 ?y < 53 + k" by (simp only: powi2_less_iff)
  then have j: "k = ilog2 ?y - 52 + int j" if "j = nat (k - (ilog2 ?y - 52))" for j
    using that by simp
  define j where "j = nat (k - (ilog2 ?y - 52))"
  let ?u = "(2::rat) powi (ilog2 ?y - 52)"
  have "(2::rat) powi k = 2 ^ j * ?u" by (subst j [OF j_def]) (simp add: power_int_add)
  moreover have "?u \<noteq> 0" by simp
  ultimately have "?y / ?u = of_int (m * 2 ^ j)" by (simp add: divide_eq_eq)
  then have "round_even (?y / ?u) = m * 2 ^ j" by (simp only: round_even_of_int)
  then show ?thesis
    using y \<open>(2::rat) powi k = 2 ^ j * ?u\<close> assms(1) by (simp add: fl_def Let_def abs_mult)
qed

lemma fl_of_int: "0 < n \<Longrightarrow> n < 2 ^ 53 \<Longrightarrow> fl (of_int n) = of_int n"
  using fl_exact [of n 0] by simp

lemma fl_fl_pos:
  assumes "0 < x"
  shows "fl (fl x) = fl x"
proof -
  let ?u = "(2::rat) powi (ilog2 x - 52)"
  define m where "m = round_even (x / ?u)"
  have eq: "fl x = of_int m * ?u" using assms by (simp add: fl_def Let_def m_def)
  have "of_int (2 ^ 52) * ?u \<le> of_int m * ?u" "of_int m * ?u \<le> of_int (2 ^ 53) * ?u"
    using fl_pos_bounds [OF assms] unfolding eq by (simp_all add: power_int_add power_int_diff)
  then have m: "2 ^ 52 \<le> m" "m \<le> 2 ^ 53"
    by (simp_all only: mult_le_cancel_right of_int_le_iff) simp_all
  show ?thesis
  proof (cases "m < 2 ^ 53")
    case True
    then show ?thesis unfolding eq using m(1) by (intro fl_exact) auto
  next
    case False
    then have "fl x = of_int 1 * 2 powi (ilog2 x + 1)"
      using m(2) eq by (simp add: power_int_add power_int_diff)
    then show ?thesis using fl_exact [of 1 "ilog2 x + 1"] by simp
  qed
qed

lemma fl_fl: "0 \<le> x \<Longrightarrow> fl (fl x) = fl x"
  using fl_fl_pos [of x] by (cases "x = 0") auto

lemma fl_one [simp]: "fl 1 = 1"
  using fl_of_int [of 1] by simp

lemma fl_billion [simp]: "fl 1000000000 = 1000000000"
  using fl_of_int [of 1000000000] by simp

section \<open>Durations\<close>

lemma go_div_nonneg: "0 \<le> a \<Longrightarrow> 0 < b \<Longrightarrow> go_div a b = a div b"
  by (cases "a = 0") (auto simp: go_div_def)

lemma go_mod_nonneg: "0 \<le> a \<Longrightarrow> 0 < b \<Longrightarrow> go_mod a b = a mod b"
  by (simp add: go_mod_def go_div_nonneg minus_mult_div_eq_mod)

lemma Seconds_nonneg: "0 \<le> d \<Longrightarrow> 0 \<le> Seconds d"
  by (simp add: Seconds_def go_div_nonneg go_mod_nonneg Second_def fl_nonneg pos_imp_zdiv_nonneg_iff)

lemma Seconds_zero [simp]: "Seconds 0 = 0"
  by (simp add: Seconds_def go_div_def go_mod_def)

lemma trunc_int_nonneg: "0 \<le> q \<Longrightarrow> 0 \<le> trunc_int q"
  by (simp add: trunc_int_def)

end
