(* ===== verification/Policy.thy ===== *)
theory Policy
  imports Float64
begin

text \<open>
  The authorization decision the write guard asks for, \<open>pkg/policy/policy.go\<close>: the input
  document, the decision, and the built-in deny-by-default policy \<open>WritebackDefault\<close>. The
  theorems give the decision in closed form, as the comment of the type states it.
\<close>

definition ApprovalApproved :: string where "ApprovalApproved = ''approved''"
definition ApprovalRejected :: string where "ApprovalRejected = ''rejected''"

definition RiskRead :: string where "RiskRead = ''read''"
definition RiskLow :: string where "RiskLow = ''low''"
definition RiskHigh :: string where "RiskHigh = ''high''"

definition RoleOperator :: string where "RoleOperator = ''integration-operator''"
definition RoleReader :: string where "RoleReader = ''integration-reader''"

lemmas policy_consts = ApprovalApproved_def ApprovalRejected_def RiskRead_def RiskLow_def RiskHigh_def
  RoleOperator_def RoleReader_def

record tool =
  tool_Name :: string
  tool_Risk :: string

record subject =
  sub_ID :: string
  sub_Roles :: "string list"
  sub_Agent :: bool
  sub_OnBehalfOf :: string

record action =
  act_Entity :: string
  act_Amount :: rat

record approval =
  ap_Status :: string
  ap_By :: string
  ap_Note :: string

record policy_input =
  in_Recipe :: string
  in_Tool :: tool
  in_Subject :: subject
  in_Action :: action
  in_Approval :: approval

record decision =
  Allow :: bool
  RequireApproval :: bool
  Denied :: bool
  Reasons :: "message list"

definition no_approval :: approval where
  "no_approval = \<lparr>ap_Status = [], ap_By = [], ap_Note = []\<rparr>"

fun has_role :: "string list \<Rightarrow> string \<Rightarrow> bool" where
  "has_role [] role = False"
| "has_role (r # rs) role = (if r = role then True else has_role rs role)"

definition HasRole :: "subject \<Rightarrow> string \<Rightarrow> bool" where
  "HasRole s role = has_role (sub_Roles s) role"

text \<open>\<open>WritebackDefault.Decide\<close>; the argument is the configured threshold, 0 for the default.\<close>

definition WritebackDefault_Decide :: "rat \<Rightarrow> policy_input \<Rightarrow> decision" where
  "WritebackDefault_Decide AmountThreshold i =
     (let threshold = (if AmountThreshold = 0 then 50000 else AmountThreshold);
          risk = tool_Risk (in_Tool i);
          sub = in_Subject i;
          d0 = \<lparr>Allow = False, RequireApproval = False, Denied = False, Reasons = []\<rparr>;
          d1 = (if risk = RiskRead then
                  d0\<lparr>Allow := HasRole sub RoleOperator \<or> HasRole sub RoleReader\<rparr>
                else if risk = RiskLow then
                  d0\<lparr>Allow := HasRole sub RoleOperator\<rparr>
                else if risk = RiskHigh then
                  d0\<lparr>Allow := ap_Status (in_Approval i) = ApprovalApproved, RequireApproval := True,
                     Reasons := Reasons d0 @ [Msg ''high-risk tool'' []]\<rparr>
                else d0\<lparr>Reasons := Reasons d0 @ [Msg ''unknown risk tier '' [AStr risk]]\<rparr>);
          d2 = (if threshold < act_Amount (in_Action i) then
                  d1\<lparr>RequireApproval := True, Reasons := Reasons d1 @ [Msg ''amount above approval threshold'' []]\<rparr>
                else d1);
          d3 = (if sub_Agent sub \<and> (risk = RiskLow \<or> risk = RiskHigh) \<and> \<not> HasRole sub RoleOperator then
                  d2\<lparr>Allow := False, Denied := True,
                     Reasons := Reasons d2 @ [Msg ''agents need the integration-operator role to write'' []]\<rparr>
                else d2)
      in if ap_Status (in_Approval i) = ApprovalRejected then
           d3\<lparr>Allow := False, Denied := True, Reasons := Reasons d3 @ [Msg ''approval rejected'' []]\<rparr>
         else d3)"

text \<open>What the policy promises, read off its documentation.\<close>

definition may_act :: "policy_input \<Rightarrow> bool" where
  "may_act i \<longleftrightarrow>
     (let s = in_Subject i; risk = tool_Risk (in_Tool i)
      in risk = RiskRead \<and> (RoleOperator \<in> set (sub_Roles s) \<or> RoleReader \<in> set (sub_Roles s))
         \<or> risk = RiskLow \<and> RoleOperator \<in> set (sub_Roles s)
         \<or> risk = RiskHigh \<and> ap_Status (in_Approval i) = ApprovalApproved)"

definition agent_barred :: "policy_input \<Rightarrow> bool" where
  "agent_barred i \<longleftrightarrow>
     sub_Agent (in_Subject i) \<and> tool_Risk (in_Tool i) \<in> {RiskLow, RiskHigh}
     \<and> RoleOperator \<notin> set (sub_Roles (in_Subject i))"

section \<open>Properties\<close>

lemma has_role_set: "has_role rs role \<longleftrightarrow> role \<in> set rs"
  by (induction rs) auto

lemma HasRole_set [simp]: "HasRole s role \<longleftrightarrow> role \<in> set (sub_Roles s)"
  by (simp add: HasRole_def has_role_set)

text \<open>The built-in policy is deny-by-default. It allows an action exactly when it is a read by an
  operator or reader, a low-risk write by an operator or a high-risk write that was approved, and
  neither an agent without the operator role asks for a write nor the approval was rejected; it
  requires approval exactly for high-risk writes and amounts above the threshold; and a denial is
  final exactly for such agents and for rejected approvals.\<close>

theorem WritebackDefault_spec:
  "Allow (WritebackDefault_Decide t i) = (may_act i \<and> \<not> agent_barred i \<and> ap_Status (in_Approval i) \<noteq> ApprovalRejected)
   \<and> RequireApproval (WritebackDefault_Decide t i)
       = (tool_Risk (in_Tool i) = RiskHigh \<or> (if t = 0 then 50000 else t) < act_Amount (in_Action i))
   \<and> Denied (WritebackDefault_Decide t i) = (agent_barred i \<or> ap_Status (in_Approval i) = ApprovalRejected)"
  by (auto simp: WritebackDefault_Decide_def may_act_def agent_barred_def policy_consts Let_def)

end
