(* ===== verification/Audit_Log.thy ===== *)
theory Audit_Log
  imports Prelude "HOL-Library.Word"
begin

text \<open>
  The append-only, hash-chained audit log, \<open>pkg/audit/audit.go\<close>. An entry commits to the entry
  before it by its sequence number (a 64-bit counter) and the previous hash; \<open>Verify\<close> checks
  every link. The hash of an entry (the hexadecimal SHA-256 of its JSON form without the hash
  field) is a parameter \<open>H\<close>. A line of a log is blank, bytes that are no entry, or an entry.

  Shown: recording keeps the log verifiable and its head current; the head commits to the whole
  log when the hash has no collision; removing an inner entry is detected; a truncated log is not.
\<close>

record entry =
  Seq :: "64 word"
  Time :: int
  Actor :: string
  Action :: string
  Data :: raw
  Prev :: string
  Hash :: string

definition Genesis :: string where
  "Genesis = replicate 64 (CHR ''0'')"

definition computeHash :: "(entry \<Rightarrow> string) \<Rightarrow> entry \<Rightarrow> string" where
  "computeHash H e = H (e\<lparr>Hash := []\<rparr>)"

text \<open>Times count nanoseconds; an entry keeps microseconds.\<close>

definition Next :: "(entry \<Rightarrow> string) \<Rightarrow> 64 word \<Rightarrow> string \<Rightarrow> int \<Rightarrow> string \<Rightarrow> string \<Rightarrow> raw \<Rightarrow> entry" where
  "Next H seq prev now actor act data =
     (let e = \<lparr>Seq = seq + 1, Time = now - now mod 1000, Actor = actor, Action = act,
               Data = data, Prev = prev, Hash = []\<rparr>
      in e\<lparr>Hash := computeHash H e\<rparr>)"

text \<open>\<open>Encode\<close>: a nil value has no data, any other is its JSON.\<close>

definition Encode :: "json option \<Rightarrow> raw" where
  "Encode data = (case data of None \<Rightarrow> RawEmpty | Some j \<Rightarrow> RawDoc j)"

definition Link :: "(entry \<Rightarrow> string) \<Rightarrow> 64 word \<Rightarrow> string \<Rightarrow> entry \<Rightarrow> goerror option" where
  "Link H seq prev e =
     (if Seq e \<noteq> seq + 1 then
        Some (Wrap_sentinel ErrTampered ''%w: entry has seq %d, want %d'' [AInt (uint (Seq e)), AInt (uint (seq + 1))])
      else if Prev e \<noteq> prev then
        Some (Wrap_sentinel ErrTampered ''%w: entry %d does not link to entry %d'' [AInt (uint (Seq e)), AInt (uint seq)])
      else if computeHash H e \<noteq> Hash e then
        Some (Wrap_sentinel ErrTampered ''%w: entry %d content does not match its hash'' [AInt (uint (Seq e))])
      else None)"

datatype line = Blank | NotEntry string | Line entry

record log =
  w_lines :: "line list"
  log_seq :: "64 word"
  log_last :: string

definition New_log :: "line list \<Rightarrow> log" where
  "New_log w = \<lparr>w_lines = w, log_seq = 0, log_last = Genesis\<rparr>"

text \<open>\<open>Log.Record\<close>: \<open>now\<close> is the clock, \<open>werr\<close> the error the writer returns, if any; a failed
  write leaves the writer as it was.\<close>

definition Record ::
  "(entry \<Rightarrow> string) \<Rightarrow> int \<Rightarrow> goerror option \<Rightarrow> log \<Rightarrow> string \<Rightarrow> string \<Rightarrow> json option \<Rightarrow> (goerror + entry) \<times> log" where
  "Record H now werr l actor act data =
     (let e = Next H (log_seq l) (log_last l) now actor act (Encode data)
      in case werr of
           Some err \<Rightarrow> (Inl (Wrap_err ''audit: write: %w'' [] err), l)
         | None \<Rightarrow> (Inr e, l\<lparr>w_lines := w_lines l @ [Line e], log_seq := Seq e, log_last := Hash e\<rparr>))"

definition Head :: "log \<Rightarrow> 64 word \<times> string" where
  "Head l = (log_seq l, log_last l)"

text \<open>The loop of \<open>Verify\<close>: the last entry read so far and the first broken link, if any.\<close>

fun Verify_loop ::
  "(entry \<Rightarrow> string) \<Rightarrow> nat \<Rightarrow> 64 word \<Rightarrow> string \<Rightarrow> entry option \<Rightarrow> line list \<Rightarrow> entry option \<times> goerror option" where
  "Verify_loop H n seq prev lst [] = (lst, None)"
| "Verify_loop H n seq prev lst (Blank # ls) = Verify_loop H (n + 1) seq prev lst ls"
| "Verify_loop H n seq prev lst (NotEntry s # ls) =
     (lst, Some (Wrap_sentinel ErrTampered ''%w: line %d is not a valid entry: %v'' [AInt (int n), AStr s]))"
| "Verify_loop H n seq prev lst (Line e # ls) =
     (case Link H seq prev e of
        Some err \<Rightarrow> (lst, Some (Wrap_err ''line %d: %w'' [AInt (int n)] err))
      | None \<Rightarrow> Verify_loop H (n + 1) (Seq e) (Hash e) (Some e) ls)"

definition Verify :: "(entry \<Rightarrow> string) \<Rightarrow> line list \<Rightarrow> entry option \<times> goerror option" where
  "Verify H ls = Verify_loop H 1 0 Genesis None ls"

text \<open>\<open>OpenFile\<close> on a file that opened, whose content is \<open>ls\<close>.\<close>

definition OpenFile :: "(entry \<Rightarrow> string) \<Rightarrow> line list \<Rightarrow> goerror + log" where
  "OpenFile H ls =
     (case Verify H ls of
        (_, Some err) \<Rightarrow> Inl err
      | (None, None) \<Rightarrow> Inr (New_log ls)
      | (Some e, None) \<Rightarrow> Inr ((New_log ls)\<lparr>log_seq := Seq e, log_last := Hash e\<rparr>))"

text \<open>The invariant of an open log: what it wrote verifies, and its head is the last entry.\<close>

definition log_ok :: "(entry \<Rightarrow> string) \<Rightarrow> log \<Rightarrow> bool" where
  "log_ok H l \<longleftrightarrow>
     (case Verify H (w_lines l) of
        (_, Some err) \<Rightarrow> False
      | (None, None) \<Rightarrow> log_seq l = 0 \<and> log_last l = Genesis
      | (Some e, None) \<Rightarrow> log_seq l = Seq e \<and> log_last l = Hash e)"

text \<open>A chain from \<open>(seq, prev)\<close>: every entry links to the one before it.\<close>

fun chain :: "(entry \<Rightarrow> string) \<Rightarrow> 64 word \<Rightarrow> string \<Rightarrow> entry list \<Rightarrow> bool" where
  "chain H seq prev [] = True"
| "chain H seq prev (e # es) = (Link H seq prev e = None \<and> chain H (Seq e) (Hash e) es)"

fun entries :: "line list \<Rightarrow> entry list" where
  "entries [] = []"
| "entries (Line e # ls) = e # entries ls"
| "entries (l # ls) = entries ls"

text \<open>The calls of \<open>Record\<close> on one log, with what the clock and the writer did at each.\<close>

fun Records ::
  "(entry \<Rightarrow> string) \<Rightarrow> log \<Rightarrow> (int \<times> goerror option \<times> string \<times> string \<times> json option) list \<Rightarrow> log" where
  "Records H l [] = l"
| "Records H l ((now, werr, actor, act, data) # cs) = Records H (snd (Record H now werr l actor act data)) cs"

section \<open>Links and chains\<close>

lemma Link_None_iff:
  "Link H seq prev e = None \<longleftrightarrow> Seq e = seq + 1 \<and> Prev e = prev \<and> Hash e = computeHash H e"
  by (auto simp: Link_def)

lemma Link_tampered: "Link H seq prev e = Some err \<Longrightarrow> errors_Is err ErrTampered"
  by (auto simp: Link_def errors_Is_def Wrap_sentinel_def split: if_splits)

lemma computeHash_Hash [simp]: "computeHash H (e\<lparr>Hash := h\<rparr>) = computeHash H e"
  by (simp add: computeHash_def)

lemma Link_Next [simp]: "Link H seq prev (Next H seq prev now actor act data) = None"
  by (simp add: Link_None_iff Next_def Let_def computeHash_def)

lemma chain_append:
  "chain H seq prev (xs @ ys) \<longleftrightarrow>
     chain H seq prev xs
     \<and> chain H (if xs = [] then seq else Seq (last xs)) (if xs = [] then prev else Hash (last xs)) ys"
  by (induction xs arbitrary: seq prev) auto

lemma entries_append [simp]: "entries (xs @ ys) = entries xs @ entries ys"
  by (induction xs rule: entries.induct) auto

lemma Verify_loop_ok_iff:
  "snd (Verify_loop H n seq prev l ls) = None \<longleftrightarrow>
     (\<forall>s. NotEntry s \<notin> set ls) \<and> chain H seq prev (entries ls)"
  by (induction H n seq prev l ls rule: Verify_loop.induct) (auto split: option.splits)

lemma Verify_loop_last:
  "snd (Verify_loop H n seq prev l ls) = None \<Longrightarrow>
     fst (Verify_loop H n seq prev l ls) = (if entries ls = [] then l else Some (last (entries ls)))"
  by (induction H n seq prev l ls rule: Verify_loop.induct) (auto split: option.splits)

lemma Verify_loop_tampered:
  "snd (Verify_loop H n seq prev l ls) = Some err \<Longrightarrow> errors_Is err ErrTampered"
  by (induction H n seq prev l ls rule: Verify_loop.induct)
    (auto simp: go_defs split: option.splits dest: Link_tampered)

lemma Verify_ok_iff:
  "snd (Verify H ls) = None \<longleftrightarrow> (\<forall>s. NotEntry s \<notin> set ls) \<and> chain H 0 Genesis (entries ls)"
  by (simp add: Verify_def Verify_loop_ok_iff)

lemma log_ok_iff:
  "log_ok H l \<longleftrightarrow> snd (Verify H (w_lines l)) = None
     \<and> (if entries (w_lines l) = [] then log_seq l = 0 \<and> log_last l = Genesis
        else log_seq l = Seq (last (entries (w_lines l))) \<and> log_last l = Hash (last (entries (w_lines l))))"
  using Verify_loop_last [of H 1 0 Genesis None "w_lines l"]
  by (auto simp: log_ok_def Verify_def split: prod.splits option.splits if_splits)

section \<open>Recording\<close>

lemma log_ok_New: "snd (Verify H ls) = None \<Longrightarrow> entries ls = [] \<Longrightarrow> log_ok H (New_log ls)"
  by (simp add: log_ok_iff New_log_def)

lemma log_ok_Record: "log_ok H l \<Longrightarrow> log_ok H (snd (Record H now werr l actor act data))"
  by (cases werr)
    (auto simp: log_ok_iff Record_def Let_def Verify_ok_iff chain_append split: if_splits)

lemma w_lines_Record:
  "w_lines (snd (Record H now werr l actor act data)) =
     w_lines l @ (if werr = None then [Line (Next H (log_seq l) (log_last l) now actor act (Encode data))] else [])"
  by (cases werr) (auto simp: Record_def Let_def)

lemma log_ok_OpenFile: "OpenFile H ls = Inr l \<Longrightarrow> log_ok H l \<and> w_lines l = ls"
  by (auto simp: OpenFile_def log_ok_def New_log_def split: prod.splits option.splits)

lemma log_ok_Records: "log_ok H l \<Longrightarrow> log_ok H (Records H l cs)"
  by (induction H l cs rule: Records.induct) (auto intro: log_ok_Record)

lemma w_lines_Records:
  "\<exists>es. w_lines (Records H l cs) = w_lines l @ map Line es \<and> length es = length (filter (\<lambda>c. fst (snd c) = None) cs)"
proof (induction H l cs rule: Records.induct)
  case (1 H l)
  then show ?case by simp
next
  case (2 H l now werr actor act data cs)
  then obtain es where
    es: "w_lines (Records H l ((now, werr, actor, act, data) # cs)) = w_lines (snd (Record H now werr l actor act data)) @ map Line es"
    and len: "length es = length (filter (\<lambda>c. fst (snd c) = None) cs)"
    by auto
  let ?e = "Next H (log_seq l) (log_last l) now actor act (Encode data)"
  show ?case
    using es len by (intro exI [of _ "(if werr = None then [?e] else []) @ es"]) (auto simp: w_lines_Record)
qed



section \<open>Tampering\<close>

lemma chain_Seq: "chain H seq prev es \<Longrightarrow> es \<noteq> [] \<Longrightarrow> Seq (last es) = seq + of_nat (length es)"
  by (induction es arbitrary: seq prev) (auto simp: Link_None_iff)

lemma of_nat_word64_nonzero:
  assumes "0 < n" "n < 2 ^ 64"
  shows "of_nat n \<noteq> (0 :: 64 word)"
  using assms nat_dvd_not_less by (auto simp: word_of_nat_eq_0_iff)

lemma chain_from_zero_nonempty:
  assumes "chain H 0 prev es" "es \<noteq> []" "length es < 2 ^ 64"
  shows "Seq (last es) \<noteq> 0"
  using chain_Seq [OF assms(1,2)] of_nat_word64_nonzero [of "length es"] assms(2,3) by simp

lemma chain_snoc:
  "chain H 0 Genesis (xs @ [x]) \<longleftrightarrow>
     chain H 0 Genesis xs \<and> Hash x = computeHash H x
     \<and> (if xs = [] then Seq x = 1 \<and> Prev x = Genesis else Seq x = Seq (last xs) + 1 \<and> Prev x = Hash (last xs))"
  by (auto simp: chain_append Link_None_iff)

lemma same_hash_same_entry:
  assumes "inj_on H ((\<lambda>e. e\<lparr>Hash := []\<rparr>) ` S)" "x \<in> S" "y \<in> S"
    and "Hash x = computeHash H x" "Hash y = computeHash H y" "Hash x = Hash y"
  shows "x = y"
proof -
  have "H (x\<lparr>Hash := []\<rparr>) = H (y\<lparr>Hash := []\<rparr>)" using assms(4-6) by (simp add: computeHash_def)
  then have "x\<lparr>Hash := []\<rparr> = y\<lparr>Hash := []\<rparr>" using assms(1-3) by (simp add: inj_on_eq_iff)
  then show ?thesis using assms(6) by (cases x, cases y) simp
qed

lemma chain_head_unique:
  assumes "chain H 0 Genesis xs" "chain H 0 Genesis ys" "xs \<noteq> []" "ys \<noteq> []"
    and "Hash (last xs) = Hash (last ys)"
    and "inj_on H ((\<lambda>e. e\<lparr>Hash := []\<rparr>) ` S)" "set xs \<subseteq> S" "set ys \<subseteq> S"
    and "length xs < 2 ^ 64" "length ys < 2 ^ 64"
  shows "xs = ys"
  using assms
proof (induction xs arbitrary: ys rule: rev_induct)
  case Nil
  then show ?case by simp
next
  case (snoc x xs)
  then obtain zs y where ys: "ys = zs @ [y]" by (cases ys rule: rev_cases) auto
  have xy: "x = y"
    using snoc.prems by (intro same_hash_same_entry [of H S]) (auto simp: ys chain_snoc)
  have cs: "chain H 0 Genesis xs" "chain H 0 Genesis zs"
    using snoc.prems by (simp_all add: ys chain_snoc)
  have "xs = [] \<longleftrightarrow> zs = []"
    using chain_from_zero_nonempty [OF cs(1)] chain_from_zero_nonempty [OF cs(2)] snoc.prems
    by (auto simp: ys chain_snoc xy split: if_splits)
  then show ?case
  proof (cases "xs = []")
    case False
    with \<open>xs = [] \<longleftrightarrow> zs = []\<close> have "zs \<noteq> []" by simp
    with False snoc.prems have "Hash (last xs) = Hash (last zs)"
      by (simp add: ys chain_snoc xy)
    with snoc.IH [OF cs] False \<open>zs \<noteq> []\<close> snoc.prems show ?thesis by (simp add: ys xy)
  qed (simp add: ys xy)
qed

text \<open>C26: the hash of the last entry commits to the whole log. Two logs that verify and end in
  entries with the same hash hold the same entries, as long as the hash function has no collision
  among the entries of the two logs (and neither has \<open>2 ^ 64\<close> entries).\<close>

theorem Verify_head_commits:
  assumes "Verify H ls = (Some e, None)" "Verify H ls' = (Some e', None)" "Hash e = Hash e'"
    and "inj_on H ((\<lambda>e. e\<lparr>Hash := []\<rparr>) ` (set (entries ls) \<union> set (entries ls')))"
    and "length (entries ls) < 2 ^ 64" "length (entries ls') < 2 ^ 64"
  shows "entries ls = entries ls'"
proof -
  have last: "entries xs \<noteq> [] \<and> last (entries xs) = x \<and> chain H 0 Genesis (entries xs)"
    if "Verify H xs = (Some x, None)" for xs x
    using that Verify_loop_last [of H 1 0 Genesis None xs] Verify_ok_iff [of H xs]
    by (auto simp: Verify_def split: if_splits)
  show ?thesis
    using last [OF assms(1)] last [OF assms(2)] assms(3-6)
    by (intro chain_head_unique [of H _ _ "set (entries ls) \<union> set (entries ls')"]) auto
qed

lemma Verify_head_commits_witness:
  "entries [Blank, Line (Next Actor 0 Genesis 5 ''ada'' ''read'' RawEmpty)]
   = entries [Line (Next Actor 0 Genesis 5 ''ada'' ''read'' RawEmpty)]"
proof -
  let ?e = "Next Actor 0 Genesis 5 ''ada'' ''read'' RawEmpty"
  have v: "Verify Actor [Blank, Line ?e] = (Some ?e, None)" "Verify Actor [Line ?e] = (Some ?e, None)"
    by (simp_all add: Verify_def)
  show ?thesis by (rule Verify_head_commits [OF v]) (simp_all add: Verify_def)
qed

text \<open>An entry cannot be removed from the middle of a log unnoticed: if a log verifies, the log
  without an entry that is followed by another is reported as tampered with. (No assumption on the
  hash is needed: the sequence numbers show it.)\<close>

theorem Verify_detects_removal:
  assumes "snd (Verify H (ls @ Line e # Line e' # rs)) = None"
  shows "\<exists>err. snd (Verify H (ls @ Line e' # rs)) = Some err \<and> errors_Is err ErrTampered"
proof -
  have "Seq e' = Seq e + 1"
    and "Seq e = (if entries ls = [] then 0 else Seq (last (entries ls))) + 1"
    using assms by (auto simp: Verify_ok_iff chain_append Link_None_iff split: if_splits)
  then have "snd (Verify H (ls @ Line e' # rs)) \<noteq> None"
    by (auto simp: Verify_ok_iff chain_append Link_None_iff split: if_splits)
  then show ?thesis
    using Verify_loop_tampered [of H 1 0 Genesis None "ls @ Line e' # rs"] by (auto simp: Verify_def)
qed

lemma Verify_detects_removal_witness:
  "\<exists>err. snd (Verify Actor ([] @ Line (Next Actor 1 ''ada'' 9 ''bob'' ''read'' RawEmpty) # [])) = Some err
     \<and> errors_Is err ErrTampered"
proof -
  let ?e = "Next Actor 0 Genesis 5 ''ada'' ''read'' RawEmpty"
  have "snd (Verify Actor ([] @ Line ?e # Line (Next Actor 1 ''ada'' 9 ''bob'' ''read'' RawEmpty) # [])) = None"
    by (simp add: Verify_ok_iff Next_def Let_def computeHash_def Link_None_iff)
  then show ?thesis by (rule Verify_detects_removal)
qed

text \<open>C21: a truncated log verifies: every log that verifies still does after any number of lines are
  cut off its end, so \<open>Verify\<close> alone does not detect that the newest entries were deleted.\<close>

theorem Verify_accepts_truncation:
  assumes "snd (Verify H ls) = None"
  shows "snd (Verify H (take n ls)) = None"
proof -
  have "ls = take n ls @ drop n ls" by simp
  then have "entries ls = entries (take n ls) @ entries (drop n ls)" by (metis entries_append)
  then show ?thesis
    using assms by (auto simp: Verify_ok_iff chain_append dest: in_set_takeD)
qed

lemma Verify_accepts_truncation_witness:
  "snd (Verify Actor (take 1 [Line (Next Actor 0 Genesis 5 ''ada'' ''read'' RawEmpty),
      Line (Next Actor 1 ''ada'' 9 ''bob'' ''write'' RawEmpty)])) = None"
  by (rule Verify_accepts_truncation)
    (simp add: Verify_ok_iff Next_def Let_def computeHash_def Link_None_iff)

end
