(* ===== verification/Guard_Types.thy ===== *)
theory Guard_Types
  imports Policy
begin

text \<open>
  The data of the write guard, \<open>pkg/writeguard/guard.go\<close> and \<open>read.go\<close>: requests, outcomes,
  the result of the first phase, and the amount check that compares a request's amount with the
  one the target's dry run shows. The text of an amount mismatch is its message, with the numbers
  as arguments.
\<close>

datatype status = StatusCommitted | StatusDuplicate | StatusDenied | StatusRejected | StatusFailed

record amount_check =
  chk_Preview :: string
  chk_Tolerance :: rat

record request =
  req_Target :: string
  req_Operation :: string
  req_Tool :: string
  req_Risk :: string
  req_Subject :: subject
  req_IdempotencyKey :: string
  req_Payload :: raw
  req_Entity :: string
  req_Amount :: rat
  req_Simulate :: bool
  req_Compensation :: string
  req_Recipe :: string
  req_RequireApproval :: bool
  req_Reason :: string
  req_CheckAmount :: "amount_check option"

record outcome =
  out_Status :: status
  out_Result :: raw
  out_Preview :: raw
  out_Approval :: "approval option"
  out_Reasons :: "message list"

record prepared =
  pr_Duplicate :: "outcome option"
  pr_Decision :: decision
  pr_Preview :: raw
  pr_NeedsApproval :: bool
  pr_AmountMismatch :: "message option"

record approval_request =
  ar_Request :: request
  ar_Preview :: raw
  ar_Reasons :: "message list"

record read_request =
  rd_Target :: string
  rd_Operation :: string
  rd_Tool :: string
  rd_Subject :: subject
  rd_Entity :: string
  rd_ID :: string

definition Outcome_of :: "status \<Rightarrow> outcome" where
  "Outcome_of s = \<lparr>out_Status = s, out_Result = RawEmpty, out_Preview = RawEmpty, out_Approval = None, out_Reasons = []\<rparr>"

definition no_decision :: decision where
  "no_decision = \<lparr>Allow = False, RequireApproval = False, Denied = False, Reasons = []\<rparr>"

definition no_prepared :: prepared where
  "no_prepared = \<lparr>pr_Duplicate = None, pr_Decision = no_decision, pr_Preview = RawEmpty,
     pr_NeedsApproval = False, pr_AmountMismatch = None\<rparr>"

section \<open>Keys\<close>

definition storeKey :: "request \<Rightarrow> string" where
  "storeKey req = req_Target req @ ''/'' @ req_Operation req @ ''/'' @ req_IdempotencyKey req"

definition compensateKey :: "request \<Rightarrow> string" where
  "compensateKey req = req_Target req @ ''/'' @ req_Compensation req @ ''/'' @ req_IdempotencyKey req @ ''#compensate''"

definition maxGenerations :: nat where
  "maxGenerations = 50"

definition guard_actor :: "subject \<Rightarrow> string" where
  "guard_actor s =
     (if sub_Agent s \<and> sub_OnBehalfOf s \<noteq> [] then sub_ID s @ '' for '' @ sub_OnBehalfOf s else sub_ID s)"

definition guard_input :: "request \<Rightarrow> policy_input" where
  "guard_input req =
     \<lparr>in_Recipe = req_Recipe req,
      in_Tool = \<lparr>tool_Name = req_Tool req, tool_Risk = req_Risk req\<rparr>,
      in_Subject = req_Subject req,
      in_Action = \<lparr>act_Entity = req_Entity req, act_Amount = req_Amount req\<rparr>,
      in_Approval = no_approval\<rparr>"

section \<open>Amounts in documents\<close>

text \<open>\<open>strconv.ParseFloat\<close> on decimal notation: sign, digits with an optional point (at least one
  digit), optional exponent; the result is the rounded value. Hexadecimal notation and the
  spellings of infinity and NaN are not modelled.\<close>

definition parse_exponent :: "string \<Rightarrow> int option" where
  "parse_exponent s = Atoi s"

definition ParseFloat :: "string \<Rightarrow> rat option" where
  "ParseFloat s =
     (let (neg, d) = (case s of
            [] \<Rightarrow> (False, [])
          | c # r \<Rightarrow> if c = CHR ''-'' then (True, r) else if c = CHR ''+'' then (False, r) else (False, s));
          mantissa = takeWhile (\<lambda>c. is_digit c \<or> c = CHR ''.'') d;
          rest = dropWhile (\<lambda>c. is_digit c \<or> c = CHR ''.'') d;
          (whole, frac) = CutByte (CHR ''.'') mantissa;
          fr = (case frac of None \<Rightarrow> [] | Some f \<Rightarrow> f);
          ex = (case rest of [] \<Rightarrow> Some 0 | c # e \<Rightarrow> if c = CHR ''e'' \<or> c = CHR ''E'' then parse_exponent e else None)
      in if (whole = [] \<and> fr = []) \<or> \<not> list_all is_digit fr then None
         else case ex of
           None \<Rightarrow> None
         | Some k \<Rightarrow>
             let v = of_nat (digits_val (whole @ fr)) * 10 powi (k - int (length fr))
             in Some (fl (if neg then - v else v)))"

fun walk_path :: "json \<Rightarrow> string list \<Rightarrow> json option" where
  "walk_path v [] = Some v"
| "walk_path v (k # ks) =
     (case v of
        JObj m \<Rightarrow> walk_path (case map_of m k of None \<Rightarrow> JNull | Some w \<Rightarrow> w) ks
      | _ \<Rightarrow> None)"

definition AmountAt :: "json \<Rightarrow> string \<Rightarrow> rat option" where
  "AmountAt doc path =
     (case walk_path doc (Split (CHR ''.'') path) of
        Some (JNum n) \<Rightarrow> Some (fl n)
      | Some (JStr s) \<Rightarrow> ParseFloat (TrimSpace s)
      | _ \<Rightarrow> None)"

text \<open>Two amounts agree when they differ by at most the relative tolerance or half a cent
  (0.005 is the nearest float to it).\<close>

definition amounts_agree :: "rat \<Rightarrow> rat \<Rightarrow> rat \<Rightarrow> bool" where
  "amounts_agree tolerance amount shown \<longleftrightarrow>
     \<bar>fl (shown - amount)\<bar> \<le> max (fl (tolerance * \<bar>amount\<bar>)) (fl (5 / 1000))"

definition mismatch :: "rat \<Rightarrow> raw \<Rightarrow> amount_check \<Rightarrow> message option" where
  "mismatch amount preview c =
     (case preview of
        RawEmpty \<Rightarrow> Some (Msg ''the amount %.2f could not be checked: the target gave no dry run'' [AFloat amount])
      | RawBad _ \<Rightarrow> Some (Msg ''the amount %.2f could not be checked: the dry run is not JSON'' [AFloat amount])
      | RawDoc doc \<Rightarrow>
          (case AmountAt doc (chk_Preview c) of
             None \<Rightarrow> Some (Msg ''the amount %.2f could not be checked: the dry run shows no amount at %s''
               [AFloat amount, AStr (chk_Preview c)])
           | Some shown \<Rightarrow>
               if amounts_agree (chk_Tolerance c) amount shown then None
               else Some (Msg ''the target's dry run shows %.2f at %s, the source %.2f''
                 [AFloat shown, AStr (chk_Preview c), AFloat amount])))"

section \<open>Properties\<close>

lemma compensateKey_storeKey:
  "compensateKey req = storeKey (req\<lparr>req_Operation := req_Compensation req,
     req_IdempotencyKey := req_IdempotencyKey req @ ''#compensate''\<rparr>)"
  by (simp add: compensateKey_def storeKey_def)

lemma storeKey_inj_key: "storeKey (req\<lparr>req_IdempotencyKey := a\<rparr>) = storeKey (req\<lparr>req_IdempotencyKey := b\<rparr>) \<longleftrightarrow> a = b"
  by (simp add: storeKey_def)

lemma mismatch_None_iff:
  "mismatch amount preview c = None \<longleftrightarrow>
     (\<exists>doc shown. preview = RawDoc doc \<and> AmountAt doc (chk_Preview c) = Some shown
        \<and> amounts_agree (chk_Tolerance c) amount shown)"
  by (auto simp: mismatch_def split: raw.splits option.splits)

lemma guard_input_simps [simp]:
  "in_Approval (guard_input req) = no_approval" "in_Subject (guard_input req) = req_Subject req"
  "tool_Risk (in_Tool (guard_input req)) = req_Risk req"
  by (simp_all add: guard_input_def)

end
