(* ===== verification/Idempotency.thy ===== *)
theory Idempotency
  imports Guard_Types
begin

text \<open>
  The de-duplication store of the write guard, \<open>pkg/writeguard/idempotency.go\<close>, as an interface
  (a record of operations and the locale \<open>idem_store\<close> of the laws the guard relies on), with its
  two implementations: the in-process \<open>MemoryStore\<close> and the table \<open>turgon_writes\<close> of
  \<open>pkg/store/pgstore/pgstore.go\<close>, whose claims expire after a lease. Database errors are not
  modelled; the statements \<open>now()\<close> of the SQL are the parameter \<open>now\<close>.

  Any number of concurrent clients that claim, complete and abort keys are a step relation; the
  locale shows that a key is held by at most one client and completed at most once, and each
  implementation inherits it by interpretation.
\<close>

record 's store_ops =
  st_Begin :: "string \<Rightarrow> 's \<Rightarrow> (goerror + outcome option) \<times> 's"
  st_Lookup :: "string \<Rightarrow> 's \<Rightarrow> goerror + outcome option"
  st_Complete :: "string \<Rightarrow> outcome \<Rightarrow> 's \<Rightarrow> goerror option \<times> 's"
  st_Abort :: "string \<Rightarrow> 's \<Rightarrow> goerror option \<times> 's"

section \<open>MemoryStore\<close>

record memory_store =
  ms_done :: "string \<Rightarrow> outcome option"
  ms_inflight :: "string \<Rightarrow> bool"

definition NewMemoryStore :: memory_store where
  "NewMemoryStore = \<lparr>ms_done = (\<lambda>_. None), ms_inflight = (\<lambda>_. False)\<rparr>"

definition ms_Begin :: "string \<Rightarrow> memory_store \<Rightarrow> (goerror + outcome option) \<times> memory_store" where
  "ms_Begin key s =
     (case ms_done s key of
        Some out \<Rightarrow> (Inr (Some out), s)
      | None \<Rightarrow>
          if ms_inflight s key then (Inl (Sentinel ErrInFlight), s)
          else (Inr None, s\<lparr>ms_inflight := (ms_inflight s)(key := True)\<rparr>))"

definition ms_Lookup :: "string \<Rightarrow> memory_store \<Rightarrow> goerror + outcome option" where
  "ms_Lookup key s = Inr (ms_done s key)"

definition ms_Complete :: "string \<Rightarrow> outcome \<Rightarrow> memory_store \<Rightarrow> goerror option \<times> memory_store" where
  "ms_Complete key out s =
     (None, s\<lparr>ms_inflight := (ms_inflight s)(key := False), ms_done := (ms_done s)(key \<mapsto> out)\<rparr>)"

definition ms_Abort :: "string \<Rightarrow> memory_store \<Rightarrow> goerror option \<times> memory_store" where
  "ms_Abort key s = (None, s\<lparr>ms_inflight := (ms_inflight s)(key := False)\<rparr>)"

definition memory_ops :: "memory_store store_ops" where
  "memory_ops = \<lparr>st_Begin = ms_Begin, st_Lookup = ms_Lookup, st_Complete = ms_Complete, st_Abort = ms_Abort\<rparr>"

section \<open>The table \<open>turgon_writes\<close>\<close>

datatype pg_row = Inflight (claimed_at: int) | Done (row_outcome: outcome)

type_synonym pg_table = "string \<Rightarrow> pg_row option"

text \<open>The default lease, five minutes in nanoseconds.\<close>

definition Lease :: int where
  "Lease = 300 * Second"

definition pg_lookup :: "string \<Rightarrow> pg_table \<Rightarrow> goerror + outcome option" where
  "pg_lookup key tb = Inr (case tb key of Some (Done out) \<Rightarrow> Some out | _ \<Rightarrow> None)"

definition pg_Begin :: "int \<Rightarrow> string \<Rightarrow> pg_table \<Rightarrow> (goerror + outcome option) \<times> pg_table" where
  "pg_Begin now key tb =
     (let claims = (case tb key of
            None \<Rightarrow> True
          | Some (Inflight t) \<Rightarrow> t < now - Lease
          | Some (Done _) \<Rightarrow> False)
      in if claims then (Inr None, tb(key \<mapsto> Inflight now))
         else case pg_lookup key tb of
           Inl e \<Rightarrow> (Inl e, tb)
         | Inr None \<Rightarrow> (Inl (Sentinel ErrInFlight), tb)
         | Inr (Some out) \<Rightarrow> (Inr (Some out), tb))"

definition pg_Complete :: "string \<Rightarrow> outcome \<Rightarrow> pg_table \<Rightarrow> goerror option \<times> pg_table" where
  "pg_Complete key out tb = (None, tb(key \<mapsto> Done out))"

definition pg_Abort :: "string \<Rightarrow> pg_table \<Rightarrow> goerror option \<times> pg_table" where
  "pg_Abort key tb =
     (None, case tb key of Some (Inflight _) \<Rightarrow> tb(key := None) | _ \<Rightarrow> tb)"

definition pg_ops :: "int \<Rightarrow> pg_table store_ops" where
  "pg_ops now = \<lparr>st_Begin = pg_Begin now, st_Lookup = pg_lookup, st_Complete = pg_Complete, st_Abort = pg_Abort\<rparr>"

definition pg_done :: "pg_table \<Rightarrow> string \<Rightarrow> outcome option" where
  "pg_done tb key = (case tb key of Some (Done out) \<Rightarrow> Some out | _ \<Rightarrow> None)"

definition pg_claimed :: "int \<Rightarrow> pg_table \<Rightarrow> string \<Rightarrow> bool" where
  "pg_claimed now tb key = (case tb key of Some (Inflight t) \<Rightarrow> \<not> t < now - Lease | _ \<Rightarrow> False)"

section \<open>Concurrent clients\<close>

datatype phase = Idle | Holding string

inductive client_step ::
  "'s store_ops \<Rightarrow> 's \<times> ('c \<Rightarrow> phase) \<Rightarrow> 's \<times> ('c \<Rightarrow> phase) \<Rightarrow> bool" for ops where
  claim: "ph c = Idle \<Longrightarrow> st_Begin ops k s = (Inr None, s') \<Longrightarrow> client_step ops (s, ph) (s', ph(c := Holding k))"
| known: "ph c = Idle \<Longrightarrow> st_Begin ops k s = (Inr (Some out), s') \<Longrightarrow> client_step ops (s, ph) (s', ph)"
| refused: "ph c = Idle \<Longrightarrow> st_Begin ops k s = (Inl e, s') \<Longrightarrow> client_step ops (s, ph) (s', ph)"
| complete: "ph c = Holding k \<Longrightarrow> st_Complete ops k out s = (r, s') \<Longrightarrow> client_step ops (s, ph) (s', ph(c := Idle))"
| abort: "ph c = Holding k \<Longrightarrow> st_Abort ops k s = (r, s') \<Longrightarrow> client_step ops (s, ph) (s', ph(c := Idle))"

inductive_cases client_stepE: "client_step ops (s, ph) (s', ph')"

inductive clients_reach ::
  "'s store_ops \<Rightarrow> 's \<times> ('c \<Rightarrow> phase) \<Rightarrow> 's \<times> ('c \<Rightarrow> phase) \<Rightarrow> bool" for ops where
  start: "clients_reach ops x x"
| step: "clients_reach ops x y \<Longrightarrow> client_step ops y z \<Longrightarrow> clients_reach ops x z"

section \<open>The contract of a store\<close>

text \<open>\<open>recorded\<close> gives the outcome stored under a key, \<open>claimed\<close> whether a caller holds it.\<close>

locale idem_store =
  fixes ops :: "'s store_ops"
    and recorded :: "'s \<Rightarrow> string \<Rightarrow> outcome option"
    and claimed :: "'s \<Rightarrow> string \<Rightarrow> bool"
  assumes begin_recorded: "recorded s k = Some out \<Longrightarrow> st_Begin ops k s = (Inr (Some out), s)"
    and begin_claimed: "recorded s k = None \<Longrightarrow> claimed s k \<Longrightarrow> st_Begin ops k s = (Inl (Sentinel ErrInFlight), s)"
    and begin_free: "recorded s k = None \<Longrightarrow> \<not> claimed s k \<Longrightarrow>
      \<exists>s'. st_Begin ops k s = (Inr None, s') \<and> recorded s' = recorded s \<and> claimed s' = (claimed s)(k := True)"
    and lookup_recorded: "st_Lookup ops k s = Inr (recorded s k)"
    and complete_records: "\<exists>s'. st_Complete ops k out s = (None, s')
      \<and> recorded s' = (recorded s)(k \<mapsto> out) \<and> claimed s' = (claimed s)(k := False)"
    and abort_releases: "\<exists>s'. st_Abort ops k s = (None, s')
      \<and> recorded s' = recorded s \<and> claimed s' = (claimed s)(k := False)"
begin

lemma begin_cases:
  obtains (recorded) out where "recorded s k = Some out" "st_Begin ops k s = (Inr (Some out), s)"
  | (claimed) "recorded s k = None" "claimed s k" "st_Begin ops k s = (Inl (Sentinel ErrInFlight), s)"
  | (free) s' where "recorded s k = None" "\<not> claimed s k" "st_Begin ops k s = (Inr None, s')"
      "recorded s' = recorded s" "claimed s' = (claimed s)(k := True)"
  using begin_recorded begin_claimed begin_free by (metis not_None_eq)

lemma begin_None: "st_Begin ops k s = (Inr None, s') \<Longrightarrow>
    recorded s k = None \<and> \<not> claimed s k \<and> recorded s' = recorded s \<and> claimed s' = (claimed s)(k := True)"
  by (rule begin_cases [of s k]) auto

lemma begin_Some: "st_Begin ops k s = (Inr (Some out), s') \<Longrightarrow> recorded s k = Some out \<and> s' = s"
  by (rule begin_cases [of s k]) auto

lemma begin_Inl: "st_Begin ops k s = (Inl e, s') \<Longrightarrow> s' = s \<and> e = Sentinel ErrInFlight"
  by (rule begin_cases [of s k]) auto

lemma complete_eq: "st_Complete ops k out s = (r, s') \<Longrightarrow>
    r = None \<and> recorded s' = (recorded s)(k \<mapsto> out) \<and> claimed s' = (claimed s)(k := False)"
  using complete_records [of k out s] by auto

lemma abort_eq: "st_Abort ops k s = (r, s') \<Longrightarrow>
    r = None \<and> recorded s' = recorded s \<and> claimed s' = (claimed s)(k := False)"
  using abort_releases [of k s] by auto

text \<open>The invariant of the clients: a held key is claimed and not yet recorded, and has one holder.\<close>

definition clients_ok :: "'s \<Rightarrow> ('c \<Rightarrow> phase) \<Rightarrow> bool" where
  "clients_ok s ph \<longleftrightarrow>
     (\<forall>c k. ph c = Holding k \<longrightarrow> claimed s k \<and> recorded s k = None)
     \<and> (\<forall>c d k. ph c = Holding k \<and> ph d = Holding k \<longrightarrow> c = d)"

lemma clients_ok_step:
  assumes "client_step ops (s, ph) (s', ph')" "clients_ok s ph"
  shows "clients_ok s' ph' \<and> (\<forall>k out. recorded s k = Some out \<longrightarrow> recorded s' k = Some out)"
  using assms(1)
proof cases
  case (claim c k)
  then show ?thesis using begin_None [of k s s'] assms(2) by (auto simp: clients_ok_def)
next
  case (known c k out)
  then show ?thesis using begin_Some [of k s out s'] assms(2) by auto
next
  case (refused c k e)
  then show ?thesis using begin_Inl [of k s e s'] assms(2) by auto
next
  case (complete c k out r)
  then have eq: "recorded s' = (recorded s)(k \<mapsto> out)" "claimed s' = (claimed s)(k := False)"
    "recorded s k = None"
    using complete_eq [of k out s r s'] assms(2) by (auto simp: clients_ok_def)
  have "d = c" if "ph d = Holding k" for d
    using that complete(2) assms(2) by (auto simp: clients_ok_def)
  with assms(2) complete(1) show ?thesis by (auto simp: clients_ok_def eq)
next
  case (abort c k r)
  then have eq: "recorded s' = recorded s" "claimed s' = (claimed s)(k := False)"
    using abort_eq [of k s r s'] by auto
  have "d = c" if "ph d = Holding k" for d
    using that abort(2) assms(2) by (auto simp: clients_ok_def)
  with assms(2) abort(1) show ?thesis by (auto simp: clients_ok_def eq)
qed

lemma clients_ok_reach:
  assumes "clients_reach ops x y" "clients_ok (fst x) (snd x)"
  shows "clients_ok (fst y) (snd y)
    \<and> (\<forall>k out. recorded (fst x) k = Some out \<longrightarrow> recorded (fst y) k = Some out)"
  using assms
proof (induction rule: clients_reach.induct)
  case (start x)
  then show ?case by simp
next
  case (step x y z)
  then show ?case
    using clients_ok_step [of "fst y" "snd y" "fst z" "snd z"] by auto
qed

lemma clients_exclusive:
  assumes "clients_reach ops (s0, \<lambda>_. Idle) (s, ph)"
  shows "(ph c = Holding k \<and> ph d = Holding k \<longrightarrow> c = d)
    \<and> (recorded s k \<noteq> None \<longrightarrow> ph c \<noteq> Holding k)"
  using clients_ok_reach [OF assms] by (auto simp: clients_ok_def)

lemma recorded_stable:
  assumes "clients_reach ops (s0, \<lambda>_. Idle) (s, ph)" "clients_reach ops (s, ph) (s', ph')" "recorded s k = Some out"
  shows "recorded s' k = Some out"
  using clients_ok_reach [OF assms(1)] clients_ok_reach [OF assms(2)] assms(3)
  by (auto simp: clients_ok_def)

end

lemmas memory_defs = memory_ops_def ms_Begin_def ms_Lookup_def ms_Complete_def ms_Abort_def

lemmas pg_defs = pg_ops_def pg_Begin_def pg_lookup_def pg_Complete_def pg_Abort_def pg_done_def pg_claimed_def Let_def

interpretation mem: idem_store memory_ops ms_done ms_inflight
  by unfold_locales (simp_all add: memory_defs)

lemma pg_done_upd: "pg_done (tb(k \<mapsto> r)) = (pg_done tb)(k := (case r of Done out \<Rightarrow> Some out | _ \<Rightarrow> None))"
  "pg_done (tb(k := None)) = (pg_done tb)(k := None)"
  by (auto simp: pg_done_def fun_eq_iff split: pg_row.splits)

lemma pg_claimed_upd:
  "pg_claimed now (tb(k \<mapsto> r)) = (pg_claimed now tb)(k := (case r of Inflight t \<Rightarrow> \<not> t < now - Lease | _ \<Rightarrow> False))"
  "pg_claimed now (tb(k := None)) = (pg_claimed now tb)(k := False)"
  by (auto simp: pg_claimed_def fun_eq_iff split: pg_row.splits)

interpretation pg: idem_store "pg_ops now" pg_done "pg_claimed now" for now
proof unfold_locales
  fix tb :: pg_table and k and out :: outcome
  show "pg_done tb k = Some out \<Longrightarrow> st_Begin (pg_ops now) k tb = (Inr (Some out), tb)"
    by (auto simp: pg_defs split: option.splits pg_row.splits)
  show "pg_done tb k = None \<Longrightarrow> pg_claimed now tb k \<Longrightarrow> st_Begin (pg_ops now) k tb = (Inl (Sentinel ErrInFlight), tb)"
    by (auto simp: pg_defs split: option.splits pg_row.splits)
  show "st_Lookup (pg_ops now) k tb = Inr (pg_done tb k)"
    by (simp add: pg_defs)
  show "\<exists>s'. st_Complete (pg_ops now) k out tb = (None, s')
      \<and> pg_done s' = (pg_done tb)(k \<mapsto> out) \<and> pg_claimed now s' = (pg_claimed now tb)(k := False)"
    by (simp add: pg_ops_def pg_Complete_def pg_done_upd pg_claimed_upd)
  show "\<exists>s'. st_Abort (pg_ops now) k tb = (None, s')
      \<and> pg_done s' = pg_done tb \<and> pg_claimed now s' = (pg_claimed now tb)(k := False)"
    by (auto simp: pg_ops_def pg_Abort_def pg_done_upd pg_claimed_upd split: option.splits pg_row.splits)
      (auto simp: pg_done_def pg_claimed_def fun_eq_iff)
next
  fix tb :: pg_table and k
  assume "pg_done tb k = None" "\<not> pg_claimed now tb k"
  then have "st_Begin (pg_ops now) k tb = (Inr None, tb(k \<mapsto> Inflight now)) \<and> pg_done tb k = None"
    by (auto simp: pg_defs split: option.splits pg_row.splits)
  then show "\<exists>s'. st_Begin (pg_ops now) k tb = (Inr None, s') \<and> pg_done s' = pg_done tb
      \<and> pg_claimed now s' = (pg_claimed now tb)(k := True)"
    by (intro exI [of _ "tb(k \<mapsto> Inflight now)"])
      (auto simp: pg_done_upd pg_claimed_upd Lease_def Second_def fun_upd_idem)
qed

section \<open>Properties\<close>

text \<open>C17: however many callers run concurrently against a \<open>MemoryStore\<close>, at most one holds an
  idempotency key at a time, and nobody holds a key whose outcome was recorded.\<close>

theorem MemoryStore_exclusive:
  assumes "clients_reach memory_ops (NewMemoryStore, \<lambda>_. Idle) (s, ph)"
    and "ph c = Holding k" "ph d = Holding k"
  shows "c = d \<and> ms_done s k = None"
  using mem.clients_exclusive [OF assms(1), of c k d] assms(2,3) by blast

lemma MemoryStore_exclusive_witness:
  "(1::nat) = 1 \<and> ms_done (snd (ms_Begin ''k'' NewMemoryStore)) ''k'' = None"
proof (rule MemoryStore_exclusive)
  show "clients_reach memory_ops (NewMemoryStore, \<lambda>_. Idle) (snd (ms_Begin ''k'' NewMemoryStore), (\<lambda>_. Idle)(1 := Holding ''k''))"
    by (rule clients_reach.step [OF clients_reach.start], rule client_step.claim)
      (simp_all add: memory_ops_def ms_Begin_def NewMemoryStore_def)
qed simp_all



end
