(* ===== verification/Governor.thy ===== *)
theory Governor
  imports Guard_Types
begin

text \<open>
  The per-target rate governor and circuit breaker, \<open>pkg/writeguard/governor.go\<close>. The governor is
  a token bucket over \<open>float64\<close> tokens with a semaphore (a counter of running calls); times and
  waits are nanoseconds. \<open>acquire\<close> blocks on a timer and on the context: what happens is given as
  the list of its wake-ups, at which the timer fired (with the clock then) or the context was
  done; the list ends with the context being done.

  The breaker is shown to implement the three-state circuit (closed, open, half-open).
\<close>

section \<open>The governor\<close>

record governor =
  gov_rate :: rat
  gov_burst :: rat
  gov_tokens :: rat
  gov_last :: int
  gov_running :: nat
  gov_sem :: nat

definition newGovernor :: "rat \<Rightarrow> int \<Rightarrow> int \<Rightarrow> governor" where
  "newGovernor rps concurrency now =
     (let c = (if concurrency < 1 then 1 else concurrency);
          burst = (if rps < 1 then 1 else rps)
      in \<lparr>gov_rate = rps, gov_burst = burst, gov_tokens = burst, gov_last = now,
          gov_running = 0, gov_sem = nat c\<rparr>)"

definition refill :: "int \<Rightarrow> governor \<Rightarrow> governor" where
  "refill now g =
     (let t = fl (gov_tokens g + fl (Seconds (now - gov_last g) * gov_rate g))
      in g\<lparr>gov_tokens := (if gov_burst g < t then gov_burst g else t), gov_last := now\<rparr>)"

definition gov_take :: "int \<Rightarrow> governor \<Rightarrow> int \<times> governor" where
  "gov_take now g0 =
     (let g = refill now g0
      in if 1 \<le> gov_tokens g then (0, g\<lparr>gov_tokens := fl (gov_tokens g - 1)\<rparr>)
         else (trunc_int (fl (fl (fl (1 - gov_tokens g) / gov_rate g) * 1000000000)), g))"

datatype wake = Fired int | CtxDone

fun acquire_loop :: "int \<Rightarrow> wake list \<Rightarrow> governor \<Rightarrow> bool \<times> governor" where
  "acquire_loop now ws g =
     (let (wait, g') = gov_take now g
      in if wait = 0 then (True, g')
         else case ws of
           Fired t # ws' \<Rightarrow> acquire_loop t ws' g'
         | _ \<Rightarrow> (False, g'))"

declare acquire_loop.simps [simp del]

definition release :: "governor \<Rightarrow> governor" where
  "release g = g\<lparr>gov_running := gov_running g - 1\<rparr>"

text \<open>\<open>acquire\<close>: whether the call may start. When every slot is taken, only the context ends the
  wait (a slot given back meanwhile is another caller's step).\<close>

definition gov_acquire :: "int \<Rightarrow> wake list \<Rightarrow> governor \<Rightarrow> goerror option \<times> governor" where
  "gov_acquire now ws g =
     (if gov_running g < gov_sem g then
        (case acquire_loop now ws (g\<lparr>gov_running := gov_running g + 1\<rparr>) of
           (True, g') \<Rightarrow> (None, g')
         | (False, g') \<Rightarrow> (Some (New_err ''context done'' []), release g'))
      else (Some (New_err ''context done'' []), g))"

section \<open>The breaker\<close>

record breaker_config =
  cfg_Failures :: int
  cfg_Cooldown :: int

record breaker =
  brk_cfg :: breaker_config
  brk_failures :: int
  brk_openedAt :: int
  brk_open :: bool
  brk_trial :: bool

definition newBreaker :: "breaker_config \<Rightarrow> breaker" where
  "newBreaker cfg =
     (let c1 = (if cfg_Failures cfg \<le> 0 then cfg\<lparr>cfg_Failures := 5\<rparr> else cfg);
          c2 = (if cfg_Cooldown c1 \<le> 0 then c1\<lparr>cfg_Cooldown := 30 * Second\<rparr> else c1)
      in \<lparr>brk_cfg = c2, brk_failures = 0, brk_openedAt = 0, brk_open = False, brk_trial = False\<rparr>)"

definition brk_allow :: "int \<Rightarrow> breaker \<Rightarrow> goerror option \<times> breaker" where
  "brk_allow now b =
     (if \<not> brk_open b then (None, b)
      else if \<not> brk_trial b \<and> cfg_Cooldown (brk_cfg b) \<le> now - brk_openedAt b
        then (None, b\<lparr>brk_trial := True\<rparr>)
      else (Some (Sentinel ErrCircuitOpen), b))"

definition brk_success :: "breaker \<Rightarrow> breaker" where
  "brk_success b = b\<lparr>brk_failures := 0, brk_open := False, brk_trial := False\<rparr>"

definition brk_failure :: "int \<Rightarrow> breaker \<Rightarrow> breaker" where
  "brk_failure now b =
     (let b1 = b\<lparr>brk_failures := brk_failures b + 1\<rparr>
      in if brk_trial b1 \<or> cfg_Failures (brk_cfg b1) \<le> brk_failures b1
         then b1\<lparr>brk_open := True, brk_trial := False, brk_openedAt := now\<rparr>
         else b1)"

section \<open>The circuit the breaker implements\<close>

datatype circuit = Closed int | Open int | HalfOpen int

definition circuit_of :: "breaker \<Rightarrow> circuit" where
  "circuit_of b =
     (if \<not> brk_open b then Closed (brk_failures b)
      else if brk_trial b then HalfOpen (brk_openedAt b)
      else Open (brk_openedAt b))"

fun circuit_allow :: "breaker_config \<Rightarrow> int \<Rightarrow> circuit \<Rightarrow> bool \<times> circuit" where
  "circuit_allow cfg now (Closed n) = (True, Closed n)"
| "circuit_allow cfg now (Open t) = (if cfg_Cooldown cfg \<le> now - t then (True, HalfOpen t) else (False, Open t))"
| "circuit_allow cfg now (HalfOpen t) = (False, HalfOpen t)"

definition circuit_success :: "circuit \<Rightarrow> circuit" where
  "circuit_success c = Closed 0"

fun circuit_failure :: "breaker_config \<Rightarrow> int \<Rightarrow> circuit \<Rightarrow> circuit" where
  "circuit_failure cfg now (Closed n) = (if cfg_Failures cfg \<le> n + 1 then Open now else Closed (n + 1))"
| "circuit_failure cfg now (Open t) = Open now"
| "circuit_failure cfg now (HalfOpen t) = Open now"

text \<open>What happens to a breaker: a call asks, a call reports success, a call reports failure.\<close>

datatype brk_event = EvAllow int | EvSuccess | EvFailure int

fun brk_step :: "breaker \<Rightarrow> brk_event \<Rightarrow> breaker" where
  "brk_step b (EvAllow now) = snd (brk_allow now b)"
| "brk_step b EvSuccess = brk_success b"
| "brk_step b (EvFailure now) = brk_failure now b"

fun circuit_step :: "breaker_config \<Rightarrow> circuit \<Rightarrow> brk_event \<Rightarrow> circuit" where
  "circuit_step cfg c (EvAllow now) = snd (circuit_allow cfg now c)"
| "circuit_step cfg c EvSuccess = circuit_success c"
| "circuit_step cfg c (EvFailure now) = circuit_failure cfg now c"

definition brk_ok :: "breaker \<Rightarrow> bool" where
  "brk_ok b \<longleftrightarrow>
     0 < cfg_Failures (brk_cfg b) \<and> 0 < cfg_Cooldown (brk_cfg b) \<and> 0 \<le> brk_failures b
     \<and> (brk_trial b \<longrightarrow> brk_open b)
     \<and> (brk_open b \<longleftrightarrow> cfg_Failures (brk_cfg b) \<le> brk_failures b)"

text \<open>A governor's tokens never leave the bucket, and its calls never exceed the semaphore. (The
  burst is a float64 value, so rounding keeps it.)\<close>

definition gov_ok :: "governor \<Rightarrow> bool" where
  "gov_ok g \<longleftrightarrow>
     0 < gov_rate g \<and> 1 \<le> gov_burst g \<and> fl (gov_burst g) = gov_burst g
     \<and> 0 \<le> gov_tokens g \<and> gov_tokens g \<le> gov_burst g
     \<and> 0 < gov_sem g \<and> gov_running g \<le> gov_sem g"

section \<open>Breaker properties\<close>

lemma brk_ok_new: "brk_ok (newBreaker cfg)"
  by (simp add: brk_ok_def newBreaker_def Let_def Second_def)

lemma brk_cfg_step [simp]: "brk_cfg (brk_step b e) = brk_cfg b"
  by (cases e) (auto simp: brk_allow_def brk_success_def brk_failure_def Let_def)

lemma brk_ok_step: "brk_ok b \<Longrightarrow> brk_ok (brk_step b e)"
  by (cases e) (auto simp: brk_ok_def brk_allow_def brk_success_def brk_failure_def Let_def)

lemma circuit_step_sim: "brk_ok b \<Longrightarrow> circuit_of (brk_step b e) = circuit_step (brk_cfg b) (circuit_of b) e"
  by (cases e)
    (auto simp: brk_ok_def circuit_of_def brk_allow_def brk_success_def brk_failure_def circuit_success_def Let_def)

lemma circuit_run_sim:
  "brk_ok b \<Longrightarrow> circuit_of (foldl brk_step b es) = foldl (circuit_step (brk_cfg b)) (circuit_of b) es \<and> brk_ok (foldl brk_step b es)"
  by (induction es arbitrary: b) (auto simp: brk_ok_step circuit_step_sim)

text \<open>C28: the breaker implements the circuit: after any sequence of requests, successes and failures
  a new breaker is in the state the three-state machine is in (closed with the count of
  consecutive failures, open since a time, or half-open), and lets a request pass exactly when
  that machine does.\<close>

theorem breaker_refines_circuit:
  "circuit_of (foldl brk_step (newBreaker cfg) es)
     = foldl (circuit_step (brk_cfg (newBreaker cfg))) (Closed 0) es
   \<and> (fst (brk_allow now (foldl brk_step (newBreaker cfg) es)) = None)
     = fst (circuit_allow (brk_cfg (newBreaker cfg)) now (foldl (circuit_step (brk_cfg (newBreaker cfg))) (Closed 0) es))"
proof -
  let ?b = "foldl brk_step (newBreaker cfg) es"
  have "circuit_of (newBreaker cfg) = Closed 0" by (simp add: circuit_of_def newBreaker_def Let_def)
  then have sim: "circuit_of ?b = foldl (circuit_step (brk_cfg (newBreaker cfg))) (Closed 0) es"
    using circuit_run_sim [OF brk_ok_new, of cfg es] by simp
  have cfg: "brk_cfg ?b = brk_cfg (newBreaker cfg)"
    by (induction es rule: rev_induct) simp_all
  have "(fst (brk_allow now ?b) = None) = fst (circuit_allow (brk_cfg ?b) now (circuit_of ?b))"
    by (auto simp: brk_allow_def circuit_of_def)
  then show ?thesis by (simp add: sim cfg)
qed

text \<open>An open breaker whose trial is out refuses every request at every later time, until a call
  reports a result.\<close>

lemma trial_blocks: "brk_open b \<Longrightarrow> brk_trial b \<Longrightarrow> brk_allow now b = (Some (Sentinel ErrCircuitOpen), b)"
  by (simp add: brk_allow_def)

lemma trial_blocks_forever:
  "brk_open b \<Longrightarrow> brk_trial b \<Longrightarrow> foldl brk_step b (map EvAllow ts) = b"
  by (induction ts) (simp_all add: trial_blocks)

section \<open>Governor properties\<close>

lemma refill_ok:
  assumes "gov_ok g" "gov_last g \<le> now"
  shows "gov_ok (refill now g)"
proof -
  have "0 \<le> Seconds (now - gov_last g) * gov_rate g"
    using assms by (simp add: Seconds_nonneg gov_ok_def)
  then have "0 \<le> fl (gov_tokens g + fl (Seconds (now - gov_last g) * gov_rate g))"
    using assms(1) by (simp add: fl_nonneg gov_ok_def)
  then show ?thesis using assms(1) by (auto simp: gov_ok_def refill_def Let_def)
qed

lemma gov_take_ok:
  assumes "gov_ok g" "gov_last g \<le> now"
  shows "gov_ok (snd (gov_take now g))"
proof -
  let ?r = "refill now g"
  have r: "gov_ok ?r" by (rule refill_ok [OF assms])
  have "fl (gov_tokens ?r - 1) \<le> gov_burst ?r" "0 \<le> fl (gov_tokens ?r - 1)" if "1 \<le> gov_tokens ?r"
  proof -
    have "fl (gov_tokens ?r - 1) \<le> fl (gov_burst ?r)"
      using r that by (intro fl_mono) (auto simp: gov_ok_def)
    then show "fl (gov_tokens ?r - 1) \<le> gov_burst ?r" using r by (simp add: gov_ok_def)
    show "0 \<le> fl (gov_tokens ?r - 1)" using that by (simp add: fl_nonneg)
  qed
  then show ?thesis using r by (auto simp: gov_take_def gov_ok_def Let_def)
qed

lemma gov_take_frame [simp]:
  "gov_last (snd (gov_take now g)) = now" "gov_running (snd (gov_take now g)) = gov_running g"
  "gov_sem (snd (gov_take now g)) = gov_sem g" "gov_rate (snd (gov_take now g)) = gov_rate g"
  "gov_burst (snd (gov_take now g)) = gov_burst g"
  by (simp_all add: gov_take_def refill_def Let_def)

lemma gov_take_wait_nonneg:
  assumes "gov_ok g" "gov_last g \<le> now"
  shows "0 \<le> fst (gov_take now g)"
proof -
  let ?r = "refill now g"
  have "0 \<le> fl (fl (fl (1 - gov_tokens ?r) / gov_rate ?r) * 1000000000)" if "gov_tokens ?r < 1"
    using refill_ok [OF assms] that by (intro fl_nonneg mult_nonneg_nonneg divide_nonneg_nonneg) (auto simp: gov_ok_def)
  then show ?thesis by (simp add: gov_take_def Let_def trunc_int_nonneg)
qed

text \<open>The clock of the wake-ups never goes back.\<close>

fun clock_from :: "int \<Rightarrow> wake list \<Rightarrow> bool" where
  "clock_from now [] = True"
| "clock_from now (Fired t # ws) = (now \<le> t \<and> clock_from t ws)"
| "clock_from now (CtxDone # ws) = clock_from now ws"

lemma acquire_loop_Fired:
  "acquire_loop now (Fired t # ws) g =
     (if fst (gov_take now g) = 0 then (True, snd (gov_take now g)) else acquire_loop t ws (snd (gov_take now g)))"
  by (simp add: acquire_loop.simps [of now] split: prod.splits)

lemma acquire_loop_stop:
  "acquire_loop now [] g = (fst (gov_take now g) = 0, snd (gov_take now g))"
  "acquire_loop now (CtxDone # ws) g = (fst (gov_take now g) = 0, snd (gov_take now g))"
  by (simp_all add: acquire_loop.simps [of now] split: prod.splits)

lemma acquire_loop_ok:
  "gov_ok g \<Longrightarrow> gov_last g \<le> now \<Longrightarrow> clock_from now ws \<Longrightarrow>
     gov_ok (snd (acquire_loop now ws g)) \<and> gov_running (snd (acquire_loop now ws g)) = gov_running g
     \<and> gov_sem (snd (acquire_loop now ws g)) = gov_sem g"
  by (induction now ws arbitrary: g rule: clock_from.induct)
    (simp_all add: acquire_loop_Fired acquire_loop_stop gov_take_ok)

lemma release_ok: "gov_ok g \<Longrightarrow> gov_ok (release g)"
  by (auto simp: gov_ok_def release_def)

lemma gov_ok_new:
  assumes "0 < rps" "fl rps = rps"
  shows "gov_ok (newGovernor rps concurrency now)"
  using assms by (auto simp: gov_ok_def newGovernor_def Let_def)

text \<open>C29: a governor never holds more tokens than its burst nor fewer than none, and never runs more
  calls than its concurrency limit: \<open>acquire\<close> keeps this whatever the timer and the context do, as
  long as the clock does not go back; when it fails it gives its slot back, and when it succeeds
  it holds exactly one more.\<close>

theorem acquire_within_limits:
  assumes "gov_ok g" "gov_last g \<le> now" "clock_from now ws"
    and "gov_acquire now ws g = (r, g')"
  shows "gov_ok g' \<and> gov_running g' = gov_running g + (if r = None then 1 else 0)"
proof (cases "gov_running g < gov_sem g")
  case False
  then show ?thesis using assms by (auto simp: gov_acquire_def)
next
  case True
  let ?g = "g\<lparr>gov_running := gov_running g + 1\<rparr>"
  have "gov_ok ?g" "gov_last ?g \<le> now" using assms(1,2) True by (auto simp: gov_ok_def)
  then have "gov_ok (snd (acquire_loop now ws ?g)) \<and> gov_running (snd (acquire_loop now ws ?g)) = gov_running g + 1"
    using acquire_loop_ok [of ?g now ws] assms(3) by simp
  then show ?thesis
    using assms(4) True
    by (auto simp: gov_acquire_def release_def gov_ok_def split: prod.splits bool.splits)
qed

theorem acquire_within_limits_witness:
  "gov_ok (snd (gov_acquire 10 [Fired 20, CtxDone] (newGovernor 5 2 0)))"
proof -
  have "fl 5 = 5" using fl_of_int [of 5] by simp
  then have "gov_ok (newGovernor 5 2 0)" by (simp add: gov_ok_new)
  then show ?thesis
    using acquire_within_limits [of "newGovernor 5 2 0" 10 "[Fired 20, CtxDone]"]
    by (cases "gov_acquire 10 [Fired 20, CtxDone] (newGovernor 5 2 0)") (simp add: newGovernor_def)
qed

text \<open>A wait of less than a nanosecond is truncated to zero, which \<open>acquire\<close> takes for a token.\<close>

lemma gov_take_sub_nanosecond:
  assumes "gov_tokens (refill now g) < 1" "0 < gov_rate g"
    and "fl (fl (fl (1 - gov_tokens (refill now g)) / gov_rate g) * 1000000000) < 1"
  shows "gov_take now g = (0, refill now g)"
proof -
  have r: "gov_rate (refill now g) = gov_rate g" by (simp add: refill_def Let_def)
  have "0 \<le> fl (fl (fl (1 - gov_tokens (refill now g)) / gov_rate g) * 1000000000)"
    using assms(1,2) by (intro fl_nonneg mult_nonneg_nonneg divide_nonneg_nonneg) auto
  then have "trunc_int (fl (fl (fl (1 - gov_tokens (refill now g)) / gov_rate g) * 1000000000)) = 0"
    using assms(3) by (simp add: trunc_int_def floor_eq_iff)
  then show ?thesis using assms(1) by (simp add: gov_take_def r)
qed

text \<open>The governor of a target limited to 3 requests per second, its bucket just emptied at time 0.
  It tells a caller to wait 333333333 ns.\<close>

definition drained :: governor where
  "drained = \<lparr>gov_rate = 3, gov_burst = 3, gov_tokens = 0, gov_last = 0, gov_running = 0, gov_sem = 2\<rparr>"

lemma drained_refill:
  "999999998 / 1000000000 \<le> gov_tokens (refill 333333333 drained)
   \<and> gov_tokens (refill 333333333 drained) < 1"
proof -
  let ?s = "333333333 / 1000000000 :: rat"
  have sec: "Seconds 333333333 = fl (fl ?s)"
    by (simp add: Seconds_def go_div_def go_mod_def Second_def)
  define a where "a = fl ?s"
  define b where "b = fl a"
  define c where "c = fl (b * 3)"
  define d where "d = fl c"
  have a: "?s * (1 - 1 / 2 ^ 52) \<le> a" "a \<le> ?s * (1 + 1 / 2 ^ 52)" unfolding a_def by (rule fl_error; simp)+
  then have pa: "0 < a" by (simp add: field_simps)
  have b: "a * (1 - 1 / 2 ^ 52) \<le> b" "b \<le> a * (1 + 1 / 2 ^ 52)"
    unfolding b_def by (rule fl_error [OF pa])+
  then have b': "3333333329 / 10000000000 \<le> b" "b \<le> 3333333331 / 10000000000" using a by simp_all
  then have pb: "0 < b * 3" by simp
  have c: "b * 3 * (1 - 1 / 2 ^ 52) \<le> c" "c \<le> b * 3 * (1 + 1 / 2 ^ 52)"
    unfolding c_def by (rule fl_error [OF pb])+
  then have c': "9999999986 / 10000000000 \<le> c" "c \<le> 9999999994 / 10000000000" using b' by simp_all
  then have pc: "0 < c" by simp
  have d: "c * (1 - 1 / 2 ^ 52) \<le> d" "d \<le> c * (1 + 1 / 2 ^ 52)"
    unfolding d_def by (rule fl_error [OF pc])+
  then have d': "999999998 / 1000000000 \<le> d" "d < 1" using c' by simp_all
  have "gov_tokens (refill 333333333 drained) = d"
    using d' by (simp add: refill_def drained_def sec a_def b_def c_def d_def Let_def)
  then show ?thesis using d' by simp
qed

text \<open>The governor can let a request start without taking a token: at 3 requests per second, a
  caller that comes 333333333 ns after the bucket was emptied (the wait the governor asks for) is
  let through with the bucket left as it was, and so is every further caller at that instant.\<close>

theorem take_grants_without_token:
  "gov_take 333333333 drained = (0, refill 333333333 drained)
   \<and> gov_take 333333333 (refill 333333333 drained) = (0, refill 333333333 drained)
   \<and> gov_tokens (refill 333333333 drained) < 1"
proof -
  let ?g = "refill 333333333 drained"
  let ?t = "gov_tokens ?g"
  have t: "999999998 / 1000000000 \<le> ?t" "?t < 1" using drained_refill by simp_all
  have rate: "gov_rate drained = 3" "gov_rate ?g = 3" by (simp_all add: refill_def drained_def Let_def)
  define a where "a = fl (1 - ?t)"
  define b where "b = fl (a / 3)"
  have a: "0 < a" "a \<le> (1 - ?t) * (1 + 1 / 2 ^ 52)"
    unfolding a_def using t fl_error [of "1 - ?t"] fl_pos [of "1 - ?t"] by simp_all
  have b: "0 < b" "b \<le> a / 3 * (1 + 1 / 2 ^ 52)"
    unfolding b_def using a(1) fl_error [of "a / 3"] fl_pos [of "a / 3"] by simp_all
  have c: "fl (b * 1000000000) \<le> b * 1000000000 * (1 + 1 / 2 ^ 52)"
    using b(1) fl_error [of "b * 1000000000"] by simp
  have wait: "fl (fl (fl (1 - ?t) / 3) * 1000000000) < 1"
    unfolding a_def [symmetric] b_def [symmetric] using a b c t by simp
  have "refill 333333333 ?g = ?g"
  proof -
    have "gov_last ?g = 333333333" "gov_tokens ?g \<le> gov_burst ?g"
      by (simp_all add: refill_def Let_def)
    moreover have "fl ?t = ?t"
      using t fl_of_int [of 3] by (simp add: refill_def drained_def Let_def fl_fl fl_nonneg Seconds_nonneg)
    ultimately show ?thesis by (cases ?g) (simp add: refill_def [of 333333333 "governor.make _ _ _ _ _ _", unfolded governor.make_def] Let_def)
  qed
  then show ?thesis
    using gov_take_sub_nanosecond [of 333333333 drained] gov_take_sub_nanosecond [of 333333333 ?g] t wait rate
    by simp
qed

end
