(* ===== verification/Guard.thy ===== *)
theory Guard
  imports Idempotency Governor
begin

text \<open>
  The write guard, \<open>pkg/writeguard/guard.go\<close>, with the governed read of \<open>read.go\<close> and the saga
  of \<open>saga.go\<close>. A guard is its configuration (\<open>guard\<close>) and its state (\<open>guard_state\<close>): the
  de-duplication store, the audit log, the governor and breaker of each target, the counts of
  metered documents, and the world of type \<open>'w\<close> outside the guard.

  The target systems, the approver, the validator and the policy engine are code outside the
  repository or behind an interface: they are functions of the configuration, on the world. A
  write to the audit log may fail (\<open>gd_Audit\<close> says with which error), a successful one appends
  the event. \<open>gd_Now\<close> reads the clock; \<open>gd_Wait\<close> is what happens while a call waits for the
  governor. Prometheus counters are not modelled.
\<close>

section \<open>Configuration and state\<close>

record 'w target_impl =
  ti_Simulate :: "string \<Rightarrow> raw \<Rightarrow> 'w \<Rightarrow> (goerror + raw) \<times> 'w"
  ti_Commit :: "string \<Rightarrow> string \<Rightarrow> raw \<Rightarrow> 'w \<Rightarrow> (goerror + raw) \<times> 'w"
  ti_Confirm :: "(string \<Rightarrow> raw \<Rightarrow> 'w \<Rightarrow> goerror option \<times> 'w) option"
  ti_Read :: "(string \<Rightarrow> string \<Rightarrow> 'w \<Rightarrow> (raw \<times> goerror option) \<times> 'w) option"

record 'w target_config =
  tc_Target :: "'w target_impl option"
  tc_RequestsPerSecond :: rat
  tc_MaxConcurrentCalls :: int
  tc_Metered :: bool

datatype event_data = Fields "(string \<times> arg) list" | DecisionData policy_input decision

datatype event = Event (ev_actor: string) (ev_name: string) (ev_data: event_data)

type_synonym 'w recorder = "'w \<Rightarrow> event \<Rightarrow> goerror option"
type_synonym 'w decider = "'w \<Rightarrow> policy_input \<Rightarrow> goerror + decision"
type_synonym 'w approver = "approval_request \<Rightarrow> 'w \<Rightarrow> (goerror + approval) \<times> 'w"

record ('s, 'w) guard_config =
  cfg_Targets :: "(string \<times> 'w target_config) list"
  cfg_Policy :: "'w decider option"
  cfg_Approver :: "'w approver option"
  cfg_Audit :: "'w recorder option"
  cfg_Store :: "'s store_ops"
  cfg_Validate :: "('w \<Rightarrow> request \<Rightarrow> goerror option) option"
  cfg_Breaker :: breaker_config
  cfg_Now :: "'w \<Rightarrow> int"
  cfg_Wait :: "'w \<Rightarrow> wake list \<times> 'w"

record 'w guard_target =
  t_Target :: "'w target_impl"
  t_Metered :: bool
  t_gov :: governor
  t_brk :: breaker

record ('s, 'w) guard =
  gd_Policy :: "'w decider"
  gd_Approver :: "'w approver option"
  gd_Audit :: "'w recorder"
  gd_Store :: "'s store_ops"
  gd_Validate :: "('w \<Rightarrow> request \<Rightarrow> goerror option) option"
  gd_Now :: "'w \<Rightarrow> int"
  gd_Wait :: "'w \<Rightarrow> wake list \<times> 'w"

record ('s, 'w) guard_state =
  gs_store :: 's
  gs_log :: "event list"
  gs_targets :: "string \<Rightarrow> 'w guard_target option"
  gs_metered :: "string \<Rightarrow> int"
  gs_world :: 'w

fun new_targets ::
  "breaker_config \<Rightarrow> int \<Rightarrow> (string \<times> 'w target_config) list \<Rightarrow> goerror + (string \<times> 'w guard_target) list" where
  "new_targets brk now [] = Inr []"
| "new_targets brk now ((name, tc) # ts) =
     (case tc_Target tc of
        None \<Rightarrow> Inl (New_err ''writeguard: target %q has no implementation'' [AStr name])
      | Some impl \<Rightarrow>
          if tc_RequestsPerSecond tc \<le> 0 \<or> tc_MaxConcurrentCalls tc \<le> 0
          then Inl (New_err ''writeguard: target %q needs positive rate and concurrency limits'' [AStr name])
          else case new_targets brk now ts of
            Inl e \<Rightarrow> Inl e
          | Inr gs \<Rightarrow> Inr ((name, \<lparr>t_Target = impl, t_Metered = tc_Metered tc,
              t_gov = newGovernor (tc_RequestsPerSecond tc) (tc_MaxConcurrentCalls tc) now,
              t_brk = newBreaker brk\<rparr>) # gs))"

text \<open>\<open>New\<close>. A configuration without a store is one with \<^const>\<open>memory_ops\<close> and
  \<^const>\<open>NewMemoryStore\<close>; one without a clock is one whose clock is the world's.\<close>

definition New_guard ::
  "('s, 'w) guard_config \<Rightarrow> 's \<Rightarrow> 'w \<Rightarrow> goerror + ('s, 'w) guard \<times> ('s, 'w) guard_state" where
  "New_guard cfg st w =
     (case (cfg_Policy cfg, cfg_Audit cfg) of
        (None, _) \<Rightarrow> Inl (New_err ''writeguard: a policy decider is required'' [])
      | (_, None) \<Rightarrow> Inl (New_err ''writeguard: an audit recorder is required; every write is audited'' [])
      | (Some pol, Some aud) \<Rightarrow>
          (case new_targets (cfg_Breaker cfg) (cfg_Now cfg w) (cfg_Targets cfg) of
             Inl e \<Rightarrow> Inl e
           | Inr ts \<Rightarrow>
               Inr (\<lparr>gd_Policy = pol, gd_Approver = cfg_Approver cfg, gd_Audit = aud, gd_Store = cfg_Store cfg,
                     gd_Validate = cfg_Validate cfg, gd_Now = cfg_Now cfg, gd_Wait = cfg_Wait cfg\<rparr>,
                    \<lparr>gs_store = st, gs_log = [], gs_targets = map_of ts, gs_metered = (\<lambda>_. 0), gs_world = w\<rparr>)))"

definition Has_target :: "string \<Rightarrow> ('s, 'w) guard_state \<Rightarrow> bool" where
  "Has_target name s = (gs_targets s name \<noteq> None)"

definition Metered :: "('s, 'w) guard_state \<Rightarrow> string \<Rightarrow> int" where
  "Metered s = gs_metered s"

section \<open>Shared steps\<close>

definition guard_record :: "('s, 'w) guard \<Rightarrow> event \<Rightarrow> ('s, 'w) guard_state \<Rightarrow> goerror option \<times> ('s, 'w) guard_state" where
  "guard_record g ev s =
     (case gd_Audit g (gs_world s) ev of
        None \<Rightarrow> (None, s\<lparr>gs_log := gs_log s @ [ev]\<rparr>)
      | Some e \<Rightarrow> (Some e, s))"

definition write_fields :: "request \<Rightarrow> (string \<times> arg) list" where
  "write_fields req = [(''target'', AStr (req_Target req)), (''operation'', AStr (req_Operation req))]"

definition key_fields :: "request \<Rightarrow> (string \<times> arg) list" where
  "key_fields req = write_fields req @ [(''key'', AStr (req_IdempotencyKey req))]"

fun generation_loop ::
  "'s store_ops \<Rightarrow> 's \<Rightarrow> request \<Rightarrow> nat list \<Rightarrow> request \<Rightarrow> goerror + request" where
  "generation_loop ops st req [] r =
     Inl (Wrap_sentinel ErrInvalid ''%w: %s.%s %s was undone %d times; give the write another idempotency key''
       [AStr (req_Target req), AStr (req_Operation req), AStr (req_IdempotencyKey req), AInt (int maxGenerations - 1)])"
| "generation_loop ops st req (n # ns) r =
     (case st_Lookup ops (compensateKey r) st of
        Inl e \<Rightarrow> Inl e
      | Inr None \<Rightarrow> Inr r
      | Inr (Some undo) \<Rightarrow>
          if out_Status undo \<noteq> StatusCommitted then Inr r
          else generation_loop ops st req ns
                 (r\<lparr>req_IdempotencyKey := req_IdempotencyKey req @ ''~'' @ Itoa n\<rparr>))"

definition generation :: "'s store_ops \<Rightarrow> 's \<Rightarrow> request \<Rightarrow> goerror + request" where
  "generation ops st req =
     (if req_Compensation req = [] then Inr req
      else generation_loop ops st req [2..<Suc maxGenerations] req)"

definition guard_target_of :: "('s, 'w) guard_state \<Rightarrow> request \<Rightarrow> goerror + 'w guard_target" where
  "guard_target_of s req =
     (case gs_targets s (req_Target req) of
        None \<Rightarrow> Inl (New_err ''writeguard: unknown target %q'' [AStr (req_Target req)])
      | Some t \<Rightarrow>
          if req_IdempotencyKey req = [] then Inl (New_err ''writeguard: an idempotency key is required'' [])
          else Inr t)"

definition decide ::
  "('s, 'w) guard \<Rightarrow> string \<Rightarrow> policy_input \<Rightarrow> ('s, 'w) guard_state \<Rightarrow> (goerror option \<times> decision) \<times> ('s, 'w) guard_state" where
  "decide g actor i s =
     (case gd_Policy g (gs_world s) i of
        Inl e \<Rightarrow> ((Some (Wrap_err ''writeguard: policy: %w'' [] e), no_decision), s)
      | Inr dec \<Rightarrow>
          (case guard_record g (Event actor ''policy.decision'' (DecisionData i dec)) s of
             (err, s') \<Rightarrow> ((err, dec), s')))"

section \<open>Prepare\<close>

definition simulate_step ::
  "('s, 'w) guard \<Rightarrow> 'w guard_target \<Rightarrow> string \<Rightarrow> request \<Rightarrow> prepared \<Rightarrow> ('s, 'w) guard_state
     \<Rightarrow> (prepared \<times> goerror option) \<times> ('s, 'w) guard_state" where
  "simulate_step g t actor req p s =
     (if \<not> req_Simulate req then ((p, None), s)
      else case ti_Simulate (t_Target t) (req_Operation req) (req_Payload req) (gs_world s) of
        (res, w) \<Rightarrow>
          let s1 = s\<lparr>gs_world := w\<rparr>
          in case res of
               Inl e \<Rightarrow>
                 if errors_Is e ErrSimulationUnsupported then ((p, None), s1)
                 else ((p, Some (Wrap_err ''writeguard: simulation: %w'' [] e)),
                       snd (guard_record g (Event actor ''writeback.simulation-failed''
                         (Fields (write_fields req @ [(''error'', AErr (text_of e))]))) s1))
             | Inr preview \<Rightarrow>
                 let p1 = p\<lparr>pr_Preview := preview\<rparr>
                 in case guard_record g (Event actor ''writeback.simulated''
                        (Fields (write_fields req @ [(''preview'', ARaw preview)]))) s1 of
                      (err, s2) \<Rightarrow> ((p1, err), s2))"

definition amount_step ::
  "('s, 'w) guard \<Rightarrow> string \<Rightarrow> request \<Rightarrow> prepared \<Rightarrow> ('s, 'w) guard_state
     \<Rightarrow> (prepared \<times> goerror option) \<times> ('s, 'w) guard_state" where
  "amount_step g actor req p s =
     (case req_CheckAmount req of
        None \<Rightarrow> ((p, None), s)
      | Some c \<Rightarrow>
          (case mismatch (req_Amount req) (pr_Preview p) c of
             None \<Rightarrow> ((p, None), s)
           | Some why \<Rightarrow>
               let dec = pr_Decision p;
                   p1 = p\<lparr>pr_NeedsApproval := True, pr_AmountMismatch := Some why,
                          pr_Decision := dec\<lparr>Reasons := Reasons dec @ [why]\<rparr>\<rparr>
               in case guard_record g (Event actor ''writeback.amount-mismatch''
                      (Fields (key_fields req @ [(''reason'', AErr why)]))) s of
                    (err, s1) \<Rightarrow> ((p1, err), s1)))"

text \<open>The rest of \<open>Prepare\<close> once the policy has decided.\<close>

definition prepare_decided ::
  "('s, 'w) guard \<Rightarrow> 'w guard_target \<Rightarrow> request \<Rightarrow> decision \<Rightarrow> ('s, 'w) guard_state
     \<Rightarrow> (prepared \<times> goerror option) \<times> ('s, 'w) guard_state" where
  "prepare_decided g t req dec s =
     (let actor = guard_actor (req_Subject req);
          p = no_prepared\<lparr>pr_Decision := dec, pr_NeedsApproval := RequireApproval dec \<or> req_RequireApproval req\<rparr>
      in if Denied dec \<or> (\<not> Allow dec \<and> \<not> pr_NeedsApproval p) then ((p, Some (Sentinel ErrDenied)), s)
      else case (case gd_Validate g of None \<Rightarrow> None | Some validate \<Rightarrow> validate (gs_world s) req) of
        Some e \<Rightarrow>
          ((p, Some (Wrap_sentinel ErrInvalid ''%w: %v'' [AErr (text_of e)])),
           snd (guard_record g (Event actor ''writeback.invalid''
             (Fields (write_fields req @ [(''error'', AErr (text_of e))]))) s))
      | None \<Rightarrow>
     (case simulate_step g t actor req p s of
        ((p1, Some e), s1) \<Rightarrow> ((p1, Some e), s1)
      | ((p1, None), s1) \<Rightarrow> amount_step g actor req p1 s1))"

definition Prepare ::
  "('s, 'w) guard \<Rightarrow> request \<Rightarrow> ('s, 'w) guard_state \<Rightarrow> (prepared \<times> goerror option) \<times> ('s, 'w) guard_state" where
  "Prepare g req0 s =
     (case guard_target_of s req0 of
        Inl e \<Rightarrow> ((no_prepared, Some e), s)
      | Inr t \<Rightarrow>
     (case generation (gd_Store g) (gs_store s) req0 of
        Inl e \<Rightarrow> ((no_prepared, Some e), s)
      | Inr req \<Rightarrow>
     (let actor = guard_actor (req_Subject req)
      in case st_Lookup (gd_Store g) (storeKey req) (gs_store s) of
        Inl e \<Rightarrow> ((no_prepared, Some e), s)
      | Inr (Some prior) \<Rightarrow>
          (case guard_record g (Event actor ''writeback.duplicate'' (Fields (key_fields req))) s of
             (err, s1) \<Rightarrow> ((no_prepared\<lparr>pr_Duplicate := Some (prior\<lparr>out_Status := StatusDuplicate\<rparr>)\<rparr>, err), s1))
      | Inr None \<Rightarrow>
     (case decide g actor (guard_input req) s of
        ((Some e, dec), s1) \<Rightarrow> ((no_prepared, Some e), s1)
      | ((None, dec), s1) \<Rightarrow> prepare_decided g t req dec s1))))"

section \<open>Commit\<close>

text \<open>\<open>commit\<close>: the write itself, through breaker and governor, then metered and audited.\<close>

definition set_target :: "string \<Rightarrow> 'w guard_target \<Rightarrow> ('s, 'w) guard_state \<Rightarrow> ('s, 'w) guard_state" where
  "set_target name t s = s\<lparr>gs_targets := (gs_targets s)(name \<mapsto> t)\<rparr>"

text \<open>The breaker, then the governor: the call may start, or not.\<close>

definition guard_admit ::
  "('s, 'w) guard \<Rightarrow> string \<Rightarrow> 'w guard_target \<Rightarrow> ('s, 'w) guard_state
     \<Rightarrow> (goerror option \<times> 'w guard_target) \<times> ('s, 'w) guard_state" where
  "guard_admit g name t s =
     (case brk_allow (gd_Now g (gs_world s)) (t_brk t) of
        (Some e, b) \<Rightarrow> ((Some (Wrap_err ''writeguard: %s: %w'' [AStr name] e), t), s)
      | (None, b) \<Rightarrow>
          (case gd_Wait g (gs_world s) of
             (ws, w) \<Rightarrow>
               (case gov_acquire (gd_Now g (gs_world s)) ws (t_gov t) of
                  (err, gov) \<Rightarrow>
                    let t1 = t\<lparr>t_brk := b, t_gov := gov\<rparr>
                    in ((err, t1), set_target name t1 (s\<lparr>gs_world := w\<rparr>)))))"

definition commit_call ::
  "('s, 'w) guard \<Rightarrow> 'w guard_target \<Rightarrow> string \<Rightarrow> string \<Rightarrow> string \<Rightarrow> request \<Rightarrow> ('s, 'w) guard_state
     \<Rightarrow> (goerror + raw) \<times> ('s, 'w) guard_state" where
  "commit_call g t actor op key req s =
     (case guard_admit g (req_Target req) t s of
        ((Some e, t1), s1) \<Rightarrow> (Inl e, s1)
      | ((None, t1), s1) \<Rightarrow>
          (case ti_Commit (t_Target t1) op key (req_Payload req) (gs_world s1) of
             (res, w) \<Rightarrow>
               let t2 = t1\<lparr>t_gov := release (t_gov t1)\<rparr>; s2 = s1\<lparr>gs_world := w\<rparr>
               in case res of
                    Inl e \<Rightarrow>
                      let s3 = set_target (req_Target req) (t2\<lparr>t_brk := brk_failure (gd_Now g w) (t_brk t2)\<rparr>) s2
                      in (Inl (Wrap_err ''writeguard: commit %s.%s: %w'' [AStr (req_Target req), AStr op] e),
                          snd (guard_record g (Event actor ''writeback.failed''
                            (Fields [(''target'', AStr (req_Target req)), (''operation'', AStr op), (''key'', AStr key),
                                     (''error'', AErr (text_of e))])) s3))
                  | Inr result \<Rightarrow>
                      let s3 = set_target (req_Target req) (t2\<lparr>t_brk := brk_success (t_brk t2)\<rparr>) s2;
                          s4 = (if t_Metered t2
                                then s3\<lparr>gs_metered := (gs_metered s3)(req_Target req := gs_metered s3 (req_Target req) + 1)\<rparr>
                                else s3)
                      in (case guard_record g (Event actor ''writeback.committed''
                            (Fields [(''target'', AStr (req_Target req)), (''operation'', AStr op), (''key'', AStr key),
                                     (''reason'', AStr (req_Reason req)), (''result'', ARaw result),
                                     (''metered'', ABool (t_Metered t2))])) s4 of
                            (Some e, s5) \<Rightarrow> (Inl e, s5)
                          | (None, s5) \<Rightarrow> (Inr result, s5))))"

text \<open>The approval a commit carries: audited, refused unless approved, and part of the policy's input.\<close>

definition approval_step ::
  "('s, 'w) guard \<Rightarrow> request \<Rightarrow> approval option \<Rightarrow> ('s, 'w) guard_state
     \<Rightarrow> ((outcome \<times> goerror) + policy_input) \<times> ('s, 'w) guard_state" where
  "approval_step g req approval s =
     (case approval of
        None \<Rightarrow> (Inr (guard_input req), s)
      | Some a \<Rightarrow>
          (case guard_record g (Event (ap_By a) ''writeback.approval''
               (Fields (key_fields req @ [(''status'', AStr (ap_Status a)), (''note'', AStr (ap_Note a))]))) s of
             (Some e, s1) \<Rightarrow> (Inl (Outcome_of StatusFailed, e), s1)
           | (None, s1) \<Rightarrow>
               if ap_Status a \<noteq> ApprovalApproved then
                 let e1 = Wrap_sentinel ErrRejected ''%w by %s'' [AStr (ap_By a)];
                     e2 = (if ap_Note a \<noteq> [] then Wrap_err ''%w: %s'' [AStr (ap_Note a)] e1 else e1)
                 in (Inl ((Outcome_of StatusRejected)\<lparr>out_Approval := approval\<rparr>, e2), s1)
               else (Inr ((guard_input req)\<lparr>in_Approval := a\<rparr>), s1)))"

text \<open>The end of \<open>commitRequest\<close>: the write, the recording of its outcome and the confirmation; the
  first result says whether the outcome was recorded (the variable \<open>committed\<close>).\<close>

definition commit_perform ::
  "('s, 'w) guard \<Rightarrow> 'w guard_target \<Rightarrow> request \<Rightarrow> approval option \<Rightarrow> ('s, 'w) guard_state
     \<Rightarrow> bool \<times> (outcome \<times> goerror option) \<times> ('s, 'w) guard_state" where
  "commit_perform g t req approval s =
     (let actor = guard_actor (req_Subject req)
      in case commit_call g t actor (req_Operation req) (req_IdempotencyKey req) req s of
        (Inl e, s1) \<Rightarrow> (False, ((Outcome_of StatusFailed)\<lparr>out_Approval := approval\<rparr>, Some e), s1)
      | (Inr result, s1) \<Rightarrow>
          let out = (Outcome_of StatusCommitted)\<lparr>out_Result := result, out_Approval := approval\<rparr>
          in case st_Complete (gd_Store g) (storeKey req) out (gs_store s1) of
               (Some e, st) \<Rightarrow> (False, (out, Some e), s1\<lparr>gs_store := st\<rparr>)
             | (None, st) \<Rightarrow>
                 let s2 = s1\<lparr>gs_store := st\<rparr>
                 in case ti_Confirm (t_Target t) of
                      None \<Rightarrow> (True, (out, None), s2)
                    | Some confirm \<Rightarrow>
                        (case confirm (req_Operation req) result (gs_world s2) of
                           (None, w) \<Rightarrow> (True, (out, None), s2\<lparr>gs_world := w\<rparr>)
                         | (Some e, w) \<Rightarrow>
                             (True, (out, Some (Wrap_sentinel ErrUnconfirmed ''%w: %v'' [AErr (text_of e)])),
                              snd (guard_record g (Event actor ''writeback.unconfirmed''
                                (Fields (write_fields req @ [(''error'', AErr (text_of e))]))) (s2\<lparr>gs_world := w\<rparr>)))))"

text \<open>The body of \<open>commitRequest\<close> after the key is claimed.\<close>

definition commit_claimed ::
  "('s, 'w) guard \<Rightarrow> 'w guard_target \<Rightarrow> request \<Rightarrow> approval option \<Rightarrow> ('s, 'w) guard_state
     \<Rightarrow> bool \<times> (outcome \<times> goerror option) \<times> ('s, 'w) guard_state" where
  "commit_claimed g t req approval s =
     (let actor = guard_actor (req_Subject req)
      in case approval_step g req approval s of
        (Inl (out, e), s1) \<Rightarrow> (False, (out, Some e), s1)
      | (Inr i, s1) \<Rightarrow>
     (case decide g actor i s1 of
        ((Some e, dec), s2) \<Rightarrow> (False, (Outcome_of StatusFailed, Some e), s2)
      | ((None, dec), s2) \<Rightarrow>
          if (RequireApproval dec \<or> req_RequireApproval req) \<and> approval = None then
            (False, ((Outcome_of StatusDenied)\<lparr>out_Reasons := Reasons dec\<rparr>,
               Some (Wrap_sentinel ErrDenied ''%w: approval required'' [])), s2)
          else if \<not> Allow dec then
            (False, ((Outcome_of StatusDenied)\<lparr>out_Approval := approval, out_Reasons := Reasons dec\<rparr>,
               Some (Sentinel ErrDenied)), s2)
          else
            commit_perform g t req approval s2))"

definition commitRequest ::
  "('s, 'w) guard \<Rightarrow> request \<Rightarrow> approval option \<Rightarrow> ('s, 'w) guard_state
     \<Rightarrow> (outcome \<times> goerror option) \<times> ('s, 'w) guard_state" where
  "commitRequest g req0 approval s =
     (case guard_target_of s req0 of
        Inl e \<Rightarrow> ((Outcome_of StatusFailed, Some e), s)
      | Inr t \<Rightarrow>
     (case generation (gd_Store g) (gs_store s) req0 of
        Inl e \<Rightarrow> ((Outcome_of StatusFailed, Some e), s)
      | Inr req \<Rightarrow>
     (case st_Begin (gd_Store g) (storeKey req) (gs_store s) of
        (Inl e, st) \<Rightarrow> ((Outcome_of StatusFailed, Some e), s\<lparr>gs_store := st\<rparr>)
      | (Inr (Some prior), st) \<Rightarrow>
          (case guard_record g (Event (guard_actor (req_Subject req)) ''writeback.duplicate'' (Fields (key_fields req)))
               (s\<lparr>gs_store := st\<rparr>) of
             (err, s1) \<Rightarrow> ((prior\<lparr>out_Status := StatusDuplicate\<rparr>, err), s1))
      | (Inr None, st) \<Rightarrow>
          (case commit_claimed g t req approval (s\<lparr>gs_store := st\<rparr>) of
             (committed, res, s1) \<Rightarrow>
               (res, if committed then s1
                     else s1\<lparr>gs_store := snd (st_Abort (gd_Store g) (storeKey req) (gs_store s1))\<rparr>)))))"

definition Commit ::
  "('s, 'w) guard \<Rightarrow> request \<Rightarrow> approval option \<Rightarrow> ('s, 'w) guard_state
     \<Rightarrow> (outcome \<times> goerror option) \<times> ('s, 'w) guard_state" where
  "Commit g req approval s = commitRequest g req approval s"

section \<open>Execute\<close>

definition Execute ::
  "('s, 'w) guard \<Rightarrow> request \<Rightarrow> ('s, 'w) guard_state \<Rightarrow> (outcome \<times> goerror option) \<times> ('s, 'w) guard_state" where
  "Execute g req s =
     (case Prepare g req s of
        ((p, Some e), s1) \<Rightarrow>
          (((Outcome_of (if errors_Is e ErrDenied then StatusDenied else StatusFailed))
              \<lparr>out_Preview := pr_Preview p, out_Reasons := Reasons (pr_Decision p)\<rparr>, Some e), s1)
      | ((p, None), s1) \<Rightarrow>
     (case pr_Duplicate p of
        Some dup \<Rightarrow> ((dup, None), s1)
      | None \<Rightarrow>
          let finish = (\<lambda>approval s2. case Commit g req approval s2 of
                          ((out, err), s3) \<Rightarrow> ((out\<lparr>out_Preview := pr_Preview p\<rparr>, err), s3))
          in if \<not> pr_NeedsApproval p then finish None s1
             else case gd_Approver g of
               None \<Rightarrow>
                 (((Outcome_of StatusDenied)\<lparr>out_Preview := pr_Preview p, out_Reasons := Reasons (pr_Decision p)\<rparr>,
                   Some (Wrap_sentinel ErrDenied ''%w: approval required but no approver is configured'' [])), s1)
             | Some approve \<Rightarrow>
                 (case approve \<lparr>ar_Request = req, ar_Preview = pr_Preview p, ar_Reasons = Reasons (pr_Decision p)\<rparr> (gs_world s1) of
                    (Inl e, w) \<Rightarrow>
                      (((Outcome_of StatusFailed)\<lparr>out_Preview := pr_Preview p\<rparr>,
                        Some (Wrap_err ''writeguard: approval: %w'' [] e)), s1\<lparr>gs_world := w\<rparr>)
                  | (Inr a, w) \<Rightarrow> finish (Some a) (s1\<lparr>gs_world := w\<rparr>))))"

section \<open>Compensate\<close>

definition compensation_request :: "request \<Rightarrow> raw \<Rightarrow> request" where
  "compensation_request req result =
     req\<lparr>req_Operation := req_Compensation req,
         req_IdempotencyKey := req_IdempotencyKey req @ ''#compensate'',
         req_Payload := result,
         req_Reason := ''compensating '' @ req_Operation req\<rparr>"

definition Compensate ::
  "('s, 'w) guard \<Rightarrow> request \<Rightarrow> raw \<Rightarrow> ('s, 'w) guard_state \<Rightarrow> goerror option \<times> ('s, 'w) guard_state" where
  "Compensate g req0 result s =
     (case gs_targets s (req_Target req0) of
        None \<Rightarrow> (Some (New_err ''writeguard: unknown target %q'' [AStr (req_Target req0)]), s)
      | Some t \<Rightarrow>
          if req_Compensation req0 = [] then
            (Some (New_err ''writeguard: %s.%s has no compensation'' [AStr (req_Target req0), AStr (req_Operation req0)]), s)
          else
     (case generation (gd_Store g) (gs_store s) req0 of
        Inl e \<Rightarrow> (Some e, s)
      | Inr req \<Rightarrow>
          let creq = compensation_request req result; key = storeKey creq
          in case st_Begin (gd_Store g) key (gs_store s) of
               (Inl e, st) \<Rightarrow> (Some e, s\<lparr>gs_store := st\<rparr>)
             | (Inr (Some prior), st) \<Rightarrow> (None, s\<lparr>gs_store := st\<rparr>)
             | (Inr None, st) \<Rightarrow>
                 (case commit_call g t ''turgon/saga'' (req_Operation creq) (req_IdempotencyKey creq) creq (s\<lparr>gs_store := st\<rparr>) of
                    (Inl e, s1) \<Rightarrow> (Some e, s1\<lparr>gs_store := snd (st_Abort (gd_Store g) key (gs_store s1))\<rparr>)
                  | (Inr res, s1) \<Rightarrow>
                      (case st_Complete (gd_Store g) key ((Outcome_of StatusCommitted)\<lparr>out_Result := res\<rparr>) (gs_store s1) of
                         (err, st1) \<Rightarrow> (err, s1\<lparr>gs_store := st1\<rparr>)))))"

section \<open>Read\<close>

definition read_input :: "read_request \<Rightarrow> policy_input" where
  "read_input req =
     \<lparr>in_Recipe = [], in_Tool = \<lparr>tool_Name = rd_Tool req, tool_Risk = RiskRead\<rparr>, in_Subject = rd_Subject req,
      in_Action = \<lparr>act_Entity = rd_Entity req, act_Amount = 0\<rparr>, in_Approval = no_approval\<rparr>"

definition read_fields :: "read_request \<Rightarrow> bool \<Rightarrow> (string \<times> arg) list" where
  "read_fields req found =
     [(''target'', AStr (rd_Target req)), (''operation'', AStr (rd_Operation req)), (''tool'', AStr (rd_Tool req)),
      (''id'', AStr (rd_ID req)), (''found'', ABool found)]"

definition guard_Read ::
  "('s, 'w) guard \<Rightarrow> read_request \<Rightarrow> ('s, 'w) guard_state \<Rightarrow> (raw \<times> goerror option) \<times> ('s, 'w) guard_state" where
  "guard_Read g req s =
     (case gs_targets s (rd_Target req) of
        None \<Rightarrow> ((RawEmpty, Some (New_err ''writeguard: unknown target %q'' [AStr (rd_Target req)])), s)
      | Some t \<Rightarrow>
     (case ti_Read (t_Target t) of
        None \<Rightarrow> ((RawEmpty, Some (New_err ''writeguard: target %q cannot answer reads'' [AStr (rd_Target req)])), s)
      | Some read \<Rightarrow>
     (case decide g (guard_actor (rd_Subject req)) (read_input req) s of
        ((Some e, dec), s1) \<Rightarrow> ((RawEmpty, Some e), s1)
      | ((None, dec), s1) \<Rightarrow>
          if Denied dec \<or> \<not> Allow dec then
            ((RawEmpty, Some (Wrap_sentinel ErrDenied ''%w: %v'' (map AErr (Reasons dec)))), s1)
          else
     (case guard_admit g (rd_Target req) t s1 of
        ((Some e, t1), s2) \<Rightarrow> ((RawEmpty, Some e), s2)
      | ((None, t1), s2) \<Rightarrow>
     (case read (rd_Operation req) (rd_ID req) (gs_world s2) of
        ((data, err), w) \<Rightarrow>
          let t2 = t1\<lparr>t_gov := release (t_gov t1)\<rparr>;
              b = (case err of
                     None \<Rightarrow> brk_success (t_brk t2)
                   | Some e \<Rightarrow> if errors_Is e ErrNotFound then brk_success (t_brk t2)
                               else brk_failure (gd_Now g w) (t_brk t2));
              s3 = set_target (rd_Target req) (t2\<lparr>t_brk := b\<rparr>) (s2\<lparr>gs_world := w\<rparr>)
          in case guard_record g (Event (guard_actor (rd_Subject req)) ''read'' (Fields (read_fields req (err = None)))) s3 of
               (Some aerr, s4) \<Rightarrow> ((RawEmpty, Some aerr), s4)
             | (None, s4) \<Rightarrow> ((data, err), s4))))))"

section \<open>Sagas\<close>

record saga_step =
  sst_req :: request
  sst_result :: raw

record saga =
  sg_id :: string
  sg_done :: "saga_step list"

definition NewSaga :: "string \<Rightarrow> saga" where
  "NewSaga i = \<lparr>sg_id = i, sg_done = []\<rparr>"

text \<open>The loop of \<open>Saga.Compensate\<close>, from index \<open>n - 1\<close> down to 0.\<close>

fun saga_undo ::
  "('s, 'w) guard \<Rightarrow> string \<Rightarrow> saga_step list \<Rightarrow> nat \<Rightarrow> goerror list \<Rightarrow> ('s, 'w) guard_state
     \<Rightarrow> goerror list \<times> ('s, 'w) guard_state" where
  "saga_undo g i dn 0 errs s = (errs, s)"
| "saga_undo g i dn (Suc n) errs s =
     (let st = dn ! n
      in case Compensate g (sst_req st) (sst_result st) s of
           (None, s1) \<Rightarrow> saga_undo g i dn n errs s1
         | (Some e, s1) \<Rightarrow>
             saga_undo g i dn n
               (errs @ [Wrap_err ''saga %s: compensate %s.%s: %w''
                  [AStr i, AStr (req_Target (sst_req st)), AStr (req_Operation (sst_req st))] e]) s1)"

definition Saga_Compensate ::
  "('s, 'w) guard \<Rightarrow> saga \<Rightarrow> ('s, 'w) guard_state \<Rightarrow> (goerror option \<times> saga) \<times> ('s, 'w) guard_state" where
  "Saga_Compensate g sg s =
     (case saga_undo g (sg_id sg) (sg_done sg) (length (sg_done sg)) [] s of
        (errs, s1) \<Rightarrow>
          (case guard_record g (Event ''turgon/saga'' ''saga.compensated''
               (Fields [(''saga'', AStr (sg_id sg)), (''errors'', AInt (int (length errs)))])) s1 of
             (err, s2) \<Rightarrow>
               ((Join_err (errs @ (case err of None \<Rightarrow> [] | Some e \<Rightarrow> [e])), sg\<lparr>sg_done := []\<rparr>), s2)))"

definition Saga_Write ::
  "('s, 'w) guard \<Rightarrow> request \<Rightarrow> saga \<Rightarrow> ('s, 'w) guard_state
     \<Rightarrow> ((outcome \<times> goerror option) \<times> saga) \<times> ('s, 'w) guard_state" where
  "Saga_Write g req sg s =
     (if req_Compensation req = [] then
        (((Outcome_of StatusFailed,
           Some (New_err ''saga %s: %s.%s must declare a compensation''
             [AStr (sg_id sg), AStr (req_Target req), AStr (req_Operation req)])), sg), s)
      else case Execute g req s of
        ((out, err), s1) \<Rightarrow>
          (case err of
             Some e \<Rightarrow>
               if \<not> (errors_Is e ErrUnconfirmed \<and> out_Status out = StatusCommitted) then
                 (case Saga_Compensate g sg s1 of
                    ((Some ce, sg1), s2) \<Rightarrow> (((out, Join_err [e, ce]), sg1), s2)
                  | ((None, sg1), s2) \<Rightarrow> (((out, Some e), sg1), s2))
               else
                 (((out, err), if out_Status out \<in> {StatusCommitted, StatusDuplicate}
                               then sg\<lparr>sg_done := sg_done sg @ [\<lparr>sst_req = req, sst_result = out_Result out\<rparr>]\<rparr> else sg), s1)
           | None \<Rightarrow>
               (((out, err), if out_Status out \<in> {StatusCommitted, StatusDuplicate}
                             then sg\<lparr>sg_done := sg_done sg @ [\<lparr>sst_req = req, sst_result = out_Result out\<rparr>]\<rparr> else sg), s1)))"

end
