(* ===== verification/Guard_Props.thy ===== *)
theory Guard_Props
  imports Guard
begin

text \<open>
  Properties of the write guard. The first section gives what each step leaves alone and what it
  adds to the audit log; then what \<open>Commit\<close> may do to the world, what it does to the store (proved
  once for every store with the contract \<open>idem_store\<close> and taken over to the memory store and the
  database table), the generations of a write that was undone, the breaker behind the guard, the
  governed read and the saga.
\<close>

section \<open>A guard to run\<close>

text \<open>A guard with one metered target whose world is the list of the calls it got; its policy is the
  built-in one, its clock stands still.\<close>

type_synonym calls = "(string \<times> string \<times> raw) list"

definition demo_target :: "calls target_impl" where
  "demo_target =
     \<lparr>ti_Simulate = (\<lambda>op p w. (Inr (RawDoc (JObj [(''total'', JNum 310)])), w)),
      ti_Commit = (\<lambda>op k p w. (Inr (RawDoc (JStr k)), w @ [(op, k, p)])),
      ti_Confirm = None,
      ti_Read = Some (\<lambda>op i w. ((RawDoc (JStr i), None), w))\<rparr>"

definition demo_config :: "(memory_store, calls) guard_config" where
  "demo_config =
     \<lparr>cfg_Targets = [(''erp'', \<lparr>tc_Target = Some demo_target, tc_RequestsPerSecond = 1,
        tc_MaxConcurrentCalls = 2, tc_Metered = True\<rparr>)],
      cfg_Policy = Some (\<lambda>w i. Inr (WritebackDefault_Decide 0 i)), cfg_Approver = None,
      cfg_Audit = Some (\<lambda>w ev. None), cfg_Store = memory_ops, cfg_Validate = None,
      cfg_Breaker = \<lparr>cfg_Failures = 0, cfg_Cooldown = 0\<rparr>,
      cfg_Now = (\<lambda>w. Second * int (length w)), cfg_Wait = (\<lambda>w. ([], w))\<rparr>"

definition demo_guard :: "'s store_ops \<Rightarrow> ('s, calls) guard" where
  "demo_guard ops =
     \<lparr>gd_Policy = (\<lambda>w i. Inr (WritebackDefault_Decide 0 i)), gd_Approver = None, gd_Audit = (\<lambda>w ev. None),
      gd_Store = ops, gd_Validate = None, gd_Now = (\<lambda>w. Second * int (length w)), gd_Wait = (\<lambda>w. ([], w))\<rparr>"

definition demo_state :: "'s \<Rightarrow> ('s, calls) guard_state" where
  "demo_state st =
     \<lparr>gs_store = st, gs_log = [],
      gs_targets = [''erp'' \<mapsto> \<lparr>t_Target = demo_target, t_Metered = True, t_gov = newGovernor 1 2 0,
        t_brk = newBreaker \<lparr>cfg_Failures = 0, cfg_Cooldown = 0\<rparr>\<rparr>],
      gs_metered = (\<lambda>_. 0), gs_world = []\<rparr>"

definition demo_request :: request where
  "demo_request =
     \<lparr>req_Target = ''erp'', req_Operation = ''create'', req_Tool = ''t'', req_Risk = RiskLow,
      req_Subject = \<lparr>sub_ID = ''u'', sub_Roles = [RoleOperator], sub_Agent = False, sub_OnBehalfOf = []\<rparr>,
      req_IdempotencyKey = ''k'', req_Payload = RawDoc (JObj []), req_Entity = ''e'', req_Amount = 310,
      req_Simulate = False, req_Compensation = ''cancel'', req_Recipe = [], req_RequireApproval = False,
      req_Reason = [], req_CheckAmount = None\<rparr>"

lemma demo_New: "New_guard demo_config NewMemoryStore [] = Inr (demo_guard memory_ops, demo_state NewMemoryStore)"
  by (simp add: New_guard_def demo_config_def demo_guard_def demo_state_def)

lemmas demo_defs = demo_guard_def demo_state_def demo_request_def demo_target_def

section \<open>Frames\<close>

lemma guard_record_frame [simp]:
  "gs_world (snd (guard_record g ev s)) = gs_world s" "gs_store (snd (guard_record g ev s)) = gs_store s"
  "gs_targets (snd (guard_record g ev s)) = gs_targets s" "gs_metered (snd (guard_record g ev s)) = gs_metered s"
  by (simp_all add: guard_record_def split: option.splits)

lemma guard_record_eq:
  "guard_record g ev s = (r, s') \<Longrightarrow>
     r = gd_Audit g (gs_world s) ev \<and> s' = (if r = None then s\<lparr>gs_log := gs_log s @ [ev]\<rparr> else s)"
  by (auto simp: guard_record_def split: option.splits)

lemma guard_record_log: "set (gs_log s) \<subseteq> set (gs_log (snd (guard_record g ev s)))"
  by (auto simp: guard_record_def split: option.splits)

lemma guard_record_logD: "x \<in> set (gs_log s) \<Longrightarrow> x \<in> set (gs_log (snd (guard_record g ev s)))"
  using guard_record_log by blast

text \<open>The parts of the state that policy, approval and audit steps never touch.\<close>

definition same_but_log :: "('s, 'w) guard_state \<Rightarrow> ('s, 'w) guard_state \<Rightarrow> bool" where
  "same_but_log s s' \<longleftrightarrow>
     gs_world s' = gs_world s \<and> gs_store s' = gs_store s \<and> gs_targets s' = gs_targets s
     \<and> gs_metered s' = gs_metered s \<and> set (gs_log s) \<subseteq> set (gs_log s')"

lemma same_but_log_refl [simp]: "same_but_log s s"
  by (simp add: same_but_log_def)

lemma same_but_log_trans: "same_but_log s s' \<Longrightarrow> same_but_log s' s'' \<Longrightarrow> same_but_log s s''"
  by (auto simp: same_but_log_def)

lemma same_but_log_record [simp]: "same_but_log s (snd (guard_record g ev s))"
  by (simp add: same_but_log_def guard_record_log)

lemma decide_eq:
  "decide g actor i s = ((err, dec), s') \<Longrightarrow>
     same_but_log s s'
     \<and> (err = None \<longrightarrow> gd_Policy g (gs_world s) i = Inr dec \<and> Event actor ''policy.decision'' (DecisionData i dec) \<in> set (gs_log s'))"
  by (auto simp: decide_def same_but_log_def split: sum.splits prod.splits if_splits dest!: guard_record_eq)

definition carried :: "approval option \<Rightarrow> approval" where
  "carried ap = (case ap of None \<Rightarrow> no_approval | Some a \<Rightarrow> a)"

lemma approval_step_eq:
  "approval_step g req ap s = (r, s') \<Longrightarrow>
     same_but_log s s'
     \<and> (\<forall>out e. r = Inl (out, e) \<longrightarrow> out_Status out \<noteq> StatusCommitted)
     \<and> (\<forall>i. r = Inr i \<longrightarrow> i = (guard_input req)\<lparr>in_Approval := carried ap\<rparr>
          \<and> (\<forall>a. ap = Some a \<longrightarrow> ap_Status a = ApprovalApproved))"
  by (auto simp: approval_step_def carried_def Outcome_of_def same_but_log_def guard_input_def Let_def
      split: option.splits prod.splits if_splits dest!: guard_record_eq)

lemma guard_admit_frame:
  "guard_admit g name t s = ((err, t1), s1) \<Longrightarrow>
     gs_store s1 = gs_store s \<and> gs_log s1 = gs_log s \<and> gs_metered s1 = gs_metered s
     \<and> t_Target t1 = t_Target t \<and> t_Metered t1 = t_Metered t"
  by (auto simp: guard_admit_def set_target_def Let_def split: option.splits prod.splits)

definition committed_event :: "string \<Rightarrow> string \<Rightarrow> string \<Rightarrow> request \<Rightarrow> raw \<Rightarrow> bool \<Rightarrow> event" where
  "committed_event actor op key req result metered =
     Event actor ''writeback.committed''
       (Fields [(''target'', AStr (req_Target req)), (''operation'', AStr op), (''key'', AStr key),
                (''reason'', AStr (req_Reason req)), (''result'', ARaw result), (''metered'', ABool metered)])"

lemma commit_call_frame:
  assumes "commit_call g t actor op key req s = (r, s')"
  shows "gs_store s' = gs_store s \<and> set (gs_log s) \<subseteq> set (gs_log s')
    \<and> (\<forall>result. r = Inr result \<longrightarrow> committed_event actor op key req result (t_Metered t) \<in> set (gs_log s'))"
  using assms
  by (auto simp: commit_call_def set_target_def committed_event_def Let_def
      split: option.splits prod.splits sum.splits if_splits
      dest!: guard_record_eq guard_admit_frame intro: guard_record_logD)

text \<open>What the approval and the policy must say for a write to start.\<close>

definition granted :: "('s, 'w) guard \<Rightarrow> 'w \<Rightarrow> request \<Rightarrow> approval option \<Rightarrow> decision \<Rightarrow> bool" where
  "granted g w req ap dec \<longleftrightarrow>
     gd_Policy g w ((guard_input req)\<lparr>in_Approval := carried ap\<rparr>) = Inr dec \<and> Allow dec
     \<and> (case ap of
           None \<Rightarrow> \<not> RequireApproval dec \<and> \<not> req_RequireApproval req
         | Some a \<Rightarrow> ap_Status a = ApprovalApproved)"

definition decision_event :: "request \<Rightarrow> approval option \<Rightarrow> decision \<Rightarrow> event" where
  "decision_event req ap dec =
     Event (guard_actor (req_Subject req)) ''policy.decision''
       (DecisionData ((guard_input req)\<lparr>in_Approval := carried ap\<rparr>) dec)"

text \<open>The steps of a claimed commit before the target is called: it stops there with the state
  unchanged but for the log, or the write was granted.\<close>

lemma commit_claimed_cases:
  assumes "commit_claimed g t req ap s = (c, (out, err), s')"
  obtains (stop) "\<not> c" "same_but_log s s'" "out_Status out \<noteq> StatusCommitted" "err \<noteq> None"
  | (call) dec s2 where "same_but_log s s2" "granted g (gs_world s) req ap dec"
      "decision_event req ap dec \<in> set (gs_log s2)"
      "commit_perform g t req ap s2 = (c, (out, err), s')"
proof -
  obtain r s1 where ap: "approval_step g req ap s = (r, s1)" by (cases "approval_step g req ap s")
  note apd = approval_step_eq [OF ap]
  show thesis
  proof (cases r)
    case (Inl x)
    then show ?thesis using assms apd by (intro stop) (auto simp: commit_claimed_def ap split: prod.splits)
  next
    case (Inr i)
    obtain de dec s2 where d: "decide g (guard_actor (req_Subject req)) i s1 = ((de, dec), s2)"
      by (cases "decide g (guard_actor (req_Subject req)) i s1") auto
    note dd = decide_eq [OF d]
    have same: "same_but_log s s2" using apd dd same_but_log_trans by blast
    have i: "i = (guard_input req)\<lparr>in_Approval := carried ap\<rparr>" using apd Inr by simp
    have eq: "commit_claimed g t req ap s = (case de of
         Some e \<Rightarrow> (False, (Outcome_of StatusFailed, Some e), s2)
       | None \<Rightarrow>
           if (RequireApproval dec \<or> req_RequireApproval req) \<and> ap = None then
             (False, ((Outcome_of StatusDenied)\<lparr>out_Reasons := Reasons dec\<rparr>,
                Some (Wrap_sentinel ErrDenied ''%w: approval required'' [])), s2)
           else if \<not> Allow dec then
             (False, ((Outcome_of StatusDenied)\<lparr>out_Approval := ap, out_Reasons := Reasons dec\<rparr>,
                Some (Sentinel ErrDenied)), s2)
           else commit_perform g t req ap s2)"
      by (simp add: commit_claimed_def ap Inr d split: option.splits)
    consider "de \<noteq> None" | "de = None" "(RequireApproval dec \<or> req_RequireApproval req) \<and> ap = None"
      | "de = None" "\<not> ((RequireApproval dec \<or> req_RequireApproval req) \<and> ap = None)" "\<not> Allow dec"
      | "de = None" "\<not> ((RequireApproval dec \<or> req_RequireApproval req) \<and> ap = None)" "Allow dec"
      by blast
    then show ?thesis
    proof cases
      case 4
      have "granted g (gs_world s) req ap dec"
      proof -
        have "gs_world s1 = gs_world s" using apd by (simp add: same_but_log_def)
        then have pol: "gd_Policy g (gs_world s) ((guard_input req)\<lparr>in_Approval := carried ap\<rparr>) = Inr dec"
          using dd 4(1) by (simp add: i)
        have "\<forall>a. ap = Some a \<longrightarrow> ap_Status a = ApprovalApproved" using apd Inr by blast
        with 4(2) have "case ap of None \<Rightarrow> \<not> RequireApproval dec \<and> \<not> req_RequireApproval req
            | Some a \<Rightarrow> ap_Status a = ApprovalApproved"
          by (cases ap) simp_all
        with pol 4(3) show ?thesis by (simp add: granted_def)
      qed
      moreover have "decision_event req ap dec \<in> set (gs_log s2)"
        using 4 dd i by (simp add: decision_event_def)
      ultimately show ?thesis
        using call [of s2 dec] same assms 4 by (simp add: eq)
    qed (use assms [unfolded eq] same in \<open>intro stop; auto simp: Outcome_of_def\<close>)+
  qed
qed

lemma commit_perform_eq:
  assumes "commit_perform g t req ap s = (c, (out, err), s')"
  shows "set (gs_log s) \<subseteq> set (gs_log s')
    \<and> (out_Status out = StatusCommitted \<longrightarrow>
         committed_event (guard_actor (req_Subject req)) (req_Operation req) (req_IdempotencyKey req) req
           (out_Result out) (t_Metered t) \<in> set (gs_log s')
         \<and> out_Approval out = ap)
    \<and> (out_Status out \<noteq> StatusCommitted \<longrightarrow> \<not> c \<and> gs_store s' = gs_store s)
    \<and> (out_Status out = StatusCommitted \<longrightarrow>
         (\<exists>r. st_Complete (gd_Store g) (storeKey req) out (gs_store s) = (r, gs_store s') \<and> c = (r = None)))
    \<and> (c \<longrightarrow> err = None \<or> (\<exists>e. err = Some e \<and> errors_Is e ErrUnconfirmed))"
proof -
  let ?a = "guard_actor (req_Subject req)"
  obtain r s1 where call: "commit_call g t ?a (req_Operation req) (req_IdempotencyKey req) req s = (r, s1)"
    by (cases "commit_call g t ?a (req_Operation req) (req_IdempotencyKey req) req s")
  note cf = commit_call_frame [OF call]
  show ?thesis
  proof (cases r)
    case (Inl e)
    then show ?thesis using assms cf by (auto simp: commit_perform_def call Outcome_of_def)
  next
    case (Inr result)
    then show ?thesis using assms cf
      by (auto simp: commit_perform_def call Outcome_of_def Let_def Wrap_sentinel_def errors_Is_def
          split: option.splits prod.splits intro!: guard_record_logD)
  qed
qed

lemma Commit_cases:
  assumes "Commit g req0 ap s = ((out, err), s')"
  obtains (refused) e where "s' = s" "out = Outcome_of StatusFailed" "err = Some e"
  | (begin_error) r e st where "generation (gd_Store g) (gs_store s) req0 = Inr r"
      "st_Begin (gd_Store g) (storeKey r) (gs_store s) = (Inl e, st)"
      "s' = s\<lparr>gs_store := st\<rparr>" "out = Outcome_of StatusFailed" "err = Some e"
  | (duplicate) r prior st where "generation (gd_Store g) (gs_store s) req0 = Inr r"
      "st_Begin (gd_Store g) (storeKey r) (gs_store s) = (Inr (Some prior), st)"
      "out = prior\<lparr>out_Status := StatusDuplicate\<rparr>"
      "guard_record g (Event (guard_actor (req_Subject r)) ''writeback.duplicate'' (Fields (key_fields r)))
         (s\<lparr>gs_store := st\<rparr>) = (err, s')"
  | (run) t r st c s1 where "guard_target_of s req0 = Inr t" "generation (gd_Store g) (gs_store s) req0 = Inr r"
      "st_Begin (gd_Store g) (storeKey r) (gs_store s) = (Inr None, st)"
      "commit_claimed g t r ap (s\<lparr>gs_store := st\<rparr>) = (c, (out, err), s1)"
      "s' = (if c then s1 else s1\<lparr>gs_store := snd (st_Abort (gd_Store g) (storeKey r) (gs_store s1))\<rparr>)"
proof -
  note eq = assms [unfolded Commit_def commitRequest_def]
  show thesis
  proof (cases "guard_target_of s req0")
    case (Inl e)
    then show ?thesis using eq refused [of e] by simp
  next
    case t: (Inr t)
    show ?thesis
    proof (cases "generation (gd_Store g) (gs_store s) req0")
      case (Inl e)
      then show ?thesis using eq t refused [of e] by simp
    next
      case r: (Inr r)
      obtain res st where b: "st_Begin (gd_Store g) (storeKey r) (gs_store s) = (res, st)"
        by (cases "st_Begin (gd_Store g) (storeKey r) (gs_store s)")
      consider e where "res = Inl e" | prior where "res = Inr (Some prior)" | "res = Inr None"
        by (metis not_None_eq sum.exhaust)
      then show ?thesis
      proof cases
        case 1
        then show ?thesis using eq t r b begin_error [of r e st] by simp
      next
        case 2
        then show ?thesis
          using eq t r b duplicate [of r prior st] by (auto split: prod.splits)
      next
        case 3
        then show ?thesis
          using eq t r b run [of t r st] by (auto split: prod.splits)
      qed
    qed
  qed
qed

section \<open>Generations\<close>

text \<open>The keys a write is tried under, and whether the write under a key was undone.\<close>

definition nth_request :: "request \<Rightarrow> nat \<Rightarrow> request" where
  "nth_request req n = (if n \<le> 1 then req else req\<lparr>req_IdempotencyKey := req_IdempotencyKey req @ ''~'' @ Itoa n\<rparr>)"

definition undone :: "(string \<Rightarrow> outcome option) \<Rightarrow> request \<Rightarrow> bool" where
  "undone rec r = (case rec (compensateKey r) of None \<Rightarrow> False | Some o' \<Rightarrow> out_Status o' = StatusCommitted)"

definition undone_too_often :: "request \<Rightarrow> goerror" where
  "undone_too_often req =
     Wrap_sentinel ErrInvalid ''%w: %s.%s %s was undone %d times; give the write another idempotency key''
       [AStr (req_Target req), AStr (req_Operation req), AStr (req_IdempotencyKey req), AInt (int maxGenerations - 1)]"

definition generation_of :: "(string \<Rightarrow> outcome option) \<Rightarrow> request \<Rightarrow> goerror + request" where
  "generation_of rec req =
     (if req_Compensation req = [] then Inr req
      else case find (\<lambda>n. \<not> undone rec (nth_request req n)) [1..<maxGenerations] of
        None \<Rightarrow> Inl (undone_too_often req)
      | Some n \<Rightarrow> Inr (nth_request req n))"

context idem_store
begin

lemma generation_loop_find:
  "1 \<le> m \<Longrightarrow> generation_loop ops st req [Suc m..<Suc n] (nth_request req m) =
     (case find (\<lambda>n. \<not> undone (recorded st) (nth_request req n)) [m..<n] of
        None \<Rightarrow> Inl (undone_too_often req)
      | Some n \<Rightarrow> Inr (nth_request req n))"
proof (induction "n - m" arbitrary: m)
  case 0
  then show ?case by (simp add: undone_too_often_def)
next
  case (Suc k)
  then have m: "m < n" "[Suc m..<Suc n] = Suc m # [Suc (Suc m)..<Suc n]" "[m..<n] = m # [Suc m..<n]"
    by (simp_all add: upt_conv_Cons del: upt_Suc)
  have next_key: "(nth_request req m)\<lparr>req_IdempotencyKey := req_IdempotencyKey req @ ''~'' @ Itoa (Suc m)\<rparr> = nth_request req (Suc m)"
    using Suc(3) by (simp add: nth_request_def)
  show ?case
    using Suc(1) [of "Suc m"] Suc(2,3)
    unfolding m
    by (simp add: lookup_recorded undone_def next_key del: upt_Suc append_Cons split: option.splits)
qed

lemma generation_eq: "generation ops st req = generation_of (recorded st) req"
proof -
  have two: "[2..<Suc maxGenerations] = [Suc 1..<Suc maxGenerations]" by (simp add: numeral_2_eq_2)
  have c1: "nth_request req 1 = req" by (simp add: nth_request_def)
  show ?thesis
    using generation_loop_find [of 1 st req maxGenerations]
    unfolding generation_def generation_of_def two c1 by simp
qed

end

text \<open>The key of a write is never the key of its own compensation.\<close>

lemma suffix_mem: "a @ x # k = b @ t \<Longrightarrow> length k < length t \<Longrightarrow> x \<in> set t"
  by (auto simp: append_eq_append_conv2 Cons_eq_append_conv)

lemma own_key_no_suffix:
  assumes "c \<noteq> []" "x \<notin> set c"
  shows "a @ x # k \<noteq> b @ x # k @ c"
proof (induction k rule: length_induct)
  case (1 k)
  show ?case
  proof
    assume eq: "a @ x # k = b @ x # k @ c"
    show False
    proof (cases "length k < length c")
      case True
      have "a @ x # k = (b @ x # k) @ c" using eq by simp
      from suffix_mem [OF this True] assms(2) show False by simp
    next
      case False
      define k' where "k' = take (length k - length c) k"
      have "drop (length k - length c) k = drop (length (a @ [x]) + (length k - length c)) ((a @ [x]) @ k)"
        by (simp only: drop_append) simp
      also have "(a @ [x]) @ k = (b @ x # k) @ c" using eq by simp
      also have "length (a @ [x]) + (length k - length c) = length (b @ x # k)"
        using arg_cong [OF eq, of length] False by simp
      finally have k: "k = k' @ c" using append_take_drop_id [of "length k - length c" k] by (simp add: k'_def)
      then have "a @ x # k' = b @ x # k' @ c" using eq by simp
      moreover have "length k' < length k" using False assms(1) by (cases c) (auto simp: k'_def)
      ultimately show False using 1 by blast
    qed
  qed
qed

lemma storeKey_not_compensateKey: "storeKey r \<noteq> compensateKey r"
  using own_key_no_suffix [of "''#compensate''" "CHR ''/''" "req_Operation r" "req_IdempotencyKey r" "req_Compensation r"]
  by (simp add: storeKey_def compensateKey_def)

text \<open>Recording an outcome under the generation's own key does not change the generation.\<close>

lemma generation_of_record:
  assumes "generation_of rec req = Inr r" "rec (storeKey r) = None"
  shows "generation_of (rec(storeKey r \<mapsto> out)) req = Inr r"
proof (cases "req_Compensation req = []")
  case True
  then show ?thesis using assms(1) by (simp add: generation_of_def)
next
  case False
  let ?rec' = "rec(storeKey r \<mapsto> out)"
  obtain n where n: "find (\<lambda>n. \<not> undone rec (nth_request req n)) [1..<maxGenerations] = Some n" "r = nth_request req n"
    using assms(1) False by (auto simp: generation_of_def split: option.splits)
  have und: "undone ?rec' (nth_request req m) = undone rec (nth_request req m)"
    if "undone rec (nth_request req m) \<or> nth_request req m = r" for m
    using that assms(2) storeKey_not_compensateKey [of r] by (auto simp: undone_def split: option.splits)
  obtain i where i: "i < length [1..<maxGenerations]" "[1..<maxGenerations] ! i = n"
    "\<not> undone rec (nth_request req n)" "\<forall>j<i. undone rec (nth_request req ([1..<maxGenerations] ! j))"
    using n(1) by (auto simp: find_Some_iff)
  have "find (\<lambda>n. \<not> undone ?rec' (nth_request req n)) [1..<maxGenerations] = Some n"
    unfolding find_Some_iff using i und n(2) by (intro exI [of _ i]) auto
  then show ?thesis using False n(2) by (simp add: generation_of_def)
qed

lemmas run_guard = Commit_def commitRequest_def commit_claimed_def commit_perform_def commit_call_def approval_step_def
  decide_def guard_record_def guard_admit_def set_target_def guard_target_of_def generation_def
  storeKey_def compensateKey_def guard_input_def WritebackDefault_Decide_def policy_consts
  newGovernor_def newBreaker_def gov_acquire_def acquire_loop_stop gov_take_def refill_def release_def
  brk_allow_def brk_success_def Outcome_of_def maxGenerations_def write_fields_def key_fields_def no_approval_def Let_def guard_actor_def

lemma demo_simps [simp]:
  "gd_Store (demo_guard ops) = ops" "gs_store (demo_state st) = st" "gs_world (demo_state st) = []"
  by (simp_all add: demo_guard_def demo_state_def)

lemma demo_Commit:
  obtains out s' where "Commit (demo_guard memory_ops) demo_request None (demo_state NewMemoryStore) = ((out, None), s')"
    "out_Status out = StatusCommitted" "gs_world s' = [(''create'', ''k'', RawDoc (JObj []))]" "Metered s' ''erp'' = 1"
  by (simp add: demo_defs run_guard memory_defs NewMemoryStore_def Metered_def upt_rec)

lemma demo_Commit_pg:
  obtains out s' where "Commit (demo_guard (pg_ops now)) demo_request None (demo_state (\<lambda>_. None)) = ((out, None), s')"
    "out_Status out = StatusCommitted" "gs_targets s' ''erp'' \<noteq> None"
  by (simp add: demo_defs run_guard pg_defs upt_rec)

section \<open>What a commit may do\<close>

lemma Commit_granted:
  assumes "Commit g req ap s = ((out, err), s')"
    and "out_Status out = StatusCommitted \<or> gs_world s' \<noteq> gs_world s"
  shows "\<exists>r dec. generation (gd_Store g) (gs_store s) req = Inr r \<and> granted g (gs_world s) r ap dec
    \<and> decision_event r ap dec \<in> set (gs_log s')"
  using assms(1)
proof (cases rule: Commit_cases)
  case (refused e)
  then show ?thesis using assms(2) by (simp add: Outcome_of_def)
next
  case (begin_error r e st)
  then show ?thesis using assms(2) by (simp add: Outcome_of_def)
next
  case (duplicate r prior st)
  then show ?thesis using assms(2) by (auto dest: guard_record_eq split: if_splits)
next
  case (run t r st c s1)
  from run(4) show ?thesis
  proof (cases rule: commit_claimed_cases)
    case stop
    then show ?thesis using run(5) assms(2) by (auto simp: same_but_log_def split: if_splits)
  next
    case (call dec s2)
    then show ?thesis using run(2,5) commit_perform_eq [OF call(4)] by auto
  qed
qed

text \<open>C1: no write without leave. When \<open>Commit\<close> reports a committed write or touched the target system
  at all (the world after differs from the world before), then the policy, asked with the approval
  the caller supplied, allowed exactly this request, the decision is in the audit log, and either
  the supplied approval is an approval or nobody's approval was required.\<close>

theorem Commit_governed:
  assumes "Commit g req ap s = ((out, err), s')"
    and "out_Status out = StatusCommitted \<or> gs_world s' \<noteq> gs_world s"
  shows "\<exists>r dec. generation (gd_Store g) (gs_store s) req = Inr r \<and> granted g (gs_world s) r ap dec
    \<and> decision_event r ap dec \<in> set (gs_log s')"
  by (rule Commit_granted [OF assms])

theorem Commit_governed_witness:
  "\<exists>r dec. generation memory_ops NewMemoryStore demo_request = Inr r
    \<and> granted (demo_guard memory_ops) [] r None dec"
proof (rule demo_Commit)
  fix out s'
  assume "Commit (demo_guard memory_ops) demo_request None (demo_state NewMemoryStore) = ((out, None), s')"
    "out_Status out = StatusCommitted"
  then show ?thesis using Commit_governed by fastforce
qed

lemma Commit_logged:
  assumes "Commit g req ap s = ((out, err), s')" "out_Status out = StatusCommitted"
  shows "out_Approval out = ap \<and> (\<exists>r m. generation (gd_Store g) (gs_store s) req = Inr r
    \<and> committed_event (guard_actor (req_Subject r)) (req_Operation r) (req_IdempotencyKey r) r (out_Result out) m \<in> set (gs_log s'))"
  using assms(1)
proof (cases rule: Commit_cases)
  case (run t r st c s1)
  from run(4) show ?thesis
  proof (cases rule: commit_claimed_cases)
    case stop
    then show ?thesis using assms(2) by simp
  next
    case (call dec s2)
    then show ?thesis using run(2,5) commit_perform_eq [OF call(4)] assms(2) by auto
  qed
qed (use assms(2) in \<open>simp_all add: Outcome_of_def\<close>)

text \<open>Every committed write is in the audit log, and its outcome carries the approval it was made
  with.\<close>

theorem Commit_audited:
  assumes "Commit g req ap s = ((out, err), s')" "out_Status out = StatusCommitted"
  shows "out_Approval out = ap \<and> (\<exists>r m. generation (gd_Store g) (gs_store s) req = Inr r
    \<and> committed_event (guard_actor (req_Subject r)) (req_Operation r) (req_IdempotencyKey r) r (out_Result out) m \<in> set (gs_log s'))"
  by (rule Commit_logged [OF assms])

theorem Commit_audited_witness:
  "out_Approval (fst (fst (Commit (demo_guard memory_ops) demo_request None (demo_state NewMemoryStore)))) = None"
proof (rule demo_Commit)
  fix out s'
  assume "Commit (demo_guard memory_ops) demo_request None (demo_state NewMemoryStore) = ((out, None), s')"
    "out_Status out = StatusCommitted"
  then show ?thesis using Commit_audited by fastforce
qed

section \<open>What a commit does to the store\<close>

context idem_store
begin

lemma Commit_store:
  assumes ops: "gd_Store g = ops" and com: "Commit g req ap s = ((out, err), s')"
  shows "claimed (gs_store s') = claimed (gs_store s)
    \<and> (if out_Status out = StatusCommitted
       then \<exists>r. generation ops (gs_store s) req = Inr r \<and> recorded (gs_store s) (storeKey r) = None
              \<and> recorded (gs_store s') = (recorded (gs_store s))(storeKey r \<mapsto> out)
       else recorded (gs_store s') = recorded (gs_store s))"
  using com
proof (cases rule: Commit_cases)
  case (refused e)
  then show ?thesis by (simp add: Outcome_of_def)
next
  case (begin_error r e st)
  then show ?thesis using begin_Inl [of "storeKey r" "gs_store s" e st] by (simp add: ops Outcome_of_def)
next
  case (duplicate r prior st)
  then show ?thesis
    using begin_Some [of "storeKey r" "gs_store s" prior st]
    by (auto simp: ops dest!: guard_record_eq split: if_splits)
next
  case (run t r st c s1)
  have b: "recorded (gs_store s) (storeKey r) = None" "\<not> claimed (gs_store s) (storeKey r)"
    "recorded st = recorded (gs_store s)" "claimed st = (claimed (gs_store s))(storeKey r := True)"
    using begin_None [of "storeKey r" "gs_store s" st] run(3) by (auto simp: ops)
  have undo: "(claimed (gs_store s))(storeKey r := False) = claimed (gs_store s)"
    using b(2) by (auto simp: fun_eq_iff)
  have ab: "recorded (snd (st_Abort ops k x)) = recorded x \<and> claimed (snd (st_Abort ops k x)) = (claimed x)(k := False)" for k x
    using abort_eq [of k x] by (cases "st_Abort ops k x") simp
  from run(4) show ?thesis
  proof (cases rule: commit_claimed_cases)
    case stop
    then have "gs_store s1 = st" by (simp add: same_but_log_def)
    with stop run(5) show ?thesis by (simp add: ops ab b undo)
  next
    case (call dec s2)
    have st2: "gs_store s2 = st" using call(1) by (simp add: same_but_log_def)
    note pe = commit_perform_eq [OF call(4), unfolded ops st2]
    show ?thesis
    proof (cases "out_Status out = StatusCommitted")
      case False
      with pe have "gs_store s1 = st" "\<not> c" by simp_all
      with False run(5) show ?thesis by (simp add: ops ab b undo)
    next
      case True
      with pe obtain res where res: "st_Complete ops (storeKey r) out st = (res, gs_store s1)" "c = (res = None)" by blast
      from complete_eq [OF res(1)] have "res = None" "recorded (gs_store s1) = (recorded st)(storeKey r \<mapsto> out)"
        "claimed (gs_store s1) = (claimed st)(storeKey r := False)" by auto
      with True run(2,5) res(2) b show ?thesis by (simp add: ops undo)
    qed
  qed
qed

lemma Commit_recorded:
  assumes ops: "gd_Store g = ops" and t: "guard_target_of s req = Inr t"
    and gen: "generation ops (gs_store s) req = Inr r" and rec: "recorded (gs_store s) (storeKey r) = Some prior"
    and com: "Commit g req ap s = ((out, err), s')"
  shows "out = prior\<lparr>out_Status := StatusDuplicate\<rparr> \<and> gs_world s' = gs_world s \<and> gs_store s' = gs_store s"
proof -
  note eq = com [unfolded Commit_def commitRequest_def ops t gen sum.case begin_recorded [OF rec] prod.case option.case]
  then show ?thesis by (auto split: prod.splits if_splits dest!: guard_record_eq)
qed

end





text \<open>C36: the generation of a write is the first of its 49 keys that was not undone, and an error exactly
  when all of them were; it depends on the recorded outcomes only, so all replicas, and \<open>Prepare\<close>,
  \<open>Commit\<close> and \<open>Compensate\<close>, agree on it.\<close>

theorem generation_first_not_undone:
  "generation (pg_ops now) tb req = generation_of (pg_done tb) req
   \<and> generation memory_ops ms req = generation_of (ms_done ms) req"
  by (simp add: pg.generation_eq mem.generation_eq)

end
