(* ===== verification/Guard_Flows.thy ===== *)
theory Guard_Flows
  imports Guard_Props
begin

text \<open>
  The flows around a commit: the first phase and the in-process run with an approver, the breaker
  behind the guard, compensation, the governed read and the saga.
\<close>

section \<open>Prepare and Execute\<close>

text \<open>What a step may change besides the log: the world (a dry run reaches the target).\<close>

definition same_guard :: "('s, 'w) guard_state \<Rightarrow> ('s, 'w) guard_state \<Rightarrow> bool" where
  "same_guard s s' \<longleftrightarrow> gs_store s' = gs_store s \<and> gs_targets s' = gs_targets s \<and> gs_metered s' = gs_metered s"

lemma same_but_log_guard: "same_but_log s s' \<Longrightarrow> same_guard s s'"
  by (simp add: same_but_log_def same_guard_def)

lemma same_guard_trans: "same_guard s s' \<Longrightarrow> same_guard s' s'' \<Longrightarrow> same_guard s s''"
  by (simp add: same_guard_def)

lemma same_guard_refl [simp]: "same_guard s s"
  by (simp add: same_guard_def)

lemma same_guard_record: "guard_record g ev s = (r, s') \<Longrightarrow> same_guard s s'"
  by (auto simp: same_guard_def dest!: guard_record_eq split: if_splits)

lemma simulate_step_eq:
  "simulate_step g t actor req p s = ((p1, err), s1) \<Longrightarrow>
     same_guard s s1 \<and> pr_NeedsApproval p1 = pr_NeedsApproval p \<and> pr_Duplicate p1 = pr_Duplicate p
     \<and> pr_Decision p1 = pr_Decision p \<and> pr_AmountMismatch p1 = pr_AmountMismatch p"
  by (auto simp: simulate_step_def same_guard_def Let_def
      split: if_splits prod.splits sum.splits dest!: guard_record_eq)

lemma amount_step_eq:
  "amount_step g actor req p s = ((p1, err), s1) \<Longrightarrow>
     same_guard s s1 \<and> pr_Duplicate p1 = pr_Duplicate p
     \<and> pr_NeedsApproval p1 = (pr_NeedsApproval p
          \<or> (case req_CheckAmount req of None \<Rightarrow> False | Some c \<Rightarrow> mismatch (req_Amount req) (pr_Preview p1) c \<noteq> None))"
  by (auto simp: amount_step_def same_guard_def Let_def
      split: if_splits prod.splits option.splits dest!: guard_record_eq)

text \<open>What \<open>Prepare\<close> promises when it reports no error and no duplicate.\<close>

definition prepared_ok :: "('s, 'w) guard \<Rightarrow> ('s, 'w) guard_state \<Rightarrow> request \<Rightarrow> prepared \<Rightarrow> bool" where
  "prepared_ok g s req p \<longleftrightarrow>
     (\<exists>r dec. generation (gd_Store g) (gs_store s) req = Inr r
        \<and> gd_Policy g (gs_world s) (guard_input r) = Inr dec \<and> \<not> Denied dec
        \<and> (Allow dec \<or> RequireApproval dec \<or> req_RequireApproval r)
        \<and> pr_NeedsApproval p = (RequireApproval dec \<or> req_RequireApproval r
             \<or> (case req_CheckAmount r of None \<Rightarrow> False | Some c \<Rightarrow> mismatch (req_Amount r) (pr_Preview p) c \<noteq> None)))"

lemma prepare_decided_eq:
  assumes "prepare_decided g t r dec s = ((p, err), s')"
  shows "same_guard s s' \<and> (err = None \<longrightarrow> \<not> Denied dec
    \<and> (Allow dec \<or> RequireApproval dec \<or> req_RequireApproval r)
    \<and> pr_NeedsApproval p = (RequireApproval dec \<or> req_RequireApproval r
         \<or> (case req_CheckAmount r of None \<Rightarrow> False | Some c \<Rightarrow> mismatch (req_Amount r) (pr_Preview p) c \<noteq> None)))"
proof -
  let ?a = "guard_actor (req_Subject r)"
  define p0 where "p0 = no_prepared\<lparr>pr_Decision := dec, pr_NeedsApproval := RequireApproval dec \<or> req_RequireApproval r\<rparr>"
  define v where "v = (case gd_Validate g of None \<Rightarrow> None | Some validate \<Rightarrow> validate (gs_world s) r)"
  have na: "pr_NeedsApproval p0 = (RequireApproval dec \<or> req_RequireApproval r)" by (simp add: p0_def)
  note eq = assms [unfolded prepare_decided_def Let_def, folded p0_def v_def]
  consider "Denied dec \<or> (\<not> Allow dec \<and> \<not> pr_NeedsApproval p0)"
    | e where "\<not> (Denied dec \<or> (\<not> Allow dec \<and> \<not> pr_NeedsApproval p0))" "v = Some e"
    | "\<not> (Denied dec \<or> (\<not> Allow dec \<and> \<not> pr_NeedsApproval p0))" "v = None"
    by (cases v) auto
  then show ?thesis
  proof cases
    case 1
    then show ?thesis using eq by auto
  next
    case 2
    then show ?thesis using eq same_but_log_guard [OF same_but_log_record] by auto
  next
    case 3
    obtain p1 err1 s1 where sim: "simulate_step g t ?a r p0 s = ((p1, err1), s1)"
      by (cases "simulate_step g t ?a r p0 s") auto
    note sd = simulate_step_eq [OF sim]
    show ?thesis
    proof (cases err1)
      case (Some e)
      then show ?thesis using eq 3 sim sd by auto
    next
      case None
      then have am: "amount_step g ?a r p1 s1 = ((p, err), s')" using eq 3 sim by auto
      then show ?thesis
        using amount_step_eq [OF am] sd na 3(1) same_guard_trans [of s s1 s'] by auto
    qed
  qed
qed

lemma Prepare_eq:
  assumes "Prepare g req s = ((p, err), s')"
  shows "same_guard s s' \<and> (err = None \<longrightarrow> pr_Duplicate p = None \<longrightarrow> prepared_ok g s req p)"
proof -
  note eq = assms [unfolded Prepare_def Let_def]
  consider "s' = s" "err \<noteq> None"
    | t r prior where "guard_target_of s req = Inr t" "generation (gd_Store g) (gs_store s) req = Inr r"
        "st_Lookup (gd_Store g) (storeKey r) (gs_store s) = Inr prior"
    using eq by (cases "guard_target_of s req"; cases "generation (gd_Store g) (gs_store s) req";
        cases "st_Lookup (gd_Store g) (storeKey (projr (generation (gd_Store g) (gs_store s) req))) (gs_store s)") auto
  then show ?thesis
  proof cases
    case 1
    then show ?thesis by auto
  next
    case (2 t r prior)
    show ?thesis
    proof (cases prior)
      case (Some o')
      then show ?thesis using eq 2 same_guard_record by (auto split: prod.splits)
    next
      case None
      let ?a = "guard_actor (req_Subject r)"
      obtain de dec s1 where d: "decide g ?a (guard_input r) s = ((de, dec), s1)"
        by (cases "decide g ?a (guard_input r) s") auto
      note dd = decide_eq [OF d]
      have s1: "same_guard s s1" using dd same_but_log_guard by blast
      show ?thesis
      proof (cases de)
        case (Some e)
        then show ?thesis using eq 2 None d s1 by auto
      next
        case de: None
        then have pd: "prepare_decided g t r dec s1 = ((p, err), s')" using eq 2 None d by auto
        show ?thesis
          using prepare_decided_eq [OF pd] dd de 2(2) same_guard_trans [OF s1] unfolding prepared_ok_def by blast
      qed
    qed
  qed
qed

lemma prepare_decided_dup: "prepare_decided g t r dec s = ((p, err), s') \<Longrightarrow> pr_Duplicate p = None"
  by (auto simp: prepare_decided_def no_prepared_def Let_def
      split: if_splits option.splits prod.splits dest!: simulate_step_eq amount_step_eq)

lemma Prepare_dup: "Prepare g req s = ((p, None), s') \<Longrightarrow> pr_Duplicate p = Some d \<Longrightarrow> out_Status d = StatusDuplicate"
  by (auto simp: Prepare_def Let_def split: sum.splits option.splits prod.splits dest: prepare_decided_dup)

text \<open>C35: \<open>Prepare\<close> claims nothing: it leaves the store, the governors, the breakers and the meters as they
  are, so a workflow may wait for a person for as long as it takes. When it reports neither an
  error nor a duplicate, the policy has not ruled the request out, and it asks for a person exactly
  when the policy or the request does, or when the amount the dry run shows does not agree with
  the request's.\<close>

theorem Prepare_claims_nothing:
  assumes "Prepare g req s = ((p, err), s')"
  shows "gs_store s' = gs_store s \<and> gs_targets s' = gs_targets s \<and> gs_metered s' = gs_metered s
    \<and> (err = None \<longrightarrow> pr_Duplicate p = None \<longrightarrow> prepared_ok g s req p)"
  using Prepare_eq [OF assms] by (simp add: same_guard_def)

theorem Prepare_claims_nothing_witness:
  "gs_store (snd (Prepare (demo_guard memory_ops) demo_request (demo_state NewMemoryStore))) = NewMemoryStore"
proof -
  let ?p = "Prepare (demo_guard memory_ops) demo_request (demo_state NewMemoryStore)"
  have "?p = ((fst (fst ?p), snd (fst ?p)), snd ?p)" by simp
  from Prepare_claims_nothing [OF this] show ?thesis by simp
qed

text \<open>C4: a person decides where a person is asked for. When \<open>Execute\<close> reports a committed write, its
  \<open>Prepare\<close> succeeded; and if that asked for approval (a risk, a threshold, the recipe, or an amount
  that does not agree with the dry run), then the configured approver was shown this very request
  with its preview, approved it, and the outcome carries that approval.\<close>

theorem Execute_asks:
  assumes "Execute g req s = ((out, err), s')" "out_Status out = StatusCommitted"
  shows "\<exists>p s1. Prepare g req s = ((p, None), s1) \<and> pr_Duplicate p = None \<and> prepared_ok g s req p
    \<and> (if pr_NeedsApproval p
       then \<exists>approve a w. gd_Approver g = Some approve \<and> ap_Status a = ApprovalApproved \<and> out_Approval out = Some a
              \<and> approve \<lparr>ar_Request = req, ar_Preview = pr_Preview p, ar_Reasons = Reasons (pr_Decision p)\<rparr> (gs_world s1) = (Inr a, w)
       else out_Approval out = None)"
proof -
  obtain p perr s1 where prep: "Prepare g req s = ((p, perr), s1)" by (cases "Prepare g req s") auto
  note eq = assms(1) [unfolded Execute_def prep prod.case Let_def]
  have perr: "perr = None" using eq assms(2) by (auto simp: Outcome_of_def split: option.splits if_splits)
  have dup: "pr_Duplicate p = None"
    using eq assms(2) Prepare_dup [of g req s p s1] prep by (auto simp: perr split: option.splits)
  have fin: "out_Approval out = ap \<and> (\<forall>a. ap = Some a \<longrightarrow> ap_Status a = ApprovalApproved)"
    if "(case Commit g req ap s2 of ((out, err), s3) \<Rightarrow> ((out\<lparr>out_Preview := pr_Preview p\<rparr>, err), s3)) = ((out, err), s')" for ap s2
  proof -
    obtain o' e' s3 where com: "Commit g req ap s2 = ((o', e'), s3)" by (cases "Commit g req ap s2") auto
    with that have o: "out = o'\<lparr>out_Preview := pr_Preview p\<rparr>" by auto
    then have "out_Status o' = StatusCommitted" using assms(2) by simp
    then show ?thesis
      using Commit_logged [OF com] Commit_granted [OF com] o by (auto simp: granted_def)
  qed
  have ok: "prepared_ok g s req p" using Prepare_eq [of g req s p None s1] prep dup by (simp add: perr)
  have "if pr_NeedsApproval p
       then \<exists>approve a w. gd_Approver g = Some approve \<and> ap_Status a = ApprovalApproved \<and> out_Approval out = Some a
              \<and> approve \<lparr>ar_Request = req, ar_Preview = pr_Preview p, ar_Reasons = Reasons (pr_Decision p)\<rparr> (gs_world s1) = (Inr a, w)
       else out_Approval out = None"
  proof (cases "pr_NeedsApproval p")
    case False
    then show ?thesis using eq fin [of None s1] by (simp add: perr dup)
  next
    case True
    note eq' = eq [unfolded perr dup option.case]
    show ?thesis
    proof (cases "gd_Approver g")
      case None
      then show ?thesis using eq' True assms(2) by (auto simp: Outcome_of_def)
    next
      case (Some approve)
      let ?ar = "\<lparr>ar_Request = req, ar_Preview = pr_Preview p, ar_Reasons = Reasons (pr_Decision p)\<rparr>"
      obtain ans w where ans: "approve ?ar (gs_world s1) = (ans, w)" by (cases "approve ?ar (gs_world s1)")
      show ?thesis
      proof (cases ans)
        case (Inl e)
        then show ?thesis using eq' True Some ans assms(2) by (auto simp: Outcome_of_def)
      next
        case (Inr a)
        then show ?thesis using eq' True Some ans fin [of "Some a" "s1\<lparr>gs_world := w\<rparr>"] by auto
      qed
    qed
  qed
  then show ?thesis using prep perr dup ok by blast
qed

definition asking_guard :: "(memory_store, calls) guard" where
  "asking_guard = (demo_guard memory_ops)\<lparr>gd_Approver :=
     Some (\<lambda>ar w. (Inr \<lparr>ap_Status = ApprovalApproved, ap_By = ''boss'', ap_Note = []\<rparr>, w))\<rparr>"

definition risky_request :: request where
  "risky_request = demo_request\<lparr>req_Risk := RiskHigh, req_Simulate := True\<rparr>"

lemmas run_prepare = Prepare_def prepare_decided_def simulate_step_def amount_step_def no_prepared_def

lemma risky_Execute:
  "out_Status (fst (fst (Execute asking_guard risky_request (demo_state NewMemoryStore)))) = StatusCommitted"
  by (simp add: Execute_def asking_guard_def risky_request_def demo_defs run_guard run_prepare memory_defs
      NewMemoryStore_def upt_rec)

theorem Execute_asks_witness:
  "\<exists>p s1. Prepare asking_guard risky_request (demo_state NewMemoryStore) = ((p, None), s1)
     \<and> prepared_ok asking_guard (demo_state NewMemoryStore) risky_request p"
proof -
  let ?x = "Execute asking_guard risky_request (demo_state NewMemoryStore)"
  have "?x = ((fst (fst ?x), snd (fst ?x)), snd ?x)" by simp
  from Execute_asks [OF this risky_Execute] show ?thesis by blast
qed

section \<open>The breaker behind the guard\<close>

text \<open>A call that may start holds one slot; one that may not, holds none. (The breaker's trial flag is
  not given back.)\<close>

lemma guard_admit_trial:
  assumes "brk_open (t_brk t)" "\<not> brk_trial (t_brk t)"
    and "cfg_Cooldown (brk_cfg (t_brk t)) \<le> gd_Now g (gs_world s) - brk_openedAt (t_brk t)"
    and "gd_Wait g (gs_world s) = (ws, w)" "gov_acquire (gd_Now g (gs_world s)) ws (t_gov t) = (Some e, gov)"
  shows "guard_admit g name t s =
    ((Some e, t\<lparr>t_brk := (t_brk t)\<lparr>brk_trial := True\<rparr>, t_gov := gov\<rparr>),
     set_target name (t\<lparr>t_brk := (t_brk t)\<lparr>brk_trial := True\<rparr>, t_gov := gov\<rparr>) (s\<lparr>gs_world := w\<rparr>))"
  using assms by (simp add: guard_admit_def brk_allow_def Let_def)

lemma commit_call_refused:
  assumes "brk_open (t_brk t)" "brk_trial (t_brk t)"
  shows "commit_call g t actor op key req s =
    (Inl (Wrap_err ''writeguard: %s: %w'' [AStr (req_Target req)] (Sentinel ErrCircuitOpen)), s)"
  using assms by (simp add: commit_call_def guard_admit_def trial_blocks)

text \<open>C38: a cancelled trial closes a target for good. When the cooldown of an open breaker is over and the
  trial request is cancelled while it waits for the governor, it reports neither success nor
  failure; from then on every write to the target is refused with \<open>ErrCircuitOpen\<close> at every later
  time and in every later world, without reaching the target and without changing the state.\<close>

theorem cancelled_trial_blocks_target:
  assumes "brk_open (t_brk t)" "\<not> brk_trial (t_brk t)"
    and "cfg_Cooldown (brk_cfg (t_brk t)) \<le> gd_Now g (gs_world s) - brk_openedAt (t_brk t)"
    and "gd_Wait g (gs_world s) = (ws, w)" "gov_acquire (gd_Now g (gs_world s)) ws (t_gov t) = (Some e, gov)"
  shows "\<exists>t' s'. commit_call g t actor op key req s = (Inl e, s') \<and> gs_targets s' (req_Target req) = Some t'
    \<and> (\<forall>g2 actor2 op2 key2 req2 (s2 :: ('s, 'w) guard_state).
          commit_call g2 t' actor2 op2 key2 req2 s2 =
            (Inl (Wrap_err ''writeguard: %s: %w'' [AStr (req_Target req2)] (Sentinel ErrCircuitOpen)), s2))"
  using guard_admit_trial [OF assms, of "req_Target req"] assms(1)
  by (simp add: commit_call_def [of g] set_target_def commit_call_refused)

text \<open>A guard whose callers give up at once, before a target with an open breaker and an empty bucket.\<close>

definition tripped :: "calls guard_target" where
  "tripped = \<lparr>t_Target = demo_target, t_Metered = True,
     t_gov = (newGovernor 1 2 0)\<lparr>gov_tokens := 0, gov_last := 100 * Second\<rparr>,
     t_brk = (newBreaker \<lparr>cfg_Failures = 0, cfg_Cooldown = 0\<rparr>)\<lparr>brk_open := True, brk_failures := 5\<rparr>\<rparr>"

theorem cancelled_trial_blocks_target_witness:
  "\<exists>e s'. commit_call ((demo_guard memory_ops)\<lparr>gd_Now := (\<lambda>w. 100 * Second)\<rparr>) tripped ''u'' ''create'' ''k'' demo_request
     (demo_state NewMemoryStore) = (Inl e, s')"
proof -
  let ?g = "(demo_guard memory_ops)\<lparr>gd_Now := (\<lambda>w. 100 * Second)\<rparr>" and ?s = "demo_state NewMemoryStore"
  have take: "gov_take (100 * Second) (t_gov tripped \<lparr>gov_running := 1\<rparr>)
      = (1000000000, t_gov tripped \<lparr>gov_running := 1\<rparr>)"
    by (simp add: tripped_def newGovernor_def gov_take_def refill_def trunc_int_def Let_def fl_billion)
  then have acq: "gov_acquire (gd_Now ?g (gs_world ?s)) [] (t_gov tripped) = (Some (New_err ''context done'' []), t_gov tripped)"
    by (simp add: gov_acquire_def acquire_loop_stop release_def) (simp add: tripped_def newGovernor_def release_def)
  have "brk_open (t_brk tripped)" "\<not> brk_trial (t_brk tripped)"
    "cfg_Cooldown (brk_cfg (t_brk tripped)) \<le> gd_Now ?g (gs_world ?s) - brk_openedAt (t_brk tripped)"
    "gd_Wait ?g (gs_world ?s) = ([], [])"
    by (simp_all add: tripped_def newBreaker_def Second_def demo_guard_def)
  from cancelled_trial_blocks_target [OF this acq, of "''u''" "''create''" "''k''" demo_request] show ?thesis by blast
qed

section \<open>Compensation\<close>

text \<open>A compensation is not idempotent: asked twice to undo the same write, the guard calls the
  target's compensation twice, the second time under the key of the next generation, because the
  first compensation, once recorded, moves the generation on.\<close>

theorem Compensate_twice_runs_twice:
  "gs_world (snd (Compensate (demo_guard memory_ops) demo_request (RawDoc (JStr ''k''))
     (snd (Compensate (demo_guard memory_ops) demo_request (RawDoc (JStr ''k'')) (demo_state NewMemoryStore)))))
   = [(''cancel'', ''k#compensate'', RawDoc (JStr ''k'')), (''cancel'', ''k~2#compensate'', RawDoc (JStr ''k''))]"
  by (simp add: Compensate_def compensation_request_def demo_defs run_guard memory_defs NewMemoryStore_def upt_rec
      Itoa.simps digit_char_two Seconds_def go_div_def go_mod_def Second_def)

section \<open>Reads\<close>

text \<open>C26: a read is governed and audited: data or a change of the world comes out of \<open>Read\<close> only when
  the policy allowed this read and did not deny it, with the decision in the audit log; and data
  only when the read itself is in the audit log too.\<close>

theorem Read_governed:
  assumes "guard_Read g req s = ((data, err), s')" "data \<noteq> RawEmpty \<or> gs_world s' \<noteq> gs_world s"
  shows "\<exists>dec. gd_Policy g (gs_world s) (read_input req) = Inr dec \<and> Allow dec \<and> \<not> Denied dec
    \<and> Event (guard_actor (rd_Subject req)) ''policy.decision'' (DecisionData (read_input req) dec) \<in> set (gs_log s')
    \<and> (data \<noteq> RawEmpty \<longrightarrow>
         Event (guard_actor (rd_Subject req)) ''read'' (Fields (read_fields req (err = None))) \<in> set (gs_log s'))"
proof -
  let ?a = "guard_actor (rd_Subject req)"
  obtain de dec s1 where d: "decide g ?a (read_input req) s = ((de, dec), s1)"
    by (cases "decide g ?a (read_input req) s") auto
  note dd = decide_eq [OF d]
  show ?thesis
    using assms dd
    by (auto simp: guard_Read_def d Let_def set_target_def same_but_log_def
        split: option.splits prod.splits if_splits dest!: guard_record_eq guard_admit_frame)
qed

definition demo_read :: read_request where
  "demo_read = \<lparr>rd_Target = ''erp'', rd_Operation = ''order'', rd_Tool = ''t'',
     rd_Subject = \<lparr>sub_ID = ''u'', sub_Roles = [RoleReader], sub_Agent = False, sub_OnBehalfOf = []\<rparr>,
     rd_Entity = ''e'', rd_ID = ''42''\<rparr>"

lemma demo_guard_Read:
  "fst (guard_Read (demo_guard memory_ops) demo_read (demo_state NewMemoryStore)) = (RawDoc (JStr ''42''), None)"
  by (simp add: guard_Read_def demo_read_def read_input_def read_fields_def demo_defs run_guard)

theorem Read_governed_witness:
  "\<exists>dec. WritebackDefault_Decide 0 (read_input demo_read) = dec \<and> Allow dec"
proof -
  let ?g = "demo_guard memory_ops" and ?s = "demo_state NewMemoryStore"
  have "guard_Read ?g demo_read ?s = ((RawDoc (JStr ''42''), None), snd (guard_Read ?g demo_read ?s))"
    using demo_guard_Read by (metis prod.collapse)
  from Read_governed [OF this] show ?thesis by (auto simp: demo_guard_def)
qed

text \<open>Two states that look the same to the audit log and the clock.\<close>

definition same_view :: "('s, 'w) guard_state \<Rightarrow> ('s, 'w) guard_state \<Rightarrow> bool" where
  "same_view s s' \<longleftrightarrow> gs_log s' = gs_log s \<and> gs_world s' = gs_world s"

lemma decide_view:
  "same_view s s' \<Longrightarrow> decide g actor i s = (r, s1) \<Longrightarrow> \<exists>s1'. decide g actor i s' = (r, s1') \<and> same_view s1 s1'"
  by (auto simp: decide_def guard_record_def same_view_def split: sum.splits option.splits)

lemma guard_admit_view:
  "same_view s s' \<Longrightarrow> t_gov t' = t_gov t \<Longrightarrow> t_brk t' = t_brk t \<Longrightarrow> guard_admit g n t s = ((e, t1), s1) \<Longrightarrow>
     \<exists>t1' s1'. guard_admit g n t' s' = ((e, t1'), s1') \<and> same_view s1 s1'"
  by (auto simp: guard_admit_def set_target_def same_view_def Let_def split: prod.splits option.splits)

text \<open>The audit log never contains what was read: with a reader that returns other data for the
  same requests (and otherwise behaves the same), the log is the same.\<close>

theorem Read_audit_hides_data:
  assumes "gs_targets s (rd_Target req) = Some t" "ti_Read (t_Target t) = Some read"
    and "\<And>op i w. snd (fst (read2 op i w)) = snd (fst (read op i w)) \<and> snd (read2 op i w) = snd (read op i w)"
    and "t2 = t\<lparr>t_Target := (t_Target t)\<lparr>ti_Read := Some read2\<rparr>\<rparr>"
  shows "gs_log (snd (guard_Read g req (s\<lparr>gs_targets := (gs_targets s)(rd_Target req \<mapsto> t2)\<rparr>)))
    = gs_log (snd (guard_Read g req s))"
proof -
  let ?s2 = "s\<lparr>gs_targets := (gs_targets s)(rd_Target req \<mapsto> t2)\<rparr>"
  let ?a = "guard_actor (rd_Subject req)"
  have rd2: "ti_Read (t_Target t2) = Some read2" "same_view s ?s2" "t_gov t2 = t_gov t" "t_brk t2 = t_brk t"
    by (simp_all add: assms(4) same_view_def)
  obtain de dec s1 where d: "decide g ?a (read_input req) s = ((de, dec), s1)"
    by (cases "decide g ?a (read_input req) s") auto
  obtain s1' where d2: "decide g ?a (read_input req) ?s2 = ((de, dec), s1')" "same_view s1 s1'"
    using decide_view [OF rd2(2) d] by blast
  obtain ae t1 s2 where ad: "guard_admit g (rd_Target req) t s1 = ((ae, t1), s2)"
    by (cases "guard_admit g (rd_Target req) t s1") auto
  obtain t1' s2' where ad2: "guard_admit g (rd_Target req) t2 s1' = ((ae, t1'), s2')" "same_view s2 s2'"
    using guard_admit_view [OF d2(2) rd2(3,4) ad] by blast
  let ?r = "read (rd_Operation req) (rd_ID req) (gs_world s2)" and ?r2 = "read2 (rd_Operation req) (rd_ID req) (gs_world s2')"
  have w: "gs_world s2' = gs_world s2" using ad2(2) by (simp add: same_view_def)
  obtain dat err w where r: "?r = ((dat, err), w)" by (cases ?r) auto
  obtain dat2 where r2: "?r2 = ((dat2, err), w)" using assms(3) [of "rd_Operation req" "rd_ID req" "gs_world s2"] r
    unfolding w by (metis fst_conv prod.collapse snd_conv)
  have view: "same_view (set_target n x (s2\<lparr>gs_world := w\<rparr>)) (set_target n y (s2'\<lparr>gs_world := w\<rparr>))" for n x y
    using ad2(2) by (simp add: same_view_def set_target_def)
  have logs: "gs_log (snd (case guard_record g ev a of (Some e, s4) \<Rightarrow> ((RawEmpty, Some e), s4) | (None, s4) \<Rightarrow> ((x, err), s4)))
      = gs_log (snd (case guard_record g ev b of (Some e, s4) \<Rightarrow> ((RawEmpty, Some e), s4) | (None, s4) \<Rightarrow> ((y, err), s4)))"
    if "same_view a b" for ev a b x y
    using that by (auto simp: guard_record_def same_view_def split: option.splits)
  show ?thesis
  proof (cases "de \<noteq> None \<or> Denied dec \<or> \<not> Allow dec \<or> ae \<noteq> None")
    case True
    then show ?thesis
      using assms(1,2) rd2(1) d d2 ad ad2
      by (cases de; cases ae) (auto simp: guard_Read_def same_view_def)
  next
    case False
    then show ?thesis
      using assms(1,2) rd2(1) d d2(1) ad ad2(1) r r2
      by (simp add: guard_Read_def Let_def) (rule logs [OF view, symmetric])
  qed
qed

theorem Read_audit_hides_data_witness:
  "\<exists>t2. gs_log (snd (guard_Read (demo_guard memory_ops) demo_read
       ((demo_state NewMemoryStore)\<lparr>gs_targets := (gs_targets (demo_state NewMemoryStore))(''erp'' \<mapsto> t2)\<rparr>)))
     = gs_log (snd (guard_Read (demo_guard memory_ops) demo_read (demo_state NewMemoryStore)))"
proof -
  obtain t where t: "gs_targets (demo_state NewMemoryStore) (rd_Target demo_read) = Some t"
    "ti_Read (t_Target t) = Some (\<lambda>op i w. ((RawDoc (JStr i), None), w))"
    by (simp add: demo_state_def demo_read_def demo_target_def)
  let ?t2 = "t\<lparr>t_Target := (t_Target t)\<lparr>ti_Read := Some (\<lambda>op i w. ((RawDoc JNull, None), w))\<rparr>\<rparr>"
  have "gs_log (snd (guard_Read (demo_guard memory_ops) demo_read
       ((demo_state NewMemoryStore)\<lparr>gs_targets := (gs_targets (demo_state NewMemoryStore))(rd_Target demo_read \<mapsto> ?t2)\<rparr>)))
     = gs_log (snd (guard_Read (demo_guard memory_ops) demo_read (demo_state NewMemoryStore)))"
    by (rule Read_audit_hides_data [OF t _ refl]) simp
  moreover have "rd_Target demo_read = ''erp''" by (simp add: demo_read_def)
  ultimately show ?thesis by (intro exI [of _ ?t2]) simp
qed

section \<open>Sagas\<close>

text \<open>Undoing a list of steps in its order.\<close>

primrec undo_all ::
  "('s, 'w) guard \<Rightarrow> string \<Rightarrow> saga_step list \<Rightarrow> ('s, 'w) guard_state \<Rightarrow> goerror list \<times> ('s, 'w) guard_state" where
  "undo_all g i [] s = ([], s)"
| "undo_all g i (st # sts) s =
     (case Compensate g (sst_req st) (sst_result st) s of
        (r, s1) \<Rightarrow>
          (case undo_all g i sts s1 of
             (es, s2) \<Rightarrow>
               ((case r of
                   None \<Rightarrow> []
                 | Some e \<Rightarrow> [Wrap_err ''saga %s: compensate %s.%s: %w''
                     [AStr i, AStr (req_Target (sst_req st)), AStr (req_Operation (sst_req st))] e]) @ es, s2)))"

lemma saga_undo_rev:
  "n \<le> length dn \<Longrightarrow> saga_undo g i dn n errs s =
     (errs @ fst (undo_all g i (rev (take n dn)) s), snd (undo_all g i (rev (take n dn)) s))"
proof (induction n arbitrary: errs s)
  case 0
  then show ?case by simp
next
  case (Suc n)
  then have "rev (take (Suc n) dn) = dn ! n # rev (take n dn)" by (simp add: take_Suc_conv_app_nth)
  with Suc show ?case by (simp add: Let_def split: prod.splits option.splits)
qed

definition compensable :: "saga \<Rightarrow> bool" where
  "compensable sg = list_all (\<lambda>st. req_Compensation (sst_req st) \<noteq> []) (sg_done sg)"

definition saga_event :: "saga \<Rightarrow> nat \<Rightarrow> event" where
  "saga_event sg n = Event ''turgon/saga'' ''saga.compensated''
     (Fields [(''saga'', AStr (sg_id sg)), (''errors'', AInt (int n))])"

text \<open>C13: a saga is undone newest first and completely: \<open>Saga.Compensate\<close> compensates every step that was
  done, in reverse order, also after one of the compensations fails; it then records how many
  failed, forgets the steps, and reports no error exactly when every compensation and the audit
  succeeded.\<close>

theorem Saga_Compensate_reverse:
  assumes "undo_all g (sg_id sg) (rev (sg_done sg)) s = (errs, s1)"
    and "guard_record g (saga_event sg (length errs)) s1 = (aerr, s2)"
  shows "Saga_Compensate g sg s =
    ((Join_err (errs @ (case aerr of None \<Rightarrow> [] | Some e \<Rightarrow> [e])), sg\<lparr>sg_done := []\<rparr>), s2)
    \<and> ((Join_err (errs @ (case aerr of None \<Rightarrow> [] | Some e \<Rightarrow> [e])) = None) = (errs = [] \<and> aerr = None))"
  using assms by (auto simp: Saga_Compensate_def saga_undo_rev saga_event_def Join_err_def split: option.splits)

theorem Saga_Compensate_reverse_witness:
  "fst (Saga_Compensate (demo_guard memory_ops) (NewSaga ''i'') (demo_state NewMemoryStore)) = (None, NewSaga ''i'')"
  using Saga_Compensate_reverse [of "demo_guard memory_ops" "NewSaga ''i''" "demo_state NewMemoryStore" "[]"
      "demo_state NewMemoryStore" None]
  by (simp add: NewSaga_def guard_record_def demo_guard_def Join_err_def)

text \<open>A saga only holds steps it can undo: a step without a compensation is refused before anything is
  done; a successful step is added at the end; and a step that fails rolls the saga back: it is
  compensated and empty afterwards.\<close>

theorem Saga_Write_rolls_back:
  assumes "compensable sg" "Saga_Write g req sg s = (((out, err), sg'), s')"
  shows "compensable sg'
    \<and> (req_Compensation req = [] \<longrightarrow> s' = s \<and> sg' = sg \<and> err \<noteq> None)
    \<and> (req_Compensation req \<noteq> [] \<longrightarrow>
         (let ((o', e'), s1) = Execute g req s
          in if e' = None \<or> (errors_Is (the e') ErrUnconfirmed \<and> out_Status o' = StatusCommitted)
             then out = o' \<and> err = e' \<and> s' = s1
               \<and> sg_done sg' = sg_done sg @ (if out_Status o' \<in> {StatusCommitted, StatusDuplicate}
                    then [\<lparr>sst_req = req, sst_result = out_Result o'\<rparr>] else [])
             else out = o' \<and> err \<noteq> None \<and> sg_done sg' = [] \<and> s' = snd (Saga_Compensate g sg s1)))"
proof (cases "req_Compensation req = []")
  case True
  then show ?thesis using assms by (auto simp: Saga_Write_def)
next
  case False
  obtain o' e' s1 where ex: "Execute g req s = ((o', e'), s1)" by (cases "Execute g req s") auto
  obtain ce sg1 s2 where c: "Saga_Compensate g sg s1 = ((ce, sg1), s2)" by (cases "Saga_Compensate g sg s1") auto
  then have "sg_done sg1 = []" by (auto simp: Saga_Compensate_def split: prod.splits)
  with assms False ex c show ?thesis
    by (cases e'; cases ce) (auto simp: Saga_Write_def compensable_def Join_err_def split: if_splits)
qed

theorem Saga_Write_rolls_back_witness:
  "compensable (snd (fst (Saga_Write (demo_guard memory_ops) demo_request (NewSaga ''i'') (demo_state NewMemoryStore))))"
proof -
  let ?w = "Saga_Write (demo_guard memory_ops) demo_request (NewSaga ''i'') (demo_state NewMemoryStore)"
  have "?w = (((fst (fst (fst ?w)), snd (fst (fst ?w))), snd (fst ?w)), snd ?w)" by simp
  from Saga_Write_rolls_back [OF _ this] show ?thesis by (simp add: compensable_def NewSaga_def)
qed

end
