(* ===== verification/Api.thy ===== *)
theory Api
  imports Policy
begin

text \<open>
  Turgon's declarative objects, \<open>apis/v1alpha1\<close>: connector manifests, connections, recipes,
  mappings, slot contracts, plugins, stack blueprints and policy packs, with the schema check
  \<open>Validate\<close> of each. A schema violation is a path and a message; \<open>Validate\<close> returns the list of
  violations in the order the code reports them. Go maps are association lists (for a map whose
  iteration order shows, any order of the list is one of the orders Go may take). The regular
  expressions are written out as matchers.
\<close>

section \<open>Names and formats\<close>

definition is_lower :: "char \<Rightarrow> bool" where
  "is_lower c = (let n = (of_char c :: nat) in 97 \<le> n \<and> n \<le> 122)"

definition is_upper :: "char \<Rightarrow> bool" where
  "is_upper c = (let n = (of_char c :: nat) in 65 \<le> n \<and> n \<le> 90)"

definition is_name_char :: "char \<Rightarrow> bool" where
  "is_name_char c = (is_lower c \<or> is_digit c)"

text \<open>\<open>nameRE\<close> and \<open>handleRE\<close>: lower-case letters and digits, with dashes inside.\<close>

definition nameRE :: "string \<Rightarrow> bool" where
  "nameRE s = (s \<noteq> [] \<and> is_name_char (hd s) \<and> is_name_char (last s) \<and> list_all (\<lambda>c. is_name_char c \<or> c = CHR ''-'') s)"

definition re_number :: "string \<Rightarrow> bool" where
  "re_number s = (s \<noteq> [] \<and> list_all is_digit s \<and> (length s = 1 \<or> hd s \<noteq> CHR ''0''))"

definition semverRE :: "string \<Rightarrow> bool" where
  "semverRE s =
     (let (core, pre) = CutByte (CHR ''-'') (TrimPrefix s ''v'');
          parts = Split (CHR ''.'') core
      in length parts = 3 \<and> list_all re_number parts
         \<and> (case pre of
              None \<Rightarrow> True
            | Some p \<Rightarrow> p \<noteq> [] \<and> list_all (\<lambda>c. is_digit c \<or> is_lower c \<or> is_upper c \<or> c = CHR ''.'' \<or> c = CHR ''-'') p))"

definition re_space :: "char \<Rightarrow> bool" where
  "re_space c = (let n = (of_char c :: nat) in n = 9 \<or> n = 10 \<or> n = 12 \<or> n = 13 \<or> n = 32)"

definition secretRefRE :: "string \<Rightarrow> bool" where
  "secretRefRE s =
     (case CutByte (CHR '':'') s of
        (scheme, Some rest) \<Rightarrow>
          scheme \<noteq> [] \<and> is_lower (hd scheme)
          \<and> list_all (\<lambda>c. is_name_char c \<or> c = CHR ''+'' \<or> c = CHR ''.'' \<or> c = CHR ''-'') scheme
          \<and> HasPrefix rest ''//'' \<and> drop 2 rest \<noteq> [] \<and> list_all (\<lambda>c. \<not> re_space c) (drop 2 rest)
      | (scheme, None) \<Rightarrow> False)"

definition is_ident_start :: "char \<Rightarrow> bool" where
  "is_ident_start c = (is_lower c \<or> is_upper c \<or> c = CHR ''_'')"

definition fieldRE :: "string \<Rightarrow> bool" where
  "fieldRE s = (s \<noteq> [] \<and> is_ident_start (hd s) \<and> list_all (\<lambda>c. is_ident_start c \<or> is_digit c) s)"

definition topicRE :: "string \<Rightarrow> bool" where
  "topicRE s = list_all nameRE (Split (CHR ''.'') s)"

definition hostRE :: "string \<Rightarrow> bool" where
  "hostRE s =
     (case CutByte (CHR '':'') s of
        (host, port) \<Rightarrow>
          2 \<le> length (Split (CHR ''.'') host) \<and> list_all nameRE (Split (CHR ''.'') host)
          \<and> (case port of None \<Rightarrow> True | Some p \<Rightarrow> p \<noteq> [] \<and> list_all is_digit p))"

text \<open>\<open>regoPackageRE\<close>: at the start of some line, blanks, \<open>package\<close>, blanks, a dotted name, and blanks up
  to the end of a line.\<close>

fun line_starts :: "string \<Rightarrow> string list" where
  "line_starts [] = []"
| "line_starts (c # cs) = (if c = CHR 0x0A then cs # line_starts cs else line_starts cs)"

definition package_line :: "string \<Rightarrow> bool" where
  "package_line s =
     (case CutPrefix (dropWhile re_space s) ''package'' of
        None \<Rightarrow> False
      | Some r \<Rightarrow>
          let name = dropWhile re_space r;
              rest = dropWhile (\<lambda>c. is_ident_start c \<or> is_digit c \<or> c = CHR ''.'') name
          in r \<noteq> [] \<and> re_space (hd r) \<and> name \<noteq> [] \<and> is_ident_start (hd name)
             \<and> (dropWhile re_space rest = [] \<or> CHR 0x0A \<in> set (takeWhile re_space rest)))"

definition regoPackageRE :: "string \<Rightarrow> bool" where
  "regoPackageRE s = list_ex package_line (s # line_starts s)"

definition oneOf :: "string \<Rightarrow> string list \<Rightarrow> bool" where
  "oneOf v allowed = list_ex (\<lambda>a. v = a) allowed"

definition validRisk :: "string \<Rightarrow> bool" where
  "validRisk r = (r = RiskRead \<or> r = RiskLow \<or> r = RiskHigh)"

text \<open>\<open>ParseRef\<close>: \<open>name@constraint\<close>, at the last \<open>@\<close>.\<close>

definition ParseRef :: "string \<Rightarrow> string \<times> string" where
  "ParseRef ref = (case CutLast (CHR ''@'') ref of Some p \<Rightarrow> p | None \<Rightarrow> (ref, []))"

section \<open>Durations\<close>

text \<open>\<open>time.ParseDuration\<close>: a sign, then numbers with a unit each; the result in nanoseconds.\<close>

definition unit_ns :: "string \<Rightarrow> int option" where
  "unit_ns u =
     (if u = ''ns'' then Some 1
      else if u = ''us'' \<or> u = [char_of (194::nat), char_of (181::nat), CHR ''s''] \<or> u = [char_of (206::nat), char_of (188::nat), CHR ''s''] then Some 1000
      else if u = ''ms'' then Some 1000000
      else if u = ''s'' then Some 1000000000
      else if u = ''m'' then Some 60000000000
      else if u = ''h'' then Some 3600000000000
      else None)"

text \<open>The digits of a fraction as a number and its scale; digits that would overflow are dropped.\<close>

fun leadingFraction :: "string \<Rightarrow> nat \<Rightarrow> rat \<Rightarrow> nat \<times> rat" where
  "leadingFraction [] f scale = (f, scale)"
| "leadingFraction (c # cs) f scale =
     (if (2 ^ 63 - 1) div 10 < f then (f, scale)
      else if 2 ^ 63 < 10 * f + digit_val c then (f, scale)
      else leadingFraction cs (10 * f + digit_val c) (fl (scale * 10)))"

definition duration_limit :: int where
  "duration_limit = 9223372036854775808"

function duration_terms :: "string \<Rightarrow> int \<Rightarrow> int option" where
  "duration_terms s d =
     (if s = [] then Some d
      else
        let whole = takeWhile is_digit s; r1 = dropWhile is_digit s;
            (frac, r2) = (case r1 of
                 c # r \<Rightarrow> if c = CHR ''.'' then (Some (takeWhile is_digit r), dropWhile is_digit r) else (None, r1)
               | [] \<Rightarrow> (None, []));
            u = takeWhile (\<lambda>c. c \<noteq> CHR ''.'' \<and> \<not> is_digit c) r2;
            r3 = dropWhile (\<lambda>c. c \<noteq> CHR ''.'' \<and> \<not> is_digit c) r2
        in if whole = [] \<and> (frac = None \<or> frac = Some []) then None
           else if duration_limit < int (digits_val whole) then None
           else if u = [] then None
           else case unit_ns u of
             None \<Rightarrow> None
           | Some n \<Rightarrow>
               if duration_limit div n < int (digits_val whole) then None
               else
                 let v = int (digits_val whole) * n;
                     v' = (case frac of
                         None \<Rightarrow> v
                       | Some [] \<Rightarrow> v
                       | Some fd \<Rightarrow>
                           (case leadingFraction fd 0 1 of
                              (f, scale) \<Rightarrow>
                                if 0 < f then v + trunc_int (fl (fl (of_nat f) * fl (of_int n / scale))) else v))
                 in if duration_limit < v' then None
                    else if duration_limit < d + v' then None
                    else duration_terms r3 (d + v'))"
  by pat_completeness auto

termination
proof (relation "measure (\<lambda>(s, d). length s)", goal_cases)
  case 1
  show ?case by simp
next
  case (2 s d whole r1 x frac r2 u r3 n v v')
  have len: "length r1 \<le> length s" using 2(3) by (simp add: length_dropWhile_le)
  have "length r2 \<le> length r1"
    using 2(4,5) by (auto simp: length_dropWhile_le le_SucI split: list.splits if_splits)
  moreover have "length r3 < length r2"
  proof -
    have "length r2 = length u + length r3"
      using 2(6,7) by (metis length_append takeWhile_dropWhile_id)
    then show ?thesis using 2(10) by simp
  qed
  ultimately show ?case using len by simp
qed

definition ParseDuration :: "string \<Rightarrow> int option" where
  "ParseDuration s0 =
     (let (neg, s) = (case s0 of
            [] \<Rightarrow> (False, [])
          | c # r \<Rightarrow> if c = CHR ''-'' then (True, r) else if c = CHR ''+'' then (False, r) else (False, s0))
      in if s = ''0'' then Some 0
         else if s = [] then None
         else case duration_terms s 0 of
           None \<Rightarrow> None
         | Some d \<Rightarrow> if neg then Some (- d) else if max_int64 < d then None else Some d)"

section \<open>Metadata and violations\<close>

definition APIVersion :: string where "APIVersion = ''turgon.dev/v1alpha1''"

definition KindConnectorManifest :: string where "KindConnectorManifest = ''ConnectorManifest''"
definition KindConnection :: string where "KindConnection = ''Connection''"
definition KindRecipe :: string where "KindRecipe = ''Recipe''"
definition KindMapping :: string where "KindMapping = ''Mapping''"
definition KindSlotContract :: string where "KindSlotContract = ''SlotContract''"
definition KindPlugin :: string where "KindPlugin = ''Plugin''"
definition KindStackBlueprint :: string where "KindStackBlueprint = ''StackBlueprint''"
definition KindPolicyPack :: string where "KindPolicyPack = ''PolicyPack''"

lemmas kind_defs = KindConnectorManifest_def KindConnection_def KindRecipe_def KindMapping_def KindSlotContract_def
  KindPlugin_def KindStackBlueprint_def KindPolicyPack_def

definition Kinds :: "string list" where
  "Kinds = [KindConnectorManifest, KindConnection, KindSlotContract, KindPolicyPack, KindMapping, KindPlugin,
     KindRecipe, KindStackBlueprint]"

record type_meta =
  tm_APIVersion :: string
  tm_Kind :: string

record object_meta =
  om_Name :: string
  om_Version :: string
  om_Publisher :: string
  om_Certification :: string
  om_Description :: string
  om_Labels :: "(string \<times> string) list"

record field_error =
  fe_Path :: string
  fe_Message :: message

text \<open>\<open>es.add\<close> under a condition.\<close>

definition add_if :: "bool \<Rightarrow> string \<Rightarrow> string \<Rightarrow> arg list \<Rightarrow> field_error list" where
  "add_if b path format args = (if b then [\<lparr>fe_Path = path, fe_Message = Msg format args\<rparr>] else [])"

text \<open>A loop over a list with its index.\<close>

definition each :: "(nat \<Rightarrow> 'a \<Rightarrow> field_error list) \<Rightarrow> 'a list \<Rightarrow> field_error list" where
  "each f xs = concat (map (\<lambda>(i, x). f i x) (enumerate 0 xs))"

definition idx :: "string \<Rightarrow> nat \<Rightarrow> string" where
  "idx p i = p @ ''['' @ Itoa i @ '']''"

definition LevelL0 :: string where "LevelL0 = ''L0''"
definition LevelL1 :: string where "LevelL1 = ''L1''"
definition LevelL2 :: string where "LevelL2 = ''L2''"
definition LevelL3 :: string where "LevelL3 = ''L3''"

lemmas level_defs = LevelL0_def LevelL1_def LevelL2_def LevelL3_def

definition validateTypeMeta :: "type_meta \<Rightarrow> string \<Rightarrow> field_error list" where
  "validateTypeMeta t kind =
     add_if (tm_APIVersion t \<noteq> APIVersion) ''apiVersion'' ''must be %q, got %q'' [AStr APIVersion, AStr (tm_APIVersion t)]
     @ add_if (tm_Kind t \<noteq> kind) ''kind'' ''must be %q, got %q'' [AStr kind, AStr (tm_Kind t)]"

definition validateMeta :: "object_meta \<Rightarrow> bool \<Rightarrow> field_error list" where
  "validateMeta m versionRequired =
     add_if (\<not> nameRE (om_Name m)) ''metadata.name'' ''must be lowercase alphanumerics and dashes, got %q'' [AStr (om_Name m)]
     @ (if om_Version m = [] \<and> versionRequired then add_if True ''metadata.version'' ''is required'' []
        else add_if (om_Version m \<noteq> [] \<and> \<not> semverRE (om_Version m)) ''metadata.version''
               ''must be a semantic version, got %q'' [AStr (om_Version m)])
     @ add_if (om_Certification m \<notin> {[], LevelL0, LevelL1, LevelL2, LevelL3}) ''metadata.certification''
         ''must be one of L0, L1, L2, L3, got %q'' [AStr (om_Certification m)]"

section \<open>Connector manifests\<close>

definition DirectionRead :: string where "DirectionRead = ''read''"
definition DirectionWrite :: string where "DirectionWrite = ''write''"
definition DirectionEvents :: string where "DirectionEvents = ''events''"

lemmas direction_defs = DirectionRead_def DirectionWrite_def DirectionEvents_def

definition connector_runtimes :: "string list" where
  "connector_runtimes = [''camel-java'', ''debezium'', ''files-edi'', ''screen'', ''wasm'', ''container'', ''native'']"

record interface =
  if_Kind :: string
  if_Simulation :: string

record prohibited_interface =
  pi_Kind :: string
  pi_Reason :: string

record interfaces =
  ifs_Read :: "interface list"
  ifs_Write :: "interface list"
  ifs_Events :: "interface list"
  ifs_Prohibited :: "prohibited_interface list"

record connector_event =
  ev_Name :: string
  ev_Entity :: string
  ev_Interface :: string

record operation =
  op_Name :: string
  op_Entity :: string
  op_Direction :: string
  op_Interface :: string
  op_Risk :: string
  op_Compensation :: string

record limits =
  lim_MaxConcurrentCalls :: int
  lim_RequestsPerSecond :: rat

record connector_auth =
  auth_Methods :: "string list"
  auth_SecretRef :: string

record connector_spec =
  cs_System :: string
  cs_Runtime :: string
  cs_Auth :: connector_auth
  cs_Discovery :: "string list"
  cs_Interfaces :: interfaces
  cs_Entities :: "string list"
  cs_Events :: "connector_event list"
  cs_Operations :: "operation list"
  cs_Limits :: limits
  cs_SAPDigitalAccess :: bool
  cs_SemanticBindings :: "string list"

record connector_manifest =
  cm_Type :: type_meta
  cm_Metadata :: object_meta
  cm_Spec :: connector_spec

definition cm_Operation :: "connector_manifest \<Rightarrow> string \<Rightarrow> operation option" where
  "cm_Operation c name = find (\<lambda>op. op_Name op = name) (cs_Operations (cm_Spec c))"

definition cm_Event :: "connector_manifest \<Rightarrow> string \<Rightarrow> connector_event option" where
  "cm_Event c name = find (\<lambda>ev. ev_Name ev = name) (cs_Events (cm_Spec c))"

definition Permitted :: "connector_manifest \<Rightarrow> string \<Rightarrow> string \<Rightarrow> message + interface" where
  "Permitted c direction kind =
     (let ifs = cs_Interfaces (cm_Spec c)
      in case find (\<lambda>p. pi_Kind p = kind) (ifs_Prohibited ifs) of
           Some p \<Rightarrow> Inl (Msg ''interface %q is prohibited: %s'' [AStr kind, AStr (pi_Reason p)])
         | None \<Rightarrow>
             (case (if direction = DirectionRead then Some (ifs_Read ifs)
                    else if direction = DirectionWrite then Some (ifs_Write ifs)
                    else if direction = DirectionEvents then Some (ifs_Events ifs)
                    else None) of
                None \<Rightarrow> Inl (Msg ''unknown direction %q'' [AStr direction])
              | Some list \<Rightarrow>
                  (case find (\<lambda>i. if_Kind i = kind) list of
                     Some i \<Rightarrow> Inr i
                   | None \<Rightarrow> Inl (Msg ''interface %q is not declared for %s'' [AStr kind, AStr direction]))))"

definition HasEntity :: "connector_manifest \<Rightarrow> string \<Rightarrow> bool" where
  "HasEntity c name = list_ex (\<lambda>e. e = name) (cs_Entities (cm_Spec c))"

definition permitted_errs :: "connector_manifest \<Rightarrow> string \<Rightarrow> string \<Rightarrow> string \<Rightarrow> field_error list" where
  "permitted_errs c direction kind path =
     (case Permitted c direction kind of
        Inl m \<Rightarrow> add_if True path ''%v'' [AErr m]
      | Inr _ \<Rightarrow> [])"

definition validate_prohibited :: "prohibited_interface list \<Rightarrow> field_error list" where
  "validate_prohibited ps =
     each (\<lambda>i p. add_if (pi_Kind p = []) (idx ''spec.interfaces.prohibited'' i @ ''.kind'') ''is required'' []
        @ add_if (pi_Reason p = []) (idx ''spec.interfaces.prohibited'' i @ ''.reason'')
            ''is required so the verifier can explain refusals'' []) ps"

definition checkList :: "prohibited_interface list \<Rightarrow> string \<Rightarrow> interface list \<Rightarrow> field_error list" where
  "checkList ps dir list =
     each (\<lambda>i inf.
       let path = idx (''spec.interfaces.'' @ dir) i
       in add_if (if_Kind inf = []) (path @ ''.kind'') ''is required'' []
          @ add_if (list_ex (\<lambda>p. pi_Kind p = if_Kind inf) ps) (path @ ''.kind'')
              ''interface %q is both permitted and prohibited'' [AStr (if_Kind inf)]
          @ add_if (if_Simulation inf \<noteq> [] \<and> dir \<noteq> DirectionWrite) (path @ ''.simulation'')
              ''only write interfaces can declare a simulation mode'' []) list"

fun validate_events :: "connector_manifest \<Rightarrow> string list \<Rightarrow> nat \<Rightarrow> connector_event list \<Rightarrow> field_error list" where
  "validate_events c seen i [] = []"
| "validate_events c seen i (ev # evs) =
     (let path = idx ''spec.events'' i
      in (if ev_Name ev = [] then add_if True (path @ ''.name'') ''is required'' []
          else add_if (ev_Name ev \<in> set seen) (path @ ''.name'') ''duplicate event %q'' [AStr (ev_Name ev)])
         @ permitted_errs c DirectionEvents (ev_Interface ev) (path @ ''.interface'')
         @ validate_events c (ev_Name ev # seen) (Suc i) evs)"

definition validate_operation :: "connector_manifest \<Rightarrow> string \<Rightarrow> operation \<Rightarrow> field_error list" where
  "validate_operation c path op =
     (if \<not> oneOf (op_Direction op) [DirectionRead, DirectionWrite]
      then add_if True (path @ ''.direction'') ''must be read or write, got %q'' [AStr (op_Direction op)]
      else permitted_errs c (op_Direction op) (op_Interface op) (path @ ''.interface'')
        @ (if \<not> validRisk (op_Risk op)
           then add_if True (path @ ''.risk'') ''must be read, low or high, got %q'' [AStr (op_Risk op)]
           else if op_Direction op = DirectionWrite \<and> op_Risk op = RiskRead
           then add_if True (path @ ''.risk'') ''write operations must be low or high risk'' []
           else add_if (op_Direction op = DirectionRead \<and> op_Risk op \<noteq> RiskRead) (path @ ''.risk'')
             ''read operations must have risk \"read\"'' []))"

fun validate_operations :: "connector_manifest \<Rightarrow> string list \<Rightarrow> nat \<Rightarrow> operation list \<Rightarrow> field_error list" where
  "validate_operations c seen i [] = []"
| "validate_operations c seen i (op # os) =
     (let path = idx ''spec.operations'' i
      in add_if (\<not> nameRE (op_Name op)) (path @ ''.name'') ''must be lowercase alphanumerics and dashes, got %q'' [AStr (op_Name op)]
         @ add_if (op_Name op \<in> set seen) (path @ ''.name'') ''duplicate operation %q'' [AStr (op_Name op)]
         @ validate_operation c path op
         @ validate_operations c (op_Name op # seen) (Suc i) os)"

text \<open>The map \<open>ops\<close> of the code: the last operation with a name.\<close>

definition last_operation :: "operation list \<Rightarrow> string \<Rightarrow> operation option" where
  "last_operation os name = find (\<lambda>op. op_Name op = name) (rev os)"

definition validate_compensations :: "operation list \<Rightarrow> field_error list" where
  "validate_compensations os =
     each (\<lambda>i op.
       if op_Compensation op = [] then []
       else
         let path = idx ''spec.operations'' i @ ''.compensation''
         in if op_Direction op \<noteq> DirectionWrite
            then add_if True path ''only write operations can declare a compensation'' []
            else case last_operation os (op_Compensation op) of
              None \<Rightarrow> add_if True path ''unknown operation %q'' [AStr (op_Compensation op)]
            | Some undo \<Rightarrow> add_if (op_Direction undo \<noteq> DirectionWrite) path
                ''compensation %q must be a write operation'' [AStr (op_Compensation op)]) os"

definition validate_limits :: "limits \<Rightarrow> field_error list" where
  "validate_limits l =
     add_if (lim_MaxConcurrentCalls l \<le> 0) ''spec.limits.maxConcurrentCalls'' ''must be positive'' []
     @ add_if (lim_RequestsPerSecond l \<le> 0) ''spec.limits.requestsPerSecond'' ''must be positive'' []"

definition ConnectorManifest_Validate :: "connector_manifest \<Rightarrow> field_error list" where
  "ConnectorManifest_Validate c =
     (let s = cm_Spec c; ifs = cs_Interfaces s
      in validateTypeMeta (cm_Type c) KindConnectorManifest
         @ validateMeta (cm_Metadata c) True
         @ add_if (cs_System s = []) ''spec.system'' ''is required'' []
         @ add_if (\<not> oneOf (cs_Runtime s) connector_runtimes) ''spec.runtime'' ''unknown runtime %q'' [AStr (cs_Runtime s)]
         @ add_if (auth_Methods (cs_Auth s) = []) ''spec.auth.methods'' ''at least one method is required'' []
         @ add_if (\<not> secretRefRE (auth_SecretRef (cs_Auth s))) ''spec.auth.secretRef''
             ''must be a secret-store reference such as openbao://path, got %q'' [AStr (auth_SecretRef (cs_Auth s))]
         @ validate_prohibited (ifs_Prohibited ifs)
         @ checkList (ifs_Prohibited ifs) DirectionRead (ifs_Read ifs)
         @ checkList (ifs_Prohibited ifs) DirectionWrite (ifs_Write ifs)
         @ checkList (ifs_Prohibited ifs) DirectionEvents (ifs_Events ifs)
         @ validate_events c [] 0 (cs_Events s)
         @ validate_operations c [] 0 (cs_Operations s)
         @ validate_compensations (cs_Operations s)
         @ validate_limits (cs_Limits s))"

section \<open>Connections\<close>

record connection_spec =
  cn_Connector :: string
  cn_SecretRef :: string
  cn_Entities :: "string list"
  cn_Events :: "connector_event list"
  cn_Operations :: "operation list"
  cn_Config :: raw
  cn_Limits :: "limits option"

record connection =
  co_Type :: type_meta
  co_Metadata :: object_meta
  co_Spec :: connection_spec

text \<open>Whether a raw message decodes into a Go map: an object, or null.\<close>

definition decodes_to_map :: "raw \<Rightarrow> bool" where
  "decodes_to_map r = (case r of RawDoc (JObj _) \<Rightarrow> True | RawDoc JNull \<Rightarrow> True | _ \<Rightarrow> False)"

definition Connection_Validate :: "connection \<Rightarrow> field_error list" where
  "Connection_Validate c =
     (let s = co_Spec c
      in validateTypeMeta (co_Type c) KindConnection
         @ validateMeta (co_Metadata c) False
         @ add_if (\<not> nameRE (fst (ParseRef (cn_Connector s)))) ''spec.connector''
             ''must reference a connector by name, got %q'' [AStr (cn_Connector s)]
         @ add_if (cn_SecretRef s \<noteq> [] \<and> \<not> secretRefRE (cn_SecretRef s)) ''spec.secretRef''
             ''must be a secret-store reference such as openbao://path, got %q'' [AStr (cn_SecretRef s)]
         @ add_if (cn_Config s \<noteq> RawEmpty \<and> \<not> decodes_to_map (cn_Config s)) ''spec.config'' ''must be an object'' []
         @ (case cn_Limits s of None \<Rightarrow> [] | Some l \<Rightarrow> validate_limits l))"

definition Effective :: "connection \<Rightarrow> connector_manifest \<Rightarrow> connector_manifest" where
  "Effective c m =
     (let s = cm_Spec m; k = co_Spec c;
          s1 = s\<lparr>cs_Entities := cs_Entities s @ cn_Entities k,
                 cs_Events := cs_Events s @ cn_Events k,
                 cs_Operations := cs_Operations s @ cn_Operations k\<rparr>;
          s2 = (if cn_SecretRef k \<noteq> [] then s1\<lparr>cs_Auth := (cs_Auth s1)\<lparr>auth_SecretRef := cn_SecretRef k\<rparr>\<rparr> else s1);
          s3 = (case cn_Limits k of None \<Rightarrow> s2 | Some l \<Rightarrow> s2\<lparr>cs_Limits := l\<rparr>)
      in m\<lparr>cm_Spec := s3\<rparr>)"

definition ValidateEffective :: "connection \<Rightarrow> connector_manifest \<Rightarrow> field_error list" where
  "ValidateEffective c m =
     map (\<lambda>e. e\<lparr>fe_Path := ''connection '' @ om_Name (co_Metadata c) @ '': '' @ fe_Path e\<rparr>)
       (ConnectorManifest_Validate (Effective c m))
     @ (case cn_Limits (co_Spec c) of
          None \<Rightarrow> []
        | Some l \<Rightarrow>
            let ml = cs_Limits (cm_Spec m)
            in add_if (cs_Operations (cm_Spec m) \<noteq> []
                 \<and> (lim_RequestsPerSecond ml < lim_RequestsPerSecond l \<or> lim_MaxConcurrentCalls ml < lim_MaxConcurrentCalls l))
                 (''connection '' @ om_Name (co_Metadata c) @ '': spec.limits'')
                 ''can only lower %s's limits (%g requests/s, %d concurrent calls)''
                 [AStr (om_Name (cm_Metadata m)), AFloat (lim_RequestsPerSecond ml), AInt (lim_MaxConcurrentCalls ml)])"

end
