(* ===== verification/Api_Objects.thy ===== *)
theory Api_Objects
  imports Api
begin

text \<open>
  The other declarative objects of \<open>apis/v1alpha1\<close>: recipes with their steps, mappings, slot
  contracts, plugins, blueprints and policy packs, and the sum of all kinds.
\<close>

section \<open>Recipes\<close>

record map_step =
  mst_From :: string
  mst_To :: string
  mst_Mapping :: string

record match_field =
  mf_Field :: string
  mf_Kind :: string

record resolve_step =
  rst_Entity :: string
  rst_Strategy :: string
  rst_AutoMatchAbove :: rat
  rst_Match :: "match_field list"
  rst_Ref :: string
  rst_Into :: string

record step_amount_check =
  sac_Preview :: string
  sac_Tolerance :: rat

record write_step =
  wst_Target :: string
  wst_Operation :: string
  wst_IdempotencyKey :: string
  wst_Simulate :: bool
  wst_Approval :: string
  wst_Compensation :: string
  wst_Output :: string
  wst_Amount :: string
  wst_CheckAmount :: "step_amount_check option"

record step =
  st_Map :: "map_step option"
  st_Resolve :: "resolve_step option"
  st_Write :: "write_step option"

definition step_Kind :: "step \<Rightarrow> string" where
  "step_Kind s =
     (let n0 = (0::nat, []);
          n1 = (if st_Map s \<noteq> None then (fst n0 + 1, ''map'') else n0);
          n2 = (if st_Resolve s \<noteq> None then (fst n1 + 1, ''resolve'') else n1);
          n3 = (if st_Write s \<noteq> None then (fst n2 + 1, ''write'') else n2)
      in if fst n3 \<noteq> 1 then [] else snd n3)"

definition StrategyExact :: string where "StrategyExact = ''exact''"
definition StrategyProbabilistic :: string where "StrategyProbabilistic = ''probabilistic''"
definition StrategySplink :: string where "StrategySplink = ''splink''"
definition MatchEmail :: string where "MatchEmail = ''email''"
definition MatchDomain :: string where "MatchDomain = ''domain''"
definition MatchName :: string where "MatchName = ''name''"
definition MatchExact :: string where "MatchExact = ''exact''"
definition ApprovalPolicy :: string where "ApprovalPolicy = ''policy''"
definition ApprovalRequired :: string where "ApprovalRequired = ''required''"
definition ApprovalNone :: string where "ApprovalNone = ''none''"

lemmas recipe_consts = StrategyExact_def StrategyProbabilistic_def StrategySplink_def MatchEmail_def MatchDomain_def
  MatchName_def MatchExact_def ApprovalPolicy_def ApprovalRequired_def ApprovalNone_def

record recipe_spec =
  rs_TriggerSource :: string
  rs_TriggerEvent :: string
  rs_Connectors :: "(string \<times> string) list"
  rs_Steps :: "step list"
  rs_Policies :: "string list"
  rs_Capacity :: "rat option"
  rs_SLO :: "string option"
  rs_Extensions :: "string list"

record recipe =
  rc_Type :: type_meta
  rc_Metadata :: object_meta
  rc_Spec :: recipe_spec

definition endpoint_add :: "string list \<Rightarrow> string \<Rightarrow> string list" where
  "endpoint_add out n = (if n \<noteq> [] \<and> n \<notin> set out then out @ [n] else out)"

definition Endpoints :: "recipe \<Rightarrow> string list" where
  "Endpoints r =
     foldl (\<lambda>out s. case st_Write s of None \<Rightarrow> out | Some w \<Rightarrow> endpoint_add out (wst_Target w))
       (endpoint_add [] (rs_TriggerSource (rc_Spec r))) (rs_Steps (rc_Spec r))"

definition validate_map :: "string \<Rightarrow> map_step \<Rightarrow> field_error list" where
  "validate_map path m =
     add_if (mst_From m = [] \<or> mst_To m = []) (path @ ''.map'') ''from and to are required'' []
     @ add_if (mst_Mapping m = []) (path @ ''.map.mapping'') ''is required'' []"

definition validate_resolve :: "string \<Rightarrow> resolve_step \<Rightarrow> field_error list" where
  "validate_resolve path r =
     add_if (rst_Entity r = []) (path @ ''.resolve.entity'') ''is required'' []
     @ add_if (rst_AutoMatchAbove r \<le> 0 \<or> 1 < rst_AutoMatchAbove r) (path @ ''.resolve.autoMatchAbove'')
         ''must be in (0, 1], got %v'' [AFloat (rst_AutoMatchAbove r)]
     @ each (\<lambda>j m.
         add_if (\<not> fieldRE (mf_Field m)) (idx (path @ ''.resolve.match'') j @ ''.field'')
           ''must be a document field name, got %q'' [AStr (mf_Field m)]
         @ add_if (mf_Kind m \<noteq> MatchEmail \<and> mf_Kind m \<noteq> MatchDomain \<and> mf_Kind m \<noteq> MatchName \<and> mf_Kind m \<noteq> MatchExact)
             (idx (path @ ''.resolve.match'') j @ ''.kind'') ''must be email, domain, name or exact, got %q'' [AStr (mf_Kind m)])
         (rst_Match r)
     @ add_if (rst_Strategy r = StrategyProbabilistic \<and> rst_Match r = []) (path @ ''.resolve.match'')
         ''the probabilistic strategy needs the fields to match on'' []"

definition validate_write :: "string \<Rightarrow> write_step \<Rightarrow> field_error list" where
  "validate_write path w =
     add_if (wst_Target w = []) (path @ ''.write.target'') ''is required'' []
     @ add_if (wst_Operation w = []) (path @ ''.write.operation'') ''is required'' []
     @ add_if (TrimSpace (wst_IdempotencyKey w) = []) (path @ ''.write.idempotencyKey'')
         ''is required so retries never create duplicates'' []
     @ add_if (wst_Output w \<noteq> [] \<and> \<not> fieldRE (wst_Output w)) (path @ ''.write.output'')
         ''must be a field name, got %q'' [AStr (wst_Output w)]
     @ add_if (wst_Approval w \<noteq> [] \<and> \<not> oneOf (wst_Approval w) [ApprovalPolicy, ApprovalRequired, ApprovalNone])
         (path @ ''.write.approval'') ''must be policy, required or none, got %q'' [AStr (wst_Approval w)]"

definition validate_step :: "nat \<Rightarrow> step \<Rightarrow> field_error list" where
  "validate_step i s =
     (let path = idx ''spec.steps'' i
      in if step_Kind s = ''map'' then validate_map path (the (st_Map s))
         else if step_Kind s = ''resolve'' then validate_resolve path (the (st_Resolve s))
         else if step_Kind s = ''write'' then validate_write path (the (st_Write s))
         else add_if True path ''exactly one of map, resolve or write must be set'' [])"

definition Recipe_Validate :: "recipe \<Rightarrow> field_error list" where
  "Recipe_Validate r =
     (let s = rc_Spec r
      in validateTypeMeta (rc_Type r) KindRecipe
         @ validateMeta (rc_Metadata r) False
         @ add_if (rs_TriggerSource s = []) ''spec.trigger.source'' ''is required'' []
         @ add_if (rs_TriggerEvent s = []) ''spec.trigger.event'' ''is required'' []
         @ add_if (rs_Steps s = []) ''spec.steps'' ''at least one step is required'' []
         @ each (\<lambda>i x. add_if (\<not> nameRE (fst (ParseRef x))) (idx ''spec.extensions'' i)
             ''must be a plugin reference such as credit-check@1.2, got %q'' [AStr x]) (rs_Extensions s)
         @ each validate_step (rs_Steps s)
         @ (case rs_SLO s of
              None \<Rightarrow> []
            | Some p95 \<Rightarrow>
                add_if (p95 \<noteq> [] \<and> (case ParseDuration p95 of None \<Rightarrow> True | Some d \<Rightarrow> d \<le> 0)) ''spec.slo.p95Latency''
                  ''must be a positive duration such as 2s or 500ms, got %q'' [AStr p95])
         @ (case rs_Capacity s of
              None \<Rightarrow> []
            | Some peak \<Rightarrow> add_if (peak \<le> 0) ''spec.capacity.peakPerSecond'' ''must be positive'' []))"

section \<open>Mappings\<close>

definition OriginCertified :: string where "OriginCertified = ''certified''"
definition OriginAI :: string where "OriginAI = ''ai''"
definition OriginHuman :: string where "OriginHuman = ''human''"

record field_mapping =
  fm_Target :: string
  fm_Expression :: string
  fm_Origin :: string
  fm_Confidence :: rat
  fm_Approved :: bool
  fm_Rationale :: string

record mapping_spec =
  ma_From :: string
  ma_To :: string
  ma_Fields :: "field_mapping list"

record mapping_obj =
  mo_Type :: type_meta
  mo_Metadata :: object_meta
  mo_Spec :: mapping_spec

fun validate_fields :: "string list \<Rightarrow> nat \<Rightarrow> field_mapping list \<Rightarrow> field_error list" where
  "validate_fields seen i [] = []"
| "validate_fields seen i (f # fs) =
     (let path = idx ''spec.fields'' i
      in (if fm_Target f = [] then add_if True (path @ ''.target'') ''is required'' []
          else add_if (fm_Target f \<in> set seen) (path @ ''.target'') ''duplicate target %q'' [AStr (fm_Target f)])
         @ add_if (fm_Expression f = []) (path @ ''.expression'') ''is required'' []
         @ add_if (\<not> oneOf (fm_Origin f) [OriginCertified, OriginAI, OriginHuman]) (path @ ''.origin'')
             ''must be certified, ai or human, got %q'' [AStr (fm_Origin f)]
         @ add_if (fm_Confidence f < 0 \<or> 1 < fm_Confidence f) (path @ ''.confidence'')
             ''must be in [0, 1], got %v'' [AFloat (fm_Confidence f)]
         @ validate_fields (fm_Target f # seen) (Suc i) fs)"

definition Mapping_Validate :: "mapping_obj \<Rightarrow> field_error list" where
  "Mapping_Validate m =
     validateTypeMeta (mo_Type m) KindMapping
     @ validateMeta (mo_Metadata m) True
     @ add_if (ma_From (mo_Spec m) = []) ''spec.from'' ''is required'' []
     @ add_if (ma_To (mo_Spec m) = []) ''spec.to'' ''is required'' []
     @ add_if (ma_Fields (mo_Spec m) = []) ''spec.fields'' ''at least one field is required'' []
     @ validate_fields [] 0 (ma_Fields (mo_Spec m))"

section \<open>Slot contracts\<close>

record contract_action =
  ca_Name :: string
  ca_Entity :: string
  ca_Risk :: string

record slot_contract =
  sl_Type :: type_meta
  sl_Metadata :: object_meta
  sl_Model :: string
  sl_Entities :: "string list"
  sl_Events :: "string list"
  sl_Actions :: "contract_action list"

definition SlotContract_Validate :: "slot_contract \<Rightarrow> field_error list" where
  "SlotContract_Validate c =
     validateTypeMeta (sl_Type c) KindSlotContract
     @ validateMeta (sl_Metadata c) True
     @ add_if (sl_Entities c = []) ''spec.entities'' ''at least one entity is required'' []
     @ each (\<lambda>i a.
         add_if (\<not> nameRE (ca_Name a)) (idx ''spec.actions'' i @ ''.name'')
           ''must be lowercase alphanumerics and dashes, got %q'' [AStr (ca_Name a)]
         @ add_if (\<not> validRisk (ca_Risk a)) (idx ''spec.actions'' i @ ''.risk'')
             ''must be read, low or high, got %q'' [AStr (ca_Risk a)]) (sl_Actions c)"

section \<open>Plugins\<close>

definition PluginConnector :: string where "PluginConnector = ''connector''"
definition PluginLogic :: string where "PluginLogic = ''logic''"
definition PluginRecipePack :: string where "PluginRecipePack = ''recipe-pack''"
definition PluginModelExtension :: string where "PluginModelExtension = ''model-extension''"
definition PluginPolicyPack :: string where "PluginPolicyPack = ''policy-pack''"
definition PluginUIPanel :: string where "PluginUIPanel = ''ui-panel''"
definition PluginAgent :: string where "PluginAgent = ''agent''"
definition PluginApp :: string where "PluginApp = ''app''"

definition PluginRuntimeWasm :: string where "PluginRuntimeWasm = ''wasm''"
definition PluginRuntimeContainer :: string where "PluginRuntimeContainer = ''container''"
definition PluginRuntimeExternal :: string where "PluginRuntimeExternal = ''external''"
definition PluginRuntimeDeclarative :: string where "PluginRuntimeDeclarative = ''declarative''"
definition PluginRuntimeIframe :: string where "PluginRuntimeIframe = ''iframe''"

lemmas plugin_consts = PluginConnector_def PluginLogic_def PluginRecipePack_def PluginModelExtension_def
  PluginPolicyPack_def PluginUIPanel_def PluginAgent_def PluginApp_def PluginRuntimeWasm_def
  PluginRuntimeContainer_def PluginRuntimeExternal_def PluginRuntimeDeclarative_def PluginRuntimeIframe_def

record entity_permissions =
  ep_Read :: "string list"
  ep_Propose :: "string list"

record plugin_permissions =
  pp_Entities :: "entity_permissions option"
  pp_NetworkAllow :: "string list option"
  pp_EventsPublish :: "string list option"
  pp_Secrets :: "string list"

record plugin_limits =
  pl_MemoryMB :: int
  pl_TimeoutMs :: int

record plugin_spec =
  ps_Type :: string
  ps_Runtime :: string
  ps_World :: string
  ps_Module :: string
  ps_Implements :: "string list"
  ps_Connector :: string
  ps_Subscribes :: "string list"
  ps_Permissions :: plugin_permissions
  ps_Limits :: "plugin_limits option"
  ps_UIPanel :: "string option"

record plugin =
  pg_Type :: type_meta
  pg_Metadata :: object_meta
  pg_Spec :: plugin_spec

definition allowedRuntimes :: "(string \<times> string list) list" where
  "allowedRuntimes =
     [(PluginConnector, [PluginRuntimeContainer, PluginRuntimeWasm]),
      (PluginLogic, [PluginRuntimeWasm]),
      (PluginRecipePack, [PluginRuntimeDeclarative]),
      (PluginModelExtension, [PluginRuntimeDeclarative]),
      (PluginPolicyPack, [PluginRuntimeDeclarative]),
      (PluginUIPanel, [PluginRuntimeIframe]),
      (PluginAgent, [PluginRuntimeWasm, PluginRuntimeContainer, PluginRuntimeExternal]),
      (PluginApp, [PluginRuntimeContainer])]"

definition validate_runtime :: "plugin_spec \<Rightarrow> field_error list" where
  "validate_runtime s =
     (case map_of allowedRuntimes (ps_Type s) of
        None \<Rightarrow> add_if True ''spec.type'' ''unknown plugin type %q'' [AStr (ps_Type s)]
      | Some runtimes \<Rightarrow>
          add_if (\<not> oneOf (ps_Runtime s) runtimes) ''spec.runtime'' ''a %s plugin must run in one of %v, got %q''
            [AStr (ps_Type s), AList runtimes, AStr (ps_Runtime s)])"

definition validate_module :: "plugin_spec \<Rightarrow> field_error list" where
  "validate_module s =
     (if ps_Type s \<noteq> PluginLogic then []
      else if ps_Module s = [] then
        add_if True ''spec.module'' ''is required for logic plugins: the .wasm file, relative to this manifest'' []
      else add_if (\<not> HasSuffix (ps_Module s) ''.wasm'' \<or> HasPrefix (ps_Module s) ''/''
                   \<or> ''..'' \<in> set (Split (CHR ''/'') (ps_Module s))) ''spec.module''
             ''must be a .wasm file next to or below this manifest, got %q'' [AStr (ps_Module s)])"

definition validate_permissions :: "plugin_permissions \<Rightarrow> field_error list" where
  "validate_permissions p =
     (case pp_NetworkAllow p of
        None \<Rightarrow> []
      | Some hosts \<Rightarrow>
          each (\<lambda>i h. add_if (CHR ''*'' \<in> set h \<or> \<not> hostRE h) (idx ''spec.permissions.network.allow'' i)
            ''must be an explicit host name without wildcards, got %q'' [AStr h]) hosts)
     @ (case pp_EventsPublish p of
          None \<Rightarrow> []
        | Some topics \<Rightarrow>
            each (\<lambda>i t. add_if (\<not> topicRE t) (idx ''spec.permissions.events.publish'' i)
              ''must be a topic such as credit.checked (lowercase, digits, '.', '-'), got %q'' [AStr t]) topics)
     @ each (\<lambda>i sec. add_if (\<not> nameRE sec) (idx ''spec.permissions.secrets'' i)
         ''must be a secret handle (lowercase name), never a value'' []) (pp_Secrets p)"

definition Plugin_Validate :: "plugin \<Rightarrow> field_error list" where
  "Plugin_Validate p =
     (let s = pg_Spec p
      in validateTypeMeta (pg_Type p) KindPlugin
         @ validateMeta (pg_Metadata p) True
         @ add_if (om_Publisher (pg_Metadata p) = []) ''metadata.publisher'' ''is required'' []
         @ validate_runtime s
         @ add_if (ps_Runtime s = PluginRuntimeWasm \<and> ps_World s = []) ''spec.world'' ''is required for wasm plugins'' []
         @ validate_module s
         @ add_if ((ps_Runtime s = PluginRuntimeWasm \<or> ps_Runtime s = PluginRuntimeContainer)
              \<and> (case ps_Limits s of None \<Rightarrow> True | Some l \<Rightarrow> pl_MemoryMB l \<le> 0 \<or> pl_TimeoutMs l \<le> 0))
              ''spec.limits'' ''memoryMB and timeoutMs must be set for sandboxed plugins'' []
         @ (if ps_Type s = PluginConnector then
              add_if (ps_Implements s = []) ''spec.implements'' ''a connector plugin must implement at least one slot contract'' []
              @ add_if (ps_Connector s = []) ''spec.connector'' ''a connector plugin must name its connector manifest'' []
            else [])
         @ validate_permissions (ps_Permissions s)
         @ (case ps_UIPanel s of
              None \<Rightarrow> []
            | Some panel \<Rightarrow> add_if (\<not> HasPrefix panel ''ui://'') ''spec.ui.panel'' ''must be a ui:// resource URI, got %q'' [AStr panel]))"

section \<open>Blueprints and policy packs\<close>

record slot_binding =
  sb_Plugin :: string
  sb_Version :: string
  sb_Connection :: string

record blueprint_spec =
  bs_Model :: string
  bs_Slots :: "(string \<times> slot_binding) list"
  bs_Extensions :: "string list"
  bs_Recipes :: "string list"
  bs_Policies :: "string list"

record stack_blueprint =
  bp_Type :: type_meta
  bp_Metadata :: object_meta
  bp_Spec :: blueprint_spec

definition StackBlueprint_Validate :: "stack_blueprint \<Rightarrow> field_error list" where
  "StackBlueprint_Validate b =
     validateTypeMeta (bp_Type b) KindStackBlueprint
     @ validateMeta (bp_Metadata b) False
     @ add_if (bs_Slots (bp_Spec b) = []) ''spec.slots'' ''at least one slot is required'' []
     @ concat (map (\<lambda>(name, s).
         add_if (\<not> nameRE name) (''spec.slots.'' @ name) ''slot names must be lowercase alphanumerics and dashes'' []
         @ add_if (sb_Plugin s = []) (''spec.slots.'' @ name @ ''.plugin'') ''is required'' []) (bs_Slots (bp_Spec b)))"

record policy_pack =
  pk_Type :: type_meta
  pk_Metadata :: object_meta
  pk_Rego :: string

definition PolicyPack_Validate :: "policy_pack \<Rightarrow> field_error list" where
  "PolicyPack_Validate p =
     validateTypeMeta (pk_Type p) KindPolicyPack
     @ validateMeta (pk_Metadata p) False
     @ add_if (\<not> regoPackageRE (pk_Rego p)) ''spec.rego'' ''must be a Rego module with a package declaration'' []"

section \<open>Objects\<close>

datatype object =
    OConnector connector_manifest
  | OConnection connection
  | OContract slot_contract
  | OPolicy policy_pack
  | OMapping mapping_obj
  | OPlugin plugin
  | ORecipe recipe
  | OBlueprint stack_blueprint

fun GetTypeMeta :: "object \<Rightarrow> type_meta" where
  "GetTypeMeta (OConnector c) = cm_Type c"
| "GetTypeMeta (OConnection c) = co_Type c"
| "GetTypeMeta (OContract c) = sl_Type c"
| "GetTypeMeta (OPolicy p) = pk_Type p"
| "GetTypeMeta (OMapping m) = mo_Type m"
| "GetTypeMeta (OPlugin p) = pg_Type p"
| "GetTypeMeta (ORecipe r) = rc_Type r"
| "GetTypeMeta (OBlueprint b) = bp_Type b"

fun GetMeta :: "object \<Rightarrow> object_meta" where
  "GetMeta (OConnector c) = cm_Metadata c"
| "GetMeta (OConnection c) = co_Metadata c"
| "GetMeta (OContract c) = sl_Metadata c"
| "GetMeta (OPolicy p) = pk_Metadata p"
| "GetMeta (OMapping m) = mo_Metadata m"
| "GetMeta (OPlugin p) = pg_Metadata p"
| "GetMeta (ORecipe r) = rc_Metadata r"
| "GetMeta (OBlueprint b) = bp_Metadata b"

fun object_Validate :: "object \<Rightarrow> field_error list" where
  "object_Validate (OConnector c) = ConnectorManifest_Validate c"
| "object_Validate (OConnection c) = Connection_Validate c"
| "object_Validate (OContract c) = SlotContract_Validate c"
| "object_Validate (OPolicy p) = PolicyPack_Validate p"
| "object_Validate (OMapping m) = Mapping_Validate m"
| "object_Validate (OPlugin p) = Plugin_Validate p"
| "object_Validate (ORecipe r) = Recipe_Validate r"
| "object_Validate (OBlueprint b) = StackBlueprint_Validate b"

end
