(* ===== verification/Api_Props.thy ===== *)
theory Api_Props
  imports Api_Objects
begin

text \<open>
  What the schema checks guarantee: a manifest without violations uses only interfaces it declares
  and does not prohibit, and its compensations are write operations of its own; a connection
  cannot widen its connector; names are safe in keys; a recipe's endpoints are what it touches.
\<close>

section \<open>Reading violations\<close>

lemma add_if_Nil [simp]: "add_if b p f as = [] \<longleftrightarrow> \<not> b"
  by (simp add: add_if_def)

lemma each_Nil: "each f xs = [] \<longleftrightarrow> (\<forall>i < length xs. f i (xs ! i) = [])"
proof -
  have "each f xs = [] \<longleftrightarrow> (\<forall>(i, x) \<in> set (enumerate 0 xs). f i x = [])"
    by (auto simp: each_def)
  also have "\<dots> \<longleftrightarrow> (\<forall>i < length xs. f i (xs ! i) = [])"
    by (fastforce simp: in_set_enumerate_eq)
  finally show ?thesis .
qed

lemma oneOf_set [simp]: "oneOf v xs \<longleftrightarrow> v \<in> set xs"
  by (auto simp: oneOf_def list_ex_iff)

lemma permitted_errs_Nil: "permitted_errs c d k p = [] \<longleftrightarrow> (\<exists>i. Permitted c d k = Inr i)"
  by (auto simp: permitted_errs_def split: sum.splits)

lemma Permitted_Inr:
  "Permitted c d k = Inr i \<Longrightarrow> if_Kind i = k \<and> k \<notin> pi_Kind ` set (ifs_Prohibited (cs_Interfaces (cm_Spec c)))"
  by (auto simp: Permitted_def Let_def find_None_iff split: option.splits if_splits dest!: find_SomeD)

section \<open>Names\<close>

lemma nameRE_chars: "nameRE s \<Longrightarrow> c \<in> set s \<Longrightarrow> is_lower c \<or> is_digit c \<or> c = CHR ''-''"
  by (auto simp: nameRE_def list_all_iff is_name_char_def)

lemma nameRE_no_sep: "nameRE s \<Longrightarrow> c \<in> {CHR ''/'', CHR ''.'', CHR ''@'', CHR ''~'', CHR ''#''} \<Longrightarrow> c \<notin> set s"
  using nameRE_chars [of s c] by (auto simp: is_lower_def is_digit_def)

lemma nameRE_not_Nil: "nameRE s \<Longrightarrow> s \<noteq> []"
  by (simp add: nameRE_def)

lemma ParseRef_at: "CHR ''@'' \<notin> set con \<Longrightarrow> ParseRef (name @ ''@'' @ con) = (name, con)"
  using CutLast_present [of "CHR ''@''" con name] by (simp add: ParseRef_def)

lemma ParseRef_plain: "CHR ''@'' \<notin> set name \<Longrightarrow> ParseRef name = (name, [])"
  by (simp add: ParseRef_def CutLast_absent)

section \<open>Manifests\<close>

definition operation_ok :: "connector_manifest \<Rightarrow> operation \<Rightarrow> bool" where
  "operation_ok c op \<longleftrightarrow>
     nameRE (op_Name op)
     \<and> op_Direction op \<in> {DirectionRead, DirectionWrite}
     \<and> (\<exists>i. Permitted c (op_Direction op) (op_Interface op) = Inr i)
     \<and> (if op_Direction op = DirectionWrite then op_Risk op \<in> {RiskLow, RiskHigh} else op_Risk op = RiskRead)"

lemma validate_operation_Nil:
  "validate_operation c p op = [] \<longleftrightarrow>
     op_Direction op \<in> {DirectionRead, DirectionWrite}
     \<and> (\<exists>i. Permitted c (op_Direction op) (op_Interface op) = Inr i)
     \<and> (if op_Direction op = DirectionWrite then op_Risk op \<in> {RiskLow, RiskHigh} else op_Risk op = RiskRead)"
  by (auto simp: validate_operation_def permitted_errs_Nil validRisk_def policy_consts direction_defs)

lemma validate_operations_Nil:
  "validate_operations c seen i os = [] \<longleftrightarrow>
     list_all (operation_ok c) os \<and> distinct (map op_Name os) \<and> set (map op_Name os) \<inter> set seen = {}"
  by (induction c seen i os rule: validate_operations.induct)
    (auto simp: Let_def validate_operation_Nil operation_ok_def)

lemma last_operation_find:
  assumes "distinct (map op_Name os)"
  shows "last_operation os n = find (\<lambda>op. op_Name op = n) os"
proof -
  have uniq: "x = y" if "x \<in> set os" "y \<in> set os" "op_Name x = op_Name y" for x y
    using assms that by (meson distinct_map inj_onD)
  have "find (\<lambda>op. op_Name op = n) (rev os) = find (\<lambda>op. op_Name op = n) os"
  proof (cases "find (\<lambda>op. op_Name op = n) os")
    case None
    then have "find (\<lambda>op. op_Name op = n) (rev os) = None" by (simp add: find_None_all)
    with None show ?thesis by simp
  next
    case (Some x)
    then have x: "x \<in> set os" "op_Name x = n" by (auto dest: find_SomeD)
    then have "find (\<lambda>op. op_Name op = n) (rev os) \<noteq> None" by (auto simp: find_None_iff)
    then obtain y where y: "find (\<lambda>op. op_Name op = n) (rev os) = Some y" by auto
    then have "y \<in> set (rev os)" "op_Name y = n" by (auto dest: find_SomeD)
    with x uniq have "y = x" by auto
    with y Some show ?thesis by simp
  qed
  then show ?thesis by (simp add: last_operation_def)
qed

definition compensation_ok :: "connector_manifest \<Rightarrow> operation \<Rightarrow> bool" where
  "compensation_ok c op \<longleftrightarrow>
     op_Compensation op = []
     \<or> op_Direction op = DirectionWrite
       \<and> (\<exists>undo. cm_Operation c (op_Compensation op) = Some undo \<and> op_Direction undo = DirectionWrite)"

lemma validate_compensations_ok:
  assumes "validate_compensations (cs_Operations (cm_Spec c)) = []" "distinct (map op_Name (cs_Operations (cm_Spec c)))"
  shows "list_all (compensation_ok c) (cs_Operations (cm_Spec c))"
proof (unfold list_all_length, intro allI impI)
  fix i
  assume "i < length (cs_Operations (cm_Spec c))"
  with assms(1) show "compensation_ok c (cs_Operations (cm_Spec c) ! i)"
    unfolding validate_compensations_def each_Nil compensation_ok_def cm_Operation_def
      last_operation_find [OF assms(2)]
    by (auto simp: Let_def split: if_splits option.splits)
qed

lemma validate_events_Nil:
  "validate_events c seen i evs = [] \<Longrightarrow>
     list_all (\<lambda>ev. ev_Name ev \<noteq> [] \<and> (\<exists>i. Permitted c DirectionEvents (ev_Interface ev) = Inr i)) evs
     \<and> distinct (map ev_Name evs)  \<and> set (map ev_Name evs) \<inter> set seen = {}"
  by (induction c seen i evs rule: validate_events.induct)
    (auto simp: Let_def permitted_errs_Nil split: if_splits)

text \<open>What a manifest must satisfy.\<close>

definition manifest_ok :: "connector_manifest \<Rightarrow> bool" where
  "manifest_ok c \<longleftrightarrow>
     (let s = cm_Spec c
      in nameRE (om_Name (cm_Metadata c))
         \<and> list_all (\<lambda>op. operation_ok c op \<and> compensation_ok c op
              \<and> op_Interface op \<notin> pi_Kind ` set (ifs_Prohibited (cs_Interfaces s))) (cs_Operations s)
         \<and> distinct (map op_Name (cs_Operations s))
         \<and> list_all (\<lambda>ev. (\<exists>i. Permitted c DirectionEvents (ev_Interface ev) = Inr i)
              \<and> ev_Interface ev \<notin> pi_Kind ` set (ifs_Prohibited (cs_Interfaces s))) (cs_Events s)
         \<and> distinct (map ev_Name (cs_Events s))
         \<and> 0 < lim_MaxConcurrentCalls (cs_Limits s) \<and> 0 < lim_RequestsPerSecond (cs_Limits s)
         \<and> secretRefRE (auth_SecretRef (cs_Auth s)))"

lemma ConnectorManifest_Validate_ok:
  assumes "ConnectorManifest_Validate c = []"
  shows "manifest_ok c"
proof -
  let ?s = "cm_Spec c"
  from assms have v: "validateMeta (cm_Metadata c) True = []" "secretRefRE (auth_SecretRef (cs_Auth ?s))"
    "validate_events c [] 0 (cs_Events ?s) = []" "validate_operations c [] 0 (cs_Operations ?s) = []"
    "validate_compensations (cs_Operations ?s) = []" "validate_limits (cs_Limits ?s) = []"
    by (auto simp: ConnectorManifest_Validate_def Let_def)
  have ops: "list_all (operation_ok c) (cs_Operations ?s)" "distinct (map op_Name (cs_Operations ?s))"
    using v(4) unfolding validate_operations_Nil by auto
  have "list_all (compensation_ok c) (cs_Operations ?s)" by (rule validate_compensations_ok [OF v(5) ops(2)])
  moreover have "nameRE (om_Name (cm_Metadata c))" using v(1) by (simp add: validateMeta_def)
  moreover have "0 < lim_MaxConcurrentCalls (cs_Limits ?s)" "0 < lim_RequestsPerSecond (cs_Limits ?s)"
    using v(6) by (auto simp: validate_limits_def)
  ultimately show ?thesis
    using ops v(2) validate_events_Nil [OF v(3)] Permitted_Inr
    unfolding manifest_ok_def Let_def list_all_iff operation_ok_def by blast
qed

text \<open>C37: a connector manifest that passes the schema check is safe to run: every operation and event uses
  an interface declared for its direction and never a prohibited one, every write carries a write
  risk, names are unique, every declared compensation is a write operation of the same manifest,
  the limits are positive and the secret is a reference.\<close>

theorem valid_manifest_is_safe:
  assumes "ConnectorManifest_Validate c = []"
  shows "manifest_ok c"
  by (rule ConnectorManifest_Validate_ok [OF assms])

definition demo_manifest :: connector_manifest where
  "demo_manifest =
     \<lparr>cm_Type = \<lparr>tm_APIVersion = APIVersion, tm_Kind = KindConnectorManifest\<rparr>,
      cm_Metadata = \<lparr>om_Name = ''erp'', om_Version = ''1.0.0'', om_Publisher = [], om_Certification = [],
        om_Description = [], om_Labels = []\<rparr>,
      cm_Spec = \<lparr>cs_System = ''ERP'', cs_Runtime = ''native'',
        cs_Auth = \<lparr>auth_Methods = [''basic''], auth_SecretRef = ''vault://erp''\<rparr>, cs_Discovery = [],
        cs_Interfaces = \<lparr>ifs_Read = [], ifs_Write = [\<lparr>if_Kind = ''bapi'', if_Simulation = ''testrun''\<rparr>], ifs_Events = [],
          ifs_Prohibited = [\<lparr>pi_Kind = ''sql'', pi_Reason = ''corrupts''\<rparr>]\<rparr>,
        cs_Entities = [''order''], cs_Events = [],
        cs_Operations =
          [\<lparr>op_Name = ''create'', op_Entity = ''order'', op_Direction = DirectionWrite, op_Interface = ''bapi'',
            op_Risk = RiskHigh, op_Compensation = ''cancel''\<rparr>,
           \<lparr>op_Name = ''cancel'', op_Entity = ''order'', op_Direction = DirectionWrite, op_Interface = ''bapi'',
            op_Risk = RiskLow, op_Compensation = []\<rparr>],
        cs_Limits = \<lparr>lim_MaxConcurrentCalls = 2, lim_RequestsPerSecond = 5\<rparr>, cs_SAPDigitalAccess = True,
        cs_SemanticBindings = []\<rparr>\<rparr>"

lemma demo_manifest_valid: "ConnectorManifest_Validate demo_manifest = []"
  by code_simp

theorem valid_manifest_is_safe_witness: "manifest_ok demo_manifest"
  by (rule valid_manifest_is_safe [OF demo_manifest_valid])

section \<open>Connections\<close>

lemma Effective_frame:
  "cs_Interfaces (cm_Spec (Effective c m)) = cs_Interfaces (cm_Spec m)"
  "cs_Operations (cm_Spec (Effective c m)) = cs_Operations (cm_Spec m) @ cn_Operations (co_Spec c)"
  "cs_Events (cm_Spec (Effective c m)) = cs_Events (cm_Spec m) @ cn_Events (co_Spec c)"
  "cs_Limits (cm_Spec (Effective c m)) = (case cn_Limits (co_Spec c) of None \<Rightarrow> cs_Limits (cm_Spec m) | Some l \<Rightarrow> l)"
  by (simp_all add: Effective_def Let_def split: option.splits)

lemma Permitted_Effective: "Permitted (Effective c m) = Permitted m"
  by (simp add: fun_eq_iff Permitted_def Effective_frame)

text \<open>A connection can narrow what its connector does and never widen how it does it: when the merged
  manifest passes, every operation and event, also those the connection adds, uses an interface the
  connector's own manifest permits for its direction; and where the connector declares operations of
  its own, the effective rate and concurrency limits are at most the connector's.\<close>

theorem connection_cannot_widen:
  assumes "ValidateEffective c m = []"
  shows "(\<forall>op. op \<in> set (cs_Operations (cm_Spec (Effective c m))) \<longrightarrow> (\<exists>i. Permitted m (op_Direction op) (op_Interface op) = Inr i))
    \<and> (\<forall>ev. ev \<in> set (cs_Events (cm_Spec (Effective c m))) \<longrightarrow> (\<exists>i. Permitted m DirectionEvents (ev_Interface ev) = Inr i))
    \<and> (cs_Operations (cm_Spec m) \<noteq> [] \<longrightarrow>
         lim_RequestsPerSecond (cs_Limits (cm_Spec (Effective c m))) \<le> lim_RequestsPerSecond (cs_Limits (cm_Spec m))
         \<and> lim_MaxConcurrentCalls (cs_Limits (cm_Spec (Effective c m))) \<le> lim_MaxConcurrentCalls (cs_Limits (cm_Spec m)))"
proof -
  have "manifest_ok (Effective c m)"
    using assms by (intro ConnectorManifest_Validate_ok) (auto simp: ValidateEffective_def)
  then show ?thesis
    using assms
    by (auto simp: manifest_ok_def Let_def list_all_iff operation_ok_def Permitted_Effective Effective_frame
        ValidateEffective_def split: option.splits)
qed

definition demo_connection :: connection where
  "demo_connection =
     \<lparr>co_Type = \<lparr>tm_APIVersion = APIVersion, tm_Kind = KindConnection\<rparr>,
      co_Metadata = \<lparr>om_Name = ''erp-eu'', om_Version = [], om_Publisher = [], om_Certification = [],
        om_Description = [], om_Labels = []\<rparr>,
      co_Spec = \<lparr>cn_Connector = ''erp@^1'', cn_SecretRef = [], cn_Entities = [], cn_Events = [],
        cn_Operations = [\<lparr>op_Name = ''update'', op_Entity = ''order'', op_Direction = DirectionWrite,
          op_Interface = ''bapi'', op_Risk = RiskLow, op_Compensation = []\<rparr>],
        cn_Config = RawEmpty, cn_Limits = Some \<lparr>lim_MaxConcurrentCalls = 1, lim_RequestsPerSecond = 2\<rparr>\<rparr>\<rparr>"

theorem connection_cannot_widen_witness:
  "lim_RequestsPerSecond (cs_Limits (cm_Spec (Effective demo_connection demo_manifest))) \<le> 5"
proof -
  have "ValidateEffective demo_connection demo_manifest = []" by code_simp
  from connection_cannot_widen [OF this] show ?thesis by (simp add: demo_manifest_def)
qed

section \<open>Recipes\<close>

lemma endpoint_add_set: "set (endpoint_add out n) = set out \<union> ({n} - {[]})"
  by (auto simp: endpoint_add_def)

lemma endpoint_add_distinct: "distinct out \<Longrightarrow> distinct (endpoint_add out n)"
  by (simp add: endpoint_add_def)

lemma endpoints_fold:
  "distinct out \<Longrightarrow>
     distinct (foldl (\<lambda>out s. case st_Write s of None \<Rightarrow> out | Some w \<Rightarrow> endpoint_add out (wst_Target w)) out ss)
     \<and> set (foldl (\<lambda>out s. case st_Write s of None \<Rightarrow> out | Some w \<Rightarrow> endpoint_add out (wst_Target w)) out ss)
       = set out \<union> ({wst_Target w | w s. s \<in> set ss \<and> st_Write s = Some w} - {[]})"
proof (induction ss arbitrary: out)
  case Nil
  then show ?case by simp
next
  case (Cons s ss)
  show ?case
  proof (cases "st_Write s")
    case None
    then show ?thesis using Cons by auto
  next
    case (Some w)
    then show ?thesis
      using Cons(1) [OF endpoint_add_distinct [OF Cons(2)], of "wst_Target w"] by (auto simp: endpoint_add_set)
  qed
qed

lemma Endpoints_set:
  "distinct (Endpoints r) \<and> set (Endpoints r) =
     ({rs_TriggerSource (rc_Spec r)} \<union> {wst_Target w | w s. s \<in> set (rs_Steps (rc_Spec r)) \<and> st_Write s = Some w}) - {[]}"
  using endpoints_fold [of "endpoint_add [] (rs_TriggerSource (rc_Spec r))" "rs_Steps (rc_Spec r)"]
  by (auto simp: Endpoints_def endpoint_add_def)

text \<open>The endpoints of a recipe are, without repetition, its trigger's source and the targets of its
  write steps, and nothing else.\<close>

theorem Endpoints_exact:
  "distinct (Endpoints r) \<and> set (Endpoints r) =
     ({rs_TriggerSource (rc_Spec r)} \<union> {wst_Target w | w s. s \<in> set (rs_Steps (rc_Spec r)) \<and> st_Write s = Some w}) - {[]}"
  by (rule Endpoints_set)

lemma step_Kind_cases:
  "step_Kind s = ''map'' \<longleftrightarrow> st_Map s \<noteq> None \<and> st_Resolve s = None \<and> st_Write s = None"
  "step_Kind s = ''resolve'' \<longleftrightarrow> st_Map s = None \<and> st_Resolve s \<noteq> None \<and> st_Write s = None"
  "step_Kind s = ''write'' \<longleftrightarrow> st_Map s = None \<and> st_Resolve s = None \<and> st_Write s \<noteq> None"
  by (auto simp: step_Kind_def Let_def)

lemma Recipe_Validate_steps:
  assumes "Recipe_Validate r = []" "s \<in> set (rs_Steps (rc_Spec r))"
  shows "step_Kind s \<in> {''map'', ''resolve'', ''write''}
    \<and> (\<forall>w. st_Write s = Some w \<longrightarrow> wst_Target w \<noteq> [] \<and> wst_Operation w \<noteq> [] \<and> TrimSpace (wst_IdempotencyKey w) \<noteq> []
         \<and> (wst_Approval w = [] \<or> wst_Approval w \<in> {ApprovalPolicy, ApprovalRequired, ApprovalNone}))"
proof -
  from assms(2) obtain i where i: "i < length (rs_Steps (rc_Spec r))" "rs_Steps (rc_Spec r) ! i = s"
    by (auto simp: in_set_conv_nth)
  from assms(1) have "each validate_step (rs_Steps (rc_Spec r)) = []"
    by (simp add: Recipe_Validate_def Let_def)
  with i have "validate_step i s = []" by (auto simp: each_Nil)
  then show ?thesis
    by (auto simp: validate_step_def Let_def step_Kind_cases validate_write_def split: if_splits)
qed

end
