(* ===== verification/Catalog.thy ===== *)
theory Catalog
  imports Api_Props Semver
begin

text \<open>
  The catalog of declarative objects, \<open>pkg/catalog/catalog.go\<close>: objects indexed by kind and name,
  the versions of each highest first. Go's nested maps are association lists. The two sentinels
  called \<open>ErrNotFound\<close> (here and in the write guard) are distinct values, this one is
  \<^const>\<open>ErrCatalogNotFound\<close>. Reading spec files and plugin modules from disk (\<open>Load\<close>,
  \<open>PluginModule\<close>) is not modelled.
\<close>

record cat_entry =
  ce_version :: version
  ce_obj :: object
  ce_source :: string

type_synonym by_name = "(string \<times> cat_entry list) list"

record catalog =
  cat_objects :: "(string \<times> by_name) list"

definition New_catalog :: catalog where
  "New_catalog = \<lparr>cat_objects = []\<rparr>"

definition names_of :: "catalog \<Rightarrow> string \<Rightarrow> by_name" where
  "names_of c kind = (case map_of (cat_objects c) kind of None \<Rightarrow> [] | Some m \<Rightarrow> m)"

definition versions_of :: "catalog \<Rightarrow> string \<Rightarrow> string \<Rightarrow> cat_entry list" where
  "versions_of c kind name = (case map_of (names_of c kind) name of None \<Rightarrow> [] | Some es \<Rightarrow> es)"

text \<open>\<open>sort.Slice\<close> with the highest version first (there are no equal versions).\<close>

fun insert_by :: "('a \<Rightarrow> 'a \<Rightarrow> int) \<Rightarrow> 'a \<Rightarrow> 'a list \<Rightarrow> 'a list" where
  "insert_by cmp e [] = [e]"
| "insert_by cmp e (x # xs) = (if 0 < cmp e x then e # x # xs else x # insert_by cmp e xs)"

definition entry_cmp :: "cat_entry \<Rightarrow> cat_entry \<Rightarrow> int" where
  "entry_cmp a b = Compare (ce_version a) (ce_version b)"

definition sort_desc :: "cat_entry list \<Rightarrow> cat_entry list" where
  "sort_desc es = foldr (insert_by entry_cmp) es []"

definition Add :: "object \<Rightarrow> string \<Rightarrow> catalog \<Rightarrow> goerror + catalog" where
  "Add obj source c =
     (let kind = tm_Kind (GetTypeMeta obj); meta = GetMeta obj; name = om_Name meta;
          rawv = (if om_Version meta = [] then ''0.0.0'' else om_Version meta)
      in case Parse rawv of
           Inl e \<Rightarrow> Inl (Wrap_err ''%s/%s: %w'' [AStr kind, AStr name] e)
         | Inr v \<Rightarrow>
             (case find (\<lambda>e. Compare (ce_version e) v = 0) (versions_of c kind name) of
                Some e \<Rightarrow> Inl (New_err ''duplicate %s %s@%s (%s and %s)''
                  [AStr kind, AStr name, AStr (version_String v), AStr (ce_source e), AStr source])
              | None \<Rightarrow>
                  let es = sort_desc (versions_of c kind name @ [\<lparr>ce_version = v, ce_obj = obj, ce_source = source\<rparr>])
                  in Inr (c\<lparr>cat_objects := AList.update kind (AList.update name es (names_of c kind)) (cat_objects c)\<rparr>)))"

fun add_all :: "(object \<times> string) list \<Rightarrow> catalog \<Rightarrow> goerror + catalog" where
  "add_all [] c = Inr c"
| "add_all ((obj, source) # docs) c =
     (case Add obj source c of Inl e \<Rightarrow> Inl e | Inr c' \<Rightarrow> add_all docs c')"

definition FromDocuments :: "(object \<times> string) list \<Rightarrow> goerror + catalog" where
  "FromDocuments docs = add_all docs New_catalog"

definition Resolve :: "catalog \<Rightarrow> string \<Rightarrow> string \<Rightarrow> string \<Rightarrow> goerror + object" where
  "Resolve c kind name con0 =
     (case ParseConstraint con0 of
        Inl e \<Rightarrow> Inl (Wrap_err ''%s %s: %w'' [AStr kind, AStr name] e)
      | Inr con \<Rightarrow>
          (case find (\<lambda>e. Check con (ce_version e)) (versions_of c kind name) of
             Some e \<Rightarrow> Inr (ce_obj e)
           | None \<Rightarrow>
               if versions_of c kind name = []
               then Inl (Wrap_sentinel ErrCatalogNotFound ''%s %q: %w'' [AStr kind, AStr name])
               else Inl (Wrap_sentinel ErrCatalogNotFound ''%s %q: no version satisfies %s: %w''
                 [AStr kind, AStr name, AStr (constraint_String con)])))"

definition ResolveRef :: "catalog \<Rightarrow> string \<Rightarrow> string \<Rightarrow> goerror + object" where
  "ResolveRef c kind ref = (case ParseRef ref of (name, con) \<Rightarrow> Resolve c kind name con)"

text \<open>The typed accessors. A failing type assertion panics.\<close>

definition type_panic :: goerror where
  "type_panic = New_err ''panic: interface conversion'' []"

definition cat_Connector :: "catalog \<Rightarrow> string \<Rightarrow> string \<Rightarrow> goerror + connector_manifest" where
  "cat_Connector c name con =
     (case Resolve c KindConnectorManifest name con of
        Inl e \<Rightarrow> Inl e | Inr obj \<Rightarrow> (case obj of OConnector m \<Rightarrow> Inr m | _ \<Rightarrow> Inl type_panic))"

definition cat_Connection :: "catalog \<Rightarrow> string \<Rightarrow> goerror + connection" where
  "cat_Connection c name =
     (case Resolve c KindConnection name [] of
        Inl e \<Rightarrow> Inl e | Inr obj \<Rightarrow> (case obj of OConnection m \<Rightarrow> Inr m | _ \<Rightarrow> Inl type_panic))"

definition cat_Mapping :: "catalog \<Rightarrow> string \<Rightarrow> goerror + mapping_obj" where
  "cat_Mapping c ref =
     (case ResolveRef c KindMapping ref of
        Inl e \<Rightarrow> Inl e | Inr obj \<Rightarrow> (case obj of OMapping m \<Rightarrow> Inr m | _ \<Rightarrow> Inl type_panic))"

definition cat_Contract :: "catalog \<Rightarrow> string \<Rightarrow> goerror + slot_contract" where
  "cat_Contract c ref =
     (case ResolveRef c KindSlotContract ref of
        Inl e \<Rightarrow> Inl e | Inr obj \<Rightarrow> (case obj of OContract m \<Rightarrow> Inr m | _ \<Rightarrow> Inl type_panic))"

definition cat_Plugin :: "catalog \<Rightarrow> string \<Rightarrow> string \<Rightarrow> goerror + plugin" where
  "cat_Plugin c name con =
     (case Resolve c KindPlugin name con of
        Inl e \<Rightarrow> Inl e | Inr obj \<Rightarrow> (case obj of OPlugin m \<Rightarrow> Inr m | _ \<Rightarrow> Inl type_panic))"

definition cat_Recipe :: "catalog \<Rightarrow> string \<Rightarrow> goerror + recipe" where
  "cat_Recipe c ref =
     (case ResolveRef c KindRecipe ref of
        Inl e \<Rightarrow> Inl e | Inr obj \<Rightarrow> (case obj of ORecipe m \<Rightarrow> Inr m | _ \<Rightarrow> Inl type_panic))"

definition cat_Policy :: "catalog \<Rightarrow> string \<Rightarrow> goerror + policy_pack" where
  "cat_Policy c ref =
     (case ResolveRef c KindPolicyPack ref of
        Inl e \<Rightarrow> Inl e | Inr obj \<Rightarrow> (case obj of OPolicy m \<Rightarrow> Inr m | _ \<Rightarrow> Inl type_panic))"

fun find_kind :: "catalog \<Rightarrow> string \<Rightarrow> string list \<Rightarrow> goerror + object" where
  "find_kind c name [] = Inl (Wrap_sentinel ErrCatalogNotFound ''%q: %w'' [AStr name])"
| "find_kind c name (k # ks) =
     (case versions_of c k name of
        e # es \<Rightarrow> Inr (ce_obj e)
      | [] \<Rightarrow> find_kind c name ks)"

definition Find :: "catalog \<Rightarrow> string \<Rightarrow> goerror + object" where
  "Find c name = find_kind c name (rev Kinds)"

definition All :: "catalog \<Rightarrow> object list" where
  "All c = concat (map (\<lambda>kind. concat (map (\<lambda>n. map ce_obj (versions_of c kind n))
     (sort (map fst (AList.clearjunk (names_of c kind)))))) Kinds)"

section \<open>The invariant\<close>

text \<open>Versions are well-formed and strictly descending under every kind and name, and every object is
  filed under its own kind, name and version.\<close>

definition filed :: "string \<Rightarrow> string \<Rightarrow> cat_entry \<Rightarrow> bool" where
  "filed kind name e \<longleftrightarrow>
     wf_version (ce_version e) \<and> tm_Kind (GetTypeMeta (ce_obj e)) = kind \<and> om_Name (GetMeta (ce_obj e)) = name
     \<and> Parse (if om_Version (GetMeta (ce_obj e)) = [] then ''0.0.0'' else om_Version (GetMeta (ce_obj e))) = Inr (ce_version e)"

definition catalog_ok :: "catalog \<Rightarrow> bool" where
  "catalog_ok c \<longleftrightarrow>
     (\<forall>kind name. list_all (filed kind name) (versions_of c kind name)
        \<and> sorted_wrt (\<lambda>a b. 0 < entry_cmp a b) (versions_of c kind name))"

section \<open>Descending lists\<close>

text \<open>What the catalog needs of a comparison to keep a list descending and to find the highest element.\<close>

locale comparison =
  fixes cmp :: "'a \<Rightarrow> 'a \<Rightarrow> int" and ok :: "'a \<Rightarrow> bool"
  assumes cmp_swap: "ok a \<Longrightarrow> ok b \<Longrightarrow> cmp b a = - cmp a b"
    and cmp_trans: "ok a \<Longrightarrow> ok b \<Longrightarrow> ok c \<Longrightarrow> 0 < cmp a b \<Longrightarrow> 0 < cmp b c \<Longrightarrow> 0 < cmp a c"
begin

lemma set_insert_by: "set (insert_by cmp e xs) = insert e (set xs)"
  by (induction xs) auto

lemma insert_by_sorted:
  "ok e \<Longrightarrow> list_all ok xs \<Longrightarrow> sorted_wrt (\<lambda>a b. 0 < cmp a b) xs \<Longrightarrow> (\<forall>x \<in> set xs. cmp e x \<noteq> 0) \<Longrightarrow>
     sorted_wrt (\<lambda>a b. 0 < cmp a b) (insert_by cmp e xs)"
proof (induction xs)
  case Nil
  then show ?case by simp
next
  case (Cons x xs)
  show ?case
  proof (cases "0 < cmp e x")
    case True
    then show ?thesis using Cons cmp_trans [of e x] by (auto simp: list_all_iff)
  next
    case False
    then have "0 < cmp x e" using Cons(2,3,5) cmp_swap [of e x] by auto
    then show ?thesis using Cons False by (auto simp: set_insert_by)
  qed
qed

lemma sort_sorted:
  "list_all ok xs \<Longrightarrow> sorted_wrt (\<lambda>a b. cmp a b \<noteq> 0) xs \<Longrightarrow>
     sorted_wrt (\<lambda>a b. 0 < cmp a b) (foldr (insert_by cmp) xs []) \<and> set (foldr (insert_by cmp) xs []) = set xs"
  by (induction xs) (auto simp: set_insert_by list_all_iff intro!: insert_by_sorted)

lemma find_highest:
  "list_all ok xs \<Longrightarrow> sorted_wrt (\<lambda>a b. 0 < cmp a b) xs \<Longrightarrow> find P xs = Some x \<Longrightarrow> y \<in> set xs \<Longrightarrow> P y \<Longrightarrow> cmp y x \<le> 0"
proof (induction xs)
  case Nil
  then show ?case by simp
next
  case (Cons z zs)
  have self: "cmp z z = 0" using cmp_swap [of z z] Cons(2) by simp
  show ?case
    using Cons cmp_swap [of z y] self by (auto simp: list_all_iff split: if_splits)
qed

end

interpretation ec: comparison entry_cmp "\<lambda>e. wf_version (ce_version e)"
proof unfold_locales
  fix a b c :: cat_entry
  assume wf: "wf_version (ce_version a)" "wf_version (ce_version b)"
  show "entry_cmp b a = - entry_cmp a b" using wf by (simp add: entry_cmp_def Compare_swap [of "ce_version a"])
  assume "wf_version (ce_version c)" "0 < entry_cmp a b" "0 < entry_cmp b c"
  then show "0 < entry_cmp a c"
    using wf key_less_iff [of "ce_version b" "ce_version a"] key_less_iff [of "ce_version c" "ce_version b"]
      key_less_iff [of "ce_version c" "ce_version a"]
      Compare_swap [of "ce_version a" "ce_version b"] Compare_swap [of "ce_version b" "ce_version c"]
      Compare_swap [of "ce_version a" "ce_version c"]
    by (auto simp: entry_cmp_def)
qed

lemma versions_of_update:
  "versions_of (c\<lparr>cat_objects := AList.update kind (AList.update name es (names_of c kind)) (cat_objects c)\<rparr>) k n
     = (if k = kind \<and> n = name then es else versions_of c k n)"
  by (auto simp: versions_of_def names_of_def update_conv' split: option.splits)

lemma filed_wf: "list_all (filed kind name) es \<Longrightarrow> list_all (\<lambda>e. wf_version (ce_version e)) es"
  by (auto simp: list_all_iff filed_def)

lemma catalog_ok_New: "catalog_ok New_catalog"
  by (simp add: catalog_ok_def New_catalog_def versions_of_def names_of_def)

text \<open>What \<open>Add\<close> does when it succeeds.\<close>

lemma Add_eq:
  assumes "Add obj source c = Inr c'" "catalog_ok c"
  obtains v where "filed (tm_Kind (GetTypeMeta obj)) (om_Name (GetMeta obj)) \<lparr>ce_version = v, ce_obj = obj, ce_source = source\<rparr>"
    "\<forall>e \<in> set (versions_of c (tm_Kind (GetTypeMeta obj)) (om_Name (GetMeta obj))). Compare (ce_version e) v \<noteq> 0"
    "\<And>k n. versions_of c' k n =
       (if k = tm_Kind (GetTypeMeta obj) \<and> n = om_Name (GetMeta obj)
        then sort_desc (versions_of c k n @ [\<lparr>ce_version = v, ce_obj = obj, ce_source = source\<rparr>]) else versions_of c k n)"
proof -
  let ?k = "tm_Kind (GetTypeMeta obj)" and ?n = "om_Name (GetMeta obj)"
  let ?raw = "if om_Version (GetMeta obj) = [] then ''0.0.0'' else om_Version (GetMeta obj)"
  obtain v where v: "Parse ?raw = Inr v" "find (\<lambda>e. Compare (ce_version e) v = 0) (versions_of c ?k ?n) = None"
    and c': "c' = c\<lparr>cat_objects := AList.update ?k (AList.update ?n
        (sort_desc (versions_of c ?k ?n @ [\<lparr>ce_version = v, ce_obj = obj, ce_source = source\<rparr>])) (names_of c ?k)) (cat_objects c)\<rparr>"
    using assms(1) by (auto simp: Add_def Let_def split: sum.splits option.splits)
  show thesis
  proof (rule that [of v])
    show "filed ?k ?n \<lparr>ce_version = v, ce_obj = obj, ce_source = source\<rparr>"
      using v(1) Parse_wf [OF v(1)] by (auto simp: filed_def split: if_splits)
    show "\<forall>e \<in> set (versions_of c ?k ?n). Compare (ce_version e) v \<noteq> 0" using v(2) by (simp add: find_None_all)
    show "versions_of c' k n = (if k = ?k \<and> n = ?n
        then sort_desc (versions_of c k n @ [\<lparr>ce_version = v, ce_obj = obj, ce_source = source\<rparr>]) else versions_of c k n)" for k n
      unfolding c' versions_of_update by simp
  qed
qed

lemma Add_ok:
  assumes "Add obj source c = Inr c'" "catalog_ok c"
  shows "catalog_ok c'"
  using assms
proof (cases rule: Add_eq)
  case (1 v)
  let ?k = "tm_Kind (GetTypeMeta obj)" and ?n = "om_Name (GetMeta obj)"
  let ?e = "\<lparr>ce_version = v, ce_obj = obj, ce_source = source\<rparr>" and ?vs = "versions_of c ?k ?n"
  have old: "list_all (filed ?k ?n) ?vs" "sorted_wrt (\<lambda>a b. 0 < entry_cmp a b) ?vs"
    using assms(2) by (auto simp: catalog_ok_def)
  have wf: "list_all (\<lambda>e. wf_version (ce_version e)) (?vs @ [?e])"
    using filed_wf [OF old(1)] 1(1) by (simp add: filed_def)
  have "sorted_wrt (\<lambda>a b. entry_cmp a b \<noteq> 0) ?vs" using old(2) by (rule sorted_wrt_mono_rel [rotated]) auto
  then have "sorted_wrt (\<lambda>a b. entry_cmp a b \<noteq> 0) (?vs @ [?e])"
    using 1(2) by (auto simp: sorted_wrt_append entry_cmp_def)
  from ec.sort_sorted [OF wf this] have
    "sorted_wrt (\<lambda>a b. 0 < entry_cmp a b) (sort_desc (?vs @ [?e]))" "set (sort_desc (?vs @ [?e])) = set (?vs @ [?e])"
    by (simp_all add: sort_desc_def)
  moreover have "list_all (filed ?k ?n) (sort_desc (?vs @ [?e]))"
    using old(1) 1(1) calculation(2) by (auto simp: list_all_iff)
  ultimately show ?thesis using assms(2) by (simp add: catalog_ok_def 1(3))
qed

lemma add_all_ok: "add_all docs c = Inr c' \<Longrightarrow> catalog_ok c \<Longrightarrow> catalog_ok c'"
  by (induction docs c rule: add_all.induct) (auto split: sum.splits dest: Add_ok)

lemma Resolve_highest_ok:
  assumes "catalog_ok c" "Resolve c kind name con0 = Inr obj"
  shows "\<exists>con e. ParseConstraint con0 = Inr con \<and> e \<in> set (versions_of c kind name) \<and> ce_obj e = obj \<and> filed kind name e
    \<and> Check con (ce_version e)
    \<and> (\<forall>e'. e' \<in> set (versions_of c kind name) \<longrightarrow> Check con (ce_version e') \<longrightarrow> Compare (ce_version e') (ce_version e) \<le> 0)"
proof -
  from assms(2) obtain con e where con: "ParseConstraint con0 = Inr con"
    and f: "find (\<lambda>e. Check con (ce_version e)) (versions_of c kind name) = Some e" and obj: "ce_obj e = obj"
    by (auto simp: Resolve_def split: sum.splits option.splits if_splits)
  have inv: "list_all (filed kind name) (versions_of c kind name)"
    "sorted_wrt (\<lambda>a b. 0 < entry_cmp a b) (versions_of c kind name)"
    using assms(1) by (auto simp: catalog_ok_def)
  have e: "e \<in> set (versions_of c kind name)" "Check con (ce_version e)" using find_SomeD [OF f] by auto
  have "Compare (ce_version e') (ce_version e) \<le> 0"
    if "e' \<in> set (versions_of c kind name)" "Check con (ce_version e')" for e'
    using ec.find_highest [OF filed_wf [OF inv(1)] inv(2) f that] by (simp add: entry_cmp_def)
  then show ?thesis using con e obj inv(1) by (auto simp: list_all_iff)
qed

section \<open>Properties\<close>

text \<open>C33: a reference resolves to the highest version. In a catalog built from any documents, \<open>Resolve\<close>
  returns an object of exactly the kind and name asked for, whose version satisfies the constraint
  and is the highest indexed version that does.\<close>

theorem Resolve_highest:
  assumes "FromDocuments docs = Inr c" "Resolve c kind name con0 = Inr obj"
  shows "tm_Kind (GetTypeMeta obj) = kind \<and> om_Name (GetMeta obj) = name
    \<and> (\<exists>con v. ParseConstraint con0 = Inr con \<and> Check con v
         \<and> Parse (if om_Version (GetMeta obj) = [] then ''0.0.0'' else om_Version (GetMeta obj)) = Inr v
         \<and> (\<forall>e'. e' \<in> set (versions_of c kind name) \<longrightarrow> Check con (ce_version e') \<longrightarrow> Compare (ce_version e') v \<le> 0))"
proof -
  have "catalog_ok c" using assms(1) add_all_ok catalog_ok_New by (auto simp: FromDocuments_def)
  from Resolve_highest_ok [OF this assms(2)] show ?thesis by (auto simp: filed_def)
qed

definition demo_object :: "string \<Rightarrow> object" where
  "demo_object v = OConnector (demo_manifest\<lparr>cm_Metadata := (cm_Metadata demo_manifest)\<lparr>om_Version := v\<rparr>\<rparr>)"

lemma demo_catalog:
  obtains c where "FromDocuments [(demo_object ''1.2.0'', ''a''), (demo_object ''1.10.0'', ''b''), (demo_object ''2.0.0'', ''c'')] = Inr c"
    "Resolve c KindConnectorManifest ''erp'' ''^1'' = Inr (demo_object ''1.10.0'')"
proof -
  have "case FromDocuments [(demo_object ''1.2.0'', ''a''), (demo_object ''1.10.0'', ''b''), (demo_object ''2.0.0'', ''c'')] of
      Inl e \<Rightarrow> False
    | Inr c \<Rightarrow> (case Resolve c KindConnectorManifest ''erp'' ''^1'' of
         Inl e \<Rightarrow> False | Inr obj \<Rightarrow> obj = demo_object ''1.10.0'')"
    by code_simp
  then show thesis using that by (auto split: sum.splits)
qed

theorem Resolve_highest_witness: "om_Name (GetMeta (demo_object ''1.10.0'')) = ''erp''"
proof (rule demo_catalog)
  fix c
  assume "FromDocuments [(demo_object ''1.2.0'', ''a''), (demo_object ''1.10.0'', ''b''), (demo_object ''2.0.0'', ''c'')] = Inr c"
    "Resolve c KindConnectorManifest ''erp'' ''^1'' = Inr (demo_object ''1.10.0'')"
  from Resolve_highest [OF this] show ?thesis by simp
qed

text \<open>C35: adding an object makes it resolvable and disturbs nothing else: a successful \<open>Add\<close> keeps the
  versions of every other kind and name, and under its own kind and name the catalog afterwards
  lists exactly the previous versions and the new one, which no previous version equals.\<close>

theorem Add_indexes:
  assumes "FromDocuments docs = Inr c" "Add obj source c = Inr c'"
  shows "catalog_ok c'
    \<and> (\<exists>v. set (versions_of c' (tm_Kind (GetTypeMeta obj)) (om_Name (GetMeta obj)))
           = insert \<lparr>ce_version = v, ce_obj = obj, ce_source = source\<rparr>
               (set (versions_of c (tm_Kind (GetTypeMeta obj)) (om_Name (GetMeta obj))))
         \<and> (\<forall>e. e \<in> set (versions_of c (tm_Kind (GetTypeMeta obj)) (om_Name (GetMeta obj))) \<longrightarrow> ce_version e \<noteq> v))
    \<and> (\<forall>k n. (k, n) \<noteq> (tm_Kind (GetTypeMeta obj), om_Name (GetMeta obj)) \<longrightarrow> versions_of c' k n = versions_of c k n)"
proof -
  have ok: "catalog_ok c" using assms(1) add_all_ok catalog_ok_New by (auto simp: FromDocuments_def)
  from assms(2) ok show ?thesis
  proof (cases rule: Add_eq)
    case (1 v)
    let ?k = "tm_Kind (GetTypeMeta obj)" and ?n = "om_Name (GetMeta obj)"
    have s: "set (sort_desc xs) = set xs" for xs
      by (induction xs) (auto simp: sort_desc_def ec.set_insert_by)
    have "ce_version e \<noteq> v" if "e \<in> set (versions_of c ?k ?n)" for e
      using that 1(1,2) ok by (force simp: catalog_ok_def list_all_iff filed_def Compare_zero_iff)
    then show ?thesis
      using Add_ok [OF assms(2) ok] by (auto simp: 1(3) s)
  qed
qed

theorem Add_indexes_witness:
  "\<exists>c'. Add (demo_object ''1.0.0'') ''a'' New_catalog = Inr c' \<and> catalog_ok c'"
proof -
  have "case Add (demo_object ''1.0.0'') ''a'' New_catalog of Inl e \<Rightarrow> False | Inr c \<Rightarrow> True" by code_simp
  then obtain c' where c': "Add (demo_object ''1.0.0'') ''a'' New_catalog = Inr c'" by (auto split: sum.splits)
  have "FromDocuments [] = Inr New_catalog" by (simp add: FromDocuments_def)
  from Add_indexes [OF this c'] c' show ?thesis by blast
qed

text \<open>When every object carries the kind its Go type stands for, the type assertions succeed.\<close>

fun kind_of :: "object \<Rightarrow> string" where
  "kind_of (OConnector _) = KindConnectorManifest"
| "kind_of (OConnection _) = KindConnection"
| "kind_of (OContract _) = KindSlotContract"
| "kind_of (OPolicy _) = KindPolicyPack"
| "kind_of (OMapping _) = KindMapping"
| "kind_of (OPlugin _) = KindPlugin"
| "kind_of (ORecipe _) = KindRecipe"
| "kind_of (OBlueprint _) = KindStackBlueprint"

definition well_kinded :: "catalog \<Rightarrow> bool" where
  "well_kinded c \<longleftrightarrow> (\<forall>kind name e. e \<in> set (versions_of c kind name) \<longrightarrow> kind_of (ce_obj e) = kind)"

lemma Resolve_kind: "well_kinded c \<Longrightarrow> Resolve c kind name con = Inr obj \<Longrightarrow> kind_of obj = kind"
  by (auto simp: Resolve_def well_kinded_def split: sum.splits option.splits if_splits dest!: find_SomeD)

lemma cat_Connector_Inr: "cat_Connector c name con = Inr m \<longleftrightarrow> Resolve c KindConnectorManifest name con = Inr (OConnector m)"
  by (auto simp: cat_Connector_def split: sum.splits object.splits)

lemma cat_Connection_Inr: "cat_Connection c name = Inr m \<longleftrightarrow> Resolve c KindConnection name [] = Inr (OConnection m)"
  by (auto simp: cat_Connection_def split: sum.splits object.splits)

lemma cat_Connector_no_panic:
  "well_kinded c \<Longrightarrow> cat_Connector c name con = Inl e \<Longrightarrow> Resolve c KindConnectorManifest name con = Inl e"
  by (cases "Resolve c KindConnectorManifest name con")
    (auto simp: cat_Connector_def kind_defs dest!: Resolve_kind split: object.splits)

end
