(* ===== verification/Report.thy ===== *)
theory Report
  imports Catalog
begin

text \<open>
  Verification reports, \<open>pkg/verifier/report.go\<close>, and the reviews of \<open>reviews.go\<close>. A report is its
  body and the reports of what it contains. Findings are collected in order, the level only
  rises, and \<open>finish\<close> decides whether the subject may be deployed.
\<close>

datatype severity = SeverityError | SeverityReview | SeverityWarning | SeverityInfo

definition StageSchema :: string where "StageSchema = ''schema''"
definition StageResolve :: string where "StageResolve = ''resolve''"
definition StageInterfaces :: string where "StageInterfaces = ''interfaces''"
definition StageMapping :: string where "StageMapping = ''mapping''"
definition StagePolicy :: string where "StagePolicy = ''policy''"
definition StageCapacity :: string where "StageCapacity = ''capacity''"
definition StageContract :: string where "StageContract = ''contract''"
definition StageDryRun :: string where "StageDryRun = ''dry-run''"

lemmas stage_defs = StageSchema_def StageResolve_def StageInterfaces_def StageMapping_def StagePolicy_def
  StageCapacity_def StageContract_def StageDryRun_def

record finding =
  fi_Stage :: string
  fi_Severity :: severity
  fi_Path :: string
  fi_Message :: message

record review_item =
  ri_Mapping :: string
  ri_Target :: string
  ri_Expression :: string
  ri_Origin :: string
  ri_Confidence :: rat
  ri_Rationale :: string

record resolution =
  res_Recipe :: "recipe option"
  res_Connectors :: "(string \<times> connector_manifest) list"
  res_Connections :: "(string \<times> connection) list"
  res_Mappings :: "(string \<times> mapping_obj) list"
  res_Slots :: "(string \<times> plugin) list"
  res_Contracts :: "(string \<times> slot_contract) list"
  res_Extensions :: "plugin list"
  res_Policies :: "policy_pack list"

record report_body =
  rb_Subject :: string
  rb_Level :: string
  rb_Deployable :: bool
  rb_Findings :: "finding list"
  rb_ReviewQueue :: "review_item list"
  rb_Resolution :: resolution
  rb_level :: nat

datatype report = Report (rp_body: report_body) (rp_Children: "report list")

definition no_resolution :: resolution where
  "no_resolution = \<lparr>res_Recipe = None, res_Connectors = [], res_Connections = [], res_Mappings = [], res_Slots = [],
     res_Contracts = [], res_Extensions = [], res_Policies = []\<rparr>"

definition newReport :: "object \<Rightarrow> report" where
  "newReport obj =
     (let m = GetMeta obj; subject = tm_Kind (GetTypeMeta obj) @ ''/'' @ om_Name m
      in Report \<lparr>rb_Subject = (if om_Version m \<noteq> [] then subject @ ''@'' @ om_Version m else subject), rb_Level = [],
           rb_Deployable = False, rb_Findings = [], rb_ReviewQueue = [], rb_Resolution = no_resolution, rb_level = 0\<rparr> [])"

definition upd_body :: "(report_body \<Rightarrow> report_body) \<Rightarrow> report \<Rightarrow> report" where
  "upd_body f r = Report (f (rp_body r)) (rp_Children r)"

definition upd_res :: "(resolution \<Rightarrow> resolution) \<Rightarrow> report \<Rightarrow> report" where
  "upd_res f r = upd_body (\<lambda>b. b\<lparr>rb_Resolution := f (rb_Resolution b)\<rparr>) r"

definition rep_add :: "string \<Rightarrow> severity \<Rightarrow> string \<Rightarrow> string \<Rightarrow> arg list \<Rightarrow> report \<Rightarrow> report" where
  "rep_add stage sev path format args r =
     upd_body (\<lambda>b. b\<lparr>rb_Findings := rb_Findings b @
       [\<lparr>fi_Stage = stage, fi_Severity = sev, fi_Path = path, fi_Message = Msg format args\<rparr>]\<rparr>) r"

definition rep_raise :: "nat \<Rightarrow> report \<Rightarrow> report" where
  "rep_raise lvl r = upd_body (\<lambda>b. if rb_level b < lvl then b\<lparr>rb_level := lvl\<rparr> else b) r"

definition rep_child :: "report \<Rightarrow> report \<Rightarrow> report" where
  "rep_child c r = Report (rp_body r) (rp_Children r @ [c])"

definition is_error :: "finding \<Rightarrow> bool" where
  "is_error f = (fi_Severity f = SeverityError)"

fun Errors :: "report \<Rightarrow> finding list" where
  "Errors (Report b cs) =
     filter is_error (rb_Findings b)
     @ concat (map (\<lambda>c. map (\<lambda>f. f\<lparr>fi_Path := TrimPrefix (rb_Subject (rp_body c) @ '' '' @ fi_Path f) '' ''\<rparr>) (Errors c)) cs)"

definition levelIndex :: "string \<Rightarrow> nat" where
  "levelIndex l = (if l = LevelL0 then 0 else if l = LevelL1 then 1 else if l = LevelL2 then 2 else 3)"

definition stageOrder :: "string \<Rightarrow> nat" where
  "stageOrder s =
     (case find (\<lambda>(i, st). st = s) (enumerate 0 [StageSchema, StageResolve, StageInterfaces, StageContract, StageMapping,
        StagePolicy, StageCapacity, StageDryRun]) of
        Some (i, _) \<Rightarrow> i
      | None \<Rightarrow> 99)"

text \<open>\<open>finish\<close>: the level takes the children's into account; a report with an error, an open review or a
  child that is not deployable is not deployable.\<close>

definition finish :: "report \<Rightarrow> report" where
  "finish r =
     (let reviews = length (rb_ReviewQueue (rp_body r));
          errs = length (filter is_error (rb_Findings (rp_body r)))
                 + length (filter (\<lambda>c. \<not> rb_Deployable (rp_body c)) (rp_Children r));
          r1 = foldl (\<lambda>r c. rep_raise (levelIndex (rb_Level (rp_body c))) r) r (rp_Children r);
          r2 = (if 0 < reviews then rep_raise 1 r1 else r1)
      in upd_body (\<lambda>b. b\<lparr>rb_Level := ''L'' @ Itoa (rb_level b),
           rb_Deployable := (errs = 0 \<and> reviews = 0),
           rb_Findings := sort_key (\<lambda>f. stageOrder (fi_Stage f)) (rb_Findings b)\<rparr>) r2)"

section \<open>Reviews\<close>

definition ReviewApproved :: string where "ReviewApproved = ''approved''"

record review =
  rv_Decision :: string
  rv_Reviewer :: string
  rv_Note :: string
  rv_At :: string

text \<open>Reviews by mapping, target and digest of the expression; the digest function is SHA-256.\<close>

type_synonym reviews = "((string \<times> string \<times> string) \<times> review) list"

definition Reviews_Find :: "(string \<Rightarrow> string) \<Rightarrow> reviews \<Rightarrow> string \<Rightarrow> string \<Rightarrow> string \<Rightarrow> review option" where
  "Reviews_Find digest rs mapping target expr = map_of rs (mapping, target, digest expr)"

section \<open>Reports that only grow\<close>

text \<open>The findings of a report.\<close>

abbreviation findings :: "report \<Rightarrow> finding list" where
  "findings r \<equiv> rb_Findings (rp_body r)"

definition errs :: "report \<Rightarrow> finding list" where
  "errs r = filter is_error (findings r)"

text \<open>A report whose verdict, and the verdict of every report inside it, is what \<open>finish\<close> computes.\<close>

fun honest :: "report \<Rightarrow> bool" where
  "honest (Report b cs) \<longleftrightarrow>
     list_all honest cs
     \<and> (rb_Deployable b \<longrightarrow> filter is_error (rb_Findings b) = [] \<and> rb_ReviewQueue b = []
          \<and> list_all (\<lambda>c. rb_Deployable (rp_body c)) cs)"

text \<open>\<open>grows r r'\<close>: nothing was taken back from \<open>r\<close>, and every report added inside it is honest.\<close>

definition grows :: "report \<Rightarrow> report \<Rightarrow> bool" where
  "grows r r' \<longleftrightarrow>
     set (findings r) \<subseteq> set (findings r')
     \<and> set (rb_ReviewQueue (rp_body r)) \<subseteq> set (rb_ReviewQueue (rp_body r'))
     \<and> set (rp_Children r) \<subseteq> set (rp_Children r')
     \<and> (\<forall>c \<in> set (rp_Children r'). c \<in> set (rp_Children r) \<or> honest c)
     \<and> rb_level (rp_body r) \<le> rb_level (rp_body r')"

lemma grows_refl [simp]: "grows r r"
  by (simp add: grows_def)

lemma grows_trans: "grows r r' \<Longrightarrow> grows r' r'' \<Longrightarrow> grows r r''"
  by (auto simp: grows_def)

lemma grows_foldl: "(\<And>x r. grows r (f r x)) \<Longrightarrow> grows r (foldl f r xs)"
  by (induction xs arbitrary: r) (auto intro: grows_trans)

lemma report_simps [simp]:
  "rp_body (upd_body f r) = f (rp_body r)" "rp_Children (upd_body f r) = rp_Children r"
  "rp_Children (rep_child c r) = rp_Children r @ [c]" "rp_body (rep_child c r) = rp_body r"
  by (simp_all add: upd_body_def rep_child_def)

lemma rep_add_simps [simp]:
  "findings (rep_add st sev p f as r) = findings r @ [\<lparr>fi_Stage = st, fi_Severity = sev, fi_Path = p, fi_Message = Msg f as\<rparr>]"
  "rb_ReviewQueue (rp_body (rep_add st sev p f as r)) = rb_ReviewQueue (rp_body r)"
  "rb_Resolution (rp_body (rep_add st sev p f as r)) = rb_Resolution (rp_body r)"
  "rb_level (rp_body (rep_add st sev p f as r)) = rb_level (rp_body r)"
  "rp_Children (rep_add st sev p f as r) = rp_Children r"
  by (simp_all add: rep_add_def)

lemma rep_raise_simps [simp]:
  "findings (rep_raise l r) = findings r"
  "rb_ReviewQueue (rp_body (rep_raise l r)) = rb_ReviewQueue (rp_body r)"
  "rb_Resolution (rp_body (rep_raise l r)) = rb_Resolution (rp_body r)"
  "rb_level (rp_body (rep_raise l r)) = max (rb_level (rp_body r)) l"
  "rp_Children (rep_raise l r) = rp_Children r"
  by (simp_all add: rep_raise_def)

lemma upd_res_simps [simp]:
  "findings (upd_res f r) = findings r"
  "rb_ReviewQueue (rp_body (upd_res f r)) = rb_ReviewQueue (rp_body r)"
  "rb_Resolution (rp_body (upd_res f r)) = f (rb_Resolution (rp_body r))"
  "rb_level (rp_body (upd_res f r)) = rb_level (rp_body r)"
  "rp_Children (upd_res f r) = rp_Children r"
  by (simp_all add: upd_res_def)

lemma grows_steps [simp]:
  "grows r (rep_add st sev p f as r)" "grows r (rep_raise l r)" "grows r (upd_res g r)" "honest c \<Longrightarrow> grows r (rep_child c r)"
  by (auto simp: grows_def)

lemma grows_error: "grows r r' \<Longrightarrow> errs r \<noteq> [] \<Longrightarrow> errs r' \<noteq> []"
  by (auto simp: grows_def errs_def filter_empty_conv)

lemma errs_add [simp]: "errs (rep_add st sev p f as r) = errs r @ (if sev = SeverityError
    then [\<lparr>fi_Stage = st, fi_Severity = sev, fi_Path = p, fi_Message = Msg f as\<rparr>] else [])"
  by (simp add: errs_def is_error_def)

lemma errs_others [simp]: "errs (rep_raise l r) = errs r" "errs (upd_res g r) = errs r" "errs (rep_child c r) = errs r"
  by (simp_all add: errs_def)

lemma finish_raise_fold:
  "findings (foldl (\<lambda>r c. rep_raise (levelIndex (rb_Level (rp_body c))) r) r cs) = findings r"
  "rb_ReviewQueue (rp_body (foldl (\<lambda>r c. rep_raise (levelIndex (rb_Level (rp_body c))) r) r cs)) = rb_ReviewQueue (rp_body r)"
  "rb_Resolution (rp_body (foldl (\<lambda>r c. rep_raise (levelIndex (rb_Level (rp_body c))) r) r cs)) = rb_Resolution (rp_body r)"
  "rp_Children (foldl (\<lambda>r c. rep_raise (levelIndex (rb_Level (rp_body c))) r) r cs) = rp_Children r"
  by (induction cs arbitrary: r) simp_all

lemma finish_simps [simp]:
  "set (findings (finish r)) = set (findings r)"
  "rb_ReviewQueue (rp_body (finish r)) = rb_ReviewQueue (rp_body r)"
  "rb_Resolution (rp_body (finish r)) = rb_Resolution (rp_body r)"
  "rp_Children (finish r) = rp_Children r"
  by (simp_all add: finish_def Let_def finish_raise_fold)

lemma finish_Deployable:
  "rb_Deployable (rp_body (finish r)) \<longleftrightarrow>
     errs r = [] \<and> rb_ReviewQueue (rp_body r) = [] \<and> (\<forall>c \<in> set (rp_Children r). rb_Deployable (rp_body c))"
  by (auto simp: finish_def Let_def finish_raise_fold errs_def filter_empty_conv)

lemma honest_finish: "list_all honest (rp_Children r) \<Longrightarrow> honest (finish r)"
  using finish_Deployable [of r] finish_simps [of r]
  by (cases "finish r") (auto simp: list_all_iff errs_def filter_empty_conv)

lemma honest_Errors: "honest r \<Longrightarrow> rb_Deployable (rp_body r) \<Longrightarrow> Errors r = []"
  by (induction r rule: Errors.induct) (auto simp: list_all_iff)

lemma honest_grown: "grows r r' \<Longrightarrow> rp_Children r = [] \<Longrightarrow> honest (finish r')"
  by (rule honest_finish) (auto simp: grows_def list_all_iff)

lemma newReport_Children [simp]: "rp_Children (newReport obj) = []"
  by (simp add: newReport_def Let_def)

end
