(* ===== verification/Verifier.thy ===== *)
theory Verifier
  imports Report
begin

text \<open>
  The verifier, \<open>pkg/verifier/verifier.go\<close> and \<open>extensions.go\<close>: recipes, plugins and blueprints are
  checked stage by stage against a catalog. Every function takes the report and returns it with
  what it adds. What is not Turgon's own code is a parameter (\<open>verify_env\<close>): whether a JSONata
  expression compiles, the digest of an expression, reading and loading a plugin's Wasm module,
  and OPA's compiler and test runner.
\<close>

record loaded_module =
  lm_World :: string
  lm_Imports :: "string list"

record verify_env =
  ve_Check :: "string \<Rightarrow> message option"
  ve_Digest :: "string \<Rightarrow> string"
  ve_PluginModule :: "plugin \<Rightarrow> goerror + string"
  ve_Load :: "string \<Rightarrow> plugin_limits \<Rightarrow> goerror + loaded_module"
  ve_Compile :: "(string \<times> string) list \<Rightarrow> goerror option"
  ve_Test :: "(string \<times> string) list \<Rightarrow> goerror + (string \<times> string) list \<times> nat"
  ve_DefinesWriteback :: "(string \<times> string) list \<Rightarrow> bool"

record verify_options =
  vo_ReviewThreshold :: rat
  vo_WriteReviewThreshold :: rat
  vo_CapacityHeadroom :: rat
  vo_Reviews :: reviews

definition withDefaults :: "verify_options \<Rightarrow> verify_options" where
  "withDefaults o0 =
     (let o1 = (if vo_ReviewThreshold o0 = 0 then o0\<lparr>vo_ReviewThreshold := fl (90 / 100)\<rparr> else o0);
          o2 = (if vo_WriteReviewThreshold o1 = 0 then o1\<lparr>vo_WriteReviewThreshold := fl (95 / 100)\<rparr> else o1)
      in if vo_CapacityHeadroom o2 = 0 then o2\<lparr>vo_CapacityHeadroom := fl (8 / 10)\<rparr> else o2)"

record verifier =
  vf_cat :: catalog
  vf_opts :: verify_options
  vf_env :: verify_env

definition New_verifier :: "catalog \<Rightarrow> verify_options \<Rightarrow> verify_env \<Rightarrow> verifier" where
  "New_verifier cat opts env = \<lparr>vf_cat = cat, vf_opts = withDefaults opts, vf_env = env\<rparr>"

definition schema :: "object \<Rightarrow> report \<Rightarrow> bool \<times> report" where
  "schema obj r =
     (let es = object_Validate obj;
          r1 = foldl (\<lambda>r e. rep_add StageSchema SeverityError (fe_Path e) ''%s'' [AErr (fe_Message e)] r) r es
      in (es = [], if es \<noteq> [] then rep_raise 3 r1 else r1))"

section \<open>Connections and plugins\<close>

definition verify_connection ::
  "verifier \<Rightarrow> connection \<Rightarrow> string \<Rightarrow> report \<Rightarrow> connector_manifest option \<times> report" where
  "verify_connection v c pin r =
     (case ParseRef (cn_Connector (co_Spec c)) of
        (name, con0) \<Rightarrow>
          let con = (if pin \<noteq> [] then pin else con0)
          in case cat_Connector (vf_cat v) name con of
               Inl e \<Rightarrow>
                 (None, rep_raise 3 (rep_add StageResolve SeverityError []
                    ''connection %s: %v; an engineer must build the connector with the SDK''
                    [AStr (om_Name (co_Metadata c)), AErr (text_of e)] r))
             | Inr m \<Rightarrow>
                 let es = ValidateEffective c m;
                     r1 = foldl (\<lambda>r e. rep_add StageInterfaces SeverityError (fe_Path e) ''%s'' [AErr (fe_Message e)] r) r es
                 in if es \<noteq> [] then (None, rep_raise 3 r1) else (Some (Effective c m), r1))"

definition riskRank :: "string \<Rightarrow> nat" where
  "riskRank r = (if r = RiskRead then 0 else if r = RiskLow then 1 else 2)"

definition fail_contract ::
  "string \<Rightarrow> slot_contract \<Rightarrow> connector_manifest \<Rightarrow> string \<Rightarrow> arg list \<Rightarrow> bool \<times> report \<Rightarrow> bool \<times> report" where
  "fail_contract path c m format args x =
     (False, rep_add StageContract SeverityError path (''%s does not satisfy contract %s@%s: '' @ format)
        ([AStr (om_Name (cm_Metadata m)), AStr (om_Name (sl_Metadata c)), AStr (om_Version (sl_Metadata c))] @ args) (snd x))"

definition check_action :: "string \<Rightarrow> slot_contract \<Rightarrow> connector_manifest \<Rightarrow> bool \<times> report \<Rightarrow> contract_action \<Rightarrow> bool \<times> report" where
  "check_action path c m x a =
     (case cm_Operation m (ca_Name a) of
        None \<Rightarrow> fail_contract path c m ''missing action %s'' [AStr (ca_Name a)] x
      | Some op \<Rightarrow>
          if (ca_Risk a = RiskRead) \<noteq> (op_Direction op = DirectionRead)
          then fail_contract path c m ''action %s is a %s in the contract but a %s on the connector''
                 [AStr (ca_Name a), AStr (ca_Risk a), AStr (op_Direction op)] x
          else if riskRank (op_Risk op) < riskRank (ca_Risk a)
          then fail_contract path c m ''action %s is %s risk in the contract but only %s on the connector''
                 [AStr (ca_Name a), AStr (ca_Risk a), AStr (op_Risk op)] x
          else x)"

definition satisfies :: "string \<Rightarrow> slot_contract \<Rightarrow> connector_manifest \<Rightarrow> report \<Rightarrow> bool \<times> report" where
  "satisfies path c m r =
     (let x1 = foldl (\<lambda>x e. if HasEntity m e then x else fail_contract path c m ''missing entity %s'' [AStr e] x)
                 (True, r) (sl_Entities c);
          x2 = foldl (\<lambda>x e. if cm_Event m e \<noteq> None then x else fail_contract path c m ''missing event %s'' [AStr e] x)
                 x1 (sl_Events c)
      in foldl (check_action path c m) x2 (sl_Actions c))"

definition World_0_1 :: string where "World_0_1 = ''turgon:stack/logic-plugin@0.1.0''"
definition World_0_2 :: string where "World_0_2 = ''turgon:stack/logic-plugin@0.2.0''"

definition Worlds :: "string list" where
  "Worlds = [World_0_1, World_0_2]"

definition granted_hosts :: "plugin \<Rightarrow> string list" where
  "granted_hosts p = (case pp_NetworkAllow (ps_Permissions (pg_Spec p)) of None \<Rightarrow> [] | Some hs \<Rightarrow> hs)"

definition logicPlugin :: "verifier \<Rightarrow> plugin \<Rightarrow> report \<Rightarrow> report" where
  "logicPlugin v p r =
     (let s = pg_Spec p
      in if ps_World s \<notin> set Worlds then
           rep_add StageContract SeverityError ''spec.world'' ''this Turgon runs logic plugins for %s, not %s''
             [AStr (Join Worlds '' or ''), AStr (ps_World s)] r
         else case ve_PluginModule (vf_env v) p of
           Inl e \<Rightarrow> rep_add StageResolve SeverityError ''spec.module'' ''%v'' [AErr (text_of e)] r
         | Inr b \<Rightarrow>
             (case ps_Limits s of
                None \<Rightarrow> rep_add StageContract SeverityError ''spec.limits'' ''panic: nil pointer dereference'' [] r
              | Some l \<Rightarrow>
                  (case ve_Load (vf_env v) b l of
                     Inl e \<Rightarrow> rep_add StageContract SeverityError ''spec.module'' ''%s: %v'' [AStr (ps_Module s), AErr (text_of e)] r
                   | Inr m \<Rightarrow>
                       if lm_World m \<noteq> [] \<and> lm_World m \<noteq> ps_World s then
                         rep_add StageContract SeverityError ''spec.world'' ''%s is built for %s, but the manifest says %s''
                           [AStr (ps_Module s), AStr (lm_World m), AStr (ps_World s)] r
                       else
                         let imports = (if lm_Imports m \<noteq> [] then Join (lm_Imports m) '', '' else ''nothing'');
                             r1 = rep_add StageContract SeverityInfo ''spec.module'' ''%s: %d KiB, imports %s''
                                    [AStr (ps_Module s), AInt (int ((length b + 1023) div 1024)), AStr imports] r
                         in if ps_World s = World_0_1 then
                              let r2 = (if granted_hosts p \<noteq> [] then
                                          rep_add StageContract SeverityWarning ''spec.permissions.network''
                                            ''%s offers no network access; this grant is unused (0.2.0 does)'' [AStr (ps_World s)] r1
                                        else r1)
                              in if pp_Secrets (ps_Permissions s) \<noteq> [] then
                                   rep_add StageContract SeverityWarning ''spec.permissions.secrets''
                                     ''%s offers no secrets; this grant is unused (0.2.0 does)'' [AStr (ps_World s)] r2
                                 else r2
                            else if granted_hosts p \<noteq> [] \<and> ''http.send'' \<notin> set (lm_Imports m) then
                              rep_add StageContract SeverityWarning ''spec.permissions.network''
                                ''the module makes no HTTP requests; this grant is unused'' [] r1
                            else r1)))"

definition implement_check :: "verifier \<Rightarrow> connector_manifest \<Rightarrow> report \<Rightarrow> string \<Rightarrow> report" where
  "implement_check v m r ref =
     (case cat_Contract (vf_cat v) ref of
        Inl e \<Rightarrow> rep_add StageResolve SeverityError ''spec.implements'' ''slot contract %q: %v'' [AStr ref, AErr (text_of e)] r
      | Inr c \<Rightarrow> snd (satisfies ''spec.implements'' c m r))"

definition verify_Plugin :: "verifier \<Rightarrow> plugin \<Rightarrow> report" where
  "verify_Plugin v p =
     (case schema (OPlugin p) (newReport (OPlugin p)) of
        (False, r) \<Rightarrow> finish r
      | (True, r) \<Rightarrow>
          let s = pg_Spec p;
              r1 = (if ps_Runtime s = PluginRuntimeWasm \<and> \<not> HasPrefix (ps_World s) ''turgon:stack/'' then
                      rep_add StageContract SeverityError ''spec.world'' ''wasm plugins must target a turgon:stack world, got %q''
                        [AStr (ps_World s)] r
                    else if ps_Type s = PluginLogic then logicPlugin v p r
                    else r)
          in if ps_Type s \<noteq> PluginConnector then finish r1
             else case ParseRef (ps_Connector s) of
               (name, con) \<Rightarrow>
                 (case cat_Connector (vf_cat v) name con of
                    Inl e \<Rightarrow> finish (rep_raise 3 (rep_add StageResolve SeverityError ''spec.connector'' ''%v'' [AErr (text_of e)] r1))
                  | Inr m \<Rightarrow> finish (foldl (implement_check v m) r1 (ps_Implements s))))"

section \<open>Policies and extensions\<close>

definition PolicyModules :: "policy_pack list \<Rightarrow> (string \<times> string) list" where
  "PolicyModules packs = map (\<lambda>p. (om_Name (pk_Metadata p), pk_Rego p)) packs"

definition checkPolicies :: "verifier \<Rightarrow> policy_pack list \<Rightarrow> bool \<Rightarrow> report \<Rightarrow> report" where
  "checkPolicies v packs hasWrites r =
     (if packs = [] then r
      else let mods = PolicyModules packs; path = ''spec.policies''
        in case ve_Compile (vf_env v) mods of
             Some e \<Rightarrow> rep_add StagePolicy SeverityError path ''policy packs do not compile: %v'' [AErr (text_of e)] r
           | None \<Rightarrow>
               (case ve_Test (vf_env v) mods of
                  Inl e \<Rightarrow> rep_add StagePolicy SeverityError path ''policy tests could not run: %v'' [AErr (text_of e)] r
                | Inr (fails, n) \<Rightarrow>
                    let r1 = foldl (\<lambda>r (name, msg). rep_add StagePolicy SeverityError path ''policy test %s: %s'' [AStr name, AStr msg] r) r fails;
                        r2 = (if 0 < n \<and> fails = [] then
                                rep_add StagePolicy SeverityInfo path ''%d policy test(s) passed'' [AInt (int n)] r1 else r1)
                    in if hasWrites \<and> \<not> ve_DefinesWriteback (vf_env v) mods then
                         rep_add StagePolicy SeverityWarning path
                           ''no policy pack defines package %s; writes use the built-in write-back default'' [AStr ''turgon.writeback''] r2
                       else r2))"

text \<open>The entity of an \<open>Entity\<close> or \<open>Entity.field\<close> reference.\<close>

definition ref_entity :: "string \<Rightarrow> string" where
  "ref_entity ref = fst (CutByte (CHR ''.'') ref)"

definition subscribed :: "string list \<Rightarrow> string list \<Rightarrow> string \<Rightarrow> bool" where
  "subscribed entities events ev =
     (case CutPrefix ev ''model.'' of
        Some rest \<Rightarrow>
          (case Split (CHR ''.'') rest of
             [e, k] \<Rightarrow> e \<in> set entities \<and> oneOf k [''created'', ''updated'', ''deleted'']
           | _ \<Rightarrow> False)
      | None \<Rightarrow> ev \<in> set events)"

definition checkExtension :: "string \<Rightarrow> plugin \<Rightarrow> string list \<Rightarrow> string list \<Rightarrow> report \<Rightarrow> report" where
  "checkExtension path p entities events r =
     (let name = om_Name (pg_Metadata p);
          refs = (case pp_Entities (ps_Permissions (pg_Spec p)) of None \<Rightarrow> [] | Some e \<Rightarrow> ep_Read e @ ep_Propose e);
          r1 = foldl (\<lambda>r ref. if ref_entity ref \<in> set entities then r
                 else rep_add StageContract SeverityError path ''%s asks for entity %s, which no slot in this stack provides''
                        [AStr name, AStr (ref_entity ref)] r) r refs
      in foldl (\<lambda>r ev. if subscribed entities events ev then r
           else rep_add StageContract SeverityError path ''%s subscribes to %s, which no slot in this stack emits''
                  [AStr name, AStr ev] r) r1 (ps_Subscribes (pg_Spec p)))"

definition kebab :: "string \<Rightarrow> string" where
  "kebab s = concat (map (\<lambda>(i, c). if is_upper c then (if 0 < i then ''-'' else []) @ [to_lower c] else [c]) (enumerate (0::nat) s))"

definition ReadOperation :: "string \<Rightarrow> string" where
  "ReadOperation entity = ''get-'' @ kebab entity"

definition ProposeOperation :: "string \<Rightarrow> string" where
  "ProposeOperation entity = ''update-'' @ kebab entity"

definition serves :: "(string \<times> connector_manifest) list \<Rightarrow> string \<Rightarrow> string \<Rightarrow> bool" where
  "serves conns op dir =
     list_ex (\<lambda>(n, m). case cm_Operation m op of None \<Rightarrow> False | Some opn \<Rightarrow> op_Direction opn = dir) conns"

text \<open>A warning for each entity no operation serves, once per entity.\<close>

fun warn_unserved ::
  "(string \<times> connector_manifest) list \<Rightarrow> string \<Rightarrow> string \<Rightarrow> (string \<Rightarrow> string) \<Rightarrow> string \<Rightarrow> string \<Rightarrow> string list \<Rightarrow> string list
     \<Rightarrow> report \<Rightarrow> report" where
  "warn_unserved conns path name opname dir format seen [] r = r"
| "warn_unserved conns path name opname dir format seen (ref # refs) r =
     (let en = ref_entity ref
      in if en \<notin> set seen \<and> \<not> serves conns (opname en) dir then
           warn_unserved conns path name opname dir format (en # seen) refs
             (rep_add StageContract SeverityWarning path format [AStr name, AStr en, AStr (opname en)] r)
         else warn_unserved conns path name opname dir format seen refs r)"

definition checkPluginOperations :: "string \<Rightarrow> plugin \<Rightarrow> (string \<times> connector_manifest) list \<Rightarrow> report \<Rightarrow> report" where
  "checkPluginOperations path p conns r =
     (let name = om_Name (pg_Metadata p);
          r1 = (case pp_Entities (ps_Permissions (pg_Spec p)) of
                  None \<Rightarrow> r
                | Some e \<Rightarrow>
                    warn_unserved conns path name ProposeOperation DirectionWrite
                      ''%s may propose changes to %s, but no connection or slot offers a %s operation: propose-change will answer invalid''
                      [] (ep_Propose e)
                      (warn_unserved conns path name ReadOperation DirectionRead
                        ''%s may read %s, but no connection or slot offers a %s operation: get will answer invalid''
                        [] (ep_Read e) r));
          other = filter (\<lambda>ev. \<not> HasPrefix ev ''model.'' \<and> \<not> HasPrefix ev ''plugin.'') (ps_Subscribes (pg_Spec p))
      in if other \<noteq> [] then
           rep_add StageContract SeverityWarning path
             ''%s subscribes to %s: plugins receive model lifecycle events (model.<Entity>.created|updated|deleted) and events other plugins publish (plugin.<name>.<topic>) only, for now''
             [AStr name, AStr (Join (sort other) '', '')] r1
         else r1)"

definition addPublished :: "plugin \<Rightarrow> string list \<Rightarrow> string list" where
  "addPublished p events =
     (case pp_EventsPublish (ps_Permissions (pg_Spec p)) of
        None \<Rightarrow> events
      | Some topics \<Rightarrow> events @ map (\<lambda>t. ''plugin.'' @ om_Name (pg_Metadata p) @ ''.'' @ t) topics)"

definition cat_PluginRef :: "catalog \<Rightarrow> string \<Rightarrow> goerror + plugin" where
  "cat_PluginRef c ref = (case ParseRef ref of (name, con) \<Rightarrow> cat_Plugin c name con)"

definition published_events :: "catalog \<Rightarrow> string list \<Rightarrow> string list \<Rightarrow> string list" where
  "published_events c refs events =
     foldl (\<lambda>evs ref. case cat_PluginRef c ref of Inl e \<Rightarrow> evs | Inr p \<Rightarrow> addPublished p evs) events refs"

definition extension_step ::
  "verifier \<Rightarrow> (string \<times> connector_manifest) list \<Rightarrow> string list \<Rightarrow> string list \<Rightarrow> report \<Rightarrow> nat \<times> string \<Rightarrow> report" where
  "extension_step v conns entities events r ix =
     (case ix of (i, ref) \<Rightarrow>
       let path = idx ''spec.extensions'' i
       in case cat_PluginRef (vf_cat v) ref of
            Inl e \<Rightarrow> rep_raise 3 (rep_add StageResolve SeverityError path ''%v'' [AErr (text_of e)] r)
          | Inr p \<Rightarrow>
              let r1 = upd_res (\<lambda>x. x\<lparr>res_Extensions := res_Extensions x @ [p]\<rparr>) (rep_child (verify_Plugin v p) r)
              in if ps_Type (pg_Spec p) \<noteq> PluginLogic then
                   rep_add StageContract SeverityError path ''a recipe's extensions are logic plugins; %s is a %s plugin''
                     [AStr (om_Name (pg_Metadata p)), AStr (ps_Type (pg_Spec p))] r1
                 else checkPluginOperations path p conns (checkExtension path p entities events r1))"

definition verify_extensions :: "verifier \<Rightarrow> string list \<Rightarrow> (string \<times> connector_manifest) list \<Rightarrow> report \<Rightarrow> report" where
  "verify_extensions v refs conns r =
     (let entities = concat (map (\<lambda>(n, m). cs_Entities (cm_Spec m)) conns);
          events = published_events (vf_cat v) refs (concat (map (\<lambda>(n, m). map ev_Name (cs_Events (cm_Spec m))) conns))
      in foldl (extension_step v conns entities events) r (enumerate 0 refs))"

end
