(* ===== verification/Verify_Recipe.thy ===== *)
theory Verify_Recipe
  imports Verifier
begin

text \<open>
  The verification of a recipe, \<open>recipe\<close>, \<open>writeStep\<close> and \<open>mapStep\<close> of
  \<open>pkg/verifier/verifier.go\<close>, stage by stage in the order of the code.
\<close>

definition find_conn :: "report \<Rightarrow> string \<Rightarrow> connector_manifest option" where
  "find_conn r ep = map_of (res_Connectors (rb_Resolution (rp_body r))) ep"

definition bind_conn :: "string \<Rightarrow> connector_manifest \<Rightarrow> report \<Rightarrow> report" where
  "bind_conn ep m r = upd_res (\<lambda>x. x\<lparr>res_Connectors := AList.update ep m (res_Connectors x)\<rparr>) r"

definition pinned :: "recipe \<Rightarrow> string \<Rightarrow> string" where
  "pinned rec ep = (case map_of (rs_Connectors (rc_Spec rec)) ep of None \<Rightarrow> [] | Some con \<Rightarrow> con)"

section \<open>Stage: resolve\<close>

definition resolve_endpoint ::
  "verifier \<Rightarrow> recipe \<Rightarrow> (string \<times> connector_manifest) list \<Rightarrow> report \<Rightarrow> string \<Rightarrow> report" where
  "resolve_endpoint v rec bound r ep =
     (case map_of bound ep of
        Some m \<Rightarrow> bind_conn ep m r
      | None \<Rightarrow>
          (case cat_Connection (vf_cat v) ep of
             Inr conn \<Rightarrow>
               (case verify_connection v conn (pinned rec ep) r of
                  (None, r1) \<Rightarrow> r1
                | (Some m, r1) \<Rightarrow>
                    upd_res (\<lambda>x. x\<lparr>res_Connections := AList.update ep conn (res_Connections x)\<rparr>) (bind_conn ep m r1))
           | Inl _ \<Rightarrow>
               (case cat_Connector (vf_cat v) ep (pinned rec ep) of
                  Inr m \<Rightarrow> bind_conn ep m r
                | Inl e \<Rightarrow>
                    (case cat_Contract (vf_cat v) ep of
                       Inr _ \<Rightarrow> rep_add StageResolve SeverityError []
                         ''%q is a stack slot, not a connector; verify this recipe within a StackBlueprint that fills the slot'' [AStr ep] r
                     | Inl _ \<Rightarrow> rep_raise 3 (rep_add StageResolve SeverityError []
                         ''no connector for %q in the catalog (%v); an engineer must build one with the connector SDK''
                         [AStr ep, AErr (text_of e)] r)))))"

definition warn_unused_pin :: "recipe \<Rightarrow> report \<Rightarrow> string \<Rightarrow> report" where
  "warn_unused_pin rec r name =
     (if name \<in> set (Endpoints rec) then r
      else rep_add StageResolve SeverityWarning (''spec.connectors.'' @ name) ''pinned connector %q is not used by any step'' [AStr name] r)"

definition hasWrites :: "recipe \<Rightarrow> bool" where
  "hasWrites rec = list_ex (\<lambda>s. st_Write s \<noteq> None) (rs_Steps (rc_Spec rec))"

section \<open>Stage: permitted interfaces\<close>

definition check_trigger :: "recipe \<Rightarrow> report \<Rightarrow> report" where
  "check_trigger rec r =
     (case find_conn r (rs_TriggerSource (rc_Spec rec)) of
        None \<Rightarrow> r
      | Some src \<Rightarrow>
          (case cm_Event src (rs_TriggerEvent (rc_Spec rec)) of
             None \<Rightarrow> rep_raise 2 (rep_add StageInterfaces SeverityError ''spec.trigger.event'' ''connector %s does not emit event %q''
               [AStr (om_Name (cm_Metadata src)), AStr (rs_TriggerEvent (rc_Spec rec))] r)
           | Some ev \<Rightarrow>
               (case Permitted src DirectionEvents (ev_Interface ev) of
                  Inl m \<Rightarrow> rep_raise 3 (rep_add StageInterfaces SeverityError ''spec.trigger.event'' ''%s: %v''
                    [AStr (om_Name (cm_Metadata src)), AErr m] r)
                | Inr _ \<Rightarrow> r)))"

definition check_amount_config :: "string \<Rightarrow> connector_manifest \<Rightarrow> interface \<Rightarrow> write_step \<Rightarrow> report \<Rightarrow> report" where
  "check_amount_config path m iface w r =
     (case wst_CheckAmount w of
        None \<Rightarrow> r
      | Some c \<Rightarrow>
          if if_Simulation iface = [] then
            rep_add StagePolicy SeverityError (path @ ''.write.checkAmount'')
              ''checking the amount needs the target's dry run, and %s interface %q cannot simulate writes''
              [AStr (om_Name (cm_Metadata m)), AStr (if_Kind iface)] r
          else if \<not> wst_Simulate w then
            rep_add StagePolicy SeverityError (path @ ''.write.checkAmount'')
              ''checking the amount needs the target's dry run: set simulate: true'' [] r
          else if TrimSpace (sac_Preview c) = [] then
            rep_add StagePolicy SeverityError (path @ ''.write.checkAmount.preview'')
              ''name where the dry run shows the amount, such as record.TotalNetAmount'' [] r
          else if sac_Tolerance c < 0 \<or> 1 \<le> sac_Tolerance c then
            rep_add StagePolicy SeverityError (path @ ''.write.checkAmount.tolerance'')
              ''the tolerance is a fraction of the amount, from 0 to below 1 (0.01 is 1%%), not %v'' [AFloat (sac_Tolerance c)] r
          else r)"

definition check_compensation :: "string \<Rightarrow> connector_manifest \<Rightarrow> operation \<Rightarrow> write_step \<Rightarrow> report \<Rightarrow> report" where
  "check_compensation path m op w r =
     (let undo = (if wst_Compensation w = [] then op_Compensation op else wst_Compensation w);
          p = path @ ''.write.compensation''
      in if undo = [] then
           rep_add StageInterfaces SeverityError p ''every write step must declare its undo action; %s.%s has none''
             [AStr (om_Name (cm_Metadata m)), AStr (op_Name op)] r
         else case cm_Operation m undo of
           None \<Rightarrow> rep_add StageInterfaces SeverityError p ''connector %s has no compensation operation %q''
             [AStr (om_Name (cm_Metadata m)), AStr undo] r
         | Some cop \<Rightarrow>
             if op_Direction cop \<noteq> DirectionWrite then
               rep_add StageInterfaces SeverityError p ''compensation %q must be a write operation'' [AStr undo] r
             else r)"

definition check_approval :: "string \<Rightarrow> connector_manifest \<Rightarrow> operation \<Rightarrow> write_step \<Rightarrow> report \<Rightarrow> report" where
  "check_approval path m op w r =
     (let approval = (if wst_Approval w = [] then ApprovalPolicy else wst_Approval w)
      in if op_Risk op = RiskHigh \<and> approval = ApprovalNone then
           rep_add StagePolicy SeverityError (path @ ''.write.approval'') ''%s.%s is a high-risk write and cannot disable approval''
             [AStr (om_Name (cm_Metadata m)), AStr (op_Name op)] r
         else r)"

definition verify_writeStep :: "string \<Rightarrow> write_step \<Rightarrow> string \<Rightarrow> report \<Rightarrow> report" where
  "verify_writeStep path w producing r =
     (case find_conn r (wst_Target w) of
        None \<Rightarrow> r
      | Some m \<Rightarrow>
          let p = path @ ''.write.operation''; mname = om_Name (cm_Metadata m)
          in case cm_Operation m (wst_Operation w) of
               None \<Rightarrow> rep_raise 3 (rep_add StageInterfaces SeverityError p ''connector %s has no operation %q''
                 [AStr mname, AStr (wst_Operation w)] r)
             | Some op \<Rightarrow>
                 if op_Direction op \<noteq> DirectionWrite then
                   rep_add StageInterfaces SeverityError p ''%s.%s is a read operation'' [AStr mname, AStr (op_Name op)] r
                 else case Permitted m DirectionWrite (op_Interface op) of
                   Inl e \<Rightarrow> rep_raise 3 (rep_add StageInterfaces SeverityError p ''%s.%s: %v''
                     [AStr mname, AStr (op_Name op), AErr e] r)
                 | Inr iface \<Rightarrow>
                     let r1 = (if wst_Simulate w \<and> if_Simulation iface = [] then
                                 rep_add StageInterfaces SeverityWarning (path @ ''.write.simulate'')
                                   ''%s interface %q cannot simulate writes; the dry-run needs a sandbox'' [AStr mname, AStr (if_Kind iface)] r
                               else r);
                         r2 = check_amount_config path m iface w r1;
                         r3 = (if producing \<noteq> [] \<and> op_Entity op \<noteq> [] \<and> op_Entity op \<noteq> producing then
                                 rep_raise 2 (rep_add StageInterfaces SeverityError p
                                   ''%s.%s expects %s but the preceding map step produces %s''
                                   [AStr mname, AStr (op_Name op), AStr (op_Entity op), AStr producing] r2)
                               else r2)
                     in check_approval path m op w (check_compensation path m op w r3))"

definition write_loop :: "report \<times> string \<Rightarrow> nat \<times> step \<Rightarrow> report \<times> string" where
  "write_loop x ix =
     (case (x, ix) of ((r, producing), (i, s)) \<Rightarrow>
        (case st_Map s of
           Some m \<Rightarrow> (r, TrimPrefix (mst_To m) ''model.'')
         | None \<Rightarrow>
             (case st_Write s of
                Some w \<Rightarrow> (verify_writeStep (idx ''spec.steps'' i) w producing r, producing)
              | None \<Rightarrow> (r, producing))))"

section \<open>Stage: mappings and identity resolution\<close>

definition review_field :: "verifier \<Rightarrow> string \<Rightarrow> string \<Rightarrow> rat \<Rightarrow> report \<Rightarrow> field_mapping \<Rightarrow> report" where
  "review_field v path ref threshold r f =
     (if fm_Approved f \<or> fm_Origin f = OriginCertified \<or> threshold \<le> fm_Confidence f then r
      else case Reviews_Find (ve_Digest (vf_env v)) (vo_Reviews (vf_opts v)) ref (fm_Target f) (fm_Expression f) of
        Some rv \<Rightarrow>
          if rv_Decision rv = ReviewApproved then
            rep_add StageMapping SeverityInfo (path @ ''.map'') ''%s.%s (confidence %.2f) approved by %s on %s''
              [AStr ref, AStr (fm_Target f), AFloat (fm_Confidence f), AStr (rv_Reviewer rv), AStr (rv_At rv)] r
          else
            rep_raise 2 (rep_add StageMapping SeverityError (path @ ''.map'') ''%s.%s was rejected by %s: %s; change the mapping''
              [AStr ref, AStr (fm_Target f), AStr (rv_Reviewer rv),
               AStr (if rv_Note rv = [] then ''no reason given'' else rv_Note rv)] r)
      | None \<Rightarrow>
          rep_add StageMapping SeverityReview (path @ ''.map'')
            ''%s.%s has confidence %.2f, below the %.2f threshold; it needs review''
            [AStr ref, AStr (fm_Target f), AFloat (fm_Confidence f), AFloat threshold]
            (upd_body (\<lambda>b. b\<lparr>rb_ReviewQueue := rb_ReviewQueue b @
               [\<lparr>ri_Mapping = ref, ri_Target = fm_Target f, ri_Expression = fm_Expression f, ri_Origin = fm_Origin f,
                 ri_Confidence = fm_Confidence f, ri_Rationale = fm_Rationale f\<rparr>]\<rparr>) r))"

definition check_expression :: "verifier \<Rightarrow> string \<Rightarrow> string \<Rightarrow> report \<Rightarrow> field_mapping \<Rightarrow> report" where
  "check_expression v path ref r f =
     (case ve_Check (vf_env v) (fm_Expression f) of
        None \<Rightarrow> r
      | Some e \<Rightarrow> rep_add StageMapping SeverityError (path @ ''.map'') ''%s.%s: invalid JSONata expression: %v''
          [AStr ref, AStr (fm_Target f), AErr e] r)"

definition verify_mapStep :: "verifier \<Rightarrow> string \<Rightarrow> map_step \<Rightarrow> rat \<Rightarrow> report \<Rightarrow> report" where
  "verify_mapStep v path s threshold r =
     (case cat_Mapping (vf_cat v) (mst_Mapping s) of
        Inl e \<Rightarrow> rep_raise 2 (rep_add StageMapping SeverityError (path @ ''.map.mapping'')
          ''mapping %q: %v; mappings must be confirmed in the console'' [AStr (mst_Mapping s), AErr (text_of e)] r)
      | Inr m \<Rightarrow>
          let r1 = upd_res (\<lambda>x. x\<lparr>res_Mappings := AList.update (mst_Mapping s) m (res_Mappings x)\<rparr>) r
          in if ma_From (mo_Spec m) \<noteq> mst_From s \<or> ma_To (mo_Spec m) \<noteq> mst_To s then
               rep_raise 2 (rep_add StageMapping SeverityError (path @ ''.map'')
                 ''mapping %s maps %s to %s, but the step needs %s to %s''
                 [AStr (mst_Mapping s), AStr (ma_From (mo_Spec m)), AStr (ma_To (mo_Spec m)), AStr (mst_From s), AStr (mst_To s)] r1)
             else
               let ref = om_Name (mo_Metadata m) @ ''@'' @ om_Version (mo_Metadata m);
                   r2 = foldl (check_expression v path ref) r1 (ma_Fields (mo_Spec m))
               in foldl (review_field v path ref threshold) r2 (ma_Fields (mo_Spec m)))"

definition lower_first :: "string \<Rightarrow> string" where
  "lower_first s = (case s of [] \<Rightarrow> [] | c # cs \<Rightarrow> to_lower c # cs)"

definition verify_strategy :: "string \<Rightarrow> resolve_step \<Rightarrow> report \<Rightarrow> report" where
  "verify_strategy path s r =
     (let r1 = (if rst_Strategy s = StrategyExact \<or> rst_Strategy s = StrategyProbabilistic then r
                else if rst_Strategy s = StrategySplink then
                  rep_add StageMapping SeverityInfo (path @ ''.resolve.strategy'')
                    ''matched by the Splink service (deploy/splink) the workers reach at TURGON_SPLINK_URL; without it, unmatched records go to a data steward'' [] r
                else rep_add StageMapping SeverityError (path @ ''.resolve.strategy'')
                    ''unknown identity-resolution strategy %q (want exact, probabilistic or splink)'' [AStr (rst_Strategy s)] r)
      in if rst_AutoMatchAbove s < fl (8 / 10) then
           rep_add StageMapping SeverityWarning (path @ ''.resolve.autoMatchAbove'')
             ''auto-matching above %.2f risks merging distinct records; ambiguous matches should go to a data steward''
             [AFloat (rst_AutoMatchAbove s)] r1
         else r1)"

text \<open>The fields a document has at a step, once a map step set them, and the mapping that did.\<close>

type_synonym doc_fields = "string list option \<times> string"

definition amount_field :: "string \<Rightarrow> write_step \<Rightarrow> report \<times> doc_fields \<Rightarrow> report \<times> doc_fields" where
  "amount_field path w x =
     (case x of (r, dfs, mapping) \<Rightarrow>
        (case dfs of
           None \<Rightarrow> (r, dfs, mapping)
         | Some fs \<Rightarrow>
             let r1 = (if wst_Amount w \<noteq> [] \<and> fst (CutByte (CHR ''.'') (wst_Amount w)) \<notin> set fs then
                         rep_add StagePolicy SeverityError (path @ ''.write.amount'')
                           ''the amount is read from %s, which mapping %s does not set: approval thresholds would see 0''
                           [AStr (wst_Amount w), AStr mapping] r
                       else r)
             in (r1, Some (if wst_Output w \<noteq> [] then wst_Output w # fs else fs), mapping)))"

definition resolve_field :: "string \<Rightarrow> resolve_step \<Rightarrow> report \<times> doc_fields \<Rightarrow> report \<times> doc_fields" where
  "resolve_field path s x =
     (case x of (r, dfs, mapping) \<Rightarrow>
        let entity = TrimPrefix (rst_Entity s) ''model.''; low = lower_first entity;
            ref = (if entity \<noteq> [] \<and> rst_Ref s = [] then low @ ''Ref'' else rst_Ref s);
            into = (if entity \<noteq> [] \<and> rst_Into s = [] then low @ ''Id'' else rst_Into s);
            r1 = (case dfs of
                    None \<Rightarrow> r
                  | Some fs \<Rightarrow>
                      if ref \<in> set fs then r
                      else rep_add StageMapping SeverityError (if rst_Ref s = [] then path @ ''.resolve'' else path @ ''.resolve.ref'')
                        ''resolve reads the source record's reference from %s, which mapping %s does not set; map it, or name the field with ref''
                        [AStr ref, AStr mapping] r)
        in (verify_strategy path s r1, map_option (\<lambda>fs. into # fs) dfs, mapping))"

definition map_field :: "verifier \<Rightarrow> rat \<Rightarrow> string \<Rightarrow> map_step \<Rightarrow> report \<times> doc_fields \<Rightarrow> report \<times> doc_fields" where
  "map_field v threshold path m x =
     (let r1 = verify_mapStep v path m threshold (fst x)
      in (r1, map_option (\<lambda>mo. map fm_Target (ma_Fields (mo_Spec mo)))
                (map_of (res_Mappings (rb_Resolution (rp_body r1))) (mst_Mapping m)), mst_Mapping m))"

definition later_fields :: "string \<Rightarrow> step \<Rightarrow> report \<times> doc_fields \<Rightarrow> report \<times> doc_fields" where
  "later_fields path s x =
     (let x1 = (case st_Write s of None \<Rightarrow> x | Some w \<Rightarrow> amount_field path w x)
      in (case st_Resolve s of None \<Rightarrow> x1 | Some rs \<Rightarrow> resolve_field path rs x1))"

definition mapping_loop :: "verifier \<Rightarrow> rat \<Rightarrow> report \<times> doc_fields \<Rightarrow> nat \<times> step \<Rightarrow> report \<times> doc_fields" where
  "mapping_loop v threshold x ix =
     (case ix of (i, s) \<Rightarrow>
        let path = idx ''spec.steps'' i
        in later_fields path s (case st_Map s of None \<Rightarrow> x | Some m \<Rightarrow> map_field v threshold path m x))"

section \<open>Stages: policy, capacity\<close>

definition resolve_policy :: "verifier \<Rightarrow> report \<Rightarrow> string \<Rightarrow> report" where
  "resolve_policy v r ref =
     (case cat_Policy (vf_cat v) ref of
        Inl e \<Rightarrow> rep_add StagePolicy SeverityError ''spec.policies'' ''policy pack %q: %v'' [AStr ref, AErr (text_of e)] r
      | Inr p \<Rightarrow> upd_res (\<lambda>x. x\<lparr>res_Policies := res_Policies x @ [p]\<rparr>) r)"

definition capacity_step :: "verifier \<Rightarrow> recipe \<Rightarrow> report \<Rightarrow> nat \<times> step \<Rightarrow> report" where
  "capacity_step v rec r ix =
     (case ix of (i, s) \<Rightarrow>
        (case st_Write s of
           None \<Rightarrow> r
         | Some w \<Rightarrow>
             (case find_conn r (wst_Target w) of
                None \<Rightarrow> r
              | Some m \<Rightarrow>
                  let path = idx ''spec.steps'' i @ ''.write''; limit = lim_RequestsPerSecond (cs_Limits (cm_Spec m));
                      mname = om_Name (cm_Metadata m)
                  in case rs_Capacity (rc_Spec rec) of
                       None \<Rightarrow> rep_add StageCapacity SeverityInfo path
                         ''no peak load declared; the rate governor will hold %s to %g requests/s'' [AStr mname, AFloat limit] r
                     | Some peak \<Rightarrow>
                         if limit < peak then
                           rep_add StageCapacity SeverityError path ''peak load %g/s exceeds %s's declared limit of %g requests/s''
                             [AFloat peak, AStr mname, AFloat limit] r
                         else if fl (limit * vo_CapacityHeadroom (vf_opts v)) < peak then
                           rep_add StageCapacity SeverityWarning path ''peak load %g/s leaves little headroom under %s's limit of %g requests/s''
                             [AFloat peak, AStr mname, AFloat limit] r
                         else r)))"

section \<open>Recipe\<close>

text \<open>The stages of \<open>recipe\<close> in order.\<close>

definition stage_resolve :: "verifier \<Rightarrow> recipe \<Rightarrow> (string \<times> connector_manifest) list \<Rightarrow> report \<Rightarrow> report" where
  "stage_resolve v rec bound r =
     (let r1 = (if om_Certification (rc_Metadata rec) \<noteq> LevelL0 then rep_raise 1 r else r)
      in foldl (resolve_endpoint v rec bound) r1 (Endpoints rec))"

definition stage_extensions :: "verifier \<Rightarrow> recipe \<Rightarrow> report \<Rightarrow> report" where
  "stage_extensions v rec r =
     (let r1 = verify_extensions v (rs_Extensions (rc_Spec rec)) (res_Connectors (rb_Resolution (rp_body r))) r
      in foldl (warn_unused_pin rec) r1 (map fst (rs_Connectors (rc_Spec rec))))"

definition stage_interfaces :: "recipe \<Rightarrow> report \<Rightarrow> report" where
  "stage_interfaces rec r = fst (foldl write_loop (check_trigger rec r, []) (enumerate 0 (rs_Steps (rc_Spec rec))))"

definition stage_mappings :: "verifier \<Rightarrow> recipe \<Rightarrow> report \<Rightarrow> report" where
  "stage_mappings v rec r =
     (let threshold = (if hasWrites rec then vo_WriteReviewThreshold (vf_opts v) else vo_ReviewThreshold (vf_opts v))
      in fst (foldl (mapping_loop v threshold) (r, None, []) (enumerate 0 (rs_Steps (rc_Spec rec)))))"

definition stage_policies :: "verifier \<Rightarrow> recipe \<Rightarrow> report \<Rightarrow> report" where
  "stage_policies v rec r =
     (let r1 = foldl (resolve_policy v) r (rs_Policies (rc_Spec rec));
          r2 = (if hasWrites rec \<and> rs_Policies (rc_Spec rec) = [] then
                  rep_add StagePolicy SeverityWarning ''spec.policies''
                    ''no policy packs referenced; writes fall back to the built-in write-back default'' [] r1
                else r1)
      in checkPolicies v (res_Policies (rb_Resolution (rp_body r2))) (hasWrites rec) r2)"

definition stage_capacity :: "verifier \<Rightarrow> recipe \<Rightarrow> report \<Rightarrow> report" where
  "stage_capacity v rec r = foldl (capacity_step v rec) r (enumerate 0 (rs_Steps (rc_Spec rec)))"

definition stage_dryrun :: "recipe \<Rightarrow> report \<Rightarrow> report" where
  "stage_dryrun rec r =
     (if hasWrites rec then
        rep_add StageDryRun SeverityInfo [] ''sample dry-run deferred to deployment (simulation or shadow mode)'' [] r
      else r)"

definition recipe_stages :: "verifier \<Rightarrow> recipe \<Rightarrow> (string \<times> connector_manifest) list \<Rightarrow> report \<Rightarrow> report" where
  "recipe_stages v rec bound r =
     stage_dryrun rec (stage_capacity v rec (stage_policies v rec (stage_mappings v rec
       (stage_interfaces rec (stage_extensions v rec (stage_resolve v rec bound r))))))"

definition verify_recipe :: "verifier \<Rightarrow> recipe \<Rightarrow> (string \<times> connector_manifest) list \<Rightarrow> report" where
  "verify_recipe v rec bound =
     (let r0 = upd_res (\<lambda>x. x\<lparr>res_Recipe := Some rec\<rparr>) (newReport (ORecipe rec))
      in case schema (ORecipe rec) r0 of
           (False, r) \<Rightarrow> finish r
         | (True, r) \<Rightarrow> finish (recipe_stages v rec bound r))"

definition verify_Recipe :: "verifier \<Rightarrow> recipe \<Rightarrow> report" where
  "verify_Recipe v rec = verify_recipe v rec []"

end
