(* ===== verification/Verify_Props.thy ===== *)
theory Verify_Props
  imports Verify_Recipe
begin

text \<open>
  What a verdict means. Every stage only adds findings (\<open>grows\<close>), so a report without errors at
  the end had none after any stage; from that the theorems read off what each stage checked. The
  main result: the writes of a deployable recipe go to permitted write operations, can be undone,
  and leave approval on where the risk is high.
\<close>

section \<open>Growth\<close>

lemma grows_I [intro]:
  "grows r r' \<Longrightarrow> grows r (rep_add st sev p f as r')" "grows r r' \<Longrightarrow> grows r (rep_raise l r')"
  "grows r r' \<Longrightarrow> grows r (upd_res g r')" "grows r r' \<Longrightarrow> honest c \<Longrightarrow> grows r (rep_child c r')"
  by (auto intro: grows_trans)

lemma errs_Nil_back: "grows r r' \<Longrightarrow> errs r' = [] \<Longrightarrow> errs r = []"
  using grows_error by blast

text \<open>The connectors a report is bound to.\<close>

abbreviation conns :: "report \<Rightarrow> (string \<times> connector_manifest) list" where
  "conns r \<equiv> res_Connectors (rb_Resolution (rp_body r))"

text \<open>A step that adds to a report and keeps its connectors.\<close>

definition adds :: "report \<Rightarrow> report \<Rightarrow> bool" where
  "adds r r' \<longleftrightarrow> grows r r' \<and> conns r' = conns r"

lemma adds_refl [simp]: "adds r r"
  by (simp add: adds_def)

lemma adds_trans: "adds r r' \<Longrightarrow> adds r' r'' \<Longrightarrow> adds r r''"
  by (auto simp: adds_def intro: grows_trans)

lemma adds_add: "adds r r' \<Longrightarrow> adds r (rep_add st sev p f as r')"
  by (auto simp: adds_def)

lemma adds_raise: "adds r r' \<Longrightarrow> adds r (rep_raise l r')"
  by (auto simp: adds_def)

lemma adds_res: "adds r r' \<Longrightarrow> (\<And>x. res_Connectors (g x) = res_Connectors x) \<Longrightarrow> adds r (upd_res g r')"
  by (auto simp: adds_def)

lemma adds_child: "adds r r' \<Longrightarrow> honest c \<Longrightarrow> adds r (rep_child c r')"
  by (auto simp: adds_def)

lemmas adds_I = adds_add adds_raise adds_res adds_child

lemma adds_foldl: "(\<And>x r. adds r (f r x)) \<Longrightarrow> adds r (foldl f r xs)"
  by (induction xs arbitrary: r) (auto intro: adds_trans)

lemma adds_grows: "adds r r' \<Longrightarrow> grows r r'"
  by (simp add: adds_def)

lemma adds_errs: "adds r r' \<Longrightarrow> errs r' = [] \<Longrightarrow> errs r = []"
  using adds_grows errs_Nil_back by blast

lemma grows_pr_foldl:
  assumes "\<And>x s. grows (pr s) (pr (f s x))"
  shows "grows (pr s) (pr (foldl f s xs))"
proof (induction xs arbitrary: s)
  case (Cons x xs)
  show ?case using grows_trans [OF assms Cons, of s x] by simp
qed simp

text \<open>No errors and nothing to review.\<close>

definition quiet :: "report \<Rightarrow> bool" where
  "quiet r \<longleftrightarrow> errs r = [] \<and> rb_ReviewQueue (rp_body r) = []"

lemma quiet_back: "grows r r' \<Longrightarrow> quiet r' \<Longrightarrow> quiet r"
  using errs_Nil_back [of r r'] by (auto simp: quiet_def grows_def)

lemma quiet_adds: "adds r r' \<Longrightarrow> quiet r' \<Longrightarrow> quiet r"
  using quiet_back adds_grows by blast

lemma quiet_errs: "quiet r \<Longrightarrow> errs r = []"
  by (simp add: quiet_def)

text \<open>In a loop that ends quietly, every round ended quietly, from a state that still had what every
  round keeps.\<close>

lemma foldl_round:
  assumes "\<And>x s. grows (pr s) (pr (f s x))" "\<And>x s. P s \<Longrightarrow> P (f s x)"
  shows "x \<in> set xs \<Longrightarrow> P s \<Longrightarrow> quiet (pr (foldl f s xs)) \<Longrightarrow> \<exists>s'. P s' \<and> quiet (pr (f s' x))"
proof (induction xs arbitrary: s)
  case Nil
  then show ?case by simp
next
  case (Cons y ys)
  show ?case
  proof (cases "x = y")
    case True
    have "grows (pr (f s y)) (pr (foldl f (f s y) ys))" by (rule grows_pr_foldl) (rule assms(1))
    then have "quiet (pr (f s y))" using Cons(4) quiet_back by simp
    then show ?thesis using True Cons(3) by blast
  next
    case False
    then show ?thesis using Cons(1) [of "f s y"] Cons(2-4) assms(2) [of s y] by simp
  qed
qed

section \<open>Stages add\<close>

text \<open>A loop that reports every violation of a list as an error.\<close>

lemma adds_report_all: "adds r (foldl (\<lambda>r e. rep_add st sev (p e) f (as e) r) r es)"
  by (rule adds_foldl) (simp add: adds_I)

lemma errs_report_all: "errs (foldl (\<lambda>r e. rep_add st SeverityError (p e) f (as e) r) r es) = [] \<longleftrightarrow> errs r = [] \<and> es = []"
  by (induction es arbitrary: r) auto

lemma adds_schema: "schema obj r = (b, r') \<Longrightarrow> adds r r'"
  by (auto simp: schema_def Let_def adds_report_all intro: adds_raise split: if_splits)

lemma schema_False: "schema obj r = (False, r') \<Longrightarrow> errs r' \<noteq> []"
  by (auto simp: schema_def Let_def errs_report_all)

lemma schema_True: "schema obj r = (True, r') \<Longrightarrow> object_Validate obj = [] \<and> r' = r"
  by (auto simp: schema_def Let_def)

lemma adds_verify_connection: "verify_connection v c pin r = (m, r') \<Longrightarrow> adds r r'"
  by (auto simp: verify_connection_def Let_def adds_report_all adds_I split: prod.splits sum.splits if_splits)

lemma verify_connection_None: "verify_connection v c pin r = (None, r') \<Longrightarrow> errs r' \<noteq> []"
  by (auto simp: verify_connection_def Let_def errs_report_all split: prod.splits sum.splits if_splits)

lemma adds_check_trigger: "adds r (check_trigger rec r)"
  by (auto simp: check_trigger_def adds_I split: option.splits sum.splits)

lemma adds_check_amount_config: "adds r' r \<Longrightarrow> adds r' (check_amount_config path m iface w r)"
  by (auto simp: check_amount_config_def adds_I split: option.splits)

lemma adds_check_compensation: "adds r' r \<Longrightarrow> adds r' (check_compensation path m op w r)"
  by (auto simp: check_compensation_def Let_def adds_I split: option.splits)

lemma adds_check_approval: "adds r' r \<Longrightarrow> adds r' (check_approval path m op w r)"
  by (auto simp: check_approval_def Let_def adds_I)

lemma adds_writeStep: "adds r (verify_writeStep path w producing r)"
  by (auto simp: verify_writeStep_def Let_def
      intro!: adds_check_approval adds_check_compensation adds_check_amount_config adds_I
      split: option.splits sum.splits if_splits)

lemma adds_write_loop: "adds (fst x) (fst (write_loop x ix))"
  by (auto simp: write_loop_def adds_writeStep split: prod.splits option.splits)

lemma adds_review_field: "adds r (review_field v path ref threshold r f)"
proof -
  have "adds r (upd_body (\<lambda>b. b\<lparr>rb_ReviewQueue := rb_ReviewQueue b @ xs\<rparr>) r)" for xs
    by (auto simp: adds_def grows_def)
  then show ?thesis by (auto simp: review_field_def adds_I split: option.splits)
qed

lemma adds_check_expression: "adds r (check_expression v path ref r f)"
  by (auto simp: check_expression_def adds_I split: option.splits)

lemma adds_mapStep: "adds r (verify_mapStep v path s threshold r)"
proof -
  have loops: "adds r1 (foldl (review_field v path ref threshold) (foldl (check_expression v path ref) r1 fs) fs)" for r1 ref fs
    by (rule adds_trans [OF adds_foldl adds_foldl]) (rule adds_check_expression adds_review_field)+
  show ?thesis
    by (auto simp: verify_mapStep_def Let_def adds_I intro!: adds_trans [OF _ loops] split: sum.splits)
qed

lemma adds_verify_strategy: "adds r' r \<Longrightarrow> adds r' (verify_strategy path s r)"
  by (auto simp: verify_strategy_def Let_def adds_I)

lemma adds_resolve_field: "adds (fst x) (fst (resolve_field path s x))"
  by (auto simp: resolve_field_def Let_def intro!: adds_verify_strategy adds_I split: prod.splits option.splits)

lemma adds_later_fields: "adds (fst x) (fst (later_fields path s x))"
proof -
  have amount: "adds (fst x) (fst (amount_field path w x))" for w
    by (auto simp: amount_field_def Let_def adds_I split: prod.splits option.splits)
  show ?thesis
    by (cases "st_Write s"; cases "st_Resolve s")
      (auto simp: later_fields_def amount intro: adds_resolve_field adds_trans [OF amount adds_resolve_field])
qed

lemma adds_mapping_loop: "adds (fst x) (fst (mapping_loop v threshold x ix))"
proof -
  obtain i s where ix: "ix = (i, s)" by (cases ix)
  show ?thesis
    by (cases "st_Map s")
      (auto simp: mapping_loop_def ix map_field_def Let_def adds_later_fields intro: adds_trans [OF adds_mapStep adds_later_fields [of "(_, _)", simplified]])
qed

lemma adds_fst_foldl: "(\<And>x y. adds (fst x) (fst (f x y))) \<Longrightarrow> adds (fst x) (fst (foldl f x ys))"
proof (induction ys arbitrary: x)
  case (Cons y ys)
  then show ?case using adds_trans [of "fst x" "fst (f x y)"] by simp
qed simp

lemma adds_checkPolicies: "adds r (checkPolicies v packs hw r)"
proof -
  have "adds r (foldl (\<lambda>r (name, msg). rep_add StagePolicy SeverityError p f [AStr name, AStr msg] r) r fails)" for p f fails
    by (rule adds_foldl) (simp add: adds_I split: prod.splits)
  then show ?thesis by (auto simp: checkPolicies_def Let_def intro!: adds_I split: option.splits sum.splits prod.splits)
qed

lemma adds_checkExtension: "adds r (checkExtension path p es evs r)"
proof -
  have one: "adds r (foldl (\<lambda>r x. if P x then r else rep_add st sev pth fmt (as x) r) r xs)" for P st sev pth fmt as xs r
    by (rule adds_foldl) (simp add: adds_I)
  show ?thesis unfolding checkExtension_def Let_def by (rule adds_trans [OF one one])
qed

lemma adds_warn_unserved: "adds r (warn_unserved cs path name opname dir format seen refs r)"
  by (induction cs path name opname dir format seen refs r rule: warn_unserved.induct)
    (auto simp: Let_def intro: adds_trans [OF adds_add [OF adds_refl]])

lemma adds_checkPluginOperations: "adds r (checkPluginOperations path p cs r)"
  by (auto simp: checkPluginOperations_def Let_def intro!: adds_I intro: adds_trans [OF adds_warn_unserved adds_warn_unserved]
      split: option.splits)

lemma adds_snd_foldl: "(\<And>x y. adds (snd x) (snd (f x y))) \<Longrightarrow> adds (snd x) (snd (foldl f x ys))"
proof (induction ys arbitrary: x)
  case (Cons y ys)
  then show ?case using adds_trans [of "snd x" "snd (f x y)"] by simp
qed simp

lemma adds_satisfies: "adds r (snd (satisfies path c m r))"
proof -
  have fail: "adds (snd x) (snd (fail_contract path c m f as x))" for f as x by (simp add: fail_contract_def adds_I)
  have one: "adds (snd x) (snd (foldl (\<lambda>x e. if P e then x else fail_contract path c m f (as e) x) x es))" for P f as x es
    by (rule adds_snd_foldl) (simp add: fail)
  have act: "adds (snd x) (snd (foldl (check_action path c m) x as))" for x as
    by (rule adds_snd_foldl) (auto simp: check_action_def fail split: option.splits)
  have "adds (snd (True, r)) (snd (satisfies path c m r))"
    unfolding satisfies_def Let_def by (rule adds_trans [OF adds_trans [OF one one] act])
  then show ?thesis by simp
qed

lemma verify_Plugin_honest: "honest (verify_Plugin v p)"
proof -
  have logic: "adds r (logicPlugin v p r)" for r
    by (auto simp: logicPlugin_def Let_def adds_I split: sum.splits option.splits)
  have impl: "adds r (foldl (implement_check v m) r refs)" for r m refs
    by (rule adds_foldl) (auto simp: implement_check_def adds_I adds_satisfies split: sum.splits)
  obtain b r where sc: "schema (OPlugin p) (newReport (OPlugin p)) = (b, r)"
    by (cases "schema (OPlugin p) (newReport (OPlugin p))")
  have r: "adds (newReport (OPlugin p)) r" by (rule adds_schema [OF sc])
  have fin: "honest (finish r')" if "adds (newReport (OPlugin p)) r'" for r'
    by (rule honest_grown [OF adds_grows [OF that]]) simp
  show ?thesis
  proof (cases b)
    case True
    define r1 where "r1 = (if ps_Runtime (pg_Spec p) = PluginRuntimeWasm \<and> \<not> HasPrefix (ps_World (pg_Spec p)) ''turgon:stack/'' then
        rep_add StageContract SeverityError ''spec.world'' ''wasm plugins must target a turgon:stack world, got %q''
          [AStr (ps_World (pg_Spec p))] r
      else if ps_Type (pg_Spec p) = PluginLogic then logicPlugin v p r else r)"
    have r1: "adds (newReport (OPlugin p)) r1" unfolding r1_def using r by (auto simp: adds_I intro: adds_trans [OF _ logic])
    have "verify_Plugin v p = (if ps_Type (pg_Spec p) \<noteq> PluginConnector then finish r1
        else case cat_Connector (vf_cat v) (fst (ParseRef (ps_Connector (pg_Spec p)))) (snd (ParseRef (ps_Connector (pg_Spec p)))) of
          Inl e \<Rightarrow> finish (rep_raise 3 (rep_add StageResolve SeverityError ''spec.connector'' ''%v'' [AErr (text_of e)] r1))
        | Inr m \<Rightarrow> finish (foldl (implement_check v m) r1 (ps_Implements (pg_Spec p))))"
      using sc True by (simp only: verify_Plugin_def prod.case bool.case Let_def r1_def case_prod_beta fst_conv snd_conv if_True)
    then show ?thesis by (auto intro!: fin adds_I r1 adds_trans [OF r1 impl] split: sum.splits)
  next
    case False
    then show ?thesis using sc fin [OF r] by (simp add: verify_Plugin_def)
  qed
qed

lemma adds_extension_step: "adds r (extension_step v cs es evs r ix)"
  by (auto simp: extension_step_def Let_def adds_I verify_Plugin_honest
      intro!: adds_trans [OF _ adds_checkPluginOperations] adds_trans [OF _ adds_checkExtension] split: prod.splits sum.splits)

lemma adds_stages:
  "adds r (stage_extensions v rec r)" "adds r (stage_interfaces rec r)" "adds r (stage_mappings v rec r)"
  "adds r (stage_policies v rec r)" "adds r (stage_capacity v rec r)" "adds r (stage_dryrun rec r)"
proof -
  have "adds r (verify_extensions v refs cs r)" for refs cs r
    unfolding verify_extensions_def Let_def by (rule adds_foldl) (rule adds_extension_step)
  moreover have "adds r (foldl (warn_unused_pin rec) r ns)" for ns r
    by (rule adds_foldl) (simp add: warn_unused_pin_def adds_I)
  ultimately show "adds r (stage_extensions v rec r)" unfolding stage_extensions_def Let_def by (metis adds_trans)
  have "adds (fst x) (fst (foldl write_loop x ss))" for x ss by (rule adds_fst_foldl) (rule adds_write_loop)
  from this [of "(check_trigger rec r, [])"] show "adds r (stage_interfaces rec r)"
    unfolding stage_interfaces_def using adds_check_trigger adds_trans by fastforce
  have "adds (fst x) (fst (foldl (mapping_loop v th) x ss))" for x ss th by (rule adds_fst_foldl) (rule adds_mapping_loop)
  from this [of "(r, None, [])"] show "adds r (stage_mappings v rec r)" unfolding stage_mappings_def Let_def by simp
  have pol: "adds r (foldl (resolve_policy v) r refs)" for r refs
    by (rule adds_foldl) (auto simp: resolve_policy_def adds_I split: sum.splits)
  show "adds r (stage_policies v rec r)" unfolding stage_policies_def Let_def
    by (rule adds_trans [OF _ adds_checkPolicies]) (simp add: pol adds_I)
  show "adds r (stage_capacity v rec r)" unfolding stage_capacity_def
    by (rule adds_foldl) (auto simp: capacity_step_def Let_def adds_I split: prod.splits option.splits)
  show "adds r (stage_dryrun rec r)" by (simp add: stage_dryrun_def adds_I)
qed

section \<open>What the stages check\<close>

lemma find_conn_bind: "find_conn (bind_conn ep m r) x = (if x = ep then Some m else find_conn r x)"
  by (simp add: find_conn_def bind_conn_def update_conv')

lemma find_conn_adds: "adds r r' \<Longrightarrow> find_conn r' ep = find_conn r ep"
  by (simp add: adds_def find_conn_def)

lemma bind_conn_errs [simp]: "errs (bind_conn ep m r) = errs r"
  by (simp add: bind_conn_def)

lemma grows_resolve_endpoint: "grows r (resolve_endpoint v rec bound r ep)"
  by (auto simp: resolve_endpoint_def bind_conn_def split: option.splits sum.splits prod.splits
      dest!: adds_verify_connection adds_grows)

lemma resolve_endpoint_conn:
  assumes "errs (resolve_endpoint v rec bound r ep) = []"
  shows "find_conn (resolve_endpoint v rec bound r ep) ep \<noteq> None
    \<and> (find_conn r ep' \<noteq> None \<longrightarrow> find_conn (resolve_endpoint v rec bound r ep) ep' \<noteq> None)"
proof (cases "map_of bound ep")
  case (Some m)
  then show ?thesis by (simp add: resolve_endpoint_def find_conn_bind)
next
  case None
  note unbound = None
  show ?thesis
  proof (cases "cat_Connection (vf_cat v) ep")
    case (Inl e)
    then show ?thesis using assms unbound
      by (auto simp: resolve_endpoint_def find_conn_bind split: sum.splits)
  next
    case (Inr conn)
    obtain mo r1 where c: "verify_connection v conn (pinned rec ep) r = (mo, r1)"
      by (cases "verify_connection v conn (pinned rec ep) r")
    have keep: "find_conn r1 x = find_conn r x" for x using find_conn_adds [OF adds_verify_connection [OF c]] .
    have skip: "find_conn (upd_res (\<lambda>x. x\<lparr>res_Connections := y x\<rparr>) q) z = find_conn q z" for y q z
      by (simp add: find_conn_def)
    show ?thesis
      using assms unbound Inr c verify_connection_None [of v conn "pinned rec ep" r r1]
      by (cases mo) (auto simp: resolve_endpoint_def find_conn_bind keep skip)
  qed
qed

lemma stage_resolve_conn:
  assumes "errs (stage_resolve v rec bound r) = []" "ep \<in> set (Endpoints rec)"
  shows "find_conn (stage_resolve v rec bound r) ep \<noteq> None"
proof -
  have "errs (foldl (resolve_endpoint v rec bound) r1 eps) = [] \<Longrightarrow> ep \<in> set eps \<Longrightarrow>
      find_conn (foldl (resolve_endpoint v rec bound) r1 eps) ep \<noteq> None" for r1 eps
  proof (induction eps rule: rev_induct)
    case (snoc x xs)
    then show ?case
      using resolve_endpoint_conn [of v rec bound "foldl (resolve_endpoint v rec bound) r1 xs" x ep]
        errs_Nil_back [OF grows_resolve_endpoint] by auto
  qed simp
  with assms show ?thesis by (auto simp: stage_resolve_def Let_def)
qed

text \<open>What must hold of a write step against the manifest it is bound to.\<close>

definition write_ok :: "connector_manifest \<Rightarrow> write_step \<Rightarrow> bool" where
  "write_ok m w \<longleftrightarrow>
     (\<exists>op iface undo. cm_Operation m (wst_Operation w) = Some op \<and> op_Direction op = DirectionWrite
        \<and> Permitted m DirectionWrite (op_Interface op) = Inr iface
        \<and> cm_Operation m (if wst_Compensation w = [] then op_Compensation op else wst_Compensation w) = Some undo
        \<and> op_Direction undo = DirectionWrite
        \<and> (op_Risk op = RiskHigh \<longrightarrow> wst_Approval w \<noteq> ApprovalNone)
        \<and> (wst_CheckAmount w \<noteq> None \<longrightarrow> wst_Simulate w \<and> if_Simulation iface \<noteq> []))"

lemma errs_check_approval: "errs (check_approval path m op w r) = [] \<Longrightarrow>
    errs r = [] \<and> (op_Risk op = RiskHigh \<longrightarrow> wst_Approval w \<noteq> ApprovalNone)"
  by (auto simp: check_approval_def Let_def recipe_consts split: if_splits)

lemma errs_check_compensation: "errs (check_compensation path m op w r) = [] \<Longrightarrow>
    errs r = [] \<and> (\<exists>undo. cm_Operation m (if wst_Compensation w = [] then op_Compensation op else wst_Compensation w) = Some undo
      \<and> op_Direction undo = DirectionWrite)"
  by (auto simp: check_compensation_def Let_def split: if_splits option.splits)

lemma errs_check_amount_config: "errs (check_amount_config path m iface w r) = [] \<Longrightarrow>
    errs r = [] \<and> (wst_CheckAmount w \<noteq> None \<longrightarrow> wst_Simulate w \<and> if_Simulation iface \<noteq> [])"
  by (auto simp: check_amount_config_def split: if_splits option.splits)

lemma verify_writeStep_ok:
  assumes "errs (verify_writeStep path w producing r) = []" "find_conn r (wst_Target w) = Some m"
  shows "write_ok m w"
proof -
  obtain op where op: "cm_Operation m (wst_Operation w) = Some op" "op_Direction op = DirectionWrite"
    using assms by (auto simp: verify_writeStep_def Let_def split: option.splits if_splits)
  obtain iface where iface: "Permitted m DirectionWrite (op_Interface op) = Inr iface"
    using assms op by (auto simp: verify_writeStep_def Let_def split: sum.splits)
  show ?thesis
    using assms op iface
    by (auto simp: verify_writeStep_def write_ok_def Let_def split: if_splits
        dest!: errs_check_approval errs_check_compensation errs_check_amount_config)
qed

lemma stage_interfaces_ok:
  assumes "quiet (stage_interfaces rec r)" "s \<in> set (rs_Steps (rc_Spec rec))" "st_Write s = Some w" "st_Map s = None"
    and "find_conn r (wst_Target w) = Some m"
  shows "write_ok m w"
proof -
  obtain i where ix: "(i, s) \<in> set (enumerate 0 (rs_Steps (rc_Spec rec)))"
    using enumerate_mem [OF assms(2)] by blast
  let ?P = "\<lambda>x :: report \<times> string. find_conn (fst x) (wst_Target w) = Some m"
  have "\<exists>x'. ?P x' \<and> quiet (fst (write_loop x' (i, s)))"
  proof (rule foldl_round [where pr = fst and P = ?P, OF _ _ ix])
    show "grows (fst x) (fst (write_loop x y))" for x y by (rule adds_grows [OF adds_write_loop])
    show "?P (write_loop x y)" if "?P x" for x y using that find_conn_adds [OF adds_write_loop [of x y]] by simp
    show "?P (check_trigger rec r, [])" using assms(5) find_conn_adds [OF adds_check_trigger] by simp
    show "quiet (fst (foldl write_loop (check_trigger rec r, []) (enumerate 0 (rs_Steps (rc_Spec rec)))))"
      using assms(1) by (simp add: stage_interfaces_def)
  qed
  then obtain r' producing where "find_conn r' (wst_Target w) = Some m"
    "errs (verify_writeStep (idx ''spec.steps'' i) w producing r') = []"
    using assms(3,4) by (auto simp: write_loop_def quiet_def)
  then show ?thesis using verify_writeStep_ok by blast
qed

lemma capacity_ok:
  assumes "quiet (stage_capacity v rec r)" "s \<in> set (rs_Steps (rc_Spec rec))" "st_Write s = Some w"
    and "find_conn r (wst_Target w) = Some m" "rs_Capacity (rc_Spec rec) = Some peak"
  shows "peak \<le> lim_RequestsPerSecond (cs_Limits (cm_Spec m))"
proof -
  obtain i where ix: "(i, s) \<in> set (enumerate 0 (rs_Steps (rc_Spec rec)))"
    using enumerate_mem [OF assms(2)] by blast
  have adds: "adds q (capacity_step v rec q y)" for q y
    by (auto simp: capacity_step_def Let_def adds_I split: prod.splits option.splits)
  let ?P = "\<lambda>x. find_conn x (wst_Target w) = Some m"
  have "\<exists>x'. ?P x' \<and> quiet (capacity_step v rec x' (i, s))"
  proof (rule foldl_round [where pr = "\<lambda>x. x" and P = ?P, OF _ _ ix])
    show "grows x (capacity_step v rec x y)" for x y by (rule adds_grows [OF adds])
    show "?P (capacity_step v rec x y)" if "?P x" for x y using that find_conn_adds [OF adds] by simp
    show "?P r" by (rule assms(4))
    show "quiet (foldl (capacity_step v rec) r (enumerate 0 (rs_Steps (rc_Spec rec))))"
      using assms(1) by (simp add: stage_capacity_def)
  qed
  then show ?thesis using assms(3,5) by (auto simp: capacity_step_def quiet_def Let_def split: if_splits)
qed

section \<open>Deployable recipes\<close>

text \<open>A deployable recipe passed the schema and every stage without errors, and the connectors of its
  report are those the endpoints were bound to.\<close>

lemma deployable_stages:
  assumes "rb_Deployable (rp_body (verify_recipe v rec bound))"
  obtains r1 where "Recipe_Validate rec = []"
    "errs (stage_resolve v rec bound (upd_res (\<lambda>x. x\<lparr>res_Recipe := Some rec\<rparr>) (newReport (ORecipe rec)))) = []"
    "r1 = stage_extensions v rec (stage_resolve v rec bound (upd_res (\<lambda>x. x\<lparr>res_Recipe := Some rec\<rparr>) (newReport (ORecipe rec))))"
    "quiet (stage_interfaces rec r1)" "quiet (stage_mappings v rec (stage_interfaces rec r1))"
    "quiet (stage_capacity v rec (stage_policies v rec (stage_mappings v rec (stage_interfaces rec r1))))"
    "conns (verify_recipe v rec bound) = conns r1"
proof -
  let ?r0 = "upd_res (\<lambda>x. x\<lparr>res_Recipe := Some rec\<rparr>) (newReport (ORecipe rec))"
  obtain b r where sc: "schema (ORecipe rec) ?r0 = (b, r)" by (cases "schema (ORecipe rec) ?r0")
  have b: "b = True"
    using assms schema_False [of "ORecipe rec" ?r0 r] sc
    by (cases b) (auto simp: verify_recipe_def finish_Deployable)
  then have ok: "Recipe_Validate rec = []" "r = ?r0" using schema_True [of "ORecipe rec" ?r0 r] sc by auto
  define r1 where "r1 = stage_extensions v rec (stage_resolve v rec bound ?r0)"
  define r2 where "r2 = stage_interfaces rec r1"
  define r3 where "r3 = stage_mappings v rec r2"
  define r4 where "r4 = stage_policies v rec r3"
  define r5 where "r5 = stage_capacity v rec r4"
  have vr: "verify_recipe v rec bound = finish (stage_dryrun rec r5)"
    using sc b ok by (simp add: verify_recipe_def recipe_stages_def r1_def r2_def r3_def r4_def r5_def)
  have q6: "quiet (stage_dryrun rec r5)" using assms unfolding vr finish_Deployable quiet_def by auto
  note ad = adds_stages(6) [of r5 rec] adds_stages(5) [of r4 v rec, folded r5_def] adds_stages(4) [of r3 v rec, folded r4_def]
    adds_stages(3) [of r2 v rec, folded r3_def] adds_stages(2) [of r1 rec, folded r2_def]
    adds_stages(1) [of "stage_resolve v rec bound ?r0" v rec, folded r1_def]
  have q5: "quiet r5" by (rule quiet_adds [OF ad(1) q6])
  have q4: "quiet r4" by (rule quiet_adds [OF ad(2) q5])
  have q3: "quiet r3" by (rule quiet_adds [OF ad(3) q4])
  have q2: "quiet r2" by (rule quiet_adds [OF ad(4) q3])
  have q0: "quiet (stage_resolve v rec bound ?r0)" by (rule quiet_adds [OF ad(6) quiet_adds [OF ad(5) q2]])
  have "conns (verify_recipe v rec bound) = conns r1"
    using ad(1-5) unfolding vr by (simp add: adds_def)
  then show thesis
    using that [of r1] ok(1) quiet_errs [OF q0] q2 q3 q5 unfolding r1_def r2_def r3_def r4_def r5_def by blast
qed

lemma verify_recipe_honest: "honest (verify_recipe v rec bound)"
proof -
  let ?r0 = "upd_res (\<lambda>x. x\<lparr>res_Recipe := Some rec\<rparr>) (newReport (ORecipe rec))"
  obtain b r where sc: "schema (ORecipe rec) ?r0 = (b, r)" by (cases "schema (ORecipe rec) ?r0")
  have r: "grows ?r0 r" by (rule adds_grows [OF adds_schema [OF sc]])
  have "grows r (stage_resolve v rec bound r)"
    unfolding stage_resolve_def Let_def
    by (rule grows_trans [OF _ grows_foldl [OF grows_resolve_endpoint]]) simp
  moreover have "grows r1 (stage_dryrun rec (stage_capacity v rec (stage_policies v rec (stage_mappings v rec
      (stage_interfaces rec (stage_extensions v rec r1))))))" for r1
    by (rule adds_grows) (intro adds_trans [OF _ adds_stages(6)] adds_trans [OF _ adds_stages(5)] adds_trans [OF _ adds_stages(4)]
        adds_trans [OF _ adds_stages(3)] adds_trans [OF _ adds_stages(2)] adds_stages(1))
  ultimately have "grows ?r0 (recipe_stages v rec bound r)" unfolding recipe_stages_def by (metis grows_trans r)
  then show ?thesis using sc r by (cases b) (auto simp: verify_recipe_def intro: honest_grown)
qed

section \<open>Mappings\<close>

text \<open>A field that may be deployed: its expression compiles and it was approved, certified, confident
  enough, or a person approved this very expression in review.\<close>

definition field_ok :: "verifier \<Rightarrow> string \<Rightarrow> rat \<Rightarrow> field_mapping \<Rightarrow> bool" where
  "field_ok v ref threshold f \<longleftrightarrow>
     ve_Check (vf_env v) (fm_Expression f) = None
     \<and> (fm_Approved f \<or> fm_Origin f = OriginCertified \<or> threshold \<le> fm_Confidence f
        \<or> (\<exists>rv. Reviews_Find (ve_Digest (vf_env v)) (vo_Reviews (vf_opts v)) ref (fm_Target f) (fm_Expression f) = Some rv
             \<and> rv_Decision rv = ReviewApproved))"

lemma review_field_quiet: "quiet (review_field v path ref th r f) \<Longrightarrow>
    fm_Approved f \<or> fm_Origin f = OriginCertified \<or> th \<le> fm_Confidence f
    \<or> (\<exists>rv. Reviews_Find (ve_Digest (vf_env v)) (vo_Reviews (vf_opts v)) ref (fm_Target f) (fm_Expression f) = Some rv
         \<and> rv_Decision rv = ReviewApproved)"
  by (auto simp: review_field_def quiet_def split: if_splits option.splits)

lemma check_expression_quiet: "quiet (check_expression v path ref r f) \<Longrightarrow> ve_Check (vf_env v) (fm_Expression f) = None"
  by (auto simp: check_expression_def quiet_def split: option.splits)

lemma verify_mapStep_ok:
  assumes "quiet (verify_mapStep v path s threshold r)"
  shows "\<exists>m. cat_Mapping (vf_cat v) (mst_Mapping s) = Inr m \<and> ma_From (mo_Spec m) = mst_From s \<and> ma_To (mo_Spec m) = mst_To s
    \<and> list_all (field_ok v (om_Name (mo_Metadata m) @ ''@'' @ om_Version (mo_Metadata m)) threshold) (ma_Fields (mo_Spec m))"
proof -
  obtain m where m: "cat_Mapping (vf_cat v) (mst_Mapping s) = Inr m"
    using assms by (auto simp: verify_mapStep_def quiet_def split: sum.splits)
  have ft: "ma_From (mo_Spec m) = mst_From s" "ma_To (mo_Spec m) = mst_To s"
    using assms m by (auto simp: verify_mapStep_def quiet_def Let_def split: if_splits)
  let ?ref = "om_Name (mo_Metadata m) @ ''@'' @ om_Version (mo_Metadata m)"
  define r1 where "r1 = upd_res (\<lambda>x. x\<lparr>res_Mappings := AList.update (mst_Mapping s) m (res_Mappings x)\<rparr>) r"
  define r2 where "r2 = foldl (check_expression v path ?ref) r1 (ma_Fields (mo_Spec m))"
  have q: "quiet (foldl (review_field v path ?ref threshold) r2 (ma_Fields (mo_Spec m)))"
    using assms m ft by (simp add: verify_mapStep_def r1_def r2_def Let_def)
  have "adds r2 (foldl (review_field v path ?ref threshold) r2 (ma_Fields (mo_Spec m)))"
    by (rule adds_foldl) (rule adds_review_field)
  from quiet_adds [OF this q] have q2: "quiet (foldl (check_expression v path ?ref) r1 (ma_Fields (mo_Spec m)))"
    by (simp add: r2_def)
  have "field_ok v ?ref threshold f" if f: "f \<in> set (ma_Fields (mo_Spec m))" for f
    using foldl_round [where pr = "\<lambda>x. x" and P = "\<lambda>_. True", OF adds_grows [OF adds_review_field] _ f TrueI q]
      foldl_round [where pr = "\<lambda>x. x" and P = "\<lambda>_. True", OF adds_grows [OF adds_check_expression] _ f TrueI q2]
    by (auto simp: field_ok_def dest: review_field_quiet check_expression_quiet)
  then show ?thesis using m ft by (auto simp: list_all_iff)
qed

lemma mapping_loop_quiet:
  assumes "quiet (fst (mapping_loop v th x (i, s)))" "st_Map s = Some m"
  shows "quiet (verify_mapStep v (idx ''spec.steps'' i) m th (fst x))"
proof -
  let ?p = "idx ''spec.steps'' i"
  have "quiet (fst (later_fields ?p s (map_field v th ?p m x)))" using assms by (simp add: mapping_loop_def Let_def)
  then have "quiet (fst (map_field v th ?p m x))" using quiet_adds [OF adds_later_fields] by blast
  then show ?thesis by (simp add: map_field_def Let_def)
qed

lemma stage_mappings_ok:
  assumes "quiet (stage_mappings v rec r)" "s \<in> set (rs_Steps (rc_Spec rec))" "st_Map s = Some ms"
  shows "\<exists>m. cat_Mapping (vf_cat v) (mst_Mapping ms) = Inr m \<and> ma_From (mo_Spec m) = mst_From ms \<and> ma_To (mo_Spec m) = mst_To ms
    \<and> list_all (field_ok v (om_Name (mo_Metadata m) @ ''@'' @ om_Version (mo_Metadata m))
        (if hasWrites rec then vo_WriteReviewThreshold (vf_opts v) else vo_ReviewThreshold (vf_opts v))) (ma_Fields (mo_Spec m))"
proof -
  let ?th = "if hasWrites rec then vo_WriteReviewThreshold (vf_opts v) else vo_ReviewThreshold (vf_opts v)"
  obtain i where ix: "(i, s) \<in> set (enumerate 0 (rs_Steps (rc_Spec rec)))" using enumerate_mem [OF assms(2)] by blast
  have q: "quiet (fst (foldl (mapping_loop v ?th) (r, None, []) (enumerate 0 (rs_Steps (rc_Spec rec)))))"
    using assms(1) by (simp add: stage_mappings_def Let_def)
  obtain x where "quiet (fst (mapping_loop v ?th x (i, s)))"
    using foldl_round [where pr = fst and P = "\<lambda>_. True", OF adds_grows [OF adds_mapping_loop] _ ix TrueI q] by blast
  from verify_mapStep_ok [OF mapping_loop_quiet [OF this assms(3)]] show ?thesis .
qed

text \<open>C32: no unreviewed mapping is deployed. For every map step of a deployable recipe the mapping resolves,
  maps what the step says, and every one of its fields compiles and was approved, certified, above
  the confidence threshold (the stricter one when the recipe writes), or approved in review for
  exactly this expression.\<close>

theorem deployable_mappings_are_reviewed:
  assumes "rb_Deployable (rp_body (verify_recipe v rec bound))"
    and "s \<in> set (rs_Steps (rc_Spec rec))" "st_Map s = Some ms"
  shows "\<exists>m. cat_Mapping (vf_cat v) (mst_Mapping ms) = Inr m \<and> ma_From (mo_Spec m) = mst_From ms \<and> ma_To (mo_Spec m) = mst_To ms
    \<and> list_all (field_ok v (om_Name (mo_Metadata m) @ ''@'' @ om_Version (mo_Metadata m))
        (if hasWrites rec then vo_WriteReviewThreshold (vf_opts v) else vo_ReviewThreshold (vf_opts v))) (ma_Fields (mo_Spec m))"
  using assms(1)
proof (cases rule: deployable_stages)
  case (1 r1)
  show ?thesis by (rule stage_mappings_ok [OF 1(5) assms(2,3)])
qed

section \<open>Deployable writes\<close>

lemma deployable_write_ok:
  assumes "rb_Deployable (rp_body (verify_recipe v rec bound))"
    and "s \<in> set (rs_Steps (rc_Spec rec))" "st_Write s = Some w"
  shows "\<exists>m. map_of (conns (verify_recipe v rec bound)) (wst_Target w) = Some m \<and> write_ok m w
    \<and> (\<forall>peak. rs_Capacity (rc_Spec rec) = Some peak \<longrightarrow> peak \<le> lim_RequestsPerSecond (cs_Limits (cm_Spec m)))"
  using assms(1)
proof (cases rule: deployable_stages)
  case (1 r1)
  let ?r0 = "upd_res (\<lambda>x. x\<lparr>res_Recipe := Some rec\<rparr>) (newReport (ORecipe rec))"
  have step: "step_Kind s = ''write''" "wst_Target w \<noteq> []"
    using Recipe_Validate_steps [OF 1(1) assms(2)] assms(3) by (auto simp: step_Kind_cases)
  then have nomap: "st_Map s = None" by (simp add: step_Kind_cases)
  have "wst_Target w \<in> set (Endpoints rec)"
    using Endpoints_set [of rec] assms(2,3) step(2) by auto
  then have "find_conn (stage_resolve v rec bound ?r0) (wst_Target w) \<noteq> None"
    by (rule stage_resolve_conn [OF 1(2)])
  then obtain m where m: "find_conn r1 (wst_Target w) = Some m"
    using find_conn_adds [OF adds_stages(1) [of "stage_resolve v rec bound ?r0" v rec]] 1(3) by auto
  have "write_ok m w" by (rule stage_interfaces_ok [OF 1(4) assms(2,3) nomap m])
  moreover have "find_conn (stage_policies v rec (stage_mappings v rec (stage_interfaces rec r1))) (wst_Target w) = Some m"
    using m find_conn_adds [OF adds_stages(2)] find_conn_adds [OF adds_stages(3)] find_conn_adds [OF adds_stages(4)] by simp
  ultimately show ?thesis
    using capacity_ok [OF 1(6) assms(2,3)] m 1(7) by (auto simp: find_conn_def)
qed

text \<open>C8: a deployable recipe only makes writes that are permitted and can be undone. For every write step
  of a recipe whose report says deployable, the target is bound to a manifest on which the
  operation exists, is a write, uses an interface declared for writes and not prohibited, and has
  a compensation that is a write operation of the same manifest; a high-risk operation does not
  switch approval off; an amount check has the dry run it needs; and a declared peak load is
  within the target's rate limit.\<close>

theorem deployable_writes_are_safe:
  assumes "rb_Deployable (rp_body (verify_recipe v rec bound))"
    and "s \<in> set (rs_Steps (rc_Spec rec))" "st_Write s = Some w"
  shows "\<exists>m. map_of (conns (verify_recipe v rec bound)) (wst_Target w) = Some m \<and> write_ok m w
    \<and> (\<forall>peak. rs_Capacity (rc_Spec rec) = Some peak \<longrightarrow> peak \<le> lim_RequestsPerSecond (cs_Limits (cm_Spec m)))"
  by (rule deployable_write_ok [OF assms])

end
