(* ===== verification/Verify_Blueprint.thy ===== *)
theory Verify_Blueprint
  imports Verify_Props
begin

text \<open>
  The verification of a stack blueprint (\<open>Blueprint\<close> of \<open>pkg/verifier/verifier.go\<close>) and the dispatch
  \<open>Verify\<close>: every slot is filled by a connector plugin that satisfies the slot's contract, every
  extension asks only for what the slots provide, and every recipe is verified with its endpoints
  bound to the slots. The second half proves what a deployable stack guarantees and that the
  verdict of every report agrees with its findings.
\<close>

section \<open>Slots\<close>

text \<open>The local variables of \<open>Blueprint\<close> beside the report.\<close>

record stack_state =
  ss_report :: report
  ss_bound :: "(string \<times> connector_manifest) list"
  ss_byConnector :: "(string \<times> string) list"
  ss_entities :: "string list"
  ss_events :: "string list"

definition upd_report :: "(report \<Rightarrow> report) \<Rightarrow> stack_state \<Rightarrow> stack_state" where
  "upd_report f s = s\<lparr>ss_report := f (ss_report s)\<rparr>"

text \<open>The contract a plugin implements for a slot: the last reference of that name.\<close>

definition contractRef :: "plugin \<Rightarrow> string \<Rightarrow> string" where
  "contractRef p slot = foldl (\<lambda>c ref. if fst (ParseRef ref) = slot then ref else c) [] (ps_Implements (pg_Spec p))"

definition bind_slot :: "string \<Rightarrow> plugin \<Rightarrow> slot_contract \<Rightarrow> connector_manifest \<Rightarrow> stack_state \<Rightarrow> stack_state" where
  "bind_slot slot p c m s =
     (case satisfies (''spec.slots.'' @ slot) c m (ss_report s) of
        (False, r) \<Rightarrow> s\<lparr>ss_report := rep_raise 2 r\<rparr>
      | (True, r) \<Rightarrow>
          s\<lparr>ss_report := upd_res (\<lambda>x. x\<lparr>res_Slots := AList.update slot p (res_Slots x),
               res_Contracts := AList.update slot c (res_Contracts x),
               res_Connectors := AList.update slot m (res_Connectors x)\<rparr>) r,
            ss_bound := AList.update slot m (ss_bound s),
            ss_byConnector := AList.update (om_Name (cm_Metadata m)) slot (ss_byConnector s),
            ss_entities := ss_entities s @ sl_Entities c,
            ss_events := ss_events s @ sl_Events c\<rparr>)"

definition connect_slot ::
  "verifier \<Rightarrow> string \<Rightarrow> slot_binding \<Rightarrow> plugin \<Rightarrow> slot_contract \<Rightarrow> connector_manifest \<Rightarrow> stack_state \<Rightarrow> stack_state" where
  "connect_slot v slot bind p c m s =
     (let path = ''spec.slots.'' @ slot @ ''.connection''
      in if sb_Connection bind = [] then
           bind_slot slot p c m (upd_report (rep_add StageResolve SeverityWarning path
             ''no connection configures the %s slot: its connector runs with no configuration and the manifest's default secret; name the Connection for this stack's %s''
             [AStr slot, AStr (om_Name (cm_Metadata m))]) s)
         else case cat_Connection (vf_cat v) (sb_Connection bind) of
           Inl e \<Rightarrow> upd_report (\<lambda>r. rep_raise 3 (rep_add StageResolve SeverityError path ''connection %q: %v''
             [AStr (sb_Connection bind), AErr (text_of e)] r)) s
         | Inr conn \<Rightarrow>
             (case ParseRef (ps_Connector (pg_Spec p)) of
                (name, pin) \<Rightarrow>
                  let cname = fst (ParseRef (cn_Connector (co_Spec conn)))
                  in if cname \<noteq> name then
                       upd_report (\<lambda>r. rep_raise 3 (rep_add StageContract SeverityError path
                         ''connection %s uses connector %s, but plugin %s is the %s connector''
                         [AStr (om_Name (co_Metadata conn)), AStr cname, AStr (om_Name (pg_Metadata p)), AStr name] r)) s
                     else case verify_connection v conn pin (ss_report s) of
                       (None, r) \<Rightarrow> s\<lparr>ss_report := r\<rparr>
                     | (Some em, r) \<Rightarrow>
                         bind_slot slot p c em (s\<lparr>ss_report :=
                           upd_res (\<lambda>x. x\<lparr>res_Connections := AList.update slot conn (res_Connections x)\<rparr>) r\<rparr>)))"

definition contract_slot :: "verifier \<Rightarrow> string \<Rightarrow> string \<Rightarrow> slot_binding \<Rightarrow> plugin \<Rightarrow> stack_state \<Rightarrow> stack_state" where
  "contract_slot v model slot bind p s =
     (let path = ''spec.slots.'' @ slot; ref = contractRef p slot
      in if ref = [] then
           upd_report (\<lambda>r. rep_raise 2 (rep_add StageContract SeverityError path ''plugin %s does not implement the %s slot contract''
             [AStr (om_Name (pg_Metadata p)), AStr slot] r)) s
         else case cat_Contract (vf_cat v) ref of
           Inl e \<Rightarrow> upd_report (rep_add StageResolve SeverityError path ''slot contract %q: %v'' [AStr ref, AErr (text_of e)]) s
         | Inr c \<Rightarrow>
             let s1 = (if model \<noteq> [] \<and> sl_Model c \<noteq> [] \<and> sl_Model c \<noteq> model then
                         upd_report (rep_add StageContract SeverityError path ''contract %s is defined on model %s, but the stack uses %s''
                           [AStr ref, AStr (sl_Model c), AStr model]) s
                       else s)
             in case ParseRef (ps_Connector (pg_Spec p)) of
                  (name, con) \<Rightarrow>
                    (case cat_Connector (vf_cat v) name con of
                       Inl _ \<Rightarrow> s1
                     | Inr m \<Rightarrow> connect_slot v slot bind p c m s1))"

definition slot_step :: "verifier \<Rightarrow> stack_blueprint \<Rightarrow> stack_state \<Rightarrow> string \<Rightarrow> stack_state" where
  "slot_step v b s slot =
     (case map_of (bs_Slots (bp_Spec b)) slot of
        None \<Rightarrow> s
      | Some bind \<Rightarrow>
          let path = ''spec.slots.'' @ slot
          in case cat_Plugin (vf_cat v) (sb_Plugin bind) (sb_Version bind) of
               Inl e \<Rightarrow> upd_report (\<lambda>r. rep_raise 3 (rep_add StageResolve SeverityError path
                 ''%v; no certified plugin fills this slot'' [AErr (text_of e)] r)) s
             | Inr p \<Rightarrow>
                 let s1 = upd_report (rep_child (verify_Plugin v p)) s
                 in if ps_Type (pg_Spec p) \<noteq> PluginConnector then
                      upd_report (rep_add StageContract SeverityError path ''plugin %s is a %s plugin; slots take connector plugins''
                        [AStr (om_Name (pg_Metadata p)), AStr (ps_Type (pg_Spec p))]) s1
                    else contract_slot v (bs_Model (bp_Spec b)) slot bind p s1)"

definition slot_names :: "stack_blueprint \<Rightarrow> string list" where
  "slot_names b = sort (remdups (map fst (bs_Slots (bp_Spec b))))"

definition stack_slots :: "verifier \<Rightarrow> stack_blueprint \<Rightarrow> report \<Rightarrow> stack_state" where
  "stack_slots v b r = foldl (slot_step v b)
     \<lparr>ss_report = r, ss_bound = [], ss_byConnector = [], ss_entities = [], ss_events = []\<rparr> (slot_names b)"

section \<open>Extensions, recipes, policies\<close>

definition stack_extension ::
  "verifier \<Rightarrow> (string \<times> connector_manifest) list \<Rightarrow> string list \<Rightarrow> string list \<Rightarrow> report \<Rightarrow> nat \<times> string \<Rightarrow> report" where
  "stack_extension v bound entities events r ix =
     (case ix of (i, ref) \<Rightarrow>
        let path = idx ''spec.extensions'' i
        in case cat_PluginRef (vf_cat v) ref of
             Inl e \<Rightarrow> rep_raise 3 (rep_add StageResolve SeverityError path ''%v'' [AErr (text_of e)] r)
           | Inr p \<Rightarrow>
               let r1 = upd_res (\<lambda>x. x\<lparr>res_Extensions := res_Extensions x @ [p]\<rparr>) (rep_child (verify_Plugin v p) r);
                   r2 = (if ps_Type (pg_Spec p) = PluginConnector then
                           rep_add StageContract SeverityError path ''connector plugins fill slots; %s cannot be an extension''
                             [AStr (om_Name (pg_Metadata p))] r1
                         else r1)
               in checkPluginOperations path p bound (checkExtension path p entities events r2))"

definition scope_endpoint ::
  "stack_blueprint \<Rightarrow> stack_state \<Rightarrow> recipe \<Rightarrow> string \<Rightarrow> report \<times> (string \<times> connector_manifest) list \<Rightarrow> string
     \<Rightarrow> report \<times> (string \<times> connector_manifest) list" where
  "scope_endpoint b s rec path x ep =
     (case x of (r, scope) \<Rightarrow>
        if map_of (bs_Slots (bp_Spec b)) ep \<noteq> None then (r, scope)
        else case map_of (ss_byConnector s) ep of
          Some slot \<Rightarrow>
            (rep_add StageContract SeverityInfo path ''recipe %s names tool %q directly; naming slot %q would survive a swap''
               [AStr (om_Name (rc_Metadata rec)), AStr ep, AStr slot] r,
             case map_of (ss_bound s) slot of None \<Rightarrow> scope | Some m \<Rightarrow> AList.update ep m scope)
        | None \<Rightarrow>
            (rep_add StageContract SeverityError path ''recipe %s uses %q, which is not a slot in this stack''
               [AStr (om_Name (rc_Metadata rec)), AStr ep] r, scope))"

definition stack_recipe :: "verifier \<Rightarrow> stack_blueprint \<Rightarrow> stack_state \<Rightarrow> report \<Rightarrow> nat \<times> string \<Rightarrow> report" where
  "stack_recipe v b s r ix =
     (case ix of (i, ref) \<Rightarrow>
        let path = idx ''spec.recipes'' i
        in case cat_Recipe (vf_cat v) ref of
             Inl e \<Rightarrow> rep_raise 2 (rep_add StageResolve SeverityError path ''recipe %q: %v'' [AStr ref, AErr (text_of e)] r)
           | Inr rec \<Rightarrow>
               (case foldl (scope_endpoint b s rec path) (r, ss_bound s) (Endpoints rec) of
                  (r1, scope) \<Rightarrow> rep_child (verify_recipe v rec scope) r1))"

definition stack_policies :: "verifier \<Rightarrow> stack_blueprint \<Rightarrow> report \<Rightarrow> report" where
  "stack_policies v b r =
     (let r1 = foldl (resolve_policy v) r (bs_Policies (bp_Spec b))
      in checkPolicies v (res_Policies (rb_Resolution (rp_body r1))) False r1)"

definition stack_stages :: "verifier \<Rightarrow> stack_blueprint \<Rightarrow> report \<Rightarrow> report" where
  "stack_stages v b r0 =
     (let s = stack_slots v b r0; refs = bs_Extensions (bp_Spec b);
          events = published_events (vf_cat v) refs (ss_events s);
          r1 = foldl (stack_extension v (ss_bound s) (ss_entities s) events) (ss_report s) (enumerate 0 refs);
          r2 = foldl (stack_recipe v b s) r1 (enumerate 0 (bs_Recipes (bp_Spec b)))
      in stack_policies v b r2)"

definition verify_Blueprint :: "verifier \<Rightarrow> stack_blueprint \<Rightarrow> report" where
  "verify_Blueprint v b =
     (case schema (OBlueprint b) (newReport (OBlueprint b)) of
        (False, r) \<Rightarrow> finish r
      | (True, r) \<Rightarrow> finish (stack_stages v b r))"

definition verifier_Verify :: "verifier \<Rightarrow> object \<Rightarrow> report" where
  "verifier_Verify v obj =
     (case obj of
        ORecipe rec \<Rightarrow> verify_Recipe v rec
      | OBlueprint b \<Rightarrow> verify_Blueprint v b
      | OPlugin p \<Rightarrow> verify_Plugin v p
      | _ \<Rightarrow> finish (snd (schema obj (newReport obj))))"

section \<open>What a slot's verdict means\<close>

text \<open>No errors, and nothing inside that cannot be deployed.\<close>

definition calm :: "report \<Rightarrow> bool" where
  "calm r \<longleftrightarrow> errs r = [] \<and> (\<forall>c \<in> set (rp_Children r). rb_Deployable (rp_body c))"

lemma calm_back: "grows r r' \<Longrightarrow> calm r' \<Longrightarrow> calm r"
  using errs_Nil_back [of r r'] by (auto simp: calm_def grows_def)

definition action_met :: "connector_manifest \<Rightarrow> contract_action \<Rightarrow> bool" where
  "action_met m a \<longleftrightarrow> (\<exists>op. cm_Operation m (ca_Name a) = Some op
     \<and> (op_Direction op = DirectionRead \<longleftrightarrow> ca_Risk a = RiskRead) \<and> riskRank (ca_Risk a) \<le> riskRank (op_Risk op))"

text \<open>A manifest meets a contract: it has every entity and event, and every action in the contract's
  direction and at no lower risk than the contract says.\<close>

definition contract_met :: "slot_contract \<Rightarrow> connector_manifest \<Rightarrow> bool" where
  "contract_met c m \<longleftrightarrow> list_all (HasEntity m) (sl_Entities c) \<and> list_all (\<lambda>e. cm_Event m e \<noteq> None) (sl_Events c)
     \<and> list_all (action_met m) (sl_Actions c)"

text \<open>A loop that keeps a flag and a report, and clears the flag whenever it adds an error.\<close>

lemma flag_fold:
  assumes "\<And>x y. P y \<Longrightarrow> f x y = x"
    and "\<And>x y. \<not> P y \<Longrightarrow> \<not> fst (f x y) \<and> adds (snd x) (snd (f x y)) \<and> errs (snd (f x y)) \<noteq> []"
  shows "adds (snd x) (snd (foldl f x ys)) \<and> (fst (foldl f x ys) \<longrightarrow> list_all P ys \<and> foldl f x ys = x)
    \<and> (\<not> fst (foldl f x ys) \<longrightarrow> \<not> fst x \<or> errs (snd (foldl f x ys)) \<noteq> [])"
proof (induction ys arbitrary: x)
  case (Cons y ys)
  show ?case
  proof (cases "P y")
    case True
    then show ?thesis using Cons [of x] assms(1) by simp
  next
    case False
    note one = assms(2) [OF this, of x]
    have "fst (foldl f (f x y) ys) \<Longrightarrow> fst (f x y)" using Cons [of "f x y"] by metis
    then show ?thesis
      using Cons [of "f x y"] one adds_trans [of "snd x" "snd (f x y)"] adds_errs [of "snd (f x y)"] by auto
  qed
qed auto

lemma check_action_met: "action_met m a \<Longrightarrow> check_action path c m x a = x"
  by (auto simp: check_action_def action_met_def)

lemma fail_contract_flag: "\<not> fst (fail_contract path c m f as x) \<and> adds (snd x) (snd (fail_contract path c m f as x))
    \<and> errs (snd (fail_contract path c m f as x)) \<noteq> []"
  by (simp add: fail_contract_def adds_I)

lemma check_action_flag: "\<not> action_met m a \<Longrightarrow> \<not> fst (check_action path c m x a)
    \<and> adds (snd x) (snd (check_action path c m x a)) \<and> errs (snd (check_action path c m x a)) \<noteq> []"
  using fail_contract_flag by (auto simp: check_action_def action_met_def split: option.splits)

text \<open>\<open>satisfies\<close> decides the contract, and says so in the report when it is not met.\<close>

lemma satisfies_decides:
  assumes "satisfies path c m r = (ok, r')"
  shows "adds r r'" "ok \<Longrightarrow> contract_met c m \<and> r' = r" "\<not> ok \<Longrightarrow> errs r' \<noteq> []"
proof -
  define x1 where "x1 = foldl (\<lambda>x e. if HasEntity m e then x else fail_contract path c m ''missing entity %s'' [AStr e] x) (True, r) (sl_Entities c)"
  define x2 where "x2 = foldl (\<lambda>x e. if cm_Event m e \<noteq> None then x else fail_contract path c m ''missing event %s'' [AStr e] x) x1 (sl_Events c)"
  have x3: "(ok, r') = foldl (check_action path c m) x2 (sl_Actions c)"
    using assms unfolding satisfies_def x1_def x2_def Let_def by simp
  have f1: "adds r (snd x1) \<and> (fst x1 \<longrightarrow> list_all (HasEntity m) (sl_Entities c) \<and> x1 = (True, r)) \<and> (\<not> fst x1 \<longrightarrow> errs (snd x1) \<noteq> [])"
    using flag_fold [where P = "HasEntity m" and x = "(True, r)" and ys = "sl_Entities c"
        and f = "\<lambda>x e. if HasEntity m e then x else fail_contract path c m ''missing entity %s'' [AStr e] x"] fail_contract_flag
    unfolding x1_def by simp
  have f2: "adds (snd x1) (snd x2) \<and> (fst x2 \<longrightarrow> list_all (\<lambda>e. cm_Event m e \<noteq> None) (sl_Events c) \<and> x2 = x1)
      \<and> (\<not> fst x2 \<longrightarrow> \<not> fst x1 \<or> errs (snd x2) \<noteq> [])"
    using flag_fold [where P = "\<lambda>e. cm_Event m e \<noteq> None" and x = x1 and ys = "sl_Events c"
        and f = "\<lambda>x e. if cm_Event m e \<noteq> None then x else fail_contract path c m ''missing event %s'' [AStr e] x"] fail_contract_flag
    unfolding x2_def by simp
  have f3: "adds (snd x2) r' \<and> (ok \<longrightarrow> list_all (action_met m) (sl_Actions c) \<and> (ok, r') = x2)
      \<and> (\<not> ok \<longrightarrow> \<not> fst x2 \<or> errs r' \<noteq> [])"
    using flag_fold [where P = "action_met m" and x = x2 and ys = "sl_Actions c" and f = "check_action path c m",
        OF check_action_met check_action_flag] unfolding x3 [symmetric] by simp
  show "adds r r'" using f1 f2 f3 adds_trans by blast
  show "contract_met c m \<and> r' = r" if ok
    using that f1 f2 f3 unfolding contract_met_def by (metis fst_conv snd_conv)
  show "errs r' \<noteq> []" if "\<not> ok" using that f1 f2 f3 adds_errs by metis
qed

text \<open>What happens to a slot: it is bound to a manifest, or the report is no longer calm.\<close>

definition slot_out :: "string \<Rightarrow> (connector_manifest \<Rightarrow> bool) \<Rightarrow> stack_state \<Rightarrow> stack_state \<Rightarrow> bool" where
  "slot_out slot ok s s' \<longleftrightarrow>
     grows (ss_report s) (ss_report s')
     \<and> (ss_bound s' = ss_bound s \<and> ss_byConnector s' = ss_byConnector s \<and> conns (ss_report s') = conns (ss_report s)
          \<and> \<not> calm (ss_report s')
        \<or> (\<exists>m. ss_bound s' = AList.update slot m (ss_bound s)
             \<and> ss_byConnector s' = AList.update (om_Name (cm_Metadata m)) slot (ss_byConnector s)
             \<and> conns (ss_report s') = AList.update slot m (conns (ss_report s)) \<and> (calm (ss_report s') \<longrightarrow> ok m)))"

lemma slot_out_adds:
  assumes "slot_out slot ok (s\<lparr>ss_report := r\<rparr>) s'" "adds (ss_report s) r"
  shows "slot_out slot ok s s'"
  using assms grows_trans [of "ss_report s" r] unfolding slot_out_def adds_def by auto

lemma slot_out_weaken: "slot_out slot ok s s' \<Longrightarrow> (\<And>m. ok m \<Longrightarrow> calm (ss_report s') \<Longrightarrow> ok' m) \<Longrightarrow> slot_out slot ok' s s'"
  unfolding slot_out_def by blast

lemma slot_out_error: "adds (ss_report s) r \<Longrightarrow> \<not> calm r \<Longrightarrow> slot_out slot ok s (s\<lparr>ss_report := r\<rparr>)"
  unfolding slot_out_def adds_def by simp

lemma not_calm_error: "errs r \<noteq> [] \<Longrightarrow> \<not> calm r"
  by (simp add: calm_def)

lemma bind_slot_out: "slot_out slot (\<lambda>m'. m' = m \<and> contract_met c m) s (bind_slot slot p c m s)"
proof -
  obtain ok r where x: "satisfies (''spec.slots.'' @ slot) c m (ss_report s) = (ok, r)"
    by (cases "satisfies (''spec.slots.'' @ slot) c m (ss_report s)")
  show ?thesis
  proof (cases ok)
    case True
    then have "contract_met c m" "r = ss_report s" using satisfies_decides [OF x] by auto
    then show ?thesis using True x unfolding bind_slot_def slot_out_def by (auto intro!: exI [of _ m])
  next
    case False
    have "slot_out slot (\<lambda>m'. m' = m \<and> contract_met c m) s (s\<lparr>ss_report := rep_raise 2 r\<rparr>)"
      using satisfies_decides [OF x] False by (intro slot_out_error adds_raise not_calm_error) simp_all
    then show ?thesis using False x by (simp add: bind_slot_def)
  qed
qed

text \<open>The manifest a slot binding gives: the connector's own, or with a connection the connector the
  connection names, narrowed by it.\<close>

definition slot_manifest :: "verifier \<Rightarrow> slot_binding \<Rightarrow> plugin \<Rightarrow> connector_manifest \<Rightarrow> bool" where
  "slot_manifest v bind p m \<longleftrightarrow>
     (if sb_Connection bind = []
      then cat_Connector (vf_cat v) (fst (ParseRef (ps_Connector (pg_Spec p)))) (snd (ParseRef (ps_Connector (pg_Spec p)))) = Inr m
      else \<exists>conn base. cat_Connection (vf_cat v) (sb_Connection bind) = Inr conn
             \<and> fst (ParseRef (cn_Connector (co_Spec conn))) = fst (ParseRef (ps_Connector (pg_Spec p)))
             \<and> ValidateEffective conn base = [] \<and> m = Effective conn base)"

lemma verify_connection_Some:
  "verify_connection v conn pin r = (Some m, r') \<Longrightarrow> \<exists>base. ValidateEffective conn base = [] \<and> m = Effective conn base"
  by (auto simp: verify_connection_def Let_def split: prod.splits sum.splits if_splits)

lemma connect_slot_out:
  assumes "cat_Connector (vf_cat v) (fst (ParseRef (ps_Connector (pg_Spec p)))) (snd (ParseRef (ps_Connector (pg_Spec p)))) = Inr m"
  shows "slot_out slot (\<lambda>m'. slot_manifest v bind p m' \<and> contract_met c m') s (connect_slot v slot bind p c m s)"
proof (cases "sb_Connection bind = []")
  case True
  have "slot_out slot (\<lambda>m'. m' = m \<and> contract_met c m) s (connect_slot v slot bind p c m s)"
    using True unfolding connect_slot_def Let_def upd_report_def
    by (auto intro!: slot_out_adds [OF bind_slot_out] simp: adds_I)
  then show ?thesis by (rule slot_out_weaken) (use True assms in \<open>simp add: slot_manifest_def\<close>)
next
  case False
  show ?thesis
  proof (cases "cat_Connection (vf_cat v) (sb_Connection bind)")
    case (Inl e)
    then show ?thesis using False unfolding connect_slot_def Let_def upd_report_def
      by (auto intro!: slot_out_error not_calm_error simp: adds_I)
  next
    case (Inr conn)
    note conn = this
    show ?thesis
    proof (cases "fst (ParseRef (cn_Connector (co_Spec conn))) = fst (ParseRef (ps_Connector (pg_Spec p)))")
      case diff: False
      show ?thesis using False conn diff unfolding connect_slot_def Let_def upd_report_def
        by (auto intro!: slot_out_error not_calm_error simp: adds_I split: prod.splits)
    next
      case same: True
      obtain mo r where x: "verify_connection v conn (snd (ParseRef (ps_Connector (pg_Spec p)))) (ss_report s) = (mo, r)"
        by (cases "verify_connection v conn (snd (ParseRef (ps_Connector (pg_Spec p)))) (ss_report s)")
      note ad = adds_verify_connection [OF x]
      show ?thesis
      proof (cases mo)
        case None
        have "slot_out slot ok s (s\<lparr>ss_report := r\<rparr>)" for ok
          using None ad verify_connection_None [of v conn _ "ss_report s" r] x by (intro slot_out_error not_calm_error) auto
        then show ?thesis using False conn same x None unfolding connect_slot_def Let_def
          by (auto split: prod.splits)
      next
        case (Some em)
        have sm: "slot_manifest v bind p em"
          using verify_connection_Some [of v conn _ "ss_report s" em r] x Some False conn same by (auto simp: slot_manifest_def)
        have "slot_out slot (\<lambda>m'. m' = em \<and> contract_met c em) s (bind_slot slot p c em
            (s\<lparr>ss_report := upd_res (\<lambda>x. x\<lparr>res_Connections := AList.update slot conn (res_Connections x)\<rparr>) r\<rparr>))"
          by (rule slot_out_adds [OF bind_slot_out]) (rule adds_res [OF ad], simp)
        then have "slot_out slot (\<lambda>m'. m' = em \<and> contract_met c em) s (connect_slot v slot bind p c m s)"
          using False conn same x Some unfolding connect_slot_def Let_def by (auto split: prod.splits)
        then show ?thesis by (rule slot_out_weaken) (use sm in simp)
      qed
    qed
  qed
qed

text \<open>A connector plugin whose manifest is missing is not deployable itself.\<close>

lemma Plugin_connector_missing:
  assumes "ps_Type (pg_Spec p) = PluginConnector"
    and "cat_Connector (vf_cat v) (fst (ParseRef (ps_Connector (pg_Spec p)))) (snd (ParseRef (ps_Connector (pg_Spec p)))) = Inl e"
  shows "\<not> rb_Deployable (rp_body (verify_Plugin v p))"
proof -
  obtain b r where sc: "schema (OPlugin p) (newReport (OPlugin p)) = (b, r)"
    by (cases "schema (OPlugin p) (newReport (OPlugin p))")
  show ?thesis
  proof (cases b)
    case True
    then show ?thesis using sc assms by (auto simp: verify_Plugin_def Let_def finish_Deployable split: prod.splits)
  next
    case False
    then show ?thesis using sc schema_False [of "OPlugin p" _ r] by (auto simp: verify_Plugin_def finish_Deployable)
  qed
qed

text \<open>A slot is filled: the bound plugin is a connector plugin, it names a contract for this slot that
  is in the catalog and on the stack's model, and the manifest meets that contract.\<close>

definition slot_filled :: "verifier \<Rightarrow> string \<Rightarrow> string \<Rightarrow> slot_binding \<Rightarrow> connector_manifest \<Rightarrow> bool" where
  "slot_filled v model slot bind m \<longleftrightarrow>
     (\<exists>p ref c. cat_Plugin (vf_cat v) (sb_Plugin bind) (sb_Version bind) = Inr p \<and> ps_Type (pg_Spec p) = PluginConnector
        \<and> ref \<in> set (ps_Implements (pg_Spec p)) \<and> fst (ParseRef ref) = slot \<and> cat_Contract (vf_cat v) ref = Inr c
        \<and> (model = [] \<or> sl_Model c = [] \<or> sl_Model c = model) \<and> slot_manifest v bind p m \<and> contract_met c m)"

lemma contractRef_implemented:
  "contractRef p slot \<noteq> [] \<Longrightarrow> contractRef p slot \<in> set (ps_Implements (pg_Spec p)) \<and> fst (ParseRef (contractRef p slot)) = slot"
proof -
  have "foldl (\<lambda>c ref. if fst (ParseRef ref) = slot then ref else c) c0 refs \<noteq> c0 \<Longrightarrow>
      foldl (\<lambda>c ref. if fst (ParseRef ref) = slot then ref else c) c0 refs \<in> set refs
      \<and> fst (ParseRef (foldl (\<lambda>c ref. if fst (ParseRef ref) = slot then ref else c) c0 refs)) = slot" for c0 refs
    by (induction refs rule: rev_induct) (auto split: if_splits)
  then show "contractRef p slot \<noteq> [] \<Longrightarrow> ?thesis" by (simp add: contractRef_def)
qed

lemma contract_slot_out:
  assumes p: "cat_Plugin (vf_cat v) (sb_Plugin bind) (sb_Version bind) = Inr p" "ps_Type (pg_Spec p) = PluginConnector"
    and child: "verify_Plugin v p \<in> set (rp_Children (ss_report s))"
  shows "slot_out slot (slot_filled v model slot bind) s (contract_slot v model slot bind p s)"
proof (cases "contractRef p slot = []")
  case True
  then show ?thesis unfolding contract_slot_def Let_def upd_report_def
    by (auto intro!: slot_out_error not_calm_error simp: adds_I)
next
  case False
  note ref = contractRef_implemented [OF this]
  show ?thesis
  proof (cases "cat_Contract (vf_cat v) (contractRef p slot)")
    case (Inl e)
    then show ?thesis using False unfolding contract_slot_def Let_def upd_report_def
      by (auto intro!: slot_out_error not_calm_error simp: adds_I)
  next
    case (Inr c)
    define r1 where "r1 = (if model \<noteq> [] \<and> sl_Model c \<noteq> [] \<and> sl_Model c \<noteq> model then
      rep_add StageContract SeverityError (''spec.slots.'' @ slot) ''contract %s is defined on model %s, but the stack uses %s''
        [AStr (contractRef p slot), AStr (sl_Model c), AStr model] (ss_report s) else ss_report s)"
    have ad: "adds (ss_report s) r1" by (simp add: r1_def adds_I)
    have calm1: "calm r1 \<Longrightarrow> model = [] \<or> sl_Model c = [] \<or> sl_Model c = model"
      by (auto simp: r1_def calm_def split: if_splits)
    obtain name con where pr: "ParseRef (ps_Connector (pg_Spec p)) = (name, con)" by (cases "ParseRef (ps_Connector (pg_Spec p))")
    have go: "contract_slot v model slot bind p s = (case cat_Connector (vf_cat v) name con of
        Inl _ \<Rightarrow> s\<lparr>ss_report := r1\<rparr> | Inr m \<Rightarrow> connect_slot v slot bind p c m (s\<lparr>ss_report := r1\<rparr>))"
      using False Inr pr by (auto simp: contract_slot_def Let_def upd_report_def r1_def split: sum.splits)
    show ?thesis
    proof (cases "cat_Connector (vf_cat v) name con")
      case (Inl e)
      have "\<not> calm r1" using Plugin_connector_missing [OF p(2), of v e] Inl pr child by (auto simp: calm_def r1_def)
      then show ?thesis using slot_out_error [OF ad] go Inl by simp
    next
      case m: (Inr m)
      have o1: "slot_out slot (\<lambda>m'. slot_manifest v bind p m' \<and> contract_met c m') (s\<lparr>ss_report := r1\<rparr>)
          (contract_slot v model slot bind p s)"
        using connect_slot_out [of v p m slot bind c "s\<lparr>ss_report := r1\<rparr>"] go m pr by simp
      then have "grows r1 (ss_report (contract_slot v model slot bind p s))" by (simp add: slot_out_def)
      then show ?thesis
        using calm1 calm_back ref Inr p by (intro slot_out_weaken [OF slot_out_adds [OF o1 ad]]) (auto simp: slot_filled_def)
    qed
  qed
qed

lemma slot_step_out:
  assumes "map_of (bs_Slots (bp_Spec b)) slot = Some bind"
  shows "slot_out slot (slot_filled v (bs_Model (bp_Spec b)) slot bind) s (slot_step v b s slot)"
proof (cases "cat_Plugin (vf_cat v) (sb_Plugin bind) (sb_Version bind)")
  case (Inl e)
  then show ?thesis using assms unfolding slot_step_def Let_def upd_report_def
    by (auto intro!: slot_out_error not_calm_error simp: adds_I)
next
  case (Inr p)
  let ?r = "rep_child (verify_Plugin v p) (ss_report s)"
  have ad: "adds (ss_report s) ?r" by (simp add: adds_I verify_Plugin_honest)
  show ?thesis
  proof (cases "ps_Type (pg_Spec p) = PluginConnector")
    case True
    have "slot_out slot (slot_filled v (bs_Model (bp_Spec b)) slot bind) (s\<lparr>ss_report := ?r\<rparr>)
        (contract_slot v (bs_Model (bp_Spec b)) slot bind p (s\<lparr>ss_report := ?r\<rparr>))"
      by (rule contract_slot_out [OF Inr True]) simp
    then show ?thesis using assms Inr True by (auto simp: slot_step_def Let_def upd_report_def intro: slot_out_adds [OF _ ad])
  next
    case False
    then show ?thesis using assms Inr unfolding slot_step_def Let_def upd_report_def
      by (auto intro!: slot_out_error not_calm_error simp: adds_I verify_Plugin_honest)
  qed
qed

section \<open>The slot loop\<close>

text \<open>After the slots \<open>dn\<close>: what is bound is what the report says, connector names lead to the slot their
  manifest fills, and unless something was reported every slot is filled.\<close>

definition stack_inv :: "verifier \<Rightarrow> stack_blueprint \<Rightarrow> string list \<Rightarrow> stack_state \<Rightarrow> bool" where
  "stack_inv v b dn s \<longleftrightarrow>
     conns (ss_report s) = ss_bound s \<and> dom (map_of (ss_bound s)) \<subseteq> set dn
     \<and> (\<forall>n slot. map_of (ss_byConnector s) n = Some slot \<longrightarrow>
          (\<exists>m. map_of (ss_bound s) slot = Some m \<and> om_Name (cm_Metadata m) = n))
     \<and> (calm (ss_report s) \<longrightarrow> (\<forall>slot bind. slot \<in> set dn \<longrightarrow> map_of (bs_Slots (bp_Spec b)) slot = Some bind \<longrightarrow>
          (\<exists>m. map_of (ss_bound s) slot = Some m \<and> slot_filled v (bs_Model (bp_Spec b)) slot bind m)))"

lemma stack_inv_step:
  assumes "stack_inv v b dn s" "slot \<notin> set dn" "map_of (bs_Slots (bp_Spec b)) slot = Some bind"
  shows "stack_inv v b (dn @ [slot]) (slot_step v b s slot)"
proof -
  note out = slot_step_out [OF assms(3), of v s]
  then have grow: "grows (ss_report s) (ss_report (slot_step v b s slot))" by (simp add: slot_out_def)
  have new: "map_of (ss_bound s) slot = None" using assms(1,2) by (auto simp: stack_inv_def)
  from out consider (err) "ss_bound (slot_step v b s slot) = ss_bound s" "ss_byConnector (slot_step v b s slot) = ss_byConnector s"
      "conns (ss_report (slot_step v b s slot)) = conns (ss_report s)" "\<not> calm (ss_report (slot_step v b s slot))"
    | (ok) m where "ss_bound (slot_step v b s slot) = AList.update slot m (ss_bound s)"
      "ss_byConnector (slot_step v b s slot) = AList.update (om_Name (cm_Metadata m)) slot (ss_byConnector s)"
      "conns (ss_report (slot_step v b s slot)) = AList.update slot m (conns (ss_report s))"
      "calm (ss_report (slot_step v b s slot)) \<longrightarrow> slot_filled v (bs_Model (bp_Spec b)) slot bind m"
    unfolding slot_out_def by blast
  then show ?thesis
  proof cases
    case err
    then show ?thesis using assms(1) by (auto simp: stack_inv_def)
  next
    case ok
    have "calm (ss_report (slot_step v b s slot)) \<Longrightarrow> calm (ss_report s)" by (rule calm_back [OF grow])
    moreover have "map_of (ss_byConnector s) n \<noteq> Some slot" for n using assms(1) new by (force simp: stack_inv_def)
    ultimately show ?thesis using assms(1,3) ok unfolding stack_inv_def by (auto simp: update_conv')
  qed
qed

lemma stack_slots_inv:
  assumes "conns r = []"
  shows "stack_inv v b (slot_names b) (stack_slots v b r)"
proof -
  let ?s0 = "\<lparr>ss_report = r, ss_bound = [], ss_byConnector = [], ss_entities = [], ss_events = []\<rparr>"
  have "distinct ns \<Longrightarrow> set ns \<subseteq> dom (map_of (bs_Slots (bp_Spec b))) \<Longrightarrow> stack_inv v b ns (foldl (slot_step v b) ?s0 ns)" for ns
  proof (induction ns rule: rev_induct)
    case Nil
    then show ?case by (simp add: stack_inv_def assms)
  next
    case (snoc n ns)
    then obtain bind where "map_of (bs_Slots (bp_Spec b)) n = Some bind" by auto
    then show ?case using snoc stack_inv_step [of v b ns _ n bind] by simp
  qed
  moreover have "distinct (slot_names b)" "set (slot_names b) = dom (map_of (bs_Slots (bp_Spec b)))"
    by (simp_all add: slot_names_def dom_map_of_conv_image_fst)
  ultimately show ?thesis by (simp add: stack_slots_def)
qed

section \<open>Deployable stacks\<close>

lemma adds_stack_extension: "adds r (stack_extension v cs es evs r ix)"
  by (auto simp: stack_extension_def Let_def adds_I verify_Plugin_honest
      intro!: adds_trans [OF _ adds_checkPluginOperations] adds_trans [OF _ adds_checkExtension] split: prod.splits sum.splits)

lemma adds_scope_endpoint: "adds (fst x) (fst (scope_endpoint b s rec path x ep))"
  by (auto simp: scope_endpoint_def adds_I split: prod.splits option.splits)

lemma adds_stack_recipe: "adds r (stack_recipe v b s r ix)"
proof -
  obtain i ref where ix: "ix = (i, ref)" by (cases ix)
  have sc: "adds r (fst (foldl (scope_endpoint b s rec path) (r, ss_bound s) eps))" for rec path eps
    using adds_fst_foldl [of "scope_endpoint b s rec path" "(r, ss_bound s)" eps, OF adds_scope_endpoint] by simp
  show ?thesis
    by (auto simp: stack_recipe_def ix Let_def adds_I split: sum.splits prod.splits)
      (metis adds_child verify_recipe_honest fst_conv sc)
qed

lemma adds_stack_policies: "adds r (stack_policies v b r)"
proof -
  have "adds r (foldl (resolve_policy v) r refs)" for r refs
    by (rule adds_foldl) (auto simp: resolve_policy_def adds_I split: sum.splits)
  then show ?thesis unfolding stack_policies_def Let_def by (rule adds_trans) (rule adds_checkPolicies)
qed

lemma deployable_stack:
  assumes "rb_Deployable (rp_body (verify_Blueprint v b))"
  obtains s r1 r2 where "s = stack_slots v b (newReport (OBlueprint b))" "stack_inv v b (slot_names b) s"
    "adds (ss_report s) r1" "r2 = foldl (stack_recipe v b s) r1 (enumerate 0 (bs_Recipes (bp_Spec b)))"
    "adds r2 (stack_policies v b r2)" "quiet r2" "calm r2" "verify_Blueprint v b = finish (stack_policies v b r2)"
proof -
  let ?r0 = "newReport (OBlueprint b)"
  obtain k r where sc: "schema (OBlueprint b) ?r0 = (k, r)" by (cases "schema (OBlueprint b) ?r0")
  have "k" using assms schema_False [of "OBlueprint b" ?r0 r] sc
    by (cases k) (auto simp: verify_Blueprint_def finish_Deployable)
  then have r: "r = ?r0" using schema_True [of "OBlueprint b" ?r0 r] sc by simp
  define s where "s = stack_slots v b ?r0"
  define r1 where "r1 = foldl (stack_extension v (ss_bound s) (ss_entities s)
    (published_events (vf_cat v) (bs_Extensions (bp_Spec b)) (ss_events s))) (ss_report s) (enumerate 0 (bs_Extensions (bp_Spec b)))"
  define r2 where "r2 = foldl (stack_recipe v b s) r1 (enumerate 0 (bs_Recipes (bp_Spec b)))"
  have vb: "verify_Blueprint v b = finish (stack_policies v b r2)"
    using sc \<open>k\<close> r by (simp add: verify_Blueprint_def stack_stages_def Let_def s_def r1_def r2_def)
  have ad: "adds r2 (stack_policies v b r2)" by (rule adds_stack_policies)
  have fin: "quiet (stack_policies v b r2)" "calm (stack_policies v b r2)"
    using assms unfolding vb finish_Deployable by (auto simp: quiet_def calm_def)
  show thesis
  proof (rule that [OF s_def _ _ r2_def ad quiet_adds [OF ad fin(1)] calm_back [OF adds_grows [OF ad] fin(2)] vb])
    show "stack_inv v b (slot_names b) s"
      unfolding s_def by (rule stack_slots_inv) (simp add: newReport_def Let_def no_resolution_def)
    show "adds (ss_report s) r1" unfolding r1_def by (rule adds_foldl) (rule adds_stack_extension)
  qed
qed

lemma stack_conns:
  assumes "adds (ss_report s) r1" "r2 = foldl (stack_recipe v b s) r1 ixs" "stack_inv v b ns s"
  shows "conns (finish (stack_policies v b r2)) = ss_bound s" "adds (ss_report s) r2"
proof -
  have "adds r1 r2" unfolding assms(2) by (rule adds_foldl) (rule adds_stack_recipe)
  then show "adds (ss_report s) r2" by (rule adds_trans [OF assms(1)])
  then show "conns (finish (stack_policies v b r2)) = ss_bound s"
    using adds_stack_policies [of r2 v b] assms(3) by (simp add: adds_def stack_inv_def)
qed

text \<open>Every slot of a deployable stack is filled: by a connector plugin of the catalog that implements a
  contract of that slot's name, on the stack's model, with a manifest (the connector's own, or the
  one its connection narrows) that has every entity and event the contract asks for and every
  action in the same direction and at no lower risk; and that manifest is the one the report binds.\<close>

theorem deployable_stack_filled:
  assumes "rb_Deployable (rp_body (verify_Blueprint v b))" "map_of (bs_Slots (bp_Spec b)) slot = Some bind"
  shows "\<exists>m. map_of (conns (verify_Blueprint v b)) slot = Some m \<and> slot_filled v (bs_Model (bp_Spec b)) slot bind m"
  using assms(1)
proof (cases rule: deployable_stack)
  case (1 s r1 r2)
  have "slot \<in> set (slot_names b)" using assms(2) by (auto simp: slot_names_def dest: map_of_SomeD intro: rev_image_eqI)
  moreover have "calm (ss_report s)" by (rule calm_back [OF adds_grows [OF stack_conns(2) [OF 1(3,4,2)]] 1(7)])
  ultimately show ?thesis using 1(2) assms(2) stack_conns(1) [OF 1(3,4,2)] 1(8) unfolding stack_inv_def by auto
qed

lemma scope_endpoint_quiet:
  assumes "quiet (fst (foldl (scope_endpoint b s rec path) x eps))" "ep \<in> set eps" "map_of (bs_Slots (bp_Spec b)) ep = None"
  shows "map_of (ss_byConnector s) ep \<noteq> None"
proof -
  obtain x' where "quiet (fst (scope_endpoint b s rec path x' ep))"
    using foldl_round [where pr = fst and P = "\<lambda>_. True", OF adds_grows [OF adds_scope_endpoint] _ assms(2) TrueI assms(1)] by blast
  then show ?thesis using assms(3) by (auto simp: scope_endpoint_def quiet_def split: prod.splits option.splits)
qed

lemma scope_lookup:
  assumes "stack_inv v b dn s"
  shows "map_of (snd (foldl (scope_endpoint b s rec path) (r, ss_bound s) eps)) ep =
    (if ep \<in> set eps \<and> map_of (bs_Slots (bp_Spec b)) ep = None \<and> map_of (ss_byConnector s) ep \<noteq> None
     then map_of (ss_bound s) (the (map_of (ss_byConnector s) ep)) else map_of (ss_bound s) ep)"
proof (induction eps rule: rev_induct)
  case Nil
  then show ?case by simp
next
  case (snoc x xs)
  obtain r' sc where f: "foldl (scope_endpoint b s rec path) (r, ss_bound s) xs = (r', sc)"
    by (cases "foldl (scope_endpoint b s rec path) (r, ss_bound s) xs")
  have b: "map_of (ss_byConnector s) x = Some slot \<Longrightarrow> \<exists>m. map_of (ss_bound s) slot = Some m" for slot
    using assms unfolding stack_inv_def by blast
  have one: "map_of (snd (scope_endpoint b s rec path (r', sc) x)) ep =
      (if ep = x \<and> map_of (bs_Slots (bp_Spec b)) ep = None \<and> map_of (ss_byConnector s) ep \<noteq> None
       then map_of (ss_bound s) (the (map_of (ss_byConnector s) ep)) else map_of sc ep)"
    using b by (auto simp: scope_endpoint_def update_conv' split: option.splits)
  show ?case using snoc by (simp add: f one)
qed

text \<open>In a recipe loop without errors every recipe resolved, its endpoints were scoped without errors, and
  its report is a child.\<close>

lemma stack_recipe_round:
  assumes "quiet (foldl (stack_recipe v b s) r1 ixs)" "(i, ref) \<in> set ixs"
  shows "\<exists>rec q scope. cat_Recipe (vf_cat v) ref = Inr rec
    \<and> quiet (fst (foldl (scope_endpoint b s rec (idx ''spec.recipes'' i)) (q, ss_bound s) (Endpoints rec)))
    \<and> scope = snd (foldl (scope_endpoint b s rec (idx ''spec.recipes'' i)) (q, ss_bound s) (Endpoints rec))
    \<and> verify_recipe v rec scope \<in> set (rp_Children (foldl (stack_recipe v b s) r1 ixs))"
proof -
  obtain us ws where sp: "ixs = us @ (i, ref) # ws" using assms(2) by (metis split_list)
  define q where "q = foldl (stack_recipe v b s) r1 us"
  have grow: "grows (stack_recipe v b s q (i, ref)) (foldl (stack_recipe v b s) r1 ixs)"
    unfolding sp by (auto simp: q_def intro: grows_foldl adds_grows [OF adds_stack_recipe])
  then have quiet: "quiet (stack_recipe v b s q (i, ref))" using assms(1) quiet_back by blast
  then obtain rec where rec: "cat_Recipe (vf_cat v) ref = Inr rec"
    by (auto simp: stack_recipe_def Let_def quiet_def split: sum.splits)
  obtain r' scope where f: "foldl (scope_endpoint b s rec (idx ''spec.recipes'' i)) (q, ss_bound s) (Endpoints rec) = (r', scope)"
    by (cases "foldl (scope_endpoint b s rec (idx ''spec.recipes'' i)) (q, ss_bound s) (Endpoints rec)")
  have "stack_recipe v b s q (i, ref) = rep_child (verify_recipe v rec scope) r'" using rec f by (simp add: stack_recipe_def Let_def)
  then show ?thesis using grow quiet rec f
    by (intro exI [of _ rec] exI [of _ q] exI [of _ scope]) (auto simp: grows_def quiet_def)
qed

text \<open>A deployable stack runs deployable recipes, and only against its own slots: every recipe it names
  is in the catalog, its own report (inside the stack's) is deployable, and each of its endpoints
  is a slot, or the name of the connector that fills one, and was verified against exactly the
  manifest that fills that slot.\<close>

theorem deployable_stack_recipes:
  assumes "rb_Deployable (rp_body (verify_Blueprint v b))" "ref \<in> set (bs_Recipes (bp_Spec b))"
  shows "\<exists>rec scope. cat_Recipe (vf_cat v) ref = Inr rec
    \<and> verify_recipe v rec scope \<in> set (rp_Children (verify_Blueprint v b)) \<and> rb_Deployable (rp_body (verify_recipe v rec scope))
    \<and> (\<forall>ep. ep \<in> set (Endpoints rec) \<longrightarrow> (\<exists>slot m. map_of (conns (verify_Blueprint v b)) slot = Some m
         \<and> map_of scope ep = Some m \<and> (ep = slot \<or> ep = om_Name (cm_Metadata m))))"
  using assms(1)
proof (cases rule: deployable_stack)
  case (1 s r1 r2)
  obtain i where ix: "(i, ref) \<in> set (enumerate 0 (bs_Recipes (bp_Spec b)))" using enumerate_mem [OF assms(2)] by blast
  let ?path = "idx ''spec.recipes'' i"
  obtain rec scope q where rec: "cat_Recipe (vf_cat v) ref = Inr rec"
      and sc: "quiet (fst (foldl (scope_endpoint b s rec ?path) (q, ss_bound s) (Endpoints rec)))"
      "scope = snd (foldl (scope_endpoint b s rec ?path) (q, ss_bound s) (Endpoints rec))"
      "verify_recipe v rec scope \<in> set (rp_Children r2)"
    using stack_recipe_round [OF _ ix, of v b s r1] 1(4,6) by auto
  note look = scope_lookup [OF 1(2), of rec ?path q "Endpoints rec", folded sc(2)]
  have bound: "conns (verify_Blueprint v b) = ss_bound s" using stack_conns(1) [OF 1(3,4,2)] 1(8) by simp
  have calm: "calm (ss_report s)" by (rule calm_back [OF adds_grows [OF stack_conns(2) [OF 1(3,4,2)]] 1(7)])
  have ends: "\<exists>slot m. map_of (ss_bound s) slot = Some m \<and> map_of scope ep = Some m \<and> (ep = slot \<or> ep = om_Name (cm_Metadata m))"
    if ep: "ep \<in> set (Endpoints rec)" for ep
  proof (cases "map_of (bs_Slots (bp_Spec b)) ep")
    case None
    then obtain slot where "map_of (ss_byConnector s) ep = Some slot" using scope_endpoint_quiet [OF sc(1) ep] by blast
    moreover from this obtain m where "map_of (ss_bound s) slot = Some m" "om_Name (cm_Metadata m) = ep"
      using 1(2) unfolding stack_inv_def by blast
    ultimately show ?thesis using None ep look [of ep] by auto
  next
    case (Some bind)
    then have "ep \<in> set (slot_names b)" by (auto simp: slot_names_def dest: map_of_SomeD intro: rev_image_eqI)
    then obtain m where "map_of (ss_bound s) ep = Some m" using Some calm 1(2) unfolding stack_inv_def by blast
    then show ?thesis using Some look [of ep] by auto
  qed
  have "verify_recipe v rec scope \<in> set (rp_Children (verify_Blueprint v b))"
    using sc(3) adds_grows [OF 1(5)] 1(8) by (auto simp: grows_def)
  moreover have "rb_Deployable (rp_body (verify_recipe v rec scope))" using sc(3) 1(7) by (auto simp: calm_def)
  ultimately show ?thesis using rec ends bound by auto
qed

section \<open>Honest verdicts\<close>

lemma grows_stack_slots: "grows r (ss_report (stack_slots v b r))"
proof -
  have "grows (ss_report s) (ss_report (slot_step v b s slot))" for s slot
    using slot_step_out [of b slot _ v s] by (cases "map_of (bs_Slots (bp_Spec b)) slot") (auto simp: slot_step_def slot_out_def)
  from grows_pr_foldl [where pr = ss_report and f = "slot_step v b", OF this] show ?thesis
    unfolding stack_slots_def by (metis stack_state.select_convs(1))
qed

lemma verify_Blueprint_honest: "honest (verify_Blueprint v b)"
proof -
  obtain k r where sc: "schema (OBlueprint b) (newReport (OBlueprint b)) = (k, r)"
    by (cases "schema (OBlueprint b) (newReport (OBlueprint b))")
  have r: "grows (newReport (OBlueprint b)) r" by (rule adds_grows [OF adds_schema [OF sc]])
  have "grows r (stack_stages v b r)"
    unfolding stack_stages_def Let_def
    by (rule grows_trans [OF grows_stack_slots adds_grows],
        rule adds_trans [OF adds_trans [OF adds_foldl adds_foldl] adds_stack_policies])
      (rule adds_stack_extension adds_stack_recipe)+
  then show ?thesis using sc r by (cases k) (auto simp: verify_Blueprint_def intro: honest_grown grows_trans)
qed

text \<open>Verdicts are honest. Whatever kind of object is verified, when its report says deployable there is
  no error anywhere in it, nor in any report inside it, however deep, and nothing waits for review.\<close>

theorem Verify_deployable_clean:
  assumes "rb_Deployable (rp_body (verifier_Verify v obj))"
  shows "Errors (verifier_Verify v obj) = [] \<and> rb_ReviewQueue (rp_body (verifier_Verify v obj)) = []"
proof -
  have other: "honest (finish (snd (schema obj (newReport obj))))" for obj
    by (rule honest_grown [OF adds_grows [OF adds_schema]]) (auto simp: prod_eq_iff)
  have "honest (verifier_Verify v obj)"
    by (auto simp: verifier_Verify_def verify_Recipe_def verify_recipe_honest verify_Blueprint_honest verify_Plugin_honest other
        split: object.split)
  then show ?thesis using honest_Errors [of "verifier_Verify v obj"] assms by (cases "verifier_Verify v obj") auto
qed

end
