(* ===== verification/Verify_Demo.thy ===== *)
theory Verify_Demo
  imports Verify_Blueprint
begin

text \<open>
  A small stack that verifies: one slot filled by a connector plugin, and one recipe that maps an
  order and writes it. The parameters of the verifier are concrete functions here (every expression
  compiles, the digest is the expression itself, policies compile and pass). Evaluating the verifier
  on it shows that the hypotheses of the theorems on verdicts can hold.
\<close>

definition demo_meta :: "string \<Rightarrow> object_meta" where
  "demo_meta name = \<lparr>om_Name = name, om_Version = ''1.0.0'', om_Publisher = ''acme'', om_Certification = [],
     om_Description = [], om_Labels = []\<rparr>"

definition demo_type :: "string \<Rightarrow> type_meta" where
  "demo_type kind = \<lparr>tm_APIVersion = APIVersion, tm_Kind = kind\<rparr>"

definition demo_erp :: connector_manifest where
  "demo_erp =
     \<lparr>cm_Type = demo_type KindConnectorManifest, cm_Metadata = demo_meta ''sap'',
      cm_Spec = \<lparr>cs_System = ''SAP'', cs_Runtime = ''native'',
        cs_Auth = \<lparr>auth_Methods = [''basic''], auth_SecretRef = ''vault://sap''\<rparr>, cs_Discovery = [],
        cs_Interfaces = \<lparr>ifs_Read = [], ifs_Write = [\<lparr>if_Kind = ''bapi'', if_Simulation = ''testrun''\<rparr>],
          ifs_Events = [\<lparr>if_Kind = ''idoc'', if_Simulation = []\<rparr>],
          ifs_Prohibited = [\<lparr>pi_Kind = ''sql'', pi_Reason = ''corrupts''\<rparr>]\<rparr>,
        cs_Entities = [''order''],
        cs_Events = [\<lparr>ev_Name = ''order.created'', ev_Entity = ''order'', ev_Interface = ''idoc''\<rparr>],
        cs_Operations =
          [\<lparr>op_Name = ''create'', op_Entity = ''order'', op_Direction = DirectionWrite, op_Interface = ''bapi'',
            op_Risk = RiskHigh, op_Compensation = ''cancel''\<rparr>,
           \<lparr>op_Name = ''cancel'', op_Entity = ''order'', op_Direction = DirectionWrite, op_Interface = ''bapi'',
            op_Risk = RiskLow, op_Compensation = []\<rparr>],
        cs_Limits = \<lparr>lim_MaxConcurrentCalls = 2, lim_RequestsPerSecond = 5\<rparr>, cs_SAPDigitalAccess = True,
        cs_SemanticBindings = []\<rparr>\<rparr>"

definition demo_contract :: slot_contract where
  "demo_contract = \<lparr>sl_Type = demo_type KindSlotContract, sl_Metadata = demo_meta ''erp'', sl_Model = ''core'',
     sl_Entities = [''order''], sl_Events = [''order.created''],
     sl_Actions = [\<lparr>ca_Name = ''create'', ca_Entity = ''order'', ca_Risk = RiskLow\<rparr>]\<rparr>"

definition demo_plugin :: plugin where
  "demo_plugin = \<lparr>pg_Type = demo_type KindPlugin, pg_Metadata = demo_meta ''sap-plugin'',
     pg_Spec = \<lparr>ps_Type = PluginConnector, ps_Runtime = PluginRuntimeContainer, ps_World = [], ps_Module = [],
       ps_Implements = [''erp@1''], ps_Connector = ''sap@1'', ps_Subscribes = [],
       ps_Permissions = \<lparr>pp_Entities = None, pp_NetworkAllow = None, pp_EventsPublish = None, pp_Secrets = []\<rparr>,
       ps_Limits = Some \<lparr>pl_MemoryMB = 64, pl_TimeoutMs = 1000\<rparr>, ps_UIPanel = None\<rparr>\<rparr>"

definition demo_mapping :: mapping_obj where
  "demo_mapping = \<lparr>mo_Type = demo_type KindMapping, mo_Metadata = demo_meta ''order-map'',
     mo_Spec = \<lparr>ma_From = ''erp.order'', ma_To = ''model.order'',
       ma_Fields = [\<lparr>fm_Target = ''total'', fm_Expression = ''amount'', fm_Origin = OriginHuman, fm_Confidence = 0,
         fm_Approved = True, fm_Rationale = []\<rparr>]\<rparr>\<rparr>"

definition demo_map_step :: map_step where
  "demo_map_step = \<lparr>mst_From = ''erp.order'', mst_To = ''model.order'', mst_Mapping = ''order-map@1''\<rparr>"

definition demo_write :: write_step where
  "demo_write = \<lparr>wst_Target = ''erp'', wst_Operation = ''create'', wst_IdempotencyKey = ''k'', wst_Simulate = True,
     wst_Approval = ApprovalRequired, wst_Compensation = [], wst_Output = [], wst_Amount = ''total'',
     wst_CheckAmount = Some \<lparr>sac_Preview = ''net'', sac_Tolerance = 0\<rparr>\<rparr>"

definition demo_recipe :: recipe where
  "demo_recipe = \<lparr>rc_Type = demo_type KindRecipe, rc_Metadata = demo_meta ''sync'',
     rc_Spec = \<lparr>rs_TriggerSource = ''erp'', rs_TriggerEvent = ''order.created'', rs_Connectors = [],
       rs_Steps = [\<lparr>st_Map = Some demo_map_step, st_Resolve = None, st_Write = None\<rparr>,
         \<lparr>st_Map = None, st_Resolve = None, st_Write = Some demo_write\<rparr>],
       rs_Policies = [], rs_Capacity = Some 2, rs_SLO = None, rs_Extensions = []\<rparr>\<rparr>"

definition demo_binding :: slot_binding where
  "demo_binding = \<lparr>sb_Plugin = ''sap-plugin'', sb_Version = ''1'', sb_Connection = []\<rparr>"

definition demo_stack :: stack_blueprint where
  "demo_stack = \<lparr>bp_Type = demo_type KindStackBlueprint, bp_Metadata = demo_meta ''stack'',
     bp_Spec = \<lparr>bs_Model = ''core'', bs_Slots = [(''erp'', demo_binding)], bs_Extensions = [],
       bs_Recipes = [''sync@1''], bs_Policies = []\<rparr>\<rparr>"

definition demo_catalog :: catalog where
  "demo_catalog =
     (case FromDocuments [(OConnector demo_erp, []), (OContract demo_contract, []), (OPlugin demo_plugin, []),
        (OMapping demo_mapping, []), (ORecipe demo_recipe, [])] of
        Inl e \<Rightarrow> New_catalog | Inr c \<Rightarrow> c)"

definition demo_env :: verify_env where
  "demo_env = \<lparr>ve_Check = (\<lambda>e. None), ve_Digest = (\<lambda>e. e), ve_PluginModule = (\<lambda>p. Inr []),
     ve_Load = (\<lambda>b l. Inr \<lparr>lm_World = [], lm_Imports = []\<rparr>), ve_Compile = (\<lambda>ms. None),
     ve_Test = (\<lambda>ms. Inr ([], 0)), ve_DefinesWriteback = (\<lambda>ms. True)\<rparr>"

definition demo_verifier :: verifier where
  "demo_verifier = \<lparr>vf_cat = demo_catalog,
     vf_opts = \<lparr>vo_ReviewThreshold = 1, vo_WriteReviewThreshold = 1, vo_CapacityHeadroom = 1, vo_Reviews = []\<rparr>,
     vf_env = demo_env\<rparr>"

section \<open>The recipe\<close>

lemma verify_recipe_valid: "Recipe_Validate rec = [] \<Longrightarrow> verify_recipe v rec bound =
    finish (recipe_stages v rec bound (upd_res (\<lambda>x. x\<lparr>res_Recipe := Some rec\<rparr>) (newReport (ORecipe rec))))"
  by (simp add: verify_recipe_def schema_def Let_def)

lemma demo_recipe_deployable: "rb_Deployable (rp_body (verify_recipe demo_verifier demo_recipe [(''erp'', demo_erp)]))"
proof -
  have "Recipe_Validate demo_recipe = []" by code_simp
  note eq = verify_recipe_valid [OF this]
  show ?thesis unfolding eq by code_simp
qed

lemma demo_steps: "rs_Steps (rc_Spec demo_recipe) = [\<lparr>st_Map = Some demo_map_step, st_Resolve = None, st_Write = None\<rparr>,
    \<lparr>st_Map = None, st_Resolve = None, st_Write = Some demo_write\<rparr>]"
  by (simp add: demo_recipe_def)

theorem deployable_writes_are_safe_witness:
  "\<exists>m. write_ok m demo_write \<and> 2 \<le> lim_RequestsPerSecond (cs_Limits (cm_Spec m))"
  using deployable_writes_are_safe [OF demo_recipe_deployable, of "\<lparr>st_Map = None, st_Resolve = None, st_Write = Some demo_write\<rparr>" demo_write]
  by (auto simp: demo_steps) (auto simp: demo_recipe_def)

theorem deployable_mappings_are_reviewed_witness:
  "\<exists>m. cat_Mapping demo_catalog ''order-map@1'' = Inr m \<and> ma_From (mo_Spec m) = ''erp.order''"
  using deployable_mappings_are_reviewed [OF demo_recipe_deployable,
      of "\<lparr>st_Map = Some demo_map_step, st_Resolve = None, st_Write = None\<rparr>" demo_map_step]
  by (auto simp: demo_steps demo_map_step_def demo_verifier_def)

section \<open>The stack\<close>

lemma verify_Blueprint_valid: "StackBlueprint_Validate b = [] \<Longrightarrow>
    verify_Blueprint v b = finish (stack_stages v b (newReport (OBlueprint b)))"
  by (simp add: verify_Blueprint_def schema_def Let_def)

definition demo_slots :: stack_state where
  "demo_slots = stack_slots demo_verifier demo_stack (newReport (OBlueprint demo_stack))"

lemma demo_slots_facts:
  "ss_bound demo_slots = [(''erp'', demo_erp)]" "quiet (ss_report demo_slots)" "calm (ss_report demo_slots)"
  unfolding quiet_def calm_def by code_simp+

lemma demo_refs: "cat_Recipe demo_catalog ''sync@1'' = Inr demo_recipe" "Endpoints demo_recipe = [''erp'']"
  by code_simp+

lemma demo_fields: "vf_cat demo_verifier = demo_catalog" "bs_Slots (bp_Spec demo_stack) = [(''erp'', demo_binding)]"
    "bs_Extensions (bp_Spec demo_stack) = []" "bs_Recipes (bp_Spec demo_stack) = [''sync@1'']" "bs_Policies (bp_Spec demo_stack) = []"
  by (simp_all add: demo_verifier_def demo_stack_def)

lemma demo_stack_deployable: "rb_Deployable (rp_body (verify_Blueprint demo_verifier demo_stack))"
proof -
  have "StackBlueprint_Validate demo_stack = []" by code_simp
  note eq = verify_Blueprint_valid [OF this]
  have "stack_stages demo_verifier demo_stack (newReport (OBlueprint demo_stack)) =
      rep_child (verify_recipe demo_verifier demo_recipe [(''erp'', demo_erp)]) (ss_report demo_slots)
      \<or> res_Policies (rb_Resolution (rp_body (ss_report demo_slots))) \<noteq> []"
    using demo_refs demo_slots_facts(1)
    by (simp add: stack_stages_def demo_slots_def [symmetric] Let_def demo_fields stack_policies_def stack_recipe_def
        scope_endpoint_def checkPolicies_def)
  moreover have "res_Policies (rb_Resolution (rp_body (ss_report demo_slots))) = []" by code_simp
  ultimately show ?thesis unfolding eq finish_Deployable
    using demo_slots_facts(2,3) demo_recipe_deployable by (auto simp: quiet_def calm_def)
qed

theorem deployable_stack_filled_witness:
  "\<exists>m. map_of (conns (verify_Blueprint demo_verifier demo_stack)) ''erp'' = Some m
     \<and> slot_filled demo_verifier ''core'' ''erp'' demo_binding m"
  using deployable_stack_filled [OF demo_stack_deployable, of "''erp''" demo_binding] by (simp add: demo_stack_def)

theorem deployable_stack_recipes_witness:
  "\<exists>rec. cat_Recipe demo_catalog ''sync@1'' = Inr rec"
  using deployable_stack_recipes [OF demo_stack_deployable, of "''sync@1''"] by (auto simp: demo_stack_def demo_verifier_def)

theorem Verify_deployable_clean_witness: "Errors (verifier_Verify demo_verifier (OBlueprint demo_stack)) = []"
  using Verify_deployable_clean [of demo_verifier "OBlueprint demo_stack"] demo_stack_deployable by (simp add: verifier_Verify_def)

end
