(* ===== verification/Compiler.thy ===== *)
theory Compiler
  imports Verify_Blueprint
begin

text \<open>
  The compiler, \<open>pkg/compiler/compiler.go\<close>: a deployable recipe or stack becomes a runtime spec. The
  builder's maps are association lists; where Go iterates over a map in an unspecified order the
  model iterates over the list, and the theory \<open>Compiler_Props\<close> shows when the order does not
  matter. A nil dereference is the result \<^term>\<open>None\<close> of a building step. Parameters: reading a
  plugin's module and hashing it, and the digest of a body (SHA-256 of its JSON encoding).
\<close>

section \<open>Runtime specs\<close>

record connector_config =
  cc_Endpoint :: string
  cc_Name :: string
  cc_Version :: string
  cc_Runtime :: string
  cc_SecretRef :: string
  cc_Interfaces :: "string list"
  cc_Prohibited :: "string list"
  cc_Limits :: limits
  cc_Metered :: bool
  cc_Connection :: string
  cc_Config :: raw

record topic =
  tp_Name :: string
  tp_Partitions :: int
  tp_Entity :: string

record workflow_source =
  ws_Endpoint :: string
  ws_Connector :: string
  ws_Event :: string
  ws_Interface :: string
  ws_Topic :: string

record map_config =
  mc_Mapping :: string
  mc_From :: string
  mc_To :: string
  mc_Fields :: "(string \<times> string) list"

record resolve_config =
  rcf_Entity :: string
  rcf_Strategy :: string
  rcf_AutoMatchAbove :: rat
  rcf_Match :: "match_field list"
  rcf_Ref :: string
  rcf_Into :: string

record write_config =
  wc_Endpoint :: string
  wc_Connector :: string
  wc_Operation :: string
  wc_Interface :: string
  wc_Risk :: string
  wc_Entity :: string
  wc_IdempotencyKey :: string
  wc_Simulation :: string
  wc_Approval :: string
  wc_Compensation :: string
  wc_Metered :: bool
  wc_Output :: string
  wc_Event :: string
  wc_Plugins :: "string list"
  wc_Amount :: string
  wc_CheckAmount :: "step_amount_check option"

record workflow_step =
  wfs_Name :: string
  wfs_Map :: "map_config option"
  wfs_Resolve :: "resolve_config option"
  wfs_Write :: "write_config option"

record workflow =
  wf_Name :: string
  wf_Trigger :: workflow_source
  wf_Steps :: "workflow_step list"
  wf_SLO :: "string option"
  wf_Policies :: "string list"

record entity_operation =
  eo_Endpoint :: string
  eo_Operation :: string
  eo_Risk :: string
  eo_IDField :: string

record plugin_deployment =
  pd_Name :: string
  pd_Version :: string
  pd_Publisher :: string
  pd_Type :: string
  pd_Runtime :: string
  pd_World :: string
  pd_Slot :: string
  pd_Subscribes :: "string list"
  pd_Grants :: plugin_permissions
  pd_Limits :: "plugin_limits option"
  pd_UIPanel :: string
  pd_Module :: string
  pd_ModuleSHA256 :: string
  pd_Reads :: "(string \<times> entity_operation) list"
  pd_Proposals :: "(string \<times> entity_operation) list"
  pd_Secrets :: "(string \<times> string) list"

record agent_tool =
  at_Name :: string
  at_Description :: string
  at_Risk :: string
  at_Endpoint :: string
  at_Operation :: string
  at_Entity :: string
  at_Fields :: "string list"
  at_Simulate :: bool
  at_Amount :: string
  at_CheckAmount :: "step_amount_check option"

record policy_ref =
  pf_Name :: string
  pf_Version :: string
  pf_Rego :: string

record monitor =
  mn_Name :: string
  mn_Kind :: string
  mn_Workflow :: string
  mn_Target :: string
  mn_TargetSeconds :: rat

record runtime_body =
  bd_Connectors :: "connector_config list"
  bd_Topics :: "topic list"
  bd_Workflows :: "workflow list"
  bd_Plugins :: "plugin_deployment list"
  bd_Tools :: "agent_tool list"
  bd_Policies :: "policy_ref list"
  bd_Monitors :: "monitor list"

record signature =
  sig_KeyID :: string
  sig_Algorithm :: string
  sig_Value :: string

record runtime_spec =
  sp_APIVersion :: string
  sp_Kind :: string
  sp_Name :: string
  sp_Source :: string
  sp_Level :: string
  sp_Digest :: string
  sp_Signatures :: "signature list"
  sp_Body :: runtime_body

definition KindRuntimeSpec :: string where
  "KindRuntimeSpec = ''RuntimeSpec''"

section \<open>The builder\<close>

record entity_op =
  eop_endpoint :: string
  eop_op :: operation

record compile_env =
  ce_PluginModule :: "plugin \<Rightarrow> goerror + string"
  ce_SHA256 :: "string \<Rightarrow> string"
  ce_Digest :: "runtime_body \<Rightarrow> string"

record builder =
  bl_body :: runtime_body
  bl_connectors :: "(string \<times> connector_config) list"
  bl_topics :: "(string \<times> topic) list"
  bl_tools :: "(string \<times> agent_tool) list"
  bl_policies :: "(string \<times> policy_ref) list"
  bl_alias :: "(string \<times> string) list"
  bl_entityOps :: "(string \<times> entity_op list) list"
  bl_err :: "goerror option"

definition empty_body :: runtime_body where
  "empty_body = \<lparr>bd_Connectors = [], bd_Topics = [], bd_Workflows = [], bd_Plugins = [], bd_Tools = [], bd_Policies = [],
     bd_Monitors = []\<rparr>"

definition newBuilder :: builder where
  "newBuilder = \<lparr>bl_body = empty_body, bl_connectors = [], bl_topics = [], bl_tools = [], bl_policies = [], bl_alias = [],
     bl_entityOps = [], bl_err = None\<rparr>"

definition ref_of :: "object_meta \<Rightarrow> string" where
  "ref_of m = (if om_Version m = [] then om_Name m else om_Name m @ ''@'' @ om_Version m)"

definition topicName :: "string \<Rightarrow> string \<Rightarrow> string" where
  "topicName con event = ''turgon.'' @ con @ ''.'' @ map to_lower (ReplaceByte (CHR ''.'') (CHR ''-'') event)"

definition humanize :: "string \<Rightarrow> string" where
  "humanize op = (case ReplaceByte (CHR ''-'') (CHR '' '') op of [] \<Rightarrow> [] | c # cs \<Rightarrow> to_upper c # cs)"

definition bl_endpoint :: "builder \<Rightarrow> string \<Rightarrow> string" where
  "bl_endpoint b name = (case map_of (bl_alias b) name of Some slot \<Rightarrow> slot | None \<Rightarrow> name)"

definition new_connector :: "string \<Rightarrow> connector_manifest \<Rightarrow> connector_config" where
  "new_connector endpoint m =
     \<lparr>cc_Endpoint = endpoint, cc_Name = om_Name (cm_Metadata m), cc_Version = om_Version (cm_Metadata m),
      cc_Runtime = cs_Runtime (cm_Spec m), cc_SecretRef = auth_SecretRef (cs_Auth (cm_Spec m)), cc_Interfaces = [],
      cc_Prohibited = sort (map pi_Kind (ifs_Prohibited (cs_Interfaces (cm_Spec m)))), cc_Limits = cs_Limits (cm_Spec m),
      cc_Metered = cs_SAPDigitalAccess (cm_Spec m), cc_Connection = [], cc_Config = RawEmpty\<rparr>"

definition bl_connector :: "string \<Rightarrow> connector_manifest \<Rightarrow> string \<Rightarrow> builder \<Rightarrow> builder" where
  "bl_connector endpoint0 m iface b =
     (let endpoint = bl_endpoint b endpoint0;
          c = (case map_of (bl_connectors b) endpoint of Some c \<Rightarrow> c | None \<Rightarrow> new_connector endpoint m);
          c1 = (if iface \<noteq> [] \<and> iface \<notin> set (cc_Interfaces c)
                then c\<lparr>cc_Interfaces := sort (cc_Interfaces c @ [iface])\<rparr> else c)
      in b\<lparr>bl_connectors := AList.update endpoint c1 (bl_connectors b)\<rparr>)"

definition bl_tool :: "string \<Rightarrow> string \<Rightarrow> string \<Rightarrow> string \<Rightarrow> string \<Rightarrow> builder \<Rightarrow> builder" where
  "bl_tool endpoint op en risk desc b =
     b\<lparr>bl_tools := AList.update (endpoint @ ''/'' @ op)
        \<lparr>at_Name = [], at_Description = desc, at_Risk = risk, at_Endpoint = endpoint, at_Operation = op, at_Entity = en,
         at_Fields = [], at_Simulate = False, at_Amount = [], at_CheckAmount = None\<rparr> (bl_tools b)\<rparr>"

definition writeTool :: "string \<Rightarrow> operation \<Rightarrow> string \<Rightarrow> string list option \<Rightarrow> write_step \<Rightarrow> builder \<Rightarrow> builder" where
  "writeTool endpoint op desc fs w b =
     (let key = endpoint @ ''/'' @ op_Name op;
          own = (case fs of None \<Rightarrow> [] | Some xs \<Rightarrow> xs);
          (all, simulate, amount, check) =
            (case map_of (bl_tools b) key of
               None \<Rightarrow> (own, wst_Simulate w, wst_Amount w, wst_CheckAmount w)
             | Some prev \<Rightarrow>
                 (own @ at_Fields prev, wst_Simulate w \<or> at_Simulate prev,
                  if at_Amount prev \<noteq> [] then at_Amount prev else wst_Amount w,
                  if at_CheckAmount prev \<noteq> None then at_CheckAmount prev else wst_CheckAmount w))
      in b\<lparr>bl_tools := AList.update key
           \<lparr>at_Name = [], at_Description = desc, at_Risk = op_Risk op, at_Endpoint = endpoint, at_Operation = op_Name op,
            at_Entity = op_Entity op, at_Fields = sort (remdups all), at_Simulate = simulate, at_Amount = amount,
            at_CheckAmount = check\<rparr> (bl_tools b)\<rparr>)"

definition offer :: "string \<Rightarrow> builder \<Rightarrow> operation \<Rightarrow> builder" where
  "offer endpoint b op =
     (let known = (case map_of (bl_entityOps b) (op_Entity op) of None \<Rightarrow> [] | Some os \<Rightarrow> os)
      in if op_Entity op = [] \<or> list_ex (\<lambda>o'. eop_endpoint o' = endpoint \<and> op_Name (eop_op o') = op_Name op) known then b
         else b\<lparr>bl_entityOps := AList.update (op_Entity op) (known @ [\<lparr>eop_endpoint = endpoint, eop_op = op\<rparr>]) (bl_entityOps b)\<rparr>)"

definition offers :: "builder \<Rightarrow> string \<times> connector_manifest \<Rightarrow> builder" where
  "offers b x = (case x of (ep, m) \<Rightarrow> foldl (offer (bl_endpoint b ep)) b (cs_Operations (cm_Spec m)))"

definition plain_deployment :: "plugin \<Rightarrow> string \<Rightarrow> plugin_deployment" where
  "plain_deployment p slot =
     \<lparr>pd_Name = om_Name (pg_Metadata p), pd_Version = om_Version (pg_Metadata p), pd_Publisher = om_Publisher (pg_Metadata p),
      pd_Type = ps_Type (pg_Spec p), pd_Runtime = ps_Runtime (pg_Spec p), pd_World = ps_World (pg_Spec p), pd_Slot = slot,
      pd_Subscribes = ps_Subscribes (pg_Spec p), pd_Grants = ps_Permissions (pg_Spec p), pd_Limits = ps_Limits (pg_Spec p),
      pd_UIPanel = (case ps_UIPanel (pg_Spec p) of None \<Rightarrow> [] | Some panel \<Rightarrow> panel), pd_Module = [], pd_ModuleSHA256 = [],
      pd_Reads = [], pd_Proposals = [], pd_Secrets = []\<rparr>"

definition SecretRef :: "string \<Rightarrow> string \<Rightarrow> string" where
  "SecretRef plugin handle = ''openbao://plugins/'' @ plugin @ ''/'' @ handle"

definition bl_deployment :: "compile_env \<Rightarrow> plugin \<Rightarrow> string \<Rightarrow> builder \<Rightarrow> plugin_deployment \<times> builder" where
  "bl_deployment env p slot b =
     (let d = plain_deployment p slot
      in if ps_Type (pg_Spec p) = PluginLogic \<and> ps_Runtime (pg_Spec p) = PluginRuntimeWasm then
           let (md, b1) = (case ce_PluginModule env p of
                 Inl e \<Rightarrow> ([], if bl_err b = None then b\<lparr>bl_err := Some e\<rparr> else b)
               | Inr md \<Rightarrow> (md, b))
           in (d\<lparr>pd_Module := md, pd_ModuleSHA256 := ce_SHA256 env md,
                 pd_Secrets := foldl (\<lambda>s h. AList.update h (SecretRef (om_Name (pg_Metadata p)) h) s) [] (pp_Secrets (ps_Permissions (pg_Spec p)))\<rparr>, b1)
         else (d, b))"

definition deploy :: "compile_env \<Rightarrow> plugin \<Rightarrow> string \<Rightarrow> builder \<Rightarrow> builder" where
  "deploy env p slot b =
     (case bl_deployment env p slot b of
        (d, b1) \<Rightarrow> b1\<lparr>bl_body := (bl_body b1)\<lparr>bd_Plugins := bd_Plugins (bl_body b1) @ [d]\<rparr>\<rparr>)"

definition bl_extension :: "compile_env \<Rightarrow> builder \<Rightarrow> plugin \<Rightarrow> builder" where
  "bl_extension env b p =
     (if list_ex (\<lambda>d. pd_Name d = om_Name (pg_Metadata p) \<and> pd_Slot d = []) (bd_Plugins (bl_body b)) then b
      else deploy env p [] b)"

section \<open>Recipes\<close>

definition ResolveConfig_Fields :: "resolve_config \<Rightarrow> string \<times> string" where
  "ResolveConfig_Fields r =
     (let field = lower_first (TrimPrefix (rcf_Entity r) ''model.'')
      in (if rcf_Ref r = [] then field @ ''Ref'' else rcf_Ref r, if rcf_Into r = [] then field @ ''Id'' else rcf_Into r))"

text \<open>\<open>%02d\<close>\<close>

definition pad2 :: "nat \<Rightarrow> string" where
  "pad2 n = (if n < 10 then ''0'' @ Itoa n else Itoa n)"

definition compile_map :: "report \<Rightarrow> string \<Rightarrow> map_step \<Rightarrow> (workflow_step \<times> string list) option" where
  "compile_map rep name s =
     (case map_of (res_Mappings (rb_Resolution (rp_body rep))) (mst_Mapping s) of
        None \<Rightarrow> None
      | Some m \<Rightarrow>
          let fs = ma_Fields (mo_Spec m)
          in Some (\<lparr>wfs_Name = name,
                wfs_Map = Some \<lparr>mc_Mapping = ref_of (mo_Metadata m), mc_From = mst_From s, mc_To = mst_To s,
                  mc_Fields = foldl (\<lambda>a f. AList.update (fm_Target f) (fm_Expression f) a) [] fs\<rparr>,
                wfs_Resolve = None, wfs_Write = None\<rparr>, map fm_Target fs))"

definition compile_resolve :: "string \<Rightarrow> resolve_step \<Rightarrow> workflow_step" where
  "compile_resolve name s =
     \<lparr>wfs_Name = name, wfs_Map = None,
      wfs_Resolve = Some \<lparr>rcf_Entity = rst_Entity s, rcf_Strategy = rst_Strategy s, rcf_AutoMatchAbove = rst_AutoMatchAbove s,
        rcf_Match = rst_Match s, rcf_Ref = rst_Ref s, rcf_Into = rst_Into s\<rparr>,
      wfs_Write = None\<rparr>"

text \<open>The zero values of Go for an operation or event that is not found.\<close>

definition op_or_zero :: "operation option \<Rightarrow> operation" where
  "op_or_zero o' = (case o' of Some op \<Rightarrow> op | None \<Rightarrow>
     \<lparr>op_Name = [], op_Entity = [], op_Direction = [], op_Interface = [], op_Risk = [], op_Compensation = []\<rparr>)"

definition event_or_zero :: "connector_event option \<Rightarrow> connector_event" where
  "event_or_zero o' = (case o' of Some e \<Rightarrow> e | None \<Rightarrow> \<lparr>ev_Name = [], ev_Entity = [], ev_Interface = []\<rparr>)"

definition write_undo :: "write_step \<Rightarrow> operation \<Rightarrow> string" where
  "write_undo w op = (if wst_Compensation w = [] then op_Compensation op else wst_Compensation w)"

definition write_config_of :: "builder \<Rightarrow> connector_manifest \<Rightarrow> write_step \<Rightarrow> write_config" where
  "write_config_of b m w =
     (let op = op_or_zero (cm_Operation m (wst_Operation w))
      in \<lparr>wc_Endpoint = bl_endpoint b (wst_Target w), wc_Connector = om_Name (cm_Metadata m), wc_Operation = op_Name op,
          wc_Interface = op_Interface op, wc_Risk = op_Risk op, wc_Entity = op_Entity op,
          wc_IdempotencyKey = wst_IdempotencyKey w,
          wc_Simulation = (if wst_Simulate w then (case Permitted m DirectionWrite (op_Interface op) of
             Inl e \<Rightarrow> [] | Inr iface \<Rightarrow> if_Simulation iface) else []),
          wc_Approval = (if wst_Approval w = [] then ApprovalPolicy else wst_Approval w),
          wc_Compensation = write_undo w op, wc_Metered = cs_SAPDigitalAccess (cm_Spec m), wc_Output = wst_Output w,
          wc_Event = [], wc_Plugins = [], wc_Amount = wst_Amount w, wc_CheckAmount = wst_CheckAmount w\<rparr>)"

definition compile_write ::
  "report \<Rightarrow> string \<Rightarrow> write_step \<Rightarrow> string list option \<Rightarrow> builder \<Rightarrow> (workflow_step \<times> builder) option" where
  "compile_write rep name w fs b =
     (case find_conn rep (wst_Target w) of
        None \<Rightarrow> None
      | Some m \<Rightarrow>
          let op = op_or_zero (cm_Operation m (wst_Operation w));
              b1 = (case cm_Operation m (write_undo w op) of
                      Some cop \<Rightarrow> bl_connector (wst_Target w) m (op_Interface cop) b | None \<Rightarrow> b);
              b2 = bl_connector (wst_Target w) m (op_Interface op) b1
          in Some (\<lparr>wfs_Name = name, wfs_Map = None, wfs_Resolve = None, wfs_Write = Some (write_config_of b m w)\<rparr>,
               writeTool (bl_endpoint b2 (wst_Target w)) op (humanize (op_Name op) @ '' via '' @ wst_Target w) fs w b2))"

text \<open>One step: its configuration and the fields of the document after it, once a mapping fixed them.\<close>

definition compile_step ::
  "report \<Rightarrow> nat \<Rightarrow> step \<Rightarrow> string list option \<Rightarrow> builder \<Rightarrow> (workflow_step \<times> string list option \<times> builder) option" where
  "compile_step rep i s fs b =
     (let name = pad2 (Suc i) @ ''-'' @ step_Kind s
      in case st_Map s of
           Some m \<Rightarrow> map_option (\<lambda>(ws, fs'). (ws, Some fs', b)) (compile_map rep name m)
         | None \<Rightarrow>
             (case st_Resolve s of
                Some r \<Rightarrow>
                  let ws = compile_resolve name r
                  in Some (ws, map_option (\<lambda>xs. snd (ResolveConfig_Fields (the (wfs_Resolve ws))) # xs) fs, b)
              | None \<Rightarrow>
                  (case st_Write s of
                     Some w \<Rightarrow>
                       map_option (\<lambda>(ws, b'). (ws,
                         (if wst_Output w = [] then fs else map_option (\<lambda>xs. wst_Output w # xs) fs), b'))
                         (compile_write rep name w fs b)
                   | None \<Rightarrow> Some (\<lparr>wfs_Name = name, wfs_Map = None, wfs_Resolve = None, wfs_Write = None\<rparr>, fs, b))))"

fun compile_steps ::
  "report \<Rightarrow> nat \<Rightarrow> step list \<Rightarrow> string list option \<Rightarrow> builder \<Rightarrow> (workflow_step list \<times> builder) option" where
  "compile_steps rep i [] fs b = Some ([], b)"
| "compile_steps rep i (s # ss) fs b =
     (case compile_step rep i s fs b of
        None \<Rightarrow> None
      | Some (ws, fs', b') \<Rightarrow> map_option (\<lambda>(wss, b''). (ws # wss, b'')) (compile_steps rep (Suc i) ss fs' b'))"

definition read_tool :: "string \<Rightarrow> connector_manifest \<Rightarrow> builder \<Rightarrow> operation \<Rightarrow> builder" where
  "read_tool ep m b op =
     (if op_Direction op \<noteq> DirectionRead then b
      else let b1 = bl_connector ep m (op_Interface op) b
        in bl_tool (bl_endpoint b1 ep) (op_Name op) (op_Entity op) (op_Risk op)
             (humanize (op_Name op) @ '' from '' @ bl_endpoint b1 ep @ '' by its identifier (read-only)'') b1)"

definition read_tools :: "builder \<Rightarrow> string \<times> connector_manifest \<Rightarrow> builder" where
  "read_tools b x = (case x of (ep, m) \<Rightarrow> foldl (read_tool ep m) b (cs_Operations (cm_Spec m)))"

definition configure :: "builder \<Rightarrow> string \<times> connection \<Rightarrow> builder" where
  "configure b x =
     (case x of (ep, conn) \<Rightarrow>
        (case map_of (bl_connectors b) (bl_endpoint b ep) of
           None \<Rightarrow> b
         | Some c \<Rightarrow> b\<lparr>bl_connectors := AList.update (bl_endpoint b ep)
             (c\<lparr>cc_Connection := om_Name (co_Metadata conn), cc_Config := cn_Config (co_Spec conn)\<rparr>) (bl_connectors b)\<rparr>))"

definition add_policy :: "builder \<Rightarrow> policy_pack \<Rightarrow> builder" where
  "add_policy b p =
     b\<lparr>bl_policies := AList.update (om_Name (pk_Metadata p))
        \<lparr>pf_Name = om_Name (pk_Metadata p), pf_Version = om_Version (pk_Metadata p), pf_Rego = pk_Rego p\<rparr> (bl_policies b)\<rparr>"

definition slo_monitor :: "recipe \<Rightarrow> monitor list" where
  "slo_monitor r =
     (case rs_SLO (rc_Spec r) of
        None \<Rightarrow> []
      | Some p95 \<Rightarrow>
          if p95 = [] then []
          else [\<lparr>mn_Name = om_Name (rc_Metadata r) @ ''-p95'', mn_Kind = ''latency-p95'', mn_Workflow = om_Name (rc_Metadata r),
                 mn_Target = p95, mn_TargetSeconds = (case ParseDuration p95 of None \<Rightarrow> 0 | Some d \<Rightarrow> Seconds d)\<rparr>])"

definition trigger_of :: "builder \<Rightarrow> recipe \<Rightarrow> connector_manifest \<Rightarrow> workflow_source" where
  "trigger_of b r src =
     (let ev = event_or_zero (cm_Event src (rs_TriggerEvent (rc_Spec r))); ep = bl_endpoint b (rs_TriggerSource (rc_Spec r))
      in \<lparr>ws_Endpoint = ep, ws_Connector = om_Name (cm_Metadata src), ws_Event = ev_Name ev, ws_Interface = ev_Interface ev,
          ws_Topic = topicName ep (ev_Name ev)\<rparr>)"

definition bl_topic :: "recipe \<Rightarrow> connector_manifest \<Rightarrow> builder \<Rightarrow> builder" where
  "bl_topic r src b =
     (let ev = event_or_zero (cm_Event src (rs_TriggerEvent (rc_Spec r)));
          tp = topicName (bl_endpoint b (rs_TriggerSource (rc_Spec r))) (ev_Name ev);
          b1 = bl_connector (rs_TriggerSource (rc_Spec r)) src (ev_Interface ev) b
      in b1\<lparr>bl_topics := AList.update tp \<lparr>tp_Name = tp, tp_Partitions = 3, tp_Entity = ev_Entity ev\<rparr> (bl_topics b1)\<rparr>)"

definition bl_recipe :: "compile_env \<Rightarrow> recipe \<Rightarrow> report \<Rightarrow> builder \<Rightarrow> builder option" where
  "bl_recipe env r rep b =
     (let res = rb_Resolution (rp_body rep); cns = res_Connectors res
      in case find_conn rep (rs_TriggerSource (rc_Spec r)) of
           None \<Rightarrow> None
         | Some src \<Rightarrow>
             (case compile_steps rep 0 (rs_Steps (rc_Spec r)) None (bl_topic r src b) of
                None \<Rightarrow> None
              | Some (steps, b1) \<Rightarrow>
                  let b2 = foldl offers b1 cns;
                      b3 = foldl (bl_extension env) b2 (res_Extensions res);
                      b4 = foldl read_tools b3 cns;
                      b5 = foldl configure b4 (res_Connections res);
                      wf = \<lparr>wf_Name = om_Name (rc_Metadata r), wf_Trigger = trigger_of b r src, wf_Steps = steps,
                            wf_SLO = rs_SLO (rc_Spec r), wf_Policies = sort (map (om_Name \<circ> pk_Metadata) (res_Policies res))\<rparr>;
                      body = (bl_body b5)\<lparr>bd_Workflows := bd_Workflows (bl_body b5) @ [wf],
                                bd_Monitors := bd_Monitors (bl_body b5) @ slo_monitor r\<rparr>
                  in Some (foldl add_policy (b5\<lparr>bl_body := body\<rparr>) (res_Policies res))))"

section \<open>Blueprints\<close>

definition slot_connector :: "report \<Rightarrow> builder option \<Rightarrow> string \<Rightarrow> builder option" where
  "slot_connector rep bo slot =
     Option.bind bo (\<lambda>b.
       case find_conn rep slot of
         None \<Rightarrow> None
       | Some m \<Rightarrow>
           let b1 = b\<lparr>bl_alias := AList.update (om_Name (cm_Metadata m)) slot (bl_alias b)\<rparr>;
               b2 = offers (bl_connector slot m [] b1) (slot, m)
           in case map_of (res_Connections (rb_Resolution (rp_body rep))) slot of
                None \<Rightarrow> Some b2
              | Some conn \<Rightarrow>
                  if map_of (bl_connectors b2) (bl_endpoint b2 slot) = None then None else Some (configure b2 (slot, conn)))"

definition contract_tool :: "string \<Rightarrow> builder \<Rightarrow> contract_action \<Rightarrow> builder" where
  "contract_tool slot b a =
     bl_tool slot (ca_Name a) (ca_Entity a) (ca_Risk a) (humanize (ca_Name a) @ '' in the '' @ map to_upper slot @ '' system'') b"

definition slot_tools :: "compile_env \<Rightarrow> report \<Rightarrow> builder option \<Rightarrow> string \<Rightarrow> builder option" where
  "slot_tools env rep bo slot =
     Option.bind bo (\<lambda>b.
       case (map_of (res_Slots (rb_Resolution (rp_body rep))) slot, map_of (res_Contracts (rb_Resolution (rp_body rep))) slot) of
         (Some p, Some c) \<Rightarrow> Some (foldl (contract_tool slot) (deploy env p slot b) (sl_Actions c))
       | _ \<Rightarrow> None)"

definition child_recipe :: "compile_env \<Rightarrow> builder option \<Rightarrow> report \<Rightarrow> builder option" where
  "child_recipe env bo child =
     Option.bind bo (\<lambda>b.
       case res_Recipe (rb_Resolution (rp_body child)) of None \<Rightarrow> Some b | Some r \<Rightarrow> bl_recipe env r child b)"

definition bl_blueprint :: "compile_env \<Rightarrow> report \<Rightarrow> builder \<Rightarrow> builder option" where
  "bl_blueprint env rep b =
     (let res = rb_Resolution (rp_body rep); slots = sort (map fst (AList.clearjunk (res_Slots res)));
          b1 = foldl (slot_connector rep) (Some b) slots;
          b2 = foldl (slot_tools env rep) b1 slots;
          b3 = map_option (\<lambda>x. foldl (bl_extension env) x (res_Extensions res)) b2;
          b4 = foldl (child_recipe env) b3 (rp_Children rep)
      in map_option (\<lambda>x. foldl add_policy x (res_Policies res)) b4)"

section \<open>Plugins\<close>

definition ModelEvent :: "string \<Rightarrow> string \<Rightarrow> string" where
  "ModelEvent en op =
     (let verb = fst (CutByte (CHR ''-'') op)
      in ''model.'' @ en @
         (if verb \<in> {''create'', ''add'', ''insert'', ''record''} then ''.created''
          else if verb \<in> {''delete'', ''remove''} then ''.deleted'' else ''.updated''))"

definition Camel :: "string \<Rightarrow> string" where
  "Camel s =
     (case Split (CHR ''_'') s of
        [] \<Rightarrow> []
      | w # ws \<Rightarrow> w @ concat (map (\<lambda>p. case p of [] \<Rightarrow> [] | c # cs \<Rightarrow> to_upper c # cs) ws))"

text \<open>What \<open>json.Unmarshal\<close> reads of a connection's configuration: field names match without regard
  to case, null leaves a field empty, and a value of another type makes the whole decoding fail.\<close>

fun decode_key :: "doc \<Rightarrow> string \<Rightarrow> string option" where
  "decode_key [] k = Some k"
| "decode_key ((n, v) # kvs) k =
     (if map to_lower n \<noteq> ''key'' then decode_key kvs k
      else (case v of JStr s \<Rightarrow> decode_key kvs s | JNull \<Rightarrow> decode_key kvs k | _ \<Rightarrow> None))"

fun decode_operations :: "doc \<Rightarrow> (string \<times> string) list \<Rightarrow> (string \<times> string) list option" where
  "decode_operations [] m = Some m"
| "decode_operations ((n, v) # kvs) m =
     (case v of
        JObj fs \<Rightarrow> Option.bind (decode_key fs []) (\<lambda>k. decode_operations kvs (AList.update n k m))
      | JNull \<Rightarrow> decode_operations kvs (AList.update n [] m)
      | _ \<Rightarrow> None)"

fun decode_config :: "doc \<Rightarrow> (string \<times> string) list \<Rightarrow> (string \<times> string) list option" where
  "decode_config [] m = Some m"
| "decode_config ((n, v) # kvs) m =
     (if map to_lower n \<noteq> ''operations'' then decode_config kvs m
      else (case v of
        JObj os \<Rightarrow> Option.bind (decode_operations os m) (decode_config kvs)
      | JNull \<Rightarrow> decode_config kvs []
      | _ \<Rightarrow> None))"

definition keyField :: "raw \<Rightarrow> string \<Rightarrow> string" where
  "keyField config op =
     (case (case config of RawDoc (JObj kvs) \<Rightarrow> decode_config kvs [] | RawDoc JNull \<Rightarrow> Some [] | _ \<Rightarrow> None) of
        None \<Rightarrow> ''id''
      | Some ops \<Rightarrow>
          (case map_of ops op of
             Some k \<Rightarrow> if k \<noteq> [] then Camel k else ''id''
           | None \<Rightarrow> ''id''))"

definition pick :: "builder \<Rightarrow> string list \<Rightarrow> string \<Rightarrow> string \<Rightarrow> string \<Rightarrow> entity_operation option" where
  "pick b preferred en opName dir =
     (let ops = (case map_of (bl_entityOps b) en of None \<Rightarrow> [] | Some os \<Rightarrow> os);
          ordered = sort_key eop_endpoint (filter (\<lambda>o'. eop_endpoint o' \<in> set preferred) ops)
                    @ sort_key eop_endpoint (filter (\<lambda>o'. eop_endpoint o' \<notin> set preferred) ops)
      in map_option (\<lambda>o'. \<lparr>eo_Endpoint = eop_endpoint o', eo_Operation = op_Name (eop_op o'), eo_Risk = op_Risk (eop_op o'),
             eo_IDField = (case map_of (bl_connectors b) (eop_endpoint o') of
                None \<Rightarrow> [] | Some c \<Rightarrow> keyField (cc_Config c) (op_Name (eop_op o')))\<rparr>)
           (find (\<lambda>o'. op_Name (eop_op o') = opName \<and> op_Direction (eop_op o') = dir) ordered))"

definition preferred_endpoints :: "workflow list \<Rightarrow> string list \<Rightarrow> string list" where
  "preferred_endpoints wfs subs =
     concat (map (\<lambda>wf. concat (map (\<lambda>st. case wfs_Write st of
         None \<Rightarrow> []
       | Some w \<Rightarrow> if wc_Entity w \<noteq> [] \<and> ModelEvent (wc_Entity w) (wc_Operation w) \<in> set subs then [wc_Endpoint w] else [])
       (wf_Steps wf))) wfs)"

definition wire_grants ::
  "builder \<Rightarrow> string list \<Rightarrow> (string \<Rightarrow> string) \<Rightarrow> string \<Rightarrow> string list \<Rightarrow> (string \<times> entity_operation) list" where
  "wire_grants b preferred opname dir refs =
     foldl (\<lambda>acc ref. case pick b preferred (ref_entity ref) (opname (ref_entity ref)) dir of
        None \<Rightarrow> acc | Some eo \<Rightarrow> AList.update (ref_entity ref) eo acc) [] refs"

definition wire_plugin :: "builder \<Rightarrow> plugin_deployment \<Rightarrow> plugin_deployment" where
  "wire_plugin b d =
     (case (pd_Type d = PluginLogic, pp_Entities (pd_Grants d)) of
        (True, Some e) \<Rightarrow>
          let preferred = preferred_endpoints (bd_Workflows (bl_body b)) (pd_Subscribes d)
          in d\<lparr>pd_Reads := wire_grants b preferred ReadOperation DirectionRead (ep_Read e),
                pd_Proposals := wire_grants b preferred ProposeOperation DirectionWrite (ep_Propose e)\<rparr>
      | _ \<Rightarrow> d)"

definition wire_write :: "plugin_deployment list \<Rightarrow> write_config \<Rightarrow> write_config" where
  "wire_write ds w =
     (if wc_Entity w = [] then w
      else let ev = ModelEvent (wc_Entity w) (wc_Operation w);
               subs = foldl (\<lambda>ps d. if pd_Type d = PluginLogic \<and> ev \<in> set (pd_Subscribes d) \<and> pd_Name d \<notin> set ps
                                    then ps @ [pd_Name d] else ps) (wc_Plugins w) ds
        in if subs = [] then w else w\<lparr>wc_Plugins := sort subs, wc_Event := ev\<rparr>)"

definition wire_step :: "plugin_deployment list \<Rightarrow> workflow_step \<Rightarrow> workflow_step" where
  "wire_step ds st = st\<lparr>wfs_Write := map_option (wire_write ds) (wfs_Write st)\<rparr>"

definition wirePlugins :: "builder \<Rightarrow> builder" where
  "wirePlugins b =
     (let ds = map (wire_plugin b) (bd_Plugins (bl_body b))
      in b\<lparr>bl_body := (bl_body b)\<lparr>bd_Plugins := ds,
           bd_Workflows := map (\<lambda>wf. wf\<lparr>wf_Steps := map (wire_step ds) (wf_Steps wf)\<rparr>) (bd_Workflows (bl_body b))\<rparr>\<rparr>)"

section \<open>Finishing\<close>

definition name_tool :: "agent_tool list \<Rightarrow> agent_tool \<Rightarrow> agent_tool" where
  "name_tool ts t =
     (let name = ReplaceByte (CHR ''-'') (CHR ''_'') (at_Operation t);
          n = length (filter (\<lambda>u. at_Operation u = at_Operation t) ts)
      in t\<lparr>at_Name := (if 1 < n then ReplaceByte (CHR ''-'') (CHR ''_'') (at_Endpoint t) @ ''_'' @ name else name)\<rparr>)"

definition finish_body :: "builder \<Rightarrow> runtime_body" where
  "finish_body b0 =
     (let b = wirePlugins b0; body = bl_body b; ts = map snd (bl_tools b)
      in body\<lparr>bd_Connectors := sort_key cc_Endpoint (map snd (bl_connectors b)),
              bd_Topics := sort_key tp_Name (map snd (bl_topics b)),
              bd_Tools := sort_key at_Name (map (name_tool ts) ts),
              bd_Policies := sort_key pf_Name (map snd (bl_policies b)),
              bd_Workflows := sort_key wf_Name (bd_Workflows body),
              bd_Monitors := sort_key mn_Name (bd_Monitors body)\<rparr>)"

definition bl_finish :: "compile_env \<Rightarrow> string \<Rightarrow> string \<Rightarrow> string \<Rightarrow> builder \<Rightarrow> runtime_spec" where
  "bl_finish env name source level b =
     (let body = finish_body b
      in \<lparr>sp_APIVersion = APIVersion, sp_Kind = KindRuntimeSpec, sp_Name = name, sp_Source = source, sp_Level = level,
          sp_Digest = ce_Digest env body, sp_Signatures = [], sp_Body = body\<rparr>)"

section \<open>Compile\<close>

fun countReviews :: "report \<Rightarrow> nat" where
  "countReviews (Report b cs) = length (rb_ReviewQueue b) + sum_list (map countReviews cs)"

definition notDeployable :: "report \<Rightarrow> goerror" where
  "notDeployable rep =
     (case Errors rep of
        [] \<Rightarrow> Wrap_sentinel ErrNotDeployable ''%s: %w: %d field(s) awaiting review''
          [AStr (rb_Subject (rp_body rep)), AInt (int (countReviews rep))]
      | e # es \<Rightarrow> Wrap_sentinel ErrNotDeployable ''%s: %w: %d error(s), first: %s''
          [AStr (rb_Subject (rp_body rep)), AInt (int (Suc (length es))), AErr (fi_Message e)])"

type_synonym compiled = "runtime_spec option \<times> report option \<times> goerror option"

definition compile_with ::
  "compile_env \<Rightarrow> object_meta \<Rightarrow> string \<Rightarrow> report \<Rightarrow> builder option \<Rightarrow> compiled option" where
  "compile_with env meta kind rep bo =
     map_option (\<lambda>b. (Some (bl_finish env (om_Name meta) (kind @ ref_of meta) (rb_Level (rp_body rep)) b), Some rep, bl_err b)) bo"

definition Compile :: "compile_env \<Rightarrow> verify_env \<Rightarrow> catalog \<Rightarrow> object \<Rightarrow> verify_options \<Rightarrow> compiled option" where
  "Compile env venv cat obj opts =
     (let v = New_verifier cat opts venv
      in case obj of
           ORecipe r \<Rightarrow>
             let rep = verify_Recipe v r
             in if \<not> rb_Deployable (rp_body rep) then Some (None, Some rep, Some (notDeployable rep))
                else compile_with env (rc_Metadata r) ''Recipe/'' rep (bl_recipe env r rep newBuilder)
         | OBlueprint o' \<Rightarrow>
             let rep = verify_Blueprint v o'
             in if \<not> rb_Deployable (rp_body rep) then Some (None, Some rep, Some (notDeployable rep))
                else compile_with env (bp_Metadata o') ''StackBlueprint/'' rep (bl_blueprint env rep newBuilder)
         | _ \<Rightarrow> Some (None, None, Some (New_err ''cannot compile a %s; compile a Recipe or StackBlueprint''
                 [AStr (tm_Kind (GetTypeMeta obj))])))"

text \<open>Reading a spec back. Decoding the bytes strictly is a parameter: the decoded spec, and whether
  there is data after it.\<close>

definition ParseSpec ::
  "compile_env \<Rightarrow> ('bytes \<Rightarrow> goerror + runtime_spec \<times> bool) \<Rightarrow> 'bytes \<Rightarrow> goerror + runtime_spec" where
  "ParseSpec env decode data =
     (case decode data of
        Inl e \<Rightarrow> Inl (Wrap_err ''not a valid runtime spec: %w'' [] e)
      | Inr (s, trailing) \<Rightarrow>
          if trailing then Inl (New_err ''not a valid runtime spec: data after the spec'' [])
          else if sp_Kind s \<noteq> KindRuntimeSpec then
            Inl (New_err ''a %q, not a RuntimeSpec; run turgon compile first'' [AStr (sp_Kind s)])
          else if ce_Digest env (sp_Body s) \<noteq> sp_Digest s then
            Inl (New_err ''digest mismatch (spec says %s, body hashes to %s); refusing a modified spec''
              [AStr (sp_Digest s), AStr (ce_Digest env (sp_Body s))])
          else Inr s)"

definition ConnectionConfig :: "catalog \<Rightarrow> string \<Rightarrow> goerror + connector_config" where
  "ConnectionConfig cat name =
     (case cat_Connection cat name of
        Inl e \<Rightarrow> Inl e
      | Inr conn \<Rightarrow>
          (case ParseRef (cn_Connector (co_Spec conn)) of
             (ref, con) \<Rightarrow>
               (case cat_Connector cat ref con of
                  Inl e \<Rightarrow> Inl (Wrap_err ''connection %s: %w'' [AStr name] e)
                | Inr m \<Rightarrow>
                    (case ValidateEffective conn m of
                       e # es \<Rightarrow> Inl (New_err ''connection %s: %s: %s'' [AStr name, AStr (fe_Path e), AErr (fe_Message e)])
                     | [] \<Rightarrow>
                         let c = new_connector name (Effective conn m)
                         in Inr (c\<lparr>cc_Connection := om_Name (co_Metadata conn), cc_Config := cn_Config (co_Spec conn)\<rparr>)))))"

end
