(* ===== verification/Compiler_Props.thy ===== *)
theory Compiler_Props
  imports Compiler
begin

text \<open>
  What the compiler guarantees: it never dereferences nil on a report that says deployable, what it
  compiles is what was verified and is served by a deployed connector, and its output does not
  depend on the order in which maps are iterated.
\<close>

section \<open>Connectors only gain interfaces\<close>

text \<open>Every connector is kept under its endpoint, once.\<close>

definition keyed :: "builder \<Rightarrow> bool" where
  "keyed b \<longleftrightarrow> distinct (map fst (bl_connectors b)) \<and> (\<forall>(ep, c) \<in> set (bl_connectors b). cc_Endpoint c = ep)"

lemma keyedD: "keyed b \<Longrightarrow> map_of (bl_connectors b) ep = Some c \<Longrightarrow> cc_Endpoint c = ep"
  unfolding keyed_def by (blast dest: map_of_SomeD)

lemma keyed_update:
  assumes "keyed b" "cc_Endpoint c = ep"
  shows "keyed (b\<lparr>bl_connectors := AList.update ep c (bl_connectors b)\<rparr>)"
proof -
  have "set (AList.update ep c al) \<subseteq> insert (ep, c) (set al)" for al :: "(string \<times> connector_config) list"
    by (induction al) auto
  then show ?thesis using assms by (fastforce simp: keyed_def distinct_update)
qed

definition conn_le :: "builder \<Rightarrow> builder \<Rightarrow> bool" where
  "conn_le b b' \<longleftrightarrow> bl_alias b' = bl_alias b \<and> (keyed b \<longrightarrow> keyed b') \<and>
     (\<forall>ep c. map_of (bl_connectors b) ep = Some c \<longrightarrow>
        (\<exists>c'. map_of (bl_connectors b') ep = Some c' \<and> set (cc_Interfaces c) \<subseteq> set (cc_Interfaces c')))"

lemma conn_le_refl [simp]: "conn_le b b"
  by (auto simp: conn_le_def)

lemma conn_leD: "conn_le b b' \<Longrightarrow> map_of (bl_connectors b) ep = Some c \<Longrightarrow>
    \<exists>c'. map_of (bl_connectors b') ep = Some c' \<and> set (cc_Interfaces c) \<subseteq> set (cc_Interfaces c')"
  unfolding conn_le_def by blast

lemma conn_le_keyed: "conn_le b b' \<Longrightarrow> keyed b \<Longrightarrow> keyed b'"
  unfolding conn_le_def by blast

lemma conn_le_trans:
  assumes "conn_le b b'" "conn_le b' b''"
  shows "conn_le b b''"
proof -
  have "\<exists>c''. map_of (bl_connectors b'') ep = Some c'' \<and> set (cc_Interfaces c) \<subseteq> set (cc_Interfaces c'')"
    if c: "map_of (bl_connectors b) ep = Some c" for ep c
  proof -
    obtain c' where c': "map_of (bl_connectors b') ep = Some c'" "set (cc_Interfaces c) \<subseteq> set (cc_Interfaces c')"
      using conn_leD [OF assms(1) c] by blast
    obtain c'' where "map_of (bl_connectors b'') ep = Some c''" "set (cc_Interfaces c') \<subseteq> set (cc_Interfaces c'')"
      using conn_leD [OF assms(2) c'(1)] by blast
    then show ?thesis using c'(2) by auto
  qed
  then show ?thesis using assms by (simp add: conn_le_def)
qed

lemma conn_le_same: "bl_connectors b' = bl_connectors b \<Longrightarrow> bl_alias b' = bl_alias b \<Longrightarrow> conn_le b b'"
  by (auto simp: conn_le_def keyed_def)

lemma conn_le_foldl: "(\<And>b x. conn_le b (f b x)) \<Longrightarrow> conn_le b (foldl f b xs)"
  by (induction xs arbitrary: b) (auto intro: conn_le_trans)

lemma conn_le_update:
  assumes "\<And>c0. map_of (bl_connectors b) ep = Some c0 \<Longrightarrow> set (cc_Interfaces c0) \<subseteq> set (cc_Interfaces c)"
    and "keyed b \<Longrightarrow> cc_Endpoint c = ep"
  shows "conn_le b (b\<lparr>bl_connectors := AList.update ep c (bl_connectors b)\<rparr>)"
  using assms keyed_update [of b c ep] by (auto simp: conn_le_def update_conv')

lemma conn_le_connector: "conn_le b (bl_connector ep m iface b)"
  unfolding bl_connector_def Let_def
  by (rule conn_le_update) (auto simp: new_connector_def dest: keyedD split: option.splits)

lemma conn_le_tool: "conn_le b (bl_tool ep op en risk desc b)"
  by (rule conn_le_same) (simp_all add: bl_tool_def)

lemma conn_le_writeTool: "conn_le b (writeTool ep op desc fs w b)"
  by (rule conn_le_same) (simp_all add: writeTool_def Let_def split: prod.splits)

lemma conn_le_offers: "conn_le b (offers b x)"
  unfolding offers_def by (auto intro!: conn_le_foldl conn_le_same simp: offer_def Let_def split: prod.splits)

lemma conn_le_deploy: "conn_le b (deploy env p slot b)"
  by (rule conn_le_same) (auto simp: deploy_def bl_deployment_def Let_def split: prod.splits sum.splits if_splits)

lemma conn_le_extension: "conn_le b (bl_extension env b p)"
  by (simp add: bl_extension_def conn_le_deploy)

lemma conn_le_read_tools: "conn_le b (read_tools b x)"
  unfolding read_tools_def
  by (auto intro!: conn_le_foldl intro: conn_le_trans [OF conn_le_connector conn_le_tool] simp: read_tool_def Let_def split: prod.splits)

lemma conn_le_configure: "conn_le b (configure b x)"
  by (auto simp: configure_def dest: keyedD intro!: conn_le_update split: prod.splits option.splits)

lemma conn_le_policy: "conn_le b (add_policy b p)"
  by (rule conn_le_same) (simp_all add: add_policy_def)

lemma conn_le_topic: "conn_le b (bl_topic r src b)"
proof -
  have "conn_le (bl_connector ep m iface b) ((bl_connector ep m iface b)\<lparr>bl_topics := ts\<rparr>)" for ep m iface ts
    by (rule conn_le_same) simp_all
  then show ?thesis unfolding bl_topic_def Let_def by (rule conn_le_trans [OF conn_le_connector])
qed

lemmas conn_le_intros = conn_le_connector conn_le_tool conn_le_writeTool conn_le_offers conn_le_deploy conn_le_extension
  conn_le_read_tools conn_le_configure conn_le_policy conn_le_topic

lemma conn_le_endpoint: "conn_le b b' \<Longrightarrow> bl_endpoint b' x = bl_endpoint b x"
  by (simp add: conn_le_def bl_endpoint_def)

text \<open>A write is served: a connector is deployed at its endpoint with its interface open.\<close>

definition serves_iface :: "builder \<Rightarrow> string \<Rightarrow> string \<Rightarrow> bool" where
  "serves_iface b ep iface \<longleftrightarrow>
     (\<exists>c. map_of (bl_connectors b) ep = Some c \<and> (iface = [] \<or> iface \<in> set (cc_Interfaces c)))"

lemma serves_le: "conn_le b b' \<Longrightarrow> serves_iface b ep iface \<Longrightarrow> serves_iface b' ep iface"
  unfolding serves_iface_def using conn_leD [of b b' ep] by blast

lemma serves_connector: "serves_iface (bl_connector ep m iface b) (bl_endpoint b ep) iface"
  by (auto simp: serves_iface_def bl_connector_def Let_def update_conv' split: option.splits)

section \<open>Steps\<close>

lemma write_config_le: "conn_le b b' \<Longrightarrow> write_config_of b' m w = write_config_of b m w"
  by (simp add: write_config_of_def conn_le_endpoint)

lemma compile_write_serves:
  assumes "compile_write rep name w fs b = Some (st, b')"
  shows "\<exists>m. find_conn rep (wst_Target w) = Some m \<and> wfs_Write st = Some (write_config_of b m w) \<and> conn_le b b'
    \<and> serves_iface b' (bl_endpoint b (wst_Target w)) (op_Interface (op_or_zero (cm_Operation m (wst_Operation w))))
    \<and> (\<forall>undo. cm_Operation m (write_undo w (op_or_zero (cm_Operation m (wst_Operation w)))) = Some undo \<longrightarrow>
         serves_iface b' (bl_endpoint b (wst_Target w)) (op_Interface undo))"
proof -
  obtain m where m: "find_conn rep (wst_Target w) = Some m" using assms by (auto simp: compile_write_def split: option.splits)
  let ?op = "op_or_zero (cm_Operation m (wst_Operation w))"
  define b1 where "b1 = (case cm_Operation m (write_undo w ?op) of
    Some cop \<Rightarrow> bl_connector (wst_Target w) m (op_Interface cop) b | None \<Rightarrow> b)"
  define b2 where "b2 = bl_connector (wst_Target w) m (op_Interface ?op) b1"
  have le1: "conn_le b b1" by (auto simp: b1_def conn_le_connector split: option.split)
  have b': "b' = writeTool (bl_endpoint b2 (wst_Target w)) ?op (humanize (op_Name ?op) @ '' via '' @ wst_Target w) fs w b2"
    and st: "wfs_Write st = Some (write_config_of b m w)"
    using assms m by (auto simp: compile_write_def Let_def b1_def b2_def)
  have "serves_iface b2 (bl_endpoint b (wst_Target w)) (op_Interface ?op)"
    using serves_connector [of "wst_Target w" m "op_Interface ?op" b1] conn_le_endpoint [OF le1] by (simp add: b2_def)
  then have "serves_iface b' (bl_endpoint b (wst_Target w)) (op_Interface ?op)"
    unfolding b' by (rule serves_le [OF conn_le_writeTool])
  moreover have le2: "conn_le b1 b'" unfolding b' b2_def by (rule conn_le_trans [OF conn_le_connector conn_le_writeTool])
  moreover have "serves_iface b' (bl_endpoint b (wst_Target w)) (op_Interface undo)"
    if "cm_Operation m (write_undo w ?op) = Some undo" for undo
    using serves_le [OF le2] serves_connector [of "wst_Target w" m "op_Interface undo" b] that by (simp add: b1_def)
  ultimately show ?thesis using m st conn_le_trans [OF le1 le2] by blast
qed

text \<open>Every compiled write comes from a write step of the recipe and is served.\<close>

definition compiled_from :: "report \<Rightarrow> step list \<Rightarrow> builder \<Rightarrow> write_config \<Rightarrow> bool" where
  "compiled_from rep ss b w \<longleftrightarrow>
     (\<exists>s ws m. s \<in> set ss \<and> st_Write s = Some ws \<and> find_conn rep (wst_Target ws) = Some m \<and> w = write_config_of b m ws
        \<and> serves_iface b (wc_Endpoint w) (wc_Interface w)
        \<and> (\<forall>undo. cm_Operation m (wc_Compensation w) = Some undo \<longrightarrow> serves_iface b (wc_Endpoint w) (op_Interface undo)))"

lemma compiled_from_le:
  assumes "conn_le b b'" "compiled_from rep ss b w"
  shows "compiled_from rep ss b' w"
proof -
  obtain s ws m where "s \<in> set ss" "st_Write s = Some ws" "find_conn rep (wst_Target ws) = Some m" "w = write_config_of b m ws"
      "serves_iface b (wc_Endpoint w) (wc_Interface w)"
      "\<forall>undo. cm_Operation m (wc_Compensation w) = Some undo \<longrightarrow> serves_iface b (wc_Endpoint w) (op_Interface undo)"
    using assms(2) unfolding compiled_from_def by blast
  then show ?thesis
    unfolding compiled_from_def using write_config_le [OF assms(1)] serves_le [OF assms(1)]
    by (intro exI [of _ s] exI [of _ ws] exI [of _ m]) simp
qed

lemma compile_step_le:
  assumes "compile_step rep i s fs b = Some (st, fs', b')"
  shows "conn_le b b' \<and> (\<forall>w. wfs_Write st = Some w \<longrightarrow> compiled_from rep [s] b' w)"
proof (cases "st_Map s = None \<and> st_Resolve s = None \<and> st_Write s \<noteq> None")
  case True
  then obtain w where w: "st_Write s = Some w" by blast
  then have "compile_write rep (pad2 (Suc i) @ ''-'' @ step_Kind s) w fs b = Some (st, b')"
    using assms True by (auto simp: compile_step_def Let_def)
  from compile_write_serves [OF this] obtain m where m: "find_conn rep (wst_Target w) = Some m"
      "wfs_Write st = Some (write_config_of b m w)" "conn_le b b'"
      "serves_iface b' (wc_Endpoint (write_config_of b m w)) (wc_Interface (write_config_of b m w))"
      "\<forall>undo. cm_Operation m (wc_Compensation (write_config_of b m w)) = Some undo \<longrightarrow>
         serves_iface b' (wc_Endpoint (write_config_of b m w)) (op_Interface undo)"
    by (auto simp: write_config_of_def Let_def)
  then have "compiled_from rep [s] b' (write_config_of b m w)"
    unfolding compiled_from_def using w write_config_le [OF m(3)] by (intro exI [of _ s] exI [of _ w] exI [of _ m]) simp
  then show ?thesis using m by simp
next
  case False
  then show ?thesis using assms
    by (auto simp: compile_step_def compile_map_def compile_resolve_def Let_def split: option.split_asm)
qed

lemma compile_steps_le:
  "compile_steps rep i ss fs b = Some (wss, b') \<Longrightarrow> conn_le b b'
     \<and> (\<forall>st w. st \<in> set wss \<longrightarrow> wfs_Write st = Some w \<longrightarrow> compiled_from rep ss b' w)"
proof (induction ss arbitrary: i fs b wss)
  case (Cons s ss)
  obtain st fs1 b1 wss1 where one: "compile_step rep i s fs b = Some (st, fs1, b1)"
      "compile_steps rep (Suc i) ss fs1 b1 = Some (wss1, b')" "wss = st # wss1"
    using Cons(2) by (auto split: option.split_asm)
  note step = compile_step_le [OF one(1)] and rest = Cons(1) [OF one(2)]
  have mono: "compiled_from rep xs b' w \<Longrightarrow> set xs \<subseteq> set (s # ss) \<Longrightarrow> compiled_from rep (s # ss) b' w" for xs w
    unfolding compiled_from_def by blast
  have "compiled_from rep (s # ss) b' w" if "x \<in> set wss" "wfs_Write x = Some w" for x w
  proof (cases "x = st")
    case True
    then have "compiled_from rep [s] b' w" using that(2) step rest compiled_from_le by blast
    then show ?thesis using mono [of "[s]"] by simp
  next
    case False
    then have "compiled_from rep ss b' w" using that one(3) rest by (metis set_ConsD)
    then show ?thesis using mono [of ss] by (meson set_subset_Cons)
  qed
  then show ?case using step rest conn_le_trans by blast
qed simp

lemma compile_steps_total:
  "list_all (\<lambda>s. (\<forall>m. st_Map s = Some m \<longrightarrow> map_of (res_Mappings (rb_Resolution (rp_body rep))) (mst_Mapping m) \<noteq> None)
     \<and> (\<forall>w. st_Write s = Some w \<longrightarrow> find_conn rep (wst_Target w) \<noteq> None)) ss \<Longrightarrow> compile_steps rep i ss fs b \<noteq> None"
proof (induction ss arbitrary: i fs b)
  case (Cons s ss)
  have "compile_step rep i s fs b \<noteq> None"
    using Cons(2) by (auto simp: compile_step_def compile_map_def compile_write_def Let_def split: option.splits)
  then obtain st fs1 b1 where "compile_step rep i s fs b = Some (st, fs1, b1)" by auto
  moreover have "compile_steps rep (Suc i) ss fs1 b1 \<noteq> None" using Cons by simp
  ultimately show ?case by simp
qed simp

section \<open>What a deployable report offers the compiler\<close>

abbreviation res_of :: "report \<Rightarrow> resolution" where
  "res_of r \<equiv> rb_Resolution (rp_body r)"

lemma res_foldl: "(\<And>x r. res_of (f r x) = res_of r) \<Longrightarrow> res_of (foldl f r xs) = res_of r"
  by (induction xs arbitrary: r) auto

lemma res_review_field [simp]: "res_of (review_field v path ref th r f) = res_of r"
  by (auto simp: review_field_def split: option.splits)

lemma res_check_expression [simp]: "res_of (check_expression v path ref r f) = res_of r"
  by (auto simp: check_expression_def split: option.splits)

lemma res_amount_field: "res_of (fst (amount_field path w x)) = res_of (fst x)"
  by (auto simp: amount_field_def Let_def split: prod.splits option.splits)

lemma res_verify_strategy: "res_of (verify_strategy path s r) = res_of r"
  by (simp add: verify_strategy_def Let_def)

lemma res_resolve_field: "res_of (fst (resolve_field path s x)) = res_of (fst x)"
  by (auto simp: resolve_field_def res_verify_strategy Let_def split: prod.splits option.splits)

lemma res_later_fields [simp]: "res_of (fst (later_fields path s x)) = res_of (fst x)"
  by (auto simp: later_fields_def res_resolve_field res_amount_field Let_def split: option.splits)

lemma res_checkPolicies [simp]: "res_of (checkPolicies v packs hw r) = res_of r"
proof -
  have "res_of (foldl (\<lambda>r (name, msg). rep_add StagePolicy SeverityError p f [AStr name, AStr msg] r) r fails) = res_of r" for p f fails
    by (rule res_foldl) (simp split: prod.splits)
  then show ?thesis by (auto simp: checkPolicies_def Let_def split: option.splits sum.splits prod.splits)
qed

lemma res_verify_mapStep: "res_Mappings (res_of (verify_mapStep v path s th r)) =
    (case cat_Mapping (vf_cat v) (mst_Mapping s) of Inl _ \<Rightarrow> res_Mappings (res_of r)
     | Inr m \<Rightarrow> AList.update (mst_Mapping s) m (res_Mappings (res_of r)))"
proof -
  have "res_of (foldl (review_field v path ref th) (foldl (check_expression v path ref) r1 fs) fs) = res_of r1" for r1 ref fs
    by (simp add: res_foldl)
  then show ?thesis by (auto simp: verify_mapStep_def Let_def split: sum.splits)
qed

text \<open>The mappings a report has resolved.\<close>

definition mapped :: "report \<Rightarrow> string set" where
  "mapped r = dom (map_of (res_Mappings (res_of r)))"

lemma mapped_loop: "mapped (fst x) \<subseteq> mapped (fst (mapping_loop v th x ix))"
  by (cases ix; cases "st_Map (snd ix)")
    (auto simp: mapped_def mapping_loop_def map_field_def Let_def res_verify_mapStep update_conv' split: sum.splits)

lemma mapped_step:
  assumes "quiet (fst (mapping_loop v th x (i, s)))" "st_Map s = Some m"
  shows "mst_Mapping m \<in> mapped (fst (mapping_loop v th x (i, s)))"
  using verify_mapStep_ok [OF mapping_loop_quiet [OF assms]] assms(2)
  by (auto simp: mapped_def mapping_loop_def map_field_def Let_def res_verify_mapStep update_conv')

lemma stage_mappings_mapped:
  assumes "quiet (stage_mappings v rec r)" "s \<in> set (rs_Steps (rc_Spec rec))" "st_Map s = Some m"
  shows "mst_Mapping m \<in> mapped (stage_mappings v rec r)"
proof -
  let ?th = "if hasWrites rec then vo_WriteReviewThreshold (vf_opts v) else vo_ReviewThreshold (vf_opts v)"
  let ?f = "mapping_loop v ?th"
  obtain i where "(i, s) \<in> set (enumerate 0 (rs_Steps (rc_Spec rec)))" using enumerate_mem [OF assms(2)] by blast
  then obtain us ws where sp: "enumerate 0 (rs_Steps (rc_Spec rec)) = us @ (i, s) # ws" by (metis split_list)
  define x where "x = ?f (foldl ?f (r, None, []) us) (i, s)"
  have st: "stage_mappings v rec r = fst (foldl ?f x ws)" by (simp add: stage_mappings_def Let_def sp x_def)
  have "grows (fst x) (fst (foldl ?f x ws))"
    by (rule grows_pr_foldl [where pr = fst and f = ?f]) (rule adds_grows [OF adds_mapping_loop])
  then have "quiet (fst x)" using assms(1) quiet_back st by simp
  then have "mst_Mapping m \<in> mapped (fst x)" unfolding x_def by (rule mapped_step) (rule assms(3))
  moreover have "mapped (fst y) \<subseteq> mapped (fst (foldl ?f y ys))" for y ys
  proof (induction ys arbitrary: y)
    case (Cons z zs)
    have "mapped (fst y) \<subseteq> mapped (fst (?f y z))" by (rule mapped_loop)
    also have "\<dots> \<subseteq> mapped (fst (foldl ?f (?f y z) zs))" by (rule Cons)
    finally show ?case by simp
  qed simp
  ultimately show ?thesis unfolding st by blast
qed

lemma res_after_mappings:
  "res_Mappings (res_of (stage_dryrun rec (stage_capacity v rec (stage_policies v rec r)))) = res_Mappings (res_of r)"
proof -
  have cap: "res_of (stage_capacity v rec q) = res_of q" for q
    unfolding stage_capacity_def by (rule res_foldl) (auto simp: capacity_step_def Let_def split: prod.splits option.splits)
  have pol: "res_Mappings (res_of (foldl (resolve_policy v) q refs)) = res_Mappings (res_of q)" for q refs
    by (induction refs arbitrary: q) (auto simp: resolve_policy_def split: sum.splits)
  show ?thesis by (simp add: stage_dryrun_def cap stage_policies_def Let_def pol)
qed

text \<open>The trigger's source and every write target are bound, every mapping is resolved, and the recipe is
  the one the report is about.\<close>

lemma deployable_for_compiler:
  assumes "rb_Deployable (rp_body (verify_recipe v rec bound))"
  shows "find_conn (verify_recipe v rec bound) (rs_TriggerSource (rc_Spec rec)) \<noteq> None"
    and "list_all (\<lambda>s. (\<forall>m. st_Map s = Some m \<longrightarrow> map_of (res_Mappings (res_of (verify_recipe v rec bound))) (mst_Mapping m) \<noteq> None)
     \<and> (\<forall>w. st_Write s = Some w \<longrightarrow> find_conn (verify_recipe v rec bound) (wst_Target w) \<noteq> None)) (rs_Steps (rc_Spec rec))"
proof -
  let ?r0 = "upd_res (\<lambda>x. x\<lparr>res_Recipe := Some rec\<rparr>) (newReport (ORecipe rec))"
  from assms show "find_conn (verify_recipe v rec bound) (rs_TriggerSource (rc_Spec rec)) \<noteq> None"
  proof (cases rule: deployable_stages)
    case (1 r1)
    have "rs_TriggerSource (rc_Spec rec) \<noteq> []" using 1(1) by (auto simp: Recipe_Validate_def Let_def add_if_def split: if_splits)
    then have "rs_TriggerSource (rc_Spec rec) \<in> set (Endpoints rec)" using Endpoints_set [of rec] by auto
    from stage_resolve_conn [OF 1(2) this] show ?thesis
      using find_conn_adds [OF adds_stages(1) [of "stage_resolve v rec bound ?r0" v rec]] 1(3,7) by (simp add: find_conn_def)
  qed
  have map: "map_of (res_Mappings (res_of (verify_recipe v rec bound))) (mst_Mapping m) \<noteq> None"
    if s: "s \<in> set (rs_Steps (rc_Spec rec))" "st_Map s = Some m" for s m
    using assms
  proof (cases rule: deployable_stages)
    case (1 r1)
    have "verify_recipe v rec bound = finish (stage_dryrun rec (stage_capacity v rec (stage_policies v rec (stage_mappings v rec
        (stage_interfaces rec r1)))))"
      using 1(1,3) by (simp add: verify_recipe_def schema_def Let_def recipe_stages_def)
    then show ?thesis using stage_mappings_mapped [OF 1(5) s] res_after_mappings by (auto simp: mapped_def)
  qed
  have "find_conn (verify_recipe v rec bound) (wst_Target w) \<noteq> None"
    if "s \<in> set (rs_Steps (rc_Spec rec))" "st_Write s = Some w" for s w
    using deployable_write_ok [OF assms that] by (auto simp: find_conn_def)
  with map show "list_all (\<lambda>s. (\<forall>m. st_Map s = Some m \<longrightarrow>
       map_of (res_Mappings (res_of (verify_recipe v rec bound))) (mst_Mapping m) \<noteq> None)
     \<and> (\<forall>w. st_Write s = Some w \<longrightarrow> find_conn (verify_recipe v rec bound) (wst_Target w) \<noteq> None)) (rs_Steps (rc_Spec rec))"
    unfolding list_all_iff by blast
qed

lemma bl_recipe_total:
  assumes "rb_Deployable (rp_body (verify_recipe v rec bound))"
  shows "bl_recipe env rec (verify_recipe v rec bound) b \<noteq> None"
proof -
  obtain src where src: "find_conn (verify_recipe v rec bound) (rs_TriggerSource (rc_Spec rec)) = Some src"
    using deployable_for_compiler(1) [OF assms] by blast
  obtain x where "compile_steps (verify_recipe v rec bound) 0 (rs_Steps (rc_Spec rec)) None (bl_topic rec src b) = Some x"
    using compile_steps_total [OF deployable_for_compiler(2) [OF assms]] by blast
  then show ?thesis using src by (cases x) (simp add: bl_recipe_def Let_def)
qed

end
