(* ===== verification/Compiler_Stack.thy ===== *)
theory Compiler_Stack
  imports Compiler_Props
begin

text \<open>
  The compiler on whole objects: what a blueprint's report has for it, that \<open>Compile\<close> never
  dereferences nil, and that what it compiles was verified.
\<close>

section \<open>What the verifier keeps of a report's resolution\<close>

lemma field_foldl: "(\<And>x r. F (f r x) = F r) \<Longrightarrow> F (foldl f r xs) = F r"
  by (induction xs arbitrary: r) auto

lemma res_report_all: "res_of (foldl (\<lambda>r e. rep_add st sev (p e) f (as e) r) r es) = res_of r"
  by (rule field_foldl) simp

lemma res_schema: "schema obj r = (ok, r') \<Longrightarrow> res_of r' = res_of r"
  by (auto simp: schema_def Let_def res_report_all split: if_splits)

lemma res_verify_connection: "verify_connection v c pin r = (m, r') \<Longrightarrow> res_of r' = res_of r"
  by (auto simp: verify_connection_def Let_def res_report_all split: prod.splits sum.splits if_splits)

lemma res_satisfies: "res_of (snd (satisfies path c m r)) = res_of r"
proof -
  have fail: "res_of (snd (fail_contract path c m f as x)) = res_of (snd x)" for f as x by (simp add: fail_contract_def)
  have act: "res_of (snd (foldl (check_action path c m) x as)) = res_of (snd x)" for x as
    by (rule field_foldl [where F = "\<lambda>x. res_of (snd x)"]) (auto simp: check_action_def fail split: option.splits)
  have one: "res_of (snd (foldl (\<lambda>x e. if P e then x else fail_contract path c m f (as e) x) x es)) = res_of (snd x)"
    for P f x and es :: "string list" and as
    by (rule field_foldl [where F = "\<lambda>x. res_of (snd x)"]) (simp add: fail)
  show ?thesis unfolding satisfies_def Let_def by (simp add: act one)
qed

lemma res_checkExtension: "res_of (checkExtension path p es evs r) = res_of r"
proof -
  have one: "res_of (foldl (\<lambda>r x. if P x then r else rep_add st sev pth fmt (as x) r) r xs) = res_of r"
    for P st sev pth fmt and as :: "string \<Rightarrow> arg list" and xs r
    by (rule field_foldl) simp
  show ?thesis unfolding checkExtension_def Let_def by (simp add: one)
qed

lemma res_warn_unserved: "res_of (warn_unserved cs path name opname dir format seen refs r) = res_of r"
  by (induction cs path name opname dir format seen refs r rule: warn_unserved.induct) (auto simp: Let_def)

lemma res_checkPluginOperations: "res_of (checkPluginOperations path p cs r) = res_of r"
  by (auto simp: checkPluginOperations_def Let_def res_warn_unserved split: option.splits)

lemma res_verify_Plugin: "res_of (verify_Plugin v p) = no_resolution"
proof -
  have logic: "res_of (logicPlugin v p r) = res_of r" for r
    by (auto simp: logicPlugin_def Let_def split: sum.splits option.splits)
  have impl: "res_of (foldl (implement_check v m) r refs) = res_of r" for r m refs
    by (rule field_foldl) (auto simp: implement_check_def res_satisfies split: sum.splits)
  obtain b r where sc: "schema (OPlugin p) (newReport (OPlugin p)) = (b, r)"
    by (cases "schema (OPlugin p) (newReport (OPlugin p))")
  have "res_of r = no_resolution" using res_schema [OF sc] by (simp add: newReport_def Let_def)
  then show ?thesis using sc
    by (cases b) (auto simp: verify_Plugin_def Let_def logic impl split: prod.splits sum.splits)
qed

section \<open>The recipe of a report\<close>

abbreviation rec_of :: "report \<Rightarrow> recipe option" where
  "rec_of r \<equiv> res_Recipe (res_of r)"

lemma rec_resolve_endpoint: "rec_of (resolve_endpoint v rec bound r ep) = rec_of r"
  by (auto simp: resolve_endpoint_def bind_conn_def split: option.splits sum.splits prod.splits dest: res_verify_connection)

lemma rec_extension_step: "rec_of (extension_step v cs es evs r ix) = rec_of r"
  by (auto simp: extension_step_def Let_def res_checkPluginOperations res_checkExtension split: prod.splits sum.splits)

lemma res_writeStep: "res_of (verify_writeStep path w producing r) = res_of r"
proof -
  have "res_of (check_approval path m op w r) = res_of r" "res_of (check_compensation path m op w r) = res_of r"
    "res_of (check_amount_config path m iface w r) = res_of r" for m op iface r
    by (auto simp: check_approval_def check_compensation_def check_amount_config_def Let_def split: option.splits)
  then show ?thesis by (auto simp: verify_writeStep_def Let_def split: option.splits sum.splits)
qed

lemma rec_mapping_loop: "rec_of (fst (mapping_loop v th x ix)) = rec_of (fst x)"
proof -
  have "res_of (foldl (review_field v path ref th) (foldl (check_expression v path ref) r1 fs) fs) = res_of r1" for r1 ref fs path
    by (simp add: res_foldl)
  then have "rec_of (verify_mapStep v path s th r) = rec_of r" for path s r
    by (auto simp: verify_mapStep_def Let_def split: sum.splits)
  then show ?thesis by (cases ix) (auto simp: mapping_loop_def map_field_def Let_def split: option.splits)
qed

lemma rec_stages:
  "rec_of (stage_resolve v rec bound r) = rec_of r" "rec_of (stage_extensions v rec r) = rec_of r"
  "rec_of (stage_interfaces rec r) = rec_of r" "rec_of (stage_mappings v rec r) = rec_of r"
  "rec_of (stage_policies v rec r) = rec_of r" "rec_of (stage_capacity v rec r) = rec_of r" "rec_of (stage_dryrun rec r) = rec_of r"
proof -
  have "rec_of (foldl (resolve_endpoint v rec bound) r eps) = rec_of r" for r eps
    by (rule field_foldl) (rule rec_resolve_endpoint)
  then show "rec_of (stage_resolve v rec bound r) = rec_of r" by (simp add: stage_resolve_def Let_def)
  have "rec_of (verify_extensions v refs cs r) = rec_of r" for refs cs r
    unfolding verify_extensions_def Let_def by (rule field_foldl) (rule rec_extension_step)
  moreover have "rec_of (foldl (warn_unused_pin rec) r ns) = rec_of r" for r ns
    by (rule field_foldl) (simp add: warn_unused_pin_def)
  ultimately show "rec_of (stage_extensions v rec r) = rec_of r" by (simp add: stage_extensions_def Let_def)
  have "rec_of (fst (foldl write_loop x ss)) = rec_of (fst x)" for x ss
    by (rule field_foldl [where F = "\<lambda>x. rec_of (fst x)"]) (auto simp: write_loop_def res_writeStep split: prod.splits option.splits)
  moreover have "res_of (check_trigger rec r) = res_of r"
    by (auto simp: check_trigger_def split: option.splits sum.splits)
  ultimately show "rec_of (stage_interfaces rec r) = rec_of r" by (simp add: stage_interfaces_def)
  have "rec_of (fst (foldl (mapping_loop v th) x ss)) = rec_of (fst x)" for th x ss
    by (rule field_foldl [where F = "\<lambda>x. rec_of (fst x)"]) (rule rec_mapping_loop)
  then show "rec_of (stage_mappings v rec r) = rec_of r" by (simp add: stage_mappings_def Let_def)
  have "rec_of (foldl (resolve_policy v) r refs) = rec_of r" for r refs
    by (rule field_foldl) (auto simp: resolve_policy_def split: sum.splits)
  then show "rec_of (stage_policies v rec r) = rec_of r" by (simp add: stage_policies_def Let_def)
  show "rec_of (stage_capacity v rec r) = rec_of r"
    unfolding stage_capacity_def by (rule field_foldl) (auto simp: capacity_step_def Let_def split: prod.splits option.splits)
  show "rec_of (stage_dryrun rec r) = rec_of r" by (simp add: stage_dryrun_def)
qed

lemma rec_verify_recipe: "rec_of (verify_recipe v rec bound) = Some rec"
proof -
  let ?r0 = "upd_res (\<lambda>x. x\<lparr>res_Recipe := Some rec\<rparr>) (newReport (ORecipe rec))"
  obtain b r where sc: "schema (ORecipe rec) ?r0 = (b, r)" by (cases "schema (ORecipe rec) ?r0")
  have "rec_of r = Some rec" using res_schema [OF sc] by simp
  then show ?thesis using sc by (cases b) (simp_all add: verify_recipe_def recipe_stages_def rec_stages)
qed

section \<open>The slots and children of a stack's report\<close>

definition slots_ok :: "resolution \<Rightarrow> bool" where
  "slots_ok x \<longleftrightarrow> dom (map_of (res_Slots x)) \<subseteq> dom (map_of (res_Connectors x)) \<inter> dom (map_of (res_Contracts x))"

lemma slots_ok_simps [simp]:
  "slots_ok (x\<lparr>res_Extensions := a\<rparr>) = slots_ok x" "slots_ok (x\<lparr>res_Policies := b\<rparr>) = slots_ok x"
  "slots_ok (x\<lparr>res_Connections := c\<rparr>) = slots_ok x"
  by (simp_all add: slots_ok_def)

text \<open>A report inside a stack's: a plugin's, or that of a recipe it names.\<close>

definition kid_ok :: "verifier \<Rightarrow> report \<Rightarrow> bool" where
  "kid_ok v c \<longleftrightarrow> rec_of c = None \<or> (\<exists>rec bound. c = verify_recipe v rec bound)"

definition stack_ok :: "verifier \<Rightarrow> report \<Rightarrow> bool" where
  "stack_ok v r \<longleftrightarrow> slots_ok (res_of r) \<and> list_all (kid_ok v) (rp_Children r)"

lemma stack_ok_simps [simp]:
  "stack_ok v (rep_add st sev p f as r) = stack_ok v r" "stack_ok v (rep_raise l r) = stack_ok v r"
  "stack_ok v (rep_child c r) \<longleftrightarrow> stack_ok v r \<and> kid_ok v c"
  "stack_ok v (upd_res (\<lambda>x. x\<lparr>res_Extensions := e x\<rparr>) r) = stack_ok v r"
  "stack_ok v (upd_res (\<lambda>x. x\<lparr>res_Policies := q x\<rparr>) r) = stack_ok v r"
  "stack_ok v (upd_res (\<lambda>x. x\<lparr>res_Connections := d x\<rparr>) r) = stack_ok v r"
  "stack_ok v (finish r) = stack_ok v r"
  by (auto simp: stack_ok_def)

lemma stack_ok_same: "res_of r' = res_of r \<Longrightarrow> rp_Children r' = rp_Children r \<Longrightarrow> stack_ok v r' = stack_ok v r"
  by (simp add: stack_ok_def)

lemma stack_ok_foldl: "(\<And>x r. stack_ok v r \<Longrightarrow> stack_ok v (f r x)) \<Longrightarrow> stack_ok v r \<Longrightarrow> stack_ok v (foldl f r xs)"
  by (induction xs arbitrary: r) auto

lemma kid_plugin [simp]: "kid_ok v (verify_Plugin v p)"
  by (simp add: kid_ok_def res_verify_Plugin no_resolution_def)

lemma kid_recipe [simp]: "kid_ok v (verify_recipe v rec bound)"
  by (auto simp: kid_ok_def)

text \<open>Functions that only add findings keep the children.\<close>

lemma kids_foldl: "(\<And>x r. rp_Children (f r x) = rp_Children r) \<Longrightarrow> rp_Children (foldl f r xs) = rp_Children r"
  by (rule field_foldl)

lemma kids_report_all: "rp_Children (foldl (\<lambda>r e. rep_add st sev (p e) f (as e) r) r es) = rp_Children r"
  by (rule kids_foldl) simp

lemma kids_verify_connection: "verify_connection v c pin r = (m, r') \<Longrightarrow> rp_Children r' = rp_Children r"
  by (auto simp: verify_connection_def Let_def kids_report_all split: prod.splits sum.splits if_splits)

lemma kids_satisfies: "rp_Children (snd (satisfies path c m r)) = rp_Children r"
proof -
  have fail: "rp_Children (snd (fail_contract path c m f as x)) = rp_Children (snd x)" for f as x by (simp add: fail_contract_def)
  have act: "rp_Children (snd (foldl (check_action path c m) x as)) = rp_Children (snd x)" for x as
    by (rule field_foldl [where F = "\<lambda>x. rp_Children (snd x)"]) (auto simp: check_action_def fail split: option.splits)
  have one: "rp_Children (snd (foldl (\<lambda>x e. if P e then x else fail_contract path c m f (as e) x) x es)) = rp_Children (snd x)"
    for P f x and es :: "string list" and as
    by (rule field_foldl [where F = "\<lambda>x. rp_Children (snd x)"]) (simp add: fail)
  show ?thesis unfolding satisfies_def Let_def by (simp add: act one)
qed

lemma kids_checkExtension: "rp_Children (checkExtension path p es evs r) = rp_Children r"
proof -
  have one: "rp_Children (foldl (\<lambda>r x. if P x then r else rep_add st sev pth fmt (as x) r) r xs) = rp_Children r"
    for P st sev pth fmt and as :: "string \<Rightarrow> arg list" and xs r
    by (rule kids_foldl) simp
  show ?thesis unfolding checkExtension_def Let_def by (simp add: one)
qed

lemma kids_warn_unserved: "rp_Children (warn_unserved cs path name opname dir format seen refs r) = rp_Children r"
  by (induction cs path name opname dir format seen refs r rule: warn_unserved.induct) (auto simp: Let_def)

lemma kids_checkPluginOperations: "rp_Children (checkPluginOperations path p cs r) = rp_Children r"
  by (auto simp: checkPluginOperations_def Let_def kids_warn_unserved split: option.splits)

lemma kids_checkPolicies: "rp_Children (checkPolicies v packs hw r) = rp_Children r"
proof -
  have "rp_Children (foldl (\<lambda>r (name, msg). rep_add StagePolicy SeverityError p f [AStr name, AStr msg] r) r fails) = rp_Children r" for p f fails
    by (rule kids_foldl) (simp split: prod.splits)
  then show ?thesis by (auto simp: checkPolicies_def Let_def split: option.splits sum.splits prod.splits)
qed

lemma stack_ok_bind_slot:
  assumes "stack_ok v (ss_report s)"
  shows "stack_ok v (ss_report (bind_slot slot p c m s))"
proof -
  obtain ok r where x: "satisfies (''spec.slots.'' @ slot) c m (ss_report s) = (ok, r)"
    by (cases "satisfies (''spec.slots.'' @ slot) c m (ss_report s)")
  have r: "res_of r = res_of (ss_report s)" "rp_Children r = rp_Children (ss_report s)"
    using res_satisfies [of "''spec.slots.'' @ slot" c m "ss_report s"] kids_satisfies [of "''spec.slots.'' @ slot" c m "ss_report s"] x by simp_all
  then have sr: "stack_ok v r" using assms stack_ok_same by metis
  have upd: "slots_ok (y\<lparr>res_Slots := AList.update slot p (res_Slots y), res_Contracts := AList.update slot c (res_Contracts y),
      res_Connectors := AList.update slot m (res_Connectors y)\<rparr>)" if "slots_ok y" for y
    using that by (auto simp: slots_ok_def update_conv')
  show ?thesis
  proof (cases ok)
    case True
    then show ?thesis using x sr upd by (simp add: bind_slot_def stack_ok_def)
  next
    case False
    then show ?thesis using x sr by (simp add: bind_slot_def)
  qed
qed

lemma stack_ok_slot_step:
  assumes "stack_ok v (ss_report s)"
  shows "stack_ok v (ss_report (slot_step v b s slot))"
proof -
  have conn: "stack_ok v r'" if "verify_connection v c pin r = (m, r')" "stack_ok v r" for c pin r m r'
    using stack_ok_same [of r' r v] that res_verify_connection [OF that(1)] kids_verify_connection [OF that(1)] by blast
  have connect: "stack_ok v (ss_report (connect_slot v slot bind p c m s))" if ok: "stack_ok v (ss_report s)" for bind p c m s
  proof (cases "sb_Connection bind = []")
    case True
    then show ?thesis using ok by (auto simp: connect_slot_def Let_def upd_report_def intro!: stack_ok_bind_slot)
  next
    case False
    show ?thesis
    proof (cases "cat_Connection (vf_cat v) (sb_Connection bind)")
      case (Inl e)
      then show ?thesis using False ok by (simp add: connect_slot_def Let_def upd_report_def)
    next
      case (Inr cn)
      obtain mo r where x: "verify_connection v cn (snd (ParseRef (ps_Connector (pg_Spec p)))) (ss_report s) = (mo, r)"
        by (cases "verify_connection v cn (snd (ParseRef (ps_Connector (pg_Spec p)))) (ss_report s)")
      have "stack_ok v r" by (rule conn [OF x ok])
      then show ?thesis using False Inr x ok
        by (cases mo) (auto simp: connect_slot_def Let_def upd_report_def intro!: stack_ok_bind_slot split: prod.splits)
    qed
  qed
  have contract: "stack_ok v (ss_report (contract_slot v model slot bind p s))" if "stack_ok v (ss_report s)" for model bind p s
    using that by (auto simp: contract_slot_def Let_def upd_report_def intro!: connect split: sum.splits prod.splits)
  show ?thesis using assms
    by (auto simp: slot_step_def Let_def upd_report_def intro!: contract split: option.splits sum.splits)
qed

lemma stack_ok_Blueprint: "stack_ok v (verify_Blueprint v b)"
proof -
  obtain k r where sc: "schema (OBlueprint b) (newReport (OBlueprint b)) = (k, r)"
    by (cases "schema (OBlueprint b) (newReport (OBlueprint b))")
  have "rp_Children r = []" using sc by (auto simp: schema_def Let_def kids_report_all)
  then have r: "stack_ok v r" using res_schema [OF sc] by (simp add: stack_ok_def slots_ok_def newReport_def Let_def no_resolution_def)
  have slots: "stack_ok v (ss_report s) \<Longrightarrow> stack_ok v (ss_report (foldl (slot_step v b) s ns))" for s ns
    by (induction ns arbitrary: s) (auto intro: stack_ok_slot_step)
  have ext: "stack_ok v q \<Longrightarrow> stack_ok v (foldl (stack_extension v cs es evs) q ixs)" for q cs es evs ixs
    by (rule stack_ok_foldl)
      (auto simp: stack_extension_def Let_def stack_ok_def res_checkPluginOperations res_checkExtension kids_checkPluginOperations
        kids_checkExtension split: prod.splits sum.splits)
  have sc2: "stack_ok v (fst (foldl (scope_endpoint b s rec path) x eps)) = stack_ok v (fst x)" for s rec path x eps
    by (rule field_foldl [where F = "\<lambda>x. stack_ok v (fst x)"]) (auto simp: scope_endpoint_def split: prod.splits option.splits)
  have rcp: "stack_ok v q \<Longrightarrow> stack_ok v (stack_recipe v b s q ix)" for q s ix
    using sc2 [of s] by (auto simp: stack_recipe_def Let_def split: prod.splits sum.splits) (metis fst_conv)
  have pol: "stack_ok v q \<Longrightarrow> stack_ok v (foldl (resolve_policy v) q refs)" for q refs
    by (rule stack_ok_foldl) (auto simp: resolve_policy_def split: sum.splits)
  have pols: "stack_ok v q \<Longrightarrow> stack_ok v (stack_policies v b q)" for q
    unfolding stack_policies_def Let_def using pol [of q]
    by (subst stack_ok_same [of _ "foldl (resolve_policy v) q (bs_Policies (bp_Spec b))"]) (simp_all add: kids_checkPolicies)
  have "stack_ok v (stack_stages v b r)"
    unfolding stack_stages_def Let_def stack_slots_def by (intro pols stack_ok_foldl [OF rcp] ext slots) (simp_all add: r)
  then show ?thesis using sc r by (cases k) (simp_all add: verify_Blueprint_def)
qed

section \<open>No nil dereference\<close>

lemma slot_connector_total:
  assumes "find_conn rep slot \<noteq> None"
  shows "slot_connector rep (Some b) slot \<noteq> None"
proof -
  obtain m where m: "find_conn rep slot = Some m" using assms by blast
  define b1 where "b1 = b\<lparr>bl_alias := AList.update (om_Name (cm_Metadata m)) slot (bl_alias b)\<rparr>"
  define b2 where "b2 = offers (bl_connector slot m [] b1) (slot, m)"
  have le: "conn_le b1 b2" unfolding b2_def by (rule conn_le_trans [OF conn_le_connector conn_le_offers])
  have "serves_iface b2 (bl_endpoint b1 slot) []"
    unfolding b2_def by (rule serves_le [OF conn_le_offers serves_connector])
  then have "map_of (bl_connectors b2) (bl_endpoint b2 slot) \<noteq> None"
    using conn_le_endpoint [OF le] by (auto simp: serves_iface_def)
  then show ?thesis using m by (auto simp: slot_connector_def Let_def b1_def [symmetric] b2_def [symmetric] split: option.splits)
qed

lemma option_foldl_total: "(\<And>x b. x \<in> set xs \<Longrightarrow> f (Some b) x \<noteq> None) \<Longrightarrow> foldl f (Some b) xs \<noteq> None"
proof (induction xs arbitrary: b)
  case (Cons x xs)
  obtain b' where "f (Some b) x = Some b'" using Cons(2) [of x b] by auto
  moreover have "foldl f (Some b') xs \<noteq> None" by (rule Cons(1)) (simp add: Cons(2))
  ultimately show ?case by simp
qed simp

lemma bl_blueprint_total:
  assumes "stack_ok v rep" "\<And>c. c \<in> set (rp_Children rep) \<Longrightarrow> rb_Deployable (rp_body c)"
  shows "bl_blueprint env rep b \<noteq> None"
proof -
  define slots where "slots = sort (map fst (AList.clearjunk (res_Slots (res_of rep))))"
  have slot: "find_conn rep x \<noteq> None" "map_of (res_Slots (res_of rep)) x \<noteq> None" "map_of (res_Contracts (res_of rep)) x \<noteq> None"
    if "x \<in> set slots" for x
  proof -
    have "x \<in> dom (map_of (res_Slots (res_of rep)))"
      using that by (simp only: slots_def set_sort set_map dom_clearjunk dom_map_of_conv_image_fst)
    then show "find_conn rep x \<noteq> None" "map_of (res_Slots (res_of rep)) x \<noteq> None" "map_of (res_Contracts (res_of rep)) x \<noteq> None"
      using assms(1) by (auto simp: stack_ok_def slots_ok_def find_conn_def)
  qed
  obtain b1 where b1: "foldl (slot_connector rep) (Some b) slots = Some b1"
    using option_foldl_total [of slots "slot_connector rep" b] slot_connector_total slot(1) by blast
  have "slot_tools env rep (Some x) n \<noteq> None" if "n \<in> set slots" for x n
    using slot(2,3) [OF that] by (auto simp: slot_tools_def)
  then obtain b2 where b2: "foldl (slot_tools env rep) (Some b1) slots = Some b2"
    using option_foldl_total [of slots "slot_tools env rep" b1] by blast
  have kids: "child_recipe env (Some x) c \<noteq> None" if c: "c \<in> set (rp_Children rep)" for x c
  proof -
    have "kid_ok v c" using assms(1) c by (auto simp: stack_ok_def list_all_iff)
    then show ?thesis using bl_recipe_total [of v _ _ env x] assms(2) [OF c] rec_verify_recipe
      by (auto simp: kid_ok_def child_recipe_def)
  qed
  have "foldl (child_recipe env) (Some (foldl (bl_extension env) b2 (res_Extensions (res_of rep)))) (rp_Children rep) \<noteq> None"
    by (rule option_foldl_total) (rule kids)
  then show ?thesis using b1 b2 by (auto simp: bl_blueprint_def Let_def slots_def [symmetric])
qed

lemma Compile_total: "Compile env venv cat obj opts \<noteq> None"
proof -
  let ?v = "New_verifier cat opts venv"
  have rcp: "rb_Deployable (rp_body (verify_Recipe ?v r)) \<Longrightarrow> bl_recipe env r (verify_Recipe ?v r) newBuilder \<noteq> None" for r
    unfolding verify_Recipe_def by (rule bl_recipe_total)
  have bpt: "rb_Deployable (rp_body (verify_Blueprint ?v o')) \<Longrightarrow> bl_blueprint env (verify_Blueprint ?v o') newBuilder \<noteq> None" for o'
  proof (rule bl_blueprint_total [OF stack_ok_Blueprint])
    fix c assume d: "rb_Deployable (rp_body (verify_Blueprint ?v o'))" and c: "c \<in> set (rp_Children (verify_Blueprint ?v o'))"
    from verify_Blueprint_honest [of ?v o'] d c show "rb_Deployable (rp_body c)"
      by (cases "verify_Blueprint ?v o'") (auto simp: list_all_iff)
  qed
  show ?thesis
    using rcp bpt by (auto simp: Compile_def compile_with_def Let_def split: object.splits)
qed

text \<open>C33: the compiler never crashes on what the verifier lets through. For every catalog, object and
  options, \<open>Compile\<close> returns: whenever the report says deployable, everything the compiler reads
  from it without checking (the source and targets of every recipe, every mapping, the connector
  and contract of every slot) is there.\<close>

theorem Compile_never_panics:
  "Compile env venv cat obj opts \<noteq> None"
  by (rule Compile_total)

end
