(* ===== verification/Compiler_Writes.thy ===== *)
theory Compiler_Writes
  imports Compiler_Stack Verify_Demo
begin

text \<open>
  What \<open>Compile\<close> puts into a spec was verified: every write of every workflow is a write step of a
  recipe the verifier found deployable, and the connector it runs on is deployed with the interface
  of the write and of its compensation.
\<close>

section \<open>Workflows are only added by recipes\<close>

abbreviation flows :: "builder \<Rightarrow> workflow list" where
  "flows b \<equiv> bd_Workflows (bl_body b)"

lemma flows_foldl: "(\<And>x b. flows (f b x) = flows b) \<Longrightarrow> flows (foldl f b xs) = flows b"
  by (rule field_foldl)

lemma flows_simps [simp]:
  "flows (bl_connector ep m iface b) = flows b" "flows (bl_tool ep op en risk desc b) = flows b"
  "flows (writeTool ep op' desc fs w b) = flows b" "flows (offer ep b op') = flows b" "flows (deploy env p slot b) = flows b"
  "flows (bl_extension env b p) = flows b" "flows (configure b x) = flows b" "flows (add_policy b pk) = flows b"
  "flows (bl_topic r src b) = flows b"
proof -
  show d: "flows (deploy env p slot b) = flows b" for env p slot b
    by (auto simp: deploy_def bl_deployment_def Let_def split: prod.splits sum.splits if_splits)
  show "flows (bl_extension env b p) = flows b" by (simp add: bl_extension_def d)
  show c: "flows (bl_connector ep m iface b) = flows b" for ep m iface b by (simp add: bl_connector_def Let_def)
  show "flows (bl_topic r src b) = flows b" by (simp add: bl_topic_def Let_def c)
qed (auto simp: bl_tool_def writeTool_def offer_def configure_def add_policy_def Let_def split: prod.splits option.splits)

lemma flows_offers [simp]: "flows (offers b x) = flows b"
  by (cases x) (simp add: offers_def flows_foldl)

lemma flows_read_tools [simp]: "flows (read_tools b x) = flows b"
  by (cases x) (simp add: read_tools_def flows_foldl read_tool_def Let_def)

lemma flows_compile_step: "compile_step rep i s fs b = Some (st, fs', b') \<Longrightarrow> flows b' = flows b"
  by (auto simp: compile_step_def compile_map_def compile_write_def Let_def split: option.split_asm if_split_asm)

lemma flows_compile_steps: "compile_steps rep i ss fs b = Some (sts, b') \<Longrightarrow> flows b' = flows b"
  by (induction ss arbitrary: i fs b sts) (auto dest: flows_compile_step split: option.split_asm prod.split_asm)

section \<open>Verified writes\<close>

text \<open>The builder's workflows write only what was verified, and every connector is under its endpoint.\<close>

definition from_verified :: "verifier \<Rightarrow> builder \<Rightarrow> write_config \<Rightarrow> bool" where
  "from_verified v b w \<longleftrightarrow>
     (\<exists>rec bound. rb_Deployable (rp_body (verify_recipe v rec bound))
        \<and> compiled_from (verify_recipe v rec bound) (rs_Steps (rc_Spec rec)) b w)"

definition all_writes :: "(write_config \<Rightarrow> bool) \<Rightarrow> workflow list \<Rightarrow> bool" where
  "all_writes P wfs \<longleftrightarrow> list_all (\<lambda>wf. list_all (\<lambda>st. pred_option P (wfs_Write st)) (wf_Steps wf)) wfs"

definition builder_ok :: "verifier \<Rightarrow> builder \<Rightarrow> bool" where
  "builder_ok v b \<longleftrightarrow> keyed b \<and> all_writes (from_verified v b) (flows b)"

lemma all_writes_mono: "(\<And>w. P w \<Longrightarrow> Q w) \<Longrightarrow> all_writes P wfs \<Longrightarrow> all_writes Q wfs"
  unfolding all_writes_def by (auto elim!: list.pred_mono_strong option.pred_mono_strong)

lemma all_writes_append [simp]: "all_writes P (xs @ ys) \<longleftrightarrow> all_writes P xs \<and> all_writes P ys"
  by (simp add: all_writes_def)

lemma from_verified_le: "conn_le b b' \<Longrightarrow> from_verified v b w \<Longrightarrow> from_verified v b' w"
  unfolding from_verified_def using compiled_from_le by blast

lemma builder_ok_le:
  assumes "conn_le b b'" "flows b' = flows b" "builder_ok v b"
  shows "builder_ok v b'"
  using assms conn_le_keyed [OF assms(1)] all_writes_mono [OF from_verified_le [OF assms(1)]] by (simp add: builder_ok_def)

lemma builder_ok_foldl: "(\<And>b x. conn_le b (f b x)) \<Longrightarrow> (\<And>b x. flows (f b x) = flows b) \<Longrightarrow> builder_ok v b \<Longrightarrow>
    builder_ok v (foldl f b xs)"
  by (rule builder_ok_le [of b]) (auto intro: conn_le_foldl flows_foldl)

lemma builder_ok_body:
  assumes "builder_ok v b" "all_writes (from_verified v b) [flow]" "bd_Workflows body = flows b @ [flow]"
  shows "builder_ok v (b\<lparr>bl_body := body\<rparr>)"
proof -
  have le: "conn_le b (b\<lparr>bl_body := body\<rparr>)" by (rule conn_le_same) simp_all
  show ?thesis
    using assms conn_le_keyed [OF le] all_writes_mono [OF from_verified_le [OF le]] by (simp add: builder_ok_def)
qed

lemma builder_ok_recipe:
  assumes "rb_Deployable (rp_body (verify_recipe v rec bound))" "builder_ok v b"
    and "bl_recipe env rec (verify_recipe v rec bound) b = Some b'"
  shows "builder_ok v b'"
proof -
  let ?rep = "verify_recipe v rec bound" and ?res = "res_of (verify_recipe v rec bound)"
  obtain src sts b1 where src: "find_conn ?rep (rs_TriggerSource (rc_Spec rec)) = Some src"
      and steps: "compile_steps ?rep 0 (rs_Steps (rc_Spec rec)) None (bl_topic rec src b) = Some (sts, b1)"
    using assms(3) by (auto simp: bl_recipe_def Let_def split: option.split_asm)
  define b5 where "b5 = foldl configure (foldl read_tools (foldl (bl_extension env) (foldl offers b1 (res_Connectors ?res))
    (res_Extensions ?res)) (res_Connectors ?res)) (res_Connections ?res)"
  have b1: "builder_ok v b1"
    using builder_ok_le [OF conn_le_topic _ assms(2)] builder_ok_le [of "bl_topic rec src b" b1 v]
      compile_steps_le [OF steps] flows_compile_steps [OF steps] by auto
  have le: "conn_le b1 b5" unfolding b5_def
    by (intro conn_le_trans [OF conn_le_foldl conn_le_trans [OF conn_le_foldl conn_le_trans [OF conn_le_foldl conn_le_foldl]]] conn_le_intros)
  have b5: "builder_ok v b5"
    by (rule builder_ok_le [OF le _ b1]) (simp add: b5_def flows_foldl)
  have one: "all_writes (from_verified v b5) [wf]" if "wf_Steps wf = sts" for wf
    using compile_steps_le [OF steps] compiled_from_le [OF le] assms(1) that
    by (auto simp: all_writes_def list_all_iff from_verified_def pred_option_def) blast
  have body: "builder_ok v (b5\<lparr>bl_body := (bl_body b5)\<lparr>bd_Workflows := flows b5 @ [wf], bd_Monitors := ms\<rparr>\<rparr>)"
    if "wf_Steps wf = sts" for wf ms
    by (rule builder_ok_body [OF b5 one [OF that]]) simp
  have "Some b' = Some (foldl add_policy (b5\<lparr>bl_body := (bl_body b5)\<lparr>bd_Workflows := flows b5 @
      [\<lparr>wf_Name = om_Name (rc_Metadata rec), wf_Trigger = trigger_of b rec src, wf_Steps = sts, wf_SLO = rs_SLO (rc_Spec rec),
        wf_Policies = sort (map (om_Name \<circ> pk_Metadata) (res_Policies ?res))\<rparr>],
      bd_Monitors := bd_Monitors (bl_body b5) @ slo_monitor rec\<rparr>\<rparr>) (res_Policies ?res))"
    unfolding assms(3) [symmetric] by (simp add: bl_recipe_def src steps Let_def b5_def [symmetric])
  then show ?thesis by (simp only: option.inject) (intro builder_ok_foldl conn_le_policy flows_simps body, simp)
qed

section \<open>Stacks\<close>

lemma slot_connector_keeps:
  assumes "slot_connector rep (Some b) slot = Some b'" "keyed b" "flows b = []"
  shows "keyed b' \<and> flows b' = []"
proof -
  obtain m where m: "find_conn rep slot = Some m" using assms(1) by (auto simp: slot_connector_def split: option.split_asm)
  define b1 where "b1 = b\<lparr>bl_alias := AList.update (om_Name (cm_Metadata m)) slot (bl_alias b)\<rparr>"
  define b2 where "b2 = offers (bl_connector slot m [] b1) (slot, m)"
  have "conn_le b1 b2" unfolding b2_def by (rule conn_le_trans [OF conn_le_connector conn_le_offers])
  moreover have "keyed b1" "flows b1 = []" using assms by (simp_all add: b1_def keyed_def)
  ultimately have b2: "keyed b2" "flows b2 = []" by (auto simp: b2_def dest: conn_le_keyed)
  then have "keyed (configure b2 x)" "flows (configure b2 x) = []" for x using conn_le_keyed [OF conn_le_configure] by auto
  then show ?thesis using assms(1) m b2
    by (auto simp: slot_connector_def Let_def b1_def [symmetric] b2_def [symmetric] split: option.split_asm if_split_asm)
qed

lemma option_foldl_inv:
  assumes "\<And>x b b'. x \<in> set xs \<Longrightarrow> f (Some b) x = Some b' \<Longrightarrow> P b \<Longrightarrow> P b'" "\<And>x. f None x = None"
    and "foldl f (Some b) xs = Some b'" "P b"
  shows "P b'"
  using assms(1,3,4)
proof (induction xs arbitrary: b)
  case (Cons x xs)
  have "foldl f None ys = None" for ys by (induction ys) (simp_all add: assms(2))
  then obtain b1 where "f (Some b) x = Some b1" using Cons(3) by (cases "f (Some b) x") auto
  then show ?case using Cons by auto
qed simp

lemma builder_ok_slot_tools: "slot_tools env rep (Some b) slot = Some b' \<Longrightarrow> builder_ok v b \<Longrightarrow> builder_ok v b'"
  using conn_le_tool
  by (auto simp: slot_tools_def contract_tool_def intro!: builder_ok_foldl intro: builder_ok_le [OF conn_le_deploy] split: option.split_asm)

lemma builder_ok_blueprint:
  assumes "stack_ok v rep" "\<And>c. c \<in> set (rp_Children rep) \<Longrightarrow> rb_Deployable (rp_body c)"
    and "bl_blueprint env rep newBuilder = Some b"
  shows "builder_ok v b"
proof -
  define slots where "slots = sort (map fst (AList.clearjunk (res_Slots (res_of rep))))"
  obtain b2 b4 where b2: "foldl (slot_tools env rep) (foldl (slot_connector rep) (Some newBuilder) slots) slots = Some b2"
    and b4: "foldl (child_recipe env) (Some (foldl (bl_extension env) b2 (res_Extensions (res_of rep)))) (rp_Children rep) = Some b4"
    and b: "b = foldl add_policy b4 (res_Policies (res_of rep))"
  proof -
    have none: "foldl (child_recipe env) None cs = None" for cs by (induction cs) (simp_all add: child_recipe_def)
    show ?thesis using assms(3) that
      by (cases "foldl (slot_tools env rep) (foldl (slot_connector rep) (Some newBuilder) slots) slots")
        (auto simp: bl_blueprint_def Let_def slots_def [symmetric] none)
  qed
  have none: "foldl (slot_tools env rep) None ss = None" for ss by (induction ss) (simp_all add: slot_tools_def)
  obtain b1 where b1: "foldl (slot_connector rep) (Some newBuilder) slots = Some b1"
    using b2 none by (cases "foldl (slot_connector rep) (Some newBuilder) slots") auto
  have "keyed b1 \<and> flows b1 = []"
  proof (rule option_foldl_inv [where P = "\<lambda>b. keyed b \<and> flows b = []", OF _ _ b1])
    show "slot_connector rep (Some b) x = Some b' \<Longrightarrow> keyed b \<and> flows b = [] \<Longrightarrow> keyed b' \<and> flows b' = []" for x b b'
      using slot_connector_keeps by blast
  qed (simp_all add: slot_connector_def newBuilder_def keyed_def empty_body_def)
  then have ok1: "builder_ok v b1" by (simp add: builder_ok_def all_writes_def)
  have ok2: "builder_ok v b2"
    by (rule option_foldl_inv [where P = "builder_ok v", OF _ _ b2 [unfolded b1] ok1]) (auto intro: builder_ok_slot_tools simp: slot_tools_def)
  have ok3: "builder_ok v (foldl (bl_extension env) b2 (res_Extensions (res_of rep)))"
    by (intro builder_ok_foldl conn_le_extension flows_simps ok2)
  have "builder_ok v b4"
  proof (rule option_foldl_inv [where P = "builder_ok v", OF _ _ b4 ok3])
    fix c x y assume c: "c \<in> set (rp_Children rep)" and x: "child_recipe env (Some x) c = Some y" "builder_ok v x"
    then have "kid_ok v c" using assms(1) by (auto simp: stack_ok_def list_all_iff)
    then show "builder_ok v y"
      using builder_ok_recipe [of v _ _ x env y] assms(2) [OF c] x rec_verify_recipe
      by (auto simp: kid_ok_def child_recipe_def split: option.split_asm)
  qed (simp add: child_recipe_def)
  then show ?thesis unfolding b by (intro builder_ok_foldl conn_le_policy flows_simps)
qed

lemma Compile_builder_ok:
  assumes "Compile env venv cat obj opts = Some (Some spec, rep, err)"
  shows "\<exists>b. builder_ok (New_verifier cat opts venv) b \<and> sp_Body spec = finish_body b"
proof -
  let ?v = "New_verifier cat opts venv"
  have new: "builder_ok ?v newBuilder" by (simp add: builder_ok_def keyed_def newBuilder_def empty_body_def all_writes_def)
  show ?thesis
  proof (cases obj)
    case (ORecipe r)
    then obtain b where "rb_Deployable (rp_body (verify_recipe ?v r []))" "bl_recipe env r (verify_recipe ?v r []) newBuilder = Some b"
        "sp_Body spec = finish_body b"
      using assms by (auto simp: Compile_def compile_with_def bl_finish_def verify_Recipe_def Let_def split: if_split_asm)
    then show ?thesis using builder_ok_recipe [OF _ new] by blast
  next
    case (OBlueprint o')
    have kids: "rb_Deployable (rp_body c)" if "rb_Deployable (rp_body (verify_Blueprint ?v o'))" "c \<in> set (rp_Children (verify_Blueprint ?v o'))" for c
      using verify_Blueprint_honest [of ?v o'] that by (cases "verify_Blueprint ?v o'") (auto simp: list_all_iff)
    obtain b where "rb_Deployable (rp_body (verify_Blueprint ?v o'))" "bl_blueprint env (verify_Blueprint ?v o') newBuilder = Some b"
        "sp_Body spec = finish_body b"
      using assms OBlueprint by (auto simp: Compile_def compile_with_def bl_finish_def Let_def split: if_split_asm)
    then show ?thesis using builder_ok_blueprint [OF stack_ok_Blueprint] kids by blast
  qed (use assms in \<open>auto simp: Compile_def Let_def\<close>)
qed

section \<open>The finished spec\<close>

definition runs_on :: "runtime_body \<Rightarrow> string \<Rightarrow> string \<Rightarrow> bool" where
  "runs_on body ep iface \<longleftrightarrow>
     (\<exists>c \<in> set (bd_Connectors body). cc_Endpoint c = ep \<and> (iface = [] \<or> iface \<in> set (cc_Interfaces c)))"

text \<open>A write of a spec that was verified: a write step of a deployable recipe, with the operation, risk and
  interface of the manifest it was verified against, a compensation that is a write of the same
  manifest, an approval when its risk is high, a preview when its amount is checked, on a connector
  deployed with both interfaces.\<close>

definition verified_write :: "verifier \<Rightarrow> runtime_body \<Rightarrow> write_config \<Rightarrow> bool" where
  "verified_write v body w \<longleftrightarrow>
     (\<exists>rec bound s ws m op undo.
        rb_Deployable (rp_body (verify_recipe v rec bound)) \<and> s \<in> set (rs_Steps (rc_Spec rec)) \<and> st_Write s = Some ws
      \<and> find_conn (verify_recipe v rec bound) (wst_Target ws) = Some m
      \<and> cm_Operation m (wst_Operation ws) = Some op \<and> op_Direction op = DirectionWrite
      \<and> cm_Operation m (wc_Compensation w) = Some undo \<and> op_Direction undo = DirectionWrite
      \<and> wc_Operation w = op_Name op \<and> wc_Interface w = op_Interface op \<and> wc_Risk w = op_Risk op
      \<and> wc_IdempotencyKey w = wst_IdempotencyKey ws \<and> wc_CheckAmount w = wst_CheckAmount ws
      \<and> (wc_CheckAmount w \<noteq> None \<longrightarrow> wc_Simulation w \<noteq> [])
      \<and> (wc_Risk w = RiskHigh \<longrightarrow> wc_Approval w \<noteq> ApprovalNone)
      \<and> runs_on body (wc_Endpoint w) (wc_Interface w) \<and> runs_on body (wc_Endpoint w) (op_Interface undo))"

lemma serves_runs_on: "keyed b \<Longrightarrow> serves_iface b ep iface \<Longrightarrow> runs_on (finish_body b) ep iface"
proof -
  assume k: "keyed b" and "serves_iface b ep iface"
  then obtain c where c: "map_of (bl_connectors b) ep = Some c" "iface = [] \<or> iface \<in> set (cc_Interfaces c)"
    by (auto simp: serves_iface_def)
  then have "c \<in> set (bd_Connectors (finish_body b))"
    by (force simp: finish_body_def wirePlugins_def Let_def dest: map_of_SomeD)
  then show ?thesis using c keyedD [OF k c(1)] by (auto simp: runs_on_def)
qed

lemma from_verified_write:
  assumes "from_verified v b w" "keyed b"
  shows "verified_write v (finish_body b) w"
proof -
  obtain rec bound s ws m where d: "rb_Deployable (rp_body (verify_recipe v rec bound))" "s \<in> set (rs_Steps (rc_Spec rec))"
      "st_Write s = Some ws" "find_conn (verify_recipe v rec bound) (wst_Target ws) = Some m" "w = write_config_of b m ws"
      and sv: "serves_iface b (wc_Endpoint w) (wc_Interface w)"
        "\<And>undo. cm_Operation m (wc_Compensation w) = Some undo \<Longrightarrow> serves_iface b (wc_Endpoint w) (op_Interface undo)"
    using assms(1) unfolding from_verified_def compiled_from_def by blast
  have "write_ok m ws" using deployable_write_ok [OF d(1-3)] d(4) by (auto simp: find_conn_def)
  then obtain op iface undo where op: "cm_Operation m (wst_Operation ws) = Some op" "op_Direction op = DirectionWrite"
      "Permitted m DirectionWrite (op_Interface op) = Inr iface" "cm_Operation m (wc_Compensation w) = Some undo"
      "op_Direction undo = DirectionWrite" "op_Risk op = RiskHigh \<longrightarrow> wst_Approval ws \<noteq> ApprovalNone"
      "wst_CheckAmount ws \<noteq> None \<longrightarrow> wst_Simulate ws \<and> if_Simulation iface \<noteq> []"
    by (auto simp: write_ok_def d(5) write_config_of_def write_undo_def op_or_zero_def Let_def)
  have w: "wc_Operation w = op_Name op" "wc_Interface w = op_Interface op" "wc_Risk w = op_Risk op"
    "wc_IdempotencyKey w = wst_IdempotencyKey ws" "wc_CheckAmount w = wst_CheckAmount ws"
    "wc_CheckAmount w \<noteq> None \<longrightarrow> wc_Simulation w \<noteq> []" "wc_Risk w = RiskHigh \<longrightarrow> wc_Approval w \<noteq> ApprovalNone"
    using op by (simp_all add: d(5) write_config_of_def op_or_zero_def Let_def ApprovalPolicy_def ApprovalNone_def)
  show ?thesis unfolding verified_write_def
    by (intro exI [of _ rec] exI [of _ bound] exI [of _ s] exI [of _ ws] exI [of _ m] exI [of _ op] exI [of _ undo] conjI
        d(1-4) op(1,2,4,5) w serves_runs_on [OF assms(2)] sv)
qed

lemma verified_write_wired: "verified_write v body w \<Longrightarrow> verified_write v body (wire_write ds w)"
  by (simp add: verified_write_def wire_write_def Let_def)

lemma all_writes_finish: "(\<And>ds w. P w \<Longrightarrow> P (wire_write ds w)) \<Longrightarrow> all_writes P (flows b) \<Longrightarrow>
    all_writes P (bd_Workflows (finish_body b))"
  by (auto simp: all_writes_def finish_body_def wirePlugins_def wire_step_def Let_def list_all_iff pred_option_def)


section \<open>The demo stack compiles\<close>

definition demo_cenv :: compile_env where
  "demo_cenv = \<lparr>ce_PluginModule = (\<lambda>p. Inr []), ce_SHA256 = (\<lambda>s. s), ce_Digest = (\<lambda>b. [])\<rparr>"

lemma demo_New_verifier: "New_verifier demo_catalog (vf_opts demo_verifier) demo_env = demo_verifier"
  by (simp add: New_verifier_def withDefaults_def demo_verifier_def Let_def)

lemma demo_compiles: "\<exists>spec rep err. Compile demo_cenv demo_env demo_catalog (OBlueprint demo_stack) (vf_opts demo_verifier)
    = Some (Some spec, rep, err)"
  using Compile_total [of demo_cenv demo_env demo_catalog "OBlueprint demo_stack" "vf_opts demo_verifier"] demo_stack_deployable
  by (auto simp: Compile_def demo_New_verifier compile_with_def Let_def)


end
