(* ===== verification/Compiler_Tools.thy ===== *)
theory Compiler_Tools
  imports Compiler_Writes "HOL-Library.Multiset"
begin

text \<open>
  The finished body: the order in which the builder's maps are iterated does not show in it, as long
  as no two agent tools get one name; and the tools of a stack, whose risk is the slot contract's.
\<close>

section \<open>Map iteration order\<close>

text \<open>Two builders that differ only in the order in which their maps are listed.\<close>

definition same_maps :: "builder \<Rightarrow> builder \<Rightarrow> bool" where
  "same_maps b b' \<longleftrightarrow>
     bl_body b' = bl_body b \<and> bl_entityOps b' = bl_entityOps b
   \<and> mset (bl_connectors b') = mset (bl_connectors b) \<and> mset (bl_topics b') = mset (bl_topics b)
   \<and> mset (bl_tools b') = mset (bl_tools b) \<and> mset (bl_policies b') = mset (bl_policies b)"

text \<open>Every entry is filed_tools under what the spec sorts it by.\<close>

definition filed_tools :: "builder \<Rightarrow> bool" where
  "filed_tools b \<longleftrightarrow> keyed b
   \<and> distinct (map fst (bl_topics b)) \<and> (\<forall>(k, t) \<in> set (bl_topics b). tp_Name t = k)
   \<and> distinct (map fst (bl_policies b)) \<and> (\<forall>(k, p) \<in> set (bl_policies b). pf_Name p = k)"

lemma sort_key_mset: "mset xs = mset ys \<Longrightarrow> inj_on f (set xs) \<Longrightarrow> sort_key f xs = sort_key f ys"
  by (rule sort_key_inj_key_eq) auto

lemma filed_inj:
  assumes "distinct (map fst al)" "\<forall>(k, v) \<in> set al. f v = k"
  shows "inj_on f (set (map snd al))"
proof (rule inj_onI)
  fix x y assume "x \<in> set (map snd al)" "y \<in> set (map snd al)" "f x = f y"
  then obtain k where "(k, x) \<in> set al" "(k, y) \<in> set al" using assms(2) by fastforce
  then show "x = y" using assms(1) by (metis eq_key_imp_eq_value)
qed

lemma map_of_mset: "mset al = mset bl \<Longrightarrow> distinct (map fst al) \<Longrightarrow> map_of al = map_of bl"
  by (metis distinct_map map_of_inject_set mset_eq_imp_distinct_iff mset_eq_setD mset_map)

lemma name_tool_mset: "mset ts = mset us \<Longrightarrow> name_tool ts t = name_tool us t"
  by (simp add: name_tool_def Let_def) (metis mset_filter size_mset)

lemma wirePlugins_same: "same_maps b b' \<Longrightarrow> keyed b \<Longrightarrow> bl_body (wirePlugins b') = bl_body (wirePlugins b)"
proof -
  assume s: "same_maps b b'" and k: "keyed b"
  have "map_of (bl_connectors b') = map_of (bl_connectors b)"
    using s k map_of_mset [of "bl_connectors b" "bl_connectors b'"] by (simp add: same_maps_def keyed_def)
  then have "pick b' = pick b" using s by (intro ext) (simp add: pick_def same_maps_def)
  then have "wire_plugin b' = wire_plugin b"
    using s by (intro ext) (auto simp: wire_plugin_def wire_grants_def same_maps_def split: option.split bool.split)
  then show ?thesis using s by (simp add: wirePlugins_def same_maps_def Let_def)
qed

lemma finish_same:
  assumes "same_maps b b'" "filed_tools b" "distinct (map at_Name (bd_Tools (finish_body b)))"
  shows "finish_body b' = finish_body b"
proof -
  have keep: "bl_connectors (wirePlugins x) = bl_connectors x" "bl_topics (wirePlugins x) = bl_topics x"
    "bl_tools (wirePlugins x) = bl_tools x" "bl_policies (wirePlugins x) = bl_policies x" for x
    by (simp_all add: wirePlugins_def Let_def)
  let ?ts = "map snd (bl_tools b)" and ?us = "map snd (bl_tools b')"
  have ms: "mset ?ts = mset ?us" using assms(1) by (simp add: same_maps_def)
  have nt: "name_tool ?us = name_tool ?ts" using name_tool_mset [OF ms] by auto
  have tools: "bd_Tools (finish_body b) = sort_key at_Name (map (name_tool ?ts) ?ts)"
    by (simp add: finish_body_def keep Let_def)
  have "mset (map at_Name (bd_Tools (finish_body b))) = mset (map at_Name (map (name_tool ?ts) ?ts))"
    unfolding tools by (simp only: mset_map mset_sort)
  then have "distinct (map at_Name (map (name_tool ?ts) ?ts))"
    using assms(3) by (metis mset_eq_imp_distinct_iff)
  then have "sort_key at_Name (map (name_tool ?ts) ?ts) = sort_key at_Name (map (name_tool ?us) ?us)"
    by (intro sort_key_mset) (simp_all only: nt distinct_map mset_map [of "name_tool ?ts"] ms)
  moreover have "sort_key cc_Endpoint (map snd (bl_connectors b)) = sort_key cc_Endpoint (map snd (bl_connectors b'))"
    "sort_key tp_Name (map snd (bl_topics b)) = sort_key tp_Name (map snd (bl_topics b'))"
    "sort_key pf_Name (map snd (bl_policies b)) = sort_key pf_Name (map snd (bl_policies b'))"
    using assms(1,2) by (intro sort_key_mset filed_inj; simp add: same_maps_def filed_tools_def keyed_def)+
  moreover have "bl_body (wirePlugins b') = bl_body (wirePlugins b)"
    using wirePlugins_same assms(1,2) by (simp add: filed_tools_def)
  ultimately show ?thesis by (simp add: finish_body_def keep Let_def)
qed


definition demo_tool :: "string \<Rightarrow> string \<Rightarrow> string \<times> agent_tool" where
  "demo_tool ep op = (ep @ ''/'' @ op, \<lparr>at_Name = [], at_Description = [], at_Risk = RiskLow, at_Endpoint = ep, at_Operation = op,
     at_Entity = [], at_Fields = [], at_Simulate = False, at_Amount = [], at_CheckAmount = None\<rparr>)"

definition demo_builder :: "(string \<times> agent_tool) list \<Rightarrow> builder" where
  "demo_builder ts = newBuilder\<lparr>bl_tools := ts\<rparr>"

lemma demo_builder_simps: "filed_tools (demo_builder ts)" "same_maps (demo_builder ts) (demo_builder us) \<longleftrightarrow> mset us = mset ts"
  by (auto simp: filed_tools_def keyed_def same_maps_def demo_builder_def newBuilder_def)


text \<open>The condition on the names matters. The operation create of the endpoints erp and crm and the operation
  crm-create give the name \<open>crm_create\<close> twice, and the order in which the map lists those two shows.\<close>

lemma tool_names_collide:
  "finish_body (demo_builder [demo_tool ''erp'' ''create'', demo_tool ''crm'' ''create'', demo_tool ''erp'' ''crm-create'']) \<noteq>
   finish_body (demo_builder [demo_tool ''erp'' ''create'', demo_tool ''erp'' ''crm-create'', demo_tool ''crm'' ''create''])"
proof -
  have "map at_Endpoint (bd_Tools (finish_body (demo_builder [demo_tool ''erp'' ''create'', demo_tool ''crm'' ''create'',
      demo_tool ''erp'' ''crm-create'']))) = [''crm'', ''erp'', ''erp'']" by code_simp
  moreover have "map at_Endpoint (bd_Tools (finish_body (demo_builder [demo_tool ''erp'' ''create'', demo_tool ''erp'' ''crm-create'',
      demo_tool ''crm'' ''create'']))) = [''erp'', ''crm'', ''erp'']" by code_simp
  ultimately show ?thesis by auto
qed

section \<open>The risk of a stack's tools\<close>

definition bare_stack :: stack_blueprint where
  "bare_stack = demo_stack\<lparr>bp_Spec := (bp_Spec demo_stack)\<lparr>bs_Recipes := []\<rparr>\<rparr>"

lemma bare_stages: "stack_stages demo_verifier bare_stack (newReport (OBlueprint bare_stack)) =
    ss_report (stack_slots demo_verifier bare_stack (newReport (OBlueprint bare_stack)))"
proof -
  have "res_Policies (res_of (ss_report (stack_slots demo_verifier bare_stack (newReport (OBlueprint bare_stack))))) = []"
    by code_simp
  then show ?thesis
    by (simp add: stack_stages_def Let_def bare_stack_def demo_fields stack_policies_def checkPolicies_def)
qed

lemma bare_report: "verify_Blueprint demo_verifier bare_stack =
    finish (ss_report (stack_slots demo_verifier bare_stack (newReport (OBlueprint bare_stack))))"
proof -
  have "StackBlueprint_Validate bare_stack = []" by code_simp
  from verify_Blueprint_valid [OF this] show ?thesis by (simp only: bare_stages)
qed

lemma bare_deployable: "rb_Deployable (rp_body (verify_Blueprint demo_verifier bare_stack))"
  unfolding bare_report by code_simp

lemma bare_tools: "map_option (\<lambda>b. map (\<lambda>t. (at_Name t, at_Endpoint t, at_Risk t)) (bd_Tools (finish_body b)))
    (bl_blueprint demo_cenv (verify_Blueprint demo_verifier bare_stack) newBuilder) = Some [(''create'', ''erp'', RiskLow)]"
  unfolding bare_report by code_simp

end
