(* ===== verification/Identity.thy ===== *)
theory Identity
  imports Api_Objects Float64
begin

text \<open>
  Matching a record to master records, \<open>pkg/identity/identity.go\<close>: the attributes read from a
  document, the comparison of two records, the Fellegi-Sunter score, suggestions and the decision to
  link automatically. \<open>math.Log\<close> and \<open>math.Exp\<close> are functions of \<open>math_fns\<close> (correctly rounded
  logarithms are not computable on rationals); everything else is computed with rounded floats.
  Attributes are association lists with distinct keys. Letters are the ASCII letters.
\<close>

section \<open>Formatting numbers\<close>

text \<open>The shortest decimal that rounds to a positive float, as its digits and the position of the point
  (\<open>0.d1d2... * 10 ^ e\<close>), as \<open>strconv.FormatFloat\<close> with precision -1 finds it: at most 17 digits.\<close>

definition dec_exp :: "rat \<Rightarrow> int" where
  "dec_exp x =
     (if 1 \<le> x then int (length (Itoa (nat \<lfloor>x\<rfloor>)))
      else - int (case find (\<lambda>z. 1 / 10 \<le> x * 10 ^ z) [0..<400] of Some z \<Rightarrow> z | None \<Rightarrow> 400))"

definition nearest_dec :: "rat \<Rightarrow> nat \<Rightarrow> int" where
  "nearest_dec x k = round_even (x * 10 powi (int k - dec_exp x))"

definition shortest_dec :: "rat \<Rightarrow> string \<times> int" where
  "shortest_dec x =
     (let k = (case find (\<lambda>k. fl (of_int (nearest_dec x k) / 10 powi (int k - dec_exp x)) = x) [1..<17] of
                 Some k \<Rightarrow> k | None \<Rightarrow> 17);
          ds = Itoa (nat (nearest_dec x k))
      in (rev (dropWhile (\<lambda>c. c = CHR ''0'') (rev ds)), dec_exp x + int (length ds) - int k))"

definition fixed_dec :: "string \<times> int \<Rightarrow> string" where
  "fixed_dec d =
     (case d of (ds, e) \<Rightarrow>
        if e \<le> 0 then ''0.'' @ replicate (nat (- e)) (CHR ''0'') @ ds
        else if int (length ds) \<le> e then ds @ replicate (nat e - length ds) (CHR ''0'')
        else take (nat e) ds @ ''.'' @ drop (nat e) ds)"

text \<open>\<open>strconv.FormatFloat(x, 'f', -1, 64)\<close>.\<close>

definition FormatFloat :: "rat \<Rightarrow> string" where
  "FormatFloat x =
     (if x = 0 then ''0''
      else if x < 0 then CHR ''-'' # fixed_dec (shortest_dec (- x))
      else fixed_dec (shortest_dec x))"

text \<open>\<open>fmt.Sprint\<close> of a float: the same, or with an exponent when it is below -4 or from 21 on.\<close>

definition exp_dec :: "string \<times> int \<Rightarrow> string" where
  "exp_dec d =
     (case d of (ds, e) \<Rightarrow>
        let x = e - 1; n = Itoa (nat \<bar>x\<bar>)
        in take 1 ds @ (if length ds = 1 then [] else CHR ''.'' # drop 1 ds) @ ''e'' @ (if x < 0 then ''-'' else ''+'')
           @ (if length n = 1 then CHR ''0'' # n else n))"

definition Sprint_float :: "rat \<Rightarrow> string" where
  "Sprint_float x =
     (let d = shortest_dec \<bar>x\<bar>
      in if x = 0 then ''0''
         else (if x < 0 then ''-'' else []) @ (if snd d - 1 < - 4 \<or> 21 \<le> snd d - 1 then exp_dec d else fixed_dec d))"

section \<open>Attributes\<close>

type_synonym attributes = "(string \<times> string) list"

definition freeMail :: "string list" where
  "freeMail = [''gmail.com'', ''googlemail.com'', ''outlook.com'', ''hotmail.com'', ''live.com'', ''msn.com'',
     ''yahoo.com'', ''yahoo.de'', ''yahoo.co.uk'', ''icloud.com'', ''me.com'', ''mac.com'', ''aol.com'', ''gmx.de'',
     ''gmx.net'', ''gmx.at'', ''web.de'', ''t-online.de'', ''proton.me'', ''protonmail.com'', ''mail.com'', ''yandex.com'',
     ''zoho.com'', ''libero.it'', ''virgilio.it'', ''orange.fr'', ''free.fr'', ''laposte.net'', ''wanadoo.fr'', ''hey.com'',
     ''fastmail.com'']"

definition is_alnum :: "char \<Rightarrow> bool" where
  "is_alnum c = (let n = (of_char c :: nat) in is_digit c \<or> (65 \<le> n \<and> n \<le> 90) \<or> (97 \<le> n \<and> n \<le> 122))"

text \<open>The builder holds what was written, reversed.\<close>

fun normalize_loop :: "string \<Rightarrow> bool \<Rightarrow> string \<Rightarrow> string" where
  "normalize_loop out space [] = rev out"
| "normalize_loop out space (r # rs) =
     (if is_alnum r then normalize_loop (r # (if space \<and> out \<noteq> [] then CHR '' '' # out else out)) False rs
      else normalize_loop out True rs)"

definition normalizeName :: "string \<Rightarrow> string" where
  "normalizeName s = normalize_loop [] False (map to_lower s)"

definition match_value :: "doc \<Rightarrow> string \<Rightarrow> string" where
  "match_value d f = TrimSpace (case map_of d f of Some (JStr s) \<Rightarrow> s | Some (JNum n) \<Rightarrow> Sprint_float (fl n) | _ \<Rightarrow> [])"

definition extract_field :: "doc \<Rightarrow> attributes \<Rightarrow> match_field \<Rightarrow> attributes" where
  "extract_field d a f =
     (let v = match_value d (mf_Field f); email = map to_lower v
      in if v = [] then a
         else if mf_Kind f = MatchEmail \<or> mf_Kind f = MatchDomain then
           (case CutLast (CHR ''@'') email of
              None \<Rightarrow> a
            | Some (user, host) \<Rightarrow>
                if user = [] \<or> host = [] then a
                else if mf_Kind f = MatchEmail then AList.update ''email'' email a
                else if host \<notin> set freeMail then AList.update ''domain'' host a else a)
         else if mf_Kind f = MatchName then
           (if normalizeName v \<noteq> [] then AList.update ''name'' (normalizeName v) a else a)
         else if mf_Kind f = MatchExact then
           AList.update (''exact:'' @ mf_Field f) (map to_upper (filter (\<lambda>c. \<not> is_space c) v)) a
         else a)"

definition Extract :: "doc \<Rightarrow> match_field list \<Rightarrow> attributes" where
  "Extract d fs = foldl (extract_field d) [] fs"

section \<open>Jaro-Winkler similarity\<close>

text \<open>The matching loop over \<open>s\<close>: the marks of \<open>s\<close> and of \<open>t\<close>.\<close>

definition jw_find :: "char \<Rightarrow> string \<Rightarrow> bool list \<Rightarrow> nat \<Rightarrow> nat \<Rightarrow> nat option" where
  "jw_find c t tm lo hi = find (\<lambda>j. \<not> tm ! j \<and> c = t ! j) [lo..<hi]"

fun jw_match :: "nat \<Rightarrow> string \<Rightarrow> nat \<Rightarrow> string \<Rightarrow> bool list \<Rightarrow> bool list \<times> bool list" where
  "jw_match window t i [] tm = ([], tm)"
| "jw_match window t i (c # cs) tm =
     (case jw_find c t tm (i - window) (min (length t) (i + window + 1)) of
        Some j \<Rightarrow> (case jw_match window t (Suc i) cs (tm[j := True]) of (sm, tm') \<Rightarrow> (True # sm, tm'))
      | None \<Rightarrow> (case jw_match window t (Suc i) cs tm of (sm, tm') \<Rightarrow> (False # sm, tm')))"

text \<open>The transposition loop; reading past the end of \<open>tm\<close> would panic (\<^term>\<open>None\<close>).\<close>

fun jw_transpositions :: "(char \<times> bool) list \<Rightarrow> (char \<times> bool) list \<Rightarrow> nat option" where
  "jw_transpositions [] ts = Some 0"
| "jw_transpositions ((c, m) # ss) ts =
     (if \<not> m then jw_transpositions ss ts
      else case dropWhile (\<lambda>x. \<not> snd x) ts of
        [] \<Rightarrow> None
      | (d, _) # ts' \<Rightarrow> map_option (\<lambda>n. if c \<noteq> d then Suc n else n) (jw_transpositions ss ts'))"

definition jw_prefix :: "nat \<Rightarrow> string \<Rightarrow> string \<Rightarrow> nat" where
  "jw_prefix n s t = length (takeWhile (\<lambda>(c, d). c = d) (take n (zip s t)))"

text \<open>The score from the counts, in float arithmetic.\<close>

definition jw_jaro :: "nat \<Rightarrow> nat \<Rightarrow> nat \<Rightarrow> nat \<Rightarrow> rat" where
  "jw_jaro matches ls lt tr =
     (let m = fl (of_nat matches)
      in fl (fl (fl (fl (m / fl (of_nat ls)) + fl (m / fl (of_nat lt))) + fl (fl (m - fl (fl (of_nat tr) / 2)) / m)) / 3))"

definition jw_boost :: "nat \<Rightarrow> rat \<Rightarrow> rat" where
  "jw_boost prefix jaro = fl (jaro + fl (fl (of_nat prefix * fl (1 / 10)) * fl (1 - jaro)))"

definition JaroWinkler :: "string \<Rightarrow> string \<Rightarrow> rat option" where
  "JaroWinkler s t =
     (if s = [] \<and> t = [] then Some 1
      else if s = [] \<or> t = [] then Some 0
      else
        let window = max (length s) (length t) div 2 - 1;
            (sm, tm) = jw_match window t 0 s (replicate (length t) False);
            matches = length (filter (\<lambda>m. m) sm)
        in if matches = 0 then Some 0
           else map_option (\<lambda>tr. jw_boost (jw_prefix 4 s t) (jw_jaro matches (length s) (length t) tr))
                  (jw_transpositions (zip s sm) (zip t tm)))"

section \<open>Comparing records\<close>

record probabilities =
  pb_M :: rat
  pb_U :: rat

record match_model =
  mm_Levels :: "(string \<times> probabilities) list"
  mm_Prior :: rat

definition pb :: "rat \<Rightarrow> rat \<Rightarrow> probabilities" where
  "pb m u = \<lparr>pb_M = fl m, pb_U = fl u\<rparr>"

definition Default_model :: match_model where
  "Default_model = \<lparr>mm_Levels =
     [(''email.same'', pb (95 / 100) (1 / 10000)), (''email.differs'', pb (30 / 100) (9999 / 10000)),
      (''domain.same'', pb (90 / 100) (2 / 1000)), (''domain.differs'', pb (10 / 100) (998 / 1000)),
      (''name.same'', pb (85 / 100) (2 / 100)), (''name.close'', pb (10 / 100) (5 / 100)),
      (''name.differs'', pb (5 / 100) (93 / 100)), (''exact.same'', pb (95 / 100) (1 / 1000)),
      (''exact.differs'', pb (5 / 100) (999 / 1000))],
     mm_Prior = fl (5 / 100)\<rparr>"

record candidate =
  cd_Master :: string
  cd_Attributes :: attributes

record suggestion =
  sg_Master :: string
  sg_Score :: rat
  sg_Reasons :: "string list"

record math_fns =
  mth_Log :: "rat \<Rightarrow> rat"
  mth_Exp :: "rat \<Rightarrow> rat"

definition attr :: "attributes \<Rightarrow> string \<Rightarrow> string" where
  "attr a k = (case map_of a k of None \<Rightarrow> [] | Some v \<Rightarrow> v)"

definition both :: "attributes \<Rightarrow> attributes \<Rightarrow> string \<Rightarrow> bool" where
  "both a b k \<longleftrightarrow> attr a k \<noteq> [] \<and> attr b k \<noteq> []"

text \<open>An outcome is a level and the reason it gives for a match. \<^term>\<open>None\<close> where \<open>JaroWinkler\<close> panics.\<close>

definition compare_name :: "attributes \<Rightarrow> attributes \<Rightarrow> (string \<times> string) list option" where
  "compare_name a b =
     (if \<not> both a b ''name'' then Some []
      else map_option (\<lambda>s. if fl (94 / 100) \<le> s then [(''name.same'', ''same name'')]
                           else if fl (84 / 100) \<le> s then [(''name.close'', ''similar name'')]
                           else [(''name.differs'', [])])
             (JaroWinkler (attr a ''name'') (attr b ''name'')))"

definition compare_exact :: "attributes \<Rightarrow> attributes \<Rightarrow> (string \<times> string) list" where
  "compare_exact a b =
     concat (map (\<lambda>k. if \<not> HasPrefix k ''exact:'' \<or> attr b k = [] then []
                      else if attr a k = attr b k then [(''exact.same'', ''same '' @ TrimPrefix k ''exact:'')]
                      else [(''exact.differs'', [])]) (sort (map fst a)))"

definition compare_records :: "attributes \<Rightarrow> attributes \<Rightarrow> (string \<times> string) list option" where
  "compare_records a b =
     (let matched = both a b ''email'' \<and> attr a ''email'' = attr b ''email'';
          email = (if \<not> both a b ''email'' then [] else if matched then [(''email.same'', ''same email address'')]
                   else [(''email.differs'', [])]);
          dm = (if \<not> both a b ''domain'' \<or> matched then []
                 else if attr a ''domain'' = attr b ''domain'' then [(''domain.same'', ''same company email domain'')]
                 else [(''domain.differs'', [])])
      in map_option (\<lambda>name. email @ dm @ name @ compare_exact a b) (compare_name a b))"

definition level_of :: "match_model \<Rightarrow> string \<Rightarrow> probabilities" where
  "level_of m l =
     (case map_of (mm_Levels m) l of
        Some p \<Rightarrow> p
      | None \<Rightarrow> (case map_of (mm_Levels Default_model) l of Some p \<Rightarrow> p | None \<Rightarrow> \<lparr>pb_M = 0, pb_U = 0\<rparr>))"

definition Model_Compare :: "math_fns \<Rightarrow> match_model \<Rightarrow> attributes \<Rightarrow> attributes \<Rightarrow> (rat \<times> string list) option" where
  "Model_Compare mf m a b =
     map_option (\<lambda>os.
       let logBF = foldl (\<lambda>s out. fl (s + mth_Log mf (fl (pb_M (level_of m (fst out)) / pb_U (level_of m (fst out)))))) 0 os;
           prior = (if mm_Prior m \<le> 0 \<or> 1 \<le> mm_Prior m then mm_Prior Default_model else mm_Prior m);
           odds = fl (fl (prior / fl (1 - prior)) * mth_Exp mf logBF)
       in (fl (odds / fl (1 + odds)), filter (\<lambda>r. r \<noteq> []) (map snd os)))
     (compare_records a b)"

section \<open>Suggestions\<close>

text \<open>\<open>math.Round(score * 1000) / 1000\<close>: halves go away from zero; scores are not negative.\<close>

definition round3 :: "rat \<Rightarrow> rat" where
  "round3 s = fl (of_int \<lfloor>fl (s * 1000) + 1 / 2\<rfloor> / 1000)"

definition suggest_step ::
  "(attributes \<Rightarrow> (rat \<times> string list) option) \<Rightarrow> (string \<times> suggestion) list option \<Rightarrow> candidate \<Rightarrow> (string \<times> suggestion) list option" where
  "suggest_step cmp best c =
     Option.bind best (\<lambda>bs. map_option (\<lambda>(score, reasons).
       if reasons = [] then bs
       else if (case map_of bs (cd_Master c) of None \<Rightarrow> True | Some s \<Rightarrow> sg_Score s < score)
       then AList.update (cd_Master c) \<lparr>sg_Master = cd_Master c, sg_Score = round3 score, sg_Reasons = reasons\<rparr> bs
       else bs) (cmp (cd_Attributes c)))"

definition before :: "suggestion \<Rightarrow> suggestion \<Rightarrow> bool" where
  "before s t \<longleftrightarrow> (if sg_Score s \<noteq> sg_Score t then sg_Score t < sg_Score s else sg_Master s \<le> sg_Master t)"

fun insert_suggestion :: "suggestion \<Rightarrow> suggestion list \<Rightarrow> suggestion list" where
  "insert_suggestion s [] = [s]"
| "insert_suggestion s (t # ts) = (if before s t then s # t # ts else t # insert_suggestion s ts)"

definition Model_Suggest :: "math_fns \<Rightarrow> match_model \<Rightarrow> attributes \<Rightarrow> candidate list \<Rightarrow> nat \<Rightarrow> suggestion list option" where
  "Model_Suggest mf m a cs limit =
     map_option (\<lambda>bs. take limit (foldr insert_suggestion (map snd bs) []))
       (foldl (suggest_step (Model_Compare mf m a)) (Some []) cs)"

definition Decide_match :: "suggestion list \<Rightarrow> rat \<Rightarrow> string option" where
  "Decide_match ss threshold =
     (case ss of
        [] \<Rightarrow> None
      | s # rest \<Rightarrow>
          if sg_Score s < threshold then None
          else (case rest of
                  r # _ \<Rightarrow> if 1 / 2 \<le> sg_Score r then None else Some (sg_Master s)
                | [] \<Rightarrow> Some (sg_Master s)))"

end
