(* ===== verification/Identity_Props.thy ===== *)
theory Identity_Props
  imports Identity
begin

text \<open>
  Matching is safe: the string similarity never reads outside its arrays and stays between 0 and 1 in
  float arithmetic, and a record is only linked automatically when no other master record comes close.
\<close>

section \<open>Rounding keeps bounds\<close>

lemma fl_le: "0 \<le> x \<Longrightarrow> x \<le> c \<Longrightarrow> fl c = c \<Longrightarrow> fl x \<le> c"
  using fl_mono [of x c] by simp

lemma fl_two [simp]: "fl 2 = 2"
  using fl_of_int [of 2] by simp

lemma fl_three [simp]: "fl 3 = 3"
  using fl_of_int [of 3] by simp

lemma fl_half [simp]: "fl (1 / 2) = 1 / 2"
  using fl_exact [of 1 "-1"] by (simp add: power_int_minus inverse_eq_divide)

lemma fl_ratio:
  assumes "0 \<le> x" "x \<le> y"
  shows "0 \<le> fl (x / y) \<and> fl (x / y) \<le> 1"
proof -
  have "0 \<le> x / y" "x / y \<le> 1" using assms by (auto simp: divide_le_eq_1)
  then show ?thesis using fl_nonneg fl_le [of "x / y" 1] by simp
qed

section \<open>Jaro-Winkler\<close>

lemma jw_jaro_bounds:
  assumes "0 < m" "m \<le> ls" "m \<le> lt" "tr \<le> m"
  shows "0 \<le> jw_jaro m ls lt tr \<and> jw_jaro m ls lt tr \<le> 1"
proof -
  let ?M = "fl (of_nat m)" and ?T = "fl (of_nat tr)"
  have M: "0 < ?M" using assms(1) by (simp add: fl_pos)
  have S: "?M \<le> fl (of_nat ls)" "?M \<le> fl (of_nat lt)" using assms by (simp_all add: fl_mono)
  have T: "0 \<le> ?T" "?T \<le> ?M" using assms by (simp_all add: fl_nonneg fl_mono)
  have "fl (?T / 2) \<le> fl (?M / 2)" using T by (simp add: fl_mono)
  also have "\<dots> \<le> ?M / 2 * (1 + 1 / 2 ^ 52)" using M by (intro fl_error(2)) simp
  also have "\<dots> \<le> ?M / 2 * 2" using M by (intro mult_left_mono) simp_all
  finally have half: "fl (?T / 2) \<le> ?M" by simp
  define d where "d = ?M - fl (?T / 2)"
  have d: "0 \<le> d" "d \<le> ?M" using half T by (auto simp: d_def fl_nonneg)
  have c: "0 \<le> fl (fl d / ?M) \<and> fl (fl d / ?M) \<le> 1"
    using d M by (intro fl_ratio fl_nonneg fl_le) (simp_all add: fl_fl)
  have ab: "0 \<le> fl (?M / fl (of_nat ls))" "fl (?M / fl (of_nat ls)) \<le> 1" "0 \<le> fl (?M / fl (of_nat lt))" "fl (?M / fl (of_nat lt)) \<le> 1"
    using fl_ratio S M by simp_all
  define ab2 where "ab2 = fl (fl (?M / fl (of_nat ls)) + fl (?M / fl (of_nat lt)))"
  have two: "0 \<le> ab2" "ab2 \<le> 2" using ab unfolding ab2_def by (auto intro!: fl_nonneg fl_le)
  define abc where "abc = fl (ab2 + fl (fl d / ?M))"
  have three: "0 \<le> abc" "abc \<le> 3" using two c unfolding abc_def by (auto intro!: fl_nonneg fl_le)
  have "jw_jaro m ls lt tr = fl (abc / 3)" by (simp add: jw_jaro_def Let_def abc_def ab2_def d_def)
  then show ?thesis using fl_ratio [of abc 3] three by simp
qed

lemma jw_boost_bounds:
  assumes "0 \<le> j" "j \<le> 1" "p \<le> 4"
  shows "0 \<le> jw_boost p j \<and> jw_boost p j \<le> 1"
proof -
  let ?e = "1 + 1 / 2 ^ 52 :: rat"
  define q where "q = fl (of_nat p * fl (1 / 10))"
  have "of_nat p * fl (1 / 10) \<le> 4 * (1 / 10 * ?e)"
    using assms(3) fl_error(2) [of "1 / 10"] by (intro mult_mono) (simp_all add: fl_nonneg)
  then have pq: "0 \<le> of_nat p * fl (1 / 10)" "of_nat p * fl (1 / 10) \<le> 1 / 2" by (simp_all add: fl_nonneg)
  then have q: "0 \<le> q" "q \<le> 1 / 2"
    unfolding q_def by (auto intro: fl_nonneg intro!: fl_le [of _ "1 / 2"] simp del: le_divide_eq_numeral1)
  have x: "fl (q * fl (1 - j)) \<le> 1 - j"
  proof (cases "j = 1 \<or> q = 0")
    case False
    then have pos: "0 < 1 - j" "0 < q * fl (1 - j)" using assms q by (simp_all add: fl_pos)
    have "fl (q * fl (1 - j)) \<le> q * fl (1 - j) * ?e" by (rule fl_error(2) [OF pos(2)])
    also have "\<dots> \<le> 1 / 2 * ((1 - j) * ?e) * ?e"
      using q fl_error(2) [OF pos(1)] pos by (intro mult_right_mono mult_mono) (simp_all add: fl_nonneg)
    also have "\<dots> = (1 - j) * (1 / 2 * ?e * ?e)" by simp
    also have "\<dots> \<le> (1 - j) * 1" using pos by (intro mult_left_mono) simp_all
    finally show ?thesis by simp
  qed (use assms in auto)
  have "0 \<le> fl (q * fl (1 - j))" using q assms by (simp add: fl_nonneg)
  then have "0 \<le> j + fl (q * fl (1 - j))" "j + fl (q * fl (1 - j)) \<le> 1" using x assms by simp_all
  then show ?thesis using fl_nonneg fl_le [of _ 1] by (simp add: jw_boost_def q_def [symmetric])
qed

abbreviation marks :: "bool list \<Rightarrow> nat" where
  "marks ms \<equiv> length (filter (\<lambda>m. m) ms)"

lemma marks_update: "j < length tm \<Longrightarrow> \<not> tm ! j \<Longrightarrow> marks (tm[j := True]) = Suc (marks tm)"
proof (induction tm arbitrary: j)
  case (Cons x xs)
  then show ?case by (cases j) auto
qed simp

lemma jw_match_marks:
  "jw_match window t i s tm = (sm, tm') \<Longrightarrow> length tm = length t \<Longrightarrow>
     length sm = length s \<and> length tm' = length t \<and> marks tm' = marks tm + marks sm"
proof (induction s arbitrary: i tm sm tm')
  case (Cons c cs)
  show ?case
  proof (cases "jw_find c t tm (i - window) (min (length t) (i + window + 1))")
    case None
    then show ?thesis using Cons by (auto split: prod.split_asm)
  next
    case (Some j)
    then have j: "j < length t" "\<not> tm ! j" by (auto simp: jw_find_def dest: find_SomeD)
    obtain sm1 where rest: "jw_match window t (Suc i) cs (tm[j := True]) = (sm1, tm')" "sm = True # sm1"
      using Some Cons(2) by (auto split: prod.split_asm)
    have "length sm1 = length cs \<and> length tm' = length t \<and> marks tm' = marks (tm[j := True]) + marks sm1"
      by (rule Cons(1) [OF rest(1)]) (simp add: Cons(3))
    then show ?thesis using rest(2) marks_update [of j tm] j Cons(3) by simp
  qed
qed simp

lemma jw_transpositions_total:
  "length (filter snd ss) \<le> length (filter snd ts) \<Longrightarrow>
     \<exists>n. jw_transpositions ss ts = Some n \<and> n \<le> length (filter snd ss)"
proof (induction ss ts rule: jw_transpositions.induct)
  case (2 c m ss ts)
  show ?case
  proof (cases m)
    case True
    have "filter snd (dropWhile (\<lambda>x. \<not> snd x) ts) = filter snd ts" by (induction ts) auto
    then obtain d ts' where dw: "dropWhile (\<lambda>x. \<not> snd x) ts = (d, True) # ts'" "filter snd ts = (d, True) # filter snd ts'"
      using 2(3) True by (cases "dropWhile (\<lambda>x. \<not> snd x) ts") (auto dest: dropWhile_eq_Cons_conv [THEN iffD1])
    then obtain n where "jw_transpositions ss ts' = Some n" "n \<le> length (filter snd ss)"
      using 2(2) [of "(d, True)" ts' d True] 2(3) True by auto
    then show ?thesis using dw True by auto
  qed (use 2 in auto)
qed simp

lemma marks_zip: "length xs = length ms \<Longrightarrow> length (filter snd (zip xs ms)) = marks ms"
  by (induction xs ms rule: list_induct2) auto

lemma marks_le: "marks ms \<le> length ms"
  by (rule length_filter_le)

lemma JaroWinkler_total: "\<exists>x. JaroWinkler s t = Some x \<and> 0 \<le> x \<and> x \<le> 1"
proof (cases "s = [] \<or> t = []")
  case True
  then show ?thesis by (auto simp: JaroWinkler_def)
next
  case False
  obtain sm tm where m: "jw_match (max (length s) (length t) div 2 - 1) t 0 s (replicate (length t) False) = (sm, tm)"
    by (cases "jw_match (max (length s) (length t) div 2 - 1) t 0 s (replicate (length t) False)")
  have l: "length sm = length s" "length tm = length t" "marks tm = marks sm"
    using jw_match_marks [OF m] by (simp_all add: filter_replicate)
  have le: "marks sm \<le> length s" "marks sm \<le> length t" using marks_le [of sm] marks_le [of tm] l by simp_all
  obtain n where n: "jw_transpositions (zip s sm) (zip t tm) = Some n" "n \<le> marks sm"
    using jw_transpositions_total [of "zip s sm" "zip t tm"] l by (auto simp: marks_zip)
  have p: "jw_prefix 4 s t \<le> 4"
    unfolding jw_prefix_def by (rule le_trans [OF length_takeWhile_le]) simp
  show ?thesis
  proof (cases "marks sm = 0")
    case True
    then show ?thesis using False m by (auto simp: JaroWinkler_def Let_def)
  next
    case pos: False
    have "0 \<le> jw_boost (jw_prefix 4 s t) (jw_jaro (marks sm) (length s) (length t) n)
        \<and> jw_boost (jw_prefix 4 s t) (jw_jaro (marks sm) (length s) (length t) n) \<le> 1"
      using jw_jaro_bounds [of "marks sm" "length s" "length t" n] pos le n p by (intro jw_boost_bounds) simp_all
    then show ?thesis using False pos m n by (simp add: JaroWinkler_def Let_def)
  qed
qed

text \<open>The similarity of two strings is always defined (the loop over the transpositions never reads past the
  end of the marks) and lies between 0 and 1, with every operation rounded to a float.\<close>

theorem JaroWinkler_bounds: "\<exists>x. JaroWinkler s t = Some x \<and> 0 \<le> x \<and> x \<le> 1"
  by (rule JaroWinkler_total)

section \<open>Scores\<close>

lemma Model_Compare_bounds:
  assumes "Model_Compare mf m a b = Some (score, reasons)" "\<And>x. 0 \<le> mth_Exp mf x"
  shows "0 \<le> score \<and> score \<le> 1"
proof -
  define prior where "prior = (if mm_Prior m \<le> 0 \<or> 1 \<le> mm_Prior m then mm_Prior Default_model else mm_Prior m)"
  obtain e where e: "0 \<le> e" and sc: "score = fl (fl (fl (prior / fl (1 - prior)) * e) / fl (1 + fl (fl (prior / fl (1 - prior)) * e)))"
    using assms by (auto simp: Model_Compare_def Let_def prior_def)
  have "0 < fl (5 / 100)" "fl (5 / 100) \<le> 1 / 2" by (simp add: fl_pos, rule fl_le) simp_all
  then have p: "0 < prior" "prior < 1" by (auto simp: prior_def Default_model_def)
  have "0 \<le> fl (prior / fl (1 - prior)) * e" using p e by (intro mult_nonneg_nonneg fl_nonneg divide_nonneg_nonneg) simp_all
  define odds where "odds = fl (fl (prior / fl (1 - prior)) * e)"
  have o: "0 \<le> odds" "fl odds = odds" using \<open>0 \<le> fl (prior / fl (1 - prior)) * e\<close> by (simp_all add: odds_def fl_nonneg fl_fl)
  have "fl odds \<le> fl (1 + odds)" by (rule fl_mono) (use o in simp_all)
  then have "odds \<le> fl (1 + odds)" by (simp only: o(2))
  then show ?thesis unfolding sc odds_def [symmetric] by (rule fl_ratio [OF o(1)])
qed

lemma round3_mono: "0 \<le> s \<Longrightarrow> s \<le> t \<Longrightarrow> round3 s \<le> round3 t"
proof -
  assume s: "0 \<le> s" "s \<le> t"
  have f: "0 \<le> fl (s * 1000)" "fl (s * 1000) \<le> fl (t * 1000)" using s by (simp_all add: fl_nonneg fl_mono)
  then have "\<lfloor>fl (s * 1000) + 1 / 2\<rfloor> \<le> \<lfloor>fl (t * 1000) + 1 / 2\<rfloor>" "0 \<le> \<lfloor>fl (s * 1000) + 1 / 2\<rfloor>"
    by (auto intro!: floor_mono)
  then show ?thesis unfolding round3_def by (intro fl_mono) (simp_all add: divide_right_mono)
qed

lemma round3_range: "0 \<le> s \<Longrightarrow> s \<le> 1 \<Longrightarrow> \<exists>k::int. 0 \<le> k \<and> k \<le> 1000 \<and> round3 s = fl (of_int k / 1000)"
proof -
  assume s: "0 \<le> s" "s \<le> 1"
  have "fl (s * 1000) \<le> 1000" using s fl_of_int [of 1000] by (intro fl_le) simp_all
  moreover have "0 \<le> fl (s * 1000)" using s by (simp add: fl_nonneg)
  ultimately have "0 \<le> \<lfloor>fl (s * 1000) + 1 / 2\<rfloor>" "\<lfloor>fl (s * 1000) + 1 / 2\<rfloor> \<le> 1000" by linarith+
  then show ?thesis unfolding round3_def by blast
qed

lemma round3_idem:
  assumes "0 \<le> s" "s \<le> 1"
  shows "round3 (round3 s) = round3 s"
proof -
  obtain k where k: "0 \<le> k" "k \<le> 1000" "round3 s = fl (of_int k / 1000)" using round3_range [OF assms] by blast
  have "\<lfloor>fl (fl (of_int k / 1000) * 1000) + 1 / 2\<rfloor> = k"
  proof (cases "k = 0")
    case False
    let ?e = "1 / 2 ^ 52 :: rat" and ?x = "of_int k / 1000 :: rat"
    have x: "0 < ?x" "0 < fl ?x * 1000" using k False by (simp_all add: fl_pos)
    have up: "fl (fl ?x * 1000) \<le> of_int k * (1 + ?e) * (1 + ?e)"
    proof -
      have "fl (fl ?x * 1000) \<le> fl ?x * 1000 * (1 + ?e)" by (rule fl_error(2) [OF x(2)])
      also have "\<dots> \<le> ?x * (1 + ?e) * 1000 * (1 + ?e)" using fl_error(2) [OF x(1)] by (intro mult_right_mono) simp_all
      finally show ?thesis by simp
    qed
    have lo: "of_int k * (1 - ?e) * (1 - ?e) \<le> fl (fl ?x * 1000)"
    proof -
      have "?x * (1 - ?e) * 1000 * (1 - ?e) \<le> fl ?x * 1000 * (1 - ?e)" using fl_error(1) [OF x(1)] by (intro mult_right_mono) simp_all
      also have "\<dots> \<le> fl (fl ?x * 1000)" by (rule fl_error(1) [OF x(2)])
      finally show ?thesis by simp
    qed
    have "of_int k * ((1 + ?e) * (1 + ?e) - 1) \<le> 1000 * ((1 + ?e) * (1 + ?e) - 1)" using k by (intro mult_right_mono) simp_all
    then have 1: "of_int k * (1 + ?e) * (1 + ?e) < of_int k + 1 / 2" by (simp add: algebra_simps)
    have "of_int k * (1 - (1 - ?e) * (1 - ?e)) \<le> 1000 * (1 - (1 - ?e) * (1 - ?e))" using k by (intro mult_right_mono) simp_all
    then have 2: "of_int k - 1 / 2 \<le> of_int k * (1 - ?e) * (1 - ?e)" by (simp add: algebra_simps)
    show ?thesis using up lo 1 2 by linarith
  qed (simp add: floor_eq_iff)
  then show ?thesis unfolding k(3) by (simp add: round3_def)
qed

section \<open>Suggestions\<close>

text \<open>What the loop over the candidates keeps: one suggestion per master, with the rounded score of one of its
  candidates, no lower than that of any of them.\<close>

definition best_ok :: "(attributes \<Rightarrow> (rat \<times> string list) option) \<Rightarrow> candidate list \<Rightarrow> (string \<times> suggestion) list \<Rightarrow> bool" where
  "best_ok cmp cs bs \<longleftrightarrow> distinct (map fst bs)
   \<and> (\<forall>k s. map_of bs k = Some s \<longrightarrow> sg_Master s = k \<and> (\<exists>c score. c \<in> set cs \<and> cd_Master c = k
        \<and> cmp (cd_Attributes c) = Some (score, sg_Reasons s) \<and> sg_Reasons s \<noteq> [] \<and> sg_Score s = round3 score))
   \<and> (\<forall>c score reasons. c \<in> set cs \<longrightarrow> cmp (cd_Attributes c) = Some (score, reasons) \<longrightarrow> reasons \<noteq> [] \<longrightarrow>
        (\<exists>s. map_of bs (cd_Master c) = Some s \<and> round3 score \<le> sg_Score s))"

lemma best_okD:
  assumes "best_ok cmp cs bs"
  shows "distinct (map fst bs)"
    and "map_of bs k = Some s \<Longrightarrow> sg_Master s = k"
    and "map_of bs k = Some s \<Longrightarrow> \<exists>c score. c \<in> set cs \<and> cd_Master c = k
        \<and> cmp (cd_Attributes c) = Some (score, sg_Reasons s) \<and> sg_Reasons s \<noteq> [] \<and> sg_Score s = round3 score"
    and "c \<in> set cs \<Longrightarrow> cmp (cd_Attributes c) = Some (score, reasons) \<Longrightarrow> reasons \<noteq> [] \<Longrightarrow>
        \<exists>s. map_of bs (cd_Master c) = Some s \<and> round3 score \<le> sg_Score s"
  using assms unfolding best_ok_def by blast+

lemma best_ok_step:
  assumes ok: "best_ok cmp cs bs" and step: "suggest_step cmp (Some bs) c = Some bs'"
    and range: "\<And>a score reasons. cmp a = Some (score, reasons) \<Longrightarrow> 0 \<le> score \<and> score \<le> 1"
  shows "best_ok cmp (cs @ [c]) bs'"
proof -
  obtain score reasons where cmp: "cmp (cd_Attributes c) = Some (score, reasons)"
    using step by (auto simp: suggest_step_def)
  let ?new = "\<lparr>sg_Master = cd_Master c, sg_Score = round3 score, sg_Reasons = reasons\<rparr>"
  let ?take = "case map_of bs (cd_Master c) of None \<Rightarrow> True | Some s \<Rightarrow> sg_Score s < score"
  have bs': "bs' = (if reasons = [] then bs else if ?take then AList.update (cd_Master c) ?new bs else bs)"
    using step cmp by (simp add: suggest_step_def)
  have stored: "0 \<le> sg_Score s \<and> round3 (sg_Score s) = sg_Score s" if ks: "map_of bs k = Some s" for k s
  proof -
    obtain c0 :: candidate and sc where c0: "cmp (cd_Attributes c0) = Some (sc, sg_Reasons s)" "sg_Score s = round3 sc"
      using best_okD(3) [OF ok ks] by blast
    from range [OF c0(1)] show ?thesis
      using round3_idem [of sc] round3_range [of sc] c0(2) by (auto simp: fl_nonneg)
  qed
  have above: "\<exists>s. map_of bs' (cd_Master d) = Some s \<and> round3 sc \<le> sg_Score s"
    if d: "d \<in> set (cs @ [c])" "cmp (cd_Attributes d) = Some (sc, rs)" "rs \<noteq> []" for d sc rs
  proof (cases "d \<in> set cs")
    case True
    then obtain s where s: "map_of bs (cd_Master d) = Some s" "round3 sc \<le> sg_Score s" using best_okD(4) [OF ok _ d(2,3)] by blast
    show ?thesis
    proof (cases "bs' = bs \<or> cd_Master d \<noteq> cd_Master c")
      case True
      then show ?thesis
      proof
        assume "cd_Master d \<noteq> cd_Master c"
        then show ?thesis using s bs' by (auto simp: update_conv')
      qed (use s in simp)
    next
      case False
      then have "sg_Score s < score" "map_of bs' (cd_Master d) = Some ?new" using s bs' by (auto simp: update_conv' split: if_splits)
      moreover have "sg_Score s \<le> round3 score"
        using round3_mono [of "sg_Score s" score] stored [OF s(1)] calculation(1) by simp
      ultimately show ?thesis using s(2) by auto
    qed
  next
    case False
    then have eq: "d = c" "sc = score" "rs = reasons" using d cmp by auto
    show ?thesis
    proof (cases ?take)
      case True
      then show ?thesis using eq d(3) bs' by (simp add: update_conv')
    next
      case False
      then obtain s where s: "map_of bs (cd_Master c) = Some s" "score \<le> sg_Score s" by (auto split: option.splits)
      then have "round3 score \<le> sg_Score s" using round3_mono [of score "sg_Score s"] range [OF cmp] stored [OF s(1)] by simp
      then show ?thesis using eq s False bs' by auto
    qed
  qed
  have from_c: "sg_Master s = k \<and> (\<exists>c' score. c' \<in> set (cs @ [c]) \<and> cd_Master c' = k
        \<and> cmp (cd_Attributes c') = Some (score, sg_Reasons s) \<and> sg_Reasons s \<noteq> [] \<and> sg_Score s = round3 score)"
    if "map_of bs' k = Some s" for k s
  proof (cases "map_of bs k = Some s")
    case True
    then show ?thesis using best_okD(2,3) [OF ok True] by auto
  next
    case False
    then have "s = ?new" "k = cd_Master c" "reasons \<noteq> []" using that bs' by (auto simp: update_conv' split: if_splits)
    then show ?thesis using cmp by auto
  qed
  have "distinct (map fst bs')" using best_okD(1) [OF ok] bs' by (simp add: distinct_update)
  then show ?thesis unfolding best_ok_def using above from_c by blast
qed

lemma best_ok_foldl:
  assumes "foldl (suggest_step cmp) (Some bs) cs = Some bs'" "best_ok cmp cs0 bs"
    and "\<And>a score reasons. cmp a = Some (score, reasons) \<Longrightarrow> 0 \<le> score \<and> score \<le> 1"
  shows "best_ok cmp (cs0 @ cs) bs'"
  using assms(1,2)
proof (induction cs arbitrary: bs cs0)
  case (Cons c cs)
  have "foldl (suggest_step cmp) None xs = None" for xs by (induction xs) (simp_all add: suggest_step_def)
  then obtain bs1 where bs1: "suggest_step cmp (Some bs) c = Some bs1" "foldl (suggest_step cmp) (Some bs1) cs = Some bs'"
    using Cons(2) by (cases "suggest_step cmp (Some bs) c") auto
  from Cons(1) [OF bs1(2) best_ok_step [OF Cons(3) bs1(1) assms(3)]] show ?case by simp
qed simp

text \<open>The order of suggestions.\<close>

lemma set_insert_suggestion [simp]: "set (insert_suggestion s ts) = insert s (set ts)"
  by (induction ts) auto

lemma insert_suggestion_sorted: "sorted_wrt before ts \<Longrightarrow> sorted_wrt before (insert_suggestion s ts)"
proof (induction ts)
  case (Cons t ts)
  have trans: "before x y \<Longrightarrow> before y z \<Longrightarrow> before x z" for x y z by (auto simp: before_def split: if_splits)
  have "before t s" if "\<not> before s t" using that by (auto simp: before_def split: if_splits)
  then show ?case using Cons trans by auto
qed simp

lemma sorted_suggestions: "sorted_wrt before (foldr insert_suggestion ss []) \<and> set (foldr insert_suggestion ss []) = set ss"
  by (induction ss) (auto intro: insert_suggestion_sorted)

lemma Decide_unambiguous:
  assumes sug: "Model_Suggest mf m a cs limit = Some ss" and dec: "Decide_match ss threshold = Some master"
    and lim: "2 \<le> limit" and pos: "\<And>x. 0 \<le> mth_Exp mf x"
  shows "\<exists>c score reasons. c \<in> set cs \<and> cd_Master c = master \<and> Model_Compare mf m a (cd_Attributes c) = Some (score, reasons)
      \<and> reasons \<noteq> [] \<and> threshold \<le> round3 score"
    and "c \<in> set cs \<Longrightarrow> cd_Master c \<noteq> master \<Longrightarrow> Model_Compare mf m a (cd_Attributes c) = Some (score, reasons) \<Longrightarrow>
      reasons \<noteq> [] \<Longrightarrow> round3 score < 1 / 2"
proof -
  let ?cmp = "Model_Compare mf m a"
  obtain bs where bs: "foldl (suggest_step ?cmp) (Some []) cs = Some bs"
      and ss: "ss = take limit (foldr insert_suggestion (map snd bs) [])"
    using sug by (auto simp: Model_Suggest_def)
  have "best_ok ?cmp [] []" by (simp add: best_ok_def)
  from best_ok_foldl [OF bs this] have ok: "best_ok ?cmp cs bs" using Model_Compare_bounds [OF _ pos] by simp
  define all where "all = foldr insert_suggestion (map snd bs) []"
  have all: "sorted_wrt before all" "set all = snd ` set bs" using sorted_suggestions [of "map snd bs"] by (simp_all add: all_def)
  have entry: "map_of bs (sg_Master t) = Some t" if t: "t \<in> set all" for t
  proof -
    obtain k where k: "map_of bs k = Some t" using t all(2) best_okD(1) [OF ok] by auto
    then show ?thesis using best_okD(2) [OF ok k] by simp
  qed
  obtain s rest where s: "ss = s # rest" "threshold \<le> sg_Score s" "master = sg_Master s"
      and runner: "\<And>r rs. rest = r # rs \<Longrightarrow> sg_Score r < 1 / 2"
    using dec by (auto simp: Decide_match_def split: list.splits if_splits)
  obtain all' where hd: "all = s # all'" using s(1) ss lim by (cases all) (auto simp: all_def [symmetric] take_Cons split: nat.splits)
  show "\<exists>c score reasons. c \<in> set cs \<and> cd_Master c = master \<and> ?cmp (cd_Attributes c) = Some (score, reasons)
      \<and> reasons \<noteq> [] \<and> threshold \<le> round3 score"
    using best_okD(3) [OF ok entry [of s]] hd s by auto
  assume c: "c \<in> set cs" "cd_Master c \<noteq> master" "?cmp (cd_Attributes c) = Some (score, reasons)" "reasons \<noteq> []"
  obtain t where t: "map_of bs (cd_Master c) = Some t" "round3 score \<le> sg_Score t" using best_okD(4) [OF ok c(1,3,4)] by blast
  have "t \<in> set all" using t(1) all(2) by (force dest: map_of_SomeD)
  moreover have "t \<noteq> s" using best_okD(2) [OF ok t(1)] c(2) s(3) by auto
  ultimately obtain r rs where r: "all' = r # rs" "t \<in> set (r # rs)" using hd by (cases all') auto
  have "rest = r # take (limit - 2) rs"
    using s(1) ss lim hd r(1) by (simp add: all_def [symmetric] take_Cons split: nat.splits)
  then have "sg_Score r < 1 / 2" by (rule runner)
  moreover have "sg_Score t \<le> sg_Score r" using r all(1) hd by (auto simp: before_def split: if_splits)
  ultimately show "round3 score < 1 / 2" using t(2) by simp
qed


text \<open>The score is rounded before it is compared with the threshold, so a record just below it is linked.\<close>

lemma rounding_reaches_threshold:
  "2047 / 4096 < (1 / 2 :: rat) \<and> Decide_match [\<lparr>sg_Master = mst, sg_Score = round3 (2047 / 4096), sg_Reasons = rs\<rparr>] (1 / 2) = Some mst"
proof -
  have "fl (2047 / 4096 * 1000) = 2047 / 4096 * 1000"
    using fl_exact [of 255875 "-9"] by (simp add: power_int_minus)
  moreover have "\<lfloor>2047 / 4096 * 1000 + 1 / 2 :: rat\<rfloor> = 500" by (rule floor_unique) simp_all
  ultimately have "round3 (2047 / 4096) = fl (of_int 500 / 1000)" unfolding round3_def by (simp only:)
  then have "round3 (2047 / 4096) = 1 / 2" by simp
  then show ?thesis by (simp add: Decide_match_def)
qed

definition demo_math :: math_fns where
  "demo_math = \<lparr>mth_Log = (\<lambda>x. 0), mth_Exp = (\<lambda>x. 1)\<rparr>"

definition demo_model :: match_model where
  "demo_model = \<lparr>mm_Levels = [(''email.same'', \<lparr>pb_M = 1, pb_U = 1 / 2\<rparr>), (''email.differs'', \<lparr>pb_M = 1 / 2, pb_U = 1\<rparr>)],
     mm_Prior = 1 / 2\<rparr>"

definition demo_candidates :: "candidate list" where
  "demo_candidates = [\<lparr>cd_Master = ''M1'', cd_Attributes = [(''email'', ''joe@acme.com'')]\<rparr>,
     \<lparr>cd_Master = ''M2'', cd_Attributes = [(''email'', ''ann@acme.com'')]\<rparr>]"

lemma demo_suggestions: "Model_Suggest demo_math demo_model [(''email'', ''joe@acme.com'')] demo_candidates 3 =
    Some [\<lparr>sg_Master = ''M1'', sg_Score = 1 / 2, sg_Reasons = [''same email address'']\<rparr>]"
proof -
  have "fl 500 = 500" using fl_of_int [of 500] by simp
  moreover have "\<lfloor>1001 / 2 :: rat\<rfloor> = 500" by (rule floor_unique) simp_all
  ultimately have "round3 (1 / 2) = 1 / 2" by (simp add: round3_def)
  then show ?thesis
    by (simp add: Model_Suggest_def demo_candidates_def suggest_step_def Model_Compare_def compare_records_def compare_name_def
        compare_exact_def both_def attr_def demo_math_def demo_model_def HasPrefix_def Let_def)
qed


end
