(* ===== verification/Template.thy ===== *)
theory Template
  imports Guard_Types Identity
begin

text \<open>
  Idempotency keys and amounts of a run: \<open>pkg/engine/template.go\<close> (the placeholders of a key) and the
  amount lookups of \<open>pkg/engine/activities.go\<close>. The regular expression of a placeholder is the
  recogniser \<open>placeholder\<close>; it is deterministic, since what may follow each part cannot belong to it.
\<close>

section \<open>Placeholders\<close>

datatype root = RootSource | RootDoc

datatype segment = Lit char | Hole root string

definition tmpl_space :: "char \<Rightarrow> bool" where
  "tmpl_space c \<longleftrightarrow> is_space c \<and> (of_char c :: nat) \<noteq> 11"

definition path_char :: "char \<Rightarrow> bool" where
  "path_char c \<longleftrightarrow> is_alnum c \<or> c = CHR ''_'' \<or> c = CHR ''.''"

definition root_name :: "root \<Rightarrow> string" where
  "root_name r = (case r of RootSource \<Rightarrow> ''source'' | RootDoc \<Rightarrow> ''doc'')"

definition placeholder_root :: "string \<Rightarrow> (root \<times> string) option" where
  "placeholder_root s =
     (case CutPrefix s ''source.'' of
        Some r \<Rightarrow> Some (RootSource, r)
      | None \<Rightarrow> map_option (\<lambda>r. (RootDoc, r)) (CutPrefix s ''doc.''))"

text \<open>A placeholder at the beginning of a string: its root, its path and what follows it.\<close>

definition placeholder :: "string \<Rightarrow> (root \<times> string \<times> string) option" where
  "placeholder s =
     Option.bind (CutPrefix s ''{{'') (\<lambda>s1.
     Option.bind (placeholder_root (dropWhile tmpl_space s1)) (\<lambda>(r, s2).
       if takeWhile path_char s2 = [] then None
       else map_option (\<lambda>rest. (r, takeWhile path_char s2, rest))
              (CutPrefix (dropWhile tmpl_space (dropWhile path_char s2)) ''}}'')))"

lemma CutPrefix_length:
  assumes "CutPrefix s p = Some r"
  shows "length s = length p + length r"
proof -
  have "take (length p) s = p" "r = drop (length p) s" using assms by (simp_all add: CutPrefix_def HasPrefix_def split: if_split_asm)
  then have "s = p @ r" by (metis append_take_drop_id)
  then show ?thesis by simp
qed

lemma placeholder_shorter: "placeholder s = Some (r, p, rest) \<Longrightarrow> length rest < length s"
proof -
  assume "placeholder s = Some (r, p, rest)"
  then obtain s1 s2 where s: "CutPrefix s ''{{'' = Some s1" "placeholder_root (dropWhile tmpl_space s1) = Some (r, s2)"
      "CutPrefix (dropWhile tmpl_space (dropWhile path_char s2)) ''}}'' = Some rest"
    by (auto simp: placeholder_def bind_eq_Some_conv split: if_splits)
  have "length s2 \<le> length (dropWhile tmpl_space s1)"
    using s(2) by (auto simp: placeholder_root_def split: option.splits dest!: CutPrefix_length)
  moreover have "length (dropWhile tmpl_space s1) \<le> length s1" "length (dropWhile tmpl_space (dropWhile path_char s2)) \<le> length s2"
    using length_dropWhile_le le_trans by blast+
  ultimately show ?thesis using CutPrefix_length [OF s(1)] CutPrefix_length [OF s(3)] by simp
qed

text \<open>\<open>ReplaceAllStringFunc\<close> finds the placeholders from left to right.\<close>

function segments :: "string \<Rightarrow> segment list" where
  "segments [] = []"
| "segments (c # cs) =
     (case placeholder (c # cs) of
        Some (r, p, rest) \<Rightarrow> Hole r p # segments rest
      | None \<Rightarrow> Lit c # segments cs)"
  by pat_completeness auto

termination segments
  by (relation "measure length") (auto dest: placeholder_shorter)

fun lookup_path :: "json \<Rightarrow> string list \<Rightarrow> json option" where
  "lookup_path v [] = Some v"
| "lookup_path v (p # ps) =
     (case v of
        JObj m \<Rightarrow> (case map_of m p of None \<Rightarrow> None | Some w \<Rightarrow> if w = JNull then None else lookup_path w ps)
      | _ \<Rightarrow> None)"

definition engine_lookup :: "doc \<Rightarrow> string \<Rightarrow> json option" where
  "engine_lookup m path = lookup_path (JObj m) (Split (CHR ''.'') path)"

text \<open>The text of a segment, or what could not be resolved.\<close>

definition render_hole :: "doc \<Rightarrow> doc \<Rightarrow> root \<Rightarrow> string \<Rightarrow> string + string" where
  "render_hole src d r p =
     (let name = root_name r @ ''.'' @ p
      in case engine_lookup (case r of RootSource \<Rightarrow> src | RootDoc \<Rightarrow> d) p of
           None \<Rightarrow> Inl name
         | Some v \<Rightarrow>
             (case v of
                JStr s \<Rightarrow> Inr s
              | JNum n \<Rightarrow> Inr (FormatFloat (fl n))
              | JBool b \<Rightarrow> Inr (if b then ''true'' else ''false'')
              | _ \<Rightarrow> Inl (name @ '' (not a scalar)'')))"

definition render_segment :: "doc \<Rightarrow> doc \<Rightarrow> segment \<Rightarrow> string + string" where
  "render_segment src d seg = (case seg of Lit c \<Rightarrow> Inr [c] | Hole r p \<Rightarrow> render_hole src d r p)"

definition Render :: "string \<Rightarrow> doc \<Rightarrow> doc \<Rightarrow> goerror + string" where
  "Render tmpl src d =
     (let parts = map (render_segment src d) (segments tmpl);
          errs = concat (map (\<lambda>x. case x of Inl e \<Rightarrow> [e] | Inr _ \<Rightarrow> []) parts);
          out = concat (map (\<lambda>x. case x of Inl _ \<Rightarrow> [] | Inr t \<Rightarrow> t) parts)
      in if errs \<noteq> [] then Inl (New_err ''template %q: unresolved %s'' [AStr tmpl, AList errs])
         else if TrimSpace out = [] then Inl (New_err ''template %q rendered empty'' [AStr tmpl])
         else Inr out)"

section \<open>Amounts\<close>

definition amountFields :: "string list" where
  "amountFields = [''netValue'', ''amount'', ''totalAmount'']"

definition AmountOf :: "doc \<Rightarrow> rat" where
  "AmountOf d =
     (case concat (map (\<lambda>f. case map_of d f of Some (JNum n) \<Rightarrow> [fl n] | _ \<Rightarrow> []) amountFields) of
        [] \<Rightarrow> 0
      | n # _ \<Rightarrow> n)"

definition engine_AmountAt :: "doc \<Rightarrow> string \<Rightarrow> rat" where
  "engine_AmountAt d path = (case AmountAt (JObj d) path of Some n \<Rightarrow> n | None \<Rightarrow> 0)"

section \<open>Properties\<close>

lemma Render_InrD:
  assumes "Render tmpl src d = Inr out"
  shows "TrimSpace out \<noteq> []"
    and "seg \<in> set (segments tmpl) \<Longrightarrow> \<exists>t. render_segment src d seg = Inr t"
    and "out = concat (map (\<lambda>seg. projr (render_segment src d seg)) (segments tmpl))"
proof -
  let ?parts = "map (render_segment src d) (segments tmpl)"
  have errs: "concat (map (\<lambda>x. case x of Inl e \<Rightarrow> [e] | Inr _ \<Rightarrow> []) ?parts) = []"
    and ne: "TrimSpace (concat (map (\<lambda>x. case x of Inl _ \<Rightarrow> [] | Inr t \<Rightarrow> t) ?parts)) \<noteq> []"
    and out: "out = concat (map (\<lambda>x. case x of Inl _ \<Rightarrow> [] | Inr t \<Rightarrow> t) ?parts)"
    using assms by (simp_all add: Render_def Let_def split: if_split_asm)
  show "TrimSpace out \<noteq> []" using ne out by simp
  have all: "\<exists>t. render_segment src d seg = Inr t" if "seg \<in> set (segments tmpl)" for seg
    using errs that by (cases "render_segment src d seg") auto
  then show "seg \<in> set (segments tmpl) \<Longrightarrow> \<exists>t. render_segment src d seg = Inr t" .
  have "map (\<lambda>x. case x of Inl _ \<Rightarrow> [] | Inr t \<Rightarrow> t) ?parts = map (\<lambda>seg. projr (render_segment src d seg)) (segments tmpl)"
    using all by (fastforce simp: comp_def split: sum.split)
  then show "out = concat (map (\<lambda>seg. projr (render_segment src d seg)) (segments tmpl))" unfolding out by (rule arg_cong)
qed

text \<open>An idempotency key is only used when every placeholder of its template resolved to a scalar of the
  document it names, and it is never blank: the key is the template with each placeholder replaced by
  that value.\<close>

theorem Render_resolves:
  assumes "Render tmpl src d = Inr out" "Hole r p \<in> set (segments tmpl)"
  shows "TrimSpace out \<noteq> []
    \<and> out = concat (map (\<lambda>seg. projr (render_segment src d seg)) (segments tmpl))
    \<and> (\<exists>v. engine_lookup (case r of RootSource \<Rightarrow> src | RootDoc \<Rightarrow> d) p = Some v
         \<and> ((\<exists>s. v = JStr s) \<or> (\<exists>n. v = JNum n) \<or> (\<exists>b. v = JBool b)))"
proof -
  obtain t where "render_hole src d r p = Inr t" using Render_InrD(2) [OF assms] by (auto simp: render_segment_def)
  then have "\<exists>v. engine_lookup (case r of RootSource \<Rightarrow> src | RootDoc \<Rightarrow> d) p = Some v
         \<and> ((\<exists>s. v = JStr s) \<or> (\<exists>n. v = JNum n) \<or> (\<exists>b. v = JBool b))"
    by (auto simp: render_hole_def Let_def split: option.split_asm json.split_asm)
  then show ?thesis using Render_InrD(1,3) [OF assms(1)] by blast
qed

lemma demo_key: "segments ''o-{{ source.id }}'' = [Lit (CHR ''o''), Lit (CHR ''-''), Hole RootSource ''id'']"
    "Render ''o-{{ source.id }}'' [(''id'', JStr ''7'')] [] = Inr ''o-7''"
  by code_simp+

theorem Render_resolves_witness:
  "Render ''o-{{ source.id }}'' [(''id'', JStr ''7'')] [] = Inr ''o-7''
   \<and> engine_lookup [(''id'', JStr ''7'')] ''id'' \<noteq> None"
  using Render_resolves [OF demo_key(2), of RootSource "''id''"] demo_key by auto

end
