(* ===== verification/Activities.thy ===== *)
theory Activities
  imports Guard Compiler Template
begin

text \<open>
  The activities of a run, \<open>pkg/engine/activities.go\<close> with the types of \<open>types.go\<close> and the mapper of
  \<open>pkg/mapping/mapping.go\<close>. An activity is a function on the engine's state: the guard's state, the
  cache of compiled mappings and, for the workflows, the signals waiting in the approval channel and
  the history of the run. Parameters: JSONata (compiling and evaluating one expression), the store of
  cross-references behind the \<open>Resolver\<close> interface, the Splink service, the logic plugins, the
  notification channels and the delivery of a push notification to an agent.
\<close>

section \<open>Errors\<close>

record unresolved =
  un_Entity :: string
  un_System :: string
  un_Ref :: string
  un_Attributes :: attributes
  un_Suggestions :: "suggestion list"

text \<open>What the workflow sees of an activity's error: \<open>temporal.ApplicationError\<close>. An error that is not one of
  the engine's types has the empty type.\<close>

record app_error =
  ae_Type :: string
  ae_NonRetryable :: bool
  ae_Message :: message
  ae_Details :: "unresolved option"

definition ErrTypeDenied :: string where "ErrTypeDenied = ''TurgonDenied''"
definition ErrTypeRejected :: string where "ErrTypeRejected = ''TurgonRejected''"
definition ErrTypeInvalid :: string where "ErrTypeInvalid = ''TurgonInvalid''"
definition ErrTypeUnresolved :: string where "ErrTypeUnresolved = ''TurgonUnresolved''"
definition ErrTypeMapping :: string where "ErrTypeMapping = ''TurgonMapping''"
definition ErrTypeCompensationFailed :: string where "ErrTypeCompensationFailed = ''TurgonCompensationFailed''"
definition ErrTypePlugin :: string where "ErrTypePlugin = ''TurgonPlugin''"
definition ErrTypePushRefused :: string where "ErrTypePushRefused = ''push-refused''"

lemmas error_types = ErrTypeDenied_def ErrTypeRejected_def ErrTypeInvalid_def ErrTypeUnresolved_def ErrTypeMapping_def
  ErrTypeCompensationFailed_def ErrTypePlugin_def ErrTypePushRefused_def

definition nonRetryable :: "string \<Rightarrow> goerror \<Rightarrow> app_error" where
  "nonRetryable kind e = \<lparr>ae_Type = kind, ae_NonRetryable = True, ae_Message = text_of e, ae_Details = None\<rparr>"

definition plain_error :: "goerror \<Rightarrow> app_error" where
  "plain_error e = \<lparr>ae_Type = [], ae_NonRetryable = False, ae_Message = text_of e, ae_Details = None\<rparr>"

definition classify :: "goerror \<Rightarrow> app_error" where
  "classify e =
     (if errors_Is e ErrDenied then nonRetryable ErrTypeDenied e
      else if errors_Is e ErrRejected then nonRetryable ErrTypeRejected e
      else if errors_Is e ErrInvalid then nonRetryable ErrTypeInvalid e
      else plain_error e)"

section \<open>Mappings\<close>

datatype eval_result = EvalValue json | EvalUndefined | EvalError goerror

record jsonata =
  jn_Compile :: "string \<Rightarrow> goerror option"
  jn_Eval :: "string \<Rightarrow> json \<Rightarrow> eval_result"

text \<open>A mapper is the list of its compiled fields: target and expression.\<close>

type_synonym mapper = "(string \<times> string) list"

definition mapping_Compile :: "jsonata \<Rightarrow> (string \<times> string) list \<Rightarrow> goerror + mapper" where
  "mapping_Compile js fs =
     (let fields = map (\<lambda>t. (t, the (map_of fs t))) (sort (remdups (map fst fs)));
          errs = concat (map (\<lambda>(t, e). case jn_Compile js e of None \<Rightarrow> [] | Some err \<Rightarrow> [Wrap_err ''%s: %w'' [AStr t] err]) fields)
      in case Join_err errs of Some e \<Rightarrow> Inl e | None \<Rightarrow> Inr fields)"

text \<open>\<open>Apply\<close>: the field whose expression failed, or the new document.\<close>

fun mapper_Apply :: "jsonata \<Rightarrow> mapper \<Rightarrow> doc \<Rightarrow> doc \<Rightarrow> (string \<times> goerror) + doc" where
  "mapper_Apply js [] d out = Inr out"
| "mapper_Apply js ((t, e) # fs) d out =
     (case jn_Eval js e (JObj d) of
        EvalError err \<Rightarrow> Inl (t, err)
      | EvalUndefined \<Rightarrow> mapper_Apply js fs d out
      | EvalValue v \<Rightarrow> mapper_Apply js fs d (AList.update t v out))"

section \<open>State\<close>

record write_record =
  wr_Step :: string
  wr_Endpoint :: string
  wr_Operation :: string
  wr_Status :: status
  wr_Result :: raw

record run_result =
  rr_Writes :: "write_record list"

record approval_signal =
  as_Step :: string
  as_Digest :: string
  as_Status :: string
  as_By :: string
  as_Note :: string

record pending_approval =
  pa_Step :: string
  pa_Digest :: string
  pa_Request :: request
  pa_Preview :: raw
  pa_Reasons :: "message list"
  pa_Since :: int

record plugin_input =
  pi_Plugin :: string
  pi_Event :: string
  pi_Entity :: string
  pi_Record :: raw
  pi_Workflow :: string
  pi_RunID :: string
  pi_Step :: string

text \<open>A notification; a fact's value is a message, empty when it is \<^term>\<open>Msg [] []\<close>. The run's ID and the time are
  left out.\<close>

record notification =
  no_Kind :: string
  no_Workflow :: string
  no_Step :: string
  no_Title :: message
  no_Text :: "message list"
  no_Facts :: "(string \<times> message) list"

text \<open>Where an agent's write stands, and what an agent is told of it.\<close>

datatype agent_write_state =
    AgentWriteCommitted
  | AgentWritePending
  | AgentWriteRunning
  | AgentWriteDenied
  | AgentWriteRejected
  | AgentWriteInvalid
  | AgentWriteFailed

record agent_write_status =
  aws_State :: agent_write_state
  aws_Write :: "write_record option"
  aws_Pending :: "pending_approval option"
  aws_Message :: message

record push_config =
  pc_ID :: string
  pc_URL :: string
  pc_Token :: string
  pc_Schemes :: "string list"
  pc_Credentials :: string

record agent_push_input =
  ap_Config :: push_config
  ap_WorkflowID :: string
  ap_Tool :: string
  ap_PushStatus :: agent_write_status

text \<open>The history of a run: the activities it ran, with their final results.\<close>

datatype wf_event =
    HMap string
  | HResolve string
  | HPrepare string request
  | HCommit string request "approval option" "app_error + outcome"
  | HCompensate string request raw "app_error option"
  | HNotify notification
  | HPlugin plugin_input
  | HPush agent_push_input

record ('s, 'w) engine_state =
  es_guard :: "('s, 'w) guard_state"
  es_mappers :: "(string \<times> mapper) list"
  es_channel :: "approval_signal list"
  es_history :: "wf_event list"

type_synonym ('s, 'w, 'a) activity = "('s, 'w) engine_state \<Rightarrow> (app_error + 'a) \<times> ('s, 'w) engine_state"

record 'w matcher =
  mt_Candidates :: "string \<Rightarrow> attributes \<Rightarrow> 'w \<Rightarrow> goerror + candidate list"
  mt_Link :: "string \<Rightarrow> string \<Rightarrow> string \<Rightarrow> string \<Rightarrow> attributes \<Rightarrow> 'w \<Rightarrow> goerror option \<times> 'w"

record 'w resolver =
  rv_Xref :: "string \<Rightarrow> string \<Rightarrow> string \<Rightarrow> 'w \<Rightarrow> goerror + string option"
  rv_Matcher :: "'w matcher option"
  rv_MatchModel :: "(string \<Rightarrow> 'w \<Rightarrow> goerror + match_model option) option"

datatype splink_error = NoSplinkModel | SplinkRefused goerror | SplinkFailed goerror

type_synonym 'w splink = "string \<Rightarrow> attributes \<Rightarrow> nat \<Rightarrow> 'w \<Rightarrow> splink_error + suggestion list \<times> nat \<times> nat"

record ('s, 'w) activities =
  ax_Guard :: "('s, 'w) guard"
  ax_Resolver :: "'w resolver option"
  ax_Audit :: bool
  ax_Splink :: "'w splink option"
  ax_Plugins :: "(plugin_input \<Rightarrow> ('s, 'w) guard_state \<Rightarrow> (goerror \<times> bool) option \<times> ('s, 'w) guard_state) option"
  ax_Notifier :: "(notification \<Rightarrow> 'w \<Rightarrow> goerror option \<times> 'w) option"
  ax_AgentPush :: "agent_push_input \<Rightarrow> 'w \<Rightarrow> app_error option \<times> 'w"
  ax_JSONata :: jsonata
  ax_Math :: math_fns

section \<open>Map\<close>

definition ax_mapper :: "('s, 'w) activities \<Rightarrow> map_config \<Rightarrow> ('s, 'w) engine_state \<Rightarrow> (goerror + mapper) \<times> ('s, 'w) engine_state" where
  "ax_mapper x cfg s =
     (case map_of (es_mappers s) (mc_Mapping cfg) of
        Some m \<Rightarrow> (Inr m, s)
      | None \<Rightarrow>
          (case mapping_Compile (ax_JSONata x) (mc_Fields cfg) of
             Inl e \<Rightarrow> (Inl (Wrap_err ''mapping %s: %w'' [AStr (mc_Mapping cfg)] e), s)
           | Inr m \<Rightarrow> (Inr m, s\<lparr>es_mappers := AList.update (mc_Mapping cfg) m (es_mappers s)\<rparr>)))"

definition Map_activity :: "('s, 'w) activities \<Rightarrow> map_config \<Rightarrow> doc \<Rightarrow> ('s, 'w, doc) activity" where
  "Map_activity x cfg d s =
     (case ax_mapper x cfg s of
        (Inl e, s1) \<Rightarrow> (Inl (nonRetryable ErrTypeMapping e), s1)
      | (Inr m, s1) \<Rightarrow>
          (case mapper_Apply (ax_JSONata x) m d [] of
             Inl (f, e) \<Rightarrow>
               (Inl \<lparr>ae_Type = ErrTypeMapping, ae_NonRetryable = True,
                  ae_Message = Msg ''mapping %s: field %s could not be computed'' [AStr (mc_Mapping cfg), AStr f],
                  ae_Details = None\<rparr>, s1)
           | Inr out \<Rightarrow> (Inr out, s1)))"

section \<open>Resolve\<close>

text \<open>The master records a record may be: by the Splink service where the step asks for it and it can answer,
  otherwise by the built-in model. The second result names the scorer (the Splink model), the third
  tells the steward why Splink did not answer.\<close>

definition splink_suggest ::
  "('s, 'w) activities \<Rightarrow> resolve_config \<Rightarrow> string \<Rightarrow> attributes \<Rightarrow> bool \<Rightarrow> 'w
     \<Rightarrow> app_error + suggestion list \<times> message option \<times> string" where
  "splink_suggest x cfg en attrs canMatch w =
     (if \<not> (rcf_Strategy cfg = StrategySplink \<and> canMatch \<and> attrs \<noteq> []) then Inr ([], None, [])
      else case ax_Splink x of
        None \<Rightarrow> Inr ([], None, ''; no Splink service is configured (TURGON_SPLINK_URL)'')
      | Some sp \<Rightarrow>
          (case sp en attrs 3 w of
             Inl NoSplinkModel \<Rightarrow> Inr ([], None, ''; the Splink service has no model for it until a steward links some'')
           | Inl (SplinkRefused e) \<Rightarrow> Inl (nonRetryable ErrTypeInvalid e)
           | Inl (SplinkFailed e) \<Rightarrow> Inl (plain_error e)
           | Inr (ss, records, masters) \<Rightarrow>
               Inr (ss, Some (Msg ''splink (%d records of %d masters)'' [AInt (int records), AInt (int masters)]), [])))"

definition model_suggest ::
  "('s, 'w) activities \<Rightarrow> 'w resolver \<Rightarrow> 'w matcher \<Rightarrow> string \<Rightarrow> attributes \<Rightarrow> 'w \<Rightarrow> app_error + suggestion list" where
  "model_suggest x rv m en attrs w =
     (case mt_Candidates m en attrs w of
        Inl e \<Rightarrow> Inl (plain_error e)
      | Inr cs \<Rightarrow>
          (case (case rv_MatchModel rv of None \<Rightarrow> Inr None | Some mm \<Rightarrow> mm en w) of
             Inl e \<Rightarrow> Inl (plain_error e)
           | Inr trained \<Rightarrow>
               (case Model_Suggest (ax_Math x) (case trained of Some md \<Rightarrow> md | None \<Rightarrow> Default_model) attrs cs 3 of
                  None \<Rightarrow> Inl (plain_error (New_err ''panic: index out of range'' []))
                | Some ss \<Rightarrow> Inr ss)))"

definition resolve_suggest ::
  "('s, 'w) activities \<Rightarrow> 'w resolver \<Rightarrow> resolve_config \<Rightarrow> string \<Rightarrow> attributes \<Rightarrow> 'w
     \<Rightarrow> app_error + suggestion list \<times> message option \<times> string" where
  "resolve_suggest x rv cfg en attrs w =
     (case splink_suggest x cfg en attrs (rv_Matcher rv \<noteq> None) w of
        Inl e \<Rightarrow> Inl e
      | Inr (ss, scorer, why) \<Rightarrow>
          (case (scorer, rv_Matcher rv) of
             (None, Some m) \<Rightarrow>
               if attrs = [] then Inr (ss, scorer, why)
               else (case model_suggest x rv m en attrs w of Inl e \<Rightarrow> Inl e | Inr ss' \<Rightarrow> Inr (ss', scorer, why))
           | _ \<Rightarrow> Inr (ss, scorer, why)))"

definition may_match :: "resolve_config \<Rightarrow> message option \<Rightarrow> bool" where
  "may_match cfg scorer \<longleftrightarrow>
     rcf_Strategy cfg = StrategyProbabilistic \<or> (rcf_Strategy cfg = StrategySplink \<and> scorer \<noteq> None)"

text \<open>Linking automatically: the link, then its audit entry.\<close>

definition auto_link ::
  "('s, 'w) activities \<Rightarrow> 'w matcher \<Rightarrow> resolve_config \<Rightarrow> string \<Rightarrow> string \<Rightarrow> string \<Rightarrow> string \<Rightarrow> attributes \<Rightarrow> suggestion list
     \<Rightarrow> message option \<Rightarrow> ('s, 'w, string) activity" where
  "auto_link x m cfg en sys ref master attrs ss scorer s =
     (case mt_Link m en sys ref master attrs (gs_world (es_guard s)) of
        (Some e, w) \<Rightarrow> (Inl (plain_error e), s\<lparr>es_guard := (es_guard s)\<lparr>gs_world := w\<rparr>\<rparr>)
      | (None, w) \<Rightarrow>
          let s1 = s\<lparr>es_guard := (es_guard s)\<lparr>gs_world := w\<rparr>\<rparr>
          in if \<not> ax_Audit x then (Inr master, s1)
             else case guard_record (ax_Guard x) (Event ''turgon/resolver'' ''xref.matched'' (Fields
                    ([(''entity'', AStr en), (''system'', AStr sys), (''ref'', AStr ref), (''master'', AStr master),
                      (''score'', AFloat (sg_Score (hd ss))), (''reasons'', AList (sg_Reasons (hd ss))),
                      (''threshold'', AFloat (rcf_AutoMatchAbove cfg))]
                     @ (case scorer of None \<Rightarrow> [] | Some sc \<Rightarrow> [(''model'', AErr sc)])))) (es_guard s1) of
               (Some e, gs) \<Rightarrow> (Inl (plain_error e), s1\<lparr>es_guard := gs\<rparr>)
             | (None, gs) \<Rightarrow> (Inr master, s1\<lparr>es_guard := gs\<rparr>))"

definition find_master ::
  "('s, 'w) activities \<Rightarrow> 'w resolver \<Rightarrow> resolve_config \<Rightarrow> string \<Rightarrow> string \<Rightarrow> string \<Rightarrow> doc \<Rightarrow> ('s, 'w, string) activity" where
  "find_master x rv cfg en sys ref d s =
     (let attrs = Extract d (rcf_Match cfg)
      in case resolve_suggest x rv cfg en attrs (gs_world (es_guard s)) of
           Inl e \<Rightarrow> (Inl e, s)
         | Inr (ss, scorer, why) \<Rightarrow>
             (case (if may_match cfg scorer then Decide_match ss (rcf_AutoMatchAbove cfg) else None, rv_Matcher rv) of
                (Some master, Some m) \<Rightarrow> auto_link x m cfg en sys ref master attrs ss scorer s
              | _ \<Rightarrow>
                  (Inl \<lparr>ae_Type = ErrTypeUnresolved, ae_NonRetryable = True,
                     ae_Message = Msg ''a %s from %s has no master record; it needs a data steward%s'' [AStr en, AStr sys, AStr why],
                     ae_Details = Some \<lparr>un_Entity = en, un_System = sys, un_Ref = ref, un_Attributes = attrs, un_Suggestions = ss\<rparr>\<rparr>, s)))"

definition Resolve_activity :: "('s, 'w) activities \<Rightarrow> resolve_config \<Rightarrow> string \<Rightarrow> doc \<Rightarrow> ('s, 'w, doc) activity" where
  "Resolve_activity x cfg sys d s =
     (let en = TrimPrefix (rcf_Entity cfg) ''model.''; (refField, into) = ResolveConfig_Fields cfg
      in if rcf_Strategy cfg \<notin> {StrategyExact, StrategyProbabilistic, StrategySplink} then
           (Inl (nonRetryable ErrTypeUnresolved (New_err ''unknown strategy %q'' [AStr (rcf_Strategy cfg)])), s)
         else case ax_Resolver x of
           None \<Rightarrow> (Inl (nonRetryable ErrTypeUnresolved (New_err ''no identity resolver configured'' [])), s)
         | Some rv \<Rightarrow>
             (case map_of d refField of
                Some (JStr ref) \<Rightarrow>
                  if ref = [] then
                    (Inl (nonRetryable ErrTypeUnresolved (New_err ''document has no %s to resolve'' [AStr refField])), s)
                  else (case rv_Xref rv en sys ref (gs_world (es_guard s)) of
                    Inl e \<Rightarrow> (Inl (plain_error e), s)
                  | Inr (Some mid) \<Rightarrow> (Inr (AList.update into (JStr mid) d), s)
                  | Inr None \<Rightarrow>
                      (case find_master x rv cfg en sys ref d s of
                         (Inl e, s1) \<Rightarrow> (Inl e, s1)
                       | (Inr mid, s1) \<Rightarrow> (Inr (AList.update into (JStr mid) d), s1)))
              | _ \<Rightarrow> (Inl (nonRetryable ErrTypeUnresolved (New_err ''document has no %s to resolve'' [AStr refField])), s)))"

section \<open>Writes\<close>

record prepare_input =
  pin_Workflow :: string
  pin_Step :: string
  pin_Config :: write_config
  pin_Source :: doc
  pin_Doc :: doc

definition buildRequest :: "prepare_input \<Rightarrow> goerror + request" where
  "buildRequest i =
     (let c = pin_Config i
      in case Render (wc_IdempotencyKey c) (pin_Source i) (pin_Doc i) of
           Inl e \<Rightarrow> Inl e
         | Inr key \<Rightarrow> Inr
             \<lparr>req_Target = wc_Endpoint c, req_Operation = wc_Operation c,
              req_Tool = ReplaceByte (CHR ''-'') (CHR ''_'') (wc_Operation c), req_Risk = wc_Risk c,
              req_Subject = \<lparr>sub_ID = ''turgon/recipe/'' @ pin_Workflow i, sub_Roles = [RoleOperator], sub_Agent = False, sub_OnBehalfOf = []\<rparr>,
              req_IdempotencyKey = key, req_Payload = RawDoc (JObj (pin_Doc i)), req_Entity = wc_Entity c,
              req_Amount = (if wc_Amount c = [] then AmountOf (pin_Doc i) else engine_AmountAt (pin_Doc i) (wc_Amount c)),
              req_Simulate = (wc_Simulation c \<noteq> []), req_Compensation = wc_Compensation c, req_Recipe = pin_Workflow i,
              req_RequireApproval = (wc_Approval c = ''required''),
              req_Reason = ''recipe '' @ pin_Workflow i @ '' step '' @ pin_Step i,
              req_CheckAmount = map_option (\<lambda>k. \<lparr>chk_Preview = sac_Preview k, chk_Tolerance = sac_Tolerance k\<rparr>) (wc_CheckAmount c)\<rparr>)"

definition on_guard :: "(('s, 'w) guard_state \<Rightarrow> 'a \<times> ('s, 'w) guard_state) \<Rightarrow> ('s, 'w) engine_state \<Rightarrow> 'a \<times> ('s, 'w) engine_state" where
  "on_guard f s = (case f (es_guard s) of (r, gs) \<Rightarrow> (r, s\<lparr>es_guard := gs\<rparr>))"

text \<open>After a mismatch the commit, which does not dry-run again, must insist on the approval.\<close>

definition insist :: "prepared \<Rightarrow> request \<Rightarrow> request" where
  "insist p req = (if pr_AmountMismatch p \<noteq> None then req\<lparr>req_RequireApproval := True\<rparr> else req)"

definition PrepareWrite :: "('s, 'w) activities \<Rightarrow> prepare_input \<Rightarrow> ('s, 'w, request \<times> prepared) activity" where
  "PrepareWrite x i s =
     (case buildRequest i of
        Inl e \<Rightarrow> (Inl (nonRetryable ErrTypeInvalid e), s)
      | Inr req \<Rightarrow>
          (case on_guard (Prepare (ax_Guard x) req) s of
             ((p, Some e), s1) \<Rightarrow> (Inl (classify e), s1)
           | ((p, None), s1) \<Rightarrow> (Inr (insist p req, p), s1)))"

text \<open>Whatever the error, the workflow sees it classified: an unconfirmed write is not one of the engine's types.\<close>

definition CommitWrite :: "('s, 'w) activities \<Rightarrow> request \<Rightarrow> approval option \<Rightarrow> ('s, 'w, outcome) activity" where
  "CommitWrite x req a s =
     (case on_guard (Commit (ax_Guard x) req a) s of
        ((out, None), s1) \<Rightarrow> (Inr out, s1)
      | ((out, Some e), s1) \<Rightarrow>
          (Inl (if \<not> (errors_Is e ErrUnconfirmed \<and> out_Status out = StatusCommitted) then classify e else plain_error e), s1))"

definition Compensate_activity :: "('s, 'w) activities \<Rightarrow> request \<Rightarrow> raw \<Rightarrow> ('s, 'w, unit) activity" where
  "Compensate_activity x req res s =
     (case on_guard (Compensate (ax_Guard x) req res) s of
        (None, s1) \<Rightarrow> (Inr (), s1)
      | (Some e, s1) \<Rightarrow> (Inl (plain_error e), s1))"

definition PrepareAgentWrite :: "('s, 'w) activities \<Rightarrow> request \<Rightarrow> ('s, 'w, prepared) activity" where
  "PrepareAgentWrite x req s =
     (if \<not> Has_target (req_Target req) (es_guard s) then
        (Inl (nonRetryable ErrTypeInvalid (New_err ''this worker has no connector for %s'' [AStr (req_Target req)])), s)
      else case on_guard (Prepare (ax_Guard x) req) s of
        ((p, None), s1) \<Rightarrow> (Inr p, s1)
      | ((p, Some e), s1) \<Rightarrow>
          (Inl (classify (if errors_Is e ErrDenied \<and> Reasons (pr_Decision p) \<noteq> []
                          then GoError (wraps e) (Msg ''%w: %s'' (AErr (text_of e) # map AErr (Reasons (pr_Decision p)))) else e)), s1))"

section \<open>Notifications and plugins\<close>

definition Notify :: "('s, 'w) activities \<Rightarrow> notification \<Rightarrow> ('s, 'w, unit) activity" where
  "Notify x n s =
     (case ax_Notifier x of
        None \<Rightarrow> (Inr (), s)
      | Some f \<Rightarrow>
          (case f n (gs_world (es_guard s)) of
             (None, w) \<Rightarrow> (Inr (), s\<lparr>es_guard := (es_guard s)\<lparr>gs_world := w\<rparr>\<rparr>)
           | (Some e, w) \<Rightarrow> (Inl (plain_error e), s\<lparr>es_guard := (es_guard s)\<lparr>gs_world := w\<rparr>\<rparr>)))"

text \<open>A plugin's own failure (the flag) is final; others may pass.\<close>

definition RunPlugin :: "('s, 'w) activities \<Rightarrow> plugin_input \<Rightarrow> ('s, 'w, unit) activity" where
  "RunPlugin x i s =
     (case ax_Plugins x of
        None \<Rightarrow> (Inl (nonRetryable ErrTypePlugin (New_err ''this worker runs no plugins'' [])), s)
      | Some run \<Rightarrow>
          (case on_guard (run i) s of
             (None, s1) \<Rightarrow> (Inr (), s1)
           | (Some (e, own), s1) \<Rightarrow> (Inl (if own then nonRetryable ErrTypePlugin e else plain_error e), s1)))"

definition AgentPush :: "('s, 'w) activities \<Rightarrow> agent_push_input \<Rightarrow> ('s, 'w, unit) activity" where
  "AgentPush x i s =
     (case ax_AgentPush x i (gs_world (es_guard s)) of
        (None, w) \<Rightarrow> (Inr (), s\<lparr>es_guard := (es_guard s)\<lparr>gs_world := w\<rparr>\<rparr>)
      | (Some e, w) \<Rightarrow> (Inl e, s\<lparr>es_guard := (es_guard s)\<lparr>gs_world := w\<rparr>\<rparr>))"

end
