(* ===== verification/Workflow.thy ===== *)
theory Workflow
  imports Activities
begin

text \<open>
  Runs, \<open>pkg/engine/workflow.go\<close>, \<open>notify.go\<close>, \<open>plugins.go\<close> and the agent's write of \<open>agent.go\<close>: the
  workflow that interprets a compiled recipe for one event, and the one behind an agent's tool. What
  Temporal does is the runtime: it retries an activity by its policy, an attempt's result can get lost
  after the attempt did its work (a crashed worker), other runs act between attempts and while a run
  waits, signals arrive, and time passes. Local activities are activities here. Metrics and logging are
  left out.
\<close>

section \<open>The runtime\<close>

datatype push_signal = PushSet push_config | PushDelete string

text \<open>Whether an attempt's result is lost, what happens between attempts, the approval signals that arrive while a
  run waits, the clock, the digest of a request (SHA-256 of its JSON), the fields a refusal names, the
  versions of the workflow code, the run's ID and the push signals received so far.\<close>

record ('s, 'w) runtime =
  rt_Lost :: "('s, 'w) guard_state \<Rightarrow> bool"
  rt_Pause :: "('s, 'w) guard_state \<Rightarrow> ('s, 'w) guard_state"
  rt_Await :: "('s, 'w) guard_state \<Rightarrow> approval_signal list \<times> ('s, 'w) guard_state"
  rt_Now :: "('s, 'w) guard_state \<Rightarrow> int"
  rt_Digest :: "request \<Rightarrow> string"
  rt_RequiredFields :: "message \<Rightarrow> string list"
  rt_Version :: "string \<Rightarrow> bool"
  rt_WorkflowID :: string
  rt_PushSignals :: "('s, 'w) guard_state \<Rightarrow> push_signal list"

record retry_policy =
  rp_MaximumAttempts :: nat
  rp_NonRetryable :: "string list"

definition activityRetry :: retry_policy where
  "activityRetry = \<lparr>rp_MaximumAttempts = 8,
     rp_NonRetryable = [ErrTypeDenied, ErrTypeRejected, ErrTypeInvalid, ErrTypeUnresolved, ErrTypeMapping]\<rparr>"

definition timeout_error :: app_error where
  "timeout_error = \<lparr>ae_Type = [], ae_NonRetryable = False, ae_Message = Msg ''activity timeout'' [], ae_Details = None\<rparr>"

definition retryable :: "string list \<Rightarrow> app_error \<Rightarrow> bool" where
  "retryable final e \<longleftrightarrow> \<not> ae_NonRetryable e \<and> ae_Type e \<notin> set final"

definition attempt :: "('s, 'w) runtime \<Rightarrow> ('s, 'w, 'a) activity \<Rightarrow> ('s, 'w, 'a) activity" where
  "attempt rt act s = (case act s of (r, s1) \<Rightarrow> (if rt_Lost rt (es_guard s1) then Inl timeout_error else r, s1))"

fun execute :: "('s, 'w) runtime \<Rightarrow> string list \<Rightarrow> nat \<Rightarrow> ('s, 'w, 'a) activity \<Rightarrow> ('s, 'w, 'a) activity" where
  "execute rt final 0 act s = (Inl timeout_error, s)"
| "execute rt final (Suc n) act s =
     (case attempt rt act s of
        (Inr v, s1) \<Rightarrow> (Inr v, s1)
      | (Inl e, s1) \<Rightarrow>
          if n = 0 \<or> \<not> retryable final e then (Inl e, s1)
          else execute rt final n act (s1\<lparr>es_guard := rt_Pause rt (es_guard s1)\<rparr>))"

definition ExecuteActivity :: "('s, 'w) runtime \<Rightarrow> retry_policy \<Rightarrow> ('s, 'w, 'a) activity \<Rightarrow> ('s, 'w, 'a) activity" where
  "ExecuteActivity rt pol act = execute rt (rp_NonRetryable pol) (rp_MaximumAttempts pol) act"

definition note_event :: "wf_event \<Rightarrow> ('s, 'w) engine_state \<Rightarrow> ('s, 'w) engine_state" where
  "note_event ev s = s\<lparr>es_history := es_history s @ [ev]\<rparr>"

section \<open>Notifications\<close>

definition SortedFacts :: "(string \<times> message) list \<Rightarrow> (string \<times> message) list" where
  "SortedFacts fs = filter (\<lambda>f. snd f \<noteq> Msg [] []) (sort_key fst fs)"

definition plain :: "string \<Rightarrow> message" where
  "plain s = Msg s []"

definition joined :: "message list \<Rightarrow> message" where
  "joined ms = (if ms = [] then Msg [] [] else Msg ''join'' (map AErr ms))"

definition new_notification :: "string \<Rightarrow> string \<Rightarrow> message \<Rightarrow> message list \<Rightarrow> (string \<times> message) list \<Rightarrow> notification" where
  "new_notification kind step title txt facts =
     \<lparr>no_Kind = kind, no_Workflow = [], no_Step = step, no_Title = title, no_Text = txt, no_Facts = SortedFacts facts\<rparr>"

definition approvalPending :: "pending_approval \<Rightarrow> int \<Rightarrow> notification" where
  "approvalPending p deadline =
     (let r = pa_Request p
      in new_notification ''approval.pending'' (pa_Step p)
           (Msg ''Approval needed: %s on %s'' [AStr (req_Operation r), AStr (req_Target r)])
           [plain ''A run is waiting for someone to approve or reject this write. Nothing is written until then.'']
           ([(''Target'', plain (req_Target r)), (''Operation'', plain (req_Operation r)), (''Risk'', plain (req_Risk r)),
             (''Entity'', plain (req_Entity r)), (''Step'', plain (pa_Step p)), (''Reference'', plain (req_IdempotencyKey r)),
             (''Why approval'', joined (pa_Reasons p)), (''Decide before'', Msg ''2006-01-02 15:04 MST'' [AInt deadline])]
            @ (if req_Amount r \<noteq> 0 then [(''Amount'', Msg ''%.2f'' [AFloat (req_Amount r)])] else [])
            @ (if sub_Agent (req_Subject r) then
                 [(''Requested by'', plain (''agent '' @ sub_ID (req_Subject r)
                    @ (if sub_OnBehalfOf (req_Subject r) \<noteq> [] then '' for '' @ sub_OnBehalfOf (req_Subject r) else [])))]
               else [])))"

definition approvalTimedOut :: "pending_approval \<Rightarrow> notification" where
  "approvalTimedOut p =
     new_notification ''approval.timed-out'' (pa_Step p)
       (Msg ''Approval timed out: %s on %s'' [AStr (req_Operation (pa_Request p)), AStr (req_Target (pa_Request p))])
       [plain ''Nobody decided in time, so the write was rejected and the run stopped. An operator can retry it from the console to ask again.'']
       [(''Step'', plain (pa_Step p)), (''Reference'', plain (req_IdempotencyKey (pa_Request p)))]"

definition stewardNeeded :: "app_error \<Rightarrow> notification option" where
  "stewardNeeded e =
     (case (ae_Type e = ErrTypeUnresolved, ae_Details e) of
        (True, Some u) \<Rightarrow> Some (new_notification ''steward.needed'' []
          (Msg ''A %s from %s needs a data steward'' [AStr (un_Entity u), AStr (un_System u)])
          [plain ''The record matches no master record with enough certainty. Link it in the steward queue and the run continues.'']
          ([(''Entity'', plain (un_Entity u)), (''System'', plain (un_System u)),
            (''Suggestions'', plain (Itoa (length (un_Suggestions u))))]
           @ (case un_Suggestions u of
                [] \<Rightarrow> []
              | s # _ \<Rightarrow> [(''Best suggestion'', Msg ''%s (%.0f%%: %s)'' [AStr (sg_Master s), AFloat (fl (sg_Score s * 100)), AList (sg_Reasons s)])])))
      | _ \<Rightarrow> None)"

definition compensationFailed :: "string \<Rightarrow> message \<Rightarrow> message list \<Rightarrow> notification" where
  "compensationFailed step err undo =
     new_notification ''compensation.failed'' step (plain ''Writes could not be undone'')
       [plain ''A step failed and undoing the writes before it failed too, so the systems disagree. An operator must reconcile them.'']
       [(''Failed step'', plain step), (''Step error'', Msg ''clip'' [AErr err]), (''Undo errors'', Msg ''clip'' [AErr (joined undo)])]"

definition writeRefused ::
  "(message \<Rightarrow> string list) \<Rightarrow> string \<Rightarrow> write_config option \<Rightarrow> app_error \<Rightarrow> nat \<Rightarrow> notification option" where
  "writeRefused requiredFields step w e undone =
     (case (w, ae_Type e = ErrTypeInvalid) of
        (Some wc, True) \<Rightarrow>
          let fs = requiredFields (ae_Message e)
          in Some (new_notification ''write.refused'' step
               (Msg ''Write refused: %s on %s'' [AStr (wc_Operation wc), AStr (wc_Endpoint wc)])
               ([if fs \<noteq> [] then plain ''The system refused the write because fields it requires were missing, so the run stopped.''
                 else plain ''The write was refused as invalid, so the run stopped.'']
                @ (if 0 < undone then [Msg '' The %d write(s) before it were undone.'' [AInt (int undone)]] else [])
                @ [plain '' Fix the mapping or the record, then retry the run (with the corrected spec, if the mapping changed).''])
               ([(''Target'', plain (wc_Endpoint wc)), (''Operation'', plain (wc_Operation wc)), (''Step'', plain step)]
                @ (if fs \<noteq> [] then [(''Missing fields'', plain (Join fs '', ''))] else [])))
      | _ \<Rightarrow> None)"

definition notifyVersion :: string where "notifyVersion = ''notify-people''"
definition notifyRefusedVersion :: string where "notifyRefusedVersion = ''notify-refused''"
definition pluginsVersion :: string where "pluginsVersion = ''logic-plugins''"

text \<open>Best effort: the error is only logged.\<close>

definition tell :: "('s, 'w) runtime \<Rightarrow> ('s, 'w) activities \<Rightarrow> string \<Rightarrow> notification \<Rightarrow> ('s, 'w) engine_state \<Rightarrow> ('s, 'w) engine_state" where
  "tell rt x wfName n s =
     (if \<not> rt_Version rt notifyVersion then s
      else let n' = n\<lparr>no_Workflow := wfName\<rparr>
        in note_event (HNotify n')
             (snd (ExecuteActivity rt \<lparr>rp_MaximumAttempts = 5, rp_NonRetryable = []\<rparr> (Notify x n') s)))"

section \<open>Approvals\<close>

definition DefaultApprovalTimeout :: int where
  "DefaultApprovalTimeout = 72 * 3600 * Second"

definition approvalTimeoutActor :: string where
  "approvalTimeoutActor = ''turgon/approval-timeout''"

text \<open>\<open>time.Duration.String\<close>.\<close>

definition fmtFrac :: "nat \<Rightarrow> nat \<Rightarrow> string" where
  "fmtFrac v prec =
     (let ds = Itoa (v mod 10 ^ prec);
          padded = replicate (prec - length ds) (CHR ''0'') @ ds;
          kept = rev (dropWhile (\<lambda>c. c = CHR ''0'') (rev padded))
      in Itoa (v div 10 ^ prec) @ (if kept = [] then [] else CHR ''.'' # kept))"

definition fmtDuration :: "nat \<Rightarrow> string" where
  "fmtDuration u =
     (if u = 0 then ''0s''
      else if u < 1000 then Itoa u @ ''ns''
      else if u < 1000000 then fmtFrac u 3 @ [char_of (194 :: nat), char_of (181 :: nat)] @ ''s''
      else if u < 1000000000 then fmtFrac u 6 @ ''ms''
      else let secs = u div 1000000000; mins = secs div 60; hours = mins div 60;
               tail = fmtFrac (u mod 1000000000 + secs mod 60 * 1000000000) 9 @ ''s''
        in (if 0 < hours then Itoa hours @ ''h'' else []) @ (if 0 < mins then Itoa (mins mod 60) @ ''m'' else []) @ tail)"

definition Duration_String :: "int \<Rightarrow> string" where
  "Duration_String d = (if d < 0 then CHR ''-'' # fmtDuration (nat (- d)) else fmtDuration (nat d))"

text \<open>The loop of \<open>awaitApproval\<close> over the signals received before the timer fires: signals about another step
  or another request are dropped. What is left stays in the channel.\<close>

fun await_loop :: "pending_approval \<Rightarrow> int \<Rightarrow> approval_signal list \<Rightarrow> approval \<times> approval_signal list" where
  "await_loop p timeout [] =
     (\<lparr>ap_Status = ApprovalRejected, ap_By = approvalTimeoutActor, ap_Note = ''nobody decided within '' @ Duration_String timeout\<rparr>, [])"
| "await_loop p timeout (sg # sgs) =
     (if as_Step sg \<noteq> pa_Step p \<or> as_Digest sg \<noteq> pa_Digest p then await_loop p timeout sgs
      else (\<lparr>ap_Status = (if as_Status sg \<noteq> ApprovalApproved then ApprovalRejected else as_Status sg),
             ap_By = as_By sg, ap_Note = as_Note sg\<rparr>, sgs))"

definition awaitApproval :: "('s, 'w) runtime \<Rightarrow> pending_approval \<Rightarrow> int \<Rightarrow> ('s, 'w) engine_state \<Rightarrow> approval \<times> ('s, 'w) engine_state" where
  "awaitApproval rt p timeout s =
     (case rt_Await rt (es_guard s) of
        (arrived, gs) \<Rightarrow>
          (case await_loop p timeout (es_channel s @ arrived) of (a, rest) \<Rightarrow> (a, s\<lparr>es_guard := gs, es_channel := rest\<rparr>)))"

text \<open>Asking a person: the pending request, the notification and the wait. An agent's write also tells the agent
  (\<open>ping\<close>).\<close>

definition pending_of :: "('s, 'w) runtime \<Rightarrow> string \<Rightarrow> request \<Rightarrow> prepared \<Rightarrow> ('s, 'w) engine_state \<Rightarrow> pending_approval" where
  "pending_of rt step req p s =
     \<lparr>pa_Step = step, pa_Digest = rt_Digest rt req, pa_Request = req, pa_Preview = pr_Preview p,
      pa_Reasons = Reasons (pr_Decision p), pa_Since = rt_Now rt (es_guard s)\<rparr>"

definition ask_person ::
  "('s, 'w) runtime \<Rightarrow> ('s, 'w) activities \<Rightarrow> (pending_approval \<Rightarrow> ('s, 'w) engine_state \<Rightarrow> ('s, 'w) engine_state) \<Rightarrow> string \<Rightarrow> int \<Rightarrow> string \<Rightarrow> request \<Rightarrow> prepared \<Rightarrow> ('s, 'w) engine_state
     \<Rightarrow> approval option \<times> ('s, 'w) engine_state" where
  "ask_person rt x ping name timeout step req p s =
     (if \<not> pr_NeedsApproval p then (None, s)
      else let pending = pending_of rt step req p s;
               s1 = ping pending (tell rt x name (approvalPending pending (pa_Since pending + timeout)) s)
        in case awaitApproval rt pending timeout s1 of
             (a, s2) \<Rightarrow>
               (Some a, if ap_By a = approvalTimeoutActor then tell rt x name (approvalTimedOut pending) s2 else s2))"

section \<open>Plugins\<close>

definition raw_object :: "raw \<Rightarrow> doc option" where
  "raw_object r = (case r of RawDoc (JObj m) \<Rightarrow> Some m | _ \<Rightarrow> None)"

definition modelRecord :: "raw \<Rightarrow> raw \<Rightarrow> raw" where
  "modelRecord payload result =
     (case (raw_object payload, raw_object result) of
        (Some d, Some r) \<Rightarrow> RawDoc (JObj (foldl (\<lambda>m (k, v). AList.update k v m) d r))
      | _ \<Rightarrow> result)"

definition run_plugin ::
  "('s, 'w) runtime \<Rightarrow> ('s, 'w) activities \<Rightarrow> string \<Rightarrow> string \<Rightarrow> write_config \<Rightarrow> raw \<Rightarrow> ('s, 'w) engine_state \<Rightarrow> string \<Rightarrow> ('s, 'w) engine_state" where
  "run_plugin rt x wfName step w rcd s p =
     (let i = \<lparr>pi_Plugin = p, pi_Event = wc_Event w, pi_Entity = wc_Entity w, pi_Record = rcd, pi_Workflow = wfName, pi_RunID = rt_WorkflowID rt, pi_Step = step\<rparr>
      in note_event (HPlugin i) (snd (ExecuteActivity rt \<lparr>rp_MaximumAttempts = 3, rp_NonRetryable = [ErrTypePlugin]\<rparr> (RunPlugin x i) s)))"

definition runPlugins ::
  "('s, 'w) runtime \<Rightarrow> ('s, 'w) activities \<Rightarrow> string \<Rightarrow> string \<Rightarrow> write_config \<Rightarrow> raw \<Rightarrow> ('s, 'w) engine_state \<Rightarrow> ('s, 'w) engine_state" where
  "runPlugins rt x wfName step w rcd s = foldl (run_plugin rt x wfName step w rcd) s (wc_Plugins w)"

section \<open>Integration runs\<close>

record run_event =
  re_ID :: string
  re_Position :: int
  re_Name :: string
  re_Payload :: raw

record run_input =
  ri_SpecDigest :: string
  ri_Workflow :: workflow
  ri_Event :: run_event
  ri_ApprovalTimeout :: int

record committed_write =
  cw_step :: string
  cw_request :: request
  cw_result :: raw

text \<open>The variables of the workflow function: \<open>doc\<close>, \<open>result.Writes\<close>, \<open>done\<close>.\<close>

record run_vars =
  rv_doc :: doc
  rv_writes :: "write_record list"
  rv_done :: "committed_write list"

definition withOutput :: "doc \<Rightarrow> string \<Rightarrow> raw \<Rightarrow> doc" where
  "withOutput d field result =
     (if field = [] then d else case result of RawDoc v \<Rightarrow> AList.update field v d | _ \<Rightarrow> d)"

definition source_of :: "raw \<Rightarrow> doc option" where
  "source_of payload = (case payload of RawDoc (JObj m) \<Rightarrow> Some m | RawDoc JNull \<Rightarrow> Some [] | _ \<Rightarrow> None)"

text \<open>A write step after its first phase: the approval, the commit, the plugins.\<close>

definition commit_step ::
  "('s, 'w) runtime \<Rightarrow> ('s, 'w) activities \<Rightarrow> string \<Rightarrow> int \<Rightarrow> string \<Rightarrow> write_config \<Rightarrow> request \<Rightarrow> prepared \<Rightarrow> run_vars \<Rightarrow> ('s, 'w) engine_state
     \<Rightarrow> (app_error + run_vars) \<times> ('s, 'w) engine_state" where
  "commit_step rt x wfName timeout step w req p v s =
     (case ask_person rt x (\<lambda>_ s. s) wfName timeout step req p s of
        (approval, s1) \<Rightarrow>
          (case ExecuteActivity rt activityRetry (CommitWrite x req approval) s1 of
             (res, s2) \<Rightarrow>
               let s3 = note_event (HCommit step req approval res) s2
               in case res of
                    Inl e \<Rightarrow> (Inl e, s3)
                  | Inr out \<Rightarrow>
                      (Inr \<lparr>rv_doc = withOutput (rv_doc v) (wc_Output w) (out_Result out),
                            rv_writes = rv_writes v @ [\<lparr>wr_Step = step, wr_Endpoint = wc_Endpoint w, wr_Operation = wc_Operation w,
                              wr_Status = out_Status out, wr_Result = out_Result out\<rparr>],
                            rv_done = rv_done v @ [\<lparr>cw_step = step, cw_request = req, cw_result = out_Result out\<rparr>]\<rparr>,
                       if wc_Plugins w \<noteq> [] \<and> out_Status out = StatusCommitted \<and> rt_Version rt pluginsVersion
                       then runPlugins rt x wfName step w (modelRecord (req_Payload req) (out_Result out)) s3 else s3)))"

definition run_write ::
  "('s, 'w) runtime \<Rightarrow> ('s, 'w) activities \<Rightarrow> string \<Rightarrow> int \<Rightarrow> doc \<Rightarrow> string \<Rightarrow> write_config \<Rightarrow> run_vars \<Rightarrow> ('s, 'w) engine_state
     \<Rightarrow> (app_error + run_vars) \<times> ('s, 'w) engine_state" where
  "run_write rt x wfName timeout source step w v s =
     (case ExecuteActivity rt activityRetry (PrepareWrite x
           \<lparr>pin_Workflow = wfName, pin_Step = step, pin_Config = w, pin_Source = source, pin_Doc = rv_doc v\<rparr>) s of
        (Inl e, s1) \<Rightarrow> (Inl e, s1)
      | (Inr (req, p), s1) \<Rightarrow>
          let s2 = note_event (HPrepare step req) s1
          in case pr_Duplicate p of
               Some d \<Rightarrow>
                 (Inr (v\<lparr>rv_writes := rv_writes v @ [\<lparr>wr_Step = step, wr_Endpoint = wc_Endpoint w, wr_Operation = wc_Operation w,
                            wr_Status = out_Status d, wr_Result = out_Result d\<rparr>],
                         rv_doc := withOutput (rv_doc v) (wc_Output w) (out_Result d)\<rparr>), s2)
             | None \<Rightarrow> commit_step rt x wfName timeout step w req p v s2)"

definition run_step ::
  "('s, 'w) runtime \<Rightarrow> ('s, 'w) activities \<Rightarrow> workflow \<Rightarrow> int \<Rightarrow> doc \<Rightarrow> workflow_step \<Rightarrow> run_vars \<Rightarrow> ('s, 'w) engine_state
     \<Rightarrow> (app_error + run_vars) \<times> ('s, 'w) engine_state" where
  "run_step rt x w timeout source st v s =
     (case wfs_Map st of
        Some m \<Rightarrow>
          (case ExecuteActivity rt activityRetry (Map_activity x m (rv_doc v)) s of
             (Inl e, s1) \<Rightarrow> (Inl e, s1)
           | (Inr d, s1) \<Rightarrow> (Inr (v\<lparr>rv_doc := d\<rparr>), note_event (HMap (wfs_Name st)) s1))
      | None \<Rightarrow>
     (case wfs_Resolve st of
        Some r \<Rightarrow>
          (case ExecuteActivity rt activityRetry (Resolve_activity x r (ws_Endpoint (wf_Trigger w)) (rv_doc v)) s of
             (Inl e, s1) \<Rightarrow> (Inl e, s1)
           | (Inr d, s1) \<Rightarrow> (Inr (v\<lparr>rv_doc := d\<rparr>), note_event (HResolve (wfs_Name st)) s1))
      | None \<Rightarrow>
     (case wfs_Write st of
        Some wc \<Rightarrow> run_write rt x (wf_Name w) timeout source (wfs_Name st) wc v s
      | None \<Rightarrow> (Inr v, s))))"

text \<open>The loop over the steps: the variables, and the step that failed with its error.\<close>

fun run_steps ::
  "('s, 'w) runtime \<Rightarrow> ('s, 'w) activities \<Rightarrow> workflow \<Rightarrow> int \<Rightarrow> doc \<Rightarrow> workflow_step list \<Rightarrow> run_vars \<Rightarrow> ('s, 'w) engine_state
     \<Rightarrow> (run_vars \<times> (string \<times> app_error) option) \<times> ('s, 'w) engine_state" where
  "run_steps rt x w timeout source [] v s = ((v, None), s)"
| "run_steps rt x w timeout source (st # sts) v s =
     (case run_step rt x w timeout source st v s of
        (Inl e, s1) \<Rightarrow> ((v, Some (wfs_Name st, e)), s1)
      | (Inr v1, s1) \<Rightarrow> run_steps rt x w timeout source sts v1 s1)"

section \<open>Failing\<close>

text \<open>The compensations, newest write first; the errors with the step they belong to.\<close>

definition undo_write ::
  "('s, 'w) runtime \<Rightarrow> ('s, 'w) activities \<Rightarrow> (string \<times> app_error) list \<times> ('s, 'w) engine_state \<Rightarrow> committed_write
     \<Rightarrow> (string \<times> app_error) list \<times> ('s, 'w) engine_state" where
  "undo_write rt x acc c =
     (case acc of (fails, s) \<Rightarrow>
        (case ExecuteActivity rt activityRetry (Compensate_activity x (cw_request c) (cw_result c)) s of
           (Inr _, s1) \<Rightarrow> (fails, note_event (HCompensate (cw_step c) (cw_request c) (cw_result c) None) s1)
         | (Inl e, s1) \<Rightarrow> (fails @ [(cw_step c, e)], note_event (HCompensate (cw_step c) (cw_request c) (cw_result c) (Some e)) s1)))"

definition undo_writes ::
  "('s, 'w) runtime \<Rightarrow> ('s, 'w) activities \<Rightarrow> committed_write list \<Rightarrow> ('s, 'w) engine_state \<Rightarrow> (string \<times> app_error) list \<times> ('s, 'w) engine_state" where
  "undo_writes rt x cs s = foldl (undo_write rt x) ([], s) (rev cs)"

definition failedWrite :: "workflow \<Rightarrow> string \<Rightarrow> write_config option" where
  "failedWrite w step = Option.bind (find (\<lambda>st. wfs_Name st = step) (wf_Steps w)) wfs_Write"

definition refused ::
  "('s, 'w) runtime \<Rightarrow> ('s, 'w) activities \<Rightarrow> workflow \<Rightarrow> string \<Rightarrow> app_error \<Rightarrow> nat \<Rightarrow> ('s, 'w) engine_state \<Rightarrow> ('s, 'w) engine_state" where
  "refused rt x w step e undone s =
     (case writeRefused (rt_RequiredFields rt) step (failedWrite w step) e undone of
        Some n \<Rightarrow> if rt_Version rt notifyRefusedVersion then tell rt x (wf_Name w) n s else s
      | None \<Rightarrow> s)"

definition fail_run ::
  "('s, 'w) runtime \<Rightarrow> ('s, 'w) activities \<Rightarrow> workflow \<Rightarrow> run_vars \<Rightarrow> string \<Rightarrow> app_error \<Rightarrow> ('s, 'w) engine_state
     \<Rightarrow> (run_result \<times> app_error option) \<times> ('s, 'w) engine_state" where
  "fail_run rt x w v step e s =
     (let result = \<lparr>rr_Writes = rv_writes v\<rparr>;
          s1 = (case stewardNeeded e of Some n \<Rightarrow> tell rt x (wf_Name w) n s | None \<Rightarrow> s)
      in if rv_done v = [] then ((result, Some e), refused rt x w step e 0 s1)
         else case undo_writes rt x (rv_done v) s1 of
           (fails, s2) \<Rightarrow>
             if fails = [] then ((result, Some e), refused rt x w step e (length (rv_done v)) s2)
             else ((result, Some \<lparr>ae_Type = ErrTypeCompensationFailed, ae_NonRetryable = True,
                      ae_Message = Msg ''step failed and %d compensation(s) failed: %v''
                        (AInt (int (length fails)) # map (\<lambda>(st, ce). AErr (Msg ''compensate %s: %w'' [AStr st, AErr (ae_Message ce)])) fails),
                      ae_Details = None\<rparr>),
                   tell rt x (wf_Name w) (compensationFailed step (ae_Message e)
                     (map (\<lambda>(st, ce). Msg ''undo %s: %s'' [AStr st, AErr (ae_Message ce)]) fails)) s2))"

definition approval_timeout :: "int \<Rightarrow> int" where
  "approval_timeout t = (if t \<le> 0 then DefaultApprovalTimeout else t)"

definition IntegrationWorkflow ::
  "('s, 'w) runtime \<Rightarrow> ('s, 'w) activities \<Rightarrow> run_input \<Rightarrow> ('s, 'w) engine_state
     \<Rightarrow> (run_result \<times> app_error option) \<times> ('s, 'w) engine_state" where
  "IntegrationWorkflow rt x i s =
     (case source_of (re_Payload (ri_Event i)) of
        None \<Rightarrow> ((\<lparr>rr_Writes = []\<rparr>, Some \<lparr>ae_Type = ErrTypeInvalid, ae_NonRetryable = True,
                   ae_Message = plain ''event payload is not a JSON object'', ae_Details = None\<rparr>), s)
      | Some source \<Rightarrow>
          (case run_steps rt x (ri_Workflow i) (approval_timeout (ri_ApprovalTimeout i)) source (wf_Steps (ri_Workflow i))
                \<lparr>rv_doc = source, rv_writes = [], rv_done = []\<rparr> s of
             ((v, None), s1) \<Rightarrow> ((\<lparr>rr_Writes = rv_writes v\<rparr>, None), s1)
           | ((v, Some (step, e)), s1) \<Rightarrow> fail_run rt x (ri_Workflow i) v step e s1))"

section \<open>Agent writes\<close>

definition AgentStep :: string where
  "AgentStep = ''agent-write''"

record agent_write_input =
  aw_SpecDigest :: string
  aw_Request :: request
  aw_ApprovalTimeout :: int
  aw_Push :: "push_config list"

definition agentRetry :: retry_policy where
  "agentRetry = \<lparr>rp_MaximumAttempts = 8, rp_NonRetryable = [ErrTypeDenied, ErrTypeRejected, ErrTypeInvalid]\<rparr>"

definition agent_record :: "request \<Rightarrow> status \<Rightarrow> raw \<Rightarrow> write_record" where
  "agent_record req st res =
     \<lparr>wr_Step = AgentStep, wr_Endpoint = req_Target req, wr_Operation = req_Operation req, wr_Status = st, wr_Result = res\<rparr>"

text \<open>Push settings: at most five, one per ID.\<close>

definition MaxPushConfigs :: nat where
  "MaxPushConfigs = 5"

fun push_replace :: "push_config \<Rightarrow> push_config list \<Rightarrow> push_config list option" where
  "push_replace c [] = None"
| "push_replace c (d # ds) = (if pc_ID d = pc_ID c then Some (c # ds) else map_option ((#) d) (push_replace c ds))"

definition push_set :: "push_config list \<Rightarrow> push_config \<Rightarrow> push_config list" where
  "push_set cs c =
     (case push_replace c cs of
        Some cs' \<Rightarrow> cs'
      | None \<Rightarrow> if length cs < MaxPushConfigs then cs @ [c] else cs)"

fun push_delete :: "push_config list \<Rightarrow> string \<Rightarrow> push_config list" where
  "push_delete [] i = []"
| "push_delete (c # cs) i = (if pc_ID c = i then cs else c # push_delete cs i)"

text \<open>A write's push settings, changed by signals while it runs.\<close>

record pushes =
  pu_on :: bool
  pu_configs :: "push_config list"

definition pushVersion :: string where "pushVersion = ''agent-push''"

definition startPushes :: "('s, 'w) runtime \<Rightarrow> push_config list \<Rightarrow> pushes" where
  "startPushes rt initial =
     (if rt_Version rt pushVersion then \<lparr>pu_on = True, pu_configs = foldl push_set [] initial\<rparr> else \<lparr>pu_on = False, pu_configs = []\<rparr>)"

definition push_receive :: "push_config list \<Rightarrow> push_signal \<Rightarrow> push_config list" where
  "push_receive cs sg = (case sg of PushSet c \<Rightarrow> push_set cs c | PushDelete i \<Rightarrow> push_delete cs i)"

definition push_now :: "('s, 'w) runtime \<Rightarrow> pushes \<Rightarrow> ('s, 'w) engine_state \<Rightarrow> push_config list" where
  "push_now rt p s = (if pu_on p then foldl push_receive (pu_configs p) (rt_PushSignals rt (es_guard s)) else [])"

definition push_inputs :: "('s, 'w) runtime \<Rightarrow> pushes \<Rightarrow> string \<Rightarrow> agent_write_status \<Rightarrow> ('s, 'w) engine_state \<Rightarrow> agent_push_input list" where
  "push_inputs rt p tool st s =
     map (\<lambda>c. \<lparr>ap_Config = c, ap_WorkflowID = rt_WorkflowID rt, ap_Tool = tool, ap_PushStatus = st\<rparr>) (push_now rt p s)"

definition pushRetry :: retry_policy where
  "pushRetry = \<lparr>rp_MaximumAttempts = 6, rp_NonRetryable = [ErrTypePushRefused]\<rparr>"

definition deliver_one :: "('s, 'w) runtime \<Rightarrow> ('s, 'w) activities \<Rightarrow> ('s, 'w) engine_state \<Rightarrow> agent_push_input \<Rightarrow> ('s, 'w) engine_state" where
  "deliver_one rt x s i = note_event (HPush i) (snd (ExecuteActivity rt pushRetry (AgentPush x i) s))"

text \<open>The deliveries run side by side; their errors are only logged.\<close>

definition deliver :: "('s, 'w) runtime \<Rightarrow> ('s, 'w) activities \<Rightarrow> agent_push_input list \<Rightarrow> ('s, 'w) engine_state \<Rightarrow> ('s, 'w) engine_state" where
  "deliver rt x ins s = foldl (deliver_one rt x) s ins"

definition push_notify ::
  "('s, 'w) runtime \<Rightarrow> ('s, 'w) activities \<Rightarrow> pushes \<Rightarrow> string \<Rightarrow> agent_write_status \<Rightarrow> ('s, 'w) engine_state \<Rightarrow> ('s, 'w) engine_state" where
  "push_notify rt x p tool st s = deliver rt x (push_inputs rt p tool st s) s"

definition agentWrite ::
  "('s, 'w) runtime \<Rightarrow> ('s, 'w) activities \<Rightarrow> agent_write_input \<Rightarrow> pushes \<Rightarrow> ('s, 'w) engine_state
     \<Rightarrow> (run_result \<times> app_error option) \<times> ('s, 'w) engine_state" where
  "agentWrite rt x i push s =
     (let req0 = aw_Request i
      in case ExecuteActivity rt agentRetry (PrepareAgentWrite x req0) s of
           (Inl e, s1) \<Rightarrow> ((\<lparr>rr_Writes = []\<rparr>, Some e), s1)
         | (Inr p, s1) \<Rightarrow>
             let s2 = note_event (HPrepare AgentStep req0) s1
             in case pr_Duplicate p of
                  Some d \<Rightarrow> ((\<lparr>rr_Writes = [agent_record req0 (out_Status d) (out_Result d)]\<rparr>, None), s2)
                | None \<Rightarrow>
                    let req = insist p req0
                    in case ask_person rt x (\<lambda>pending. push_notify rt x push (req_Tool req)
                           \<lparr>aws_State = AgentWritePending, aws_Write = None, aws_Pending = Some pending, aws_Message = Msg [] []\<rparr>)
                         (''agent/'' @ req_Tool req) (approval_timeout (aw_ApprovalTimeout i)) AgentStep req p s2 of
                         (approval, s3) \<Rightarrow>
                           (case ExecuteActivity rt agentRetry (CommitWrite x req approval) s3 of
                              (Inl e, s4) \<Rightarrow> ((\<lparr>rr_Writes = []\<rparr>, Some e), note_event (HCommit AgentStep req approval (Inl e)) s4)
                            | (Inr out, s4) \<Rightarrow>
                                ((\<lparr>rr_Writes = [agent_record req (out_Status out) (out_Result out)]\<rparr>, None),
                                 note_event (HCommit AgentStep req approval (Inr out)) s4)))"

definition statusOf :: "run_result \<Rightarrow> app_error option \<Rightarrow> agent_write_status" where
  "statusOf res err =
     (case err of
        None \<Rightarrow> \<lparr>aws_State = AgentWriteCommitted, aws_Write = (case rr_Writes res of [] \<Rightarrow> None | r # _ \<Rightarrow> Some r), aws_Pending = None,
                 aws_Message = Msg [] []\<rparr>
      | Some e \<Rightarrow>
          \<lparr>aws_State = (if ae_Type e = ErrTypeDenied then AgentWriteDenied
                        else if ae_Type e = ErrTypeRejected then AgentWriteRejected
                        else if ae_Type e = ErrTypeInvalid then AgentWriteInvalid else AgentWriteFailed),
           aws_Write = None, aws_Pending = None, aws_Message = ae_Message e\<rparr>)"

text \<open>The outcome goes to a detached workflow, which only delivers it.\<close>

definition AgentWriteWorkflow ::
  "('s, 'w) runtime \<Rightarrow> ('s, 'w) activities \<Rightarrow> agent_write_input \<Rightarrow> ('s, 'w) engine_state
     \<Rightarrow> (run_result \<times> app_error option) \<times> ('s, 'w) engine_state" where
  "AgentWriteWorkflow rt x i s =
     (let push = startPushes rt (aw_Push i)
      in case agentWrite rt x i push s of
           ((res, err), s1) \<Rightarrow> ((res, err), push_notify rt x push (req_Tool (aw_Request i)) (statusOf res err) s1))"

text \<open>Roles are not compared.\<close>

definition sameRequest :: "request \<Rightarrow> request \<Rightarrow> bool" where
  "sameRequest a b \<longleftrightarrow>
     req_Target a = req_Target b \<and> req_Operation a = req_Operation b \<and> req_IdempotencyKey a = req_IdempotencyKey b
   \<and> sub_ID (req_Subject a) = sub_ID (req_Subject b) \<and> sub_OnBehalfOf (req_Subject a) = sub_OnBehalfOf (req_Subject b)
   \<and> req_Reason a = req_Reason b \<and> req_Payload a = req_Payload b"

end
