(* ===== verification/Workflow_Props.thy ===== *)
theory Workflow_Props
  imports Workflow Guard_Props
begin

text \<open>
  What a run guarantees, whatever the runtime does (lost results, retries, other runs in between, any
  signals in any order): nothing commits without the policy's leave and, where a person was asked, without
  that person's approval of exactly this request; and a run that fails undoes exactly the writes it
  committed, newest first.
\<close>

section \<open>Activities leave the run's own state alone\<close>

definition quiet_act :: "('s, 'w, 'a) activity \<Rightarrow> bool" where
  "quiet_act act \<longleftrightarrow> (\<forall>s r s'. act s = (r, s') \<longrightarrow> es_history s' = es_history s \<and> es_channel s' = es_channel s)"

lemma quiet_actD: "quiet_act act \<Longrightarrow> act s = (r, s') \<Longrightarrow> es_history s' = es_history s \<and> es_channel s' = es_channel s"
  unfolding quiet_act_def by blast

lemma on_guard_keeps: "on_guard f s = (r, s') \<Longrightarrow> es_history s' = es_history s \<and> es_channel s' = es_channel s"
  by (auto simp: on_guard_def split: prod.split_asm)

lemma auto_link_keeps: "auto_link x m cfg en sys ref master attrs ss scorer s = (r, s') \<Longrightarrow>
    es_history s' = es_history s \<and> es_channel s' = es_channel s"
  by (auto simp: auto_link_def Let_def split: prod.split_asm option.split_asm if_split_asm)

lemma find_master_keeps: "find_master x rv cfg en sys ref d s = (r, s') \<Longrightarrow> es_history s' = es_history s \<and> es_channel s' = es_channel s"
  by (auto simp: find_master_def Let_def split: sum.split_asm prod.split_asm option.split_asm dest: auto_link_keeps)

lemma quiet_activities:
  "quiet_act (Map_activity x cfg d)" "quiet_act (Resolve_activity x rc sys d)" "quiet_act (PrepareWrite x i)"
  "quiet_act (CommitWrite x req a)" "quiet_act (Compensate_activity x req res)" "quiet_act (PrepareAgentWrite x req)"
  "quiet_act (Notify x n)" "quiet_act (RunPlugin x pin)" "quiet_act (AgentPush x apin)"
proof -
  show "quiet_act (Map_activity x cfg d)"
    by (auto simp: quiet_act_def Map_activity_def ax_mapper_def split: prod.split_asm sum.split_asm option.split_asm)
  show "quiet_act (Resolve_activity x rc sys d)"
    by (auto simp: quiet_act_def Resolve_activity_def Let_def dest!: find_master_keeps
        split: prod.split_asm sum.split_asm option.split_asm json.split_asm if_split_asm)
  show "quiet_act (PrepareWrite x i)" "quiet_act (CommitWrite x req a)" "quiet_act (Compensate_activity x req res)"
    "quiet_act (PrepareAgentWrite x req)" "quiet_act (RunPlugin x pin)"
    by (auto simp: quiet_act_def PrepareWrite_def CommitWrite_def Compensate_activity_def PrepareAgentWrite_def RunPlugin_def
        dest!: on_guard_keeps split: prod.split_asm sum.split_asm option.split_asm if_split_asm)
  show "quiet_act (Notify x n)" "quiet_act (AgentPush x apin)"
    by (auto simp: quiet_act_def Notify_def AgentPush_def split: prod.split_asm option.split_asm)
qed

lemma quiet_execute: "quiet_act act \<Longrightarrow> quiet_act (execute rt final n act)"
proof (induction n)
  case 0
  then show ?case by (simp add: quiet_act_def)
next
  case (Suc n)
  show ?case unfolding quiet_act_def
  proof (intro allI impI)
    fix s r s'
    assume "execute rt final (Suc n) act s = (r, s')"
    moreover obtain r1 s1 where a: "act s = (r1, s1)" by (cases "act s")
    ultimately show "es_history s' = es_history s \<and> es_channel s' = es_channel s"
      using quiet_actD [OF Suc(2) a] quiet_actD [OF Suc(1) [OF Suc(2)]]
      by (fastforce simp: attempt_def split: sum.split_asm if_split_asm)
  qed
qed

lemma ExecuteActivity_keeps:
  assumes "ExecuteActivity rt pol act s = (r, s')" "quiet_act act"
  shows "es_history s' = es_history s" "es_channel s' = es_channel s"
  using quiet_actD [OF quiet_execute [OF assms(2)] assms(1) [unfolded ExecuteActivity_def]] by simp_all

text \<open>A result is the result of one attempt.\<close>

lemma execute_Inr: "execute rt final n act s = (Inr v, s') \<Longrightarrow> \<exists>s0. act s0 = (Inr v, s')"
proof (induction n arbitrary: s)
  case (Suc n)
  obtain r1 s1 where a: "act s = (r1, s1)" by (cases "act s")
  then show ?case
    using Suc(2) Suc(1) by (auto simp: attempt_def split: sum.split_asm if_split_asm)
qed simp

lemma ExecuteActivity_Inr: "ExecuteActivity rt pol act s = (Inr v, s') \<Longrightarrow> \<exists>s0. act s0 = (Inr v, s')"
  unfolding ExecuteActivity_def by (rule execute_Inr)

section \<open>History\<close>

fun commit_of :: "wf_event \<Rightarrow> (string \<times> request \<times> raw) list" where
  "commit_of (HCommit st req a (Inr out)) = [(st, req, out_Result out)]"
| "commit_of _ = []"

fun undo_of :: "wf_event \<Rightarrow> (string \<times> request \<times> raw) list" where
  "undo_of (HCompensate st req res e) = [(st, req, res)]"
| "undo_of _ = []"

definition commits_of :: "wf_event list \<Rightarrow> (string \<times> request \<times> raw) list" where
  "commits_of h = concat (map commit_of h)"

definition undos_of :: "wf_event list \<Rightarrow> (string \<times> request \<times> raw) list" where
  "undos_of h = concat (map undo_of h)"

lemma commits_append [simp]: "commits_of (h @ k) = commits_of h @ commits_of k" "commits_of [] = []"
    "commits_of (ev # h) = commit_of ev @ commits_of h"
  by (simp_all add: commits_of_def)

lemma undos_append [simp]: "undos_of (h @ k) = undos_of h @ undos_of k" "undos_of [] = []" "undos_of (ev # h) = undo_of ev @ undos_of h"
  by (simp_all add: undos_of_def)

lemma history_note [simp]: "es_history (note_event ev s) = es_history s @ [ev]" "es_channel (note_event ev s) = es_channel s"
    "es_guard (note_event ev s) = es_guard s"
  by (simp_all add: note_event_def)

text \<open>Steps that only tell people or run plugins.\<close>

definition aside :: "wf_event \<Rightarrow> bool" where
  "aside ev \<longleftrightarrow> (case ev of HNotify n \<Rightarrow> True | HPlugin i \<Rightarrow> True | HPush i \<Rightarrow> True | HPrepare st req \<Rightarrow> True | HMap st \<Rightarrow> True | HResolve st \<Rightarrow> True | _ \<Rightarrow> False)"

definition only_asides :: "('s, 'w) engine_state \<Rightarrow> ('s, 'w) engine_state \<Rightarrow> bool" where
  "only_asides s s' \<longleftrightarrow> (\<exists>evs. es_history s' = es_history s @ evs \<and> list_all aside evs)"

lemma only_asides_refl [simp]: "only_asides s s"
  by (simp add: only_asides_def)

lemma only_asides_trans: "only_asides s s' \<Longrightarrow> only_asides s' s'' \<Longrightarrow> only_asides s s''"
  unfolding only_asides_def by (metis append.assoc list_all_append)

lemma aside_none: "list_all aside evs \<Longrightarrow> commits_of evs = [] \<and> undos_of evs = []"
  by (induction evs) (auto simp: aside_def split: wf_event.splits)

lemma only_asidesD: "only_asides s s' \<Longrightarrow> commits_of (es_history s') = commits_of (es_history s) \<and> undos_of (es_history s') = undos_of (es_history s)"
  unfolding only_asides_def using aside_none by fastforce

lemma only_asides_exec: "ExecuteActivity rt pol act s = (r, s') \<Longrightarrow> quiet_act act \<Longrightarrow> only_asides s s'"
  using ExecuteActivity_keeps [of rt pol act s r s'] by (simp add: only_asides_def)

lemma only_asides_exec_note: "ExecuteActivity rt pol act s = (r, s') \<Longrightarrow> quiet_act act \<Longrightarrow> aside ev \<Longrightarrow> only_asides s (note_event ev s')"
  using ExecuteActivity_keeps [of rt pol act s r s'] by (simp add: only_asides_def)

lemma only_asides_tell: "only_asides s (tell rt x name n s)"
proof (cases "rt_Version rt notifyVersion")
  case True
  let ?n = "n\<lparr>no_Workflow := name\<rparr>"
  obtain r s1 where e: "ExecuteActivity rt \<lparr>rp_MaximumAttempts = 5, rp_NonRetryable = []\<rparr> (Notify x ?n) s = (r, s1)"
    by (cases "ExecuteActivity rt \<lparr>rp_MaximumAttempts = 5, rp_NonRetryable = []\<rparr> (Notify x ?n) s")
  show ?thesis using True only_asides_exec_note [OF e quiet_activities(7), of "HNotify ?n"] e by (simp add: tell_def aside_def Let_def)
qed (simp add: tell_def)

lemma only_asides_plugins: "only_asides s (runPlugins rt x name step w rcd s)"
proof -
  have "only_asides s (run_plugin rt x name step w rcd s p)" for s p
  proof -
    define i where "i = \<lparr>pi_Plugin = p, pi_Event = wc_Event w, pi_Entity = wc_Entity w, pi_Record = rcd, pi_Workflow = name, pi_RunID = rt_WorkflowID rt, pi_Step = step\<rparr>"
    define pol where "pol = \<lparr>rp_MaximumAttempts = 3, rp_NonRetryable = [ErrTypePlugin]\<rparr>"
    obtain r s1 where e: "ExecuteActivity rt pol (RunPlugin x i) s = (r, s1)"
      by (cases "ExecuteActivity rt pol (RunPlugin x i) s")
    show ?thesis using only_asides_exec_note [OF e quiet_activities(8), of "HPlugin i"] e
      by (simp add: run_plugin_def aside_def Let_def i_def [symmetric] pol_def [symmetric])
  qed
  then have "only_asides s (foldl (run_plugin rt x name step w rcd) s ps)" for ps
    by (induction ps arbitrary: s) (auto intro: only_asides_trans)
  then show ?thesis by (simp add: runPlugins_def)
qed

lemma push_notify_quiet:
  "only_asides s (push_notify rt x push tool st s) \<and> es_channel (push_notify rt x push tool st s) = es_channel s"
proof -
  have "only_asides s (deliver_one rt x s i) \<and> es_channel (deliver_one rt x s i) = es_channel s" for s i
  proof -
    obtain r s1 where e: "ExecuteActivity rt pushRetry (AgentPush x i) s = (r, s1)" by (cases "ExecuteActivity rt pushRetry (AgentPush x i) s")
    show ?thesis using only_asides_exec_note [OF e quiet_activities(9), of "HPush i"] ExecuteActivity_keeps [OF e quiet_activities(9)] e
      by (simp add: deliver_one_def aside_def)
  qed
  then have "only_asides s (foldl (deliver_one rt x) s ins) \<and> es_channel (foldl (deliver_one rt x) s ins) = es_channel s" for ins
    by (induction ins arbitrary: s) (auto intro: only_asides_trans)
  then show ?thesis by (simp add: push_notify_def deliver_def)
qed

text \<open>What may happen between asking a person and waiting for the answer.\<close>

definition quiet_ping :: "(pending_approval \<Rightarrow> ('s, 'w) engine_state \<Rightarrow> ('s, 'w) engine_state) \<Rightarrow> bool" where
  "quiet_ping ping \<longleftrightarrow> (\<forall>p s. only_asides s (ping p s) \<and> es_channel (ping p s) = es_channel s)"

lemma quiet_pings [simp]: "quiet_ping (\<lambda>_ s. s)" "quiet_ping (\<lambda>p. push_notify rt x push tool (st p))"
  by (simp_all add: quiet_ping_def push_notify_quiet)

lemma only_asides_ask:
  assumes "ask_person rt x ping name timeout step req p s = (ap, s')" "quiet_ping ping"
  shows "only_asides s s'"
proof (cases "pr_NeedsApproval p")
  case True
  let ?p = "pending_of rt step req p s"
  let ?s0 = "tell rt x name (approvalPending ?p (pa_Since ?p + timeout)) s"
  let ?s1 = "ping ?p ?s0"
  obtain a s2 where a: "awaitApproval rt ?p timeout ?s1 = (a, s2)" by (cases "awaitApproval rt ?p timeout ?s1")
  have "es_history s2 = es_history ?s1" using a by (auto simp: awaitApproval_def split: prod.split_asm)
  moreover have "only_asides s ?s1" using assms(2) by (auto simp: quiet_ping_def intro: only_asides_trans [OF only_asides_tell])
  ultimately have 2: "only_asides s s2" by (simp add: only_asides_def)
  show ?thesis using assms True a only_asides_trans [OF 2 only_asides_tell] 2 by (auto simp: ask_person_def Let_def split: if_split_asm)
qed (use assms in \<open>simp add: ask_person_def\<close>)

section \<open>Undoing\<close>

definition triple :: "committed_write \<Rightarrow> string \<times> request \<times> raw" where
  "triple c = (cw_step c, cw_request c, cw_result c)"

lemma commit_step_history:
  assumes "commit_step rt x name timeout step w req p v s = (r, s')"
  shows "undos_of (es_history s') = undos_of (es_history s) \<and>
    (case r of Inl e \<Rightarrow> commits_of (es_history s') = commits_of (es_history s)
     | Inr v' \<Rightarrow> \<exists>c. rv_done v' = rv_done v @ [c] \<and> commits_of (es_history s') = commits_of (es_history s) @ [triple c])"
proof -
  obtain ap s1 where ask: "ask_person rt x (\<lambda>_ s. s) name timeout step req p s = (ap, s1)"
    by (cases "ask_person rt x (\<lambda>_ s. s) name timeout step req p s")
  obtain res s2 where ex: "ExecuteActivity rt activityRetry (CommitWrite x req ap) s1 = (res, s2)"
    by (cases "ExecuteActivity rt activityRetry (CommitWrite x req ap) s1")
  have h: "es_history s2 = es_history s1" by (rule ExecuteActivity_keeps(1) [OF ex quiet_activities(4)])
  note 1 = only_asidesD [OF only_asides_ask [OF ask quiet_pings(1)]]
  show ?thesis
  proof (cases res)
    case (Inl e)
    then show ?thesis using assms 1 h by (auto simp: commit_step_def ask ex Let_def)
  next
    case (Inr out)
    let ?s3 = "note_event (HCommit step req ap res) s2"
    let ?c = "\<lparr>cw_step = step, cw_request = req, cw_result = out_Result out\<rparr>"
    have s': "only_asides ?s3 s'" and r: "\<exists>v'. r = Inr v' \<and> rv_done v' = rv_done v @ [?c]"
      using assms Inr only_asides_plugins [of ?s3 rt x name step w] by (auto simp: commit_step_def ask ex Let_def split: if_split_asm)
    have "commits_of (es_history s') = commits_of (es_history s) @ [triple ?c]" "undos_of (es_history s') = undos_of (es_history s)"
      using only_asidesD [OF s'] 1 h Inr by (simp_all add: triple_def)
    then show ?thesis using r by auto
  qed
qed

lemma run_step_history:
  assumes "run_step rt x w timeout source st v s = (r, s')"
  shows "undos_of (es_history s') = undos_of (es_history s) \<and>
    (case r of Inl e \<Rightarrow> commits_of (es_history s') = commits_of (es_history s)
     | Inr v' \<Rightarrow> \<exists>cs. rv_done v' = rv_done v @ cs \<and> commits_of (es_history s') = commits_of (es_history s) @ map triple cs)"
proof -
  let ?goal = ?thesis
  have quiet: ?goal if "only_asides s s'" "\<And>v'. r = Inr v' \<Longrightarrow> rv_done v' = rv_done v"
    using only_asidesD [OF that(1)] that(2) by (cases r) auto
  show ?goal
  proof (cases "wfs_Map st")
    case (Some m)
    obtain r1 s1 where e: "ExecuteActivity rt activityRetry (Map_activity x m (rv_doc v)) s = (r1, s1)"
      by (cases "ExecuteActivity rt activityRetry (Map_activity x m (rv_doc v)) s")
    show ?thesis
      using assms Some e only_asides_exec [OF e quiet_activities(1)] only_asides_exec_note [OF e quiet_activities(1), of "HMap (wfs_Name st)"]
      by (intro quiet) (auto simp: run_step_def aside_def split: sum.split_asm)
  next
    case noMap: None
    show ?thesis
    proof (cases "wfs_Resolve st")
      case (Some c)
      obtain r1 s1 where e: "ExecuteActivity rt activityRetry (Resolve_activity x c (ws_Endpoint (wf_Trigger w)) (rv_doc v)) s = (r1, s1)"
        by (cases "ExecuteActivity rt activityRetry (Resolve_activity x c (ws_Endpoint (wf_Trigger w)) (rv_doc v)) s")
      show ?thesis
        using assms noMap Some e only_asides_exec [OF e quiet_activities(2)]
          only_asides_exec_note [OF e quiet_activities(2), of "HResolve (wfs_Name st)"]
        by (intro quiet) (auto simp: run_step_def aside_def split: sum.split_asm)
    next
      case noResolve: None
      show ?thesis
      proof (cases "wfs_Write st")
        case None
        then show ?thesis using assms noMap noResolve by (intro quiet) (auto simp: run_step_def)
      next
        case (Some wc)
        define pin where "pin = \<lparr>pin_Workflow = wf_Name w, pin_Step = wfs_Name st, pin_Config = wc, pin_Source = source, pin_Doc = rv_doc v\<rparr>"
        obtain r1 s1 where e: "ExecuteActivity rt activityRetry (PrepareWrite x pin) s = (r1, s1)"
          by (cases "ExecuteActivity rt activityRetry (PrepareWrite x pin) s")
        note ws = assms [unfolded run_step_def noMap noResolve Some option.case run_write_def pin_def [symmetric] e prod.case Let_def]
        show ?thesis
        proof (cases r1)
          case (Inl err)
          then show ?thesis using ws only_asides_exec [OF e quiet_activities(3)] by (intro quiet) auto
        next
          case (Inr rp)
          obtain req p where rp: "rp = (req, p)" by (cases rp)
          let ?s2 = "note_event (HPrepare (wfs_Name st) req) s1"
          have a: "only_asides s ?s2" by (rule only_asides_exec_note [OF e quiet_activities(3)]) (simp add: aside_def)
          show ?thesis
          proof (cases "pr_Duplicate p")
            case (Some d)
            then show ?thesis using ws Inr rp a by (intro quiet) auto
          next
            case None
            then have "commit_step rt x (wf_Name w) timeout (wfs_Name st) wc req p v ?s2 = (r, s')" using ws Inr rp by simp
            from commit_step_history [OF this] show ?thesis using only_asidesD [OF a] by (cases r) auto
          qed
        qed
      qed
    qed
  qed
qed

lemma run_steps_history:
  "run_steps rt x w timeout source sts v s = ((v', err), s') \<Longrightarrow> commits_of (es_history s) = map triple (rv_done v) \<Longrightarrow>
     undos_of (es_history s') = undos_of (es_history s) \<and> commits_of (es_history s') = map triple (rv_done v')"
proof (induction sts arbitrary: v s)
  case (Cons st sts)
  obtain r s1 where st: "run_step rt x w timeout source st v s = (r, s1)" by (cases "run_step rt x w timeout source st v s")
  note h = run_step_history [OF st]
  show ?case
  proof (cases r)
    case (Inl e)
    then show ?thesis using Cons(2,3) st h by simp
  next
    case (Inr v1)
    then have rest: "run_steps rt x w timeout source sts v1 s1 = ((v', err), s')" using Cons(2) st by simp
    have "commits_of (es_history s1) = map triple (rv_done v1)" using h Inr Cons(3) by auto
    from Cons(1) [OF rest this] show ?thesis using h by simp
  qed
qed simp

lemma undo_foldl_history:
  "foldl (undo_write rt x) (fails, s) cs = (fails', s') \<Longrightarrow>
     undos_of (es_history s') = undos_of (es_history s) @ map triple cs \<and> commits_of (es_history s') = commits_of (es_history s)"
proof (induction cs arbitrary: fails s)
  case (Cons c cs)
  obtain r s1 where e: "ExecuteActivity rt activityRetry (Compensate_activity x (cw_request c) (cw_result c)) s = (r, s1)"
    by (cases "ExecuteActivity rt activityRetry (Compensate_activity x (cw_request c) (cw_result c)) s")
  have "es_history s1 = es_history s" by (rule ExecuteActivity_keeps(1) [OF e quiet_activities(5)])
  moreover obtain fails1 oe where "undo_write rt x (fails, s) c = (fails1, note_event (HCompensate (cw_step c) (cw_request c) (cw_result c) oe) s1)"
    using e by (cases r) (auto simp: undo_write_def)
  ultimately show ?case using Cons by (auto simp: triple_def)
qed simp

lemma only_asides_refused: "only_asides s (refused rt x w step e n s)"
  by (auto simp: refused_def only_asides_tell split: option.split)

lemma fail_run_history:
  assumes "fail_run rt x w v step e s = ((res, err), s')" "commits_of (es_history s) = map triple (rv_done v)" "undos_of (es_history s) = []"
  shows "err \<noteq> None \<and> commits_of (es_history s') = map triple (rv_done v) \<and> undos_of (es_history s') = rev (map triple (rv_done v))"
proof -
  let ?s1 = "case stewardNeeded e of Some n \<Rightarrow> tell rt x (wf_Name w) n s | None \<Rightarrow> s"
  have "only_asides s ?s1" by (auto simp: only_asides_tell split: option.split)
  note s1 = only_asidesD [OF this]
  show ?thesis
  proof (cases "rv_done v = []")
    case True
    then have s': "s' = refused rt x w step e 0 ?s1" "err = Some e" using assms(1) by (auto simp: fail_run_def Let_def)
    show ?thesis using only_asidesD [OF only_asides_refused [of ?s1 rt x w step e 0]] s' s1 assms(2,3) True by simp
  next
    case False
    obtain fails s2 where u: "undo_writes rt x (rv_done v) ?s1 = (fails, s2)" by (cases "undo_writes rt x (rv_done v) ?s1")
    have h: "undos_of (es_history s2) = map triple (rev (rv_done v))" "commits_of (es_history s2) = map triple (rv_done v)"
      using undo_foldl_history [OF u [unfolded undo_writes_def]] s1 assms(2,3) by simp_all
    have "only_asides s2 s'" "err \<noteq> None"
      using assms(1) False u by (auto simp: fail_run_def Let_def intro: only_asides_refused only_asides_tell split: if_split_asm)
    then show ?thesis using only_asidesD [of s2 s'] h by (simp add: rev_map)
  qed
qed


section \<open>Approvals\<close>

text \<open>The signals a run can see: those in its channel and those that arrive while it waits.\<close>

definition delivered :: "('s, 'w) runtime \<Rightarrow> approval_signal list \<Rightarrow> approval_signal set" where
  "delivered rt ch = set ch \<union> (\<Union>gs. set (fst (rt_Await rt gs)))"

definition approved_by :: "('s, 'w) runtime \<Rightarrow> approval_signal set \<Rightarrow> string \<Rightarrow> request \<Rightarrow> approval \<Rightarrow> bool" where
  "approved_by rt sgs step req a \<longleftrightarrow>
     (\<exists>sg \<in> sgs. as_Step sg = step \<and> as_Digest sg = rt_Digest rt req \<and> as_Status sg = ApprovalApproved \<and> as_By sg = ap_By a)"

lemma await_loop_approved:
  "await_loop p timeout sgs = (a, rest) \<Longrightarrow> set rest \<subseteq> set sgs \<and> (ap_Status a = ApprovalApproved \<longrightarrow>
     (\<exists>sg \<in> set sgs. as_Step sg = pa_Step p \<and> as_Digest sg = pa_Digest p \<and> as_Status sg = ApprovalApproved \<and> as_By sg = ap_By a))"
  by (induction p timeout sgs rule: await_loop.induct) (auto simp: policy_consts split: if_split_asm)

definition channel_in :: "approval_signal set \<Rightarrow> ('s, 'w) engine_state \<Rightarrow> bool" where
  "channel_in sgs s \<longleftrightarrow> set (es_channel s) \<subseteq> sgs"

lemma tell_channel [simp]: "es_channel (tell rt x name n s) = es_channel s"
  using ExecuteActivity_keeps(2) [OF _ quiet_activities(7), of rt "\<lparr>rp_MaximumAttempts = 5, rp_NonRetryable = []\<rparr>" x "n\<lparr>no_Workflow := name\<rparr>" s]
  by (cases "ExecuteActivity rt \<lparr>rp_MaximumAttempts = 5, rp_NonRetryable = []\<rparr> (Notify x (n\<lparr>no_Workflow := name\<rparr>)) s")
    (simp add: tell_def Let_def)

lemma ask_person_approved:
  assumes "ask_person rt x ping name timeout step req p s = (ap, s')" "channel_in sgs s" "\<And>gs. set (fst (rt_Await rt gs)) \<subseteq> sgs"
    and "quiet_ping ping"
  shows "channel_in sgs s' \<and> (\<forall>a. ap = Some a \<longrightarrow> ap_Status a = ApprovalApproved \<longrightarrow> approved_by rt sgs step req a)"
proof (cases "pr_NeedsApproval p")
  case True
  let ?p = "pending_of rt step req p s"
  let ?s1 = "ping ?p (tell rt x name (approvalPending ?p (pa_Since ?p + timeout)) s)"
  have ch: "es_channel ?s1 = es_channel s" using assms(4) by (simp add: quiet_ping_def)
  obtain arrived gs where aw: "rt_Await rt (es_guard ?s1) = (arrived, gs)" by (cases "rt_Await rt (es_guard ?s1)")
  obtain a rest where l: "await_loop ?p timeout (es_channel s @ arrived) = (a, rest)"
    by (cases "await_loop ?p timeout (es_channel s @ arrived)")
  have sub: "set (es_channel s @ arrived) \<subseteq> sgs" using assms(2,3) aw by (auto simp: channel_in_def) (metis fst_conv subsetD)
  have ap: "ap = Some a" "es_channel s' = rest" using assms(1) True aw l ch by (auto simp: ask_person_def awaitApproval_def Let_def split: if_split_asm)
  show ?thesis using await_loop_approved [OF l] sub ap by (fastforce simp: channel_in_def approved_by_def pending_of_def)
qed (use assms in \<open>simp add: ask_person_def\<close>)

text \<open>What must stand behind a write a run committed.\<close>

definition commit_behind :: "('s, 'w) runtime \<Rightarrow> ('s, 'w) activities \<Rightarrow> approval_signal set \<Rightarrow> string \<Rightarrow> request \<Rightarrow> approval option \<Rightarrow> bool" where
  "commit_behind rt x sgs step req ap \<longleftrightarrow>
     (\<exists>(gs :: ('s, 'w) guard_state) r dec.
        generation (gd_Store (ax_Guard x)) (gs_store gs) req = Inr r \<and> granted (ax_Guard x) (gs_world gs) r ap dec)
   \<and> (\<forall>a. ap = Some a \<longrightarrow> approved_by rt sgs step req a)"

definition event_ok :: "('s, 'w) runtime \<Rightarrow> ('s, 'w) activities \<Rightarrow> approval_signal set \<Rightarrow> wf_event \<Rightarrow> bool" where
  "event_ok rt x sgs ev \<longleftrightarrow>
     (\<forall>step req ap out. ev = HCommit step req ap (Inr out) \<longrightarrow> out_Status out = StatusCommitted \<longrightarrow> commit_behind rt x sgs step req ap)"

lemma CommitWrite_granted:
  fixes s0 :: "('s, 'w) engine_state"
  assumes "CommitWrite x req ap s0 = (Inr out, s1)" "out_Status out = StatusCommitted"
  shows "\<exists>(gs :: ('s, 'w) guard_state) r dec. generation (gd_Store (ax_Guard x)) (gs_store gs) req = Inr r \<and> granted (ax_Guard x) (gs_world gs) r ap dec"
proof -
  obtain gs' where "Commit (ax_Guard x) req ap (es_guard s0) = ((out, None), gs')"
    using assms(1) by (auto simp: CommitWrite_def on_guard_def split: prod.split_asm option.split_asm)
  from Commit_granted [OF this] assms(2) show ?thesis by blast
qed

lemma commit_event_ok:
  fixes s :: "('s, 'w) engine_state"
  assumes "ask_person rt x ping name timeout step req p s = (ap, s1)" "channel_in sgs s" "\<And>gs. set (fst (rt_Await rt gs)) \<subseteq> sgs"
    and "quiet_ping ping"
    and "ExecuteActivity rt pol (CommitWrite x req ap) s1 = (res, s2)"
  shows "event_ok rt x sgs (HCommit step req ap res) \<and> channel_in sgs s2"
proof -
  note ask = ask_person_approved [OF assms(1,2,3,4)]
  have ch: "channel_in sgs s2" using ExecuteActivity_keeps(2) [OF assms(5) quiet_activities(4)] ask by (simp add: channel_in_def)
  have "commit_behind rt x sgs step req ap" if out: "res = Inr out" "out_Status out = StatusCommitted" for out
  proof -
    obtain s0 where "CommitWrite x req ap s0 = (Inr out, s2)" using ExecuteActivity_Inr [OF assms(5) [unfolded out(1)]] by blast
    from CommitWrite_granted [OF this out(2)] obtain gs :: "('s, 'w) guard_state" and r dec where
      g: "generation (gd_Store (ax_Guard x)) (gs_store gs) req = Inr r" "granted (ax_Guard x) (gs_world gs) r ap dec" by blast
    then have "ap = Some a \<longrightarrow> ap_Status a = ApprovalApproved" for a by (auto simp: granted_def)
    then show ?thesis unfolding commit_behind_def using g ask by blast
  qed
  then show ?thesis using ch by (auto simp: event_ok_def)
qed

definition hist_ok :: "('s, 'w) runtime \<Rightarrow> ('s, 'w) activities \<Rightarrow> approval_signal set \<Rightarrow> ('s, 'w) engine_state \<Rightarrow> bool" where
  "hist_ok rt x sgs s \<longleftrightarrow> list_all (event_ok rt x sgs) (es_history s) \<and> channel_in sgs s"

lemma hist_ok_asides: "only_asides s s' \<Longrightarrow> channel_in sgs s' \<Longrightarrow> hist_ok rt x sgs s \<Longrightarrow> hist_ok rt x sgs s'"
proof -
  have "aside ev \<Longrightarrow> event_ok rt x sgs ev" for ev by (cases ev) (simp_all add: aside_def event_ok_def)
  then have "list_all aside evs \<Longrightarrow> list_all (event_ok rt x sgs) evs" for evs by (simp add: list_all_iff)
  then show "only_asides s s' \<Longrightarrow> channel_in sgs s' \<Longrightarrow> hist_ok rt x sgs s \<Longrightarrow> hist_ok rt x sgs s'"
    by (auto simp: only_asides_def hist_ok_def)
qed

lemma hist_ok_note: "hist_ok rt x sgs s \<Longrightarrow> event_ok rt x sgs ev \<Longrightarrow> hist_ok rt x sgs (note_event ev s)"
  by (simp add: hist_ok_def channel_in_def)

lemma hist_ok_exec: "ExecuteActivity rt' pol act s = (r, s') \<Longrightarrow> quiet_act act \<Longrightarrow> hist_ok rt x sgs s \<Longrightarrow> hist_ok rt x sgs s'"
  using ExecuteActivity_keeps [of rt' pol act s r s'] by (simp add: hist_ok_def channel_in_def)

lemma hist_ok_tell: "hist_ok rt x sgs s \<Longrightarrow> hist_ok rt x sgs (tell rt' x' name n s)"
  by (rule hist_ok_asides [OF only_asides_tell]) (simp_all add: hist_ok_def channel_in_def)

lemma plugins_channel: "es_channel (runPlugins rt x name step w rcd s) = es_channel s"
proof -
  have "es_channel (run_plugin rt x name step w rcd s p) = es_channel s" for s p
  proof -
    define i where "i = \<lparr>pi_Plugin = p, pi_Event = wc_Event w, pi_Entity = wc_Entity w, pi_Record = rcd, pi_Workflow = name, pi_RunID = rt_WorkflowID rt, pi_Step = step\<rparr>"
    obtain r s1 where "ExecuteActivity rt \<lparr>rp_MaximumAttempts = 3, rp_NonRetryable = [ErrTypePlugin]\<rparr> (RunPlugin x i) s = (r, s1)"
      by (metis prod.exhaust)
    then show ?thesis using ExecuteActivity_keeps(2) [OF _ quiet_activities(8)] by (fastforce simp: run_plugin_def Let_def i_def)
  qed
  then have "es_channel (foldl (run_plugin rt x name step w rcd) s ps) = es_channel s" for ps by (induction ps arbitrary: s) simp_all
  then show ?thesis by (simp add: runPlugins_def)
qed

lemma hist_ok_plugins: "hist_ok rt x sgs s \<Longrightarrow> hist_ok rt x sgs (runPlugins rt' x' name step w rcd s)"
  by (rule hist_ok_asides [OF only_asides_plugins]) (simp_all add: hist_ok_def channel_in_def plugins_channel)

text \<open>Runs whose signals all come from a set: the lemmas hold for any such set, and the set of the signals that can be
  delivered is one.\<close>

locale signals_from =
  fixes rt :: "('s, 'w) runtime" and x :: "('s, 'w) activities" and sgs :: "approval_signal set"
  assumes arrivals: "\<And>gs. set (fst (rt_Await rt gs)) \<subseteq> sgs"
begin

lemma hist_ok_commit_step:
  assumes "commit_step rt x name timeout step w req p v s = (r, s')" "hist_ok rt x sgs s"
  shows "hist_ok rt x sgs s'"
proof -
  obtain ap s1 where ask: "ask_person rt x (\<lambda>_ s. s) name timeout step req p s = (ap, s1)"
    by (cases "ask_person rt x (\<lambda>_ s. s) name timeout step req p s")
  obtain res s2 where ex: "ExecuteActivity rt activityRetry (CommitWrite x req ap) s1 = (res, s2)"
    by (cases "ExecuteActivity rt activityRetry (CommitWrite x req ap) s1")
  have ch: "channel_in sgs s" using assms(2) by (simp add: hist_ok_def)
  have "hist_ok rt x sgs s1" by (rule hist_ok_asides [OF only_asides_ask [OF ask quiet_pings(1)]]) (use ask_person_approved [OF ask ch arrivals quiet_pings(1)] assms(2) in auto)
  then have "hist_ok rt x sgs s2" by (rule hist_ok_exec [OF ex quiet_activities(4)])
  then have "hist_ok rt x sgs (note_event (HCommit step req ap res) s2)"
    by (rule hist_ok_note) (use commit_event_ok [OF ask ch arrivals quiet_pings(1) ex] in blast)
  then show ?thesis using assms(1) hist_ok_plugins by (cases res) (auto simp: commit_step_def ask ex Let_def split: if_split_asm)
qed

lemma hist_ok_run_step:
  assumes "run_step rt x w timeout source st v s = (r, s')" "hist_ok rt x sgs s"
  shows "hist_ok rt x sgs s'"
proof -
  have pl: "event_ok rt x sgs (HMap n)" "event_ok rt x sgs (HResolve n)" "event_ok rt x sgs (HPrepare n req)" for n req
    by (simp_all add: event_ok_def)
  have noted: "hist_ok rt x sgs (note_event ev s1)" if "ExecuteActivity rt activityRetry act s = (r1, s1)" "quiet_act act" "event_ok rt x sgs ev"
    for act :: "('s, 'w, 'b) activity" and r1 s1 ev
    using hist_ok_note [OF hist_ok_exec [OF that(1,2) assms(2)] that(3)] .
  have wr: "hist_ok rt x sgs s'" if "run_write rt x name timeout source n wc v s = (r, s')" for name n wc
    using that hist_ok_exec [OF _ quiet_activities(3) assms(2)] noted [OF _ quiet_activities(3) pl(3)]
    by (fastforce simp: run_write_def Let_def dest: hist_ok_commit_step split: prod.split_asm sum.split_asm option.split_asm)
  show ?thesis
    using assms(1) assms(2) hist_ok_exec [OF _ quiet_activities(1) assms(2)] hist_ok_exec [OF _ quiet_activities(2) assms(2)]
      noted [OF _ quiet_activities(1) pl(1)] noted [OF _ quiet_activities(2) pl(2)] wr
    by (fastforce simp: run_step_def split: prod.split_asm sum.split_asm option.split_asm)
qed

lemma hist_ok_run_steps:
  "run_steps rt x w timeout source sts v s = ((v', err), s') \<Longrightarrow> hist_ok rt x sgs s \<Longrightarrow> hist_ok rt x sgs s'"
  by (induction sts arbitrary: v s) (auto split: prod.split_asm sum.split_asm dest: hist_ok_run_step)

lemma hist_ok_undo: "hist_ok rt x sgs s \<Longrightarrow> foldl (undo_write rt x) (fails, s) cs = (fails', s') \<Longrightarrow> hist_ok rt x sgs s'"
proof (induction cs arbitrary: fails s)
  case (Cons c cs)
  obtain r s1 where e: "ExecuteActivity rt activityRetry (Compensate_activity x (cw_request c) (cw_result c)) s = (r, s1)"
    by (cases "ExecuteActivity rt activityRetry (Compensate_activity x (cw_request c) (cw_result c)) s")
  have "hist_ok rt x sgs (note_event (HCompensate (cw_step c) (cw_request c) (cw_result c) oe) s1)" for oe
    by (rule hist_ok_note [OF hist_ok_exec [OF e quiet_activities(5) Cons(2)]]) (simp add: event_ok_def)
  moreover obtain fails1 oe where "undo_write rt x (fails, s) c = (fails1, note_event (HCompensate (cw_step c) (cw_request c) (cw_result c) oe) s1)"
    using e by (cases r) (auto simp: undo_write_def)
  ultimately show ?case using Cons(1) Cons(3) by (metis foldl_Cons)
qed simp

lemma hist_ok_fail_run:
  assumes "fail_run rt x w v step e s = (res, s')" "hist_ok rt x sgs s"
  shows "hist_ok rt x sgs s'"
proof -
  let ?s1 = "case stewardNeeded e of Some n \<Rightarrow> tell rt x (wf_Name w) n s | None \<Rightarrow> s"
  have s1: "hist_ok rt x sgs ?s1" using assms(2) by (auto intro: hist_ok_tell split: option.split)
  have ref: "hist_ok rt x sgs q \<Longrightarrow> hist_ok rt x sgs (refused rt x w step e n q)" for q n
    by (auto simp: refused_def intro: hist_ok_tell split: option.split)
  obtain fails s2 where u: "undo_writes rt x (rv_done v) ?s1 = (fails, s2)" by (cases "undo_writes rt x (rv_done v) ?s1")
  have "hist_ok rt x sgs s2" by (rule hist_ok_undo [OF s1 u [unfolded undo_writes_def]])
  then show ?thesis using assms(1) s1 u ref by (auto simp: fail_run_def Let_def intro: hist_ok_tell split: if_split_asm)
qed

lemma hist_ok_Integration:
  "IntegrationWorkflow rt x i s = (res, s') \<Longrightarrow> hist_ok rt x sgs s \<Longrightarrow> hist_ok rt x sgs s'"
  by (auto simp: IntegrationWorkflow_def dest: hist_ok_run_steps hist_ok_fail_run split: option.split_asm prod.split_asm)

lemma hist_ok_agentWrite:
  assumes "agentWrite rt x i push s = (res, s')" "hist_ok rt x sgs s"
  shows "hist_ok rt x sgs s'"
proof -
  let ?req = "aw_Request i"
  obtain r1 s1 where p: "ExecuteActivity rt agentRetry (PrepareAgentWrite x ?req) s = (r1, s1)"
    by (cases "ExecuteActivity rt agentRetry (PrepareAgentWrite x ?req) s")
  have s1: "hist_ok rt x sgs s1" by (rule hist_ok_exec [OF p quiet_activities(6) assms(2)])
  then have s2: "hist_ok rt x sgs (note_event (HPrepare AgentStep ?req) s1)" by (rule hist_ok_note) (simp add: event_ok_def)
  have "hist_ok rt x sgs (note_event (HCommit AgentStep req ap res2) s4)"
    if ask: "ask_person rt x (\<lambda>p. push_notify rt x push tool (st p)) name timeout AgentStep req pr (note_event (HPrepare AgentStep ?req) s1) = (ap, s3)"
      and ex: "ExecuteActivity rt agentRetry (CommitWrite x req ap) s3 = (res2, s4)" for tool st name timeout req pr ap s3 res2 s4
  proof -
    have ch: "channel_in sgs (note_event (HPrepare AgentStep ?req) s1)" using s2 by (simp add: hist_ok_def)
    have "hist_ok rt x sgs s3"
      by (rule hist_ok_asides [OF only_asides_ask [OF ask quiet_pings(2)]]) (use ask_person_approved [OF ask ch arrivals quiet_pings(2)] s2 in auto)
    then have "hist_ok rt x sgs s4" by (rule hist_ok_exec [OF ex quiet_activities(4)])
    then show ?thesis by (rule hist_ok_note) (use commit_event_ok [OF ask ch arrivals quiet_pings(2) ex] in blast)
  qed
  then show ?thesis using assms(1) s1 s2 by (fastforce simp: agentWrite_def p Let_def split: sum.split_asm option.split_asm prod.split_asm)
qed

lemma hist_ok_AgentWriteWorkflow:
  assumes "AgentWriteWorkflow rt x i s = (res, s')" "hist_ok rt x sgs s"
  shows "hist_ok rt x sgs s'"
proof -
  let ?push = "startPushes rt (aw_Push i)"
  obtain r e s1 where w: "agentWrite rt x i ?push s = ((r, e), s1)" by (metis prod.exhaust)
  note ok = hist_ok_agentWrite [OF w assms(2)]
  have "s' = push_notify rt x ?push (req_Tool (aw_Request i)) (statusOf r e) s1"
    using assms(1) w by (simp add: AgentWriteWorkflow_def)
  then have "only_asides s1 s'" "es_channel s' = es_channel s1" using push_notify_quiet by blast+
  then show ?thesis using hist_ok_asides [of s1 s' sgs rt x] ok by (simp add: hist_ok_def channel_in_def)
qed

end

interpretation deliv: signals_from rt x "delivered rt ch" for rt x ch
  by unfold_locales (auto simp: delivered_def)


end
