(* ===== verification/Workflow_Demo.thy ===== *)
theory Workflow_Demo
  imports Workflow_Props Guard_Flows
begin

text \<open>
  A small deployment the properties of runs are tried on: the demonstration guard, a recipe whose second
  write has an unresolvable key, and an approver's signal.
\<close>

definition demo_activities :: "(memory_store, calls) activities" where
  "demo_activities =
     \<lparr>ax_Guard = demo_guard memory_ops, ax_Resolver = None, ax_Audit = False, ax_Splink = None, ax_Plugins = None,
      ax_Notifier = None, ax_AgentPush = (\<lambda>i w. (None, w)), ax_JSONata = \<lparr>jn_Compile = (\<lambda>_. None), jn_Eval = (\<lambda>e v. EvalValue v)\<rparr>,
      ax_Math = \<lparr>mth_Log = (\<lambda>q. q), mth_Exp = (\<lambda>q. q)\<rparr>\<rparr>"

definition demo_digest :: "request \<Rightarrow> string" where
  "demo_digest req = req_Target req @ ''/'' @ req_Operation req @ ''/'' @ req_IdempotencyKey req"

text \<open>Nothing gets lost; whoever waits gets one approval of the demonstration write.\<close>

definition demo_runtime :: "(memory_store, calls) runtime" where
  "demo_runtime =
     \<lparr>rt_Lost = (\<lambda>_. False), rt_Pause = (\<lambda>gs. gs),
      rt_Await = (\<lambda>gs. ([\<lparr>as_Step = AgentStep, as_Digest = ''erp/create/k'', as_Status = ApprovalApproved,
        as_By = ''boss'', as_Note = []\<rparr>], gs)),
      rt_Now = (\<lambda>_. 0), rt_Digest = demo_digest, rt_RequiredFields = (\<lambda>_. []), rt_Version = (\<lambda>_. True),
      rt_WorkflowID = ''w'', rt_PushSignals = (\<lambda>_. [])\<rparr>"

definition demo_write_config :: "string \<Rightarrow> write_config" where
  "demo_write_config key =
     \<lparr>wc_Endpoint = ''erp'', wc_Connector = ''erp'', wc_Operation = ''create'', wc_Interface = [], wc_Risk = RiskLow,
      wc_Entity = ''order'', wc_IdempotencyKey = key, wc_Simulation = [], wc_Approval = [], wc_Compensation = ''cancel'',
      wc_Metered = True, wc_Output = [], wc_Event = [], wc_Plugins = [], wc_Amount = [], wc_CheckAmount = None\<rparr>"

definition demo_step :: "string \<Rightarrow> string \<Rightarrow> workflow_step" where
  "demo_step name key = \<lparr>wfs_Name = name, wfs_Map = None, wfs_Resolve = None, wfs_Write = Some (demo_write_config key)\<rparr>"

definition demo_workflow :: workflow where
  "demo_workflow =
     \<lparr>wf_Name = ''orders'', wf_Trigger = \<lparr>ws_Endpoint = ''crm'', ws_Connector = ''crm'', ws_Event = ''won'', ws_Interface = [], ws_Topic = []\<rparr>,
      wf_Steps = [demo_step ''first'' ''o-{{ source.id }}'', demo_step ''second'' ''o-{{ source.no }}''], wf_SLO = None, wf_Policies = []\<rparr>"

definition demo_run :: run_input where
  "demo_run =
     \<lparr>ri_SpecDigest = [], ri_Workflow = demo_workflow,
      ri_Event = \<lparr>re_ID = ''e1'', re_Position = 1, re_Name = ''won'', re_Payload = RawDoc (JObj [(''id'', JStr ''7'')])\<rparr>,
      ri_ApprovalTimeout = 0\<rparr>"

definition demo_engine :: "(memory_store, calls) engine_state" where
  "demo_engine = \<lparr>es_guard = demo_state NewMemoryStore, es_mappers = [], es_channel = [], es_history = []\<rparr>"

lemma execute_numeral: "execute rt final (numeral k) act s =
     (case attempt rt act s of
        (Inr v, s1) \<Rightarrow> (Inr v, s1)
      | (Inl e, s1) \<Rightarrow>
          if pred_numeral k = 0 \<or> \<not> retryable final e then (Inl e, s1)
          else execute rt final (pred_numeral k) act (s1\<lparr>es_guard := rt_Pause rt (es_guard s1)\<rparr>))"
  by (simp add: numeral_eq_Suc)

lemma demo_keys: "isl (Render ''o-{{ source.no }}'' [(''id'', JStr ''7'')] [(''id'', JStr ''7'')])"
  "Render ''o-{{ source.id }}'' [(''id'', JStr ''7'')] [(''id'', JStr ''7'')] = Inr ''o-7''"
  by code_simp+

lemma demo_no_key: obtains e where "Render ''o-{{ source.no }}'' [(''id'', JStr ''7'')] [(''id'', JStr ''7'')] = Inl e"
  using demo_keys(1) by (auto simp: isl_def)

lemmas run_demo = demo_activities_def demo_runtime_def demo_engine_def execute_numeral ExecuteActivity_def attempt_def activityRetry_def
  agentRetry_def on_guard_def insist_def classify_def nonRetryable_def retryable_def error_types note_event_def

definition demo_order :: request where
  "demo_order = demo_request\<lparr>req_Tool := ''create'',
     req_Subject := \<lparr>sub_ID = ''turgon/recipe/orders'', sub_Roles = [RoleOperator], sub_Agent = False, sub_OnBehalfOf = []\<rparr>,
     req_IdempotencyKey := ''o-7'', req_Payload := RawDoc (JObj [(''id'', JStr ''7'')]), req_Entity := ''order'', req_Amount := 0,
     req_Recipe := ''orders'', req_Reason := ''recipe orders step first''\<rparr>"

lemma demo_build: "buildRequest \<lparr>pin_Workflow = ''orders'', pin_Step = ''first'', pin_Config = demo_write_config ''o-{{ source.id }}'',
     pin_Source = [(''id'', JStr ''7'')], pin_Doc = [(''id'', JStr ''7'')]\<rparr> = Inr demo_order"
  by (simp add: buildRequest_def demo_write_config_def demo_keys(2) demo_order_def demo_request_def ReplaceByte_def AmountOf_def amountFields_def)

lemma demo_order_prepared: "\<exists>p s1. Prepare (demo_guard memory_ops) demo_order (demo_state NewMemoryStore) = ((p, None), s1)
     \<and> pr_Duplicate p = None \<and> \<not> pr_NeedsApproval p \<and> pr_AmountMismatch p = None
     \<and> (\<exists>out s2. Commit (demo_guard memory_ops) demo_order None s1 = ((out, None), s2) \<and> out_Status out = StatusCommitted)"
  by (simp add: demo_order_def demo_defs run_guard run_prepare memory_defs NewMemoryStore_def upt_rec)

lemma fail_run_fails: "\<exists>res e s'. fail_run rt x w v step err s = ((res, Some e), s')"
  by (simp add: fail_run_def Let_def split: prod.split)

lemma demo_first:
  obtains s1 v1 where
    "run_step demo_runtime demo_activities demo_workflow t [(''id'', JStr ''7'')] (demo_step ''first'' ''o-{{ source.id }}'')
       \<lparr>rv_doc = [(''id'', JStr ''7'')], rv_writes = [], rv_done = []\<rparr> demo_engine = (Inr v1, s1)"
    "rv_doc v1 = [(''id'', JStr ''7'')]" "length (rv_done v1) = 1"
proof -
  obtain p gs1 out gs2 where p: "Prepare (demo_guard memory_ops) demo_order (demo_state NewMemoryStore) = ((p, None), gs1)"
      "pr_Duplicate p = None" "\<not> pr_NeedsApproval p" "pr_AmountMismatch p = None"
      "Commit (demo_guard memory_ops) demo_order None gs1 = ((out, None), gs2)"
    using demo_order_prepared by blast
  have "\<exists>v1 s1. run_step demo_runtime demo_activities demo_workflow t [(''id'', JStr ''7'')] (demo_step ''first'' ''o-{{ source.id }}'')
       \<lparr>rv_doc = [(''id'', JStr ''7'')], rv_writes = [], rv_done = []\<rparr> demo_engine = (Inr v1, s1)
     \<and> rv_doc v1 = [(''id'', JStr ''7'')] \<and> length (rv_done v1) = 1"
    by (simp add: run_step_def demo_step_def demo_workflow_def run_write_def PrepareWrite_def demo_build run_demo p
        commit_step_def ask_person_def CommitWrite_def withOutput_def) (simp add: demo_write_config_def)
  then show ?thesis using that by blast
qed

lemma demo_run_steps: "wf_Steps demo_workflow = [demo_step ''first'' ''o-{{ source.id }}'', demo_step ''second'' ''o-{{ source.no }}'']"
  by (simp add: demo_workflow_def)

lemma demo_run_fails:
  obtains res e s' where "IntegrationWorkflow demo_runtime demo_activities demo_run demo_engine = ((res, Some e), s')"
proof (rule demo_first [of "approval_timeout 0"])
  fix s1 v1
  assume first: "run_step demo_runtime demo_activities demo_workflow (approval_timeout 0) [(''id'', JStr ''7'')] (demo_step ''first'' ''o-{{ source.id }}'')
       \<lparr>rv_doc = [(''id'', JStr ''7'')], rv_writes = [], rv_done = []\<rparr> demo_engine = (Inr v1, s1)"
    and v1: "rv_doc v1 = [(''id'', JStr ''7'')]" "length (rv_done v1) = 1"
  obtain e where "Render ''o-{{ source.no }}'' [(''id'', JStr ''7'')] [(''id'', JStr ''7'')] = Inl e" by (rule demo_no_key)
  then obtain e1 s2 where "run_step demo_runtime demo_activities demo_workflow (approval_timeout 0) [(''id'', JStr ''7'')]
      (demo_step ''second'' ''o-{{ source.no }}'') v1 s1 = (Inl e1, s2)"
    by (simp add: run_step_def demo_step_def run_write_def demo_workflow_def PrepareWrite_def buildRequest_def demo_write_config_def v1 run_demo)
  then have "run_steps demo_runtime demo_activities demo_workflow (approval_timeout 0) [(''id'', JStr ''7'')] (wf_Steps demo_workflow)
      \<lparr>rv_doc = [(''id'', JStr ''7'')], rv_writes = [], rv_done = []\<rparr> demo_engine = ((v1, Some (''second'', e1)), s2)"
    using first by (simp add: demo_run_steps) (simp add: demo_step_def)
  then have "IntegrationWorkflow demo_runtime demo_activities demo_run demo_engine = fail_run demo_runtime demo_activities demo_workflow v1 ''second'' e1 s2"
    by (simp add: IntegrationWorkflow_def source_of_def demo_run_def)
  then show thesis using fail_run_fails that by metis
qed


text \<open>An agent's risky write waits for a person and commits with their approval.\<close>

definition demo_agent_write :: agent_write_input where
  "demo_agent_write = \<lparr>aw_SpecDigest = [], aw_Request = risky_request, aw_ApprovalTimeout = 0, aw_Push = []\<rparr>"

definition boss_approval :: approval where
  "boss_approval = \<lparr>ap_Status = ApprovalApproved, ap_By = ''boss'', ap_Note = []\<rparr>"

lemma risky_prepared: "\<exists>p s1. Prepare (demo_guard memory_ops) risky_request (demo_state NewMemoryStore) = ((p, None), s1)
     \<and> pr_Duplicate p = None \<and> pr_NeedsApproval p \<and> pr_AmountMismatch p = None
     \<and> (\<exists>out s2. Commit (demo_guard memory_ops) risky_request (Some boss_approval) s1 = ((out, None), s2) \<and> out_Status out = StatusCommitted)"
  by (simp add: risky_request_def boss_approval_def demo_defs run_guard run_prepare memory_defs NewMemoryStore_def upt_rec)

lemma tell_demo [simp]: "es_guard (tell demo_runtime demo_activities name n s) = es_guard s"
  by (simp add: tell_def Let_def run_demo Notify_def)

lemma demo_version: "rt_Version demo_runtime v"
  by (simp add: demo_runtime_def)

lemma no_push: "push_notify demo_runtime demo_activities \<lparr>pu_on = True, pu_configs = []\<rparr> tool st s = s"
  by (simp add: push_notify_def push_inputs_def push_now_def deliver_def demo_runtime_def)

lemma demo_agent_commits:
  obtains res s' out where "AgentWriteWorkflow demo_runtime demo_activities demo_agent_write demo_engine = (res, s')"
    "HCommit AgentStep risky_request (Some boss_approval) (Inr out) \<in> set (es_history s')" "out_Status out = StatusCommitted"
proof -
  obtain p gs1 out gs2 where p: "Prepare (demo_guard memory_ops) risky_request (demo_state NewMemoryStore) = ((p, None), gs1)"
      "pr_Duplicate p = None" "pr_NeedsApproval p" "pr_AmountMismatch p = None"
      "Commit (demo_guard memory_ops) risky_request (Some boss_approval) gs1 = ((out, None), gs2)" "out_Status out = StatusCommitted"
    using risky_prepared by blast
  have prep: "ExecuteActivity demo_runtime agentRetry (PrepareAgentWrite demo_activities risky_request) demo_engine
      = (Inr p, demo_engine\<lparr>es_guard := gs1\<rparr>)"
    by (simp add: PrepareAgentWrite_def run_demo p(1) Has_target_def, simp add: demo_state_def risky_request_def demo_request_def)
  have dg: "demo_digest risky_request = ''erp/create/k''"
    by (simp add: demo_digest_def risky_request_def demo_request_def)
  obtain s3 where ask: "ask_person demo_runtime demo_activities
      (\<lambda>pending. push_notify demo_runtime demo_activities \<lparr>pu_on = True, pu_configs = []\<rparr> (req_Tool risky_request)
         \<lparr>aws_State = AgentWritePending, aws_Write = None, aws_Pending = Some pending, aws_Message = Msg [] []\<rparr>) (''agent/'' @ req_Tool risky_request) (approval_timeout 0) AgentStep risky_request p
      (note_event (HPrepare AgentStep risky_request) (demo_engine\<lparr>es_guard := gs1\<rparr>)) = (Some boss_approval, s3)" "es_guard s3 = gs1"
    using p(3) by (simp add: ask_person_def awaitApproval_def Let_def pending_of_def no_push)
      (simp add: demo_runtime_def demo_engine_def dg boss_approval_def approvalTimeoutActor_def)
  have com: "ExecuteActivity demo_runtime agentRetry (CommitWrite demo_activities risky_request (Some boss_approval)) s3
      = (Inr out, s3\<lparr>es_guard := gs2\<rparr>)"
    by (simp add: CommitWrite_def run_demo ask(2) p(5))
  have "\<exists>res s'. AgentWriteWorkflow demo_runtime demo_activities demo_agent_write demo_engine = (res, s')
     \<and> HCommit AgentStep risky_request (Some boss_approval) (Inr out) \<in> set (es_history s')"
    using ask(1)
    by (simp add: AgentWriteWorkflow_def startPushes_def agentWrite_def demo_agent_write_def prep p(2) insist_def p(4) com demo_version no_push)
  then show ?thesis using that p(6) by blast
qed


end
