(* ===== verification/Workflow_Findings.thy ===== *)
theory Workflow_Findings
  imports Workflow_Demo
begin

text \<open>
  Two behaviours of runs around a commit that is answered as a duplicate: a run cannot tell its own lost
  commit from another run's write.
\<close>

definition plugged_write :: write_config where
  "plugged_write = (demo_write_config ''o-{{ source.id }}'')\<lparr>wc_Plugins := [''scorer''], wc_Event := ''model.SalesOrder.created''\<rparr>"

definition plugged_run :: run_input where
  "plugged_run = demo_run\<lparr>ri_Workflow := demo_workflow\<lparr>wf_Steps :=
     [\<lparr>wfs_Name = ''first'', wfs_Map = None, wfs_Resolve = None, wfs_Write = Some plugged_write\<rparr>]\<rparr>\<rparr>"

text \<open>The worker dies once, right after the target system took the write.\<close>

definition lossy_runtime :: "(memory_store, calls) runtime" where
  "lossy_runtime = demo_runtime\<lparr>rt_Lost := (\<lambda>gs. gs_world gs \<noteq> [] \<and> length (gs_log gs) = 3)\<rparr>"

definition plugin_runs :: "wf_event list \<Rightarrow> plugin_input list" where
  "plugin_runs h = concat (map (\<lambda>ev. case ev of HPlugin i \<Rightarrow> [i] | _ \<Rightarrow> []) h)"

definition order_call :: calls where
  "order_call = [(''create'', ''o-7'', RawDoc (JObj [(''id'', JStr ''7'')]))]"

lemma order_twice: "\<exists>p gs1 out gs2 out2 gs3. Prepare (demo_guard memory_ops) demo_order (demo_state NewMemoryStore) = ((p, None), gs1)
   \<and> pr_Duplicate p = None \<and> \<not> pr_NeedsApproval p \<and> pr_AmountMismatch p = None \<and> gs_world gs1 = []
   \<and> Commit (demo_guard memory_ops) demo_order None gs1 = ((out, None), gs2)
   \<and> out_Status out = StatusCommitted \<and> length (gs_log gs2) = 3 \<and> gs_world gs2 = order_call
   \<and> Commit (demo_guard memory_ops) demo_order None gs2 = ((out2, None), gs3)
   \<and> out_Status out2 = StatusDuplicate \<and> length (gs_log gs3) \<noteq> 3 \<and> gs_world gs3 = order_call"
  by (simp add: order_call_def demo_order_def demo_defs run_guard run_prepare memory_defs NewMemoryStore_def upt_rec)

lemma plugged_build: "buildRequest \<lparr>pin_Workflow = ''orders'', pin_Step = ''first'', pin_Config = plugged_write,
     pin_Source = [(''id'', JStr ''7'')], pin_Doc = [(''id'', JStr ''7'')]\<rparr> = Inr demo_order"
  by (simp add: buildRequest_def plugged_write_def demo_write_config_def demo_keys(2) demo_order_def demo_request_def ReplaceByte_def
      AmountOf_def amountFields_def)

text \<open>A plugin subscribed to a write's event may never run. The commit reaches the target system, its result is lost
  with the worker, the retry is answered as a duplicate: the run ends well with exactly one call to the
  target, and without the plugin.\<close>

theorem lost_result_skips_plugins:
  "\<exists>res s'. IntegrationWorkflow lossy_runtime demo_activities plugged_run demo_engine = ((res, None), s')
     \<and> gs_world (es_guard s') = order_call \<and> plugin_runs (es_history s') = []"
proof -
  obtain p gs1 out gs2 out2 gs3 where o: "Prepare (demo_guard memory_ops) demo_order (demo_state NewMemoryStore) = ((p, None), gs1)"
      "pr_Duplicate p = None" "\<not> pr_NeedsApproval p" "pr_AmountMismatch p = None" "gs_world gs1 = []"
      "Commit (demo_guard memory_ops) demo_order None gs1 = ((out, None), gs2)"
      "length (gs_log gs2) = 3" "gs_world gs2 = order_call"
      "Commit (demo_guard memory_ops) demo_order None gs2 = ((out2, None), gs3)"
      "out_Status out2 = StatusDuplicate" "length (gs_log gs3) \<noteq> 3" "gs_world gs3 = order_call"
    using order_twice by blast
  have prep: "ExecuteActivity lossy_runtime activityRetry (PrepareWrite demo_activities
       \<lparr>pin_Workflow = ''orders'', pin_Step = ''first'', pin_Config = plugged_write, pin_Source = [(''id'', JStr ''7'')],
        pin_Doc = [(''id'', JStr ''7'')]\<rparr>) demo_engine = (Inr (demo_order, p), demo_engine\<lparr>es_guard := gs1\<rparr>)"
    by (simp add: PrepareWrite_def plugged_build lossy_runtime_def run_demo o)
  have com: "ExecuteActivity lossy_runtime activityRetry (CommitWrite demo_activities demo_order None) s = (Inr out2, s\<lparr>es_guard := gs3\<rparr>)"
    if "es_guard s = gs1" for s
    using that by (simp add: CommitWrite_def lossy_runtime_def run_demo o timeout_error_def order_call_def)
  have ask: "ask_person lossy_runtime demo_activities (\<lambda>_ s. s) name timeout step demo_order p s = (None, s)" for name timeout step s
    using o(3) by (simp add: ask_person_def)
  show ?thesis
    by (simp add: IntegrationWorkflow_def plugged_run_def demo_run_def source_of_def demo_workflow_def run_step_def run_write_def prep o(2)
        commit_step_def ask com o(10,12) plugin_runs_def) (simp add: demo_engine_def)
qed

section \<open>Another run's write\<close>

text \<open>Another run has claimed the same write; it commits while this run backs off.\<close>

definition other_outcome :: outcome where
  "other_outcome = (Outcome_of StatusCommitted)\<lparr>out_Result := RawDoc (JStr ''theirs'')\<rparr>"

definition busy_engine :: "(memory_store, calls) engine_state" where
  "busy_engine = demo_engine\<lparr>es_guard := demo_state \<lparr>ms_done = (\<lambda>_. None), ms_inflight = (\<lambda>k. k = ''erp/create/o-7'')\<rparr>\<rparr>"

definition they_commit :: "(memory_store, calls) guard_state \<Rightarrow> (memory_store, calls) guard_state" where
  "they_commit gs = gs\<lparr>gs_store := \<lparr>ms_done = [''erp/create/o-7'' \<mapsto> other_outcome], ms_inflight = (\<lambda>_. False)\<rparr>, gs_world := order_call\<rparr>"

lemma order_theirs: "\<exists>p gs1 out e gs2 gs3. Prepare (demo_guard memory_ops) demo_order (es_guard busy_engine) = ((p, None), gs1)
   \<and> pr_Duplicate p = None \<and> \<not> pr_NeedsApproval p \<and> pr_AmountMismatch p = None \<and> gs_world gs1 = []
   \<and> Commit (demo_guard memory_ops) demo_order None gs1 = ((out, Some e), gs2) \<and> gs_world gs2 = [] \<and> wraps e = [ErrInFlight]
   \<and> Commit (demo_guard memory_ops) demo_order None (they_commit gs2) = ((other_outcome\<lparr>out_Status := StatusDuplicate\<rparr>, None), gs3)"
  by (simp add: Sentinel_def busy_engine_def they_commit_def other_outcome_def demo_order_def demo_defs run_guard run_prepare memory_defs upt_rec)

definition shared_runtime :: "(memory_store, calls) runtime" where
  "shared_runtime = demo_runtime\<lparr>rt_Pause := they_commit\<rparr>"

lemma first_theirs:
  obtains v1 s1 where
    "run_step shared_runtime demo_activities demo_workflow t [(''id'', JStr ''7'')] (demo_step ''first'' ''o-{{ source.id }}'')
       \<lparr>rv_doc = [(''id'', JStr ''7'')], rv_writes = [], rv_done = []\<rparr> busy_engine = (Inr v1, s1)"
    "rv_doc v1 = [(''id'', JStr ''7'')]" "rv_done v1 = [\<lparr>cw_step = ''first'', cw_request = demo_order, cw_result = RawDoc (JStr ''theirs'')\<rparr>]"
    "map wr_Status (rv_writes v1) = [StatusDuplicate]" "commits_of (es_history s1) = map triple (rv_done v1)" "undos_of (es_history s1) = []"
proof -
  obtain p gs1 out e gs2 gs3 where o: "Prepare (demo_guard memory_ops) demo_order (es_guard busy_engine) = ((p, None), gs1)"
      "pr_Duplicate p = None" "\<not> pr_NeedsApproval p" "pr_AmountMismatch p = None" "gs_world gs1 = []"
      "Commit (demo_guard memory_ops) demo_order None gs1 = ((out, Some e), gs2)" "gs_world gs2 = []" "wraps e = [ErrInFlight]"
      "Commit (demo_guard memory_ops) demo_order None (they_commit gs2) = ((other_outcome\<lparr>out_Status := StatusDuplicate\<rparr>, None), gs3)"
    using order_theirs by blast
  have prep: "ExecuteActivity shared_runtime activityRetry (PrepareWrite demo_activities
       \<lparr>pin_Workflow = ''orders'', pin_Step = ''first'', pin_Config = demo_write_config ''o-{{ source.id }}'', pin_Source = [(''id'', JStr ''7'')],
        pin_Doc = [(''id'', JStr ''7'')]\<rparr>) busy_engine = (Inr (demo_order, p), busy_engine\<lparr>es_guard := gs1\<rparr>)"
    using o(1) by (simp add: PrepareWrite_def demo_build shared_runtime_def run_demo o(2-))
  have com: "ExecuteActivity shared_runtime activityRetry (CommitWrite demo_activities demo_order None) s
      = (Inr (other_outcome\<lparr>out_Status := StatusDuplicate\<rparr>), s\<lparr>es_guard := gs3\<rparr>)" if "es_guard s = gs1" for s
    using that by (simp add: CommitWrite_def shared_runtime_def run_demo o plain_error_def errors_Is_def)
  have ask: "ask_person shared_runtime demo_activities (\<lambda>_ s. s) name timeout step demo_order p s = (None, s)" for name timeout step s
    using o(3) by (simp add: ask_person_def)
  have "\<exists>v1 s1. run_step shared_runtime demo_activities demo_workflow t [(''id'', JStr ''7'')] (demo_step ''first'' ''o-{{ source.id }}'')
       \<lparr>rv_doc = [(''id'', JStr ''7'')], rv_writes = [], rv_done = []\<rparr> busy_engine = (Inr v1, s1)
    \<and> rv_doc v1 = [(''id'', JStr ''7'')] \<and> rv_done v1 = [\<lparr>cw_step = ''first'', cw_request = demo_order, cw_result = RawDoc (JStr ''theirs'')\<rparr>]
    \<and> map wr_Status (rv_writes v1) = [StatusDuplicate] \<and> commits_of (es_history s1) = map triple (rv_done v1) \<and> undos_of (es_history s1) = []"
    by (simp add: run_step_def demo_step_def demo_workflow_def run_write_def prep o(2) commit_step_def ask com other_outcome_def)
      (simp add: demo_write_config_def withOutput_def busy_engine_def demo_engine_def triple_def)
  then show ?thesis by (elim exE conjE) (rule that)
qed

text \<open>A run that fails may undo another run's write. The two race on one key; the commit of the one is answered as a
  duplicate (nothing was written by this run), is remembered as this run's write all the same, and when a
  later step fails the other run's write is compensated.\<close>

theorem other_runs_write_is_undone:
  "\<exists>res e s'. IntegrationWorkflow shared_runtime demo_activities demo_run busy_engine = ((res, Some e), s')
     \<and> map wr_Status (rr_Writes res) = [StatusDuplicate]
     \<and> undos_of (es_history s') = [(''first'', demo_order, RawDoc (JStr ''theirs''))]"
proof (rule first_theirs [of "approval_timeout 0"])
  fix v1 s1
  assume first: "run_step shared_runtime demo_activities demo_workflow (approval_timeout 0) [(''id'', JStr ''7'')] (demo_step ''first'' ''o-{{ source.id }}'')
       \<lparr>rv_doc = [(''id'', JStr ''7'')], rv_writes = [], rv_done = []\<rparr> busy_engine = (Inr v1, s1)"
    and v1: "rv_doc v1 = [(''id'', JStr ''7'')]" "rv_done v1 = [\<lparr>cw_step = ''first'', cw_request = demo_order, cw_result = RawDoc (JStr ''theirs'')\<rparr>]"
      "map wr_Status (rv_writes v1) = [StatusDuplicate]" "commits_of (es_history s1) = map triple (rv_done v1)" "undos_of (es_history s1) = []"
  obtain e where "Render ''o-{{ source.no }}'' [(''id'', JStr ''7'')] [(''id'', JStr ''7'')] = Inl e" by (rule demo_no_key)
  then obtain e1 where "run_step shared_runtime demo_activities demo_workflow (approval_timeout 0) [(''id'', JStr ''7'')]
      (demo_step ''second'' ''o-{{ source.no }}'') v1 s1 = (Inl e1, s1)"
    by (simp add: run_step_def demo_step_def run_write_def demo_workflow_def PrepareWrite_def buildRequest_def demo_write_config_def v1
        shared_runtime_def run_demo)
  then have "run_steps shared_runtime demo_activities demo_workflow (approval_timeout 0) [(''id'', JStr ''7'')] (wf_Steps demo_workflow)
      \<lparr>rv_doc = [(''id'', JStr ''7'')], rv_writes = [], rv_done = []\<rparr> busy_engine = ((v1, Some (''second'', e1)), s1)"
    using first by (simp add: demo_run_steps) (simp add: demo_step_def)
  then have run: "IntegrationWorkflow shared_runtime demo_activities demo_run busy_engine = fail_run shared_runtime demo_activities demo_workflow v1 ''second'' e1 s1"
    by (simp add: IntegrationWorkflow_def source_of_def demo_run_def)
  obtain res e2 s' where f: "fail_run shared_runtime demo_activities demo_workflow v1 ''second'' e1 s1 = ((res, Some e2), s')"
    using fail_run_fails by blast
  have "rr_Writes res = rv_writes v1" using f by (auto simp: fail_run_def Let_def split: prod.split_asm if_split_asm)
  then show ?thesis using run f fail_run_history [OF f v1(4,5)] v1(2,3) by (simp add: triple_def)
qed

end
