(* ===== verification/Netguard.thy ===== *)
theory Netguard
  imports Prelude "HOL-Library.Word"
begin

text \<open>
  The network guard, \<open>pkg/netguard/netguard.go\<close>, which keeps requests made on someone else's behalf on
  the public internet, and the part of \<open>net/netip\<close> it decides with: addresses are words, an IPv6 address
  may carry a zone, a prefix is an address and a number of bits. \<open>url.Parse\<close> and the DNS are parameters:
  \<open>CheckURL\<close> takes the parsed URL and the addresses the resolver returns.
\<close>

unbundle bit_operations_syntax

section \<open>Addresses\<close>

datatype addr = Addr4 "32 word" | Addr6 "128 word" string

definition BitLen :: "addr \<Rightarrow> nat" where
  "BitLen ip = (case ip of Addr4 _ \<Rightarrow> 32 | Addr6 _ _ \<Rightarrow> 128)"

definition Is4In6 :: "addr \<Rightarrow> bool" where
  "Is4In6 ip = (case ip of Addr4 _ \<Rightarrow> False | Addr6 w z \<Rightarrow> drop_bit 32 w = 0xffff)"

text \<open>Unmapping drops the zone.\<close>

definition Unmap :: "addr \<Rightarrow> addr" where
  "Unmap ip = (case ip of Addr4 w \<Rightarrow> Addr4 w | Addr6 w z \<Rightarrow> if drop_bit 32 w = 0xffff then Addr4 (ucast w) else Addr6 w z)"

definition hasZone :: "addr \<Rightarrow> bool" where
  "hasZone ip = (case ip of Addr4 _ \<Rightarrow> False | Addr6 _ z \<Rightarrow> z \<noteq> [])"

definition withoutZone :: "addr \<Rightarrow> addr" where
  "withoutZone ip = (case ip of Addr4 w \<Rightarrow> Addr4 w | Addr6 w _ \<Rightarrow> Addr6 w [])"

definition v4 :: "32 word \<Rightarrow> nat \<Rightarrow> 32 word" where
  "v4 w i = drop_bit (24 - 8 * i) w AND 0xff"

definition v6u16 :: "128 word \<Rightarrow> nat \<Rightarrow> 128 word" where
  "v6u16 w i = drop_bit (112 - 16 * i) w AND 0xffff"

definition IsLoopback :: "addr \<Rightarrow> bool" where
  "IsLoopback ip = (case Unmap ip of Addr4 w \<Rightarrow> v4 w 0 = 127 | Addr6 w z \<Rightarrow> w = 1)"

definition IsMulticast :: "addr \<Rightarrow> bool" where
  "IsMulticast ip = (case Unmap ip of Addr4 w \<Rightarrow> v4 w 0 AND 0xf0 = 0xe0 | Addr6 w z \<Rightarrow> drop_bit 120 w = 0xff)"

definition IsLinkLocalUnicast :: "addr \<Rightarrow> bool" where
  "IsLinkLocalUnicast ip =
     (case Unmap ip of Addr4 w \<Rightarrow> v4 w 0 = 169 \<and> v4 w 1 = 254 | Addr6 w z \<Rightarrow> v6u16 w 0 AND 0xffc0 = 0xfe80)"

definition IsPrivate :: "addr \<Rightarrow> bool" where
  "IsPrivate ip =
     (case Unmap ip of
        Addr4 w \<Rightarrow> v4 w 0 = 10 \<or> (v4 w 0 = 172 \<and> v4 w 1 AND 0xf0 = 16) \<or> (v4 w 0 = 192 \<and> v4 w 1 = 168)
      | Addr6 w z \<Rightarrow> drop_bit 120 w AND 0xfe = 0xfc)"

text \<open>The comparison with \<open>::\<close> is one of whole values, zone included.\<close>

definition IsGlobalUnicast :: "addr \<Rightarrow> bool" where
  "IsGlobalUnicast ip \<longleftrightarrow>
     \<not> (ip = Addr4 0 \<or> ip = Addr4 (- 1)) \<and> ip \<noteq> Addr6 0 [] \<and> \<not> IsLoopback ip \<and> \<not> IsMulticast ip \<and> \<not> IsLinkLocalUnicast ip"

section \<open>Prefixes\<close>

record prefix =
  px_Addr :: addr
  px_Bits :: nat

definition mask6 :: "nat \<Rightarrow> 128 word" where
  "mask6 n = NOT (mask (128 - n))"

definition Contains :: "prefix \<Rightarrow> addr \<Rightarrow> bool" where
  "Contains p ip =
     (case (px_Addr p, ip) of
        (Addr4 a, Addr4 w) \<Rightarrow> drop_bit (32 - px_Bits p) (w XOR a) = 0
      | (Addr6 a _, Addr6 w z) \<Rightarrow> z = [] \<and> (w XOR a) AND mask6 (px_Bits p) = 0
      | _ \<Rightarrow> False)"

definition PrefixFrom :: "addr \<Rightarrow> nat \<Rightarrow> prefix" where
  "PrefixFrom a n = \<lparr>px_Addr = withoutZone a, px_Bits = n\<rparr>"

definition Masked :: "prefix \<Rightarrow> prefix" where
  "Masked p =
     p\<lparr>px_Addr := (case px_Addr p of
        Addr4 a \<Rightarrow> Addr4 (a AND NOT (mask (32 - px_Bits p)))
      | Addr6 a z \<Rightarrow> Addr6 (a AND mask6 (px_Bits p)) z)\<rparr>"

definition net4 :: "nat \<Rightarrow> nat \<Rightarrow> nat \<Rightarrow> nat \<Rightarrow> nat \<Rightarrow> prefix" where
  "net4 a b c d n = \<lparr>px_Addr = Addr4 (of_nat (((a * 256 + b) * 256 + c) * 256 + d)), px_Bits = n\<rparr>"

text \<open>A prefix from the first three groups of an IPv6 address; the others are zero.\<close>

definition net6 :: "nat \<Rightarrow> nat \<Rightarrow> nat \<Rightarrow> nat \<Rightarrow> prefix" where
  "net6 a b c n = \<lparr>px_Addr = Addr6 (push_bit 80 (of_nat ((a * 65536 + b) * 65536 + c))) [], px_Bits = n\<rparr>"

section \<open>The guard\<close>

definition notPublic :: "prefix list" where
  "notPublic =
     [net4 100 64 0 0 10, net4 192 0 0 0 24, net4 192 0 2 0 24, net4 198 18 0 0 15, net4 198 51 100 0 24, net4 203 0 113 0 24,
      net4 240 0 0 0 4, net6 0x64 0xff9b 0 96, net6 0x64 0xff9b 1 48, net6 0x2001 0 0 32, net6 0x2001 0xdb8 0 32, net6 0x2002 0 0 16]"

definition allowed :: "prefix list \<Rightarrow> addr \<Rightarrow> bool" where
  "allowed al ip = list_ex (\<lambda>p. Contains p (Unmap ip)) al"

definition permitted :: "prefix list \<Rightarrow> addr \<Rightarrow> bool" where
  "permitted al ip0 =
     (let ip = Unmap ip0
      in if list_ex (\<lambda>p. Contains p ip) al then True
         else if \<not> IsGlobalUnicast ip \<or> IsPrivate ip then False
         else \<not> list_ex (\<lambda>p. Contains p ip) notPublic)"

record url =
  u_Scheme :: string
  u_Host :: string
  u_User :: bool
  u_Hostname :: string

fun check_addrs :: "prefix list \<Rightarrow> url \<Rightarrow> addr list \<Rightarrow> goerror option" where
  "check_addrs al u [] = None"
| "check_addrs al u (ip # ips) =
     (if \<not> permitted al ip then
        Some (New_err ''%s is not a public address; Turgon only calls public addresses, or ranges its operators allow'' [AStr (u_Hostname u)])
      else if u_Scheme u = ''http'' \<and> \<not> allowed al ip then Some (New_err ''the URL must use https'' [])
      else check_addrs al u ips)"

section \<open>Reading addresses\<close>

definition parse_octet :: "string \<Rightarrow> nat option" where
  "parse_octet s =
     (if s = [] \<or> \<not> list_all is_digit s \<or> (1 < length s \<and> hd s = CHR ''0'') \<or> 255 < digits_val s then None else Some (digits_val s))"

definition parseIPv4Fields :: "string \<Rightarrow> nat option" where
  "parseIPv4Fields s =
     (case map parse_octet (Split (CHR ''.'') s) of
        [Some a, Some b, Some c, Some d] \<Rightarrow> Some (((a * 256 + b) * 256 + c) * 256 + d)
      | _ \<Rightarrow> None)"

definition hex_val :: "char \<Rightarrow> nat option" where
  "hex_val c = (let n = (of_char c :: nat) in
     if 48 \<le> n \<and> n \<le> 57 then Some (n - 48)
     else if 97 \<le> n \<and> n \<le> 102 then Some (n - 87)
     else if 65 \<le> n \<and> n \<le> 70 then Some (n - 55) else None)"

definition hex_group :: "string \<Rightarrow> nat" where
  "hex_group s = foldl (\<lambda>acc c. 16 * acc + the (hex_val c)) 0 s"

text \<open>The loop of \<open>parseIPv6\<close>: the 16-bit groups read so far, where the ellipsis stands among them, and the rest of
  the string. The result is the groups and the position of the ellipsis.\<close>

function parse_groups :: "string \<Rightarrow> nat list \<Rightarrow> nat option \<Rightarrow> (nat list \<times> nat option) option" where
  "parse_groups s gs el =
     (if length gs \<ge> 8 then (if s = [] then Some (gs, el) else None)
      else let ds = takeWhile (\<lambda>c. hex_val c \<noteq> None) s; rest = drop (length ds) s
        in if ds = [] \<or> 4 < length ds then None
           else if rest \<noteq> [] \<and> hd rest = CHR ''.'' then
             (if (el = None \<and> length gs \<noteq> 6) \<or> 6 < length gs then None
              else map_option (\<lambda>v. (gs @ [v div 65536, v mod 65536], el)) (parseIPv4Fields s))
           else let gs1 = gs @ [hex_group ds]
             in case rest of
                  [] \<Rightarrow> Some (gs1, el)
                | c # s1 \<Rightarrow>
                    if c \<noteq> CHR '':'' \<or> s1 = [] then None
                    else if hd s1 = CHR '':'' then
                      (if el \<noteq> None then None
                       else if tl s1 = [] then Some (gs1, Some (length gs1)) else parse_groups (tl s1) gs1 (Some (length gs1)))
                    else parse_groups s1 gs1 el)"
  by pat_completeness auto

termination parse_groups
  by (relation "measure (\<lambda>(s, gs, el). 8 - length gs)") auto

definition expand :: "nat list \<Rightarrow> nat option \<Rightarrow> nat list option" where
  "expand gs el =
     (if length gs < 8 then map_option (\<lambda>k. take k gs @ replicate (8 - length gs) 0 @ drop k gs) el
      else if el = None then Some gs else None)"

definition of_groups :: "nat list \<Rightarrow> 128 word" where
  "of_groups gs = foldl (\<lambda>w g. push_bit 16 w OR of_nat g) 0 gs"

definition parseIPv6 :: "string \<Rightarrow> addr option" where
  "parseIPv6 inp =
     (case CutByte (CHR ''%'') inp of
        (s, zone) \<Rightarrow>
          if zone = Some [] then None
          else let z = (case zone of None \<Rightarrow> [] | Some z' \<Rightarrow> z')
            in if HasPrefix s ''::'' then
                 (if length s = 2 then Some (Addr6 0 z)
                  else Option.bind (parse_groups (drop 2 s) [] (Some 0)) (\<lambda>(gs, el). map_option (\<lambda>g. Addr6 (of_groups g) z) (expand gs el)))
               else Option.bind (parse_groups s [] None) (\<lambda>(gs, el). map_option (\<lambda>g. Addr6 (of_groups g) z) (expand gs el)))"

definition ParseAddr :: "string \<Rightarrow> addr option" where
  "ParseAddr s =
     (case filter (\<lambda>c. c \<in> {CHR ''.'', CHR '':'', CHR ''%''}) s of
        [] \<Rightarrow> None
      | c # _ \<Rightarrow>
          if c = CHR ''.'' then map_option (\<lambda>v. Addr4 (of_nat v)) (parseIPv4Fields s)
          else if c = CHR '':'' then parseIPv6 s else None)"

definition ParsePrefix :: "string \<Rightarrow> prefix option" where
  "ParsePrefix s =
     (case CutLast (CHR ''/'') s of
        None \<Rightarrow> None
      | Some (a, bits) \<Rightarrow>
          (case ParseAddr a of
             None \<Rightarrow> None
           | Some ip \<Rightarrow>
               if hasZone ip \<or> (1 < length bits \<and> \<not> (CHR ''1'' \<le> hd bits \<and> hd bits \<le> CHR ''9'')) then None
               else case Atoi bits of
                 None \<Rightarrow> None
               | Some n \<Rightarrow> if n < 0 \<or> int (BitLen ip) < n then None else Some (PrefixFrom ip (nat n))))"

definition resolve :: "(string \<Rightarrow> goerror + addr list) \<Rightarrow> string \<Rightarrow> goerror + addr list" where
  "resolve LookupNetIP host =
     (case ParseAddr host of
        Some ip \<Rightarrow> Inr [ip]
      | None \<Rightarrow>
          (case LookupNetIP host of
             Inl e \<Rightarrow> Inl e
           | Inr [] \<Rightarrow> Inl (New_err ''no addresses'' [])
           | Inr ips \<Rightarrow> Inr ips))"

definition CheckURL :: "prefix list \<Rightarrow> (string \<Rightarrow> goerror + addr list) \<Rightarrow> url option \<Rightarrow> goerror option" where
  "CheckURL al LookupNetIP parsed =
     (case parsed of
        None \<Rightarrow> Some (New_err ''the URL must be https://host/path, without credentials in it'' [])
      | Some u \<Rightarrow>
          if u_Host u = [] \<or> u_User u \<or> u_Scheme u \<notin> {''https'', ''http''} then
            Some (New_err ''the URL must be https://host/path, without credentials in it'' [])
          else (case resolve LookupNetIP (u_Hostname u) of
            Inl e \<Rightarrow> Some (New_err ''%s does not resolve: %v'' [AStr (u_Hostname u), AErr (text_of e)])
          | Inr ips \<Rightarrow> check_addrs al u ips))"

text \<open>What the dialer of \<open>Client\<close> refuses: the address it is about to connect to, when it can be read.\<close>

definition dial_control :: "prefix list \<Rightarrow> addr option \<Rightarrow> bool" where
  "dial_control al ap = (case ap of None \<Rightarrow> False | Some ip \<Rightarrow> permitted al ip)"

fun ParseAllow_loop :: "string list \<Rightarrow> prefix list \<Rightarrow> goerror + prefix list" where
  "ParseAllow_loop [] out = Inr out"
| "ParseAllow_loop (f0 # fs) out =
     (let f = TrimSpace f0
      in if f = [] then ParseAllow_loop fs out
         else case ParsePrefix f of
           Some p \<Rightarrow> ParseAllow_loop fs (out @ [Masked p])
         | None \<Rightarrow>
             (case ParseAddr f of
                None \<Rightarrow> Inl (New_err ''%q is not a CIDR or an address'' [AStr f])
              | Some a \<Rightarrow> ParseAllow_loop fs (out @ [Masked (PrefixFrom a (BitLen a))])))"

definition ParseAllow :: "string \<Rightarrow> goerror + prefix list" where
  "ParseAllow s = ParseAllow_loop (Split (CHR '','') s) []"

end
