(* ===== verification/Netguard_Props.thy ===== *)
theory Netguard_Props
  imports Netguard
begin

text \<open>
  What the network guard lets through, compared with a table of address ranges; the hole a zone makes in
  it; and the ranges an operator may allow.
\<close>

section \<open>Fields of words\<close>

lemma and_shifted_mask: "(x :: 'a::len word) AND push_bit k (mask n) = push_bit k (take_bit n (drop_bit k x))"
  by (rule bit_word_eqI) (auto simp: bit_simps)

lemma drop_push: "drop_bit k (push_bit k (y :: 'a::len word)) = take_bit (LENGTH('a) - k) y"
  by (rule bit_word_eqI) (auto simp: bit_simps)

lemma push_bit_eq_iff:
  fixes y c :: "'a::len word"
  assumes "take_bit (LENGTH('a) - k) y = y" "take_bit (LENGTH('a) - k) c = c"
  shows "push_bit k y = push_bit k c \<longleftrightarrow> y = c"
proof
  assume "push_bit k y = push_bit k c"
  then have "drop_bit k (push_bit k y) = drop_bit k (push_bit k c)" by simp
  then show "y = c" using assms by (simp add: drop_push)
qed simp

lemma field_iff:
  fixes x c :: "'a::len word"
  assumes "k + n \<le> LENGTH('a)" "take_bit n c = c"
  shows "x AND push_bit k (mask n) = push_bit k c \<longleftrightarrow> take_bit n (drop_bit k x) = c"
proof -
  have "take_bit (LENGTH('a) - k) (take_bit n y) = take_bit n y" for y :: "'a word" using assms(1) by (simp add: min_absorb1)
  then show ?thesis using push_bit_eq_iff [of k "take_bit n (drop_bit k x)" c] assms(2) by (metis and_shifted_mask)
qed

lemma xor_zero_iff: "(a :: 'a::len word) XOR b = 0 \<longleftrightarrow> a = b"
  by (metis xor_self_eq xor.assoc xor.right_neutral xor.left_neutral)

lemma and_not_mask_iff: "(x :: 'a::len word) AND NOT (mask k) = 0 \<longleftrightarrow> drop_bit k x = 0"
proof -
  have "x AND NOT (mask k) = push_bit k (drop_bit k x)" by (rule bit_word_eqI) (auto simp: bit_simps)
  moreover have "drop_bit k (push_bit k (drop_bit k x)) = drop_bit k x"
    by (rule bit_word_eqI) (auto simp: bit_simps dest: bit_imp_le_length)
  ultimately show ?thesis by (metis drop_bit_of_0 push_bit_of_0)
qed

text \<open>A value is its upper part and its lower part.\<close>

lemma parts_iff:
  fixes x a b :: "'a::len word"
  assumes "drop_bit n c = a" "take_bit n c = b"
  shows "drop_bit n x = a \<and> take_bit n x = b \<longleftrightarrow> x = c"
  using assms by (metis bits_ident)

section \<open>Ranges\<close>

lemma take_drop_top: "take_bit n (drop_bit k w) = drop_bit k w" if "LENGTH('a) \<le> n + k" for w :: "'a::len word"
  using that by (intro bit_word_eqI) (auto simp: bit_simps dest: bit_imp_le_length)

lemma v4_take: "v4 w i = take_bit 8 (drop_bit (24 - 8 * i) w)"
proof -
  have "(0xff :: 32 word) = mask 8" by (simp add: mask_eq_exp_minus_1)
  then show ?thesis by (simp only: v4_def take_bit_eq_mask)
qed

lemma v4_first: "v4 w 0 = drop_bit 24 w"
  using take_drop_top [where n = 8 and k = 24 and w = w] by (simp add: v4_take)

lemma octet_high: "take_bit 8 (x :: 32 word) AND 0xf0 = push_bit 4 c \<longleftrightarrow> take_bit 4 (drop_bit 4 x) = c" if "take_bit 4 c = c"
proof -
  have "(0xf0 :: 32 word) = push_bit 4 (mask 4)" by (simp add: mask_eq_exp_minus_1 push_bit_eq_mult)
  then have "take_bit 8 x AND 0xf0 = push_bit 4 c \<longleftrightarrow> take_bit 4 (drop_bit 4 (take_bit 8 x)) = c" using field_iff [of 4 4 c] that by simp
  moreover have "take_bit 4 (drop_bit 4 (take_bit 8 x)) = take_bit 4 (drop_bit 4 x)" by (rule bit_word_eqI) (auto simp: bit_simps)
  ultimately show ?thesis by simp
qed

lemma Contains4: "Contains \<lparr>px_Addr = Addr4 a, px_Bits = n\<rparr> (Addr4 w) \<longleftrightarrow> drop_bit (32 - n) w = drop_bit (32 - n) a"
  by (simp add: Contains_def xor_zero_iff)

lemma Contains6: "Contains \<lparr>px_Addr = Addr6 a y, px_Bits = n\<rparr> (Addr6 w []) \<longleftrightarrow> drop_bit (128 - n) w = drop_bit (128 - n) a"
  by (simp add: Contains_def mask6_def and_not_mask_iff xor_zero_iff)

lemma Contains_other [simp]:
  "\<not> Contains \<lparr>px_Addr = Addr6 a y, px_Bits = n\<rparr> (Addr4 w)" "\<not> Contains \<lparr>px_Addr = Addr4 b, px_Bits = n\<rparr> (Addr6 v z)"
  by (simp_all add: Contains_def)

text \<open>The special ranges of \<open>net/netip\<close>, written as prefixes.\<close>

definition reserved4 :: "prefix list" where
  "reserved4 = [net4 0 0 0 0 32, net4 255 255 255 255 32, net4 127 0 0 0 8, net4 224 0 0 0 4, net4 169 254 0 0 16,
     net4 10 0 0 0 8, net4 172 16 0 0 12, net4 192 168 0 0 16]"

definition reserved6 :: "prefix list" where
  "reserved6 = [net6 0 0 0 128, \<lparr>px_Addr = Addr6 1 [], px_Bits = 128\<rparr>, net6 0xff00 0 0 8, net6 0xfe80 0 0 10, net6 0xfc00 0 0 7]"

definition special_ranges :: "prefix list" where
  "special_ranges = reserved4 @ reserved6 @ notPublic"

lemma ranges4:
  "Contains (net4 127 0 0 0 8) (Addr4 w) \<longleftrightarrow> v4 w 0 = 127"
  "Contains (net4 224 0 0 0 4) (Addr4 w) \<longleftrightarrow> v4 w 0 AND 0xf0 = 0xe0"
  "Contains (net4 169 254 0 0 16) (Addr4 w) \<longleftrightarrow> v4 w 0 = 169 \<and> v4 w 1 = 254"
  "Contains (net4 10 0 0 0 8) (Addr4 w) \<longleftrightarrow> v4 w 0 = 10"
  "Contains (net4 172 16 0 0 12) (Addr4 w) \<longleftrightarrow> v4 w 0 = 172 \<and> v4 w 1 AND 0xf0 = 16"
  "Contains (net4 192 168 0 0 16) (Addr4 w) \<longleftrightarrow> v4 w 0 = 192 \<and> v4 w 1 = 168"
proof -
  show "Contains (net4 127 0 0 0 8) (Addr4 w) \<longleftrightarrow> v4 w 0 = 127" "Contains (net4 10 0 0 0 8) (Addr4 w) \<longleftrightarrow> v4 w 0 = 10"
    by (simp_all add: net4_def Contains4 v4_first)
  have "v4 w 0 AND 0xf0 = 0xe0 \<longleftrightarrow> take_bit 4 (drop_bit 4 (drop_bit 24 w)) = 0xe"
    using octet_high [of "0xe" "drop_bit 24 w"] by (simp add: v4_take push_bit_eq_mult)
  then show "Contains (net4 224 0 0 0 4) (Addr4 w) \<longleftrightarrow> v4 w 0 AND 0xf0 = 0xe0"
    using take_drop_top [where n = 4 and k = 28 and w = w] by (simp add: net4_def Contains4)
  have pair: "v4 w 0 = a \<and> v4 w 1 = b \<longleftrightarrow> drop_bit 16 w = c" if "drop_bit 8 c = a" "take_bit 8 c = b" for a b c
    using parts_iff [OF that, of "drop_bit 16 w"] by (simp add: v4_first v4_take [of w "Suc 0"])
  show "Contains (net4 169 254 0 0 16) (Addr4 w) \<longleftrightarrow> v4 w 0 = 169 \<and> v4 w 1 = 254"
    "Contains (net4 192 168 0 0 16) (Addr4 w) \<longleftrightarrow> v4 w 0 = 192 \<and> v4 w 1 = 168"
    using pair [of "0xa9fe" 169 254] pair [of "0xc0a8" 192 168] by (simp_all add: net4_def Contains4)
  have "v4 w 1 AND 0xf0 = 16 \<longleftrightarrow> take_bit 4 (drop_bit 20 w) = 1"
    using octet_high [of 1 "drop_bit 16 w"] by (simp add: v4_take push_bit_eq_mult)
  then show "Contains (net4 172 16 0 0 12) (Addr4 w) \<longleftrightarrow> v4 w 0 = 172 \<and> v4 w 1 AND 0xf0 = 16"
    using parts_iff [of 4 "0xac1" "172" 1 "drop_bit 20 w"] by (simp add: net4_def Contains4 v4_first)
qed

lemma ranges6:
  "Contains (net6 0xff00 0 0 8) (Addr6 w []) \<longleftrightarrow> drop_bit 120 w = 0xff"
  "Contains (net6 0xfe80 0 0 10) (Addr6 w []) \<longleftrightarrow> v6u16 w 0 AND 0xffc0 = 0xfe80"
  "Contains (net6 0xfc00 0 0 7) (Addr6 w []) \<longleftrightarrow> drop_bit 120 w AND 0xfe = 0xfc"
proof -
  show "Contains (net6 0xff00 0 0 8) (Addr6 w []) \<longleftrightarrow> drop_bit 120 w = 0xff"
    by (simp add: net6_def Contains6 push_bit_eq_mult)
  have m: "(0xffc0 :: 128 word) = push_bit 6 (mask 10)" "(0xfe80 :: 128 word) = push_bit 6 0x3fa" "(0xfe :: 128 word) = push_bit 1 (mask 7)"
    "(0xfc :: 128 word) = push_bit 1 0x7e" "(0xffff :: 128 word) = mask 16"
    by (simp_all add: mask_eq_exp_minus_1 push_bit_eq_mult)
  have "v6u16 w 0 = drop_bit 112 w" using take_drop_top [where n = 16 and k = 112 and w = w]
    by (simp only: v6u16_def m take_bit_eq_mask [symmetric]) simp
  then have "v6u16 w 0 AND 0xffc0 = 0xfe80 \<longleftrightarrow> take_bit 10 (drop_bit 118 w) = 0x3fa"
    unfolding m using field_iff [of 6 10 "0x3fa :: 128 word" "drop_bit 112 w"] by simp
  then show "Contains (net6 0xfe80 0 0 10) (Addr6 w []) \<longleftrightarrow> v6u16 w 0 AND 0xffc0 = 0xfe80"
    using take_drop_top [where n = 10 and k = 118 and w = w] by (simp add: net6_def Contains6 push_bit_eq_mult)
  have "drop_bit 120 w AND 0xfe = 0xfc \<longleftrightarrow> take_bit 7 (drop_bit 121 w) = 0x7e"
    unfolding m using field_iff [of 1 7 "0x7e :: 128 word" "drop_bit 120 w"] by simp
  then show "Contains (net6 0xfc00 0 0 7) (Addr6 w []) \<longleftrightarrow> drop_bit 120 w AND 0xfe = 0xfc"
    using take_drop_top [where n = 7 and k = 121 and w = w] by (simp add: net6_def Contains6 push_bit_eq_mult)
qed

lemma single_ranges:
  "Contains (net4 0 0 0 0 32) (Addr4 w) \<longleftrightarrow> w = 0" "Contains (net4 255 255 255 255 32) (Addr4 w) \<longleftrightarrow> w = - 1"
  "Contains (net6 0 0 0 128) (Addr6 v []) \<longleftrightarrow> v = 0" "Contains \<lparr>px_Addr = Addr6 1 [], px_Bits = 128\<rparr> (Addr6 v []) \<longleftrightarrow> v = 1"
proof -
  have "(- 1 :: 32 word) = 4294967295" by simp
  then show "Contains (net4 255 255 255 255 32) (Addr4 w) \<longleftrightarrow> w = - 1" by (simp only:) (simp add: net4_def Contains4)
qed (simp_all add: net4_def net6_def Contains4 Contains6)

lemma Unmap_idem [simp]: "Unmap (Unmap ip) = Unmap ip"
  by (auto simp: Unmap_def split: addr.split)

lemma net_other [simp]: "\<not> Contains (net6 a b c n) (Addr4 w)" "\<not> Contains (net4 a b c d n) (Addr6 v z)"
  by (simp_all add: net4_def net6_def)

lemma zone_outside [simp]: "z \<noteq> [] \<Longrightarrow> \<not> Contains p (Addr6 w z)"
  by (simp add: Contains_def split: addr.split)

text \<open>What an unmapped address without a zone is, in terms of the table.\<close>

lemma global_table:
  assumes "ip = Unmap ip" "\<not> hasZone ip"
  shows "IsGlobalUnicast ip \<and> \<not> IsPrivate ip \<longleftrightarrow> \<not> list_ex (\<lambda>p. Contains p ip) (reserved4 @ reserved6)"
proof (cases ip)
  case (Addr4 w)
  then show ?thesis
    by (auto simp: IsGlobalUnicast_def IsPrivate_def IsLoopback_def IsMulticast_def IsLinkLocalUnicast_def Unmap_def
        reserved4_def reserved6_def ranges4 single_ranges)
next
  case (Addr6 w z)
  then have z: "z = []" "drop_bit 32 w \<noteq> 0xffff" using assms by (auto simp: hasZone_def Unmap_def split: if_split_asm)
  then show ?thesis using Addr6
    by (auto simp: IsGlobalUnicast_def IsPrivate_def IsLoopback_def IsMulticast_def IsLinkLocalUnicast_def Unmap_def
        reserved4_def reserved6_def ranges6 single_ranges)
qed



text \<open>C38: a zone opens the guard. The table is not consulted for an address with a zone, and the unspecified address with a
  zone counts as global unicast: the guard lets \<open>::%1\<close> (this host) and \<open>64:ff9b::7f00:1%1\<close> (a private
  address behind NAT64) pass, and refuses both without the zone.\<close>

theorem zone_opens_the_guard:
  "permitted [] (Addr6 0 ''1'') \<and> \<not> permitted [] (Addr6 0 [])
   \<and> permitted [] (Addr6 0x64ff9b00000000000000007f000001 ''1'') \<and> \<not> permitted [] (Addr6 0x64ff9b00000000000000007f000001 [])
   \<and> ParseAddr ''::%1'' = Some (Addr6 0 ''1'')"
proof -
  let ?nat64 = "0x64ff9b00000000000000007f000001 :: 128 word"
  have "Contains (net6 0x64 0xff9b 0 96) (Addr6 ?nat64 [])" by (simp add: net6_def Contains6 push_bit_eq_mult)
  then have "\<not> permitted [] (Addr6 ?nat64 [])" by (simp add: permitted_def Unmap_def notPublic_def Let_def)
  moreover have "permitted [] (Addr6 ?nat64 ''1'')" "permitted [] (Addr6 0 ''1'')" "\<not> permitted [] (Addr6 0 [])"
    by (simp_all add: permitted_def Unmap_def notPublic_def IsGlobalUnicast_def IsPrivate_def IsLoopback_def IsMulticast_def
        IsLinkLocalUnicast_def v6u16_def)
  moreover have "ParseAddr ''::%1'' = Some (Addr6 0 ''1'')" by code_simp
  ultimately show ?thesis by blast
qed

end
