(* ===== verification/Agent.thy ===== *)
theory Agent
  imports Workflow Netguard
begin

text \<open>
  Agents, \<open>pkg/agent\<close>: who is calling (\<open>auth.go\<close>), the tools an agent sees and the governed reads and
  writes behind them (\<open>server.go\<close>, \<open>write.go\<close>), the roles the gateway asks for (\<open>gateway.go\<close>), and the
  client of the write workflow, \<open>AgentWrites\<close> of \<open>pkg/engine/agent.go\<close>. What the Temporal server answers
  is a parameter; the runs it knows are a map from workflow IDs to the input and settings of a run.
  HTTP, MCP and A2A framing are left out.
\<close>

section \<open>Identity\<close>

record identity =
  id_Agent :: string
  id_OnBehalfOf :: string
  id_Roles :: "string list"

record gateway_auth =
  ga_Trusted :: "prefix list"
  ga_AgentHeader :: string
  ga_UserHeader :: string
  ga_RolesHeader :: string

text \<open>A request as the server sees it: the remote address, when \<open>RemoteAddr\<close> holds one, the path, and the headers by
  canonical name.\<close>

record http_request =
  hr_Remote :: "addr option"
  hr_Path :: string
  hr_Header :: "string \<Rightarrow> string"

definition or_default :: "string \<Rightarrow> string \<Rightarrow> string" where
  "or_default v d = (if v = [] then d else v)"

definition Authenticate :: "gateway_auth \<Rightarrow> http_request \<Rightarrow> identity option" where
  "Authenticate g r =
     (case hr_Remote r of
        None \<Rightarrow> None
      | Some ip \<Rightarrow>
          if \<not> list_ex (\<lambda>p. Contains p (Unmap ip)) (ga_Trusted g) then None
          else let ah = or_default (ga_AgentHeader g) ''X-Agent-Id'';
                   uh = or_default (ga_UserHeader g) ''X-On-Behalf-Of'';
                   rh = or_default (ga_RolesHeader g) ''X-Agent-Roles'';
                   agent = TrimSpace (hr_Header r ah)
            in if agent = [] then None
               else Some \<lparr>id_Agent = agent, id_OnBehalfOf = TrimSpace (hr_Header r uh),
                          id_Roles = filter (\<lambda>x. x \<noteq> []) (map TrimSpace (Split (CHR '','') (hr_Header r rh)))\<rparr>)"

definition identityHeader :: string where "identityHeader = ''X-Turgon-Identity''"
definition a2aPath :: string where "a2aPath = ''/a2a''"

text \<open>The answer of \<open>ServeHTTP\<close>: the handler a request goes to. \<open>encode\<close> is the JSON of an identity.\<close>

datatype served = Healthz | Unauthorized | ServeA2A identity http_request | ServeMCP http_request

definition ServeHTTP :: "(http_request \<Rightarrow> identity option) \<Rightarrow> (identity \<Rightarrow> string) \<Rightarrow> http_request \<Rightarrow> served" where
  "ServeHTTP auth encode r =
     (if hr_Path r = ''/healthz'' then Healthz
      else case auth r of
        None \<Rightarrow> Unauthorized
      | Some i \<Rightarrow>
          if hr_Path r = a2aPath \<or> HasPrefix (hr_Path r) (a2aPath @ ''/'') then ServeA2A i r
          else ServeMCP (r\<lparr>hr_Header := (hr_Header r)(identityHeader := encode i)\<rparr>))"

definition mcp_identity :: "(string \<Rightarrow> identity option) \<Rightarrow> http_request \<Rightarrow> identity option" where
  "mcp_identity decode r =
     (case decode (hr_Header r identityHeader) of
        None \<Rightarrow> None
      | Some i \<Rightarrow> if id_Agent i = [] then None else Some i)"

section \<open>Tools\<close>

definition server_tools :: "bool \<Rightarrow> agent_tool list \<Rightarrow> agent_tool list" where
  "server_tools writes ts = sort_key at_Name (filter (\<lambda>t. at_Risk t = RiskRead \<or> writes) ts)"

definition toolNameRE :: "string \<Rightarrow> bool" where
  "toolNameRE s = (s \<noteq> [] \<and> list_all (\<lambda>c. is_alnum c \<or> c \<in> {CHR ''_'', CHR ''.'', CHR ''-''}) s)"

definition quoted :: "string \<Rightarrow> string" where
  "quoted s = [CHR 0x22] @ s @ [CHR 0x22]"

text \<open>The rules of the gateway; names that match the pattern need no escapes when quoted.\<close>

definition toolRules :: "bool \<Rightarrow> agent_tool list \<Rightarrow> string \<Rightarrow> goerror + string list" where
  "toolRules writes ts roles =
     (case find (\<lambda>t. \<not> toolNameRE (at_Name t)) ts of
        Some t \<Rightarrow> Inl (New_err ''gateway: tool name %q'' [AStr (at_Name t)])
      | None \<Rightarrow>
          let reads = sort (map (\<lambda>t. quoted (at_Name t)) (filter (\<lambda>t. at_Risk t = RiskRead) ts));
              wrs = sort (map (\<lambda>t. quoted (at_Name t)) (filter (\<lambda>t. at_Risk t \<noteq> RiskRead \<and> writes) ts));
              has = (\<lambda>role. quoted role @ '' in '' @ roles);
              rules = (if reads = [] then [] else [''mcp.tool.name in ['' @ Join reads '', '' @ ''] && ('' @ has RoleReader @ '' || '' @ has RoleOperator @ '')''])
                    @ (if wrs = [] then [] else [''mcp.tool.name in ['' @ Join wrs '', '' @ ''] && '' @ has RoleOperator])
          in Inr (if rules = [] then [''false''] else rules))"

section \<open>Write IDs\<close>

definition hex_digit :: "nat \<Rightarrow> char" where
  "hex_digit n = char_of (if n < 10 then n + 48 else n + 55)"

text \<open>\<open>url.PathEscape\<close> and \<open>url.PathUnescape\<close>, byte by byte.\<close>

definition shouldEscape :: "char \<Rightarrow> bool" where
  "shouldEscape c \<longleftrightarrow> \<not> (is_alnum c \<or> c \<in> {CHR ''-'', CHR ''_'', CHR ''.'', CHR ''~'', CHR ''$'', CHR ''&'', CHR ''+'', CHR '':'', CHR ''='', CHR ''@''})"

definition escape_char :: "char \<Rightarrow> string" where
  "escape_char c =
     (if shouldEscape c then let n = (of_char c :: nat) in [CHR ''%'', hex_digit (n div 16), hex_digit (n mod 16)] else [c])"

definition PathEscape :: "string \<Rightarrow> string" where
  "PathEscape s = concat (map escape_char s)"

fun PathUnescape :: "string \<Rightarrow> string option" where
  "PathUnescape [] = Some []"
| "PathUnescape (c # cs) =
     (if c \<noteq> CHR ''%'' then map_option ((#) c) (PathUnescape cs)
      else (case cs of
        a # b # rest \<Rightarrow>
          (case (hex_val a, hex_val b) of
             (Some x, Some y) \<Rightarrow> map_option ((#) (char_of (16 * x + y))) (PathUnescape rest)
           | _ \<Rightarrow> None)
      | _ \<Rightarrow> None))"

definition escapeAgent :: "string \<Rightarrow> string" where
  "escapeAgent agent = concat (map (\<lambda>c. if c = CHR '':'' then ''%3A'' else [c]) (PathEscape agent))"

definition writeID :: "string \<Rightarrow> string \<Rightarrow> string \<Rightarrow> string" where
  "writeID tool agent requestID = tool @ ''/'' @ escapeAgent agent @ '':'' @ requestID"

definition writeOwner :: "string \<Rightarrow> (string \<times> string) option" where
  "writeOwner wid =
     (case CutByte (CHR ''/'') wid of
        (tool, None) \<Rightarrow> None
      | (tool, Some rest) \<Rightarrow>
          (case CutByte (CHR '':'') rest of
             (escaped, None) \<Rightarrow> None
           | (escaped, Some _) \<Rightarrow>
               (case PathUnescape escaped of
                  None \<Rightarrow> None
                | Some agent \<Rightarrow> if tool \<noteq> [] \<and> agent \<noteq> [] then Some (tool, agent) else None)))"

section \<open>The write client\<close>

text \<open>A run Temporal knows: what it was started with, whether it still runs, and the push signals sent to it.\<close>

record agent_run =
  ag_Input :: agent_write_input
  ag_Open :: bool
  ag_Signals :: "push_signal list"

type_synonym agent_runs = "string \<Rightarrow> agent_run option"

datatype get_error = RunFailure app_error | CallFailure goerror

text \<open>What the server answers while a caller waits for a run: the first wait, whether the caller's context is still
  alive after it, the description of the run, the query for a pending approval, the second wait.\<close>

record run_view =
  vw_Get :: "run_result \<times> get_error option"
  vw_Done :: "goerror option"
  vw_Describe :: "goerror + bool"
  vw_Pending :: "goerror + pending_approval option"
  vw_Get2 :: "run_result \<times> get_error option"
  vw_Done2 :: "goerror option"

record agent_client =
  cl_Start :: "string \<Rightarrow> goerror option"
  cl_Input :: "string \<Rightarrow> goerror option"
  cl_Signal :: "string \<Rightarrow> goerror option"
  cl_Describe :: "string \<Rightarrow> goerror option"
  cl_Query :: "string \<Rightarrow> goerror option"
  cl_NoQuery :: "string \<Rightarrow> bool"
  cl_View :: "string \<Rightarrow> run_view"

datatype write_error = RequestConflict | WriteFinished | UnknownWrite | ClientError goerror

definition app_of :: "get_error \<Rightarrow> app_error" where
  "app_of e = (case e of RunFailure a \<Rightarrow> a | CallFailure g \<Rightarrow> plain_error g)"

definition isRunFailure :: "get_error \<Rightarrow> bool" where
  "isRunFailure e = (case e of RunFailure _ \<Rightarrow> True | CallFailure _ \<Rightarrow> False)"

definition status_running :: "agent_write_state \<Rightarrow> pending_approval option \<Rightarrow> agent_write_status" where
  "status_running st p = \<lparr>aws_State = st, aws_Write = None, aws_Pending = p, aws_Message = Msg [] []\<rparr>"

definition await_end :: "run_result \<times> get_error option \<Rightarrow> goerror option \<Rightarrow> write_error + agent_write_status" where
  "await_end got ctx =
     (case (snd got, ctx) of
        (Some _, Some e) \<Rightarrow> Inl (ClientError e)
      | (err, _) \<Rightarrow> Inr (statusOf (fst got) (map_option app_of err)))"

definition await_run :: "run_view \<Rightarrow> write_error + agent_write_status" where
  "await_run v =
     (case snd (vw_Get v) of
        Some e \<Rightarrow>
          if vw_Done v = None \<and> \<not> isRunFailure e then
            (case vw_Describe v of
               Inl d \<Rightarrow> Inl (ClientError (Wrap_err ''join'' [AErr (ae_Message (app_of e))] d))
             | Inr True \<Rightarrow>
                 (case vw_Pending v of
                    Inr (Some p) \<Rightarrow> Inr (status_running AgentWritePending (Some p))
                  | _ \<Rightarrow> Inr (status_running AgentWriteRunning None))
             | Inr False \<Rightarrow> await_end (vw_Get2 v) (vw_Done2 v))
          else await_end (vw_Get v) (vw_Done v)
      | None \<Rightarrow> await_end (vw_Get v) (vw_Done v))"

text \<open>Changing where to push: a signal, which a run that has ended does not take.\<close>

definition signal_push :: "agent_client \<Rightarrow> string \<Rightarrow> push_signal \<Rightarrow> agent_runs \<Rightarrow> write_error option \<times> agent_runs" where
  "signal_push cl i sg runs =
     (case cl_Signal cl i of
        Some e \<Rightarrow> (Some (ClientError e), runs)
      | None \<Rightarrow>
          (case runs i of
             None \<Rightarrow> (Some WriteFinished, runs)
           | Some r \<Rightarrow> if ag_Open r then (None, runs(i \<mapsto> r\<lparr>ag_Signals := ag_Signals r @ [sg]\<rparr>)) else (Some WriteFinished, runs)))"

definition SetPush :: "agent_client \<Rightarrow> string \<Rightarrow> push_config \<Rightarrow> agent_runs \<Rightarrow> write_error option \<times> agent_runs" where
  "SetPush cl i c runs = signal_push cl i (PushSet c) runs"

definition DeletePush :: "agent_client \<Rightarrow> string \<Rightarrow> string \<Rightarrow> agent_runs \<Rightarrow> write_error option \<times> agent_runs" where
  "DeletePush cl i configID runs = signal_push cl i (PushDelete configID) runs"

text \<open>Listing the settings: a run of a worker that knew no notifications does not answer the query.\<close>

definition Push_list :: "agent_client \<Rightarrow> string \<Rightarrow> agent_runs \<Rightarrow> write_error + push_config list" where
  "Push_list cl i runs =
     (case cl_Query cl i of
        Some e \<Rightarrow> Inl (ClientError e)
      | None \<Rightarrow>
          (case runs i of
             None \<Rightarrow> Inl UnknownWrite
           | Some r \<Rightarrow> Inr (if cl_NoQuery cl i then []
                             else foldl push_receive (foldl push_set [] (aw_Push (ag_Input r))) (ag_Signals r))))"

definition Watch :: "agent_client \<Rightarrow> string \<Rightarrow> write_error + agent_write_status" where
  "Watch cl i = await_run (cl_View cl i)"

definition Status_write :: "agent_client \<Rightarrow> string \<Rightarrow> agent_runs \<Rightarrow> write_error + agent_write_status" where
  "Status_write cl i runs =
     (case cl_Describe cl i of
        Some e \<Rightarrow> Inl (ClientError e)
      | None \<Rightarrow> (case runs i of None \<Rightarrow> Inl UnknownWrite | Some _ \<Rightarrow> await_run (cl_View cl i)))"

fun set_pushes :: "agent_client \<Rightarrow> string \<Rightarrow> push_config list \<Rightarrow> agent_runs \<Rightarrow> write_error option \<times> agent_runs" where
  "set_pushes cl i [] runs = (None, runs)"
| "set_pushes cl i (c # cs) runs =
     (case SetPush cl i c runs of
        (Some (ClientError e), runs1) \<Rightarrow> (Some (ClientError e), runs1)
      | (_, runs1) \<Rightarrow> set_pushes cl i cs runs1)"

definition Submit :: "agent_client \<Rightarrow> string \<Rightarrow> agent_write_input \<Rightarrow> agent_runs \<Rightarrow> (write_error + agent_write_status) \<times> agent_runs" where
  "Submit cl i inp runs =
     (case cl_Start cl i of
        Some e \<Rightarrow> (Inl (ClientError e), runs)
      | None \<Rightarrow>
          (case runs i of
             None \<Rightarrow> (await_run (cl_View cl i), runs(i \<mapsto> \<lparr>ag_Input = inp, ag_Open = True, ag_Signals = []\<rparr>))
           | Some prior \<Rightarrow>
               (case cl_Input cl i of
                  Some e \<Rightarrow> (Inl (ClientError e), runs)
                | None \<Rightarrow>
                    if \<not> sameRequest (aw_Request (ag_Input prior)) (aw_Request inp) then (Inl RequestConflict, runs)
                    else (case set_pushes cl i (aw_Push inp) runs of
                      (Some e, runs1) \<Rightarrow> (Inl e, runs1)
                    | (None, runs1) \<Rightarrow> (await_run (cl_View cl i), runs1)))))"

section \<open>Write tools\<close>

definition requestIDRE :: "string \<Rightarrow> bool" where
  "requestIDRE s = (1 \<le> length s \<and> length s \<le> 128
     \<and> list_all (\<lambda>c. is_alnum c \<or> c \<in> {CHR ''.'', CHR ''_'', CHR '':'', CHR ''-''}) s)"

definition maxReason :: nat where "maxReason = 500"

record write_args =
  wa_RequestID :: string
  wa_Record :: "doc option"
  wa_Reason :: string

text \<open>Decoding the arguments strictly: unknown fields are errors, names match in any case, a repeated record is
  merged into the one before it.\<close>

fun decode_args :: "doc \<Rightarrow> write_args \<Rightarrow> write_args option" where
  "decode_args [] a = Some a"
| "decode_args ((k, v) # kvs) a =
     (let n = map to_lower k
      in if n = ''requestid'' then
           (case v of JStr s \<Rightarrow> decode_args kvs (a\<lparr>wa_RequestID := s\<rparr>) | JNull \<Rightarrow> decode_args kvs a | _ \<Rightarrow> None)
         else if n = ''reason'' then
           (case v of JStr s \<Rightarrow> decode_args kvs (a\<lparr>wa_Reason := s\<rparr>) | JNull \<Rightarrow> decode_args kvs a | _ \<Rightarrow> None)
         else if n = ''record'' then
           (case v of
              JObj m \<Rightarrow> decode_args kvs (a\<lparr>wa_Record := Some (foldl (\<lambda>d (k', v'). AList.update k' v' d)
                (case wa_Record a of None \<Rightarrow> [] | Some d \<Rightarrow> d) m)\<rparr>)
            | JNull \<Rightarrow> decode_args kvs (a\<lparr>wa_Record := None\<rparr>)
            | _ \<Rightarrow> None)
         else None)"

definition no_args :: write_args where
  "no_args = \<lparr>wa_RequestID = [], wa_Record = None, wa_Reason = []\<rparr>"

definition agent_subject :: "identity \<Rightarrow> subject" where
  "agent_subject i = \<lparr>sub_ID = id_Agent i, sub_Roles = id_Roles i, sub_Agent = True, sub_OnBehalfOf = id_OnBehalfOf i\<rparr>"

text \<open>Marshalling a decoded document: an object is a map, its keys come out sorted, the last of equal keys wins.\<close>

definition map_of_members :: "doc \<Rightarrow> doc" where
  "map_of_members m = sort_key fst (foldl (\<lambda>d (k, v). AList.update k v d) [] m)"

fun canon :: "json \<Rightarrow> json" where
  "canon (JArr xs) = JArr (map canon xs)"
| "canon (JObj m) = JObj (map_of_members (map (\<lambda>p. (fst p, canon (snd p))) m))"
| "canon JNull = JNull"
| "canon (JBool b) = JBool b"
| "canon (JNum n) = JNum n"
| "canon (JStr s) = JStr s"

definition marshal :: "doc \<Rightarrow> raw" where
  "marshal d = RawDoc (canon (JObj d))"

definition agentKey :: "string \<Rightarrow> string \<Rightarrow> string" where
  "agentKey agent requestID = ''agent:'' @ agent @ '':'' @ requestID"

definition agent_request :: "agent_tool \<Rightarrow> identity \<Rightarrow> string \<Rightarrow> doc \<Rightarrow> string \<Rightarrow> request" where
  "agent_request t i requestID rcd reason0 =
     (let reason = TrimSpace reason0
      in \<lparr>req_Target = at_Endpoint t, req_Operation = at_Operation t, req_Tool = at_Name t, req_Risk = at_Risk t,
          req_Subject = agent_subject i, req_IdempotencyKey = agentKey (id_Agent i) requestID, req_Payload = marshal rcd,
          req_Entity = at_Entity t,
          req_Amount = (if at_Amount t = [] then AmountOf rcd else engine_AmountAt rcd (at_Amount t)),
          req_Simulate = at_Simulate t, req_Compensation = [], req_Recipe = [], req_RequireApproval = False,
          req_Reason = (if reason = [] then ''no reason given'' else reason),
          req_CheckAmount = map_option (\<lambda>k. \<lparr>chk_Preview = sac_Preview k, chk_Tolerance = sac_Tolerance k\<rparr>) (at_CheckAmount t)\<rparr>)"

record write_call =
  wl_workflowID :: string
  wl_requestID :: string
  wl_status :: agent_write_status

record agent_server =
  sv_digest :: string
  sv_timeout :: int
  sv_client :: agent_client

definition unknown_fields :: "agent_tool \<Rightarrow> doc \<Rightarrow> string list" where
  "unknown_fields t rcd = (if at_Fields t = [] then [] else sort (filter (\<lambda>k. k \<notin> set (at_Fields t)) (map fst rcd)))"

definition start_write ::
  "agent_server \<Rightarrow> agent_tool \<Rightarrow> identity \<Rightarrow> string \<Rightarrow> doc \<Rightarrow> string \<Rightarrow> push_config list \<Rightarrow> agent_runs \<Rightarrow> (goerror + write_call) \<times> agent_runs" where
  "start_write sv t i rid rcd why push runs =
     (let wid = writeID (at_Name t) (id_Agent i) rid
      in case Submit (sv_client sv) wid \<lparr>aw_SpecDigest = sv_digest sv, aw_Request = agent_request t i rid rcd why,
             aw_ApprovalTimeout = sv_timeout sv, aw_Push = push\<rparr> runs of
           (Inr st, runs1) \<Rightarrow> (Inr \<lparr>wl_workflowID = wid, wl_requestID = rid, wl_status = st\<rparr>, runs1)
         | (Inl RequestConflict, runs1) \<Rightarrow>
             (Inl (New_err ''requestId %q was already used for a different %s request; use a new requestId''
                [AStr rid, AStr (at_Name t)]), runs1)
         | (Inl (ClientError e), runs1) \<Rightarrow> (Inl (New_err ''could not start the write: '' [AErr (text_of e)]), runs1)
         | (Inl WriteFinished, runs1) \<Rightarrow> (Inl (New_err ''could not start the write: the write has already ended'' []), runs1)
         | (Inl UnknownWrite, runs1) \<Rightarrow> (Inl (New_err ''could not start the write: no agent write with this ID'' []), runs1))"

definition agent_submit ::
  "agent_server \<Rightarrow> agent_tool \<Rightarrow> identity \<Rightarrow> raw \<Rightarrow> string \<Rightarrow> push_config list \<Rightarrow> agent_runs \<Rightarrow> (goerror + write_call) \<times> agent_runs" where
  "agent_submit sv t i args defaultRequestID push runs =
     (case (case args of RawDoc (JObj kvs) \<Rightarrow> decode_args kvs no_args | RawDoc JNull \<Rightarrow> Some no_args | _ \<Rightarrow> None) of
        None \<Rightarrow> (Inl (New_err ''pass {requestId, record, reason}'' []), runs)
      | Some a \<Rightarrow>
     (case wa_Record a of
        None \<Rightarrow> (Inl (New_err ''pass {requestId, record, reason}'' []), runs)
      | Some rcd \<Rightarrow>
          let rid = (if wa_RequestID a = [] then defaultRequestID else wa_RequestID a)
          in if \<not> requestIDRE rid then
               (Inl (New_err ''requestId must be 1 to 128 letters, digits, '.', '_', ':' or '-' '' []), runs)
             else if maxReason < length (wa_Reason a) then
               (Inl (New_err ''reason is longer than %d characters'' [AInt (int maxReason)]), runs)
             else if unknown_fields t rcd \<noteq> [] then
               (Inl (New_err ''record has unknown field(s) %s; %s takes %s''
                  [AStr (Join (unknown_fields t rcd) '', ''), AStr (at_Name t), AStr (Join (at_Fields t) '', '')]), runs)
             else start_write sv t i rid rcd (wa_Reason a) push runs))"

section \<open>What the agent is told\<close>

definition writeSummary :: "agent_tool \<Rightarrow> string \<Rightarrow> agent_write_status \<Rightarrow> message \<times> doc \<times> bool" where
  "writeSummary t requestID st =
     (case aws_State st of
        AgentWriteCommitted \<Rightarrow>
          (case aws_Write st of
             None \<Rightarrow> (Msg ''Done: %s committed in %s.'' [AStr (at_Name t), AStr (at_Endpoint t)], [], False)
           | Some w \<Rightarrow>
               (Msg (if wr_Status w = StatusDuplicate then ''Done: %s had already been committed in %s; nothing was written again.''
                     else ''Done: %s committed in %s.'') [AStr (at_Name t), AStr (at_Endpoint t)],
                case wr_Result w of RawDoc r \<Rightarrow> [(''result'', r)] | _ \<Rightarrow> [], False))
      | AgentWritePending \<Rightarrow>
          (Msg ''Nothing has been written yet: a person must approve this write in the Turgon console%s. Call %s again with the same arguments to check on it.''
             [AErr (joined (case aws_Pending st of None \<Rightarrow> [] | Some p \<Rightarrow> pa_Reasons p)), AStr (at_Name t)],
           case aws_Pending st of
             None \<Rightarrow> []
           | Some p \<Rightarrow> (case pa_Preview p of RawDoc r \<Rightarrow> if r = JNull then [] else [(''preview'', r)] | _ \<Rightarrow> []), False)
      | AgentWriteRunning \<Rightarrow>
          (Msg ''The write is in progress. Call %s again with the same arguments to check on it.'' [AStr (at_Name t)], [], False)
      | AgentWriteDenied \<Rightarrow> (Msg ''Denied by policy; nothing was written. '' [AErr (aws_Message st)], [], True)
      | AgentWriteRejected \<Rightarrow> (Msg ''The approver rejected this write; nothing was written. '' [AErr (aws_Message st)], [], True)
      | AgentWriteInvalid \<Rightarrow>
          (Msg ''The record is not valid for %s; nothing was written. Fix it and use a new requestId. '' [AStr (at_Endpoint t), AErr (aws_Message st)], [], True)
      | AgentWriteFailed \<Rightarrow> (Msg ''The write failed. Use a new requestId to try again. '' [AErr (aws_Message st)], [], True))"

section \<open>Reads\<close>

definition agent_read ::
  "('s, 'w) guard \<Rightarrow> agent_tool \<Rightarrow> identity \<Rightarrow> string \<Rightarrow> ('s, 'w) guard_state \<Rightarrow> (goerror + raw) \<times> ('s, 'w) guard_state" where
  "agent_read g t i rid s =
     (if TrimSpace rid = [] then (Inl (New_err ''pass the record's identifier as {id}'' []), s)
      else case guard_Read g \<lparr>rd_Target = at_Endpoint t, rd_Operation = at_Operation t, rd_Tool = at_Name t, rd_Subject = agent_subject i,
                 rd_Entity = at_Entity t, rd_ID = rid\<rparr> s of
        ((data, Some e), s1) \<Rightarrow>
          (Inl (if errors_Is e ErrNotFound then
                  New_err ''no %s with identifier %q in %s''
                    [AStr (map to_lower (if at_Entity t = [] then ''record'' else at_Entity t)), AStr rid, AStr (at_Endpoint t)]
                else if errors_Is e ErrDenied then New_err ''denied by policy: '' [AErr (text_of e)]
                else if errors_Is e ErrCircuitOpen then New_err ''%s is failing; reads are paused. Try again later.'' [AStr (at_Endpoint t)]
                else New_err ''%s did not answer: '' [AStr (at_Endpoint t), AErr (text_of e)]), s1)
      | ((data, None), s1) \<Rightarrow>
          (case data of
             RawDoc (JObj _) \<Rightarrow> (Inr data, s1)
           | RawDoc JNull \<Rightarrow> (Inr data, s1)
           | _ \<Rightarrow> (Inl (New_err ''unreadable record'' []), s1)))"

end
