(* ===== verification/Agent_Props.thy ===== *)
theory Agent_Props
  imports Agent Netguard_Props Compiler_Tools Workflow_Findings
begin

text \<open>
  What the agent's side promises: a write belongs to the agent and tool its ID names, one request ID is one
  write, the caller cannot choose who it is; and where it promises less than it says.
\<close>

section \<open>Escaping\<close>

lemma hex_digit_val: "n < 16 \<Longrightarrow> hex_val (hex_digit n) = Some n"
  by (auto simp: hex_val_def hex_digit_def Let_def)

lemma hex_digit_plain: "n < 16 \<Longrightarrow> hex_digit n \<noteq> CHR '':'' \<and> hex_digit n \<noteq> CHR ''/''"
proof -
  assume "n < 16"
  then have "of_char (hex_digit n) \<noteq> (58 :: nat) \<and> of_char (hex_digit n) \<noteq> (47 :: nat)" by (simp add: hex_digit_def)
  then show ?thesis by auto
qed

definition agent_char :: "char \<Rightarrow> string" where
  "agent_char c = (if c = CHR '':'' then ''%3A'' else escape_char c)"

lemma escapeAgent_chars: "escapeAgent a = concat (map agent_char a)"
proof (induction a)
  case (Cons c a)
  have n: "of_char c div 16 < (16 :: nat)" "of_char c mod 16 < (16 :: nat)"
    using nat_of_char_less_256 [of c] by (simp_all add: less_mult_imp_div_less)
  have "concat (map (\<lambda>c. if c = CHR '':'' then ''%3A'' else [c]) (escape_char c)) = agent_char c"
    using hex_digit_plain [OF n(1)] hex_digit_plain [OF n(2)]
    by (simp add: escape_char_def agent_char_def Let_def shouldEscape_def)
  then show ?case using Cons by (simp add: escapeAgent_def PathEscape_def)
qed (simp add: escapeAgent_def PathEscape_def)

lemma agent_char_read: "PathUnescape (agent_char c @ rest) = map_option ((#) c) (PathUnescape rest)"
proof -
  have n: "of_char c div 16 < (16 :: nat)" "of_char c mod 16 < (16 :: nat)"
    using nat_of_char_less_256 [of c] by (simp_all add: less_mult_imp_div_less)
  have colon: "hex_val (CHR ''3'') = Some 3" "hex_val (CHR ''A'') = Some 10" "char_of (58 :: nat) = CHR '':''" by code_simp+
  show ?thesis
  proof (cases "shouldEscape c")
    case True
    then show ?thesis using hex_digit_val [OF n(1)] hex_digit_val [OF n(2)]
      by (auto simp: agent_char_def escape_char_def Let_def shouldEscape_def)
  next
    case False
    moreover have "shouldEscape (CHR ''%'')" by code_simp
    ultimately have "c \<noteq> CHR ''%''" by auto
    then show ?thesis using False colon by (auto simp: agent_char_def escape_char_def)
  qed
qed

lemma escapeAgent_read: "PathUnescape (escapeAgent a) = Some a"
proof -
  have "PathUnescape (concat (map agent_char a)) = Some a" by (induction a) (simp_all add: agent_char_read)
  then show ?thesis by (simp add: escapeAgent_chars)
qed

lemma escapeAgent_plain: "CHR '':'' \<notin> set (escapeAgent a)" "CHR ''/'' \<notin> set (escapeAgent a)"
proof -
  have "CHR '':'' \<notin> set (agent_char c) \<and> CHR ''/'' \<notin> set (agent_char c)" for c
  proof -
    have n: "of_char c div 16 < (16 :: nat)" "of_char c mod 16 < (16 :: nat)"
      using nat_of_char_less_256 [of c] by (simp_all add: less_mult_imp_div_less)
    moreover have "shouldEscape (CHR ''/'')" by code_simp
    ultimately show ?thesis using hex_digit_plain [OF n(1)] hex_digit_plain [OF n(2)]
      by (auto simp: agent_char_def escape_char_def Let_def)
  qed
  then show "CHR '':'' \<notin> set (escapeAgent a)" "CHR ''/'' \<notin> set (escapeAgent a)" by (auto simp: escapeAgent_chars)
qed

section \<open>Write IDs\<close>

lemma writeID_cuts:
  assumes "CHR ''/'' \<notin> set tool"
  shows "CutByte (CHR ''/'') (writeID tool agent rid) = (tool, Some (escapeAgent agent @ CHR '':'' # rid))"
    and "CutByte (CHR '':'') (escapeAgent agent @ CHR '':'' # rid) = (escapeAgent agent, Some rid)"
  using CutByte_present [OF assms] CutByte_present [OF escapeAgent_plain(1)] by (simp_all add: writeID_def)

text \<open>C36: A write's ID says whose it is. The owner read back from the ID of a write is the tool and the agent it was made
  for, whatever the agent is called (colons, slashes, percent signs, any bytes), and no two different
  triples of tool, agent and request ID share an ID.\<close>

theorem writeOwner_writeID:
  assumes "CHR ''/'' \<notin> set tool" "tool \<noteq> []" "agent \<noteq> []"
  shows "writeOwner (writeID tool agent rid) = Some (tool, agent)
    \<and> (writeID tool agent rid = writeID tool' agent' rid' \<and> CHR ''/'' \<notin> set tool' \<longrightarrow> tool' = tool \<and> agent' = agent \<and> rid' = rid)"
proof (intro conjI impI)
  show "writeOwner (writeID tool agent rid) = Some (tool, agent)"
    using assms by (simp add: writeOwner_def writeID_cuts escapeAgent_read)
next
  assume same: "writeID tool agent rid = writeID tool' agent' rid' \<and> CHR ''/'' \<notin> set tool'"
  have "(tool, Some (escapeAgent agent @ CHR '':'' # rid)) = (tool', Some (escapeAgent agent' @ CHR '':'' # rid'))"
    unfolding writeID_cuts(1) [OF assms(1), symmetric] writeID_cuts(1) [OF same [THEN conjunct2], symmetric] by (simp only: same)
  then have e: "tool' = tool" "escapeAgent agent @ CHR '':'' # rid = escapeAgent agent' @ CHR '':'' # rid'" by simp_all
  have "(escapeAgent agent, Some rid) = (escapeAgent agent', Some rid')"
    unfolding writeID_cuts(2) [OF assms(1), symmetric] by (simp only: e(2))
  then have r: "rid' = rid" "escapeAgent agent = escapeAgent agent'" by simp_all
  have "Some agent = Some agent'" unfolding escapeAgent_read [symmetric] by (simp only: r(2))
  with e(1) r(1) show "tool' = tool" "agent' = agent" "rid' = rid" by simp_all
qed

theorem writeOwner_writeID_witness:
  "writeOwner (writeID ''erp_create'' ''urn:bot/7'' ''r:1'') = Some (''erp_create'', ''urn:bot/7'')"
  using writeOwner_writeID [of "''erp_create''" "''urn:bot/7''" "''r:1''"] by simp

text \<open>The idempotency key escapes nothing: an agent whose name continues another's after a colon shares keys with it.\<close>

definition operator_agent :: "string \<Rightarrow> identity" where
  "operator_agent name = \<lparr>id_Agent = name, id_OnBehalfOf = [], id_Roles = [RoleOperator]\<rparr>"

text \<open>C40: two agents can share an idempotency key. The writes of agent \<open>crm\<close> under the request ID \<open>bot:1\<close> and of agent
  \<open>crm:bot\<close> under \<open>1\<close>, both valid IDs, run as different workflows but claim the same key of the store, so
  the second is answered with the first agent's result and not written.\<close>

theorem agent_keys_collide:
  "requestIDRE ''bot:1'' \<and> requestIDRE ''1''
    \<and> storeKey (agent_request (t :: agent_tool) (operator_agent ''crm'') ''bot:1'' d why)
      = storeKey (agent_request t (operator_agent ''crm:bot'') ''1'' d' why')
    \<and> writeID (at_Name t) ''crm'' ''bot:1'' \<noteq> writeID (at_Name t) ''crm:bot'' ''1''"
proof -
  have "requestIDRE ''bot:1''" "requestIDRE ''1''" "escapeAgent ''crm'' = ''crm''" "escapeAgent ''crm:bot'' = ''crm%3Abot''" by code_simp+
  then show ?thesis by (simp add: operator_agent_def storeKey_def agent_request_def Let_def agentKey_def writeID_def)
qed

section \<open>One request, one write\<close>

lemma set_pushes_inputs:
  "set_pushes cl i cs runs = (e, runs') \<Longrightarrow> map_option ag_Input (runs' j) = map_option ag_Input (runs j)"
proof (induction cl i cs runs arbitrary: e runs' rule: set_pushes.induct)
  case (2 cl i c cs runs)
  obtain e1 r1 where p: "SetPush cl i c runs = (e1, r1)" by (cases "SetPush cl i c runs")
  then have "map_option ag_Input (r1 j) = map_option ag_Input (runs j)"
    by (auto simp: SetPush_def signal_push_def split: option.split_asm if_split_asm)
  then show ?case using 2 p by (auto split: option.split_asm write_error.split_asm)
qed simp

lemma Submit_inputs:
  assumes "Submit cl i inp runs = (r, runs')"
  shows "(\<forall>j a. runs j = Some a \<longrightarrow> (\<exists>a'. runs' j = Some a' \<and> ag_Input a' = ag_Input a))
    \<and> (\<forall>j. j \<noteq> i \<longrightarrow> runs j = None \<longrightarrow> runs' j = None)
    \<and> (\<forall>st. r = Inr st \<longrightarrow> (\<exists>a. runs' i = Some a \<and> (ag_Input a = inp \<or> runs i \<noteq> None \<and> sameRequest (aw_Request (ag_Input a)) (aw_Request inp))))"
proof (cases "runs i")
  case None
  then show ?thesis using assms by (auto simp: Submit_def split: option.split_asm)
next
  case (Some prior)
  have unchanged: ?thesis if "runs' = runs" "\<And>st. r \<noteq> Inr st"
    using that by auto
  show ?thesis
  proof (cases "cl_Start cl i = None \<and> cl_Input cl i = None \<and> sameRequest (aw_Request (ag_Input prior)) (aw_Request inp)")
    case False
    then have "runs' = runs" "\<And>st. r \<noteq> Inr st" using assms Some by (auto simp: Submit_def split: option.split_asm if_split_asm)
    then show ?thesis by (rule unchanged)
  next
    case True
    obtain e r1 where p: "set_pushes cl i (aw_Push inp) runs = (e, r1)" by (cases "set_pushes cl i (aw_Push inp) runs")
    then have "runs' = r1" using assms True Some by (auto simp: Submit_def split: option.split_asm)
    then have keep: "map_option ag_Input (runs' j) = map_option ag_Input (runs j)" for j using set_pushes_inputs [OF p] by simp
    have old: "\<exists>a'. runs' j = Some a' \<and> ag_Input a' = ag_Input a" if "runs j = Some a" for j a
      using that keep [of j] by (cases "runs' j") auto
    moreover have "runs' j = None" if "runs j = None" for j using that keep [of j] by simp
    moreover have "\<exists>a. runs' i = Some a \<and> sameRequest (aw_Request (ag_Input a)) (aw_Request inp)"
      using old [OF Some] True by auto
    ultimately show ?thesis using Some by blast
  qed
qed

lemma agent_submit_starts:
  assumes "agent_submit sv t i args rid0 push runs = (Inr w, runs')"
  shows "\<exists>rid rcd why. unknown_fields t rcd = [] \<and> \<not> maxReason < length why \<and> start_write sv t i rid rcd why push runs = (Inr w, runs')"
proof -
  let ?args = "case args of RawDoc (JObj kvs) \<Rightarrow> decode_args kvs no_args | RawDoc JNull \<Rightarrow> Some no_args | _ \<Rightarrow> None"
  obtain a rcd where a: "?args = Some a" "wa_Record a = Some rcd"
    using assms by (cases ?args; cases "wa_Record (the ?args)") (simp_all add: agent_submit_def)
  let ?rid = "if wa_RequestID a = [] then rid0 else wa_RequestID a"
  have "\<not> maxReason < length (wa_Reason a) \<and> unknown_fields t rcd = []
      \<and> start_write sv t i ?rid rcd (wa_Reason a) push runs = (Inr w, runs')"
    using assms unfolding agent_submit_def a option.case Let_def a(2)
    by (cases "requestIDRE ?rid"; cases "maxReason < length (wa_Reason a)"; cases "unknown_fields t rcd = []")
      (simp_all only: if_True if_False not_True_eq_False not_False_eq_True prod.inject sum.distinct, simp_all)
  then show ?thesis by blast
qed


definition demo_view :: run_view where
  "demo_view = \<lparr>vw_Get = (\<lparr>rr_Writes = []\<rparr>, None), vw_Done = None, vw_Describe = Inr True, vw_Pending = Inr None,
     vw_Get2 = (\<lparr>rr_Writes = []\<rparr>, None), vw_Done2 = None\<rparr>"

definition demo_server :: agent_server where
  "demo_server = \<lparr>sv_digest = [], sv_timeout = 0,
     sv_client = \<lparr>cl_Start = (\<lambda>_. None), cl_Input = (\<lambda>_. None), cl_Signal = (\<lambda>_. None), cl_Describe = (\<lambda>_. None),
       cl_Query = (\<lambda>_. None), cl_NoQuery = (\<lambda>_. False), cl_View = (\<lambda>_. demo_view)\<rparr>\<rparr>"

definition low_tool :: agent_tool where
  "low_tool = \<lparr>at_Name = ''create'', at_Description = [], at_Risk = RiskLow, at_Endpoint = ''erp'', at_Operation = ''create'',
     at_Entity = ''order'', at_Fields = [], at_Simulate = False, at_Amount = [], at_CheckAmount = None\<rparr>"

definition demo_args :: raw where
  "demo_args = RawDoc (JObj [(''requestId'', JStr ''r1''), (''record'', JObj [])])"

lemma demo_submit:
  obtains w runs' where "agent_submit demo_server low_tool (operator_agent ''bot'') demo_args [] [] (\<lambda>_. None) = (Inr w, runs')"
    "wl_workflowID w = ''create/bot:r1''"
proof -
  have "requestIDRE ''r1''" "escapeAgent ''bot'' = ''bot''" "map to_lower ''requestId'' = ''requestid''" "map to_lower ''record'' = ''record''"
    by code_simp+
  then show ?thesis using that
    by (simp add: agent_submit_def demo_args_def no_args_def Let_def maxReason_def unknown_fields_def low_tool_def start_write_def
        operator_agent_def Submit_def demo_server_def await_run_def await_end_def demo_view_def writeID_def)
qed


section \<open>What an agent's request leaves out\<close>

text \<open>C1: a recipe's \<open>approval: required\<close> does not bind agents. A step with it always asks a person, whatever the risk; the
  request the tool made from the same step starts for an agent never does, so an agent with the operator
  role commits a low-risk write that a recipe would not commit without a person.\<close>

theorem approval_required_is_lost:
  "(wc_Approval (pin_Config pin) = ''required'' \<longrightarrow> buildRequest pin = Inr r \<longrightarrow> req_RequireApproval r)
   \<and> \<not> req_RequireApproval (agent_request (t :: agent_tool) i rid d why)
   \<and> (at_Risk t = RiskLow \<and> RoleOperator \<in> set (id_Roles i) \<and> req_Amount (agent_request t i rid d why) \<le> 50000 \<longrightarrow>
        (let dec = WritebackDefault_Decide 0 (guard_input (agent_request t i rid d why)) in Allow dec \<and> \<not> RequireApproval dec \<and> \<not> Denied dec))"
proof (intro conjI impI)
  show "req_RequireApproval r" if "wc_Approval (pin_Config pin) = ''required''" "buildRequest pin = Inr r"
    using that by (auto simp: buildRequest_def Let_def split: sum.split_asm)
  show "\<not> req_RequireApproval (agent_request t i rid d why)" by (simp add: agent_request_def Let_def)
  assume h: "at_Risk t = RiskLow \<and> RoleOperator \<in> set (id_Roles i) \<and> req_Amount (agent_request t i rid d why) \<le> 50000"
  then show "let dec = WritebackDefault_Decide 0 (guard_input (agent_request t i rid d why)) in Allow dec \<and> \<not> RequireApproval dec \<and> \<not> Denied dec"
    by (simp add: WritebackDefault_Decide_def guard_input_def agent_request_def agent_subject_def no_approval_def policy_consts Let_def)
qed

theorem approval_required_is_lost_witness:
  "\<not> req_RequireApproval (agent_request low_tool (operator_agent ''bot'') ''r1'' [] [])
   \<and> Allow (WritebackDefault_Decide 0 (guard_input (agent_request low_tool (operator_agent ''bot'') ''r1'' [] [])))"
proof -
  have "req_Amount (agent_request low_tool (operator_agent ''bot'') ''r1'' [] []) \<le> 50000"
    by (simp add: agent_request_def low_tool_def AmountOf_def amountFields_def Let_def)
  then show ?thesis
    using approval_required_is_lost [of _ _ low_tool "operator_agent ''bot''" "''r1''" "[]" "[]"]
    by (simp add: low_tool_def operator_agent_def Let_def)
qed

section \<open>Who is calling\<close>

text \<open>C13: Nobody chooses who they are. A request reaches a tool only from an address of the gateway's ranges, and the
  identity the tool acts for is the one read from the gateway's headers: whatever the caller put into the
  internal header is replaced. The hypothesis is that an identity survives its JSON.\<close>

theorem identity_is_the_callers:
  assumes "ServeHTTP (Authenticate g) encode r = ServeMCP r'" "\<And>i. Authenticate g r = Some i \<Longrightarrow> decode (encode i) = Some i"
  shows "\<exists>i ip. mcp_identity decode r' = Some i \<and> Authenticate g r = Some i \<and> id_Agent i \<noteq> []
    \<and> hr_Remote r = Some ip \<and> (\<exists>p \<in> set (ga_Trusted g). Contains p (Unmap ip))"
proof -
  obtain i where i: "Authenticate g r = Some i" "r' = r\<lparr>hr_Header := (hr_Header r)(identityHeader := encode i)\<rparr>"
    using assms(1) by (auto simp: ServeHTTP_def split: if_split_asm option.split_asm)
  then have "id_Agent i \<noteq> []" "\<exists>ip. hr_Remote r = Some ip \<and> (\<exists>p \<in> set (ga_Trusted g). Contains p (Unmap ip))"
    by (auto simp: Authenticate_def Let_def list_ex_iff split: option.split_asm if_split_asm)
  then show ?thesis using i assms(2) by (auto simp: mcp_identity_def)
qed

definition demo_gateway :: gateway_auth where
  "demo_gateway = \<lparr>ga_Trusted = [net4 10 0 0 0 8], ga_AgentHeader = [], ga_UserHeader = [], ga_RolesHeader = []\<rparr>"

definition demo_call :: http_request where
  "demo_call = \<lparr>hr_Remote = Some (Addr4 0x0a000001), hr_Path = ''/mcp'', hr_Header = (\<lambda>h. if h = ''X-Agent-Id'' then ''bot'' else [])\<rparr>"

theorem identity_is_the_callers_witness:
  "\<exists>r' i. ServeHTTP (Authenticate demo_gateway) id_Agent demo_call = ServeMCP r' \<and> Authenticate demo_gateway demo_call = Some i
     \<and> mcp_identity (\<lambda>s. Some \<lparr>id_Agent = s, id_OnBehalfOf = [], id_Roles = []\<rparr>) r' = Some i"
proof -
  have "TrimSpace ''bot'' = ''bot''" "TrimSpace [] = []" by code_simp+
  moreover have "Contains (net4 10 0 0 0 8) (Addr4 0x0a000001)" by (simp add: ranges4 v4_first)
  ultimately have auth: "Authenticate demo_gateway demo_call = Some \<lparr>id_Agent = ''bot'', id_OnBehalfOf = [], id_Roles = []\<rparr>"
    by (simp add: Authenticate_def demo_gateway_def demo_call_def Unmap_def or_default_def Let_def)
  then obtain r' where r': "ServeHTTP (Authenticate demo_gateway) id_Agent demo_call = ServeMCP r'"
    by (simp add: ServeHTTP_def a2aPath_def HasPrefix_def demo_call_def)
  from identity_is_the_callers [OF r', of "\<lambda>s. Some \<lparr>id_Agent = s, id_OnBehalfOf = [], id_Roles = []\<rparr>"] auth r' show ?thesis by auto
qed

section \<open>Tools\<close>

text \<open>C1: the risk of a stack's tool may be understated. The slot contract declares the action \<open>create\<close> low-risk, the
  connector that fills the slot declares its operation high-risk; the stack verifies as deployable and
  the compiled tool carries the contract's risk, so that under the built-in policy an agent's call needs
  no person.\<close>

theorem stack_tool_understates_risk:
  "map (\<lambda>op. (op_Name op, op_Risk op)) (cs_Operations (cm_Spec demo_erp)) = [(''create'', RiskHigh), (''cancel'', RiskLow)]
   \<and> rb_Deployable (rp_body (verify_Blueprint demo_verifier bare_stack))
   \<and> map_option (\<lambda>b. map (\<lambda>t. (at_Name t, at_Endpoint t, at_Risk t)) (bd_Tools (finish_body b)))
       (bl_blueprint demo_cenv (verify_Blueprint demo_verifier bare_stack) newBuilder) = Some [(''create'', ''erp'', RiskLow)]"
  using bare_deployable bare_tools by (simp add: demo_erp_def)

text \<open>The gateway never gets an empty list of rules, which would allow everything; and a write tool is named only in a rule
  that asks for the operator's role.\<close>

lemma toolRules_nonempty: "toolRules writes ts roles = Inr rules \<Longrightarrow> rules \<noteq> []"
  by (auto simp: toolRules_def Let_def split: option.split_asm if_split_asm)

section \<open>Push settings\<close>

lemma push_replace_ids: "push_replace c cs = Some cs' \<Longrightarrow> map pc_ID cs' = map pc_ID cs"
  by (induction c cs arbitrary: cs' rule: push_replace.induct) (auto split: if_split_asm)

lemma push_replace_None: "push_replace c cs = None \<longleftrightarrow> pc_ID c \<notin> pc_ID ` set cs"
  by (induction c cs rule: push_replace.induct) auto

definition few_pushes :: "push_config list \<Rightarrow> bool" where
  "few_pushes cs \<longleftrightarrow> length cs \<le> MaxPushConfigs \<and> distinct (map pc_ID cs)"

lemma few_push_set: "few_pushes cs \<Longrightarrow> few_pushes (push_set cs c)"
proof (cases "push_replace c cs")
  case None
  then show "few_pushes cs \<Longrightarrow> few_pushes (push_set cs c)" using push_replace_None [of c cs] by (auto simp: few_pushes_def push_set_def)
next
  case (Some cs')
  from push_replace_ids [OF this] have "length cs' = length cs" by (metis length_map)
  then show "few_pushes cs \<Longrightarrow> few_pushes (push_set cs c)"
    using Some push_replace_ids [OF Some] by (simp add: few_pushes_def push_set_def)
qed

lemma push_delete_sub: "set (map pc_ID (push_delete cs i)) \<subseteq> set (map pc_ID cs) \<and> length (push_delete cs i) \<le> length cs
    \<and> (distinct (map pc_ID cs) \<longrightarrow> distinct (map pc_ID (push_delete cs i)))"
  by (induction cs i rule: push_delete.induct) auto

lemma few_push_receive: "few_pushes cs \<Longrightarrow> few_pushes (push_receive cs sg)"
proof (cases sg)
  case (PushDelete i)
  then show "few_pushes cs \<Longrightarrow> few_pushes (push_receive cs sg)"
    using push_delete_sub [of cs i] by (auto simp: push_receive_def few_pushes_def)
qed (simp add: push_receive_def few_push_set)

lemma few_start: "few_pushes (foldl push_set cs ini)" if "few_pushes cs"
  using that by (induction ini arbitrary: cs) (auto intro: few_push_set)

text \<open>At most five push settings, one per ID, whatever an agent sends and in whatever order.\<close>

lemma push_settings_bounded: "few_pushes (push_now rt (startPushes rt ini) s)"
proof -
  have "few_pushes (foldl push_receive cs sgs)" if "few_pushes cs" for cs sgs
    using that by (induction sgs arbitrary: cs) (auto intro: few_push_receive)
  moreover have "few_pushes []" by (simp add: few_pushes_def)
  ultimately show ?thesis using few_start by (auto simp: push_now_def startPushes_def)
qed

end
