(* ===== verification/Pg_Inbox.thy ===== *)
theory Pg_Inbox
  imports Workflow
begin

text \<open>
  What the dispatcher keeps in PostgreSQL (\<open>pkg/store/pgstore/pgstore.go\<close> and \<open>stream.go\<close>): cursors, the
  inbox of delivered events, where subscriptions resume, and the cross-references; and the runs a
  Temporal cluster knows, as far as \<open>TemporalStarter\<close> (\<open>pkg/engine/temporal.go\<close>) depends on them.

  Each operation is one SQL statement or one transaction and is modelled as one atomic change of the
  tables. A call may fail before it took effect or after it (the answer was lost); the list
  \<open>db_replies\<close> says what happens to the calls to come, and calls beyond its end are answered.
  The \<open>bigserial\<close> of the inbox is the counter \<open>db_nextseq\<close>; an insert that finds the event there
  already still uses up a number.
\<close>

section \<open>Tables\<close>

record inbox_row =
  ir_seq :: int
  ir_source :: string
  ir_event_id :: string
  ir_payload :: raw
  ir_received :: int

record xref_row =
  xr_entity :: string
  xr_system :: string
  xr_source_id :: string
  xr_master_id :: string
  xr_attributes :: "(string \<times> string) list"

datatype run_status = RunRunning | RunCompleted | RunFailed

record temporal_run =
  tr_Input :: run_input
  tr_TaskQueue :: string
  tr_Status :: run_status
  tr_Starts :: nat

datatype reply = Answered | Refused goerror | AnswerLost goerror

record db =
  db_cursors :: "string \<rightharpoonup> int"
  db_inbox :: "inbox_row list"
  db_nextseq :: int
  db_resume :: "string \<rightharpoonup> string"
  db_xref :: "xref_row list"
  db_locks :: "int set"
  db_runs :: "string \<rightharpoonup> temporal_run"
  db_now :: int
  db_replies :: "reply list"

definition next_reply :: "db \<Rightarrow> reply \<times> db" where
  "next_reply s = (case db_replies s of [] \<Rightarrow> (Answered, s) | r # rs \<Rightarrow> (r, s\<lparr>db_replies := rs\<rparr>))"

definition call_db :: "(db \<Rightarrow> 'a \<times> db) \<Rightarrow> db \<Rightarrow> (goerror + 'a) \<times> db" where
  "call_db f s =
     (case next_reply s of
        (Answered, s') \<Rightarrow> (case f s' of (a, s'') \<Rightarrow> (Inr a, s''))
      | (Refused e, s') \<Rightarrow> (Inl e, s')
      | (AnswerLost e, s') \<Rightarrow> (Inl e, snd (f s')))"

section \<open>Cursors\<close>

definition get_cursor :: "string \<Rightarrow> db \<Rightarrow> int" where
  "get_cursor name s = (case db_cursors s name of None \<Rightarrow> 0 | Some p \<Rightarrow> p)"

definition Cursor :: "string \<Rightarrow> db \<Rightarrow> int \<times> db" where
  "Cursor name s = (get_cursor name s, s)"

definition SetCursor :: "string \<Rightarrow> int \<Rightarrow> db \<Rightarrow> unit \<times> db" where
  "SetCursor name pos s =
     ((), s\<lparr>db_cursors := (db_cursors s)(name \<mapsto>
            (case db_cursors s name of None \<Rightarrow> pos | Some p \<Rightarrow> max p pos))\<rparr>)"

section \<open>The inbox\<close>

definition has_event :: "string \<Rightarrow> string \<Rightarrow> db \<Rightarrow> bool" where
  "has_event source i s = list_ex (\<lambda>r. ir_source r = source \<and> ir_event_id r = i) (db_inbox s)"

definition insert_event :: "string \<Rightarrow> nat \<times> db \<Rightarrow> run_event \<Rightarrow> nat \<times> db" where
  "insert_event source ns ev =
     (case ns of (n, s) \<Rightarrow>
        if has_event source (re_ID ev) s then (n, s\<lparr>db_nextseq := db_nextseq s + 1\<rparr>)
        else (n + 1, s\<lparr>db_nextseq := db_nextseq s + 1,
                       db_inbox := db_inbox s @ [\<lparr>ir_seq = db_nextseq s, ir_source = source, ir_event_id = re_ID ev,
                                                   ir_payload = re_Payload ev, ir_received = db_now s\<rparr>]\<rparr>))"

definition Deliver :: "string \<Rightarrow> run_event list \<Rightarrow> db \<Rightarrow> nat \<times> db" where
  "Deliver source events s = foldl (insert_event source) (0, s) events"

definition row_event :: "string \<Rightarrow> inbox_row \<Rightarrow> run_event" where
  "row_event name r = \<lparr>re_ID = ir_event_id r, re_Position = ir_seq r, re_Name = name, re_Payload = ir_payload r\<rparr>"

definition Inbox :: "string \<Rightarrow> string \<Rightarrow> int \<Rightarrow> nat \<Rightarrow> db \<Rightarrow> run_event list \<times> db" where
  "Inbox source name after limit s =
     (map (row_event name)
        (take limit (sort_key ir_seq (filter (\<lambda>r. ir_source r = source \<and> after < ir_seq r) (db_inbox s)))), s)"

definition PruneInbox :: "int \<Rightarrow> db \<Rightarrow> nat \<times> db" where
  "PruneInbox cutoff s =
     (length (filter (\<lambda>r. ir_received r < cutoff) (db_inbox s)),
      s\<lparr>db_inbox := filter (\<lambda>r. \<not> ir_received r < cutoff) (db_inbox s)\<rparr>)"

section \<open>Subscriptions\<close>

definition DeliverStream :: "string \<Rightarrow> run_event list \<Rightarrow> string \<Rightarrow> db \<Rightarrow> nat \<times> db" where
  "DeliverStream source events resume s =
     (case foldl (insert_event source) (0, s) events of
        (n, s') \<Rightarrow> if resume = '''' then (n, s') else (n, s'\<lparr>db_resume := (db_resume s')(source \<mapsto> resume)\<rparr>))"

definition StreamResume :: "string \<Rightarrow> db \<Rightarrow> string option \<times> db" where
  "StreamResume source s = (db_resume s source, s)"

text \<open>A lock is identified by the low 32 bits of the FNV-1a hash of its name, read as a signed number.
  Releasing runs the statement that gives the key back; its failure only loses the connection, which
  gives it back too.\<close>

definition fnv64a :: "string \<Rightarrow> nat" where
  "fnv64a s = foldl (\<lambda>h c. (xor h (of_char c) * 1099511628211) mod 18446744073709551616) 14695981039346656037 s"

definition lock_key :: "string \<Rightarrow> int" where
  "lock_key name = (int (fnv64a name) + 2147483648) mod 4294967296 - 2147483648"

definition TryLock :: "string \<Rightarrow> db \<Rightarrow> bool \<times> db" where
  "TryLock name s =
     (if lock_key name \<in> db_locks s then (False, s) else (True, s\<lparr>db_locks := insert (lock_key name) (db_locks s)\<rparr>))"

definition Unlock :: "string \<Rightarrow> db \<Rightarrow> db" where
  "Unlock name s = s\<lparr>db_locks := db_locks s - {lock_key name}\<rparr>"

section \<open>Cross-references\<close>

definition same_record :: "string \<Rightarrow> string \<Rightarrow> string \<Rightarrow> xref_row \<Rightarrow> bool" where
  "same_record entity system sourceID r =
     (xr_entity r = entity \<and> xr_system r = system \<and> xr_source_id r = sourceID)"

definition Xref :: "string \<Rightarrow> string \<Rightarrow> string \<Rightarrow> db \<Rightarrow> string option \<times> db" where
  "Xref entity system sourceID s = (map_option xr_master_id (find (same_record entity system sourceID) (db_xref s)), s)"

definition LinkXref ::
  "string \<Rightarrow> string \<Rightarrow> string \<Rightarrow> string \<Rightarrow> (string \<times> string) list \<Rightarrow> db \<Rightarrow> unit \<times> db" where
  "LinkXref entity system sourceID masterID attrs s =
     ((), if list_ex (same_record entity system sourceID) (db_xref s)
          then s\<lparr>db_xref := map (\<lambda>r. if same_record entity system sourceID r
                                       then r\<lparr>xr_master_id := masterID,
                                              xr_attributes := if attrs = [] then xr_attributes r else attrs\<rparr>
                                       else r) (db_xref s)\<rparr>
          else s\<lparr>db_xref := db_xref s @ [\<lparr>xr_entity = entity, xr_system = system, xr_source_id = sourceID,
                                             xr_master_id = masterID, xr_attributes = attrs\<rparr>]\<rparr>)"

definition PutXref :: "string \<Rightarrow> string \<Rightarrow> string \<Rightarrow> string \<Rightarrow> db \<Rightarrow> unit \<times> db" where
  "PutXref entity system sourceID masterID s = LinkXref entity system sourceID masterID [] s"

text \<open>The blocking condition of \<open>Candidates\<close>; which 500 of the rows that meet it the database returns is
  not specified, so the order of the table stands for it. Names are byte strings.\<close>

definition xref_attr :: "(string \<times> string) list \<Rightarrow> string \<Rightarrow> string" where
  "xref_attr m k = (case map_of m k of None \<Rightarrow> '''' | Some v \<Rightarrow> v)"

definition shares_attribute :: "(string \<times> string) list \<Rightarrow> (string \<times> string) list \<Rightarrow> bool" where
  "shares_attribute attrs row =
     (xref_attr attrs ''email'' \<noteq> '''' \<and> map_of row ''email'' = Some (xref_attr attrs ''email'') \<or>
      xref_attr attrs ''domain'' \<noteq> '''' \<and> map_of row ''domain'' = Some (xref_attr attrs ''domain'') \<or>
      xref_attr attrs ''name'' \<noteq> '''' \<and> map_option (take 3) (map_of row ''name'') = Some (take 3 (xref_attr attrs ''name'')) \<or>
      list_ex (\<lambda>(k, v). list_ex (\<lambda>(k', v'). HasPrefix k' ''exact:'' \<and> k @ ''='' @ v = k' @ ''='' @ v') attrs) row)"

definition Candidates :: "string \<Rightarrow> (string \<times> string) list \<Rightarrow> db \<Rightarrow> (string \<times> (string \<times> string) list) list \<times> db" where
  "Candidates entity attrs s =
     (map (\<lambda>r. (xr_master_id r, xr_attributes r))
        (take 500 (filter (\<lambda>r. xr_entity r = entity \<and> shares_attribute attrs (xr_attributes r)) (db_xref s))), s)"

section \<open>Runs\<close>

text \<open>\<open>ExecuteWorkflow\<close> with the reuse policy \<open>ALLOW_DUPLICATE_FAILED_ONLY\<close> and the conflict policy
  \<open>FAIL\<close>: refused while a run with the ID is running or has completed. \<open>tr_Starts\<close> counts how often a run was
  started under the ID. For \<open>Start\<close> the refusal is no error, for \<open>Retry\<close> it is.\<close>

definition execute_workflow :: "string \<Rightarrow> string \<Rightarrow> run_input \<Rightarrow> db \<Rightarrow> bool \<times> db" where
  "execute_workflow queue i inp s =
     (case db_runs s i of
        None \<Rightarrow> (True, s\<lparr>db_runs := (db_runs s)(i \<mapsto> \<lparr>tr_Input = inp, tr_TaskQueue = queue, tr_Status = RunRunning, tr_Starts = 1\<rparr>)\<rparr>)
      | Some r \<Rightarrow>
          if tr_Status r = RunFailed
          then (True, s\<lparr>db_runs := (db_runs s)(i \<mapsto> \<lparr>tr_Input = inp, tr_TaskQueue = queue, tr_Status = RunRunning, tr_Starts = tr_Starts r + 1\<rparr>)\<rparr>)
          else (False, s))"

definition Start :: "string \<Rightarrow> string \<Rightarrow> run_input \<Rightarrow> db \<Rightarrow> (goerror + unit) \<times> db" where
  "Start queue i inp s =
     (case call_db (execute_workflow queue i inp) s of
        (Inl e, s') \<Rightarrow> (Inl e, s')
      | (Inr started, s') \<Rightarrow> (Inr (), s'))"

definition Retry :: "string \<Rightarrow> string \<Rightarrow> runtime_spec option \<Rightarrow> db \<Rightarrow> (goerror + run_input) \<times> db" where
  "Retry queue i spec s =
     (case call_db (\<lambda>t. (db_runs t i, t)) s of
        (Inl e, s1) \<Rightarrow> (Inl e, s1)
      | (Inr None, s1) \<Rightarrow> (Inl (New_err ''run %s has no history'' [AStr i]), s1)
      | (Inr (Some r), s1) \<Rightarrow>
          (let inp = tr_Input r;
               new = (case spec of
                        None \<Rightarrow> Inr inp
                      | Some sp \<Rightarrow>
                          (case find (\<lambda>wf. wf_Name wf = wf_Name (ri_Workflow inp)) (rev (bd_Workflows (sp_Body sp))) of
                             None \<Rightarrow> Inl (New_err ''spec %s has no workflow %s'' [AStr (sp_Name sp), AStr (wf_Name (ri_Workflow inp))])
                           | Some w \<Rightarrow> Inr (inp\<lparr>ri_Workflow := w, ri_SpecDigest := sp_Digest sp\<rparr>)));
               q = (if queue = '''' then tr_TaskQueue r else queue)
           in case new of
                Inl e \<Rightarrow> (Inl e, s1)
              | Inr inp' \<Rightarrow>
                  if q = '''' then (Inl (New_err ''run %s does not record its task queue; pass --task-queue'' [AStr i]), s1)
                  else (case call_db (execute_workflow q i inp') s1 of
                          (Inl e, s2) \<Rightarrow> (Inl e, s2)
                        | (Inr False, s2) \<Rightarrow> (Inl (New_err ''run %s is running or completed; only failed runs can be retried'' [AStr i]), s2)
                        | (Inr True, s2) \<Rightarrow> (Inr inp', s2))))"

definition run_ends :: "string \<Rightarrow> run_status \<Rightarrow> db \<Rightarrow> db" where
  "run_ends i st s =
     (case db_runs s i of
        None \<Rightarrow> s
      | Some r \<Rightarrow> if tr_Status r = RunRunning then s\<lparr>db_runs := (db_runs s)(i \<mapsto> r\<lparr>tr_Status := st\<rparr>)\<rparr> else s)"

section \<open>Laws of the tables\<close>

lemmas call_defs = call_db_def next_reply_def

definition inbox_ok :: "db \<Rightarrow> bool" where
  "inbox_ok s =
     (sorted_wrt (<) (map ir_seq (db_inbox s)) \<and> (\<forall>r \<in> set (db_inbox s). 0 < ir_seq r \<and> ir_seq r < db_nextseq s) \<and>
      0 < db_nextseq s \<and> distinct (map (\<lambda>r. (ir_source r, ir_event_id r)) (db_inbox s)))"

lemma has_event_iff: "has_event source i s \<longleftrightarrow> (\<exists>r \<in> set (db_inbox s). ir_source r = source \<and> ir_event_id r = i)"
  by (simp add: has_event_def list_ex_iff)

lemma insert_event_ok: "inbox_ok s \<Longrightarrow> inbox_ok (snd (insert_event source (n, s) ev))"
  by (fastforce simp: inbox_ok_def insert_event_def has_event_iff sorted_wrt_append)

text \<open>What an insertion and a delivery do to the tables: rows are only appended, with numbers from the
  old counter on, and nothing but the inbox and its counter changes.\<close>

definition inbox_grows :: "db \<Rightarrow> db \<Rightarrow> bool" where
  "inbox_grows s s' =
     (\<exists>new m. s' = s\<lparr>db_inbox := db_inbox s @ new, db_nextseq := m\<rparr> \<and> db_nextseq s \<le> m \<and>
            (\<forall>r \<in> set new. db_nextseq s \<le> ir_seq r))"

lemma inbox_growsI:
  "s' = s\<lparr>db_inbox := db_inbox s @ new, db_nextseq := m\<rparr> \<Longrightarrow> db_nextseq s \<le> m \<Longrightarrow>
   (\<And>r. r \<in> set new \<Longrightarrow> db_nextseq s \<le> ir_seq r) \<Longrightarrow> inbox_grows s s'"
  by (auto simp: inbox_grows_def)

lemma inbox_grows_refl: "inbox_grows s s"
  by (rule inbox_growsI [where new = "[]" and m = "db_nextseq s"]) auto

lemma inbox_grows_trans:
  assumes "inbox_grows s t" "inbox_grows t u"
  shows "inbox_grows s u"
proof -
  from assms(1) obtain new m where st: "t = s\<lparr>db_inbox := db_inbox s @ new, db_nextseq := m\<rparr>" "db_nextseq s \<le> m"
    "\<And>r. r \<in> set new \<Longrightarrow> db_nextseq s \<le> ir_seq r"
    by (auto simp: inbox_grows_def)
  from assms(2) st(1) obtain new' m' where tu: "u = s\<lparr>db_inbox := db_inbox s @ new @ new', db_nextseq := m'\<rparr>" "m \<le> m'"
    "\<And>r. r \<in> set new' \<Longrightarrow> m \<le> ir_seq r"
    by (auto simp: inbox_grows_def)
  show ?thesis by (rule inbox_growsI [OF tu(1)]) (use st tu in force)+
qed

lemma insert_event_grows: "inbox_grows s (snd (insert_event source (n, s) ev))"
proof (cases "has_event source (re_ID ev) s")
  case True
  then show ?thesis by (intro inbox_growsI [where new = "[]" and m = "db_nextseq s + 1"]) (auto simp: insert_event_def)
next
  case False
  let ?r = "\<lparr>ir_seq = db_nextseq s, ir_source = source, ir_event_id = re_ID ev, ir_payload = re_Payload ev, ir_received = db_now s\<rparr>"
  from False show ?thesis by (intro inbox_growsI [where new = "[?r]" and m = "db_nextseq s + 1"]) (auto simp: insert_event_def)
qed

lemma foldl_insert_ok: "inbox_ok s \<Longrightarrow> inbox_ok (snd (foldl (insert_event source) (n, s) evs))"
proof (induction evs arbitrary: n s)
  case (Cons ev evs)
  obtain m t where "insert_event source (n, s) ev = (m, t)" by fastforce
  with insert_event_ok [OF Cons.prems, of source n ev] Cons.IH [of t m] show ?case by simp
qed simp

lemma foldl_insert_grows: "inbox_grows s (snd (foldl (insert_event source) (n, s) evs))"
proof (induction evs arbitrary: n s)
  case (Cons ev evs)
  obtain m t where "insert_event source (n, s) ev = (m, t)" by fastforce
  with insert_event_grows [of s source n ev] Cons.IH [of t m] inbox_grows_trans show ?case by fastforce
qed (simp add: inbox_grows_refl)

lemma has_event_grows: "inbox_grows s s' \<Longrightarrow> has_event source i s \<Longrightarrow> has_event source i s'"
  by (auto simp: inbox_grows_def has_event_iff)

lemma foldl_insert_has:
  "ev \<in> set evs \<Longrightarrow> has_event source (re_ID ev) (snd (foldl (insert_event source) (n, s) evs))"
proof (induction evs arbitrary: n s)
  case (Cons e evs)
  obtain m t where t: "insert_event source (n, s) e = (m, t)" by fastforce
  have "has_event source (re_ID e) t"
    using t by (auto simp: insert_event_def has_event_iff split: if_splits)
  from has_event_grows [OF foldl_insert_grows this] Cons.IH [of m t] Cons.prems t show ?case by auto
qed simp

lemma Deliver_ok: "inbox_ok s \<Longrightarrow> inbox_ok (snd (Deliver source evs s))"
  by (simp add: Deliver_def foldl_insert_ok)

lemma Deliver_grows: "inbox_grows s (snd (Deliver source evs s))"
  by (simp add: Deliver_def foldl_insert_grows)

lemma Deliver_has: "ev \<in> set evs \<Longrightarrow> has_event source (re_ID ev) (snd (Deliver source evs s))"
  by (simp add: Deliver_def foldl_insert_has)

lemma DeliverStream_inbox:
  "snd (DeliverStream source evs resume s) =
     (let t = snd (Deliver source evs s)
      in if resume = '''' then t else t\<lparr>db_resume := (db_resume t)(source \<mapsto> resume)\<rparr>)"
  by (cases "foldl (insert_event source) (0, s) evs") (simp add: DeliverStream_def Deliver_def)

lemma PruneInbox_ok: "inbox_ok s \<Longrightarrow> inbox_ok (snd (PruneInbox c s))"
  by (auto simp: inbox_ok_def PruneInbox_def sorted_wrt_map sorted_wrt_filter distinct_map_filter)

lemma Inbox_rows:
  assumes "inbox_ok s"
  shows "Inbox source name after limit s =
           (map (row_event name) (take limit (filter (\<lambda>r. ir_source r = source \<and> after < ir_seq r) (db_inbox s))), s)"
proof -
  let ?f = "filter (\<lambda>r. ir_source r = source \<and> after < ir_seq r) (db_inbox s)"
  from assms have "sorted_wrt (\<lambda>x y. ir_seq x < ir_seq y) ?f"
    by (auto simp: inbox_ok_def sorted_wrt_map intro: sorted_wrt_filter)
  then have "sorted (map ir_seq ?f)"
    by (auto simp: sorted_wrt_map elim: sorted_wrt_mono_rel [rotated])
  then have "sort_key ir_seq ?f = ?f" by (rule sort_key_id_if_sorted)
  then show ?thesis by (simp add: Inbox_def)
qed

lemma SetCursor_get: "get_cursor name' (snd (SetCursor name pos s)) =
    (if name' = name then (case db_cursors s name of None \<Rightarrow> pos | Some p \<Rightarrow> max p pos) else get_cursor name' s)"
  by (simp add: SetCursor_def get_cursor_def)

lemma find_map_same:
  "find (same_record e sy i) (map (\<lambda>r. if same_record e sy i r then r\<lparr>xr_master_id := m, xr_attributes := g r\<rparr> else r) rs) =
     map_option (\<lambda>r. r\<lparr>xr_master_id := m, xr_attributes := g r\<rparr>) (find (same_record e sy i) rs)"
  by (induction rs) (auto simp: same_record_def)

lemma find_append_last: "(\<forall>x \<in> set xs. \<not> P x) \<Longrightarrow> find P (xs @ [y]) = (if P y then Some y else None)"
  by (induction xs) auto

lemma Xref_LinkXref: "fst (Xref e sy i (snd (LinkXref e sy i m a s))) = Some m"
proof (cases "list_ex (same_record e sy i) (db_xref s)")
  case True
  then obtain r where "find (same_record e sy i) (db_xref s) = Some r"
    by (metis find_None_all list_ex_iff not_None_eq)
  then show ?thesis using True by (simp add: Xref_def LinkXref_def find_map_same)
next
  case False
  then have "\<forall>x \<in> set (db_xref s). \<not> same_record e sy i x" by (simp add: list_ex_iff)
  with False show ?thesis by (simp add: Xref_def LinkXref_def find_append_last) (simp add: same_record_def)
qed

end
