(* ===== verification/Sources.thy ===== *)
theory Sources
  imports Pg_Inbox "HOL-Library.Word"
begin

text \<open>
  How connectors read events from their systems: \<open>Poll\<close> of the SAP, Salesforce, Odoo, REST and
  PostgreSQL connectors under \<open>pkg/connector\<close>. A system's answer to a request is a parameter, a function of
  the request's position, limit and page; a record in an answer is a JSON object. The text of the
  requests (SOQL, OData, SQL) is not modelled. The library functions that read and print times and print values
  are the record \<open>go_lib\<close>; a time is its number of nanoseconds since 1970.
\<close>

unbundle bit_operations_syntax

record go_lib =
  gl_Number :: "rat \<Rightarrow> string"
  gl_Sprint :: "json \<Rightarrow> string"
  gl_Parse :: "string \<Rightarrow> string \<Rightarrow> int option"
  gl_Format :: "string \<Rightarrow> int \<Rightarrow> string"

definition UnixMilli :: "int \<Rightarrow> int" where
  "UnixMilli t = t div 1000000"

definition RFC3339Nano :: string where
  "RFC3339Nano = ''2006-01-02T15:04:05.999999999Z07:00''"

definition RFC3339 :: string where
  "RFC3339 = ''2006-01-02T15:04:05Z07:00''"

text \<open>The conversions of the records of a page, stopping at the first that fails.\<close>

fun to_events :: "('r \<Rightarrow> goerror + run_event) \<Rightarrow> 'r list \<Rightarrow> goerror + run_event list" where
  "to_events conv [] = Inr []"
| "to_events conv (r # rs) =
     (case conv r of
        Inl e \<Rightarrow> Inl e
      | Inr ev \<Rightarrow> (case to_events conv rs of Inl e \<Rightarrow> Inl e | Inr evs \<Rightarrow> Inr (ev # evs)))"

text \<open>\<open>boundary\<close>, the loop that drops the trailing events sharing the last position.\<close>

fun boundary_loop :: "run_event list \<Rightarrow> nat \<Rightarrow> nat" where
  "boundary_loop evs 0 = 0"
| "boundary_loop evs (Suc n) =
     (if re_Position (evs ! n) = re_Position (evs ! (length evs - 1)) then boundary_loop evs n else Suc n)"

definition boundary :: "run_event list \<Rightarrow> nat" where
  "boundary evs = boundary_loop evs (length evs)"

section \<open>SAP\<close>

text \<open>The expression \<open>^/Date\((-?\d+)([+-]\d{4})?\)/$\<close>: its first group, the milliseconds.\<close>

definition date_number :: "string \<Rightarrow> string \<times> string" where
  "date_number s =
     (case s of
        CHR 0x2D # r \<Rightarrow> (CHR 0x2D # takeWhile is_digit r, dropWhile is_digit r)
      | _ \<Rightarrow> (takeWhile is_digit s, dropWhile is_digit s))"

definition date_offset :: "string \<Rightarrow> bool" where
  "date_offset s =
     (case s of
        [] \<Rightarrow> True
      | c # r \<Rightarrow> (c = CHR ''+'' \<or> c = CHR 0x2D) \<and> length r = 4 \<and> list_all is_digit r)"

definition dateRE :: "string \<Rightarrow> string option" where
  "dateRE s =
     (if HasPrefix s ''/Date('' \<and> HasSuffix s '')/'' \<and> 8 \<le> length s
      then (case date_number (take (length s - 8) (drop 6 s)) of
              (n, r) \<Rightarrow> if n \<noteq> '''' \<and> n \<noteq> ''-'' \<and> date_offset r then Some n else None)
      else None)"

definition parseDate :: "go_lib \<Rightarrow> json option \<Rightarrow> int option" where
  "parseDate lib v =
     (let s = (case v of Some (JStr x) \<Rightarrow> x | _ \<Rightarrow> '''') in
      case dateRE s of
        Some m \<Rightarrow> map_option (\<lambda>ms. ms * 1000000) (Atoi m)
      | None \<Rightarrow>
          (case gl_Parse lib RFC3339Nano s of
             Some t \<Rightarrow> Some t
           | None \<Rightarrow>
               (case gl_Parse lib ''2006-01-02T15:04:05'' s of
                  Some t \<Rightarrow> Some t
                | None \<Rightarrow> gl_Parse lib ''2006-01-02'' s)))"

text \<open>A number of milliseconds out of range is an error of \<open>parseDate\<close>, whose time \<open>clean\<close> still uses: the nearest number in range.\<close>

definition date_ms :: "string \<Rightarrow> int" where
  "date_ms m = (case Atoi m of Some ms \<Rightarrow> ms | None \<Rightarrow> if HasPrefix m ''-'' then min_int64 else max_int64)"

definition clean_string :: "go_lib \<Rightarrow> string \<Rightarrow> string" where
  "clean_string lib x =
     (case dateRE x of
        None \<Rightarrow> x
      | Some m \<Rightarrow>
          (let t = date_ms m * 1000000
           in if t mod 86400000000000 = 0 then gl_Format lib ''2006-01-02'' t else gl_Format lib RFC3339 t))"

definition is_deferred :: "json \<Rightarrow> bool" where
  "is_deferred v = (case v of JObj m \<Rightarrow> map_of m ''__deferred'' \<noteq> None | _ \<Rightarrow> False)"

definition is_arr :: "json option \<Rightarrow> bool" where
  "is_arr v = (case v of Some (JArr _) \<Rightarrow> True | _ \<Rightarrow> False)"

fun clean :: "go_lib \<Rightarrow> json \<Rightarrow> json" where
  "clean lib (JObj x) =
     (if is_arr (map_of x ''results'') \<and> length x \<le> 2
      then JArr (concat (map (\<lambda>(k, v). if k = ''results'' then (case clean lib v of JArr ys \<Rightarrow> ys | _ \<Rightarrow> []) else []) x))
      else JObj (filter (\<lambda>(k, v). k \<noteq> ''__metadata'' \<and> \<not> is_deferred v) (map (\<lambda>(k, v). (k, if is_deferred v then v else clean lib v)) x)))"
| "clean lib (JArr xs) = JArr (map (clean lib) xs)"
| "clean lib (JStr s) = JStr (clean_string lib s)"
| "clean lib v = v"

record sap_event =
  se_EntitySet :: string
  se_Key :: string
  se_Changed :: string

definition sap_toEvent :: "go_lib \<Rightarrow> string \<Rightarrow> sap_event \<Rightarrow> doc \<Rightarrow> goerror + run_event" where
  "sap_toEvent lib name e rcd =
     (let key = (case map_of rcd (se_Key e) of Some v \<Rightarrow> v | None \<Rightarrow> JNull);
          i = gl_Sprint lib key
      in case parseDate lib (map_of rcd (se_Changed e)) of
           None \<Rightarrow> Inl (New_err ''sap: %s entity %q has no valid %s'' [AStr (se_EntitySet e), AStr i, AStr (se_Changed e)])
         | Some t \<Rightarrow>
             if key = JNull then Inl (New_err ''sap: %s entity %q has no valid %s'' [AStr (se_EntitySet e), AStr i, AStr (se_Changed e)])
             else Inr \<lparr>re_ID = i, re_Position = UnixMilli t, re_Name = name, re_Payload = RawDoc (clean lib (JObj rcd))\<rparr>)"

text \<open>The connection: its configured events, its page size and the bound on the pages of a poll, and
  the answer to the query for an event: entities changed after a position, \<open>$top\<close> and \<open>$skip\<close> applied.\<close>

record sap_conn =
  sc_Events :: "string \<rightharpoonup> sap_event"
  sc_PageSize :: nat
  sc_MaxPages :: nat
  sc_Query :: "string \<Rightarrow> int \<Rightarrow> nat \<Rightarrow> nat \<Rightarrow> goerror + doc list"

fun sap_pages ::
  "go_lib \<Rightarrow> sap_conn \<Rightarrow> string \<Rightarrow> sap_event \<Rightarrow> int \<Rightarrow> nat \<Rightarrow> nat \<Rightarrow> nat \<Rightarrow> run_event list \<Rightarrow> goerror + run_event list" where
  "sap_pages lib c name e after limit 0 page evs =
     Inl (New_err ''sap: more than %d entities of %s share one %s''
            [AInt (int (sc_MaxPages c * limit)), AStr (se_EntitySet e), AStr (se_Changed e)])"
| "sap_pages lib c name e after limit (Suc left) page evs =
     (case sc_Query c name after limit (page * limit) of
        Inl err \<Rightarrow> Inl err
      | Inr recs \<Rightarrow>
          (case to_events (sap_toEvent lib name e) recs of
             Inl err \<Rightarrow> Inl err
           | Inr new \<Rightarrow>
               (let evs' = evs @ new in
                if length recs < limit then Inr evs'
                else if 0 < boundary evs' then Inr (take (boundary evs') evs')
                else sap_pages lib c name e after limit left (page + 1) evs')))"

definition sap_Poll :: "go_lib \<Rightarrow> sap_conn \<Rightarrow> string \<Rightarrow> int \<Rightarrow> int \<Rightarrow> goerror + run_event list" where
  "sap_Poll lib c name after limit =
     (case sc_Events c name of
        None \<Rightarrow> Inl (New_err ''sap: event %q is not configured on this connection'' [AStr name])
      | Some e \<Rightarrow>
          sap_pages lib c name e after
            (if limit \<le> 0 \<or> int (sc_PageSize c) < limit then sc_PageSize c else nat limit)
            (sc_MaxPages c) 0 [])"

section \<open>Salesforce\<close>

fun stripAttributes :: "json \<Rightarrow> json" where
  "stripAttributes (JObj x) =
     JObj (filter (\<lambda>(k, v). k \<noteq> ''attributes'') (map (\<lambda>(k, v). (k, stripAttributes v)) x))"
| "stripAttributes (JArr xs) = JArr (map stripAttributes xs)"
| "stripAttributes v = v"

definition str_field :: "doc \<Rightarrow> string \<Rightarrow> string" where
  "str_field rcd k = (case map_of rcd k of Some (JStr s) \<Rightarrow> s | _ \<Rightarrow> '''')"

definition sf_toEvent :: "go_lib \<Rightarrow> string \<Rightarrow> doc \<Rightarrow> goerror + run_event" where
  "sf_toEvent lib name rcd =
     (case gl_Parse lib ''2006-01-02T15:04:05.000-0700'' (str_field rcd ''SystemModstamp'') of
        None \<Rightarrow> Inl (New_err ''salesforce: record %s has invalid SystemModstamp %q''
                       [AStr (str_field rcd ''Id''), AStr (str_field rcd ''SystemModstamp'')])
      | Some t \<Rightarrow> Inr \<lparr>re_ID = str_field rcd ''Id'', re_Position = UnixMilli t, re_Name = name,
                        re_Payload = RawDoc (stripAttributes (JObj rcd))\<rparr>)"

text \<open>The connection: \<open>PageLimit\<close>, and the answer to the query for an event after a position, page by
  page; a page says whether there is a next one (not \<open>done\<close>, and a URL for it).\<close>

record sf_conn =
  fc_Events :: "string \<rightharpoonup> string"
  fc_Streams :: "string \<Rightarrow> bool"
  fc_PageLimit :: nat
  fc_Query :: "string \<Rightarrow> int \<Rightarrow> nat \<Rightarrow> goerror + (doc list \<times> bool)"

function sf_pages ::
  "go_lib \<Rightarrow> sf_conn \<Rightarrow> string \<Rightarrow> string \<Rightarrow> int \<Rightarrow> int \<Rightarrow> nat \<Rightarrow> run_event list \<Rightarrow> goerror + run_event list" where
  "sf_pages lib c name sobj after limit pages evs =
     (case fc_Query c name after pages of
        Inl err \<Rightarrow> Inl err
      | Inr (recs, hasNext) \<Rightarrow>
          (case to_events (sf_toEvent lib name) recs of
             Inl err \<Rightarrow> Inl err
           | Inr new \<Rightarrow>
               (let evs' = evs @ new in
                if \<not> hasNext then Inr evs'
                else if limit \<le> int (length evs') \<or> fc_PageLimit c \<le> pages
                then (if 0 < boundary evs' then Inr (take (boundary evs') evs')
                      else if 10 * fc_PageLimit c \<le> pages
                      then Inl (New_err ''salesforce: more than %d pages of %s share one SystemModstamp'' [AInt (int pages), AStr sobj])
                      else sf_pages lib c name sobj after limit (pages + 1) evs')
                else sf_pages lib c name sobj after limit (pages + 1) evs')))"
  by pat_completeness auto
termination
  by (relation "measure (\<lambda>(lib, c, name, sobj, after, limit, pages, evs). 10 * fc_PageLimit c + 1 - pages)") auto

declare sf_pages.simps [simp del]

definition sf_Poll :: "go_lib \<Rightarrow> sf_conn \<Rightarrow> string \<Rightarrow> int \<Rightarrow> int \<Rightarrow> goerror + run_event list" where
  "sf_Poll lib c name after limit =
     (case fc_Events c name of
        None \<Rightarrow>
          if fc_Streams c name
          then Inl (New_err ''salesforce: event %q arrives over the Pub/Sub API, not by polling'' [AStr name])
          else Inl (New_err ''salesforce: event %q is not configured on this connection'' [AStr name])
      | Some sobj \<Rightarrow> sf_pages lib c name sobj after limit 1 [])"

section \<open>Odoo\<close>

definition idBits :: nat where
  "idBits = 31"

text \<open>\<open>position\<close> and \<open>cursor\<close>; times are whole seconds.\<close>

definition odoo_position :: "int \<Rightarrow> int \<Rightarrow> int" where
  "odoo_position t i = or (wrap64 (push_bit idBits t)) i"

definition odoo_cursor :: "int \<Rightarrow> int \<times> int" where
  "odoo_cursor after =
     (if after < 1099511627776 then (after div 1000, 2147483647)
      else (drop_bit idBits after, and after 2147483647))"

definition id64 :: "json option \<Rightarrow> int" where
  "id64 v = (case v of
      Some (JNum n) \<Rightarrow> (if n = of_int \<lfloor>n\<rfloor> \<and> min_int64 \<le> \<lfloor>n\<rfloor> \<and> \<lfloor>n\<rfloor> \<le> max_int64 then \<lfloor>n\<rfloor> else 0)
    | _ \<Rightarrow> 0)"

definition odoo_toEvent :: "go_lib \<Rightarrow> string \<Rightarrow> string \<Rightarrow> doc \<Rightarrow> goerror + run_event" where
  "odoo_toEvent lib name model rcd =
     (let i = gl_Sprint lib (case map_of rcd ''id'' of Some v \<Rightarrow> v | None \<Rightarrow> JNull) in
      case gl_Parse lib ''2006-01-02 15:04:05'' (str_field rcd ''write_date'') of
        None \<Rightarrow> Inl (New_err ''odoo: %s record %s has no valid write_date (%q)'' [AStr model, AStr i, AStr (str_field rcd ''write_date'')])
      | Some t \<Rightarrow>
          (let n = id64 (map_of rcd ''id'') in
           if n \<le> 0 \<or> 2147483648 \<le> n
           then Inl (New_err ''odoo: %s record ID %s is outside the positions' range'' [AStr model, AStr i])
           else Inr \<lparr>re_ID = i, re_Position = odoo_position (t div 1000000000) n, re_Name = name, re_Payload = RawDoc (JObj rcd)\<rparr>))"

text \<open>The connection: the model and settle time of its events, its page size and clock (in seconds), and the answer of \<open>search_read\<close>
  to the domain "changed after the second, or in it with a higher ID, and not after the settle limit".\<close>

record odoo_conn =
  oc_Events :: "string \<rightharpoonup> string \<times> int option"
  oc_PageSize :: int
  oc_now :: int
  oc_Search :: "string \<Rightarrow> int \<Rightarrow> int \<Rightarrow> int \<Rightarrow> int \<Rightarrow> goerror + doc list"

definition odoo_Poll :: "go_lib \<Rightarrow> odoo_conn \<Rightarrow> string \<Rightarrow> int \<Rightarrow> int \<Rightarrow> goerror + run_event list" where
  "odoo_Poll lib c name after limit =
     (case oc_Events c name of
        None \<Rightarrow> Inl (New_err ''odoo: event %q is not configured on this connection'' [AStr name])
      | Some (model, settleSeconds) \<Rightarrow>
          (let lim = (if limit \<le> 0 \<or> oc_PageSize c < limit then oc_PageSize c else limit);
               settle = (case settleSeconds of None \<Rightarrow> 60 | Some n \<Rightarrow> n)
           in case odoo_cursor after of
                (since, lastID) \<Rightarrow>
                  (case oc_Search c name since lastID (oc_now c - settle) lim of
                     Inl e \<Rightarrow> Inl e
                   | Inr recs \<Rightarrow>
                       (case to_events (odoo_toEvent lib name model) recs of
                          Inl e \<Rightarrow> Inl e
                        | Inr evs \<Rightarrow> Inr (filter (\<lambda>ev. after < re_Position ev) evs)))))"

section \<open>REST\<close>

text \<open>\<open>lookup\<close> follows a dotted path through objects and lists; \<^const>\<open>JNull\<close> stands for Go's nil.\<close>

definition rest_part :: "string \<Rightarrow> json \<Rightarrow> json" where
  "rest_part part v =
     (case v of
        JObj x \<Rightarrow> (case map_of x part of None \<Rightarrow> JNull | Some y \<Rightarrow> y)
      | JArr xs \<Rightarrow> (case Atoi part of None \<Rightarrow> JNull | Some i \<Rightarrow> if 0 \<le> i \<and> i < int (length xs) then xs ! nat i else JNull)
      | _ \<Rightarrow> JNull)"

definition rest_lookup :: "json \<Rightarrow> string \<Rightarrow> json" where
  "rest_lookup v path = (if path = '''' then v else foldl (\<lambda>x part. rest_part part x) v (Split CHR ''.'' path))"

definition emptyList :: "json \<Rightarrow> string \<Rightarrow> bool" where
  "emptyList resp path =
     (rest_lookup resp path = JNull \<and>
      (case CutLast CHR ''.'' path of
         None \<Rightarrow> False
       | Some (p, _) \<Rightarrow> (case rest_lookup resp p of JObj _ \<Rightarrow> True | _ \<Rightarrow> False)))"

definition rest_scalar :: "go_lib \<Rightarrow> json \<Rightarrow> string" where
  "rest_scalar lib v =
     (case v of JStr x \<Rightarrow> x | JNum n \<Rightarrow> gl_Number lib n | JBool b \<Rightarrow> (if b then ''true'' else ''false'') | _ \<Rightarrow> '''')"

definition parsePosition :: "go_lib \<Rightarrow> json \<Rightarrow> string \<Rightarrow> int option" where
  "parsePosition lib v format =
     (let s = rest_scalar lib v in
      if format = ''msjson'' then (case dateRE s of None \<Rightarrow> None | Some m \<Rightarrow> Atoi m)
      else if format = ''rfc3339'' then map_option UnixMilli (gl_Parse lib RFC3339Nano s)
      else if format = ''unix'' then map_option (\<lambda>n. wrap64 (n * 1000)) (Atoi s)
      else Atoi s)"

record rest_pagination =
  pg_Cursor :: string
  pg_More :: string
  pg_MaxPages :: int

record rest_event =
  rv_Path :: string
  rv_Items :: string
  rv_ID :: string
  rv_Position :: string
  rv_PositionFormat :: string
  rv_Order :: string
  rv_Pagination :: "rest_pagination option"

text \<open>The API's answer to the list request after a position, with a limit, for the first page or the page after a
  cursor value.\<close>

record rest_conn =
  rc_Events :: "string \<rightharpoonup> rest_event"
  rc_List :: "string \<Rightarrow> int \<Rightarrow> int \<Rightarrow> string option \<Rightarrow> goerror + json"

definition or_str :: "string \<Rightarrow> string \<Rightarrow> string" where
  "or_str v def = (if v = '''' then def else v)"

text \<open>The loop over the items of a page: whether the position was reached, the last item and the events.\<close>

fun rest_items ::
  "go_lib \<Rightarrow> string \<Rightarrow> rest_event \<Rightarrow> int \<Rightarrow> json list \<Rightarrow> bool \<times> json option \<times> run_event list
     \<Rightarrow> goerror + bool \<times> json option \<times> run_event list" where
  "rest_items lib name e after [] acc = Inr acc"
| "rest_items lib name e after (it # its) (reached, lst, evs) =
     (case it of
        JObj x \<Rightarrow>
          (let idField = or_str (rv_ID e) ''id'';
               posField = or_str (rv_Position e) idField;
               i = rest_scalar lib (rest_lookup it idField)
           in case parsePosition lib (rest_lookup it posField) (rv_PositionFormat e) of
                None \<Rightarrow> Inl (New_err ''rest: %s: item without a usable %s/%s: %v'' [AStr (rv_Path e), AStr idField, AStr posField])
              | Some pos \<Rightarrow>
                  if i = '''' then Inl (New_err ''rest: %s: item without a usable %s/%s: %v'' [AStr (rv_Path e), AStr idField, AStr posField])
                  else if pos \<le> after then rest_items lib name e after its (True, Some it, evs)
                  else rest_items lib name e after its (reached, Some it,
                         evs @ [\<lparr>re_ID = i, re_Position = pos, re_Name = name, re_Payload = RawDoc it\<rparr>]))
      | _ \<Rightarrow> Inl (New_err ''rest: %s: items must be objects'' [AStr (rv_Path e)]))"

definition rest_page_items :: "rest_event \<Rightarrow> json \<Rightarrow> goerror + json list" where
  "rest_page_items e resp =
     (case rest_lookup resp (rv_Items e) of
        JArr xs \<Rightarrow> Inr xs
      | _ \<Rightarrow> if emptyList resp (rv_Items e) then Inr []
             else Inl (New_err ''rest: %s: response has no item array at %q'' [AStr (rv_Path e), AStr (rv_Items e)]))"

text \<open>A descending list, paged back until the position is reached; the number of pages left bounds it.
  (\<open>validate\<close> refuses a descending event without pagination.)\<close>

fun rest_desc ::
  "go_lib \<Rightarrow> rest_conn \<Rightarrow> string \<Rightarrow> rest_event \<Rightarrow> rest_pagination \<Rightarrow> int \<Rightarrow> int \<Rightarrow> nat \<Rightarrow> nat \<Rightarrow> string option \<Rightarrow> run_event list
     \<Rightarrow> goerror + run_event list" where
  "rest_desc lib c name e p after limit maxPages left cur evs =
     (case rc_List c name after limit cur of
        Inl err \<Rightarrow> Inl err
      | Inr resp \<Rightarrow>
          (case rest_page_items e resp of
             Inl err \<Rightarrow> Inl err
           | Inr xs \<Rightarrow>
               (case rest_items lib name e after xs (False, None, evs) of
                  Inl err \<Rightarrow> Inl err
                | Inr (reached, lst, evs') \<Rightarrow>
                    if reached \<or> rest_lookup resp (pg_More p) \<noteq> JBool True then Inr evs'
                    else (case lst of
                            None \<Rightarrow> Inr evs'
                          | Some it \<Rightarrow>
                              (case left of
                                 0 \<Rightarrow> Inl (New_err ''rest: %s: more than %d pages of new items; raise pagination.maxPages or poll more often''
                                             [AStr (rv_Path e), AInt (int maxPages)])
                               | Suc n \<Rightarrow>
                                   rest_desc lib c name e p after limit maxPages n
                                     (Some (rest_scalar lib (rest_lookup it (or_str (pg_Cursor p) (or_str (rv_ID e) ''id''))))) evs')))))"

declare rest_desc.simps [simp del]

definition rest_cut :: "rest_event \<Rightarrow> int \<Rightarrow> bool \<Rightarrow> run_event list \<Rightarrow> run_event list" where
  "rest_cut e limit truncated evs =
     (let sorted = sort_key re_Position evs;
          cutoff = limit < int (length sorted);
          evs1 = (if cutoff then take (nat limit) sorted else sorted)
      in if (cutoff \<or> truncated) \<and> rv_PositionFormat e \<noteq> '''' \<and> rv_PositionFormat e \<noteq> ''number'' \<and> 0 < boundary evs1
         then take (boundary evs1) evs1 else evs1)"

definition rest_Poll :: "go_lib \<Rightarrow> rest_conn \<Rightarrow> string \<Rightarrow> int \<Rightarrow> int \<Rightarrow> goerror + run_event list" where
  "rest_Poll lib c name after limit =
     (case rc_Events c name of
        None \<Rightarrow> Inl (New_err ''rest: event %q is not configured on this connection'' [AStr name])
      | Some e \<Rightarrow>
          (case (if rv_Order e = ''desc'' then rv_Pagination e else None) of
             Some p \<Rightarrow>
               (let maxPages = (if pg_MaxPages p \<le> 0 then 20 else nat (pg_MaxPages p)) in
                case rest_desc lib c name e p after limit maxPages (maxPages - 1) None [] of
                  Inl err \<Rightarrow> Inl err
                | Inr evs \<Rightarrow> Inr (rest_cut e limit False evs))
           | None \<Rightarrow>
               (case rc_List c name after limit None of
                  Inl err \<Rightarrow> Inl err
                | Inr resp \<Rightarrow>
                    (case rest_page_items e resp of
                       Inl err \<Rightarrow> Inl err
                     | Inr xs \<Rightarrow>
                         (case rest_items lib name e after xs (False, None, []) of
                            Inl err \<Rightarrow> Inl err
                          | Inr (reached, lst, evs) \<Rightarrow> Inr (rest_cut e limit (limit \<le> int (length xs)) evs))))))"

section \<open>PostgreSQL\<close>

text \<open>The outbox: rows with an ID, an event name and a payload; the table is a parameter.\<close>

record outbox_row =
  ob_id :: int
  ob_event :: string
  ob_payload :: raw

definition outbox_Poll :: "outbox_row list \<Rightarrow> string \<Rightarrow> int \<Rightarrow> nat \<Rightarrow> run_event list" where
  "outbox_Poll rows event after limit =
     map (\<lambda>r. \<lparr>re_ID = Itoa_int (ob_id r), re_Position = ob_id r, re_Name = event, re_Payload = ob_payload r\<rparr>)
       (take limit (sort_key ob_id (filter (\<lambda>r. ob_event r = event \<and> after < ob_id r) rows)))"

text \<open>Positions of change capture: the LSN of a transaction's commit and the index of the change in it.\<close>

definition indexBits :: nat where
  "indexBits = 15"

definition maxIndex :: int where
  "maxIndex = 2 ^ indexBits - 1"

definition maxLSN :: int where
  "maxLSN = 2 ^ (63 - indexBits) - 1"

text \<open>A position is an \<open>int64\<close>, its bits a \<^typ>\<open>64 word\<close>; the comparison of positions is the one of \<^const>\<open>sint\<close>.\<close>

definition cdc_position :: "64 word \<Rightarrow> int \<Rightarrow> 64 word" where
  "cdc_position commit index = push_bit indexBits commit OR word_of_int index"

definition commitOf :: "64 word \<Rightarrow> 64 word" where
  "commitOf pos = drop_bit indexBits pos"

definition lsn_val :: "char \<Rightarrow> nat option" where
  "lsn_val c =
     (let n = (of_char c :: nat) in
      if 48 \<le> n \<and> n \<le> 57 then Some (n - 48)
      else if 65 \<le> n \<and> n \<le> 70 then Some (n - 55)
      else if 97 \<le> n \<and> n \<le> 102 then Some (n - 87) else None)"

definition lsn_digit :: "nat \<Rightarrow> char" where
  "lsn_digit n = char_of (if n < 10 then 48 + n else 55 + n)"

text \<open>\<open>strconv.ParseUint(s, 16, 32)\<close> and the verb \<open>%X\<close>.\<close>

fun hex_digits :: "nat \<Rightarrow> string \<Rightarrow> nat option" where
  "hex_digits acc [] = Some acc"
| "hex_digits acc (c # cs) = (case lsn_val c of None \<Rightarrow> None | Some d \<Rightarrow> hex_digits (16 * acc + d) cs)"

definition ParseUint16_32 :: "string \<Rightarrow> nat option" where
  "ParseUint16_32 s =
     (if s = '''' then None
      else case hex_digits 0 s of None \<Rightarrow> None | Some n \<Rightarrow> if n < 4294967296 then Some n else None)"

fun format_X :: "nat \<Rightarrow> string" where
  "format_X n = (if n < 16 then [lsn_digit n] else format_X (n div 16) @ [lsn_digit (n mod 16)])"

declare format_X.simps [simp del]

definition parseLSN :: "string \<Rightarrow> 64 word option" where
  "parseLSN s =
     (case CutByte CHR ''/'' s of
        (hi, None) \<Rightarrow> None
      | (hi, Some lo) \<Rightarrow>
          (case ParseUint16_32 hi of
             None \<Rightarrow> None
           | Some h \<Rightarrow>
               (case ParseUint16_32 lo of
                  None \<Rightarrow> None
                | Some l \<Rightarrow> Some (push_bit 32 (of_nat h) OR of_nat l))))"

definition formatLSN :: "64 word \<Rightarrow> string" where
  "formatLSN lsn = format_X (unat (drop_bit 32 lsn)) @ ''/'' @ format_X (unat (take_bit 32 lsn))"

end
