(* ===== verification/Source_Props.thy ===== *)
theory Source_Props
  imports Sources
begin

text \<open>
  What the dispatcher may rely on when it polls a source, as the locale \<open>event_source\<close>: a poll returns
  events after the position, in order, and a later cursor cannot skip one. The SAP, Salesforce and
  Odoo connectors and the outbox are shown to keep it against a system that answers its queries as
  documented. The REST connector does not, and neither does a cursor that an earlier version of the Odoo
  connector stored.
\<close>

abbreviation pos :: "run_event \<Rightarrow> int" where
  "pos \<equiv> re_Position"

section \<open>Interface\<close>

locale event_source =
  fixes poll :: "int \<Rightarrow> int \<Rightarrow> goerror + run_event list"
    and holds :: "run_event set"
  assumes poll_new: "poll a l = Inr evs \<Longrightarrow> ev \<in> set evs \<Longrightarrow> ev \<in> holds \<and> a < pos ev"
    and poll_order: "poll a l = Inr evs \<Longrightarrow> sorted (map pos evs)"
    and poll_no_gap: "poll a l = Inr evs \<Longrightarrow> evs \<noteq> [] \<Longrightarrow> x \<in> holds \<Longrightarrow> a < pos x \<Longrightarrow> pos x \<le> pos (last evs) \<Longrightarrow> x \<in> set evs"
    and poll_done: "0 < l \<Longrightarrow> poll a l = Inr [] \<Longrightarrow> x \<in> holds \<Longrightarrow> pos x \<le> a"
begin

text \<open>After a poll, the cursor at its last event separates what was returned from what was not.\<close>

lemma poll_covers:
  assumes "poll a l = Inr evs" "evs \<noteq> []"
  shows "{x \<in> holds. a < pos x \<and> pos x \<le> pos (last evs)} = set evs"
proof
  from poll_no_gap [OF assms] show "{x \<in> holds. a < pos x \<and> pos x \<le> pos (last evs)} \<subseteq> set evs" by auto
next
  have "pos ev \<le> pos (last evs)" if "ev \<in> set evs" for ev
  proof -
    from assms(2) have e: "evs = butlast evs @ [last evs]" by simp
    with that have "ev \<in> set (butlast evs) \<or> ev = last evs" by (metis rotate1.simps(2) set_ConsD set_rotate1)
    moreover from poll_order [OF assms(1)] e have "sorted (map pos (butlast evs @ [last evs]))" by metis
    ultimately show ?thesis by (auto simp: sorted_append)
  qed
  with poll_new [OF assms(1)] show "set evs \<subseteq> {x \<in> holds. a < pos x \<and> pos x \<le> pos (last evs)}" by auto
qed

lemma poll_advances: "poll a l = Inr evs \<Longrightarrow> evs \<noteq> [] \<Longrightarrow> a < pos (last evs)"
  using poll_new last_in_set by blast

end

text \<open>A source whose events have each a position of its own.\<close>

locale strict_source = event_source +
  assumes poll_distinct: "poll a l = Inr evs \<Longrightarrow> distinct (map pos evs)"
begin

lemma poll_strict: "poll a l = Inr evs \<Longrightarrow> sorted_wrt (<) (map pos evs)"
  using poll_order poll_distinct by (simp add: strict_sorted_iff)

end

section \<open>Prefixes that end between two positions\<close>

definition whole_prefix :: "run_event list \<Rightarrow> run_event list \<Rightarrow> bool" where
  "whole_prefix xs ys = (\<exists>zs. xs = ys @ zs \<and> (\<forall>y \<in> set ys. \<forall>z \<in> set zs. pos y < pos z))"

lemma whole_prefix_refl: "whole_prefix xs xs"
  by (simp add: whole_prefix_def)

text \<open>A source that returns such a prefix of its feed, the ordered list of the events after a
  position.\<close>

locale feed_source =
  fixes poll :: "int \<Rightarrow> int \<Rightarrow> goerror + run_event list"
    and holds :: "run_event set"
    and feed :: "int \<Rightarrow> run_event list"
  assumes feed_set: "set (feed a) = {x \<in> holds. a < pos x}"
    and feed_sorted: "sorted (map pos (feed a))"
    and poll_prefix: "poll a l = Inr evs \<Longrightarrow> whole_prefix (feed a) evs"
    and poll_nonempty: "0 < l \<Longrightarrow> poll a l = Inr [] \<Longrightarrow> feed a = []"
begin

lemma feed_event_source: "event_source poll holds"
proof
  fix a l evs ev
  assume p: "poll a l = Inr evs"
  from poll_prefix [OF p] obtain zs where z: "feed a = evs @ zs" "\<And>y z. y \<in> set evs \<Longrightarrow> z \<in> set zs \<Longrightarrow> pos y < pos z"
    by (auto simp: whole_prefix_def)
  from z(1) feed_sorted [of a] show "sorted (map pos evs)" by (simp add: sorted_append)
  from z(1) feed_set [of a] show "ev \<in> set evs \<Longrightarrow> ev \<in> holds \<and> a < pos ev" by auto
  fix x
  assume "evs \<noteq> []" "x \<in> holds" "a < pos x" "pos x \<le> pos (last evs)"
  with feed_set [of a] z(1) have "x \<in> set evs \<union> set zs" by auto
  moreover from z(2) [OF last_in_set [OF \<open>evs \<noteq> []\<close>], of x] \<open>pos x \<le> pos (last evs)\<close> have "x \<notin> set zs" by auto
  ultimately show "x \<in> set evs" by simp
next
  fix a l :: int and x
  assume "0 < l" "poll a l = Inr []" "x \<in> holds"
  with poll_nonempty feed_set [of a] show "pos x \<le> a" by fastforce
qed

end

sublocale feed_source \<subseteq> event_source
  by (rule feed_event_source)

section \<open>Pages\<close>

text \<open>The events of the records that convert.\<close>

definition converted :: "('r \<Rightarrow> goerror + run_event) \<Rightarrow> 'r list \<Rightarrow> run_event list" where
  "converted conv rs = concat (map (\<lambda>r. case conv r of Inl _ \<Rightarrow> [] | Inr ev \<Rightarrow> [ev]) rs)"

lemma converted_simps [simp]:
  "converted conv [] = []"
  "converted conv (r # rs) = (case conv r of Inl _ \<Rightarrow> [] | Inr ev \<Rightarrow> [ev]) @ converted conv rs"
  "converted conv (rs @ ss) = converted conv rs @ converted conv ss"
  by (simp_all add: converted_def)

lemma set_converted: "set (converted conv rs) = {ev. \<exists>r \<in> set rs. conv r = Inr ev}"
  by (induction rs) (auto split: sum.splits)

lemma to_events_converted: "to_events conv rs = Inr evs \<Longrightarrow> evs = converted conv rs \<and> length evs = length rs"
  by (induction rs arbitrary: evs) (auto split: sum.splits)

definition stamp :: "('r \<Rightarrow> goerror + run_event) \<Rightarrow> 'r \<Rightarrow> int" where
  "stamp conv r = (case conv r of Inl _ \<Rightarrow> 0 | Inr ev \<Rightarrow> pos ev)"

lemma sorted_converted: "sorted (map (stamp conv) rs) \<Longrightarrow> sorted (map pos (converted conv rs))"
proof (induction rs)
  case (Cons r rs)
  show ?case
  proof (cases "conv r")
    case (Inr ev)
    have "pos ev \<le> pos x" if "y \<in> set rs" "conv y = Inr x" for x y
    proof -
      from Cons.prems that(1) have "stamp conv r \<le> stamp conv y" by simp
      with Inr that(2) show ?thesis by (simp add: stamp_def)
    qed
    with Cons Inr show ?thesis by (auto simp: set_converted)
  qed (use Cons in simp)
qed simp

lemma boundary_loop_le: "boundary_loop evs n \<le> n"
  by (induction n) auto

lemma boundary_le: "boundary evs \<le> length evs"
  by (simp add: boundary_def boundary_loop_le)

lemma boundary_loop_rest:
  "boundary_loop evs n \<le> i \<Longrightarrow> i < n \<Longrightarrow> pos (evs ! i) = pos (evs ! (length evs - 1))"
  by (induction n) (auto split: if_splits simp: less_Suc_eq)

lemma boundary_loop_last:
  "0 < boundary_loop evs n \<Longrightarrow> pos (evs ! (boundary_loop evs n - 1)) \<noteq> pos (evs ! (length evs - 1))"
  by (induction n) auto

lemma boundary_whole_prefix:
  assumes "sorted (map pos (evs @ zs))" "0 < boundary evs"
  shows "whole_prefix (evs @ zs) (take (boundary evs) evs)"
proof -
  let ?b = "boundary evs"
  from assms(2) boundary_le [of evs] have ne: "evs \<noteq> []" by auto
  have le: "pos (evs ! (?b - 1)) \<le> pos (last evs)"
  proof -
    from assms(1) have "sorted (map pos evs)" by (simp add: sorted_append)
    then show ?thesis using assms(2) boundary_le [of evs]
      by (auto simp: last_conv_nth ne sorted_iff_nth_mono)
  qed
  with boundary_loop_last [of evs "length evs"] assms(2) have lt: "pos (evs ! (?b - 1)) < pos (last evs)"
    by (simp add: boundary_def last_conv_nth ne)
  have low: "pos y \<le> pos (evs ! (?b - 1))" if y: "y \<in> set (take ?b evs)" for y
  proof -
    from y obtain i where i: "i < ?b" "i < length evs" "y = evs ! i" by (auto simp: in_set_conv_nth)
    from assms(1) have "sorted (map pos evs)" by (simp add: sorted_append)
    with i assms(2) boundary_le [of evs] show ?thesis by (auto simp: sorted_iff_nth_mono)
  qed
  have high: "pos (last evs) \<le> pos z" if z: "z \<in> set (drop ?b evs @ zs)" for z
  proof (cases "z \<in> set zs")
    case True
    with assms(1) ne show ?thesis by (auto simp: sorted_append)
  next
    case False
    with z obtain i where "?b \<le> i" "i < length evs" "z = evs ! i"
      by (auto simp: in_set_conv_nth) (metis add.commute le_add2 less_diff_conv)
    with boundary_loop_rest [of evs "length evs" i] show ?thesis by (simp add: boundary_def last_conv_nth ne)
  qed
  show ?thesis unfolding whole_prefix_def
    by (rule exI [of _ "drop ?b evs @ zs"]) (use low high lt in \<open>fastforce simp: append_take_drop_id simp flip: append_assoc\<close>)
qed

section \<open>SAP\<close>

definition odata_after :: "('r \<Rightarrow> goerror + run_event) \<Rightarrow> 'r list \<Rightarrow> int \<Rightarrow> 'r list" where
  "odata_after conv ents a = filter (\<lambda>r. a < stamp conv r) ents"

definition events_of :: "('r \<Rightarrow> goerror + run_event) \<Rightarrow> 'r list \<Rightarrow> run_event set" where
  "events_of conv ents = {ev. \<exists>r \<in> set ents. conv r = Inr ev}"

lemma feed_set_of: "set (converted conv (odata_after conv ents a)) = {x \<in> events_of conv ents. a < pos x}"
  by (auto simp: set_converted odata_after_def events_of_def stamp_def)

lemma feed_sorted_of: "sorted (map (stamp conv) ents) \<Longrightarrow> sorted (map pos (converted conv (odata_after conv ents a)))"
  by (simp add: odata_after_def sorted_converted sorted_filter)

lemma take_page: "take n xs @ take m (drop n xs) = take (n + m) xs"
  by (simp add: take_add)

lemma sap_pages_prefix:
  assumes "sap_pages lib c name e after limit left page evs = Inr res"
    and "\<And>num skip recs. sc_Query c name after num skip = Inr recs \<Longrightarrow> recs = take num (drop skip F)"
    and "sorted (map pos (converted (sap_toEvent lib name e) F))"
    and "evs = converted (sap_toEvent lib name e) (take (page * limit) F)"
  shows "whole_prefix (converted (sap_toEvent lib name e) F) res \<and> (res = [] \<longrightarrow> converted (sap_toEvent lib name e) F = [])"
  using assms(1,4)
proof (induction left arbitrary: page evs)
  case (Suc left)
  let ?conv = "sap_toEvent lib name e"
  from Suc.prems(1) obtain recs where q: "sc_Query c name after limit (page * limit) = Inr recs"
    by (auto split: sum.splits)
  from Suc.prems(1) q obtain new where n: "to_events ?conv recs = Inr new" by (auto split: sum.splits)
  from assms(2) [OF q] have r: "recs = take limit (drop (page * limit) F)" .
  from to_events_converted [OF n] r Suc.prems(2)
  have evs': "evs @ new = converted ?conv (take ((page + 1) * limit) F)"
    by (simp add: add.commute [of limit] flip: converted_simps(3) take_page)
  have F: "converted ?conv F = (evs @ new) @ converted ?conv (drop ((page + 1) * limit) F)"
    by (simp only: evs' append_take_drop_id flip: converted_simps(3))
  consider (short) "length recs < limit" | (cut_off) "\<not> length recs < limit" "0 < boundary (evs @ new)"
    | (again) "\<not> length recs < limit" "\<not> 0 < boundary (evs @ new)" by blast
  then show ?case
  proof cases
    case short
    then have "length F \<le> (page + 1) * limit" by (simp add: r split: if_splits)
    then have "converted ?conv F = evs @ new" using evs' by simp
    moreover from Suc.prems(1) q n short have "res = evs @ new" by simp
    ultimately show ?thesis by (simp add: whole_prefix_refl)
  next
    case cut_off
    from Suc.prems(1) q n cut_off have res: "res = take (boundary (evs @ new)) (evs @ new)" by (simp add: Let_def)
    with cut_off(2) boundary_le [of "evs @ new"] have "res \<noteq> []" by auto
    with boundary_whole_prefix [of "evs @ new" "converted ?conv (drop ((page + 1) * limit) F)"] assms(3) cut_off(2) F res
    show ?thesis by metis
  next
    case again
    with Suc.prems(1) q n have "sap_pages lib c name e after limit left (page + 1) (evs @ new) = Inr res" by (simp add: Let_def)
    from Suc.IH [OF this evs'] show ?thesis .
  qed
qed simp

text \<open>An OData service that holds the entities, in the order of their change; a request fails or is answered
  as the protocol says.\<close>

locale odata_server =
  fixes lib :: go_lib and c :: sap_conn and name :: string and e :: sap_event and ents :: "doc list"
  assumes configured: "sc_Events c name = Some e"
    and ordered: "sorted (map (stamp (sap_toEvent lib name e)) ents)"
    and answers: "sc_Query c name after num skip = Inr recs \<Longrightarrow>
                    recs = take num (drop skip (odata_after (sap_toEvent lib name e) ents after))"

sublocale odata_server \<subseteq> sap: feed_source "sap_Poll lib c name" "events_of (sap_toEvent lib name e) ents"
    "\<lambda>a. converted (sap_toEvent lib name e) (odata_after (sap_toEvent lib name e) ents a)"
proof
  fix a l evs
  show "set (converted (sap_toEvent lib name e) (odata_after (sap_toEvent lib name e) ents a)) =
          {x \<in> events_of (sap_toEvent lib name e) ents. a < pos x}"
    by (rule feed_set_of)
  show s: "sorted (map pos (converted (sap_toEvent lib name e) (odata_after (sap_toEvent lib name e) ents a)))"
    by (rule feed_sorted_of [OF ordered])
  have P: "whole_prefix (converted (sap_toEvent lib name e) (odata_after (sap_toEvent lib name e) ents a)) evs \<and>
        (evs = [] \<longrightarrow> converted (sap_toEvent lib name e) (odata_after (sap_toEvent lib name e) ents a) = [])"
    if "sap_Poll lib c name a l = Inr evs" for evs
    using that unfolding sap_Poll_def configured option.case by (rule sap_pages_prefix) (use answers s in auto)
  from P show "sap_Poll lib c name a l = Inr evs \<Longrightarrow>
    whole_prefix (converted (sap_toEvent lib name e) (odata_after (sap_toEvent lib name e) ents a)) evs" by blast
  from P show "0 < l \<Longrightarrow> sap_Poll lib c name a l = Inr [] \<Longrightarrow>
    converted (sap_toEvent lib name e) (odata_after (sap_toEvent lib name e) ents a) = []" by blast
qed

text \<open>The service over any set of entities that never fails.\<close>

definition odata_conn :: "go_lib \<Rightarrow> string \<Rightarrow> sap_event \<Rightarrow> nat \<Rightarrow> nat \<Rightarrow> doc list \<Rightarrow> sap_conn" where
  "odata_conn lib name e psize pages ents =
     \<lparr>sc_Events = [name \<mapsto> e], sc_PageSize = psize, sc_MaxPages = pages,
      sc_Query = \<lambda>n a num skip. Inr (take num (drop skip
        (odata_after (sap_toEvent lib n e) (sort_key (stamp (sap_toEvent lib n e)) ents) a)))\<rparr>"

interpretation sap_ref: odata_server lib "odata_conn lib name e psize pages ents" name e
    "sort_key (stamp (sap_toEvent lib name e)) ents" for lib name e psize pages ents
  by unfold_locales (auto simp: odata_conn_def)

section \<open>Salesforce\<close>

lemma sf_pages_prefix:
  assumes "sf_pages lib c name sobj after limit pages evs = Inr res"
    and "\<And>n recs hasNext. fc_Query c name after n = Inr (recs, hasNext) \<Longrightarrow>
           0 < n \<and> n \<le> length chunks \<and> recs = chunks ! (n - 1) \<and> hasNext = (n < length chunks)"
    and "sorted (map pos (converted (sf_toEvent lib name) (concat chunks)))"
    and "evs = converted (sf_toEvent lib name) (concat (take (pages - 1) chunks))"
  shows "whole_prefix (converted (sf_toEvent lib name) (concat chunks)) res \<and>
         (res = [] \<longrightarrow> converted (sf_toEvent lib name) (concat chunks) = [])"
  using assms
proof (induction lib c name sobj after limit pages evs rule: sf_pages.induct)
  case (1 lib c name sobj after limit pages evs)
  let ?conv = "sf_toEvent lib name"
  from 1(3) obtain recs hasNext where q: "fc_Query c name after pages = Inr (recs, hasNext)"
    by (subst (asm) sf_pages.simps) (auto split: sum.splits)
  from 1(3) q obtain new where n: "to_events ?conv recs = Inr new"
    by (subst (asm) sf_pages.simps) (auto split: sum.splits)
  from 1(4) [OF q] have page: "0 < pages" "pages \<le> length chunks" "recs = chunks ! (pages - 1)" "hasNext = (pages < length chunks)"
    by auto
  have tk: "take pages chunks = take (pages - 1) chunks @ [recs]"
    using page take_Suc_conv_app_nth [of "pages - 1" chunks] by simp
  have evs': "evs @ new = converted ?conv (concat (take pages chunks))"
    using 1(6) to_events_converted [OF n] by (simp add: tk)
  have F: "converted ?conv (concat chunks) = (evs @ new) @ converted ?conv (concat (drop pages chunks))"
    by (simp only: evs' concat_append append_take_drop_id flip: converted_simps(3) concat_append)
  note run = 1(3) [unfolded sf_pages.simps [of lib c name sobj after limit pages evs] q n sum.case prod.case Let_def]
  consider (all_read) "\<not> hasNext"
    | (cut_off) "hasNext" "limit \<le> int (length (evs @ new)) \<or> fc_PageLimit c \<le> pages" "0 < boundary (evs @ new)"
    | (one_stamp) "hasNext" "limit \<le> int (length (evs @ new)) \<or> fc_PageLimit c \<le> pages" "\<not> 0 < boundary (evs @ new)"
    | (room) "hasNext" "\<not> (limit \<le> int (length (evs @ new)) \<or> fc_PageLimit c \<le> pages)" by blast
  then show ?case
  proof cases
    case all_read
    with page have "drop pages chunks = []" by simp
    with F have "converted ?conv (concat chunks) = evs @ new" by simp
    moreover from run all_read have "res = evs @ new" by simp
    ultimately show ?thesis by (simp add: whole_prefix_refl)
  next
    case cut_off
    with run have res: "res = take (boundary (evs @ new)) (evs @ new)" by (simp split: if_splits)
    with cut_off(3) boundary_le [of "evs @ new"] have "res \<noteq> []" by auto
    with boundary_whole_prefix [of "evs @ new" "converted ?conv (concat (drop pages chunks))"] 1(5) cut_off(3) F res
    show ?thesis by metis
  next
    case one_stamp
    with run have "\<not> 10 * fc_PageLimit c \<le> pages" "sf_pages lib c name sobj after limit (pages + 1) (evs @ new) = Inr res"
      by (auto split: if_splits)
    from 1(1) [OF q refl n refl _ one_stamp(2,3) this(1) this(2) 1(4,5)] one_stamp(1) evs' show ?thesis by simp
  next
    case room
    with run have "sf_pages lib c name sobj after limit (pages + 1) (evs @ new) = Inr res"
      by (auto split: if_splits)
    from 1(2) [OF q refl n refl _ room(2) this 1(4,5)] room(1) evs' show ?thesis by simp
  qed
qed

text \<open>The query API over the records, in the order of \<open>SystemModstamp\<close>, answered in pages.\<close>

locale soql_server =
  fixes lib :: go_lib and c :: sf_conn and name :: string and sobj :: string and recs :: "doc list"
    and chunks :: "int \<Rightarrow> doc list list"
  assumes sf_configured: "fc_Events c name = Some sobj"
    and sf_ordered: "sorted (map (stamp (sf_toEvent lib name)) recs)"
    and sf_chunks: "concat (chunks a) = odata_after (sf_toEvent lib name) recs a"
    and sf_answers: "fc_Query c name a n = Inr (page, hasNext) \<Longrightarrow>
           0 < n \<and> n \<le> length (chunks a) \<and> page = chunks a ! (n - 1) \<and> hasNext = (n < length (chunks a))"

sublocale soql_server \<subseteq> sf: feed_source "sf_Poll lib c name" "events_of (sf_toEvent lib name) recs"
    "\<lambda>a. converted (sf_toEvent lib name) (odata_after (sf_toEvent lib name) recs a)"
proof
  fix a l evs
  show "set (converted (sf_toEvent lib name) (odata_after (sf_toEvent lib name) recs a)) =
          {x \<in> events_of (sf_toEvent lib name) recs. a < pos x}"
    by (rule feed_set_of)
  show s: "sorted (map pos (converted (sf_toEvent lib name) (odata_after (sf_toEvent lib name) recs a)))"
    by (rule feed_sorted_of [OF sf_ordered])
  have P: "whole_prefix (converted (sf_toEvent lib name) (odata_after (sf_toEvent lib name) recs a)) evs \<and>
        (evs = [] \<longrightarrow> converted (sf_toEvent lib name) (odata_after (sf_toEvent lib name) recs a) = [])"
    if "sf_Poll lib c name a l = Inr evs" for evs
    using that unfolding sf_Poll_def sf_configured option.case sf_chunks [symmetric]
    by (rule sf_pages_prefix) (use sf_answers s sf_chunks in auto)
  from P show "sf_Poll lib c name a l = Inr evs \<Longrightarrow>
    whole_prefix (converted (sf_toEvent lib name) (odata_after (sf_toEvent lib name) recs a)) evs" by blast
  from P show "0 < l \<Longrightarrow> sf_Poll lib c name a l = Inr [] \<Longrightarrow>
    converted (sf_toEvent lib name) (odata_after (sf_toEvent lib name) recs a) = []" by blast
qed

function pages_of :: "nat \<Rightarrow> 'a list \<Rightarrow> 'a list list" where
  "pages_of k xs = (if length xs \<le> k \<or> k = 0 then [xs] else take k xs # pages_of k (drop k xs))"
  by pat_completeness auto
termination by (relation "measure (\<lambda>(k, xs). length xs)") auto

declare pages_of.simps [simp del]

lemma concat_pages_of: "concat (pages_of k xs) = xs"
  by (induction k xs rule: pages_of.induct) (subst pages_of.simps, simp)

definition soql_conn :: "go_lib \<Rightarrow> string \<Rightarrow> string \<Rightarrow> nat \<Rightarrow> nat \<Rightarrow> doc list \<Rightarrow> sf_conn" where
  "soql_conn lib name sobj psize pageLimit recs =
     \<lparr>fc_Events = [name \<mapsto> sobj], fc_Streams = \<lambda>_. False, fc_PageLimit = pageLimit,
      fc_Query = \<lambda>nm a n.
        (let ch = pages_of psize (odata_after (sf_toEvent lib nm) (sort_key (stamp (sf_toEvent lib nm)) recs) a)
         in if 0 < n \<and> n \<le> length ch then Inr (ch ! (n - 1), n < length ch) else Inl (New_err ''no such page'' []))\<rparr>"

interpretation sf_ref: soql_server lib "soql_conn lib name sobj psize pageLimit recs" name sobj
    "sort_key (stamp (sf_toEvent lib name)) recs"
    "\<lambda>a. pages_of psize (odata_after (sf_toEvent lib name) (sort_key (stamp (sf_toEvent lib name)) recs) a)"
  for lib name sobj psize pageLimit recs
  by unfold_locales (auto simp: soql_conn_def concat_pages_of Let_def split: if_splits)

section \<open>Odoo\<close>

lemma odoo_position_eq:
  assumes "0 \<le> t" "t < 4294967296" "0 \<le> i" "i < 2147483648"
  shows "odoo_position t i = t * 2147483648 + i"
proof -
  from assms have "wrap64 (push_bit idBits t) = push_bit idBits t"
    by (simp add: wrap64_def idBits_def push_bit_eq_mult)
  moreover have "or (push_bit 31 t) i = push_bit 31 t + i"
  proof (rule disjunctive_add_eq_or [symmetric])
    from assms(3,4) have "take_bit 31 i = i" by (simp add: take_bit_int_eq_self)
    then show "and (push_bit 31 t) i = 0"
      by (auto simp: bit_eq_iff bit_and_iff bit_push_bit_iff) (metis bit_take_bit_iff not_less)
  qed
  ultimately show ?thesis by (simp add: odoo_position_def idBits_def push_bit_eq_mult)
qed

lemma odoo_cursor_new:
  "1099511627776 \<le> a \<Longrightarrow> odoo_cursor a = (a div 2147483648, a mod 2147483648)"
  using take_bit_eq_mask [of 31 a] by (simp add: odoo_cursor_def idBits_def drop_bit_eq_div take_bit_eq_mod mask_eq_exp_minus_1 flip: take_bit_eq_mask)

lemma odoo_cursor_position:
  assumes "512 \<le> t" "t < 4294967296" "0 \<le> i" "i < 2147483648"
  shows "odoo_cursor (odoo_position t i) = (t, i)"
  using assms by (simp add: odoo_position_eq odoo_cursor_new)

lemma odoo_position_order:
  assumes "0 \<le> t" "t < 4294967296" "0 \<le> i" "i < 2147483648" "0 \<le> u" "u < 4294967296" "0 \<le> j" "j < 2147483648"
  shows "odoo_position t i < odoo_position u j \<longleftrightarrow> t < u \<or> t = u \<and> i < j"
  using assms by (auto simp: odoo_position_eq)

text \<open>The time and number of a record, and the order \<open>search_read\<close> returns records in.\<close>

definition write_time :: "go_lib \<Rightarrow> doc \<Rightarrow> int" where
  "write_time lib r = (case gl_Parse lib ''2006-01-02 15:04:05'' (str_field r ''write_date'') of None \<Rightarrow> 0 | Some t \<Rightarrow> t div 1000000000)"

definition odoo_record :: "go_lib \<Rightarrow> doc \<Rightarrow> bool" where
  "odoo_record lib r =
     (gl_Parse lib ''2006-01-02 15:04:05'' (str_field r ''write_date'') \<noteq> None \<and>
      1099511627 < write_time lib r \<and> write_time lib r < 4294967296 \<and>
      0 < id64 (map_of r ''id'') \<and> id64 (map_of r ''id'') < 2147483648)"

definition odoo_before :: "go_lib \<Rightarrow> doc \<Rightarrow> doc \<Rightarrow> bool" where
  "odoo_before lib r s =
     (write_time lib r < write_time lib s \<or> write_time lib r = write_time lib s \<and> id64 (map_of r ''id'') < id64 (map_of s ''id''))"

definition search_read :: "go_lib \<Rightarrow> doc list \<Rightarrow> int \<Rightarrow> int \<Rightarrow> int \<Rightarrow> doc list" where
  "search_read lib ents since lastID until =
     filter (\<lambda>r. (since < write_time lib r \<or> since = write_time lib r \<and> lastID < id64 (map_of r ''id'')) \<and> write_time lib r \<le> until) ents"

lemma odoo_toEvent_record:
  "odoo_record lib r \<Longrightarrow>
   \<exists>i. odoo_toEvent lib name model r =
     Inr \<lparr>re_ID = i, re_Position = odoo_position (write_time lib r) (id64 (map_of r ''id'')), re_Name = name, re_Payload = RawDoc (JObj r)\<rparr>"
  by (auto simp: odoo_record_def odoo_toEvent_def write_time_def Let_def)

lemma odoo_stamp:
  "odoo_record lib r \<Longrightarrow>
   stamp (odoo_toEvent lib name model) r = write_time lib r * 2147483648 + id64 (map_of r ''id'')"
  using odoo_toEvent_record [of lib r name model]
  by (auto simp: stamp_def odoo_record_def odoo_position_eq)

lemma split_position:
  "0 \<le> i \<Longrightarrow> i < 2147483648 \<Longrightarrow>
   (a div 2147483648 < t \<or> a div 2147483648 = t \<and> a mod 2147483648 < i) \<longleftrightarrow> a < t * 2147483648 + (i :: int)"
  using div_mult_mod_eq [of a 2147483648] pos_mod_bound [of 2147483648 a] pos_mod_sign [of 2147483648 a] by linarith

lemma odoo_before_position:
  "odoo_before lib r s \<Longrightarrow> odoo_record lib r \<Longrightarrow> odoo_record lib s \<Longrightarrow>
   odoo_position (write_time lib r) (id64 (map_of r ''id'')) < odoo_position (write_time lib s) (id64 (map_of s ''id''))"
  by (auto simp: odoo_before_def odoo_record_def odoo_position_order)

lemma odoo_cursor_selects:
  assumes "odoo_record lib r" "odoo_cursor a = (since, lastID)"
  shows "(since < write_time lib r \<or> since = write_time lib r \<and> lastID < id64 (map_of r ''id'')) \<longleftrightarrow>
         a < stamp (odoo_toEvent lib name model) r"
proof (cases "a < 1099511627776")
  case True
  with assms(2) have "since = a div 1000" "lastID = 2147483647" by (auto simp: odoo_cursor_def)
  with True assms(1) show ?thesis by (auto simp: odoo_stamp odoo_record_def)
next
  case False
  with assms(2) have "since = a div 2147483648" "lastID = a mod 2147483648" by (auto simp: odoo_cursor_new)
  with assms(1) split_position [of "id64 (map_of r ''id'')" a "write_time lib r"] show ?thesis
    by (simp add: odoo_stamp odoo_record_def)
qed

locale odoo_server =
  fixes lib :: go_lib and c :: odoo_conn and name model :: string and settle :: "int option" and ents :: "doc list"
  assumes odoo_configured: "oc_Events c name = Some (model, settle)"
    and odoo_page: "0 < oc_PageSize c"
    and odoo_records: "r \<in> set ents \<Longrightarrow> odoo_record lib r"
    and odoo_ordered: "sorted_wrt (odoo_before lib) ents"
    and odoo_answers: "oc_Search c name since lastID until n = Inr recs \<Longrightarrow> recs = take (nat n) (search_read lib ents since lastID until)"
begin

definition settled :: "doc list" where
  "settled = filter (\<lambda>r. write_time lib r \<le> oc_now c - (case settle of None \<Rightarrow> 60 | Some n \<Rightarrow> n)) ents"

lemma settled_records: "r \<in> set settled \<Longrightarrow> odoo_record lib r"
  using odoo_records by (auto simp: settled_def)

lemma odoo_feed_strict: "sorted_wrt (<) (map pos (converted (odoo_toEvent lib name model) (odata_after (odoo_toEvent lib name model) settled a)))"
proof -
  let ?conv = "odoo_toEvent lib name model"
  have "sorted_wrt (<) (map pos (converted ?conv rs))" if "sorted_wrt (odoo_before lib) rs" "\<forall>r \<in> set rs. odoo_record lib r" for rs
    using that
  proof (induction rs)
    case (Cons r rs)
    from odoo_toEvent_record [of lib r name model] Cons.prems(2) obtain i where
      r: "?conv r = Inr \<lparr>re_ID = i, re_Position = odoo_position (write_time lib r) (id64 (map_of r ''id'')), re_Name = name, re_Payload = RawDoc (JObj r)\<rparr>"
      by auto
    have "odoo_position (write_time lib r) (id64 (map_of r ''id'')) < pos x" if "y \<in> set rs" "?conv y = Inr x" for x y
    proof -
      from that Cons.prems odoo_toEvent_record [of lib y name model]
      have "pos x = odoo_position (write_time lib y) (id64 (map_of y ''id''))" by auto
      with that(1) Cons.prems odoo_before_position [of lib r y] show ?thesis by simp
    qed
    with Cons r show ?case by (auto simp: set_converted)
  qed simp
  moreover have "sorted_wrt (odoo_before lib) (odata_after ?conv settled a)"
    using odoo_ordered by (auto simp: odata_after_def settled_def intro: sorted_wrt_filter)
  ultimately show ?thesis using settled_records by (auto simp: odata_after_def)
qed

lemma odoo_search_feed:
  assumes "odoo_cursor a = (since, lastID)"
  shows "search_read lib ents since lastID (oc_now c - (case settle of None \<Rightarrow> 60 | Some n \<Rightarrow> n)) =
         odata_after (odoo_toEvent lib name model) settled a"
  unfolding search_read_def odata_after_def settled_def filter_filter
  using odoo_cursor_selects [OF _ assms] odoo_records by (intro filter_cong) auto

lemma odoo_Poll_feed:
  assumes "odoo_Poll lib c name a l = Inr evs"
  shows "\<exists>n. evs = take n (converted (odoo_toEvent lib name model) (odata_after (odoo_toEvent lib name model) settled a)) \<and> (0 < l \<longrightarrow> 0 < n)"
proof -
  let ?conv = "odoo_toEvent lib name model"
  obtain since lastID where cu: "odoo_cursor a = (since, lastID)" by fastforce
  define n where "n = nat (if l \<le> 0 \<or> oc_PageSize c < l then oc_PageSize c else l)"
  from assms cu obtain recs evs' where r: "recs = take n (search_read lib ents since lastID (oc_now c - (case settle of None \<Rightarrow> 60 | Some n \<Rightarrow> n)))"
    and t: "to_events ?conv recs = Inr evs'" and e: "evs = filter (\<lambda>ev. a < pos ev) evs'"
    by (auto simp: odoo_Poll_def odoo_configured Let_def n_def dest: odoo_answers split: sum.splits)
  from r have F: "recs = take n (odata_after ?conv settled a)" by (simp only: odoo_search_feed [OF cu])
  from to_events_converted [OF t] have c: "evs' = converted ?conv recs" "length evs' = length recs" by auto
  have "set evs' \<subseteq> {x. a < pos x}"
    using c(1) F feed_set_of [of ?conv settled a] by (auto simp: set_converted dest: in_set_takeD)
  with e have "evs = evs'" by (auto simp: filter_id_conv)
  moreover have "converted ?conv (odata_after ?conv settled a) = evs' @ converted ?conv (drop n (odata_after ?conv settled a))"
    using c(1) F by (metis append_take_drop_id converted_simps(3))
  moreover have "length evs' \<le> n" "length evs' < n \<Longrightarrow> drop n (odata_after ?conv settled a) = []"
    using c(2) F by auto
  ultimately have "evs = take n (converted ?conv (odata_after ?conv settled a))"
    by (cases "length evs' < n") auto
  moreover have "0 < l \<longrightarrow> 0 < n" using odoo_page by (simp add: n_def)
  ultimately show ?thesis by blast
qed

end

lemma take_whole_prefix:
  assumes "sorted_wrt (<) (map pos xs)"
  shows "whole_prefix xs (take n xs)"
proof -
  from assms have "sorted_wrt (<) (map pos (take n xs @ drop n xs))" by simp
  then show ?thesis unfolding whole_prefix_def
    by (intro exI [of _ "drop n xs"]) (simp add: sorted_wrt_append del: append_take_drop_id, simp)
qed

text \<open>A source that returns a prefix of a strictly ordered feed.\<close>

locale strict_feed =
  fixes poll :: "int \<Rightarrow> int \<Rightarrow> goerror + run_event list"
    and holds :: "run_event set"
    and feed :: "int \<Rightarrow> run_event list"
  assumes feed_holds: "set (feed a) = {x \<in> holds. a < pos x}"
    and feed_strict: "sorted_wrt (<) (map pos (feed a))"
    and poll_take: "poll a l = Inr evs \<Longrightarrow> \<exists>n. evs = take n (feed a) \<and> (0 < l \<longrightarrow> 0 < n)"

sublocale strict_feed \<subseteq> feed_source
proof
  fix a l evs
  show "set (feed a) = {x \<in> holds. a < pos x}" by (rule feed_holds)
  show "sorted (map pos (feed a))" using feed_strict [of a] by (rule strict_sorted_imp_sorted)
  show "poll a l = Inr evs \<Longrightarrow> whole_prefix (feed a) evs"
    using poll_take take_whole_prefix [OF feed_strict] by blast
  show "0 < l \<Longrightarrow> poll a l = Inr [] \<Longrightarrow> feed a = []" using poll_take [of a l "[]"] by auto
qed

sublocale strict_feed \<subseteq> strict_source
proof
  fix a l evs
  assume "poll a l = Inr evs"
  from poll_take [OF this] obtain n where "evs = take n (feed a)" by blast
  with feed_strict [of a] show "distinct (map pos evs)"
    by (simp add: strict_sorted_iff distinct_take flip: take_map)
qed

sublocale odoo_server \<subseteq> odoo: strict_feed "odoo_Poll lib c name" "events_of (odoo_toEvent lib name model) settled"
    "\<lambda>a. converted (odoo_toEvent lib name model) (odata_after (odoo_toEvent lib name model) settled a)"
  by unfold_locales (fact feed_set_of odoo_feed_strict odoo_Poll_feed)+

text \<open>One record per key, the first of the list.\<close>

fun dedup_key :: "('a \<Rightarrow> 'k) \<Rightarrow> 'a list \<Rightarrow> 'a list" where
  "dedup_key f [] = []"
| "dedup_key f (x # xs) = x # filter (\<lambda>y. f y \<noteq> f x) (dedup_key f xs)"

lemma dedup_key_distinct: "distinct (map f (dedup_key f xs))"
  by (induction xs) (auto simp: distinct_map_filter)

lemma dedup_key_subset: "set (dedup_key f xs) \<subseteq> set xs"
  by (induction xs) auto

lemma sort_key_strict:
  assumes "distinct (map f xs)"
  shows "sorted_wrt (\<lambda>x y. f x < f y) (sort_key f xs)"
proof -
  have "distinct (map f (sort_key f xs))"
    using assms by (simp add: distinct_map)
  then have "sorted_wrt (<) (map f (sort_key f xs))" by (simp add: strict_sorted_iff)
  then show ?thesis by (simp add: sorted_wrt_map)
qed

text \<open>The service over the valid records of any list, one record per second and ID.\<close>

definition odoo_table :: "go_lib \<Rightarrow> doc list \<Rightarrow> doc list" where
  "odoo_table lib ents =
     (let key = stamp (odoo_toEvent lib [] [])
      in sort_key key (dedup_key key (filter (odoo_record lib) ents)))"

definition odoo_ref_conn :: "go_lib \<Rightarrow> string \<Rightarrow> string \<Rightarrow> int option \<Rightarrow> int \<Rightarrow> doc list \<Rightarrow> odoo_conn" where
  "odoo_ref_conn lib name model settle now ents =
     \<lparr>oc_Events = [name \<mapsto> (model, settle)], oc_PageSize = 100, oc_now = now,
      oc_Search = \<lambda>n since lastID until lim. Inr (take (nat lim) (search_read lib (odoo_table lib ents) since lastID until))\<rparr>"

lemma odoo_table_records: "r \<in> set (odoo_table lib ents) \<Longrightarrow> odoo_record lib r"
  using dedup_key_subset by (fastforce simp: odoo_table_def Let_def)

lemma odoo_stamp_before:
  assumes "odoo_record lib r" "odoo_record lib s"
    and "stamp (odoo_toEvent lib n m) r < stamp (odoo_toEvent lib n m) s"
  shows "odoo_before lib r s"
  using assms by (auto simp: odoo_stamp odoo_before_def odoo_record_def)

lemma odoo_table_ordered: "sorted_wrt (odoo_before lib) (odoo_table lib ents)"
proof -
  let ?key = "stamp (odoo_toEvent lib [] [])"
  have "sorted_wrt (\<lambda>r s. ?key r < ?key s) (odoo_table lib ents)"
    unfolding odoo_table_def Let_def by (rule sort_key_strict [OF dedup_key_distinct])
  then show ?thesis
    by (rule sorted_wrt_mono_rel [rotated]) (use odoo_table_records odoo_stamp_before in blast)
qed

interpretation odoo_ref: odoo_server lib "odoo_ref_conn lib name model settle now ents" name model settle "odoo_table lib ents"
  for lib name model settle now ents
proof
  show "oc_Events (odoo_ref_conn lib name model settle now ents) name = Some (model, settle)"
    "0 < oc_PageSize (odoo_ref_conn lib name model settle now ents)"
    by (simp_all add: odoo_ref_conn_def)
  show "r \<in> set (odoo_table lib ents) \<Longrightarrow> odoo_record lib r" for r by (rule odoo_table_records)
  show "sorted_wrt (odoo_before lib) (odoo_table lib ents)" by (rule odoo_table_ordered)
  show "oc_Search (odoo_ref_conn lib name model settle now ents) name since lastID until n = Inr recs \<Longrightarrow>
      recs = take (nat n) (search_read lib (odoo_table lib ents) since lastID until)" for since lastID until n recs
    by (simp add: odoo_ref_conn_def)
qed

section \<open>The outbox\<close>

definition outbox_event :: "string \<Rightarrow> outbox_row \<Rightarrow> run_event" where
  "outbox_event event r = \<lparr>re_ID = Itoa_int (ob_id r), re_Position = ob_id r, re_Name = event, re_Payload = ob_payload r\<rparr>"

locale outbox_table =
  fixes rows :: "outbox_row list"
  assumes primary_key: "distinct (map ob_id rows)"

sublocale outbox_table \<subseteq> outbox: strict_feed "\<lambda>a l. Inr (outbox_Poll rows event a (nat l))"
    "outbox_event event ` {r \<in> set rows. ob_event r = event}"
    "\<lambda>a. map (outbox_event event) (sort_key ob_id (filter (\<lambda>r. ob_event r = event \<and> a < ob_id r) rows))" for event
proof
  fix a l evs
  show "set (map (outbox_event event) (sort_key ob_id (filter (\<lambda>r. ob_event r = event \<and> a < ob_id r) rows))) =
          {x \<in> outbox_event event ` {r \<in> set rows. ob_event r = event}. a < pos x}"
    by (auto simp: outbox_event_def)
  have "map pos (map (outbox_event event) rs) = map ob_id rs" for rs by (simp add: outbox_event_def)
  moreover have "sorted_wrt (<) (map ob_id (sort_key ob_id (filter (\<lambda>r. ob_event r = event \<and> a < ob_id r) rows)))"
    using sort_key_strict [of ob_id "filter (\<lambda>r. ob_event r = event \<and> a < ob_id r) rows"] primary_key
    by (simp add: distinct_map_filter sorted_wrt_map)
  ultimately show "sorted_wrt (<) (map pos (map (outbox_event event) (sort_key ob_id (filter (\<lambda>r. ob_event r = event \<and> a < ob_id r) rows))))"
    by (simp only:)
  show "Inr (outbox_Poll rows event a (nat l)) = Inr evs \<Longrightarrow>
    \<exists>n. evs = take n (map (outbox_event event) (sort_key ob_id (filter (\<lambda>r. ob_event r = event \<and> a < ob_id r) rows))) \<and> (0 < l \<longrightarrow> 0 < n)"
    by (intro exI [of _ "nat l"]) (auto simp: outbox_Poll_def outbox_event_def take_map)
qed

context outbox_table
begin

lemma outbox_strict: "strict_source (\<lambda>a l. Inr (outbox_Poll rows event a (nat l))) (outbox_event event ` {r \<in> set rows. ob_event r = event})"
  by unfold_locales

end

interpretation outbox_ref: outbox_table "dedup_key ob_id rows" for rows
  by unfold_locales (rule dedup_key_distinct)

end
