(* ===== verification/Dispatch.thy ===== *)
theory Dispatch
  imports Pg_Inbox
begin

text \<open>
  The dispatcher (\<open>pkg/engine/runtime.go\<close>), which starts one run per event, the webhook handler
  (\<open>pkg/engine/webhook.go\<close>) and the subscriptions (\<open>pkg/engine/stream.go\<close>) that fill its inbox. A source is a
  function that answers a poll; as the system behind it changes, it may answer differently each time, so it is given
  the number of the poll. A subscription is the list of batches it delivers before it ends. Metrics and
  logging are left out; a time is a number of nanoseconds.
\<close>

section \<open>Runtimes\<close>

type_synonym poll_fun = "nat \<Rightarrow> string \<Rightarrow> int \<Rightarrow> int \<Rightarrow> goerror + run_event list"

text \<open>What a delivery's check and parsing answers (\<open>Webhook.Receive\<close>): the events it carries, or an error; \<open>ErrUnauthenticated\<close>
  is told apart from the others.\<close>

datatype received = Events "run_event list" | Unauthenticated | Unusable goerror

record runtime_view =
  rw_Digest :: string
  rw_Workflows :: "workflow list"
  rw_Sources :: "string \<rightharpoonup> poll_fun"
  rw_Webhooks :: "string \<Rightarrow> string \<rightharpoonup> ((string \<times> string) list \<Rightarrow> string \<Rightarrow> int \<Rightarrow> received)"
  rw_Streams :: "string \<Rightarrow> string \<Rightarrow> bool"

definition InboxSource :: "string \<Rightarrow> string \<Rightarrow> string" where
  "InboxSource endpoint event = endpoint @ ''/'' @ event"

definition RunID :: "string \<Rightarrow> run_event \<Rightarrow> string" where
  "RunID w ev = w @ ''/'' @ re_ID ev"

definition DefaultReconcile :: int where
  "DefaultReconcile = 300000000000"

record dispatcher =
  di_Runtime :: runtime_view
  di_Queue :: string
  di_Batch :: int
  di_ApprovalTimeout :: int
  di_Inbox :: bool
  di_Reconcile :: int

text \<open>What a pass changes: the tables, the number of polls made, and when each source was last polled.\<close>

record dispatch_state =
  dp_db :: db
  dp_polls :: nat
  dp_lastPolled :: "string \<rightharpoonup> int"

definition on_db :: "(db \<Rightarrow> (goerror + 'a) \<times> db) \<Rightarrow> dispatch_state \<Rightarrow> (goerror + 'a) \<times> dispatch_state" where
  "on_db f s = (case f (dp_db s) of (r, d) \<Rightarrow> (r, s\<lparr>dp_db := d\<rparr>))"

definition do_poll :: "poll_fun \<Rightarrow> string \<Rightarrow> int \<Rightarrow> int \<Rightarrow> dispatch_state \<Rightarrow> (goerror + run_event list) \<times> dispatch_state" where
  "do_poll src event after batch s = (src (dp_polls s) event after batch, s\<lparr>dp_polls := dp_polls s + 1\<rparr>)"

section \<open>Starting runs\<close>

definition event_input :: "dispatcher \<Rightarrow> workflow \<Rightarrow> run_event \<Rightarrow> run_input" where
  "event_input d w ev =
     \<lparr>ri_SpecDigest = rw_Digest (di_Runtime d), ri_Workflow = w, ri_Event = ev, ri_ApprovalTimeout = di_ApprovalTimeout d\<rparr>"

text \<open>The loop over the events of a batch: how many were started, and the error that ended it.\<close>

fun drain_events ::
  "dispatcher \<Rightarrow> workflow \<Rightarrow> string \<Rightarrow> run_event list \<Rightarrow> nat \<Rightarrow> dispatch_state \<Rightarrow> (nat \<times> goerror option) \<times> dispatch_state" where
  "drain_events d w cursor [] started s = ((started, None), s)"
| "drain_events d w cursor (ev # evs) started s =
     (case on_db (Start (di_Queue d) (RunID (wf_Name w) ev) (event_input d w ev)) s of
        (Inl e, s1) \<Rightarrow> ((started, Some (Wrap_err ''%s: start %s: %w'' [AStr cursor, AStr (re_ID ev)] e)), s1)
      | (Inr _, s1) \<Rightarrow>
          (case on_db (call_db (SetCursor cursor (re_Position ev))) s1 of
             (Inl e, s2) \<Rightarrow> ((started + 1, Some e), s2)
           | (Inr _, s2) \<Rightarrow> drain_events d w cursor evs (started + 1) s2))"

definition drain ::
  "dispatcher \<Rightarrow> workflow \<Rightarrow> string \<Rightarrow> (int \<Rightarrow> dispatch_state \<Rightarrow> (goerror + run_event list) \<times> dispatch_state) \<Rightarrow> dispatch_state
     \<Rightarrow> (nat \<times> goerror option) \<times> dispatch_state" where
  "drain d w cursor read s =
     (case on_db (call_db (Cursor cursor)) s of
        (Inl e, s1) \<Rightarrow> ((0, Some e), s1)
      | (Inr p, s1) \<Rightarrow>
          (case read p s1 of
             (Inl e, s2) \<Rightarrow> ((0, Some (Wrap_err ''%s: %w'' [AStr cursor] e)), s2)
           | (Inr evs, s2) \<Rightarrow> drain_events d w cursor evs 0 s2))"

section \<open>Reconciling\<close>

text \<open>One round of \<open>reconcile\<close>: whether the loop goes on, or how it ended.\<close>

definition reconcile_round ::
  "poll_fun \<Rightarrow> string \<Rightarrow> string \<Rightarrow> string \<Rightarrow> int \<Rightarrow> dispatch_state \<Rightarrow> (goerror option + unit) \<times> dispatch_state" where
  "reconcile_round src event cursor inbox batch s =
     (case on_db (call_db (Cursor cursor)) s of
        (Inl e, s1) \<Rightarrow> (Inl (Some e), s1)
      | (Inr p, s1) \<Rightarrow>
          (case do_poll src event p batch s1 of
             (Inl e, s2) \<Rightarrow> (Inl (Some (Wrap_err ''%s: %w'' [AStr cursor] e)), s2)
           | (Inr evs, s2) \<Rightarrow>
               if evs = [] then (Inl None, s2)
               else (case on_db (call_db (Deliver inbox evs)) s2 of
                       (Inl e, s3) \<Rightarrow> (Inl (Some (Wrap_err ''%s: inbox: %w'' [AStr cursor] e)), s3)
                     | (Inr _, s3) \<Rightarrow>
                         (case on_db (call_db (SetCursor cursor (re_Position (last evs)))) s3 of
                            (Inl e, s4) \<Rightarrow> (Inl (Some e), s4)
                          | (Inr _, s4) \<Rightarrow> if int (length evs) < batch then (Inl None, s4) else (Inr (), s4)))))"

text \<open>The loop, which ends only when a poll returns less than a batch: a source with ever more events would keep it
  running. \<^const>\<open>None\<close> is a loop that does not end.\<close>

partial_function (option) reconcile ::
  "poll_fun \<Rightarrow> string \<Rightarrow> string \<Rightarrow> string \<Rightarrow> int \<Rightarrow> dispatch_state \<Rightarrow> (goerror option \<times> dispatch_state) option" where
  "reconcile src event cursor inbox batch s =
     (case reconcile_round src event cursor inbox batch s of
        (Inl r, s') \<Rightarrow> Some (r, s')
      | (Inr _, s') \<Rightarrow> reconcile src event cursor inbox batch s')"

section \<open>A pass\<close>

definition cursor_name :: "workflow \<Rightarrow> string" where
  "cursor_name w = wf_Name w @ ''@'' @ ws_Endpoint (wf_Trigger w) @ ''/'' @ ws_Event (wf_Trigger w)"

definition read_inbox :: "workflow \<Rightarrow> int \<Rightarrow> int \<Rightarrow> dispatch_state \<Rightarrow> (goerror + run_event list) \<times> dispatch_state" where
  "read_inbox w batch after s =
     on_db (call_db (Inbox (InboxSource (ws_Endpoint (wf_Trigger w)) (ws_Event (wf_Trigger w))) (ws_Event (wf_Trigger w)) after (nat batch))) s"

definition Poll_workflow ::
  "dispatcher \<Rightarrow> (nat \<Rightarrow> int) \<Rightarrow> int \<Rightarrow> int \<Rightarrow> workflow \<Rightarrow> dispatch_state \<Rightarrow> ((nat \<times> goerror list) \<times> dispatch_state) option" where
  "Poll_workflow d now batch reconcileEvery w s =
     (let rt = di_Runtime d;
          name = cursor_name w;
          ep = ws_Endpoint (wf_Trigger w);
          event = ws_Event (wf_Trigger w);
          hooked = (rw_Webhooks rt ep event \<noteq> None);
          streamed = rw_Streams rt ep event
      in if streamed \<and> \<not> di_Inbox d
         then Some ((0, [New_err ''%s: arrives by subscription, which needs an inbox'' [AStr name]]), s)
         else if \<not> streamed \<and> (\<not> hooked \<or> \<not> di_Inbox d)
         then (case rw_Sources rt ep of
                 None \<Rightarrow> None
               | Some src \<Rightarrow>
                   (case drain d w name (\<lambda>after. do_poll src event after batch) s of
                      ((n, err), s') \<Rightarrow> Some ((n, case err of None \<Rightarrow> [] | Some e \<Rightarrow> [e]), s')))
         else
           (let due = (\<not> streamed \<and> (case dp_lastPolled s name of None \<Rightarrow> True | Some t \<Rightarrow> reconcileEvery \<le> now (dp_polls s) - t)) in
            case (if due
                  then (case rw_Sources rt ep of
                          None \<Rightarrow> None
                        | Some src \<Rightarrow>
                            (case reconcile src event name (InboxSource ep event) batch s of
                               None \<Rightarrow> None
                             | Some (Some e, s1) \<Rightarrow> Some ([e], s1)
                             | Some (None, s1) \<Rightarrow> Some ([], s1\<lparr>dp_lastPolled := (dp_lastPolled s1)(name \<mapsto> now (dp_polls s1))\<rparr>)))
                  else Some ([], s)) of
              None \<Rightarrow> None
            | Some (problems, s2) \<Rightarrow>
                (case drain d w (name @ ''#inbox'') (read_inbox w batch) s2 of
                   ((n, err), s3) \<Rightarrow> Some ((n, problems @ (case err of None \<Rightarrow> [] | Some e \<Rightarrow> [e])), s3))))"

fun Poll_all ::
  "dispatcher \<Rightarrow> (nat \<Rightarrow> int) \<Rightarrow> int \<Rightarrow> int \<Rightarrow> workflow list \<Rightarrow> nat \<Rightarrow> goerror list \<Rightarrow> dispatch_state
     \<Rightarrow> ((nat \<times> goerror list) \<times> dispatch_state) option" where
  "Poll_all d now batch rec [] started problems s = Some ((started, problems), s)"
| "Poll_all d now batch rec (w # ws) started problems s =
     (case Poll_workflow d now batch rec w s of
        None \<Rightarrow> None
      | Some ((n, es), s') \<Rightarrow> Poll_all d now batch rec ws (started + n) (problems @ es) s')"

text \<open>\<open>Poll\<close>: every workflow in the order of names. A workflow without a source cannot be polled (\<open>New\<close> refuses
  it); the model then has no result. The clock is a function of the number of polls made.\<close>

definition Poll :: "dispatcher \<Rightarrow> (nat \<Rightarrow> int) \<Rightarrow> dispatch_state \<Rightarrow> ((nat \<times> goerror option) \<times> dispatch_state) option" where
  "Poll d now s =
     (let batch = (if di_Batch d \<le> 0 then 100 else di_Batch d);
          rec = (if di_Reconcile d \<le> 0 then DefaultReconcile else di_Reconcile d)
      in case Poll_all d now batch rec (sort_key wf_Name (rw_Workflows (di_Runtime d))) 0 [] s of
           None \<Rightarrow> None
         | Some ((n, problems), s') \<Rightarrow> Some ((n, Join_err problems), s'))"

section \<open>Webhooks\<close>

datatype http_reply = HTTPOk nat nat | HTTPError nat string

definition MaxWebhookBody :: nat where
  "MaxWebhookBody = 4194304"

text \<open>The handler of a delivery; the last component says whether the dispatcher is woken.\<close>

definition WebhookHandler ::
  "runtime_view \<Rightarrow> string \<Rightarrow> string \<Rightarrow> (string \<times> string) list \<Rightarrow> string \<Rightarrow> int \<Rightarrow> db \<Rightarrow> (http_reply \<times> bool) \<times> db" where
  "WebhookHandler rt endpoint event header body now s =
     (case rw_Webhooks rt endpoint event of
        None \<Rightarrow> ((HTTPError 404 (''no webhook event '' @ endpoint @ ''/'' @ event @ '' in this spec''), False), s)
      | Some receive \<Rightarrow>
          if MaxWebhookBody < length body then ((HTTPError 413 ''delivery too large'', False), s)
          else (case receive header body now of
                  Unauthenticated \<Rightarrow> ((HTTPError 401 ''signature is missing, invalid or expired'', False), s)
                | Unusable e \<Rightarrow> ((HTTPError 400 ''invalid'', False), s)
                | Events evs \<Rightarrow>
                    if evs = [] then ((HTTPOk 0 0, False), s)
                    else (case call_db (Deliver (InboxSource endpoint event) evs) s of
                            (Inl e, s') \<Rightarrow> ((HTTPError 503 ''could not store the delivery; retry'', False), s')
                          | (Inr n, s') \<Rightarrow> ((HTTPOk (length evs) n, 0 < n), s'))))"

section \<open>Subscriptions\<close>

text \<open>What a subscription does while it is open: batches with the position after them, until it ends, with
  an error or without, or the worker stops.\<close>

fun stream_batches ::
  "string \<Rightarrow> (run_event list \<times> string) list \<Rightarrow> goerror option \<Rightarrow> bool \<Rightarrow> db \<Rightarrow> (goerror option \<times> bool) \<times> db" where
  "stream_batches source [] ended delivered s = ((ended, delivered), s)"
| "stream_batches source ((evs, next) # bs) ended delivered s =
     (case call_db (DeliverStream source evs next) s of
        (Inl e, s') \<Rightarrow> ((Some e, delivered), s')
      | (Inr n, s') \<Rightarrow> stream_batches source bs ended True s')"

definition or_duration :: "int \<Rightarrow> int \<Rightarrow> int" where
  "or_duration d def = (if 0 < d then d else def)"

record streams =
  st_Locker :: bool
  st_MinBackoff :: int
  st_MaxBackoff :: int
  st_Standby :: int

text \<open>One turn of \<open>run\<close>: the wait before the next turn, and the backoff for it. \<open>sub\<close> is what the source does when it is
  subscribed from a position. An answer lost while locking loses the connection, and with it the lock.\<close>

definition stream_turn ::
  "streams \<Rightarrow> string \<Rightarrow> (string option \<Rightarrow> (run_event list \<times> string) list \<times> goerror option) \<Rightarrow> int \<Rightarrow> db \<Rightarrow> (int \<times> int) \<times> db" where
  "stream_turn st source sub backoff s =
     (let minB = or_duration (st_MinBackoff st) 1000000000;
          maxB = or_duration (st_MaxBackoff st) 60000000000;
          standby = or_duration (st_Standby st) 10000000000;
          name = ''stream:'' @ source
      in case (if st_Locker st then call_db (TryLock name) s else (Inr True, s)) of
           (Inl e, s1) \<Rightarrow> ((standby, backoff), s1\<lparr>db_locks := db_locks s\<rparr>)
         | (Inr False, s1) \<Rightarrow> ((standby, backoff), s1)
         | (Inr True, s1) \<Rightarrow>
             (case call_db (StreamResume source) s1 of
                (Inl e, s2) \<Rightarrow> ((backoff, min (backoff * 2) maxB), if st_Locker st then Unlock name s2 else s2)
              | (Inr resume, s2) \<Rightarrow>
                  (case sub resume of
                     (bs, ended) \<Rightarrow>
                       (case stream_batches source bs ended False s2 of
                          ((err, delivered), s3) \<Rightarrow>
                            (let b = (if delivered then minB else backoff)
                             in ((b, min (b * 2) maxB), if st_Locker st then Unlock name s3 else s3))))))"

end
