(* ===== verification/Dispatch_Fleet.thy ===== *)
theory Dispatch_Fleet
  imports Dispatch_Props
begin

text \<open>
  Any number of workers dispatch one workflow from the shared inbox, while webhooks, subscriptions and reconciling polls deliver into it,
  runs end, old deliveries are pruned, calls fail and workers crash. Each step is one call that a worker makes to the
  database or to Temporal, so every interleaving of their passes is a path; \<open>drain_is_a_path\<close> shows that the
  passes of the dispatcher are such paths.
\<close>

section \<open>The fleet\<close>

text \<open>Where a worker is in \<open>drain\<close>: not in it; after reading the cursor; with the events still to be started; after
  starting one, before storing the cursor.\<close>

datatype drain_phase = Resting | At int | Have "run_event list" | Begun run_event "run_event list"

record fleet =
  fl_db :: db
  fl_phase :: "nat \<Rightarrow> drain_phase"
  fl_acked :: "(string \<times> string) set"

definition to_phase :: "nat \<Rightarrow> drain_phase \<Rightarrow> fleet \<Rightarrow> fleet" where
  "to_phase k p s = s\<lparr>fl_phase := (fl_phase s)(k := p)\<rparr>"

definition with_db :: "db \<Rightarrow> fleet \<Rightarrow> fleet" where
  "with_db d s = s\<lparr>fl_db := d\<rparr>"

record lane =
  ln_dispatcher :: dispatcher
  ln_workflow :: workflow
  ln_batch :: int

definition lane_source :: "lane \<Rightarrow> string" where
  "lane_source L = InboxSource (ws_Endpoint (wf_Trigger (ln_workflow L))) (ws_Event (wf_Trigger (ln_workflow L)))"

definition lane_event :: "lane \<Rightarrow> string" where
  "lane_event L = ws_Event (wf_Trigger (ln_workflow L))"

definition lane_cursor :: "lane \<Rightarrow> string" where
  "lane_cursor L = cursor_name (ln_workflow L) @ ''#inbox''"

abbreviation lane_name :: "lane \<Rightarrow> string" where
  "lane_name L \<equiv> wf_Name (ln_workflow L)"

definition lane_start :: "lane \<Rightarrow> run_event \<Rightarrow> db \<Rightarrow> db" where
  "lane_start L ev s =
     snd (execute_workflow (di_Queue (ln_dispatcher L)) (RunID (lane_name L) ev) (event_input (ln_dispatcher L) (ln_workflow L) ev) s)"

text \<open>Steps of a worker's pass, and steps of everything around it.\<close>

inductive work :: "lane \<Rightarrow> nat \<Rightarrow> fleet \<Rightarrow> fleet \<Rightarrow> bool" for L k where
  fails: "work L k s (to_phase k Resting s)"
| reads_cursor: "fl_phase s k = Resting \<Longrightarrow> work L k s (to_phase k (At (get_cursor (lane_cursor L) (fl_db s))) s)"
| reads_inbox: "fl_phase s k = At p \<Longrightarrow>
    work L k s (to_phase k (Have (fst (Inbox (lane_source L) (lane_event L) p (nat (ln_batch L)) (fl_db s)))) s)"
| starts: "fl_phase s k = Have (ev # evs) \<Longrightarrow> work L k s (to_phase k (Begun ev evs) (with_db (lane_start L ev (fl_db s)) s))"
| starts_unheard: "fl_phase s k = Have (ev # evs) \<Longrightarrow> work L k s (to_phase k Resting (with_db (lane_start L ev (fl_db s)) s))"
| advances: "fl_phase s k = Begun ev evs \<Longrightarrow>
    work L k s (to_phase k (Have evs) (with_db (snd (SetCursor (lane_cursor L) (pos ev) (fl_db s))) s))"
| advances_unheard: "fl_phase s k = Begun ev evs \<Longrightarrow>
    work L k s (to_phase k Resting (with_db (snd (SetCursor (lane_cursor L) (pos ev) (fl_db s))) s))"

inductive around :: "lane \<Rightarrow> fleet \<Rightarrow> fleet \<Rightarrow> bool" for L where
  delivers: "around L s (s\<lparr>fl_db := snd (Deliver source evs (fl_db s)), fl_acked := fl_acked s \<union> (\<lambda>ev. (source, re_ID ev)) ` set evs\<rparr>)"
| run_over: "around L s (with_db (run_ends i st (fl_db s)) s)"
| other_run: "around L s (with_db (snd (execute_workflow q i inp (fl_db s))) s)"
| other_cursor: "c \<noteq> lane_cursor L \<Longrightarrow> around L s (with_db (snd (SetCursor c p (fl_db s))) s)"
| time_passes: "around L s (with_db ((fl_db s)\<lparr>db_now := t, db_replies := rs\<rparr>) s)"

inductive pruning :: "fleet \<Rightarrow> fleet \<Rightarrow> bool" where
  prunes: "pruning s (with_db (snd (PruneInbox c (fl_db s))) s)"

definition fleet_step :: "lane \<Rightarrow> fleet \<Rightarrow> fleet \<Rightarrow> bool" where
  "fleet_step L s s' = ((\<exists>k. work L k s s') \<or> around L s s' \<or> pruning s s')"

definition fleet_init :: "lane \<Rightarrow> fleet \<Rightarrow> bool" where
  "fleet_init L s =
     (db_inbox (fl_db s) = [] \<and> 0 < db_nextseq (fl_db s) \<and> db_cursors (fl_db s) (lane_cursor L) = None \<and>
      (\<forall>k. fl_phase s k = Resting) \<and> fl_acked s = {})"

section \<open>Invariant\<close>

definition rows_upto :: "lane \<Rightarrow> db \<Rightarrow> int \<Rightarrow> inbox_row set" where
  "rows_upto L s p = {r \<in> set (db_inbox s). ir_source r = lane_source L \<and> ir_seq r \<le> p}"

definition row_started :: "lane \<Rightarrow> db \<Rightarrow> inbox_row \<Rightarrow> bool" where
  "row_started L s r = (db_runs s (lane_name L @ ''/'' @ ir_event_id r) \<noteq> None)"

definition batch_ok :: "lane \<Rightarrow> db \<Rightarrow> run_event list \<Rightarrow> bool" where
  "batch_ok L s evs =
     (sorted_wrt (<) (map pos evs) \<and>
      (\<forall>e \<in> set evs. pos e < db_nextseq s \<and>
         (\<forall>r \<in> rows_upto L s (pos e). row_started L s r \<or> row_event (lane_event L) r \<in> set evs)))"

fun phase_ok :: "lane \<Rightarrow> db \<Rightarrow> drain_phase \<Rightarrow> bool" where
  "phase_ok L s Resting = True"
| "phase_ok L s (At p) = (p < db_nextseq s \<and> (\<forall>r \<in> rows_upto L s p. row_started L s r))"
| "phase_ok L s (Have evs) = batch_ok L s evs"
| "phase_ok L s (Begun ev evs) = (batch_ok L s (ev # evs) \<and> started (lane_name L) s ev)"

definition cursor_ok :: "lane \<Rightarrow> db \<Rightarrow> bool" where
  "cursor_ok L s = phase_ok L s (At (get_cursor (lane_cursor L) s))"

definition fleet_ok :: "lane \<Rightarrow> fleet \<Rightarrow> bool" where
  "fleet_ok L s = (inbox_ok (fl_db s) \<and> cursor_ok L (fl_db s) \<and> (\<forall>k. phase_ok L (fl_db s) (fl_phase s k)))"

text \<open>What every step around a worker keeps of the tables: rows come with new numbers or go, runs stay
  known.\<close>

definition keeps :: "lane \<Rightarrow> db \<Rightarrow> db \<Rightarrow> bool" where
  "keeps L s s' =
     (db_nextseq s \<le> db_nextseq s' \<and> (\<forall>r \<in> set (db_inbox s'). r \<in> set (db_inbox s) \<or> db_nextseq s \<le> ir_seq r) \<and>
      (\<forall>i. db_runs s i \<noteq> None \<longrightarrow> db_runs s' i \<noteq> None))"

lemma keeps_rows: "keeps L s s' \<Longrightarrow> p < db_nextseq s \<Longrightarrow> r \<in> rows_upto L s' p \<Longrightarrow> r \<in> rows_upto L s p"
  by (fastforce simp: keeps_def rows_upto_def)

lemma keeps_started: "keeps L s s' \<Longrightarrow> row_started L s r \<Longrightarrow> row_started L s' r"
  "keeps L s s' \<Longrightarrow> started (lane_name L) s ev \<Longrightarrow> started (lane_name L) s' ev"
  by (auto simp: keeps_def row_started_def started_def)

lemma keeps_batch:
  assumes "keeps L s s'" "batch_ok L s evs"
  shows "batch_ok L s' evs"
  unfolding batch_ok_def
proof (intro conjI ballI)
  from assms(2) show "sorted_wrt (<) (map pos evs)" by (simp add: batch_ok_def)
  fix e
  assume e: "e \<in> set evs"
  with assms(2) have "pos e < db_nextseq s" by (simp add: batch_ok_def)
  with assms(1) show "pos e < db_nextseq s'" by (simp add: keeps_def)
  fix r
  assume "r \<in> rows_upto L s' (pos e)"
  with keeps_rows [OF assms(1) \<open>pos e < db_nextseq s\<close>] assms(2) e
  have "row_started L s r \<or> row_event (lane_event L) r \<in> set evs" by (auto simp: batch_ok_def)
  with keeps_started(1) [OF assms(1)] show "row_started L s' r \<or> row_event (lane_event L) r \<in> set evs" by blast
qed

lemma keeps_phase:
  assumes "keeps L s s'" "phase_ok L s p"
  shows "phase_ok L s' p"
proof (cases p)
  case (At x)
  with assms have "x < db_nextseq s'" by (simp add: keeps_def)
  with At assms keeps_rows [OF assms(1), of x] keeps_started(1) [OF assms(1)] show ?thesis by auto
qed (use assms keeps_batch keeps_started in auto)

lemma keeps_cursor:
  "keeps L s s' \<Longrightarrow> cursor_ok L s \<Longrightarrow> db_cursors s' (lane_cursor L) = db_cursors s (lane_cursor L) \<Longrightarrow> cursor_ok L s'"
  using keeps_phase [of L s s' "At (get_cursor (lane_cursor L) s)"] by (simp add: cursor_ok_def get_cursor_def)

section \<open>Steps keep the invariant\<close>

lemma fleet_ok_keeps:
  assumes "keeps L (fl_db s) d'" "inbox_ok d'" "db_cursors d' (lane_cursor L) = db_cursors (fl_db s) (lane_cursor L)" "fleet_ok L s"
  shows "fleet_ok L (with_db d' s)"
  using assms keeps_phase [OF assms(1)] keeps_cursor [OF assms(1) _ assms(3)] by (simp add: fleet_ok_def with_db_def)

lemma fleet_ok_phase: "fleet_ok L s \<Longrightarrow> phase_ok L (fl_db s) p \<Longrightarrow> fleet_ok L (to_phase k p s)"
  by (simp add: fleet_ok_def to_phase_def)

lemma keeps_grows: "inbox_grows s s' \<Longrightarrow> keeps L s s'"
  by (auto simp: inbox_grows_def keeps_def)

lemma keeps_runs:
  "db_inbox s' = db_inbox s \<Longrightarrow> db_nextseq s' = db_nextseq s \<Longrightarrow> (\<And>i. db_runs s i \<noteq> None \<Longrightarrow> db_runs s' i \<noteq> None) \<Longrightarrow> keeps L s s'"
  by (simp add: keeps_def)

lemma keeps_prune: "keeps L s (snd (PruneInbox c s))"
  by (auto simp: keeps_def PruneInbox_def)

text \<open>Steps that change no row.\<close>

lemma fleet_ok_runs:
  assumes "fleet_ok L s" "db_inbox d' = db_inbox (fl_db s)" "db_nextseq d' = db_nextseq (fl_db s)"
    "db_cursors d' (lane_cursor L) = db_cursors (fl_db s) (lane_cursor L)" "\<And>i. db_runs (fl_db s) i \<noteq> None \<Longrightarrow> db_runs d' i \<noteq> None"
  shows "fleet_ok L (with_db d' s)"
proof (rule fleet_ok_keeps)
  show "keeps L (fl_db s) d'" by (rule keeps_runs) (use assms in auto)
  show "inbox_ok d'" using assms(1-3) by (simp add: fleet_ok_def inbox_ok_def)
qed (use assms in auto)

lemma run_ends_runs: "db_runs s i \<noteq> None \<Longrightarrow> db_runs (run_ends j st s) i \<noteq> None"
  "db_inbox (run_ends j st s) = db_inbox s" "db_nextseq (run_ends j st s) = db_nextseq s" "db_cursors (run_ends j st s) = db_cursors s"
  by (auto simp: run_ends_def split: option.splits)

lemma grows_cursors: "inbox_grows s s' \<Longrightarrow> db_cursors s' = db_cursors s"
  by (auto simp: inbox_grows_def)

lemma exec_facts:
  "db_runs s i \<noteq> None \<Longrightarrow> db_runs (snd (execute_workflow q j inp s)) i \<noteq> None"
  "db_inbox (snd (execute_workflow q j inp s)) = db_inbox s" "db_nextseq (snd (execute_workflow q j inp s)) = db_nextseq s"
  "db_cursors (snd (execute_workflow q j inp s)) = db_cursors s" "db_runs (snd (execute_workflow q j inp s)) j \<noteq> None"
  using execute_workflow_runs [of q j inp s] by (metis prod.collapse)+

lemma exec_ok: "fleet_ok L s \<Longrightarrow> fleet_ok L (with_db (snd (execute_workflow q j inp (fl_db s))) s)"
  by (rule fleet_ok_runs) (auto simp: exec_facts)

lemma around_ok: "around L s s' \<Longrightarrow> fleet_ok L s \<Longrightarrow> fleet_ok L s'"
proof (induction rule: around.induct)
  case (delivers s source evs)
  have "fleet_ok L (with_db (snd (Deliver source evs (fl_db s))) s)"
    by (rule fleet_ok_keeps)
       (use delivers Deliver_ok Deliver_grows [of "fl_db s" source evs] keeps_grows grows_cursors in \<open>auto simp: fleet_ok_def\<close>)
  then show ?case by (simp add: fleet_ok_def with_db_def)
next
  case (run_over s i st)
  then show ?case by (rule fleet_ok_runs) (auto simp: run_ends_runs)
next
  case (other_run s q i inp)
  then show ?case by (rule exec_ok)
next
  case (other_cursor c s p)
  from other_cursor(2) show ?case by (rule fleet_ok_runs) (use other_cursor(1) in \<open>auto simp: SetCursor_def\<close>)
next
  case (time_passes s t rs)
  then show ?case by (rule fleet_ok_runs) auto
qed

lemma pruning_ok: "pruning s s' \<Longrightarrow> fleet_ok L s \<Longrightarrow> fleet_ok L s'"
  by (induction rule: pruning.induct)
     (rule fleet_ok_keeps, auto simp: keeps_prune PruneInbox_ok fleet_ok_def, simp add: PruneInbox_def)

text \<open>A batch read from the inbox leaves no started-or-listed row out.\<close>

lemma Inbox_batch_ok:
  assumes "inbox_ok s" "phase_ok L s (At p)"
  shows "batch_ok L s (fst (Inbox (lane_source L) (lane_event L) p n s))"
proof -
  let ?P = "\<lambda>r. ir_source r = lane_source L \<and> p < ir_seq r"
  let ?f = "filter ?P (db_inbox s)"
  have b: "fst (Inbox (lane_source L) (lane_event L) p n s) = map (row_event (lane_event L)) (take n ?f)"
    by (simp add: Inbox_rows [OF assms(1)])
  have ps: "map pos (map (row_event (lane_event L)) rs) = map ir_seq rs" for rs by (simp add: row_event_def)
  have srt: "sorted_wrt (<) (map ir_seq ?f)"
    using assms(1) by (auto simp: inbox_ok_def sorted_wrt_map intro: sorted_wrt_filter)
  then have srt2: "sorted_wrt (<) (map ir_seq (take n ?f @ drop n ?f))" by simp
  have "row_started L s r \<or> row_event (lane_event L) r \<in> set (map (row_event (lane_event L)) (take n ?f))"
    if "e \<in> set (take n ?f)" "r \<in> rows_upto L s (ir_seq e)" for e r
  proof (cases "ir_seq r \<le> p")
    case True
    with that(2) assms(2) show ?thesis by (auto simp: rows_upto_def)
  next
    case False
    with that(2) have "r \<in> set ?f" by (simp add: rows_upto_def)
    then have "r \<in> set (take n ?f) \<or> r \<in> set (drop n ?f)" by (metis UnE append_take_drop_id set_append)
    moreover have "r \<notin> set (drop n ?f)"
    proof
      assume "r \<in> set (drop n ?f)"
      with srt2 that(1) have "ir_seq e < ir_seq r" by (simp add: sorted_wrt_append del: append_take_drop_id)
      with that(2) show False by (simp add: rows_upto_def)
    qed
    ultimately show ?thesis by auto
  qed
  moreover have "ir_seq e < db_nextseq s" if "e \<in> set (take n ?f)" for e
    using assms(1) in_set_takeD [OF that] by (auto simp: inbox_ok_def)
  moreover from srt2 have "sorted_wrt (<) (map ir_seq (take n ?f))" by (simp add: sorted_wrt_append del: append_take_drop_id)
  ultimately show ?thesis unfolding batch_ok_def b ps by (auto simp: row_event_def)
qed

text \<open>Starting the first event of a batch, and then storing its position.\<close>

lemma lane_start_facts:
  "db_runs s i \<noteq> None \<Longrightarrow> db_runs (lane_start L ev s) i \<noteq> None" "started (lane_name L) (lane_start L ev s) ev"
  "db_inbox (lane_start L ev s) = db_inbox s" "db_nextseq (lane_start L ev s) = db_nextseq s" "db_cursors (lane_start L ev s) = db_cursors s"
  by (simp_all add: lane_start_def exec_facts started_def)

lemma lane_start_ok: "fleet_ok L s \<Longrightarrow> fleet_ok L (with_db (lane_start L ev (fl_db s)) s)"
  by (simp add: lane_start_def exec_ok)

lemma Begun_upto:
  assumes "phase_ok L s (Begun ev evs)" "r \<in> rows_upto L s (pos ev)"
  shows "row_started L s r"
proof -
  from assms have "row_started L s r \<or> row_event (lane_event L) r \<in> set (ev # evs)" by (simp add: batch_ok_def)
  moreover have "row_event (lane_event L) r \<notin> set evs"
    using assms by (auto simp: batch_ok_def rows_upto_def row_event_def)
  moreover have "row_started L s r" if "row_event (lane_event L) r = ev"
    using assms(1) that by (auto simp: started_def row_started_def row_event_def RunID_def)
  ultimately show ?thesis by auto
qed

lemma advance_ok:
  assumes "fleet_ok L s" "fl_phase s k = Begun ev evs"
  shows "fleet_ok L (to_phase k (Have evs) (with_db (snd (SetCursor (lane_cursor L) (pos ev) (fl_db s))) s))"
proof -
  let ?d = "fl_db s" and ?d' = "snd (SetCursor (lane_cursor L) (pos ev) (fl_db s))"
  from assms have ph: "phase_ok L ?d (Begun ev evs)" by (metis fleet_ok_def)
  have k: "keeps L ?d ?d'" by (simp add: keeps_def SetCursor_def)
  have g: "get_cursor (lane_cursor L) ?d' \<in> {get_cursor (lane_cursor L) ?d, pos ev}"
    by (auto simp: SetCursor_get) (auto simp: get_cursor_def max_def split: option.splits)
  have at: "phase_ok L ?d (At (pos ev))"
    using ph Begun_upto [OF ph] by (simp add: batch_ok_def)
  have c: "cursor_ok L ?d'"
    using g keeps_phase [OF k at] keeps_phase [OF k, of "At (get_cursor (lane_cursor L) ?d)"] assms(1)
    by (auto simp: cursor_ok_def fleet_ok_def simp del: phase_ok.simps)
  have "batch_ok L ?d evs"
  proof -
    have "row_started L ?d r \<or> row_event (lane_event L) r \<in> set evs" if "e \<in> set evs" "r \<in> rows_upto L ?d (pos e)" for e r
    proof (cases "row_event (lane_event L) r = ev")
      case True
      with that(2) have "r \<in> rows_upto L ?d (pos ev)" by (auto simp: rows_upto_def row_event_def)
      with Begun_upto [OF ph] show ?thesis by simp
    next
      case False
      with that ph show ?thesis by (auto simp: batch_ok_def)
    qed
    with ph show ?thesis by (simp add: batch_ok_def)
  qed
  with keeps_batch [OF k] have b: "batch_ok L ?d' evs" by blast
  have i: "inbox_ok ?d'" using assms(1) by (simp add: fleet_ok_def inbox_ok_def SetCursor_def)
  show ?thesis using assms(1) c b i keeps_phase [OF k] by (simp add: fleet_ok_def to_phase_def with_db_def)
qed

lemma work_ok: "work L k s s' \<Longrightarrow> fleet_ok L s \<Longrightarrow> fleet_ok L s'"
proof (induction rule: work.induct)
  case (reads_cursor s)
  then show ?case by (intro fleet_ok_phase) (simp_all add: fleet_ok_def cursor_ok_def)
next
  case (reads_inbox s p)
  then show ?case by (intro fleet_ok_phase) (simp_all add: fleet_ok_def, metis Inbox_batch_ok)
next
  case (starts s ev evs)
  have "phase_ok L (fl_db s) (Have (ev # evs))" using starts by (metis fleet_ok_def)
  then have "phase_ok L (lane_start L ev (fl_db s)) (Begun ev evs)"
    using keeps_batch [OF keeps_runs [OF lane_start_facts(3,4) lane_start_facts(1)]] lane_start_facts(2) by simp
  with lane_start_ok [OF starts(2)] show ?case by (intro fleet_ok_phase) (simp_all add: with_db_def)
next
  case (starts_unheard s ev evs)
  then show ?case by (intro fleet_ok_phase lane_start_ok) simp_all
next
  case (advances s ev evs)
  then show ?case by (intro advance_ok)
next
  case (advances_unheard s ev evs)
  from fleet_ok_phase [OF advance_ok [OF advances_unheard(2,1)], of Resting k] show ?case by (simp add: to_phase_def)
qed (simp add: fleet_ok_phase)

lemma fleet_step_ok: "fleet_step L s s' \<Longrightarrow> fleet_ok L s \<Longrightarrow> fleet_ok L s'"
  by (auto simp: fleet_step_def intro: work_ok around_ok pruning_ok)

lemma fleet_reach_ok: "(fleet_step L)\<^sup>*\<^sup>* s s' \<Longrightarrow> fleet_ok L s \<Longrightarrow> fleet_ok L s'"
  by (induction rule: rtranclp_induct) (auto intro: fleet_step_ok)

lemma fleet_init_ok: "fleet_init L s \<Longrightarrow> fleet_ok L s"
  by (simp add: fleet_init_def fleet_ok_def inbox_ok_def cursor_ok_def rows_upto_def get_cursor_def)

section \<open>The dispatcher's passes are paths\<close>

definition fleet_path :: "lane \<Rightarrow> fleet \<Rightarrow> fleet \<Rightarrow> bool" where
  "fleet_path L = (\<lambda>s s'. (\<exists>k. work L k s s') \<or> around L s s')\<^sup>*\<^sup>*"

lemma fleet_path_refl: "fleet_path L s s"
  by (simp add: fleet_path_def)

lemma fleet_path_trans: "fleet_path L s t \<Longrightarrow> fleet_path L t u \<Longrightarrow> fleet_path L s u"
  by (simp add: fleet_path_def)

lemma fleet_path_work: "work L k s t \<Longrightarrow> fleet_path L s t"
  unfolding fleet_path_def by (rule r_into_rtranclp) blast

lemma fleet_path_around: "around L s t \<Longrightarrow> fleet_path L s t"
  unfolding fleet_path_def by (rule r_into_rtranclp) blast

lemma fleet_path_ok: "fleet_path L s s' \<Longrightarrow> fleet_ok L s \<Longrightarrow> fleet_ok L s'"
  unfolding fleet_path_def by (induction rule: rtranclp_induct) (auto intro: work_ok around_ok)

lemma fleet_path_reach: "fleet_path L s s' \<Longrightarrow> (fleet_step L)\<^sup>*\<^sup>* s s'"
  unfolding fleet_path_def by (erule rtranclp_mono [THEN predicate2D, rotated]) (auto simp: fleet_step_def)

text \<open>The state of the fleet while worker \<open>k\<close> is in a phase and the tables are \<open>d\<close>.\<close>

definition at_work :: "fleet \<Rightarrow> nat \<Rightarrow> drain_phase \<Rightarrow> db \<Rightarrow> fleet" where
  "at_work f k p d = to_phase k p (with_db d f)"

lemma at_work_simps [simp]:
  "fl_db (at_work f k p d) = d" "fl_phase (at_work f k p d) k = p" "to_phase k q (at_work f k p d) = at_work f k q d"
  "with_db d' (at_work f k p d) = at_work f k p d'"
  by (simp_all add: at_work_def to_phase_def with_db_def)

lemma replies_path: "fleet_path L (at_work f k p d) (at_work f k p (d\<lparr>db_replies := rs\<rparr>))"
  using fleet_path_around [OF around.time_passes [where s = "at_work f k p d" and t = "db_now d" and rs = rs]] by simp

text \<open>A call as a path: it is refused, or it takes effect and is not heard of, or it is answered.\<close>

lemma call_path:
  assumes "call_db f s = (r, s')"
    and "\<And>d. fleet_path L (at_work F k p d) (at_work F k Resting d)"
    and "\<And>d. fleet_path L (at_work F k p d) (at_work F k Resting (snd (f d)))"
    and "\<And>d. fleet_path L (at_work F k p d) (at_work F k (q (fst (f d))) (snd (f d)))"
  shows "(\<exists>e. r = Inl e) \<and> fleet_path L (at_work F k p s) (at_work F k Resting s') \<or>
         (\<exists>a. r = Inr a \<and> fleet_path L (at_work F k p s) (at_work F k (q a) s'))"
  using assms(1)
proof (cases rule: call_db_cases)
  case (refused rs)
  with fleet_path_trans [OF replies_path assms(2)] show ?thesis by blast
next
  case (lost rs)
  with fleet_path_trans [OF replies_path assms(3)] show ?thesis by blast
next
  case (answered rs)
  with fleet_path_trans [OF replies_path assms(4)] show ?thesis by blast
qed

lemma fails_path: "fleet_path L (at_work F k p d) (at_work F k Resting d)"
  using fleet_path_work [OF work.fails, of L "at_work F k p d" k] by simp

lemma Start_path:
  assumes "Start (di_Queue (ln_dispatcher L)) (RunID (lane_name L) ev) (event_input (ln_dispatcher L) (ln_workflow L) ev) s = (r, s')"
  shows "(\<exists>e. r = Inl e) \<and> fleet_path L (at_work F k (Have (ev # evs)) s) (at_work F k Resting s') \<or>
         r = Inr () \<and> fleet_path L (at_work F k (Have (ev # evs)) s) (at_work F k (Begun ev evs) s')"
proof -
  let ?f = "execute_workflow (di_Queue (ln_dispatcher L)) (RunID (lane_name L) ev) (event_input (ln_dispatcher L) (ln_workflow L) ev)"
  obtain r0 where c: "call_db ?f s = (r0, s')" and r: "r = (case r0 of Inl e \<Rightarrow> Inl e | Inr b \<Rightarrow> Inr ())"
    using assms by (auto simp: Start_def split: prod.splits sum.splits)
  have "fleet_path L (at_work F k (Have (ev # evs)) d) (at_work F k Resting (snd (?f d)))"
    "fleet_path L (at_work F k (Have (ev # evs)) d) (at_work F k (Begun ev evs) (snd (?f d)))" for d
    using fleet_path_work [OF work.starts_unheard, of "at_work F k (Have (ev # evs)) d" k ev evs L]
      fleet_path_work [OF work.starts, of "at_work F k (Have (ev # evs)) d" k ev evs L]
    by (simp_all add: lane_start_def)
  from call_path [where q = "\<lambda>_. Begun ev evs", OF c fails_path this] r show ?thesis by auto
qed

lemma SetCursor_path:
  assumes "call_db (SetCursor (lane_cursor L) (pos ev)) s = (r, s')"
  shows "(\<exists>e. r = Inl e) \<and> fleet_path L (at_work F k (Begun ev evs) s) (at_work F k Resting s') \<or>
         r = Inr () \<and> fleet_path L (at_work F k (Begun ev evs) s) (at_work F k (Have evs) s')"
proof -
  let ?f = "SetCursor (lane_cursor L) (pos ev)"
  have "fleet_path L (at_work F k (Begun ev evs) d) (at_work F k Resting (snd (?f d)))"
    "fleet_path L (at_work F k (Begun ev evs) d) (at_work F k (Have evs) (snd (?f d)))" for d
    using fleet_path_work [OF work.advances_unheard, of "at_work F k (Begun ev evs) d" k ev evs L]
      fleet_path_work [OF work.advances, of "at_work F k (Begun ev evs) d" k ev evs L]
    by simp_all
  from call_path [where q = "\<lambda>_. Have evs", OF assms fails_path this] show ?thesis by auto
qed

lemma drain_events_path:
  "drain_events (ln_dispatcher L) (ln_workflow L) (lane_cursor L) evs n s = (r, s') \<Longrightarrow>
   fleet_path L (at_work F k (Have evs) (dp_db s)) (at_work F k Resting (dp_db s'))"
proof (induction evs arbitrary: n s)
  case Nil
  then show ?case by (simp add: fails_path)
next
  case (Cons ev evs)
  obtain r1 d1 where st: "Start (di_Queue (ln_dispatcher L)) (RunID (lane_name L) ev) (event_input (ln_dispatcher L) (ln_workflow L) ev) (dp_db s) = (r1, d1)"
    by fastforce
  from Start_path [OF st, of F k evs] show ?case
  proof (elim disjE conjE exE)
    fix e
    assume "r1 = Inl e" "fleet_path L (at_work F k (Have (ev # evs)) (dp_db s)) (at_work F k Resting d1)"
    with Cons.prems st show ?case by (auto simp: on_db_def)
  next
    assume a: "r1 = Inr ()" and p1: "fleet_path L (at_work F k (Have (ev # evs)) (dp_db s)) (at_work F k (Begun ev evs) d1)"
    obtain r2 d2 where sc: "call_db (SetCursor (lane_cursor L) (pos ev)) d1 = (r2, d2)" by fastforce
    from SetCursor_path [OF sc, of F k evs] show ?case
    proof (elim disjE conjE exE)
      fix e
      assume "r2 = Inl e" "fleet_path L (at_work F k (Begun ev evs) d1) (at_work F k Resting d2)"
      with Cons.prems st sc a fleet_path_trans [OF p1] show ?case by (auto simp: on_db_def)
    next
      assume b: "r2 = Inr ()" and p2: "fleet_path L (at_work F k (Begun ev evs) d1) (at_work F k (Have evs) d2)"
      from Cons.prems st sc a b have "drain_events (ln_dispatcher L) (ln_workflow L) (lane_cursor L) evs (n + 1) (s\<lparr>dp_db := d2\<rparr>) = (r, s')"
        by (simp add: on_db_def)
      from Cons.IH [OF this] fleet_path_trans [OF p1 fleet_path_trans [OF p2]] show ?case by simp
    qed
  qed
qed

lemma drain_path:
  assumes "drain (ln_dispatcher L) (ln_workflow L) (lane_cursor L) (read_inbox (ln_workflow L) (ln_batch L)) s = (r, s')"
  shows "fleet_path L (at_work F k Resting (dp_db s)) (at_work F k Resting (dp_db s'))"
proof -
  obtain r1 d1 where c: "call_db (Cursor (lane_cursor L)) (dp_db s) = (r1, d1)" by fastforce
  have "fleet_path L (at_work F k Resting d) (at_work F k (At (fst (Cursor (lane_cursor L) d))) (snd (Cursor (lane_cursor L) d)))" for d
    using fleet_path_work [OF work.reads_cursor, of "at_work F k Resting d" k L] by (simp add: Cursor_def)
  from call_path [where q = At, OF c fails_path _ this]
  have "(\<exists>e. r1 = Inl e) \<and> fleet_path L (at_work F k Resting (dp_db s)) (at_work F k Resting d1) \<or>
        (\<exists>p. r1 = Inr p \<and> fleet_path L (at_work F k Resting (dp_db s)) (at_work F k (At p) d1))"
    by (simp add: Cursor_def fleet_path_refl)
  then show ?thesis
  proof (elim disjE conjE exE)
    fix e
    assume "r1 = Inl e" "fleet_path L (at_work F k Resting (dp_db s)) (at_work F k Resting d1)"
    with assms c show ?thesis by (auto simp: drain_def on_db_def)
  next
    fix p
    assume p: "r1 = Inr p" and p1: "fleet_path L (at_work F k Resting (dp_db s)) (at_work F k (At p) d1)"
    let ?f = "Inbox (lane_source L) (lane_event L) p (nat (ln_batch L))"
    have ro: "snd (?f d) = d" for d by (simp add: Inbox_def)
    obtain r2 d2 where i: "call_db ?f d1 = (r2, d2)" by fastforce
    have "fleet_path L (at_work F k (At p) d) (at_work F k (Have (fst (?f d))) (snd (?f d)))" for d
      using fleet_path_work [OF work.reads_inbox, of "at_work F k (At p) d" k p L] by (simp add: ro)
    from call_path [where q = Have, OF i fails_path _ this] fails_path
    have "(\<exists>e. r2 = Inl e) \<and> fleet_path L (at_work F k (At p) d1) (at_work F k Resting d2) \<or>
          (\<exists>evs. r2 = Inr evs \<and> fleet_path L (at_work F k (At p) d1) (at_work F k (Have evs) d2))" by (simp add: ro)
    then show ?thesis
    proof (elim disjE conjE exE)
      fix e
      assume "r2 = Inl e" "fleet_path L (at_work F k (At p) d1) (at_work F k Resting d2)"
      with assms c i p fleet_path_trans [OF p1] show ?thesis
        by (auto simp: drain_def on_db_def read_inbox_def lane_source_def lane_event_def)
    next
      fix evs
      assume "r2 = Inr evs" and p2: "fleet_path L (at_work F k (At p) d1) (at_work F k (Have evs) d2)"
      with assms c i p have "drain_events (ln_dispatcher L) (ln_workflow L) (lane_cursor L) evs 0 (s\<lparr>dp_db := d2\<rparr>) = (r, s')"
        by (simp add: drain_def on_db_def read_inbox_def lane_source_def lane_event_def)
      from drain_events_path [OF this, of F k] fleet_path_trans [OF p1 fleet_path_trans [OF p2]] show ?thesis by simp
    qed
  qed
qed

section \<open>No delivery is lost\<close>

lemma acked_kept: "fleet_path L s s' \<Longrightarrow> \<forall>(src, i) \<in> fl_acked s. has_event src i (fl_db s) \<Longrightarrow>
   \<forall>(src, i) \<in> fl_acked s'. has_event src i (fl_db s')"
  unfolding fleet_path_def
proof (induction rule: rtranclp_induct)
  case (step t u)
  from step.IH [OF step.prems] have IH: "has_event src i (fl_db t)" if "(src, i) \<in> fl_acked t" for src i using that by auto
  from step(2) show ?case
  proof (elim disjE exE)
    fix k
    assume "work L k t u"
    then have "db_inbox (fl_db u) = db_inbox (fl_db t) \<and> fl_acked u = fl_acked t"
      by (cases rule: work.cases) (auto simp: to_phase_def with_db_def lane_start_facts SetCursor_def)
    with IH show ?thesis by (auto simp: has_event_def)
  next
    assume a: "around L t u"
    then show ?thesis
    proof (cases rule: around.cases)
      case (delivers source evs)
      with IH has_event_grows [OF Deliver_grows] Deliver_has show ?thesis by fastforce
    next
      case (run_over i st)
      with IH show ?thesis by (auto simp: has_event_def with_db_def run_ends_runs)
    next
      case (other_run q i inp)
      with IH show ?thesis by (auto simp: has_event_def with_db_def exec_facts)
    next
      case (other_cursor c p)
      with IH show ?thesis by (auto simp: has_event_def with_db_def SetCursor_def)
    next
      case (time_passes x rs)
      with IH show ?thesis by (auto simp: has_event_def with_db_def)
    qed
  qed
qed simp

lemma cursor_row_started:
  assumes "fleet_ok L s" "r \<in> set (db_inbox (fl_db s))" "ir_source r = lane_source L" "ir_seq r \<le> get_cursor (lane_cursor L) (fl_db s)"
  shows "row_started L (fl_db s) r"
  using assms by (auto simp: fleet_ok_def cursor_ok_def rows_upto_def)

text \<open>C15: However many workers dispatch from the inbox, whatever fails and in whatever order their calls interleave with
  deliveries: an event a webhook or a subscription has stored has a run, or its delivery is in the inbox after the
  cursor, where the next pass reads it. (As long as the inbox is not pruned.)\<close>

theorem delivered_event_not_lost:
  assumes "fleet_init L s0" "fleet_path L s0 s" "(lane_source L, i) \<in> fl_acked s"
  shows "db_runs (fl_db s) (wf_Name (ln_workflow L) @ ''/'' @ i) \<noteq> None \<or>
         (\<exists>r \<in> set (db_inbox (fl_db s)). ir_source r = lane_source L \<and> ir_event_id r = i \<and> get_cursor (lane_cursor L) (fl_db s) < ir_seq r)"
proof -
  from fleet_path_ok [OF assms(2) fleet_init_ok [OF assms(1)]] have ok: "fleet_ok L s" .
  from assms(1) have "\<forall>(src, i) \<in> fl_acked s0. has_event src i (fl_db s0)" by (simp add: fleet_init_def)
  from acked_kept [OF assms(2) this] assms(3) have "has_event (lane_source L) i (fl_db s)" by auto
  then obtain r where "r \<in> set (db_inbox (fl_db s))" "ir_source r = lane_source L" "ir_event_id r = i" by (auto simp: has_event_iff)
  with cursor_row_started [OF ok, of r] show ?thesis by (auto simp: row_started_def linorder_not_less)
qed

text \<open>Pruning does not look at the cursor: a delivery whose run could not be started before it got old is deleted, although it was
  acknowledged, and no run will be started for it.\<close>

theorem pruned_delivery_is_lost:
  "fleet_init L s0 \<Longrightarrow> \<exists>s. (fleet_step L)\<^sup>*\<^sup>* s0 s \<and> (lane_source L, i) \<in> fl_acked s \<and>
     db_inbox (fl_db s) = [] \<and> db_runs (fl_db s) = db_runs (fl_db s0)"
proof -
  assume init: "fleet_init L s0"
  let ?ev = "\<lparr>re_ID = i, re_Position = 0, re_Name = [], re_Payload = RawEmpty\<rparr>"
  let ?d = "snd (Deliver (lane_source L) [?ev] (fl_db s0))"
  let ?s1 = "s0\<lparr>fl_db := ?d, fl_acked := fl_acked s0 \<union> (\<lambda>ev. (lane_source L, re_ID ev)) ` set [?ev]\<rparr>"
  let ?s2 = "with_db (snd (PruneInbox (db_now (fl_db s0) + 1) (fl_db ?s1))) ?s1"
  have "fleet_step L s0 ?s1" unfolding fleet_step_def by (intro disjI2 disjI1 around.delivers)
  moreover have "fleet_step L ?s1 ?s2" unfolding fleet_step_def by (intro disjI2 pruning.prunes)
  ultimately have "(fleet_step L)\<^sup>*\<^sup>* s0 ?s2" by (meson rtranclp.rtrancl_into_rtrancl rtranclp.rtrancl_refl)
  moreover have "(lane_source L, i) \<in> fl_acked ?s2" by (simp add: with_db_def)
  moreover have "db_inbox (fl_db ?s2) = []" "db_runs (fl_db ?s2) = db_runs (fl_db s0)"
    using init by (auto simp: with_db_def PruneInbox_def Deliver_def insert_event_def has_event_def fleet_init_def)
  ultimately show ?thesis by blast
qed

section \<open>A pass keeps the promise\<close>

definition idle_fleet :: "db \<Rightarrow> fleet" where
  "idle_fleet d = \<lparr>fl_db = d, fl_phase = \<lambda>_. Resting, fl_acked = {}\<rparr>"

lemma idle_fleet_ok: "fleet_ok L (idle_fleet d) \<longleftrightarrow> inbox_ok d \<and> cursor_ok L d"
  by (simp add: fleet_ok_def idle_fleet_def)

lemma at_work_idle: "at_work (idle_fleet d) k Resting d' = idle_fleet d'"
  by (simp add: at_work_def to_phase_def with_db_def idle_fleet_def fun_eq_iff)

lemma drain_keeps_cursor_ok:
  assumes "drain (ln_dispatcher L) (ln_workflow L) (lane_cursor L) (read_inbox (ln_workflow L) (ln_batch L)) s = (r, s')"
    and "inbox_ok (dp_db s)" "cursor_ok L (dp_db s)"
  shows "inbox_ok (dp_db s') \<and> cursor_ok L (dp_db s')"
  using fleet_path_ok [OF drain_path [OF assms(1), of "idle_fleet (dp_db s)" 0]] assms(2,3)
  by (simp add: at_work_idle idle_fleet_ok)

lemma call_db_answered: "db_replies s = [] \<Longrightarrow> call_db f s = (Inr (fst (f s)), snd (f s))"
  by (cases "f s") (simp add: call_db_def next_reply_def)

lemma Start_answered:
  "db_replies s = [] \<Longrightarrow> Start q i inp s = (Inr (), snd (execute_workflow q i inp s))"
  by (simp add: Start_def call_db_answered)

lemma execute_workflow_replies: "db_replies (snd (execute_workflow q i inp s)) = db_replies s"
  by (auto simp: execute_workflow_def split: option.splits)

lemma drain_events_answered:
  "db_replies (dp_db s) = [] \<Longrightarrow>
   \<exists>s'. drain_events d w c evs n s = ((n + length evs, None), s') \<and> db_replies (dp_db s') = [] \<and>
        db_inbox (dp_db s') = db_inbox (dp_db s) \<and> (evs \<noteq> [] \<longrightarrow> pos (last evs) \<le> get_cursor c (dp_db s'))"
proof (induction evs arbitrary: n s)
  case (Cons ev evs)
  let ?d1 = "snd (execute_workflow (di_Queue d) (RunID (wf_Name w) ev) (event_input d w ev) (dp_db s))"
  let ?d2 = "snd (SetCursor c (pos ev) ?d1)"
  have r1: "db_replies ?d1 = []" using Cons.prems by (simp add: execute_workflow_replies)
  then have r2: "db_replies ?d2 = []" by (simp add: SetCursor_def)
  have run: "drain_events d w c (ev # evs) n s = drain_events d w c evs (n + 1) (s\<lparr>dp_db := ?d2\<rparr>)"
    using Cons.prems r1 by (simp add: on_db_def Start_answered call_db_answered)
  from Cons.IH [of "s\<lparr>dp_db := ?d2\<rparr>" "n + 1"] r2 obtain s' where
    s': "drain_events d w c evs (n + 1) (s\<lparr>dp_db := ?d2\<rparr>) = ((n + 1 + length evs, None), s')" "db_replies (dp_db s') = []"
    "db_inbox (dp_db s') = db_inbox ?d2" "evs \<noteq> [] \<longrightarrow> pos (last evs) \<le> get_cursor c (dp_db s')" by auto
  have "pos ev \<le> get_cursor c ?d2" by (simp add: SetCursor_get split: option.splits)
  moreover have "s' = s\<lparr>dp_db := ?d2\<rparr>" if "evs = []" using s'(1) that by simp
  ultimately have "pos (last (ev # evs)) \<le> get_cursor c (dp_db s')" using s'(4) by (cases "evs = []") auto
  moreover have "db_inbox ?d2 = db_inbox (dp_db s)" by (simp add: SetCursor_def exec_facts)
  ultimately show ?case using run s' by auto
qed simp

text \<open>The rows a lane has still to read.\<close>

definition unread :: "lane \<Rightarrow> db \<Rightarrow> inbox_row list" where
  "unread L s = filter (\<lambda>r. ir_source r = lane_source L \<and> get_cursor (lane_cursor L) s < ir_seq r) (db_inbox s)"

abbreviation lane_drain :: "lane \<Rightarrow> dispatch_state \<Rightarrow> (nat \<times> goerror option) \<times> dispatch_state" where
  "lane_drain L s \<equiv> drain (ln_dispatcher L) (ln_workflow L) (lane_cursor L) (read_inbox (ln_workflow L) (ln_batch L)) s"

fun drains :: "lane \<Rightarrow> nat \<Rightarrow> dispatch_state \<Rightarrow> dispatch_state" where
  "drains L 0 s = s"
| "drains L (Suc n) s = drains L n (snd (lane_drain L s))"

lemma drain_answered:
  assumes "db_replies (dp_db s) = []" "inbox_ok (dp_db s)" "0 < ln_batch L"
  shows "\<exists>n s'. lane_drain L s = ((n, None), s') \<and> db_replies (dp_db s') = [] \<and> db_inbox (dp_db s') = db_inbox (dp_db s) \<and>
           (unread L (dp_db s) = [] \<longrightarrow> s' = s) \<and>
           (unread L (dp_db s) \<noteq> [] \<longrightarrow> length (unread L (dp_db s')) < length (unread L (dp_db s)))"
proof -
  let ?d = "dp_db s" and ?n = "nat (ln_batch L)"
  define c where "c = get_cursor (lane_cursor L) ?d"
  define evs where "evs = map (row_event (lane_event L)) (take ?n (unread L ?d))"
  have "fst (Inbox (lane_source L) (lane_event L) c ?n ?d) = evs"
    by (simp add: Inbox_rows [OF assms(2)] evs_def unread_def c_def)
  then have run: "lane_drain L s = drain_events (ln_dispatcher L) (ln_workflow L) (lane_cursor L) evs 0 s"
    using assms(1) by (simp add: drain_def on_db_def read_inbox_def call_db_answered Cursor_def c_def lane_source_def lane_event_def Inbox_def)
  from drain_events_answered [OF assms(1), of "ln_dispatcher L" "ln_workflow L" "lane_cursor L" evs 0]
  obtain s' where s': "lane_drain L s = ((length evs, None), s')" "db_replies (dp_db s') = []" "db_inbox (dp_db s') = db_inbox ?d"
    "evs \<noteq> [] \<longrightarrow> pos (last evs) \<le> get_cursor (lane_cursor L) (dp_db s')" using run by auto
  have "length (unread L (dp_db s')) < length (unread L ?d)" if ne: "unread L ?d \<noteq> []"
  proof -
    let ?r = "last (take ?n (unread L ?d))"
    from ne assms(3) have ne': "take ?n (unread L ?d) \<noteq> []" by auto
    then have r: "?r \<in> set (unread L ?d)" using in_set_takeD last_in_set by fast
    have "pos (last evs) = ir_seq ?r" using ne' by (simp add: evs_def last_map row_event_def)
    with s'(4) ne' have up: "ir_seq ?r \<le> get_cursor (lane_cursor L) (dp_db s')" by (simp add: evs_def)
    have "c < ir_seq ?r" using r by (simp add: unread_def c_def)
    with up have "unread L (dp_db s') = filter (\<lambda>r. get_cursor (lane_cursor L) (dp_db s') < ir_seq r) (unread L ?d)"
      unfolding unread_def s'(3) filter_filter c_def by (intro filter_cong) auto
    moreover have "\<not> get_cursor (lane_cursor L) (dp_db s') < ir_seq ?r" using up by simp
    ultimately show ?thesis using length_filter_less [OF r] by metis
  qed
  moreover have "s' = s" if "unread L ?d = []"
    using s'(1) run that by (simp add: evs_def)
  ultimately show ?thesis using s' by blast
qed

lemma drains_all:
  "db_replies (dp_db s) = [] \<Longrightarrow> inbox_ok (dp_db s) \<Longrightarrow> cursor_ok L (dp_db s) \<Longrightarrow> 0 < ln_batch L \<Longrightarrow> length (unread L (dp_db s)) \<le> n \<Longrightarrow>
   db_inbox (dp_db (drains L n s)) = db_inbox (dp_db s) \<and> cursor_ok L (dp_db (drains L n s)) \<and> unread L (dp_db (drains L n s)) = []"
proof (induction n arbitrary: s)
  case (Suc n)
  from drain_answered [OF Suc.prems(1,2,4)] obtain m s' where
    s': "lane_drain L s = ((m, None), s')" "db_replies (dp_db s') = []" "db_inbox (dp_db s') = db_inbox (dp_db s)" "unread L (dp_db s) = [] \<longrightarrow> s' = s"
    "unread L (dp_db s) \<noteq> [] \<longrightarrow> length (unread L (dp_db s')) < length (unread L (dp_db s))" by blast
  from drain_keeps_cursor_ok [OF s'(1) Suc.prems(2,3)] have ok: "inbox_ok (dp_db s')" "cursor_ok L (dp_db s')" by auto
  have "length (unread L (dp_db s')) \<le> n"
    using s'(4,5) Suc.prems(5) by (cases "unread L (dp_db s) = []") auto
  with Suc.IH [OF s'(2) ok Suc.prems(4)] s' show ?case by simp
qed (simp add: unread_def)

text \<open>C17: Without failures the dispatcher catches up: after as many passes as there are deliveries after the
  cursor, every delivery in the inbox has its run.\<close>

theorem dispatcher_catches_up:
  assumes "inbox_ok (dp_db s)" "cursor_ok L (dp_db s)" "db_replies (dp_db s) = []" "0 < ln_batch L"
    and "r \<in> set (db_inbox (dp_db s))" "ir_source r = lane_source L"
  shows "db_runs (dp_db (drains L (length (unread L (dp_db s))) s)) (wf_Name (ln_workflow L) @ ''/'' @ ir_event_id r) \<noteq> None"
proof -
  let ?s' = "drains L (length (unread L (dp_db s))) s"
  from drains_all [OF assms(3,1,2,4) order.refl] have d: "db_inbox (dp_db ?s') = db_inbox (dp_db s)" "cursor_ok L (dp_db ?s')" "unread L (dp_db ?s') = []"
    by auto
  from d(1,3) assms(5,6) have "ir_seq r \<le> get_cursor (lane_cursor L) (dp_db ?s')"
    by (auto simp: unread_def filter_empty_conv linorder_not_less)
  with d(1,2) assms(5,6) show ?thesis by (auto simp: cursor_ok_def rows_upto_def row_started_def)
qed

section \<open>A lane\<close>

definition fleet_workflow :: workflow where
  "fleet_workflow = \<lparr>wf_Name = ''sync'',
     wf_Trigger = \<lparr>ws_Endpoint = ''crm'', ws_Connector = ''sap'', ws_Event = ''changed'', ws_Interface = [], ws_Topic = []\<rparr>,
     wf_Steps = [], wf_SLO = None, wf_Policies = []\<rparr>"

definition demo_dispatcher :: dispatcher where
  "demo_dispatcher = \<lparr>di_Runtime = \<lparr>rw_Digest = ''d'', rw_Workflows = [fleet_workflow], rw_Sources = \<lambda>_. None, rw_Webhooks = \<lambda>_ _. None,
       rw_Streams = \<lambda>_ _. False\<rparr>,
     di_Queue = ''q'', di_Batch = 0, di_ApprovalTimeout = 0, di_Inbox = True, di_Reconcile = 0\<rparr>"

definition demo_lane :: lane where
  "demo_lane = \<lparr>ln_dispatcher = demo_dispatcher, ln_workflow = fleet_workflow, ln_batch = 100\<rparr>"

definition empty_db :: db where
  "empty_db = \<lparr>db_cursors = Map.empty, db_inbox = [], db_nextseq = 1, db_resume = Map.empty, db_xref = [], db_locks = {},
     db_runs = Map.empty, db_now = 0, db_replies = []\<rparr>"

definition demo_event :: "string \<Rightarrow> int \<Rightarrow> run_event" where
  "demo_event i p = \<lparr>re_ID = i, re_Position = p, re_Name = ''changed'', re_Payload = RawEmpty\<rparr>"

definition demo_db :: db where
  "demo_db = snd (Deliver (lane_source demo_lane) [demo_event ''a'' 0, demo_event ''b'' 0] empty_db)"

lemmas demo_lane_defs = demo_lane_def fleet_workflow_def demo_dispatcher_def lane_source_def lane_event_def lane_cursor_def
  InboxSource_def cursor_name_def

lemma demo_db_eq: "demo_db = empty_db\<lparr>db_nextseq := 3, db_inbox :=
     [\<lparr>ir_seq = 1, ir_source = ''crm/changed'', ir_event_id = ''a'', ir_payload = RawEmpty, ir_received = 0\<rparr>,
      \<lparr>ir_seq = 2, ir_source = ''crm/changed'', ir_event_id = ''b'', ir_payload = RawEmpty, ir_received = 0\<rparr>]\<rparr>"
  by (simp add: demo_db_def Deliver_def insert_event_def has_event_def demo_event_def empty_db_def demo_lane_defs)

lemma demo_db_ok: "inbox_ok demo_db" "cursor_ok demo_lane demo_db" "db_replies demo_db = []"
  by (auto simp: demo_db_eq inbox_ok_def cursor_ok_def rows_upto_def get_cursor_def empty_db_def)

lemma demo_init: "fleet_init L (idle_fleet empty_db)"
  by (simp add: fleet_init_def idle_fleet_def empty_db_def)

theorem delivered_event_not_lost_witness:
  "\<exists>s. fleet_path demo_lane (idle_fleet empty_db) s \<and> (lane_source demo_lane, ''a'') \<in> fl_acked s \<and>
     (db_runs (fl_db s) (wf_Name (ln_workflow demo_lane) @ ''/'' @ ''a'') \<noteq> None \<or>
      (\<exists>r \<in> set (db_inbox (fl_db s)). ir_source r = lane_source demo_lane \<and> ir_event_id r = ''a'' \<and>
         get_cursor (lane_cursor demo_lane) (fl_db s) < ir_seq r))"
proof -
  let ?evs = "[demo_event ''a'' 0, demo_event ''b'' 0]"
  let ?s = "(idle_fleet empty_db)\<lparr>fl_db := snd (Deliver (lane_source demo_lane) ?evs (fl_db (idle_fleet empty_db))),
     fl_acked := fl_acked (idle_fleet empty_db) \<union> (\<lambda>ev. (lane_source demo_lane, re_ID ev)) ` set ?evs\<rparr>"
  have p: "fleet_path demo_lane (idle_fleet empty_db) ?s" by (rule fleet_path_around [OF around.delivers])
  have a: "(lane_source demo_lane, ''a'') \<in> fl_acked ?s" by (simp add: demo_event_def)
  from p a delivered_event_not_lost [OF demo_init p a] show ?thesis by blast
qed

theorem pruned_delivery_is_lost_witness:
  "\<exists>s. (fleet_step demo_lane)\<^sup>*\<^sup>* (idle_fleet empty_db) s \<and> (lane_source demo_lane, ''a'') \<in> fl_acked s \<and>
     db_inbox (fl_db s) = [] \<and> db_runs (fl_db s) = db_runs (fl_db (idle_fleet empty_db))"
  by (rule pruned_delivery_is_lost [OF demo_init])

theorem dispatcher_catches_up_witness:
  "let s = \<lparr>dp_db = demo_db, dp_polls = 0, dp_lastPolled = Map.empty\<rparr>
   in db_runs (dp_db (drains demo_lane (length (unread demo_lane (dp_db s))) s)) ''sync/b'' \<noteq> None"
  using dispatcher_catches_up [of "\<lparr>dp_db = demo_db, dp_polls = 0, dp_lastPolled = Map.empty\<rparr>" demo_lane
      "\<lparr>ir_seq = 2, ir_source = ''crm/changed'', ir_event_id = ''b'', ir_payload = RawEmpty, ir_received = 0\<rparr>"] demo_db_ok
  by (simp add: Let_def demo_db_eq demo_lane_defs)

end
