(* ===== verification/Dispatch_Claims.thy ===== *)
theory Dispatch_Claims
  imports Dispatch_Fleet
begin

text \<open>
  The properties of single passes of the dispatcher: polled sources, reconciling, webhooks and subscriptions, with
  the cases in which an event is started twice or not at all.
\<close>

section \<open>A pass over the inbox\<close>

text \<open>C16: Whatever fails during a pass over the inbox, and whether a failed call took effect or not: afterwards every
  delivery up to the cursor still has a run, and the inbox is in order.\<close>

theorem drain_inbox_skips_nothing:
  assumes "drain (ln_dispatcher L) (ln_workflow L) (lane_cursor L) (read_inbox (ln_workflow L) (ln_batch L)) s = (r, s')"
    and "inbox_ok (dp_db s)" "cursor_ok L (dp_db s)"
  shows "inbox_ok (dp_db s') \<and> cursor_ok L (dp_db s')"
  by (rule drain_keeps_cursor_ok [OF assms])

text \<open>Start of the first event answered, storing the cursor refused.\<close>

definition demo_failing :: dispatch_state where
  "demo_failing = \<lparr>dp_db = demo_db\<lparr>db_replies := [Answered, Answered, Answered, Refused (New_err ''db'' [])]\<rparr>, dp_polls = 0, dp_lastPolled = Map.empty\<rparr>"

theorem drain_inbox_skips_nothing_witness:
  "let s' = snd (lane_drain demo_lane demo_failing) in inbox_ok (dp_db s') \<and> cursor_ok demo_lane (dp_db s')"
  using drain_inbox_skips_nothing [of demo_lane demo_failing "fst (lane_drain demo_lane demo_failing)" "snd (lane_drain demo_lane demo_failing)"]
    demo_db_ok
  by (simp add: Let_def demo_failing_def inbox_ok_def cursor_ok_def rows_upto_def row_started_def get_cursor_def)

section \<open>A pass over a polled source\<close>

text \<open>A pass over a table of events (the outbox of a PostgreSQL endpoint) never stores a cursor past an
  event without a run, whatever fails.\<close>

theorem outbox_event_not_skipped:
  assumes "distinct (map ob_id rows)"
    and "\<And>n a. src n event a batch = Inr (outbox_Poll rows event a (nat batch))"
    and "nothing_skipped (wf_Name w) cursor (outbox_event event ` {r \<in> set rows. ob_event r = event}) (dp_db s)"
    and "drain d w cursor (\<lambda>a. do_poll src event a batch) s = (r, s')"
  shows "nothing_skipped (wf_Name w) cursor (outbox_event event ` {r \<in> set rows. ob_event r = event}) (dp_db s')"
proof -
  from assms(1) have o: "outbox_table rows" by unfold_locales
  show ?thesis
    by (rule drain_skips_nothing [OF outbox_table.outbox_strict [OF o] _ assms(3,4)]) (rule assms(2))
qed

definition demo_rows :: "outbox_row list" where
  "demo_rows = [\<lparr>ob_id = 1, ob_event = ''changed'', ob_payload = RawEmpty\<rparr>, \<lparr>ob_id = 4, ob_event = ''changed'', ob_payload = RawEmpty\<rparr>]"

definition outage_state :: "reply list \<Rightarrow> dispatch_state" where
  "outage_state rs = \<lparr>dp_db = empty_db\<lparr>db_replies := rs\<rparr>, dp_polls = 0, dp_lastPolled = Map.empty\<rparr>"

theorem outbox_event_not_skipped_witness:
  "let rs = [Answered, Answered, Answered, Refused (New_err ''db'' [])];
       s' = snd (drain demo_dispatcher fleet_workflow ''c'' (\<lambda>a. do_poll (\<lambda>n e a b. Inr (outbox_Poll demo_rows e a (nat b))) ''changed'' a 100) (outage_state rs))
   in nothing_skipped ''sync'' ''c'' (outbox_event ''changed'' ` {r \<in> set demo_rows. ob_event r = ''changed''}) (dp_db s')"
  unfolding Let_def
  by (rule outbox_event_not_skipped [where src = "\<lambda>n e a b. Inr (outbox_Poll demo_rows e a (nat b))" and w = fleet_workflow, simplified fleet_workflow_def workflow.simps, folded fleet_workflow_def,
        OF _ _ _ prod.collapse [symmetric]])
     (auto simp: demo_rows_def nothing_skipped_def outbox_event_def outage_state_def empty_db_def get_cursor_def)

text \<open>Two entities that were changed in the same millisecond.\<close>

definition demo_lib :: go_lib where
  "demo_lib = \<lparr>gl_Number = (\<lambda>_. ''''), gl_Sprint = (\<lambda>v. case v of JStr s \<Rightarrow> s | _ \<Rightarrow> ''''), gl_Parse = (\<lambda>_ _. None), gl_Format = (\<lambda>_ _. '''')\<rparr>"

definition demo_sap :: sap_event where
  "demo_sap = \<lparr>se_EntitySet = ''Orders'', se_Key = ''ID'', se_Changed = ''Changed''\<rparr>"

definition demo_entity :: "string \<Rightarrow> string \<Rightarrow> doc" where
  "demo_entity i t = [(''ID'', JStr i), (''Changed'', JStr (''/Date('' @ t @ '')/''))]"

definition demo_conn :: "doc list \<Rightarrow> sap_conn" where
  "demo_conn ents = odata_conn demo_lib ''changed'' demo_sap 100 20 ents"

definition demo_src :: "doc list \<Rightarrow> poll_fun" where
  "demo_src ents n event after limit = sap_Poll demo_lib (demo_conn ents) event after limit"

definition demo_pass :: "doc list \<Rightarrow> dispatch_state \<Rightarrow> (nat \<times> goerror option) \<times> dispatch_state" where
  "demo_pass ents = drain demo_dispatcher fleet_workflow ''c'' (\<lambda>a. do_poll (demo_src ents) ''changed'' a 100)"


text \<open>A run that failed is started again when its event is read again: the first pass started the run but could not
  store the cursor, the run failed, and the second pass starts a second run of the event.\<close>

theorem failed_run_is_started_again:
  "let ents = [demo_entity ''a'' ''5''];
       s1 = snd (demo_pass ents (outage_state [Answered, Answered, Refused (New_err ''db'' [])]));
       s2 = s1\<lparr>dp_db := run_ends ''sync/a'' RunFailed (dp_db s1)\<rparr>;
       s3 = snd (demo_pass ents s2)
   in map_option tr_Starts (db_runs (dp_db s1) ''sync/a'') = Some 1 \<and> map_option tr_Starts (db_runs (dp_db s3) ''sync/a'') = Some 2"
  by code_simp

section \<open>Reconciling\<close>

lemma reconcile_round_goes_on:
  assumes "reconcile_round src event cursor inbox batch s = (Inr u, s')"
  shows "\<exists>n evs. src n event (get_cursor cursor (dp_db s)) batch = Inr evs \<and> evs \<noteq> [] \<and> pos (last evs) \<le> get_cursor cursor (dp_db s')"
proof -
  obtain r1 d1 where c1: "call_db (Cursor cursor) (dp_db s) = (r1, d1)" by fastforce
  from assms c1 obtain p where r1: "r1 = Inr p" by (cases r1) (auto simp: reconcile_round_def on_db_def)
  with Cursor_call(2) [OF c1] have p: "p = get_cursor cursor (dp_db s)" by simp
  from assms c1 r1 obtain evs where ev: "src (dp_polls s) event p batch = Inr evs" "evs \<noteq> []"
    by (cases "src (dp_polls s) event p batch") (auto simp: reconcile_round_def on_db_def do_poll_def split: if_splits)
  obtain r2 d2 where c2: "call_db (Deliver inbox evs) d1 = (r2, d2)" by fastforce
  obtain r3 d3 where c3: "call_db (SetCursor cursor (pos (last evs))) d2 = (r3, d3)" by fastforce
  from assms c1 r1 ev c2 c3 have "r3 = Inr ()" "dp_db s' = d3"
    by (auto simp: reconcile_round_def on_db_def do_poll_def split: sum.splits if_splits)
  with SetCursor_call(5) [OF c3] ev p show ?thesis by auto
qed

text \<open>C18: Reconciling ends: if every position the source returns is after the one asked for and none is past some bound, the loop
  returns, however the source changes between polls and whatever fails.\<close>

theorem reconcile_terminates:
  assumes "\<And>n a evs ev. src n event a batch = Inr evs \<Longrightarrow> ev \<in> set evs \<Longrightarrow> a < re_Position ev \<and> re_Position ev \<le> M"
  shows "\<exists>r s'. reconcile src event cursor inbox batch s = Some (r, s')"
proof (induction "nat (M - get_cursor cursor (dp_db s))" arbitrary: s rule: less_induct)
  case less
  obtain r s1 where rd: "reconcile_round src event cursor inbox batch s = (r, s1)" by fastforce
  show ?case
  proof (cases r)
    case (Inl e)
    with rd show ?thesis by (subst reconcile.simps) simp
  next
    case (Inr u)
    from reconcile_round_goes_on [OF rd [unfolded Inr]] obtain n evs where
      ev: "src n event (get_cursor cursor (dp_db s)) batch = Inr evs" "evs \<noteq> []" "pos (last evs) \<le> get_cursor cursor (dp_db s1)" by blast
    from assms [OF ev(1) last_in_set [OF ev(2)]] ev(3)
    have "nat (M - get_cursor cursor (dp_db s1)) < nat (M - get_cursor cursor (dp_db s))" by linarith
    from less.hyps [OF this] rd Inr show ?thesis by (subst reconcile.simps) simp
  qed
qed

theorem reconcile_terminates_witness:
  "\<exists>r s'. reconcile (\<lambda>n e a b. Inr (if a < 5 then [demo_event ''a'' 5] else [])) ''changed'' ''c'' ''crm/changed'' 1 (outage_state []) = Some (r, s')"
  by (rule reconcile_terminates [where M = 5]) (auto simp: demo_event_def split: if_splits)

definition demo_reconcile :: "doc list \<Rightarrow> (goerror option + unit) \<times> dispatch_state" where
  "demo_reconcile ents = reconcile_round (demo_src ents) ''changed'' ''c'' ''crm/changed'' 2 (outage_state [])"

text \<open>A poll that ends early, at a boundary between two change times, ends the reconciling too: two of three SAP entities
  are left for the next time, five minutes later.\<close>

theorem reconcile_stops_at_a_boundary:
  "\<exists>s'. reconcile (demo_src [demo_entity ''a'' ''1'', demo_entity ''b'' ''2'', demo_entity ''c'' ''2'']) ''changed'' ''c'' ''crm/changed'' 2 (outage_state []) = Some (None, s') \<and>
        map ir_event_id (db_inbox (dp_db s')) = [''a'']"
proof -
  let ?ents = "[demo_entity ''a'' ''1'', demo_entity ''b'' ''2'', demo_entity ''c'' ''2'']"
  have "fst (demo_reconcile ?ents) = Inl None \<and> map ir_event_id (db_inbox (dp_db (snd (demo_reconcile ?ents)))) = [''a'']"
    by code_simp
  moreover obtain r s' where rd: "demo_reconcile ?ents = (r, s')" by fastforce
  ultimately have "r = Inl None" "map ir_event_id (db_inbox (dp_db s')) = [''a'']" by simp_all
  with rd show ?thesis by (subst reconcile.simps) (simp add: demo_reconcile_def)
qed

section \<open>Webhooks\<close>

text \<open>C21: A delivery is answered with success only when every event it carries is in the inbox; the answer counts the events, and the dispatcher is
  woken exactly when one of them was new.\<close>

theorem webhook_acknowledges_stored:
  assumes "WebhookHandler rt endpoint event header body now s = ((HTTPOk n new, woken), s')"
    and "rw_Webhooks rt endpoint event = Some receive" "receive header body now = Events evs"
  shows "n = length evs \<and> (\<forall>ev \<in> set evs. has_event (InboxSource endpoint event) (re_ID ev) s') \<and> woken = (0 < new)"
proof (cases "evs = []")
  case False
  obtain r d where c: "call_db (Deliver (InboxSource endpoint event) evs) s = (r, d)" by fastforce
  from assms c False have r: "r = Inr new" "d = s'" "n = length evs" "woken = (0 < new)"
    by (auto simp: WebhookHandler_def split: if_splits sum.splits)
  from c have "\<forall>ev \<in> set evs. has_event (InboxSource endpoint event) (re_ID ev) d"
    by (cases rule: call_db_cases) (use r Deliver_has in auto)
  with r show ?thesis by simp
qed (use assms in \<open>auto simp: WebhookHandler_def split: if_splits\<close>)

definition demo_hooks :: runtime_view where
  "demo_hooks = \<lparr>rw_Digest = [], rw_Workflows = [], rw_Sources = \<lambda>_. None,
     rw_Webhooks = (\<lambda>ep ev. if ep = ''crm'' \<and> ev = ''changed'' then Some (\<lambda>h b t. if b = ''ok'' then Events [demo_event ''a'' 0] else Unauthenticated) else None),
     rw_Streams = \<lambda>_ _. False\<rparr>"

theorem webhook_acknowledges_stored_witness:
  "let (r, s') = WebhookHandler demo_hooks ''crm'' ''changed'' [] ''ok'' 0 empty_db
   in r = (HTTPOk 1 1, True) \<and> has_event ''crm/changed'' ''a'' s'"
proof -
  obtain r s' where w: "WebhookHandler demo_hooks ''crm'' ''changed'' [] ''ok'' 0 empty_db = (r, s')" by fastforce
  have "fst (WebhookHandler demo_hooks ''crm'' ''changed'' [] ''ok'' 0 empty_db) = (HTTPOk 1 1, True)"
    by (simp add: WebhookHandler_def demo_hooks_def MaxWebhookBody_def call_db_def next_reply_def empty_db_def Deliver_def insert_event_def has_event_def)
  with w have r: "r = (HTTPOk 1 1, True)" by simp
  from webhook_acknowledges_stored [OF w [unfolded r], of "\<lambda>h b t. if b = ''ok'' then Events [demo_event ''a'' 0] else Unauthenticated" "[demo_event ''a'' 0]"]
  have "has_event ''crm/changed'' ''a'' s'" by (simp add: demo_hooks_def demo_event_def InboxSource_def)
  with w r show ?thesis by simp
qed

end
