(* ===== verification/Source_Claims.thy ===== *)
theory Source_Claims
  imports Dispatch_Claims
begin

text \<open>
  The properties of the connectors' polls, and of the subscriptions, that the dispatcher rests on: completeness of a poll, positions and
  cursors that translate into each other, backoff and locks; and three cases in which a record is not read
  or everything is read again.
\<close>

section \<open>Complete polls\<close>

context odata_server
begin

lemma sap_source: "event_source (sap_Poll lib c name) (events_of (sap_toEvent lib name e) ents)"
  by (rule sap.feed_event_source)

end

context soql_server
begin

lemma sf_source: "event_source (sf_Poll lib c name) (events_of (sf_toEvent lib name) recs)"
  by (rule sf.feed_event_source)

end

text \<open>C19: An SAP poll returns every entity changed after the position up to the last one it returns, and nothing else, however
  many entities share a time of change; so a cursor set to its last event skips none.\<close>

theorem sap_Poll_covers:
  assumes "sc_Events c name = Some e"
    and "sorted (map (stamp (sap_toEvent lib name e)) ents)"
    and "\<And>a num skip recs. sc_Query c name a num skip = Inr recs \<Longrightarrow>
           recs = take num (drop skip (odata_after (sap_toEvent lib name e) ents a))"
    and "sap_Poll lib c name a l = Inr evs" "evs \<noteq> []"
  shows "{x \<in> events_of (sap_toEvent lib name e) ents. a < re_Position x \<and> re_Position x \<le> re_Position (last evs)} = set evs"
proof -
  have "odata_server lib c name e ents" by unfold_locales (use assms(1-3) in auto)
  from event_source.poll_covers [OF odata_server.sap_source [OF this] assms(4,5)] show ?thesis .
qed

theorem sap_Poll_covers_witness:
  "let ents = [demo_entity ''a'' ''1'', demo_entity ''b'' ''2'', demo_entity ''c'' ''2'']
   in \<exists>evs. sap_Poll demo_lib (demo_conn ents) ''changed'' 0 2 = Inr evs \<and> map re_ID evs = [''a''] \<and>
        {x \<in> events_of (sap_toEvent demo_lib ''changed'' demo_sap) ents. 0 < re_Position x \<and> re_Position x \<le> re_Position (last evs)} = set evs"
proof -
  let ?ents = "[demo_entity ''a'' ''1'', demo_entity ''b'' ''2'', demo_entity ''c'' ''2'']"
  have p: "(case sap_Poll demo_lib (demo_conn ?ents) ''changed'' 0 2 of Inl _ \<Rightarrow> False | Inr evs \<Rightarrow> map re_ID evs = [''a''])" by code_simp
  then obtain evs where evs: "sap_Poll demo_lib (demo_conn ?ents) ''changed'' 0 2 = Inr evs" "map re_ID evs = [''a'']"
    by (auto split: sum.splits)
  then have ne: "evs \<noteq> []" by auto
  have srt: "sort_key (stamp (sap_toEvent demo_lib ''changed'' demo_sap)) ?ents = ?ents" by code_simp
  have s2: "sorted (map (stamp (sap_toEvent demo_lib ''changed'' demo_sap)) ?ents)" by code_simp
  have "{x \<in> events_of (sap_toEvent demo_lib ''changed'' demo_sap) ?ents. 0 < re_Position x \<and> re_Position x \<le> re_Position (last evs)} = set evs"
    by (rule sap_Poll_covers [OF _ s2 _ evs(1) ne]) (use srt in \<open>auto simp: demo_conn_def odata_conn_def\<close>)
  then show ?thesis unfolding Let_def by (intro exI [of _ evs] conjI evs)
qed

text \<open>The same for a Salesforce poll, over the pages of a query.\<close>

theorem sf_Poll_covers:
  assumes "fc_Events c name = Some sobj"
    and "sorted (map (stamp (sf_toEvent lib name)) recs)"
    and "\<And>a. concat (chunks a) = odata_after (sf_toEvent lib name) recs a"
    and "\<And>a n page hasNext. fc_Query c name a n = Inr (page, hasNext) \<Longrightarrow>
           0 < n \<and> n \<le> length (chunks a) \<and> page = chunks a ! (n - 1) \<and> hasNext = (n < length (chunks a))"
    and "sf_Poll lib c name a l = Inr evs" "evs \<noteq> []"
  shows "{x \<in> events_of (sf_toEvent lib name) recs. a < re_Position x \<and> re_Position x \<le> re_Position (last evs)} = set evs"
proof -
  have "soql_server lib c name sobj recs chunks" by unfold_locales (use assms(1-4) in auto)
  from event_source.poll_covers [OF soql_server.sf_source [OF this] assms(5,6)] show ?thesis .
qed

section \<open>Odoo\<close>

text \<open>The cursor of a position is the second and the ID it was made of, for every second from 1970-01-01 00:08:32 until 2106; and positions are
  ordered by second and ID.\<close>

theorem odoo_cursor_of_position:
  assumes "512 \<le> t" "t < 4294967296" "0 \<le> i" "i < 2147483648"
  shows "odoo_cursor (odoo_position t i) = (t, i) \<and>
         (\<forall>u j. 0 \<le> u \<longrightarrow> u < 4294967296 \<longrightarrow> 0 \<le> j \<longrightarrow> j < 2147483648 \<longrightarrow>
            (odoo_position t i < odoo_position u j) = (t < u \<or> t = u \<and> i < j))"
  using odoo_cursor_position [OF assms] odoo_position_order assms by auto

theorem odoo_cursor_of_position_witness:
  "odoo_cursor (odoo_position 1730803200 42) = (1730803200, 42) \<and> odoo_position 1730803200 42 < odoo_position 1730803200 43"
  using odoo_cursor_of_position [of 1730803200 42] by simp

text \<open>A cursor stored by an earlier version, a time in milliseconds, is taken for the new format when it is a time after
  November 2004: it is read as a time in the first hours of 1970, and every record of the table is read again.\<close>

theorem odoo_old_cursor_restarts:
  "1099511627776 \<le> ms \<Longrightarrow> ms < 8796093022208 \<Longrightarrow> fst (odoo_cursor ms) < 4096 \<and> 1099511627 \<le> ms div 1000"
  by (simp add: odoo_cursor_new) linarith

theorem odoo_old_cursor_restarts_witness:
  "fst (odoo_cursor 1730803200000) < 4096 \<and> (1730803200000 :: int) div 1000 = 1730803200"
  using odoo_old_cursor_restarts [of 1730803200000] by simp

section \<open>REST\<close>

definition demo_item :: "string \<Rightarrow> json" where
  "demo_item i = JObj [(''id'', JStr i), (''ts'', JStr ''7'')]"

definition demo_rest :: rest_conn where
  "demo_rest =
     \<lparr>rc_Events = [''changed'' \<mapsto> \<lparr>rv_Path = ''/items'', rv_Items = '''', rv_ID = ''id'', rv_Position = ''ts'', rv_PositionFormat = ''unix'',
                                     rv_Order = '''', rv_Pagination = None\<rparr>],
      rc_List = \<lambda>n a l cur. Inr (JArr (take (nat l) (if a < 7000 then [demo_item ''a'', demo_item ''b'', demo_item ''c''] else [])))\<rparr>"

text \<open>When a full page of a REST list holds items of one second only, the poll returns the page as it is, and the rest of that second is never
  read: the API lists items after the position, oldest first, and the second poll finds none.\<close>

theorem rest_Poll_skips_items:
  "map_sum id (map re_ID) (rest_Poll demo_lib demo_rest ''changed'' 0 2) = Inr [''a'', ''b''] \<and>
   map_sum id (map re_Position) (rest_Poll demo_lib demo_rest ''changed'' 0 2) = Inr [7000, 7000] \<and>
   rest_Poll demo_lib demo_rest ''changed'' 7000 2 = Inr []"
  by code_simp

section \<open>Change capture\<close>

lemma lsn_val_digit: "n < 16 \<Longrightarrow> lsn_val (lsn_digit n) = Some n"
  by (auto simp: lsn_val_def lsn_digit_def Let_def)

lemma hex_digits_append: "hex_digits acc (xs @ ys) = (case hex_digits acc xs of None \<Rightarrow> None | Some n \<Rightarrow> hex_digits n ys)"
  by (induction xs arbitrary: acc) (auto split: option.splits)

lemma hex_digits_format: "hex_digits 0 (format_X n) = Some n"
proof (induction n rule: format_X.induct)
  case (1 n)
  show ?case
  proof (cases "n < 16")
    case True
    then show ?thesis by (subst format_X.simps) (simp add: lsn_val_digit)
  next
    case False
    with 1 show ?thesis by (subst format_X.simps) (simp add: hex_digits_append lsn_val_digit)
  qed
qed

lemma format_X_no_slash: "CHR ''/'' \<notin> set (format_X n)"
proof (induction n rule: format_X.induct)
  case (1 n)
  have slash: "CHR ''/'' \<noteq> lsn_digit k" if "k < 16" for k
  proof
    assume "CHR ''/'' = lsn_digit k"
    with lsn_val_digit [OF that] have "lsn_val CHR ''/'' = Some k" by simp
    then show False by (simp add: lsn_val_def)
  qed
  show ?case
  proof (cases "n < 16")
    case True
    with slash [OF True] show ?thesis by (subst format_X.simps) simp
  next
    case False
    with 1 slash [of "n mod 16"] show ?thesis by (subst format_X.simps) simp
  qed
qed

lemma format_X_nonempty: "format_X n \<noteq> []"
  by (subst format_X.simps) simp

lemma ParseUint_format: "n < 4294967296 \<Longrightarrow> ParseUint16_32 (format_X n) = Some n"
  by (simp add: ParseUint16_32_def format_X_nonempty hex_digits_format)

text \<open>A log position printed for PostgreSQL and read back is the same one.\<close>

theorem parseLSN_formatLSN: "parseLSN (formatLSN l) = Some l"
proof -
  have hi: "unat (drop_bit 32 l) < 4294967296"
  proof -
    have "unat l < 4294967296 * 4294967296" using unsigned_less [of l] by simp
    moreover have "unat (drop_bit 32 l) = unat l div 4294967296" by (simp add: unat_drop_bit_eq drop_bit_eq_div [of 32 "unat l"])
    ultimately show ?thesis by (simp only: less_mult_imp_div_less)
  qed
  have lo: "unat (take_bit 32 l) < 4294967296"
    using take_bit_nat_less_exp [of 32 "unat l"] by (simp add: unsigned_take_bit_eq)
  have "push_bit 32 (drop_bit 32 l) OR take_bit 32 l = l"
    by (rule bit_eqI) (auto simp: bit_simps)
  with hi lo show ?thesis
    by (simp add: parseLSN_def formatLSN_def CutByte_present [OF format_X_no_slash] ParseUint_format)
qed

lemma cdc_position_eq:
  assumes "0 \<le> index" "index \<le> maxIndex"
  shows "cdc_position commit index = word_of_int (uint commit * 32768 + index)"
proof -
  from assms have "take_bit 15 (word_of_int index :: 64 word) = word_of_int index"
    by (simp add: maxIndex_def indexBits_def take_bit_of_int take_bit_int_eq_self)
  then have "and (push_bit 15 commit) (word_of_int index) = (0 :: 64 word)"
    by (auto simp: bit_eq_iff bit_and_iff bit_push_bit_iff) (metis bit_take_bit_iff not_less)
  then have "cdc_position commit index = push_bit 15 commit + word_of_int index"
    by (simp add: cdc_position_def indexBits_def disjunctive_add_eq_or)
  also have "push_bit 15 commit = word_of_int (uint commit * 32768)"
    by (simp add: push_bit_eq_mult)
  finally show ?thesis by simp
qed

lemma cdc_position_value:
  assumes "uint commit \<le> maxLSN" "0 \<le> index" "index \<le> maxIndex"
  shows "uint (cdc_position commit index) = uint commit * 32768 + index" "sint (cdc_position commit index) = uint commit * 32768 + index"
proof -
  from assms have b: "0 \<le> uint commit * 32768 + index" "uint commit * 32768 + index < 9223372036854775808"
    by (auto simp: maxLSN_def maxIndex_def indexBits_def)
  with assms show "uint (cdc_position commit index) = uint commit * 32768 + index"
    unfolding cdc_position_eq [OF assms(2,3)] uint_word_of_int_eq by (intro take_bit_int_eq_self) auto
  from b assms show "sint (cdc_position commit index) = uint commit * 32768 + index"
  proof -
    have "- (2 ^ 63) \<le> uint commit * 32768 + index" by (rule order_trans [OF _ b(1)]) simp
    moreover have "uint commit * 32768 + index < 2 ^ 63" using b(2) by simp
    ultimately have "signed_take_bit 63 (uint commit * 32768 + index) = uint commit * 32768 + index"
      by (rule signed_take_bit_int_eq_self)
    then show ?thesis unfolding cdc_position_eq [OF assms(2,3)] sint_sbintrunc' by simp
  qed
qed

text \<open>Positions of change capture are ordered by the commit of the transaction and the index of the change in it, and the commit can be
  read back, as long as neither exceeds the bounds the connector checks.\<close>

theorem cdc_position_order:
  assumes "uint c \<le> maxLSN" "uint d \<le> maxLSN" "0 \<le> i" "i \<le> maxIndex" "0 \<le> j" "j \<le> maxIndex"
  shows "commitOf (cdc_position c i) = c \<and>
         (sint (cdc_position c i) < sint (cdc_position d j)) = (c < d \<or> c = d \<and> i < j) \<and> 0 \<le> sint (cdc_position c i)"
proof (intro conjI)
  have "uint (commitOf (cdc_position c i)) = uint c"
  proof -
    have "uint (commitOf (cdc_position c i)) = drop_bit 15 (take_bit 64 (uint (cdc_position c i)))"
      by (simp add: commitOf_def indexBits_def unsigned_drop_bit_eq)
    also have "take_bit 64 (uint (cdc_position c i)) = uint (cdc_position c i)"
      using unsigned_less [of "cdc_position c i"] by (intro take_bit_int_eq_self) simp_all
    also have "\<dots> = uint c * 32768 + i" by (rule cdc_position_value(1) [OF assms(1,3,4)])
    finally show ?thesis using assms(3,4) by (simp add: drop_bit_eq_div maxIndex_def indexBits_def)
  qed
  then show "commitOf (cdc_position c i) = c" by (simp only: word_uint_eq_iff)
  have "uint c < uint d \<or> uint c = uint d \<or> uint d < uint c" by auto
  then show "(sint (cdc_position c i) < sint (cdc_position d j)) = (c < d \<or> c = d \<and> i < j)"
    using assms cdc_position_value(2) [OF assms(1,3,4)] cdc_position_value(2) [OF assms(2,5,6)]
    by (auto simp: word_less_def word_uint_eq_iff maxIndex_def indexBits_def)
  show "0 \<le> sint (cdc_position c i)" using assms cdc_position_value(2) [OF assms(1,3,4)] by simp
qed

theorem cdc_position_order_witness: "commitOf (cdc_position 7 3) = 7 \<and> sint (cdc_position 7 3) < sint (cdc_position 8 1)"
  using cdc_position_order [of 7 8 3 1] by (simp add: maxLSN_def maxIndex_def indexBits_def)

section \<open>Subscriptions\<close>

text \<open>While a subscription is reopened, the wait and the next backoff stay within the bounds configured.\<close>

theorem stream_backoff_bounded:
  assumes "stream_turn st source sub backoff s = ((wait, backoff'), s')"
    and "0 < backoff" "backoff \<le> maxB" "maxB = or_duration (st_MaxBackoff st) 60000000000"
    and "or_duration (st_MinBackoff st) 1000000000 \<le> maxB"
  shows "0 < backoff' \<and> backoff' \<le> maxB \<and> 0 < wait \<and> wait \<le> max maxB (or_duration (st_Standby st) 10000000000)"
proof -
  have pos: "0 < or_duration (st_MinBackoff st) 1000000000" "0 < or_duration (st_Standby st) 10000000000" "0 < maxB"
    using assms(4) by (auto simp: or_duration_def)
  show ?thesis using assms pos
    by (auto simp: stream_turn_def Let_def split: prod.splits sum.splits bool.splits if_splits)
qed

theorem stream_backoff_bounded_witness:
  "let st = \<lparr>st_Locker = False, st_MinBackoff = 0, st_MaxBackoff = 0, st_Standby = 0\<rparr>;
       r = stream_turn st ''s'' (\<lambda>_. ([], None)) 40000000000 empty_db
   in 0 < snd (fst r) \<and> snd (fst r) \<le> 60000000000 \<and> 0 < fst (fst r)"
  using stream_backoff_bounded [of "\<lparr>st_Locker = False, st_MinBackoff = 0, st_MaxBackoff = 0, st_Standby = 0\<rparr>" "''s''" "\<lambda>_. ([], None)" 40000000000 empty_db
      "fst (fst (stream_turn \<lparr>st_Locker = False, st_MinBackoff = 0, st_MaxBackoff = 0, st_Standby = 0\<rparr> ''s'' (\<lambda>_. ([], None)) 40000000000 empty_db))"
      "snd (fst (stream_turn \<lparr>st_Locker = False, st_MinBackoff = 0, st_MaxBackoff = 0, st_Standby = 0\<rparr> ''s'' (\<lambda>_. ([], None)) 40000000000 empty_db))"
      "snd (stream_turn \<lparr>st_Locker = False, st_MinBackoff = 0, st_MaxBackoff = 0, st_Standby = 0\<rparr> ''s'' (\<lambda>_. ([], None)) 40000000000 empty_db)" 60000000000]
  by (simp add: Let_def or_duration_def)

lemma DeliverStream_effect:
  "has_event src i s \<Longrightarrow> has_event src i (snd (DeliverStream source evs n s))"
  "ev \<in> set evs \<Longrightarrow> has_event source (re_ID ev) (snd (DeliverStream source evs n s))"
  "db_resume (snd (DeliverStream source evs n s)) source \<in> {db_resume s source, Some n}"
proof -
  have r: "db_resume (snd (Deliver source evs s)) = db_resume s" using Deliver_grows [of s source evs] by (auto simp: inbox_grows_def)
  show "has_event src i s \<Longrightarrow> has_event src i (snd (DeliverStream source evs n s))"
    using has_event_grows [OF Deliver_grows] by (simp add: DeliverStream_inbox Let_def has_event_def)
  show "ev \<in> set evs \<Longrightarrow> has_event source (re_ID ev) (snd (DeliverStream source evs n s))"
    using Deliver_has by (simp add: DeliverStream_inbox Let_def has_event_def)
  show "db_resume (snd (DeliverStream source evs n s)) source \<in> {db_resume s source, Some n}"
    using r by (simp add: DeliverStream_inbox Let_def)
qed

lemma DeliverStream_call:
  assumes "call_db (DeliverStream source evs n) s = (r, t)"
  shows "has_event src i s \<Longrightarrow> has_event src i t"
    "db_resume t source = db_resume s source \<or> db_resume t source = Some n \<and> (\<forall>ev \<in> set evs. has_event source (re_ID ev) t)"
    "r = Inr x \<Longrightarrow> ev \<in> set evs \<Longrightarrow> has_event source (re_ID ev) t"
proof -
  have h: "has_event src i (s\<lparr>db_replies := rs\<rparr>) = has_event src i s" for src i rs by (simp add: has_event_def)
  from assms have "(has_event src i s \<longrightarrow> has_event src i t) \<and>
      (db_resume t source = db_resume s source \<or> db_resume t source = Some n \<and> (\<forall>ev \<in> set evs. has_event source (re_ID ev) t)) \<and>
      (r = Inr x \<longrightarrow> ev \<in> set evs \<longrightarrow> has_event source (re_ID ev) t)"
  proof (cases rule: call_db_cases)
    case (refused rs)
    then show ?thesis by (auto simp: h)
  next
    case (lost rs)
    with DeliverStream_effect(3) [of source evs n "s\<lparr>db_replies := rs\<rparr>"] DeliverStream_effect(1,2) [where s = "s\<lparr>db_replies := rs\<rparr>"]
    show ?thesis by (auto simp: h)
  next
    case (answered rs)
    with DeliverStream_effect(3) [of source evs n "s\<lparr>db_replies := rs\<rparr>"] DeliverStream_effect(1,2) [where s = "s\<lparr>db_replies := rs\<rparr>"]
    show ?thesis by (auto simp: h)
  qed
  then show "has_event src i s \<Longrightarrow> has_event src i t"
    "db_resume t source = db_resume s source \<or> db_resume t source = Some n \<and> (\<forall>ev \<in> set evs. has_event source (re_ID ev) t)"
    "r = Inr x \<Longrightarrow> ev \<in> set evs \<Longrightarrow> has_event source (re_ID ev) t" by auto
qed

lemma stream_batches_has:
  "stream_batches source bs ended delivered s = (r, s') \<Longrightarrow> has_event src i s \<Longrightarrow> has_event src i s'"
proof (induction bs arbitrary: delivered s)
  case (Cons b bs)
  obtain evs n where b: "b = (evs, n)" by fastforce
  obtain r1 t where c: "call_db (DeliverStream source evs n) s = (r1, t)" by fastforce
  from DeliverStream_call(1) [OF c] Cons.prems(2) have "has_event src i t" by blast
  with Cons.IH [of True t] Cons.prems(1) b c show ?case by (cases r1) auto
qed simp

text \<open>What a subscription stores is consistent at every moment: where it resumes is only ever moved together with the events before
  it, so the events of every batch up to the stored position are in the inbox.\<close>

theorem stream_resumes_after_stored:
  assumes "stream_batches source bs ended delivered s = (r, s')" "db_resume s' source \<noteq> db_resume s source"
  shows "\<exists>us evs n rest. bs = us @ (evs, n) # rest \<and> db_resume s' source = Some n \<and>
           (\<forall>(b, m) \<in> set (us @ [(evs, n)]). \<forall>ev \<in> set b. has_event source (re_ID ev) s')"
  using assms
proof (induction bs arbitrary: delivered s)
  case (Cons b bs)
  obtain evs n where b: "b = (evs, n)" by fastforce
  obtain r1 t where c: "call_db (DeliverStream source evs n) s = (r1, t)" by fastforce
  note C = DeliverStream_call [OF c]
  have first: "\<exists>us evs n rest. b # bs = us @ (evs, n) # rest \<and> db_resume s' source = Some n \<and>
           (\<forall>(b, m) \<in> set (us @ [(evs, n)]). \<forall>ev \<in> set b. has_event source (re_ID ev) s')"
    if "db_resume s' source = db_resume t source" "\<And>i. has_event source i t \<Longrightarrow> has_event source i s'"
  proof -
    from that(1) Cons.prems(2) C(2) have "db_resume s' source = Some n" "\<forall>ev \<in> set evs. has_event source (re_ID ev) t" by auto
    with that(2) b show ?thesis by (intro exI [of _ "[]"] exI [of _ evs] exI [of _ n] exI [of _ bs]) auto
  qed
  show ?case
  proof (cases r1)
    case (Inl e)
    with Cons.prems(1) b c have "s' = t" by simp
    with first show ?thesis by simp
  next
    case (Inr x)
    with Cons.prems(1) b c have run: "stream_batches source bs ended True t = (r, s')" by simp
    show ?thesis
    proof (cases "db_resume s' source = db_resume t source")
      case True
      from first [OF this stream_batches_has [OF run]] show ?thesis .
    next
      case False
      from Cons.IH [OF run False] obtain us vs m rest where
        ih: "bs = us @ (vs, m) # rest" "db_resume s' source = Some m" "\<forall>(b, m) \<in> set (us @ [(vs, m)]). \<forall>ev \<in> set b. has_event source (re_ID ev) s'"
        by blast
      moreover have "\<forall>ev \<in> set evs. has_event source (re_ID ev) s'"
        using C(3) [OF Inr] stream_batches_has [OF run] by blast
      ultimately show ?thesis using b
        by (intro exI [of _ "(evs, n) # us"] exI [of _ vs] exI [of _ m] exI [of _ rest]) auto
    qed
  qed
qed simp

text \<open>Locks are told apart by 32 bits of a hash: two subscriptions with the same bits lock each other out, and the second never
  opens while the first is held.\<close>

theorem subscriptions_share_a_lock:
  "lock_key ''stream:sf/ticket-ended-b2c'' = lock_key ''stream:sales/contract-closed-test'' \<and>
   fst (TryLock ''stream:sales/contract-closed-test'' (snd (TryLock ''stream:sf/ticket-ended-b2c'' empty_db))) = False"
proof -
  have "lock_key ''stream:sf/ticket-ended-b2c'' = lock_key ''stream:sales/contract-closed-test''"
    by (simp add: lock_key_def fnv64a_def)
  then show ?thesis by (simp add: TryLock_def empty_db_def)
qed

end
