(* ===== verification/Engine_New.thy ===== *)
theory Engine_New
  imports Dispatch Agent
begin

text \<open>
  Assembling a runtime, \<open>New\<close> of \<open>pkg/engine/runtime.go\<close>: which endpoints are connected, how each trigger's
  events arrive, which policy decides for which recipe, and that nothing stays open when it fails. Connector
  factories are parameters, and so is what Rego modules mean; what \<open>pkg/policy/opa/opa.go\<close> makes of an evaluation's result is
  modelled.
\<close>

section \<open>Policy packs\<close>

record opa_module =
  om_Name :: string
  om_Source :: string

text \<open>Rego: whether a module parses and which package it is in, whether modules compile together, and the document
  \<open>data.turgon.decision\<close> they give for an input, if any.\<close>

record opa_result =
  or_Allow :: bool
  or_RequireApproval :: bool
  or_Reasons :: "string list"
  or_Deny :: "string list"

record rego =
  rg_Package :: "opa_module \<Rightarrow> string option"
  rg_Prepare :: "opa_module list \<Rightarrow> goerror option"
  rg_Eval :: "opa_module list \<Rightarrow> policy_input \<Rightarrow> goerror + opa_result"

definition WritebackPackage :: string where
  "WritebackPackage = ''turgon.writeback''"

definition DefinesWriteback :: "rego \<Rightarrow> opa_module list \<Rightarrow> bool" where
  "DefinesWriteback rg mods =
     list_ex (\<lambda>m. case rg_Package rg m of None \<Rightarrow> False | Some p \<Rightarrow> TrimPrefix p ''data.'' = WritebackPackage)
       (filter (\<lambda>m. find (\<lambda>x. om_Name x = om_Name m \<and> rg_Package rg x \<noteq> None) (rev mods) = Some m) mods)"

definition New_opa :: "rego \<Rightarrow> opa_module list \<Rightarrow> goerror + (policy_input \<Rightarrow> goerror + decision)" where
  "New_opa rg mods =
     (if \<not> DefinesWriteback rg mods then Inl (New_err ''no policy pack defines package %s'' [AStr WritebackPackage])
      else case rg_Prepare rg mods of
             Some e \<Rightarrow> Inl e
           | None \<Rightarrow>
               Inr (\<lambda>i. case rg_Eval rg mods i of
                      Inl e \<Rightarrow> Inl (Wrap_err ''opa: %w'' [] e)
                    | Inr out \<Rightarrow> Inr \<lparr>Allow = or_Allow out \<and> or_Deny out = [], RequireApproval = or_RequireApproval out,
                                      Denied = (or_Deny out \<noteq> []), Reasons = map (\<lambda>r. Msg r []) (sort (or_Reasons out @ or_Deny out))\<rparr>))"

text \<open>The last pack of a name counts, as in a map filled in order.\<close>

definition pack_named :: "runtime_body \<Rightarrow> string \<Rightarrow> opa_module option" where
  "pack_named b name =
     map_option (\<lambda>p. \<lparr>om_Name = pf_Name p, om_Source = pf_Rego p\<rparr>) (find (\<lambda>p. pf_Name p = name) (rev (bd_Policies b)))"

fun recipe_modules :: "runtime_body \<Rightarrow> string \<Rightarrow> string list \<Rightarrow> goerror + opa_module list" where
  "recipe_modules b w [] = Inr []"
| "recipe_modules b w (name # names) =
     (case pack_named b name of
        None \<Rightarrow> Inl (New_err ''workflow %s: policy pack %s is not in the spec'' [AStr w, AStr name])
      | Some m \<Rightarrow> (case recipe_modules b w names of Inl e \<Rightarrow> Inl e | Inr ms \<Rightarrow> Inr (m # ms)))"

fun deciders_of :: "rego \<Rightarrow> runtime_body \<Rightarrow> workflow list \<Rightarrow> goerror + (string \<times> (policy_input \<Rightarrow> goerror + decision)) list" where
  "deciders_of rg b [] = Inr []"
| "deciders_of rg b (w # ws) =
     (case recipe_modules b (wf_Name w) (wf_Policies w) of
        Inl e \<Rightarrow> Inl e
      | Inr mods \<Rightarrow>
          if \<not> DefinesWriteback rg mods then deciders_of rg b ws
          else (case New_opa rg mods of
                  Inl e \<Rightarrow> Inl (Wrap_err ''workflow %s: policies: %w'' [AStr (wf_Name w)] e)
                | Inr d \<Rightarrow> (case deciders_of rg b ws of Inl e \<Rightarrow> Inl e | Inr ds \<Rightarrow> Inr ((wf_Name w, d) # ds))))"

definition recipeDeciders ::
  "rego \<Rightarrow> runtime_body \<Rightarrow> (policy_input \<Rightarrow> goerror + decision) \<Rightarrow> goerror + (policy_input \<Rightarrow> goerror + decision)" where
  "recipeDeciders rg b fallback =
     (case deciders_of rg b (bd_Workflows b) of
        Inl e \<Rightarrow> Inl e
      | Inr ds \<Rightarrow> Inr (\<lambda>i. case map_of (rev ds) (in_Recipe i) of Some d \<Rightarrow> d i | None \<Rightarrow> fallback i))"

section \<open>Connections\<close>

datatype webhook_config = NoWebhook | WebhookRefused goerror | Webhook "(string \<times> string) list \<Rightarrow> string \<Rightarrow> int \<Rightarrow> received"

text \<open>An instance of a connector: what it can do besides writing. \<open>cn_Check\<close> is its live check.\<close>

record connector_instance =
  cn_Endpoint :: string
  cn_Source :: "poll_fun option"
  cn_Streams :: "(string \<Rightarrow> bool) option"
  cn_Webhook :: "(string \<Rightarrow> webhook_config) option"
  cn_Check :: "string list option"

type_synonym factory = "connector_config \<Rightarrow> goerror + connector_instance"

definition used_endpoints :: "runtime_body \<Rightarrow> string list" where
  "used_endpoints b =
     concat (map (\<lambda>w. ws_Endpoint (wf_Trigger w) #
        concat (map (\<lambda>st. case wfs_Write st of None \<Rightarrow> [] | Some x \<Rightarrow> [wc_Endpoint x]) (wf_Steps w))) (bd_Workflows b))"

definition agent_endpoints :: "runtime_body \<Rightarrow> string list" where
  "agent_endpoints b =
     map at_Endpoint (filter (\<lambda>t. at_Risk t \<noteq> RiskRead \<and> at_Endpoint t \<notin> set (used_endpoints b)) (bd_Tools b))"

definition no_factory_error :: "connector_config \<Rightarrow> goerror" where
  "no_factory_error c =
     (if cc_Runtime c \<noteq> ''native''
      then New_err ''endpoint %s: connector %s (runtime %s) runs in a sidecar: set TURGON_CONNECTORS=%s=unix:///var/run/turgon/connectors/%s.sock''
             [AStr (cc_Endpoint c), AStr (cc_Name c), AStr (cc_Runtime c), AStr (cc_Name c), AStr (cc_Name c)]
      else New_err ''endpoint %s: no runtime for connector %s (runtime %s) in this worker'' [AStr (cc_Endpoint c), AStr (cc_Name c), AStr (cc_Runtime c)])"

text \<open>The loop that connects: the instances opened so far, by endpoint, and the error that ended it. Opening a second instance
  for an endpoint replaces the first.\<close>

fun connect ::
  "(string \<rightharpoonup> factory) \<Rightarrow> runtime_body \<Rightarrow> connector_config list \<Rightarrow> (string \<times> connector_instance) list
     \<Rightarrow> goerror option \<times> (string \<times> connector_instance) list" where
  "connect reg b [] insts = (None, insts)"
| "connect reg b (c # cs) insts =
     (if cc_Endpoint c \<notin> set (used_endpoints b) \<and> cc_Endpoint c \<notin> set (agent_endpoints b) then connect reg b cs insts
      else case reg (cc_Name c) of
             None \<Rightarrow> if cc_Endpoint c \<in> set (agent_endpoints b) then connect reg b cs insts else (Some (no_factory_error c), insts)
           | Some factory \<Rightarrow>
               (case factory c of
                  Inl e \<Rightarrow> (Some e, insts)
                | Inr i \<Rightarrow> connect reg b cs (AList.update (cc_Endpoint c) i insts)))"

text \<open>How the events of a trigger arrive.\<close>

datatype arrival = ByPoll | ByStream | ByWebhook "(string \<times> string) list \<Rightarrow> string \<Rightarrow> int \<Rightarrow> received"

definition trigger_arrival :: "bool \<Rightarrow> (string \<times> connector_instance) list \<Rightarrow> workflow \<Rightarrow> goerror + arrival" where
  "trigger_arrival webhooks insts w =
     (let ep = ws_Endpoint (wf_Trigger w); event = ws_Event (wf_Trigger w) in
      case map_of insts ep of
        None \<Rightarrow> Inl (New_err ''workflow %s: endpoint %s cannot emit events'' [AStr (wf_Name w), AStr ep])
      | Some i \<Rightarrow>
          if cn_Source i = None then Inl (New_err ''workflow %s: endpoint %s cannot emit events'' [AStr (wf_Name w), AStr ep])
          else if (case cn_Streams i of None \<Rightarrow> False | Some f \<Rightarrow> f event) then Inr ByStream
          else if \<not> webhooks then Inr ByPoll
          else (case cn_Webhook i of
                  None \<Rightarrow> Inr ByPoll
                | Some f \<Rightarrow>
                    (case f event of
                       NoWebhook \<Rightarrow> Inr ByPoll
                     | WebhookRefused e \<Rightarrow> Inl (Wrap_err ''workflow %s: %w'' [AStr (wf_Name w)] e)
                     | Webhook hook \<Rightarrow> Inr (ByWebhook hook))))"

fun arrivals ::
  "bool \<Rightarrow> (string \<times> connector_instance) list \<Rightarrow> workflow list \<Rightarrow> goerror + ((string \<times> string) \<times> arrival) list" where
  "arrivals webhooks insts [] = Inr []"
| "arrivals webhooks insts (w # ws) =
     (case trigger_arrival webhooks insts w of
        Inl e \<Rightarrow> Inl e
      | Inr a \<Rightarrow>
          (case arrivals webhooks insts ws of
             Inl e \<Rightarrow> Inl e
           | Inr as \<Rightarrow> Inr (((ws_Endpoint (wf_Trigger w), ws_Event (wf_Trigger w)), a) # as)))"

section \<open>New\<close>

record runtime_options =
  ro_Registry :: "string \<rightharpoonup> factory"
  ro_Policy :: "(policy_input \<Rightarrow> goerror + decision) option"
  ro_Webhooks :: bool

record engine_runtime =
  er_View :: runtime_view
  er_Instances :: "(string \<times> connector_instance) list"
  er_Targets :: "(string \<times> limits \<times> bool) list"
  er_Policy :: "policy_input \<Rightarrow> goerror + decision"

definition runtime_targets :: "runtime_body \<Rightarrow> (string \<times> connector_instance) list \<Rightarrow> (string \<times> limits \<times> bool) list" where
  "runtime_targets b insts =
     map (\<lambda>c. (cc_Endpoint c, cc_Limits c, cc_Metered c)) (filter (\<lambda>c. map_of insts (cc_Endpoint c) \<noteq> None) (bd_Connectors b))"

definition make_view :: "runtime_spec \<Rightarrow> (string \<times> connector_instance) list \<Rightarrow> ((string \<times> string) \<times> arrival) list \<Rightarrow> runtime_view" where
  "make_view spec insts as =
     \<lparr>rw_Digest = sp_Digest spec, rw_Workflows = bd_Workflows (sp_Body spec),
      rw_Sources = (\<lambda>ep. case map_of insts ep of None \<Rightarrow> None | Some i \<Rightarrow> cn_Source i),
      rw_Webhooks = (\<lambda>ep event. case map_of as (ep, event) of Some (ByWebhook h) \<Rightarrow> Some h | _ \<Rightarrow> None),
      rw_Streams = (\<lambda>ep event. case map_of as (ep, event) of Some ByStream \<Rightarrow> True | _ \<Rightarrow> False)\<rparr>"

text \<open>The result, and the instances that were closed on the way out. The guard, the last step of \<open>New\<close>, is \<open>New_guard\<close>; it fails only when
  there is no audit log or a limit is not positive, which \<open>guard\<close> stands for.\<close>

definition New_runtime ::
  "rego \<Rightarrow> runtime_options \<Rightarrow> ((string \<times> limits \<times> bool) list \<Rightarrow> goerror option) \<Rightarrow> runtime_spec
     \<Rightarrow> (goerror + engine_runtime) \<times> connector_instance list" where
  "New_runtime rg opts guard spec =
     (let b = sp_Body spec;
          pol = (case ro_Policy opts of None \<Rightarrow> (\<lambda>i. Inr (WritebackDefault_Decide 0 i)) | Some p \<Rightarrow> p)
      in case connect (ro_Registry opts) b (bd_Connectors b) [] of
           (Some e, insts) \<Rightarrow> (Inl e, map snd insts)
         | (None, insts) \<Rightarrow>
             (case arrivals (ro_Webhooks opts) insts (bd_Workflows b) of
                Inl e \<Rightarrow> (Inl e, map snd insts)
              | Inr as \<Rightarrow>
                  (case recipeDeciders rg b pol of
                     Inl e \<Rightarrow> (Inl e, map snd insts)
                   | Inr dec \<Rightarrow>
                       (case guard (runtime_targets b insts) of
                          Some e \<Rightarrow> (Inl e, map snd insts)
                        | None \<Rightarrow>
                            (Inr \<lparr>er_View = make_view spec insts as, er_Instances = insts, er_Targets = runtime_targets b insts, er_Policy = dec\<rparr>, [])))))"

definition Verify_runtime :: "engine_runtime \<Rightarrow> string list \<Rightarrow> (string \<times> string list) list" where
  "Verify_runtime rt endpoints =
     concat (map (\<lambda>(ep, i). if endpoints \<noteq> [] \<and> ep \<notin> set endpoints then []
                              else case cn_Check i of None \<Rightarrow> [] | Some r \<Rightarrow> [(ep, r)]) (er_Instances rt))"

definition Close_runtime :: "engine_runtime \<Rightarrow> connector_instance list" where
  "Close_runtime rt = map snd (er_Instances rt)"

section \<open>Recipes keep to their own packs\<close>

text \<open>What decides for a workflow: its own packs, if they define the package, and the fallback otherwise.\<close>

definition own_decider ::
  "rego \<Rightarrow> runtime_body \<Rightarrow> (policy_input \<Rightarrow> goerror + decision) \<Rightarrow> workflow \<Rightarrow> policy_input \<Rightarrow> goerror + decision" where
  "own_decider rg b fallback w =
     (case recipe_modules b (wf_Name w) (wf_Policies w) of
        Inl e \<Rightarrow> fallback
      | Inr mods \<Rightarrow> (case New_opa rg mods of Inl e \<Rightarrow> fallback | Inr d \<Rightarrow> d))"

lemma New_opa_defines: "New_opa rg mods = Inr d \<Longrightarrow> DefinesWriteback rg mods"
  by (auto simp: New_opa_def split: if_splits)

lemma deciders_of_keys: "deciders_of rg b ws = Inr ds \<Longrightarrow> fst ` set ds \<subseteq> wf_Name ` set ws"
proof (induction ws arbitrary: ds)
  case (Cons v ws)
  from Cons.prems obtain mods where m: "recipe_modules b (wf_Name v) (wf_Policies v) = Inr mods" by (auto split: sum.splits)
  show ?case
  proof (cases "DefinesWriteback rg mods")
    case False
    with Cons.prems m Cons.IH [of ds] show ?thesis by auto
  next
    case True
    with Cons.prems m obtain d ds' where "deciders_of rg b ws = Inr ds'" "ds = (wf_Name v, d) # ds'" by (auto split: sum.splits)
    with Cons.IH [of ds'] show ?thesis by auto
  qed
qed simp

lemma deciders_of_decide:
  "deciders_of rg b ws = Inr ds \<Longrightarrow> distinct (map wf_Name ws) \<Longrightarrow> w \<in> set ws \<Longrightarrow>
   (case map_of ds (wf_Name w) of Some d \<Rightarrow> d i | None \<Rightarrow> fallback i) = own_decider rg b fallback w i"
proof (induction ws arbitrary: ds)
  case (Cons v ws)
  from Cons.prems(1) obtain mods where m: "recipe_modules b (wf_Name v) (wf_Policies v) = Inr mods" by (auto split: sum.splits)
  show ?case
  proof (cases "DefinesWriteback rg mods")
    case False
    then have f: "deciders_of rg b ws = Inr ds" using Cons.prems(1) m by simp
    show ?thesis
    proof (cases "w = v")
      case True
      from deciders_of_keys [OF f] Cons.prems(2) have "map_of ds (wf_Name v) = None" by (auto simp: map_of_eq_None_iff)
      moreover from False have "\<exists>e. New_opa rg mods = Inl e" by (simp add: New_opa_def)
      ultimately show ?thesis using True m by (auto simp: own_decider_def)
    next
      case False
      with Cons.prems Cons.IH [OF f] show ?thesis by simp
    qed
  next
    case True
    with Cons.prems(1) m obtain d ds' where d: "New_opa rg mods = Inr d" "deciders_of rg b ws = Inr ds'" "ds = (wf_Name v, d) # ds'"
      by (auto split: sum.splits)
    show ?thesis
    proof (cases "w = v")
      case True
      with d m show ?thesis by (simp add: own_decider_def)
    next
      case False
      with Cons.prems(3) have "w \<in> set ws" by simp
      moreover from this Cons.prems(2) have "wf_Name w \<noteq> wf_Name v" by (metis distinct.simps(2) image_eqI list.set_map list.simps(9))
      ultimately have "w \<in> set ws" "wf_Name w \<noteq> wf_Name v" by auto
      with Cons.prems Cons.IH [OF d(2)] d(3) show ?thesis by simp
    qed
  qed
qed simp

lemma deciders_of_distinct: "deciders_of rg b ws = Inr ds \<Longrightarrow> distinct (map wf_Name ws) \<Longrightarrow> distinct (map fst ds)"
proof (induction ws arbitrary: ds)
  case (Cons v ws)
  from Cons.prems(1) obtain mods where m: "recipe_modules b (wf_Name v) (wf_Policies v) = Inr mods" by (auto split: sum.splits)
  show ?case
  proof (cases "DefinesWriteback rg mods")
    case False
    with Cons m show ?thesis by auto
  next
    case True
    with Cons.prems(1) m obtain d ds' where d: "deciders_of rg b ws = Inr ds'" "ds = (wf_Name v, d) # ds'" by (auto split: sum.splits)
    with deciders_of_keys [OF d(1)] Cons show ?thesis by auto
  qed
qed simp

lemma map_of_rev:
  assumes "distinct (map fst ds)"
  shows "map_of (rev ds) = map_of ds"
proof
  fix k
  have "map_of (rev ds) k = Some y \<longleftrightarrow> map_of ds k = Some y" for y
    using assms by (simp add: map_of_eq_Some_iff flip: rev_map)
  then show "map_of (rev ds) k = map_of ds k" by (metis option.exhaust)
qed


section \<open>Every trigger has a source\<close>

lemma arrivals_all:
  "arrivals webhooks insts ws = Inr as \<Longrightarrow> w \<in> set ws \<Longrightarrow>
   \<exists>a. trigger_arrival webhooks insts w = Inr a \<and> map_of as (ws_Endpoint (wf_Trigger w), ws_Event (wf_Trigger w)) \<noteq> None"
  by (induction ws arbitrary: as) (fastforce split: sum.splits)+

text \<open>In a runtime that was assembled, every workflow's trigger has a source to poll, and arrives by subscription or by webhook but not both;
  and assembling it closed no connector.\<close>

theorem New_runtime_triggers:
  assumes "New_runtime rg opts guard spec = (Inr rt, shut)" "w \<in> set (rw_Workflows (er_View rt))"
  shows "\<exists>src. rw_Sources (er_View rt) (ws_Endpoint (wf_Trigger w)) = Some src \<and> shut = [] \<and>
           \<not> (rw_Streams (er_View rt) (ws_Endpoint (wf_Trigger w)) (ws_Event (wf_Trigger w)) \<and>
              rw_Webhooks (er_View rt) (ws_Endpoint (wf_Trigger w)) (ws_Event (wf_Trigger w)) \<noteq> None)"
proof -
  from assms(1) obtain insts as where
    n: "arrivals (ro_Webhooks opts) insts (bd_Workflows (sp_Body spec)) = Inr as" "er_View rt = make_view spec insts as" "shut = []"
    by (auto simp: New_runtime_def Let_def split: prod.splits option.splits sum.splits)
  with assms(2) have "w \<in> set (bd_Workflows (sp_Body spec))" by (simp add: make_view_def)
  from arrivals_all [OF n(1) this] obtain a where "trigger_arrival (ro_Webhooks opts) insts w = Inr a" by blast
  then have "\<exists>i src. map_of insts (ws_Endpoint (wf_Trigger w)) = Some i \<and> cn_Source i = Some src"
    by (auto simp: trigger_arrival_def Let_def split: option.splits if_splits)
  with n(2,3) show ?thesis by (auto simp: make_view_def split: option.splits arrival.splits)
qed

definition demo_rego :: rego where
  "demo_rego = \<lparr>rg_Package = (\<lambda>m. Some ''data.turgon.writeback''), rg_Prepare = (\<lambda>_. None),
     rg_Eval = (\<lambda>ms i. Inr \<lparr>or_Allow = True, or_RequireApproval = False, or_Reasons = map om_Name ms, or_Deny = (if ''strict'' \<in> om_Name ` set ms then [''no''] else [])\<rparr>)\<rparr>"

definition runtime_recipe :: "string \<Rightarrow> string list \<Rightarrow> workflow" where
  "runtime_recipe n ps = \<lparr>wf_Name = n, wf_Trigger = \<lparr>ws_Endpoint = ''crm'', ws_Connector = ''sap'', ws_Event = ''changed'', ws_Interface = [], ws_Topic = []\<rparr>,
     wf_Steps = [], wf_SLO = None, wf_Policies = ps\<rparr>"

definition demo_body :: runtime_body where
  "demo_body = \<lparr>bd_Connectors = [\<lparr>cc_Endpoint = ''crm'', cc_Name = ''sap'', cc_Version = [], cc_Runtime = ''native'', cc_SecretRef = [], cc_Interfaces = [],
       cc_Prohibited = [], cc_Limits = \<lparr>lim_MaxConcurrentCalls = 1, lim_RequestsPerSecond = 1\<rparr>, cc_Metered = False, cc_Connection = [], cc_Config = RawEmpty\<rparr>],
     bd_Topics = [], bd_Workflows = [runtime_recipe ''lax'' [''open''], runtime_recipe ''tight'' [''strict'']], bd_Plugins = [], bd_Tools = [],
     bd_Policies = [\<lparr>pf_Name = ''open'', pf_Version = [], pf_Rego = []\<rparr>, \<lparr>pf_Name = ''strict'', pf_Version = [], pf_Rego = []\<rparr>], bd_Monitors = []\<rparr>"

definition demo_policy_input :: "string \<Rightarrow> policy_input" where
  "demo_policy_input r = \<lparr>in_Recipe = r, in_Tool = \<lparr>tool_Name = [], tool_Risk = RiskLow\<rparr>,
     in_Subject = \<lparr>sub_ID = [], sub_Roles = [], sub_Agent = False, sub_OnBehalfOf = []\<rparr>, in_Action = \<lparr>act_Entity = [], act_Amount = 0\<rparr>,
     in_Approval = \<lparr>ap_Status = [], ap_By = [], ap_Note = []\<rparr>\<rparr>"


definition demo_options :: runtime_options where
  "demo_options = \<lparr>ro_Registry = [''sap'' \<mapsto> (\<lambda>c. Inr \<lparr>cn_Endpoint = ''crm'', cn_Source = Some (\<lambda>n e a l. Inr []), cn_Streams = None, cn_Webhook = None, cn_Check = None\<rparr>)],
     ro_Policy = None, ro_Webhooks = True\<rparr>"

definition demo_runtime_spec :: runtime_spec where
  "demo_runtime_spec = \<lparr>sp_APIVersion = [], sp_Kind = [], sp_Name = [], sp_Source = [], sp_Level = [], sp_Digest = ''d'', sp_Signatures = [], sp_Body = demo_body\<rparr>"

theorem New_runtime_triggers_witness:
  "case New_runtime demo_rego demo_options (\<lambda>_. None) demo_runtime_spec of
     (Inl e, shut) \<Rightarrow> False
   | (Inr rt, shut) \<Rightarrow> (\<exists>src. rw_Sources (er_View rt) ''crm'' = Some src)"
proof -
  have "isl (fst (New_runtime demo_rego demo_options (\<lambda>_. None) demo_runtime_spec)) = False" by code_simp
  then obtain rt shut where n: "New_runtime demo_rego demo_options (\<lambda>_. None) demo_runtime_spec = (Inr rt, shut)"
    by (cases "New_runtime demo_rego demo_options (\<lambda>_. None) demo_runtime_spec"; cases "fst (New_runtime demo_rego demo_options (\<lambda>_. None) demo_runtime_spec)") auto
  have "rw_Workflows (er_View rt) = bd_Workflows demo_body"
    using n by (auto simp: New_runtime_def Let_def make_view_def demo_runtime_spec_def split: prod.splits option.splits sum.splits)
  then have "runtime_recipe ''lax'' [''open''] \<in> set (rw_Workflows (er_View rt))" by (simp add: demo_body_def)
  from New_runtime_triggers [OF n this] n show ?thesis by (auto simp: runtime_recipe_def)
qed

end
