(* ===== verification/Change_Capture.thy ===== *)
theory Change_Capture
  imports Sources
begin

text \<open>
  Change capture of the PostgreSQL connector: the decoder of the replication protocol \<open>pgoutput\<close>
  (\<open>pkg/connector/postgres/pgoutput.go\<close>), and reading a replication slot (\<open>changes.go\<close>). Bytes are
  characters. PostgreSQL's answers are the record \<open>pg_slot\<close>, over a state of the server; the reading of column texts
  that the library does (numbers, JSON, timestamps) is the record \<open>pg_text\<close>.
\<close>

section \<open>Decoding messages\<close>

record pg_column =
  pc_name :: string
  pc_oid :: nat

record pg_relation =
  pr_id :: nat
  pr_namespace :: string
  pr_name :: string
  pr_columns :: "pg_column list"

record tuple_value =
  tv_kind :: char
  tv_data :: string

record pg_message =
  pm_kind :: char
  pm_finalLSN :: nat
  pm_endLSN :: nat
  pm_rel :: "pg_relation option"
  pm_relID :: nat
  pm_newRow :: "tuple_value list"
  pm_oldRow :: "tuple_value list"

definition errShort :: goerror where
  "errShort = New_err ''pgoutput: message too short'' []"

text \<open>The reader: the bytes left and the error, after which reads return zeros.\<close>

type_synonym reader = "string \<times> goerror option"

definition rd_take :: "nat \<Rightarrow> reader \<Rightarrow> string \<times> reader" where
  "rd_take n r =
     (case r of (b, err) \<Rightarrow>
        if err \<noteq> None \<or> length b < n then (replicate n CHR 0x00, (b, Some errShort))
        else (take n b, (drop n b, None)))"

definition big_endian :: "string \<Rightarrow> nat" where
  "big_endian s = foldl (\<lambda>n c. 256 * n + of_char c) 0 s"

definition rd_uint :: "nat \<Rightarrow> reader \<Rightarrow> nat \<times> reader" where
  "rd_uint n r = (case rd_take n r of (s, r') \<Rightarrow> (big_endian s, r'))"

definition rd_u8 :: "reader \<Rightarrow> char \<times> reader" where
  "rd_u8 r = (case rd_take 1 r of (s, r') \<Rightarrow> (hd s, r'))"

definition rd_str :: "reader \<Rightarrow> string \<times> reader" where
  "rd_str r =
     (case r of (b, err) \<Rightarrow>
        if err \<noteq> None then ('''', r)
        else (case CutByte CHR 0x00 b of
                (s, Some rest) \<Rightarrow> (s, (rest, None))
              | (s, None) \<Rightarrow> ('''', (b, Some errShort))))"

text \<open>The columns of a row; the loop stops at an error, after adding the column it met it in.\<close>

fun rd_values :: "nat \<Rightarrow> reader \<Rightarrow> tuple_value list \<times> reader" where
  "rd_values 0 r = ([], r)"
| "rd_values (Suc n) r =
     (if snd r \<noteq> None then ([], r)
      else (case rd_u8 r of
              (k, r1) \<Rightarrow>
                (case (if k = CHR ''n'' \<or> k = CHR ''u'' then ('''', r1)
                       else if k = CHR ''t'' \<or> k = CHR ''b'' then (case rd_uint 4 r1 of (len, r2) \<Rightarrow> rd_take len r2)
                       else ('''', (fst r1, Some (New_err ''pgoutput: unknown column kind %q'' [AStr [k]])))) of
                   (dat, r3) \<Rightarrow> (case rd_values n r3 of (vs, r4) \<Rightarrow> (\<lparr>tv_kind = k, tv_data = dat\<rparr> # vs, r4)))))"

definition rd_tuple :: "reader \<Rightarrow> tuple_value list \<times> reader" where
  "rd_tuple r = (case rd_uint 2 r of (n, r1) \<Rightarrow> rd_values n r1)"

fun rd_columns :: "nat \<Rightarrow> reader \<Rightarrow> pg_column list \<times> reader" where
  "rd_columns 0 r = ([], r)"
| "rd_columns (Suc n) r =
     (if snd r \<noteq> None then ([], r)
      else (case rd_u8 r of
              (_, r1) \<Rightarrow>
                (case rd_str r1 of
                   (name, r2) \<Rightarrow>
                     (case rd_uint 4 r2 of
                        (oid, r3) \<Rightarrow>
                          (case rd_uint 4 r3 of
                             (_, r4) \<Rightarrow> (case rd_columns n r4 of (cs, r5) \<Rightarrow> (\<lparr>pc_name = name, pc_oid = oid\<rparr> # cs, r5)))))))"

definition empty_message :: "char \<Rightarrow> pg_message" where
  "empty_message k = \<lparr>pm_kind = k, pm_finalLSN = 0, pm_endLSN = 0, pm_rel = None, pm_relID = 0, pm_newRow = [], pm_oldRow = []\<rparr>"

definition finish_message :: "pg_message \<Rightarrow> reader \<Rightarrow> goerror + pg_message" where
  "finish_message m r = (case snd r of None \<Rightarrow> Inr m | Some e \<Rightarrow> Inl e)"

definition decode_relation :: "reader \<Rightarrow> goerror + pg_message" where
  "decode_relation r0 =
     (case rd_uint 4 r0 of
        (i, r1) \<Rightarrow>
          (case rd_str r1 of
             (ns, r2) \<Rightarrow>
               (case rd_str r2 of
                  (name, r3) \<Rightarrow>
                    (case rd_u8 r3 of
                       (_, r4) \<Rightarrow>
                         (case rd_uint 2 r4 of
                            (n, r5) \<Rightarrow>
                              (case rd_columns n r5 of
                                 (cs, r6) \<Rightarrow>
                                   finish_message ((empty_message CHR ''R'')\<lparr>pm_rel := Some \<lparr>pr_id = i, pr_namespace = ns, pr_name = name, pr_columns = cs\<rparr>\<rparr>) r6))))))"

definition decode_insert :: "reader \<Rightarrow> goerror + pg_message" where
  "decode_insert r0 =
     (case rd_uint 4 r0 of
        (i, r1) \<Rightarrow>
          (case rd_u8 r1 of
             (k, r2) \<Rightarrow>
               if k \<noteq> CHR ''N'' then Inl (New_err ''pgoutput: insert: unexpected tuple kind %q'' [AStr [k]])
               else (case rd_tuple r2 of (row, r3) \<Rightarrow> finish_message ((empty_message CHR ''I'')\<lparr>pm_relID := i, pm_newRow := row\<rparr>) r3)))"

definition decode_update :: "reader \<Rightarrow> goerror + pg_message" where
  "decode_update r0 =
     (case rd_uint 4 r0 of
        (i, r1) \<Rightarrow>
          (case rd_u8 r1 of
             (k, r2) \<Rightarrow>
               (case (if k = CHR ''K'' \<or> k = CHR ''O''
                      then (case rd_tuple r2 of (row, r3) \<Rightarrow> (case rd_u8 r3 of (k', r4) \<Rightarrow> (row, k', r4)))
                      else ([], k, r2)) of
                  (old, k', r4) \<Rightarrow>
                    if k' \<noteq> CHR ''N'' then Inl (New_err ''pgoutput: update: unexpected tuple kind %q'' [AStr [k']])
                    else (case rd_tuple r4 of
                            (row, r5) \<Rightarrow> finish_message ((empty_message CHR ''U'')\<lparr>pm_relID := i, pm_newRow := row, pm_oldRow := old\<rparr>) r5))))"

definition decode_delete :: "reader \<Rightarrow> goerror + pg_message" where
  "decode_delete r0 =
     (case rd_uint 4 r0 of
        (i, r1) \<Rightarrow>
          (case rd_u8 r1 of
             (k, r2) \<Rightarrow>
               if k \<noteq> CHR ''K'' \<and> k \<noteq> CHR ''O'' then Inl (New_err ''pgoutput: delete: unexpected tuple kind %q'' [AStr [k]])
               else (case rd_tuple r2 of (row, r3) \<Rightarrow> finish_message ((empty_message CHR ''D'')\<lparr>pm_relID := i, pm_oldRow := row\<rparr>) r3)))"

definition decode :: "string \<Rightarrow> goerror + pg_message" where
  "decode dat =
     (case dat of
        [] \<Rightarrow> Inl errShort
      | k # b \<Rightarrow>
          (let r0 = (b, None) in
           if k = CHR ''B'' then (case rd_uint 8 r0 of (n, r1) \<Rightarrow> finish_message ((empty_message k)\<lparr>pm_finalLSN := n\<rparr>) r1)
           else if k = CHR ''C''
           then (case rd_u8 r0 of
                   (_, r1) \<Rightarrow>
                     (case rd_uint 8 r1 of
                        (_, r2) \<Rightarrow> (case rd_uint 8 r2 of (n, r3) \<Rightarrow> finish_message ((empty_message k)\<lparr>pm_endLSN := n\<rparr>) r3)))
           else if k = CHR ''R'' then decode_relation r0
           else if k = CHR ''I'' then decode_insert r0
           else if k = CHR ''U'' then decode_update r0
           else if k = CHR ''D'' then decode_delete r0
           else finish_message (empty_message k) r0))"

section \<open>Rows\<close>

record pg_text =
  px_Number :: "string \<Rightarrow> json"
  px_Finite :: "string \<Rightarrow> bool"
  px_JSON :: "string \<Rightarrow> json option"
  px_Timestamptz :: "string \<Rightarrow> string option"
  px_Timestamp :: "string \<Rightarrow> string option"

text \<open>The object IDs of the built-in types: bool, int2, int4, int8, oid; float4, float8, numeric; json, jsonb; timestamptz,
  timestamp.\<close>

definition textValue :: "pg_text \<Rightarrow> nat \<Rightarrow> string \<Rightarrow> json" where
  "textValue px oid s =
     (if oid = 16 then JBool (s = ''t'')
      else if oid \<in> {21, 23, 20, 26} then px_Number px s
      else if oid \<in> {700, 701, 1700} then (if px_Finite px s then px_Number px s else JStr s)
      else if oid \<in> {114, 3802} then (case px_JSON px s of Some v \<Rightarrow> v | None \<Rightarrow> JStr s)
      else if oid = 1184 then (case px_Timestamptz px s of Some t \<Rightarrow> JStr t | None \<Rightarrow> JStr s)
      else if oid = 1114 then (case px_Timestamp px s of Some t \<Rightarrow> JStr t | None \<Rightarrow> JStr s)
      else JStr s)"

definition rowJSON :: "pg_text \<Rightarrow> pg_relation \<Rightarrow> tuple_value list \<Rightarrow> goerror + json" where
  "rowJSON px rel row =
     (if length row \<noteq> length (pr_columns rel)
      then Inl (New_err ''%s.%s: row has %d columns, relation %d''
                  [AStr (pr_namespace rel), AStr (pr_name rel), AInt (int (length row)), AInt (int (length (pr_columns rel)))])
      else Inr (JObj (foldl (\<lambda>obj (v, col).
                        if tv_kind v = CHR ''u'' then obj
                        else AList.update (pc_name col) (if tv_kind v = CHR ''n'' then JNull else textValue px (pc_oid col) (tv_data v)) obj)
                      [] (zip row (pr_columns rel)))))"

section \<open>Reading a slot\<close>

text \<open>The connector's settings for an event, and PostgreSQL: a failure of a statement, \<open>Busy\<close> when the slot is in use; the
  slot's confirmed position and the server's flush position, as text; the messages peeked up to a position with a guide to their number;
  advancing the slot.\<close>

record change =
  ch_Table :: string
  ch_Operations :: "string list"
  ch_Slot :: string

datatype pg_failure = Busy goerror | PgFailed goerror

record 's pg_slot =
  ps_prepare :: "goerror + nat"
  ps_confirmed :: "'s \<Rightarrow> goerror + string option"
  ps_flush :: "'s \<Rightarrow> goerror + string"
  ps_peek :: "string \<Rightarrow> int \<Rightarrow> 's \<Rightarrow> pg_failure + string list"
  ps_advance :: "string \<Rightarrow> 's \<Rightarrow> pg_failure option \<times> 's"

definition change_kind :: "char \<Rightarrow> string" where
  "change_kind k = (if k = CHR ''I'' then ''insert'' else if k = CHR ''U'' then ''update'' else ''delete'')"

definition wants :: "change \<Rightarrow> string \<Rightarrow> bool" where
  "wants ch op = (op \<in> set (ch_Operations ch))"

record cdc_vars =
  cv_out :: "run_event list"
  cv_rels :: "(nat \<times> pg_relation) list"
  cv_commit :: "64 word"
  cv_index :: int

definition format_016X :: "64 word \<Rightarrow> string" where
  "format_016X w = (let s = format_X (unat w) in replicate (16 - length s) CHR ''0'' @ s)"

definition cdc_message ::
  "pg_text \<Rightarrow> change \<Rightarrow> string \<Rightarrow> nat \<Rightarrow> int \<Rightarrow> pg_message \<Rightarrow> cdc_vars \<Rightarrow> goerror + cdc_vars" where
  "cdc_message px ch event reloid after m v =
     (if pm_kind m = CHR ''B''
      then (let lsn = (of_nat (pm_finalLSN m) :: 64 word) in
            if maxLSN < uint lsn then Inl (New_err ''postgres: %s: LSN %s is past what change capture positions can hold'' [AStr event, AStr (formatLSN lsn)])
            else Inr (v\<lparr>cv_commit := lsn, cv_index := 0\<rparr>))
      else if pm_kind m = CHR ''R''
      then (case pm_rel m of None \<Rightarrow> Inr v | Some rel \<Rightarrow> Inr (v\<lparr>cv_rels := AList.update (pr_id rel) rel (cv_rels v)\<rparr>))
      else if pm_kind m = CHR ''I'' \<or> pm_kind m = CHR ''U'' \<or> pm_kind m = CHR ''D''
      then (if pm_relID m \<noteq> reloid then Inr v
            else (let i = cv_index v + 1; v1 = v\<lparr>cv_index := i\<rparr> in
                  if maxIndex < i
                  then Inl (New_err ''postgres: %s: the transaction committed at %s changed more than %d rows of %s; change capture cannot order more (use the outbox for bulk changes)''
                              [AStr event, AStr (formatLSN (cv_commit v)), AInt maxIndex, AStr (ch_Table ch)])
                  else if sint (cdc_position (cv_commit v) i) \<le> after \<or> \<not> wants ch (change_kind (pm_kind m)) then Inr v1
                  else (case map_of (cv_rels v) (pm_relID m) of
                          None \<Rightarrow> Inl (New_err ''postgres: %s: change to relation %d before its description'' [AStr event, AInt (int (pm_relID m))])
                        | Some rel \<Rightarrow>
                            (case rowJSON px rel (if pm_kind m = CHR ''D'' then pm_oldRow m else pm_newRow m) of
                               Inl e \<Rightarrow> Inl (Wrap_err ''postgres: %s: %w'' [AStr event] e)
                             | Inr doc \<Rightarrow>
                                 Inr (v1\<lparr>cv_out := cv_out v @
                                   [\<lparr>re_ID = format_016X (cv_commit v) @ ''.'' @ Itoa_int i, re_Position = sint (cdc_position (cv_commit v) i),
                                     re_Name = event, re_Payload = RawDoc doc\<rparr>]\<rparr>)))))
      else Inr v)"

fun cdc_rows ::
  "pg_text \<Rightarrow> change \<Rightarrow> string \<Rightarrow> nat \<Rightarrow> int \<Rightarrow> int \<Rightarrow> string list \<Rightarrow> cdc_vars \<Rightarrow> goerror + cdc_vars" where
  "cdc_rows px ch event reloid after limit [] v = Inr v"
| "cdc_rows px ch event reloid after limit (row # rows) v =
     (if limit \<le> int (length (cv_out v)) then cdc_rows px ch event reloid after limit rows v
      else (case decode row of
              Inl e \<Rightarrow> Inl (Wrap_err ''postgres: %s: %w'' [AStr event] e)
            | Inr m \<Rightarrow>
                (case cdc_message px ch event reloid after m v of
                   Inl e \<Rightarrow> Inl e
                 | Inr v' \<Rightarrow> cdc_rows px ch event reloid after limit rows v')))"

definition slot_advance :: "'s pg_slot \<Rightarrow> 64 word \<Rightarrow> 's \<Rightarrow> pg_failure option \<times> 's" where
  "slot_advance pg lsn s = ps_advance pg (formatLSN lsn) s"

definition cdc_budget :: "int \<Rightarrow> int" where
  "cdc_budget limit = limit * 4 + 64"

definition pollChanges ::
  "'s pg_slot \<Rightarrow> pg_text \<Rightarrow> change \<Rightarrow> string \<Rightarrow> int \<Rightarrow> int \<Rightarrow> 's \<Rightarrow> (pg_failure + run_event list) \<times> 's" where
  "pollChanges pg px ch event after limit s =
     (case ps_prepare pg of
        Inl e \<Rightarrow> (Inl (PgFailed (Wrap_err ''postgres: %s: %w'' [AStr event] e)), s)
      | Inr reloid \<Rightarrow>
          (case ps_confirmed pg s of
             Inl e \<Rightarrow> (Inl (PgFailed (Wrap_err ''postgres: %s: %w'' [AStr event] e)), s)
           | Inr None \<Rightarrow> (Inl (PgFailed (New_err ''postgres: %s: replication slot %s was dropped'' [AStr event, AStr (ch_Slot ch)])), s)
           | Inr (Some confirmedText) \<Rightarrow>
               (case parseLSN confirmedText of
                  None \<Rightarrow> (Inl (PgFailed (New_err ''invalid LSN %q'' [AStr confirmedText])), s)
                | Some confirmed \<Rightarrow>
                    (let l = commitOf (word_of_int after) in
                     case (if 0 < after \<and> confirmed < l then slot_advance pg l s else (None, s)) of
                       (Some e, s1) \<Rightarrow> (Inl e, s1)
                     | (None, s1) \<Rightarrow>
                         (case ps_flush pg s1 of
                            Inl e \<Rightarrow> (Inl (PgFailed e), s1)
                          | Inr uptoText \<Rightarrow>
                              (case parseLSN uptoText of
                                 None \<Rightarrow> (Inl (PgFailed (New_err ''invalid LSN %q'' [AStr uptoText])), s1)
                               | Some flushed \<Rightarrow>
                                   (case ps_peek pg uptoText (cdc_budget limit) s1 of
                                      Inl e \<Rightarrow> (Inl e, s1)
                                    | Inr rows \<Rightarrow>
                                        (case cdc_rows px ch event reloid after limit rows \<lparr>cv_out = [], cv_rels = [], cv_commit = 0, cv_index = 0\<rparr> of
                                           Inl e \<Rightarrow> (Inl (PgFailed e), s1)
                                         | Inr v \<Rightarrow>
                                             if cv_out v = [] \<and> int (length rows) < cdc_budget limit \<and> max confirmed l < flushed
                                             then (case slot_advance pg flushed s1 of
                                                     (Some e, s2) \<Rightarrow> (Inl e, s2)
                                                   | (None, s2) \<Rightarrow> (Inr [], s2))
                                             else (Inr (cv_out v), s1)))))))))"

text \<open>\<open>Poll\<close> for a captured event: a slot in use by another worker has nothing to deliver.\<close>

definition cdc_Poll ::
  "'s pg_slot \<Rightarrow> pg_text \<Rightarrow> change \<Rightarrow> string \<Rightarrow> int \<Rightarrow> int \<Rightarrow> 's \<Rightarrow> (goerror + run_event list) \<times> 's" where
  "cdc_Poll pg px ch event after limit s =
     (case pollChanges pg px ch event after limit s of
        (Inl (Busy e), s') \<Rightarrow> (Inr [], s')
      | (Inl (PgFailed e), s') \<Rightarrow> (Inl e, s')
      | (Inr evs, s') \<Rightarrow> (Inr evs, s'))"

end
