(* ===== verification/Capture_Props.thy ===== *)
theory Capture_Props
  imports Change_Capture Source_Claims
begin

text \<open>
  Change capture: messages encoded as the protocol says are decoded to what they carry, events come in the order of their
  positions, and a transaction larger than a poll's budget stops the capture for good.
\<close>

section \<open>Messages that carry no new event\<close>

definition not_begin :: "string \<Rightarrow> bool" where
  "not_begin row = (case decode row of Inl e \<Rightarrow> False | Inr m \<Rightarrow> pm_kind m \<noteq> CHR ''B'')"

definition is_change :: "nat \<Rightarrow> pg_message \<Rightarrow> bool" where
  "is_change reloid m = (pm_kind m \<in> {CHR ''I'', CHR ''U'', CHR ''D''} \<and> pm_relID m = reloid)"

text \<open>How many changes of the table the messages of a transaction carry.\<close>

definition changes_in :: "nat \<Rightarrow> string list \<Rightarrow> int" where
  "changes_in reloid rows = int (length (filter (\<lambda>row. case decode row of Inl e \<Rightarrow> False | Inr m \<Rightarrow> is_change reloid m) rows))"

lemma cdc_message_quiet:
  assumes "pm_kind m \<noteq> CHR ''B''" "is_change reloid m \<Longrightarrow> cv_index v < maxIndex \<and> sint (cdc_position (cv_commit v) (cv_index v + 1)) \<le> after"
  shows "\<exists>v'. cdc_message px ch event reloid after m v = Inr v' \<and> cv_out v' = cv_out v \<and> cv_commit v' = cv_commit v \<and>
           cv_index v' = cv_index v + (if is_change reloid m then 1 else 0)"
  using assms by (auto simp: cdc_message_def is_change_def Let_def split: option.splits)

lemma changes_in_nonneg: "0 \<le> changes_in reloid rows"
  by (simp add: changes_in_def)

lemma cdc_rows_quiet:
  assumes "\<forall>row \<in> set rows. not_begin row" "0 \<le> cv_index v" "uint (cv_commit v) \<le> maxLSN"
    and "cv_index v + changes_in reloid rows \<le> maxIndex" "cv_out v = []" "0 < limit"
    and "sint (cdc_position (cv_commit v) (cv_index v + changes_in reloid rows)) \<le> after"
  shows "\<exists>v'. cdc_rows px ch event reloid after limit rows v = Inr v' \<and> cv_out v' = []"
  using assms
proof (induction rows arbitrary: v)
  case (Cons row rows)
  from Cons.prems(1) obtain m where m: "decode row = Inr m" "pm_kind m \<noteq> CHR ''B''" by (auto simp: not_begin_def split: sum.splits)
  then have n: "changes_in reloid (row # rows) = changes_in reloid rows + (if is_change reloid m then 1 else 0)"
    by (simp add: changes_in_def)
  have val: "sint (cdc_position (cv_commit v) i) = uint (cv_commit v) * 32768 + i" if "0 \<le> i" "i \<le> maxIndex" for i
    by (rule cdc_position_value(2) [OF Cons.prems(3) that])
  have "cv_index v < maxIndex \<and> sint (cdc_position (cv_commit v) (cv_index v + 1)) \<le> after" if "is_change reloid m"
    using Cons.prems(2,4,7) val [of "cv_index v + 1"] val [of "cv_index v + changes_in reloid (row # rows)"] changes_in_nonneg [of reloid rows] n that
    by simp
  from cdc_message_quiet [where px = px and ch = ch and event = event, OF m(2) this] obtain v1 where
    v1: "cdc_message px ch event reloid after m v = Inr v1" "cv_out v1 = cv_out v" "cv_commit v1 = cv_commit v"
    "cv_index v1 = cv_index v + (if is_change reloid m then 1 else 0)" by auto
  then have eq: "cv_index v1 + changes_in reloid rows = cv_index v + changes_in reloid (row # rows)" using n by simp
  have "\<exists>v'. cdc_rows px ch event reloid after limit rows v1 = Inr v' \<and> cv_out v' = []"
  proof (rule Cons.IH)
    show "cv_index v1 + changes_in reloid rows \<le> maxIndex" unfolding eq by (rule Cons.prems(4))
    show "sint (cdc_position (cv_commit v1) (cv_index v1 + changes_in reloid rows)) \<le> after" unfolding eq v1(3) by (rule Cons.prems(7))
  qed (use Cons.prems v1 in auto)
  then obtain v' where "cdc_rows px ch event reloid after limit rows v1 = Inr v'" "cv_out v' = []" by blast
  with m v1 Cons.prems(5,6) show ?case by simp
qed simp

section \<open>A reference slot\<close>

text \<open>A slot as PostgreSQL documents it: decoding starts with the first transaction that commits at or after the confirmed position, goes to
  the position asked for, and the number of rows is only looked at after a whole transaction.\<close>

record slot_state =
  sl_confirmed :: "64 word"
  sl_flush :: "64 word"
  sl_log :: "(64 word \<times> string list) list"

fun peek_rows :: "int \<Rightarrow> string list \<Rightarrow> (64 word \<times> string list) list \<Rightarrow> string list" where
  "peek_rows budget acc [] = acc"
| "peek_rows budget acc ((c, rows) # ts) =
     (if budget \<le> int (length (acc @ rows)) then acc @ rows else peek_rows budget (acc @ rows) ts)"

definition reference_slot :: "nat \<Rightarrow> slot_state pg_slot" where
  "reference_slot reloid =
     \<lparr>ps_prepare = Inr reloid,
      ps_confirmed = (\<lambda>s. Inr (Some (formatLSN (sl_confirmed s)))),
      ps_flush = (\<lambda>s. Inr (formatLSN (sl_flush s))),
      ps_peek = (\<lambda>upto budget s. Inr (peek_rows budget []
        (filter (\<lambda>(c, _). sl_confirmed s \<le> c \<and> (case parseLSN upto of None \<Rightarrow> False | Some u \<Rightarrow> c \<le> u)) (sl_log s)))),
      ps_advance = (\<lambda>lsn s. case parseLSN lsn of None \<Rightarrow> (Some (PgFailed (New_err ''invalid'' [])), s) | Some l \<Rightarrow> (None, s\<lparr>sl_confirmed := max l (sl_confirmed s)\<rparr>))\<rparr>"

text \<open>C40: A transaction with more rows than a poll reads stops change capture for good. Once all its changes are delivered, every
  poll reads that transaction again, and nothing after it: it returns no event and leaves the slot where it is, whatever
  is committed later. (A poll of 100 events reads 464 rows; the connector accepts 32767 changes in a transaction.)\<close>

theorem large_transaction_stalls_capture:
  assumes "decode begin_row = Inr b" "pm_kind b = CHR ''B''" "pm_finalLSN b = unat c" "uint c \<le> maxLSN" "0 < c"
    and "\<forall>row \<in> set rows. not_begin row" "changes_in reloid rows \<le> maxIndex" "cdc_budget limit \<le> int (length (begin_row # rows))" "0 < limit"
    and "after = sint (cdc_position c (changes_in reloid rows))"
    and "sl_log s = (c, begin_row # rows) # later" "sl_confirmed s = c" "c \<le> sl_flush s"
  shows "cdc_Poll (reference_slot reloid) px ch event after limit s = (Inr [], s)"
proof -
  let ?all = "begin_row # rows"
  have idx: "0 \<le> changes_in reloid rows" by (rule changes_in_nonneg)
  from cdc_position_value [OF assms(4) idx assms(7)] assms(10)
  have after: "after = uint c * 32768 + changes_in reloid rows" by simp
  from cdc_position_value [OF assms(4) idx assms(7)] after
  have "word_of_int after = cdc_position c (changes_in reloid rows)" by (metis word_of_int_uint)
  then have l: "commitOf (word_of_int after) = c"
    using cdc_position_order [OF assms(4) assms(4) idx assms(7) idx assms(7)] by simp
  have peek: "ps_peek (reference_slot reloid) (formatLSN (sl_flush s)) (cdc_budget limit) s = Inr ?all"
    using assms(8,11,12,13) by (simp add: reference_slot_def parseLSN_formatLSN)
  let ?v0 = "\<lparr>cv_out = [], cv_rels = [], cv_commit = c, cv_index = 0\<rparr>"
  have "\<exists>v'. cdc_rows px ch event reloid after limit rows ?v0 = Inr v' \<and> cv_out v' = []"
    by (rule cdc_rows_quiet) (use assms after cdc_position_value(2) [OF assms(4) idx assms(7)] in auto)
  then obtain v' where v': "cdc_rows px ch event reloid after limit rows ?v0 = Inr v'" "cv_out v' = []" by blast
  have "cdc_message px ch event reloid after b \<lparr>cv_out = [], cv_rels = [], cv_commit = 0, cv_index = 0\<rparr> = Inr ?v0"
    using assms(2,3,4) by (simp add: cdc_message_def Let_def)
  with assms(1,9) v'(1) have all: "cdc_rows px ch event reloid after limit ?all \<lparr>cv_out = [], cv_rels = [], cv_commit = 0, cv_index = 0\<rparr> = Inr v'"
    by simp
  have "\<not> int (length ?all) < cdc_budget limit" using assms(8) by simp
  then show ?thesis
    using peek all v'(2) assms(12) l
    by (simp add: cdc_Poll_def pollChanges_def parseLSN_formatLSN reference_slot_def Let_def)
qed

definition stall_begin :: string where
  "stall_begin = CHR ''B'' # replicate 7 CHR 0x00 @ [CHR 0x09]"

definition stall_insert :: string where
  "stall_insert = [CHR ''I'', CHR 0x00, CHR 0x00, CHR 0x00, CHR 0x01, CHR ''N'', CHR 0x00, CHR 0x00]"

definition stall_text :: pg_text where
  "stall_text = \<lparr>px_Number = JStr, px_Finite = (\<lambda>_. True), px_JSON = (\<lambda>_. None), px_Timestamptz = (\<lambda>_. None), px_Timestamp = (\<lambda>_. None)\<rparr>"

definition stall_change :: change where
  "stall_change = \<lparr>ch_Table = ''orders'', ch_Operations = [''insert''], ch_Slot = ''s''\<rparr>"

definition stall_state :: slot_state where
  "stall_state = \<lparr>sl_confirmed = 9, sl_flush = 20, sl_log = [(9, stall_begin # replicate 70 stall_insert), (12, [stall_begin, stall_insert])]\<rparr>"

lemma stall_decode:
  "decode stall_begin = Inr ((empty_message CHR ''B'')\<lparr>pm_finalLSN := 9\<rparr>)"
  "decode stall_insert = Inr ((empty_message CHR ''I'')\<lparr>pm_relID := 1\<rparr>)"
  by code_simp+

theorem large_transaction_stalls_capture_witness:
  "cdc_Poll (reference_slot 1) stall_text stall_change ''created'' (sint (cdc_position 9 70)) 1 stall_state = (Inr [], stall_state)"
proof -
  have n: "changes_in 1 (replicate 70 stall_insert) = 70"
    by (simp add: changes_in_def filter_replicate stall_decode is_change_def empty_message_def)
  show ?thesis
    by (rule large_transaction_stalls_capture [OF stall_decode(1), where c = 9 and rows = "replicate 70 stall_insert" and later = "[(12, [stall_begin, stall_insert])]"])
       (simp_all add: n [simplified] stall_state_def not_begin_def stall_decode empty_message_def cdc_budget_def maxLSN_def maxIndex_def indexBits_def)
qed

section \<open>The protocol\<close>

text \<open>Messages as the documentation of \<open>pgoutput\<close> lays them out. What the connector does not use (time stamps, flags, type modifiers) is
  arbitrary.\<close>

fun be_bytes :: "nat \<Rightarrow> nat \<Rightarrow> string" where
  "be_bytes 0 x = []"
| "be_bytes (Suc n) x = be_bytes n (x div 256) @ [char_of (x mod 256)]"

definition encode_value :: "tuple_value \<Rightarrow> string" where
  "encode_value v = tv_kind v # (if tv_kind v \<in> {CHR ''t'', CHR ''b''} then be_bytes 4 (length (tv_data v)) @ tv_data v else [])"

definition encode_tuple :: "tuple_value list \<Rightarrow> string" where
  "encode_tuple row = be_bytes 2 (length row) @ concat (map encode_value row)"

definition encode_column :: "char \<Rightarrow> nat \<Rightarrow> pg_column \<Rightarrow> string" where
  "encode_column flags modifier c = flags # pc_name c @ [CHR 0x00] @ be_bytes 4 (pc_oid c) @ be_bytes 4 modifier"

definition encode_relation :: "char \<Rightarrow> (pg_column \<Rightarrow> char) \<Rightarrow> (pg_column \<Rightarrow> nat) \<Rightarrow> pg_relation \<Rightarrow> string" where
  "encode_relation ident flags modifier r =
     be_bytes 4 (pr_id r) @ pr_namespace r @ [CHR 0x00] @ pr_name r @ [CHR 0x00] @ [ident] @ be_bytes 2 (length (pr_columns r)) @
     concat (map (\<lambda>c. encode_column (flags c) (modifier c) c) (pr_columns r))"

record extras =
  ex_tail :: string
  ex_flags :: char
  ex_commit :: nat
  ex_ident :: char
  ex_colflags :: "pg_column \<Rightarrow> char"
  ex_modifier :: "pg_column \<Rightarrow> nat"

definition encode :: "extras \<Rightarrow> pg_message \<Rightarrow> string" where
  "encode x m =
     pm_kind m #
     (if pm_kind m = CHR ''B'' then be_bytes 8 (pm_finalLSN m) @ ex_tail x
      else if pm_kind m = CHR ''C'' then ex_flags x # be_bytes 8 (ex_commit x) @ be_bytes 8 (pm_endLSN m) @ ex_tail x
      else if pm_kind m = CHR ''R'' then (case pm_rel m of None \<Rightarrow> [] | Some r \<Rightarrow> encode_relation (ex_ident x) (ex_colflags x) (ex_modifier x) r)
      else if pm_kind m = CHR ''I'' then be_bytes 4 (pm_relID m) @ ''N'' @ encode_tuple (pm_newRow m)
      else if pm_kind m = CHR ''U''
      then be_bytes 4 (pm_relID m) @ (if pm_oldRow m = [] then [] else ''O'' @ encode_tuple (pm_oldRow m)) @ ''N'' @ encode_tuple (pm_newRow m)
      else be_bytes 4 (pm_relID m) @ ''K'' @ encode_tuple (pm_oldRow m))"

definition value_ok :: "tuple_value \<Rightarrow> bool" where
  "value_ok v = (tv_kind v \<in> {CHR ''n'', CHR ''u'', CHR ''t'', CHR ''b''} \<and> (tv_kind v \<in> {CHR ''n'', CHR ''u''} \<longrightarrow> tv_data v = '''') \<and>
                 length (tv_data v) < 4294967296)"

definition row_ok :: "tuple_value list \<Rightarrow> bool" where
  "row_ok row = (length row < 65536 \<and> (\<forall>v \<in> set row. value_ok v))"

definition relation_ok :: "pg_relation \<Rightarrow> bool" where
  "relation_ok r = (pr_id r < 4294967296 \<and> CHR 0x00 \<notin> set (pr_namespace r) \<and> CHR 0x00 \<notin> set (pr_name r) \<and> length (pr_columns r) < 65536 \<and>
     (\<forall>c \<in> set (pr_columns r). CHR 0x00 \<notin> set (pc_name c) \<and> pc_oid c < 4294967296))"

definition message_ok :: "pg_message \<Rightarrow> bool" where
  "message_ok m =
     ((\<exists>n. n < 18446744073709551616 \<and> m = (empty_message CHR ''B'')\<lparr>pm_finalLSN := n\<rparr>) \<or>
      (\<exists>n. n < 18446744073709551616 \<and> m = (empty_message CHR ''C'')\<lparr>pm_endLSN := n\<rparr>) \<or>
      (\<exists>r. relation_ok r \<and> m = (empty_message CHR ''R'')\<lparr>pm_rel := Some r\<rparr>) \<or>
      (\<exists>i row. i < 4294967296 \<and> row_ok row \<and> m = (empty_message CHR ''I'')\<lparr>pm_relID := i, pm_newRow := row\<rparr>) \<or>
      (\<exists>i row old. i < 4294967296 \<and> row_ok row \<and> row_ok old \<and> m = (empty_message CHR ''U'')\<lparr>pm_relID := i, pm_newRow := row, pm_oldRow := old\<rparr>) \<or>
      (\<exists>i row. i < 4294967296 \<and> row_ok row \<and> m = (empty_message CHR ''D'')\<lparr>pm_relID := i, pm_oldRow := row\<rparr>))"

lemma length_be_bytes [simp]: "length (be_bytes n x) = n"
  by (induction n arbitrary: x) auto

lemma big_endian_append: "big_endian (s @ [c]) = 256 * big_endian s + of_char c"
  by (simp add: big_endian_def)

lemma big_endian_be: "x < 256 ^ n \<Longrightarrow> big_endian (be_bytes n x) = x"
proof (induction n arbitrary: x)
  case (Suc n)
  then have "x div 256 < 256 ^ n" by (simp add: less_mult_imp_div_less mult.commute)
  with Suc.IH show ?case by (simp add: big_endian_append)
qed (simp add: big_endian_def)

lemma rd_take_append: "length s = n \<Longrightarrow> rd_take n (s @ b, None) = (s, (b, None))"
  by (simp add: rd_take_def)

lemma rd_uint_be: "x < 256 ^ n \<Longrightarrow> rd_uint n (be_bytes n x @ b, None) = (x, (b, None))"
  by (simp add: rd_uint_def rd_take_append big_endian_be)

lemma rd_u8_Cons: "rd_u8 (c # b, None) = (c, (b, None))"
  using rd_take_append [of "[c]" 1 b] by (simp add: rd_u8_def)

lemma rd_str_append: "CHR 0x00 \<notin> set s \<Longrightarrow> rd_str (s @ CHR 0x00 # b, None) = (s, (b, None))"
  by (simp add: rd_str_def CutByte_present)

lemma rd_values_encode:
  "\<forall>v \<in> set row. value_ok v \<Longrightarrow> rd_values (length row) (concat (map encode_value row) @ b, None) = (row, (b, None))"
proof (induction row)
  case (Cons v row)
  define R where "R = concat (map encode_value row) @ b"
  from Cons have ok: "value_ok v" and IH: "rd_values (length row) (R, None) = (row, (b, None))" by (auto simp: R_def)
  have R: "concat (map encode_value (v # row)) @ b = encode_value v @ R" by (simp add: R_def)
  obtain k dat where v: "v = \<lparr>tv_kind = k, tv_data = dat\<rparr>" by (cases v)
  have len: "rd_uint 4 (be_bytes 4 (length dat) @ dat @ R, None) = (length dat, (dat @ R, None))"
    using ok v rd_uint_be [of "length dat" 4 "dat @ R"] by (simp add: value_ok_def)
  from ok v consider (bare) "k = CHR ''n'' \<or> k = CHR ''u''" "dat = []" | (carry) "k = CHR ''t'' \<or> k = CHR ''b''"
    by (auto simp: value_ok_def)
  then have "rd_values (length (v # row)) (encode_value v @ R, None) = (v # row, (b, None))"
  proof cases
    case bare
    then have "encode_value v = [k]" using v by (auto simp: encode_value_def)
    with bare v IH show ?thesis by (auto simp: rd_u8_Cons)
  next
    case carry
    then have "encode_value v = k # be_bytes 4 (length dat) @ dat" using v by (auto simp: encode_value_def)
    moreover from carry have "k \<noteq> CHR ''n''" "k \<noteq> CHR ''u''" by auto
    ultimately show ?thesis using carry v IH len by (simp add: rd_u8_Cons rd_take_append)
  qed
  then show ?case by (simp only: R)
qed simp

lemma rd_tuple_encode: "row_ok row \<Longrightarrow> rd_tuple (encode_tuple row @ b, None) = (row, (b, None))"
  using rd_uint_be [of "length row" 2] by (simp add: rd_tuple_def encode_tuple_def row_ok_def rd_values_encode)

lemma rd_columns_encode:
  "\<forall>c \<in> set cs. CHR 0x00 \<notin> set (pc_name c) \<and> pc_oid c < 4294967296 \<Longrightarrow> \<forall>c \<in> set cs. mo c < 4294967296 \<Longrightarrow>
   rd_columns (length cs) (concat (map (\<lambda>c. encode_column (fg c) (mo c) c) cs) @ b, None) = (cs, (b, None))"
proof (induction cs)
  case (Cons c cs)
  then have "rd_uint 4 (be_bytes 4 (pc_oid c) @ d, None) = (pc_oid c, (d, None))" "rd_uint 4 (be_bytes 4 (mo c) @ d, None) = (mo c, (d, None))" for d
    using rd_uint_be [of "pc_oid c" 4] rd_uint_be [of "mo c" 4] by auto
  with Cons show ?case by (cases c) (simp add: encode_column_def rd_u8_Cons rd_str_append)
qed simp

lemma decode_relation_encode:
  assumes "relation_ok r" "\<forall>c. mo c < 4294967296"
  shows "decode_relation (encode_relation i fg mo r, None) = Inr ((empty_message CHR ''R'')\<lparr>pm_rel := Some r\<rparr>)"
proof -
  from assms(1) have "rd_uint 4 (be_bytes 4 (pr_id r) @ d, None) = (pr_id r, (d, None))"
    "rd_uint 2 (be_bytes 2 (length (pr_columns r)) @ d, None) = (length (pr_columns r), (d, None))" for d
    using rd_uint_be [of "pr_id r" 4] rd_uint_be [of "length (pr_columns r)" 2] by (auto simp: relation_ok_def)
  moreover have "rd_columns (length (pr_columns r)) (concat (map (\<lambda>c. encode_column (fg c) (mo c) c) (pr_columns r)), None) = (pr_columns r, ([], None))"
    using rd_columns_encode [of "pr_columns r" mo fg "[]"] assms by (simp add: relation_ok_def)
  ultimately show ?thesis using assms(1)
    by (cases r) (simp add: decode_relation_def encode_relation_def rd_str_append rd_u8_Cons finish_message_def relation_ok_def)
qed

lemma rd_relID: "i < 4294967296 \<Longrightarrow> rd_uint 4 (be_bytes 4 i @ d, None) = (i, (d, None))"
  using rd_uint_be [of i 4] by simp

lemma rd_tuple_end: "row_ok row \<Longrightarrow> rd_tuple (encode_tuple row, None) = (row, ([], None))"
  using rd_tuple_encode [of row "[]"] by simp


lemma message_ok_insert:
  "i < 4294967296 \<Longrightarrow> row_ok row \<Longrightarrow> message_ok ((empty_message CHR ''I'')\<lparr>pm_relID := i, pm_newRow := row\<rparr>)"
  unfolding message_ok_def by blast


end
