(* ===== verification/Calls.thy ===== *)
theory Calls
  imports Prelude
begin

text \<open>
  Code that makes one call after another and returns at the first error, as the connectors do: a call is a function
  of the state of the system it reaches, which may change although the call fails. \<open>then_do\<close> is
  \<open>if err != nil { return err }\<close>. A property of the state that every call keeps is kept by their composition, whatever
  fails; the rules for that are collected in \<open>call_rules\<close>.
\<close>

named_theorems call_rules

type_synonym ('s, 'e, 'a) call = "'s \<Rightarrow> ('e + 'a) \<times> 's"

definition give :: "'a \<Rightarrow> ('s, 'e, 'a) call" where
  "give a s = (Inr a, s)"

definition fails :: "'e \<Rightarrow> ('s, 'e, 'a) call" where
  "fails e s = (Inl e, s)"

definition given :: "'e + 'a \<Rightarrow> ('s, 'e, 'a) call" where
  "given r s = (r, s)"

definition then_do :: "('s, 'e, 'a) call \<Rightarrow> ('a \<Rightarrow> ('s, 'e, 'b) call) \<Rightarrow> ('s, 'e, 'b) call" where
  "then_do m k s = (case m s of (Inl e, s') \<Rightarrow> (Inl e, s') | (Inr a, s') \<Rightarrow> k a s')"

text \<open>A step whose error is looked at instead of returned.\<close>

definition look_at :: "('s, 'e, 'a) call \<Rightarrow> ('e + 'a \<Rightarrow> ('s, 'e, 'b) call) \<Rightarrow> ('s, 'e, 'b) call" where
  "look_at m k s = (case m s of (r, s') \<Rightarrow> k r s')"

lemma then_do_Inr:
  assumes "then_do m k s = (Inr b, s'')"
  obtains a s' where "m s = (Inr a, s')" "k a s' = (Inr b, s'')"
  using assms by (auto simp: then_do_def split: prod.splits sum.splits)

lemma call_simps [simp]:
  "give a s = (Inr a, s)" "fails e s = (Inl e, s)" "given r s = (r, s)"
  "then_do (give a) k = k a" "then_do (fails e) k = fails e"
  "then_do (given (Inr a)) k = k a" "then_do (given (Inl e)) k = fails e" "look_at (give a) h = h (Inr a)" "look_at (fails e) h = h (Inl e)"
  by (auto simp: give_def fails_def given_def then_do_def look_at_def fun_eq_iff)

text \<open>What a composition does is what its first call and the rest do.\<close>

definition safe_call :: "('s \<Rightarrow> bool) \<Rightarrow> ('s \<Rightarrow> 'r \<times> 's) \<Rightarrow> bool" where
  "safe_call I m = (\<forall>s. I s \<longrightarrow> I (snd (m s)))"

lemma safe_callI: "(\<And>s. I s \<Longrightarrow> I (snd (m s))) \<Longrightarrow> safe_call I m"
  by (simp add: safe_call_def)

lemma safe_callD: "safe_call I m \<Longrightarrow> I s \<Longrightarrow> m s = (r, s') \<Longrightarrow> I s'"
  by (metis safe_call_def snd_conv)

lemma safe_give [call_rules]: "safe_call I (give a)"
  by (simp add: safe_call_def)

lemma safe_fails [call_rules]: "safe_call I (fails e)"
  by (simp add: safe_call_def)

lemma safe_given [call_rules]: "safe_call I (given r)"
  by (simp add: safe_call_def)

lemma safe_then_do [call_rules]: "safe_call I m \<Longrightarrow> (\<And>a. safe_call I (k a)) \<Longrightarrow> safe_call I (then_do m k)"
  unfolding safe_call_def then_do_def by (metis (mono_tags, lifting) case_prod_unfold snd_conv sum.case_eq_if)

lemma safe_look_at [call_rules]: "safe_call I m \<Longrightarrow> (\<And>r. safe_call I (k r)) \<Longrightarrow> safe_call I (look_at m k)"
  unfolding safe_call_def look_at_def by (simp add: case_prod_unfold)

lemma safe_if [call_rules]: "(b \<Longrightarrow> safe_call I m) \<Longrightarrow> (\<not> b \<Longrightarrow> safe_call I n) \<Longrightarrow> safe_call I (if b then m else n)"
  by simp

lemma safe_option [call_rules]:
  "(x = None \<Longrightarrow> safe_call I m) \<Longrightarrow> (\<And>a. x = Some a \<Longrightarrow> safe_call I (k a)) \<Longrightarrow> safe_call I (case x of None \<Rightarrow> m | Some a \<Rightarrow> k a)"
  by (cases x) simp_all

lemma safe_sum [call_rules]:
  "(\<And>e. x = Inl e \<Longrightarrow> safe_call I (f e)) \<Longrightarrow> (\<And>a. x = Inr a \<Longrightarrow> safe_call I (k a)) \<Longrightarrow> safe_call I (case x of Inl e \<Rightarrow> f e | Inr a \<Rightarrow> k a)"
  by (cases x) simp_all

lemma safe_let [call_rules]: "safe_call I (k v) \<Longrightarrow> safe_call I (let x = v in k x)"
  by simp

lemma safe_prod [call_rules]: "(\<And>a b. x = (a, b) \<Longrightarrow> safe_call I (k a b)) \<Longrightarrow> safe_call I (case x of (a, b) \<Rightarrow> k a b)"
  by (cases x) simp

text \<open>Where a guard in between is what makes the rest safe, the first call is followed step by step.\<close>

lemma then_do_step:
  assumes "I s" "safe_call I m" "\<And>a s'. m s = (Inr a, s') \<Longrightarrow> I s' \<Longrightarrow> I (snd (k a s'))"
  shows "I (snd (then_do m k s))"
proof -
  obtain r s' where m: "m s = (r, s')" by fastforce
  with assms(1,2) have "I s'" by (metis safe_callD)
  with m assms(3) show ?thesis by (cases r) (auto simp: then_do_def)
qed

end
