(* ===== verification/Guard_World.thy ===== *)
theory Guard_World
  imports Calls Guard_Flows
begin

text \<open>
  What the guard does to the system behind it: it reaches it only through the target's operations, so a property of the
  system that these keep is kept by every sequence of commits, whatever fails in between; and a commit that is reported is one the target
  answered.
\<close>

definition target_safe :: "('w \<Rightarrow> bool) \<Rightarrow> 'w target_impl \<Rightarrow> bool" where
  "target_safe I ti \<longleftrightarrow>
     (\<forall>op key p. safe_call I (ti_Commit ti op key p)) \<and> (\<forall>f op r. ti_Confirm ti = Some f \<longrightarrow> safe_call I (f op r))"

definition world_safe :: "('w \<Rightarrow> bool) \<Rightarrow> 'w target_impl set \<Rightarrow> ('s, 'w) guard \<Rightarrow> ('s, 'w) guard_state \<Rightarrow> bool" where
  "world_safe I T g s \<longleftrightarrow>
     I (gs_world s) \<and> safe_call I (gd_Wait g) \<and> (\<forall>ti \<in> T. target_safe I ti) \<and>
     (\<forall>name t. gs_targets s name = Some t \<longrightarrow> t_Target t \<in> T)"

lemma world_safe_target: "world_safe I T g s \<Longrightarrow> ti \<in> T \<Longrightarrow> target_safe I ti"
  by (simp add: world_safe_def)

lemma world_safe_parts:
  "world_safe I T g s \<Longrightarrow> gs_world s' = gs_world s \<Longrightarrow> gs_targets s' = gs_targets s \<Longrightarrow> world_safe I T g s'"
  by (simp add: world_safe_def)

lemma world_safe_log: "world_safe I T g s \<Longrightarrow> same_but_log s s' \<Longrightarrow> world_safe I T g s'"
  by (simp add: world_safe_def same_but_log_def)

lemma world_safe_store [simp]: "world_safe I T g (s\<lparr>gs_store := st\<rparr>) = world_safe I T g s"
  by (simp add: world_safe_def)

lemma world_safe_gs_log [simp]: "world_safe I T g (s\<lparr>gs_log := l\<rparr>) = world_safe I T g s"
  by (simp add: world_safe_def)

lemma world_safe_metered [simp]: "world_safe I T g (s\<lparr>gs_metered := m\<rparr>) = world_safe I T g s"
  by (simp add: world_safe_def)

lemma world_safe_record: "world_safe I T g s \<Longrightarrow> world_safe I T g (snd (guard_record g ev s))"
  by (rule world_safe_parts) auto

lemma world_safe_set_target: "world_safe I T g s \<Longrightarrow> t_Target t \<in> T \<Longrightarrow> world_safe I T g (set_target name t s)"
  by (auto simp: world_safe_def set_target_def)

lemma world_safe_world: "world_safe I T g s \<Longrightarrow> I w \<Longrightarrow> world_safe I T g (s\<lparr>gs_world := w\<rparr>)"
  by (simp add: world_safe_def)

lemma guard_admit_world:
  assumes "guard_admit g name t s = ((e, t1), s1)" "world_safe I T g s" "t_Target t \<in> T"
  shows "world_safe I T g s1"
proof -
  obtain ws w where w: "gd_Wait g (gs_world s) = (ws, w)" by fastforce
  with assms(2) have "I w" by (auto simp: world_safe_def intro: safe_callD)
  with assms w show ?thesis
    by (auto simp: guard_admit_def Let_def split: option.splits prod.splits intro!: world_safe_set_target world_safe_world)
qed

lemma commit_call_world:
  assumes "commit_call g t actor op key req s = (r, s')" "world_safe I T g s" "t_Target t \<in> T"
  shows "world_safe I T g s'"
    and "r = Inr result \<Longrightarrow> \<exists>w w'. I w \<and> ti_Commit (t_Target t) op key (req_Payload req) w = (Inr result, w') \<and> gs_world s' = w'"
proof -
  obtain e t1 s1 where a: "guard_admit g (req_Target req) t s = ((e, t1), s1)" by (metis prod.collapse)
  note t1 = guard_admit_frame [OF a] and s1 = guard_admit_world [OF a assms(2,3)]
  obtain res w where c: "ti_Commit (t_Target t1) op key (req_Payload req) (gs_world s1) = (res, w)" by fastforce
  have I1: "I (gs_world s1)" using s1 by (simp add: world_safe_def)
  with c t1 world_safe_target [OF assms(2,3)] have "I w" by (auto simp: target_safe_def intro: safe_callD)
  with s1 have s2: "world_safe I T g (s1\<lparr>gs_world := w\<rparr>)" by (rule world_safe_world)
  show "world_safe I T g s'" using assms(1,3) a c t1 s1 s2
    by (auto simp: commit_call_def Let_def split: option.splits sum.splits prod.splits if_splits dest!: guard_record_eq
        intro!: world_safe_set_target world_safe_record intro: world_safe_parts)
  show "\<exists>w w'. I w \<and> ti_Commit (t_Target t) op key (req_Payload req) w = (Inr result, w') \<and> gs_world s' = w'" if "r = Inr result"
    using assms(1) a c t1 I1 that
    by (auto simp: commit_call_def Let_def set_target_def split: option.splits sum.splits prod.splits if_splits dest!: guard_record_eq)
qed

text \<open>What a confirmation may do after a commit was answered.\<close>

definition confirmed_by :: "'w target_impl \<Rightarrow> string \<Rightarrow> raw \<Rightarrow> 'w \<Rightarrow> 'w \<Rightarrow> bool" where
  "confirmed_by ti op result w w' \<longleftrightarrow> w' = w \<or> (\<exists>f e. ti_Confirm ti = Some f \<and> f op result w = (e, w'))"

lemma commit_perform_world:
  assumes "commit_perform g t req ap s = (c, (out, err), s')" "world_safe I T g s" "t_Target t \<in> T"
  shows "world_safe I T g s'"
    and "out_Status out = StatusCommitted \<Longrightarrow>
           \<exists>w w'. I w \<and> ti_Commit (t_Target t) (req_Operation req) (req_IdempotencyKey req) (req_Payload req) w = (Inr (out_Result out), w')
                \<and> confirmed_by (t_Target t) (req_Operation req) (out_Result out) w' (gs_world s')"
proof -
  let ?a = "guard_actor (req_Subject req)"
  obtain r s1 where call: "commit_call g t ?a (req_Operation req) (req_IdempotencyKey req) req s = (r, s1)"
    by (cases "commit_call g t ?a (req_Operation req) (req_IdempotencyKey req) req s")
  note s1 = commit_call_world(1) [OF call assms(2,3)]
  have conf: "I w" if "ti_Confirm (t_Target t) = Some f" "f op res (gs_world s1) = (e, w)" for f op res e w
  proof -
    from that(1) world_safe_target [OF assms(2,3)] have "safe_call I (f op res)" by (simp add: target_safe_def)
    from safe_callD [OF this _ that(2)] s1 show ?thesis by (simp add: world_safe_def)
  qed
  show "world_safe I T g s'" using assms(1) call s1 conf
    by (cases r) (auto simp: commit_perform_def Let_def split: option.splits prod.splits
        intro!: world_safe_record world_safe_world)
  show "\<exists>w w'. I w \<and> ti_Commit (t_Target t) (req_Operation req) (req_IdempotencyKey req) (req_Payload req) w = (Inr (out_Result out), w')
          \<and> confirmed_by (t_Target t) (req_Operation req) (out_Result out) w' (gs_world s')" if st: "out_Status out = StatusCommitted"
  proof (cases r)
    case (Inl e)
    with assms(1) call st show ?thesis by (auto simp: commit_perform_def Outcome_of_def)
  next
    case (Inr result)
    from commit_call_world(2) [OF call assms(2,3) Inr] obtain w where
      w: "I w" "ti_Commit (t_Target t) (req_Operation req) (req_IdempotencyKey req) (req_Payload req) w = (Inr result, gs_world s1)" by blast
    from assms(1) call Inr have "out_Result out = result \<and> confirmed_by (t_Target t) (req_Operation req) result (gs_world s1) (gs_world s')"
      by (auto simp: commit_perform_def Let_def Outcome_of_def confirmed_by_def split: option.splits prod.splits)
    with w show ?thesis by blast
  qed
qed

lemma guard_target_of_safe: "guard_target_of s req = Inr t \<Longrightarrow> world_safe I T g s \<Longrightarrow> t_Target t \<in> T"
  by (auto simp: guard_target_of_def world_safe_def split: if_splits option.splits)

lemma Commit_world:
  assumes "Commit g req ap s = ((out, err), s')" "world_safe I T g s"
  shows "world_safe I T g s'"
    and "out_Status out = StatusCommitted \<Longrightarrow>
           \<exists>ti r w w'. ti \<in> T \<and> generation (gd_Store g) (gs_store s) req = Inr r \<and> I w \<and>
             ti_Commit ti (req_Operation r) (req_IdempotencyKey r) (req_Payload r) w = (Inr (out_Result out), w') \<and>
             confirmed_by ti (req_Operation r) (out_Result out) w' (gs_world s')"
proof -
  have "world_safe I T g s' \<and> (out_Status out = StatusCommitted \<longrightarrow>
           (\<exists>ti r w w'. ti \<in> T \<and> generation (gd_Store g) (gs_store s) req = Inr r \<and> I w \<and>
             ti_Commit ti (req_Operation r) (req_IdempotencyKey r) (req_Payload r) w = (Inr (out_Result out), w') \<and>
             confirmed_by ti (req_Operation r) (out_Result out) w' (gs_world s')))"
    using assms(1)
  proof (cases rule: Commit_cases)
    case (run t r st c s1)
    note ts = guard_target_of_safe [OF run(1) assms(2)]
    have "world_safe I T g s1 \<and> (out_Status out = StatusCommitted \<longrightarrow>
        (\<exists>w w'. I w \<and> ti_Commit (t_Target t) (req_Operation r) (req_IdempotencyKey r) (req_Payload r) w = (Inr (out_Result out), w') \<and>
             confirmed_by (t_Target t) (req_Operation r) (out_Result out) w' (gs_world s1)))"
      using run(4)
    proof (cases rule: commit_claimed_cases)
      case stop
      with world_safe_log [OF _ stop(2), of I T g] assms(2) show ?thesis by simp
    next
      case (call dec s2)
      from world_safe_log [OF _ call(1), of I T g] assms(2) have "world_safe I T g s2" by simp
      from commit_perform_world [OF call(4) this ts] show ?thesis by blast
    qed
    with run(2,5) ts show ?thesis by (cases c) (simp_all, blast+)
  qed (use assms(2) in \<open>auto simp: Outcome_of_def intro: world_safe_record [of I T g "s\<lparr>gs_store := _\<rparr>", simplified] dest!: guard_record_eq split: if_splits\<close>)
  then show "world_safe I T g s'" "out_Status out = StatusCommitted \<Longrightarrow>
           \<exists>ti r w w'. ti \<in> T \<and> generation (gd_Store g) (gs_store s) req = Inr r \<and> I w \<and>
             ti_Commit ti (req_Operation r) (req_IdempotencyKey r) (req_Payload r) w = (Inr (out_Result out), w') \<and>
             confirmed_by ti (req_Operation r) (out_Result out) w' (gs_world s')" by auto
qed

text \<open>A sequence of commits.\<close>

definition commits :: "('s, 'w) guard \<Rightarrow> (request \<times> approval option) list \<Rightarrow> ('s, 'w) guard_state \<Rightarrow> ('s, 'w) guard_state" where
  "commits g writes s = foldl (\<lambda>t (req, ap). snd (Commit g req ap t)) s writes"

lemma commits_world: "world_safe I T g s \<Longrightarrow> world_safe I T g (commits g writes s)"
  unfolding commits_def
proof (induction writes arbitrary: s)
  case (Cons x writes)
  obtain req ap where x: "x = (req, ap)" by fastforce
  obtain out err t where c: "Commit g req ap s = ((out, err), t)" by (metis prod.collapse)
  from Commit_world(1) [OF c Cons.prems] Cons.IH [of t] x c show ?case by simp
qed simp

end
