(* ===== verification/Odoo_Writes.thy ===== *)
theory Odoo_Writes
  imports Calls Sources Guard_Flows
begin

text \<open>
  The writes of the Odoo connector (\<open>pkg/connector/odoo/odoo.go\<close>): building a record from a payload, the dry run,
  creating a record at most once per idempotency key, cancelling, confirming and reading. Odoo's answers to the calls of its
  interface are the record \<open>odoo_api\<close>, over a state of the server: a call may fail on the way, be refused with a status, or be
  answered. The connection keeps the descriptions of the models it has read. Numbers in JSON are their values (a literal \<open>1.0\<close>
  is the number 1), and the iteration order of a Go map is the order of a list.
\<close>

section \<open>Calling Odoo\<close>

datatype 'a http_answer = HttpDown goerror | HttpStatus int string string | HttpGarbled goerror | HttpBody 'a

record field_info =
  fi_Type :: string
  fi_String :: string
  fi_Required :: bool
  fi_Readonly :: bool
  fi_Relation :: string
  fi_Size :: int

type_synonym model_fields = "(string \<times> field_info) list"

text \<open>The methods the connector calls, with the arguments it gives them: a domain is a list of terms, a limit may be
  missing; a method such as \<open>action_cancel\<close> gets the ID of a record and whether the warning is disabled.\<close>

record 'w odoo_api =
  oa_fields_get :: "string \<Rightarrow> 'w \<Rightarrow> model_fields http_answer \<times> 'w"
  oa_search_read :: "string \<Rightarrow> json list \<Rightarrow> string list \<Rightarrow> nat option \<Rightarrow> 'w \<Rightarrow> doc list http_answer \<times> 'w"
  oa_search :: "string \<Rightarrow> json list \<Rightarrow> 'w \<Rightarrow> json list http_answer \<times> 'w"
  oa_create :: "string \<Rightarrow> doc \<Rightarrow> 'w \<Rightarrow> json list http_answer \<times> 'w"
  oa_read :: "string \<Rightarrow> int \<Rightarrow> string list \<Rightarrow> 'w \<Rightarrow> doc list http_answer \<times> 'w"
  oa_onchange :: "string \<Rightarrow> doc \<Rightarrow> string list \<Rightarrow> doc \<Rightarrow> 'w \<Rightarrow> (doc \<times> json) http_answer \<times> 'w"
  oa_method :: "string \<Rightarrow> string \<Rightarrow> int \<Rightarrow> bool \<Rightarrow> 'w \<Rightarrow> json http_answer \<times> 'w"

record odoo_lines =
  ln_Field :: string
  ln_From :: string
  ln_Fields :: "(string \<times> string) list"
  ln_Preview :: "string list"

record odoo_operation =
  oo_Action :: string
  oo_Model :: string
  oo_Fields :: "(string \<times> string) list"
  oo_Constants :: doc
  oo_Lines :: "odoo_lines option"
  oo_Reference :: string
  oo_Preview :: "string list"
  oo_Method :: string

text \<open>The library's reading of floating point numbers: from a JSON number and from a text.\<close>

record 'w odoo_link =
  lk_api :: "'w odoo_api"
  lk_Operations :: "string \<rightharpoonup> odoo_operation"
  lk_lib :: go_lib
  lk_Float64 :: "rat \<Rightarrow> rat option"
  lk_ParseFloat :: "string \<Rightarrow> rat option"

record 'w odoo_state =
  os_fields :: "string \<rightharpoonup> model_fields"
  os_world :: 'w

text \<open>An error, with the status when it is an \<open>APIError\<close> (0 otherwise).\<close>

record odoo_failure =
  of_Status :: int
  of_Error :: goerror

type_synonym ('w, 'a) odoo_call = "('w odoo_state, odoo_failure, 'a) call"

definition no_status :: "goerror \<Rightarrow> odoo_failure" where
  "no_status e = \<lparr>of_Status = 0, of_Error = e\<rparr>"

definition odoo_invalid :: "string \<Rightarrow> arg list \<Rightarrow> odoo_failure" where
  "odoo_invalid f as = no_status (Wrap_sentinel ErrInvalid f as)"

definition odoo_permanent :: "int \<Rightarrow> bool" where
  "odoo_permanent st = (st \<in> {400, 401, 403, 404, 422})"

definition exception_name :: "string \<Rightarrow> string" where
  "exception_name name =
     (let n = (case CutLast CHR ''.'' name of None \<Rightarrow> name | Some (_, r) \<Rightarrow> r) in if n = '''' then n else n @ '': '')"

definition odoo_error :: "string \<Rightarrow> string \<Rightarrow> int \<Rightarrow> string \<Rightarrow> string \<Rightarrow> goerror" where
  "odoo_error model meth st name msg =
     New_err ''odoo %s/%s: %d %s%s'' [AStr model, AStr meth, AInt st, AStr (exception_name name), AStr msg]"

definition odoo_answer :: "string \<Rightarrow> string \<Rightarrow> 'a http_answer \<Rightarrow> odoo_failure + 'a" where
  "odoo_answer model meth r =
     (case r of
        HttpDown e \<Rightarrow> Inl (no_status (Wrap_err ''odoo %s/%s: %w'' [AStr model, AStr meth] e))
      | HttpStatus st name msg \<Rightarrow>
          (let e = odoo_error model meth st name msg
           in Inl \<lparr>of_Status = st, of_Error = if odoo_permanent st then Wrap_sentinel ErrInvalid ''%w: %w'' [AErr (text_of e)] else e\<rparr>)
      | HttpGarbled e \<Rightarrow> Inl (no_status (Wrap_err ''odoo %s/%s: the answer is not JSON: %w'' [AStr model, AStr meth] e))
      | HttpBody a \<Rightarrow> Inr a)"

definition odoo_do :: "string \<Rightarrow> string \<Rightarrow> ('w \<Rightarrow> 'a http_answer \<times> 'w) \<Rightarrow> ('w, 'a) odoo_call" where
  "odoo_do model meth f s =
     (case f (os_world s) of (r, w) \<Rightarrow> (odoo_answer model meth r, s\<lparr>os_world := w\<rparr>))"

definition fieldsOf :: "'w odoo_link \<Rightarrow> string \<Rightarrow> ('w, model_fields) odoo_call" where
  "fieldsOf c model s =
     (case os_fields s model of
        Some f \<Rightarrow> (Inr f, s)
      | None \<Rightarrow>
          then_do (odoo_do model ''fields_get'' (oa_fields_get (lk_api c) model))
            (\<lambda>f t. (Inr f, t\<lparr>os_fields := (os_fields t)(model \<mapsto> f)\<rparr>)) s)"

section \<open>Building a record\<close>

definition operation_of :: "'w odoo_link \<Rightarrow> string \<Rightarrow> string \<Rightarrow> odoo_failure + odoo_operation" where
  "operation_of c name action =
     (case lk_Operations c name of
        None \<Rightarrow> Inl (no_status (New_err ''odoo: operation %q is not configured on this connection'' [AStr name]))
      | Some op \<Rightarrow>
          if action \<noteq> '''' \<and> oo_Action op \<noteq> action
          then Inl (no_status (New_err ''odoo: operation %q is a %s, not a %s'' [AStr name, AStr (oo_Action op), AStr action]))
          else Inr op)"

definition odoo_part :: "json \<Rightarrow> string \<Rightarrow> json" where
  "odoo_part v k = (case v of JObj m \<Rightarrow> (case map_of m k of None \<Rightarrow> JNull | Some x \<Rightarrow> x) | _ \<Rightarrow> JNull)"

definition odoo_lookup :: "doc \<Rightarrow> string \<Rightarrow> json" where
  "odoo_lookup d path = foldl odoo_part (JObj d) (Split CHR ''.'' path)"

definition bad_value :: "go_lib \<Rightarrow> string \<Rightarrow> string \<Rightarrow> json \<Rightarrow> field_info \<Rightarrow> odoo_failure" where
  "bad_value lib model field v f =
     odoo_invalid ''%w: %s.%s is a %s field, and %v is not one'' [AStr model, AStr field, AStr (fi_Type f), AStr (gl_Sprint lib v)]"

definition whole_number :: "rat \<Rightarrow> bool" where
  "whole_number n = (n = of_int \<lfloor>n\<rfloor> \<and> min_int64 \<le> \<lfloor>n\<rfloor> \<and> \<lfloor>n\<rfloor> \<le> max_int64)"

definition odoo_convert :: "'w odoo_link \<Rightarrow> string \<Rightarrow> string \<Rightarrow> json \<Rightarrow> field_info \<Rightarrow> odoo_failure + json" where
  "odoo_convert c model field v f =
     (let bad = Inl (bad_value (lk_lib c) model field v f) in
      if v = JNull then Inr (JBool False)
      else if fi_Type f \<in> {''many2one'', ''integer''}
      then (case v of
              JNum n \<Rightarrow> if whole_number n then Inr (JNum n) else bad
            | JStr x \<Rightarrow> (case Atoi (TrimSpace x) of None \<Rightarrow> bad | Some n \<Rightarrow> Inr (JNum (of_int n)))
            | _ \<Rightarrow> bad)
      else if fi_Type f \<in> {''float'', ''monetary''}
      then (case v of
              JNum n \<Rightarrow> (case lk_Float64 c n of None \<Rightarrow> bad | Some x \<Rightarrow> Inr (JNum x))
            | JStr x \<Rightarrow> (case lk_ParseFloat c (TrimSpace x) of None \<Rightarrow> bad | Some y \<Rightarrow> Inr (JNum y))
            | _ \<Rightarrow> bad)
      else if fi_Type f = ''boolean'' then (case v of JBool b \<Rightarrow> Inr (JBool b) | _ \<Rightarrow> bad)
      else if fi_Type f \<in> {''char'', ''text'', ''html'', ''selection'', ''date'', ''datetime''}
      then (case v of
              JStr x \<Rightarrow>
                if 0 < fi_Size f \<and> fi_Size f < int (length x)
                then Inl (odoo_invalid ''%w: %s.%s holds at most %d characters'' [AStr model, AStr field, AInt (fi_Size f)])
                else Inr (JStr x)
            | JNum n \<Rightarrow> Inr (JStr (gl_Number (lk_lib c) n))
            | _ \<Rightarrow> bad)
      else Inr v)"

fun mapped_values ::
  "'w odoo_link \<Rightarrow> string \<Rightarrow> model_fields \<Rightarrow> doc \<Rightarrow> (string \<times> string) list \<Rightarrow> doc \<Rightarrow> odoo_failure + doc" where
  "mapped_values c model flds d [] out = Inr out"
| "mapped_values c model flds d ((f, p) # fs) out =
     (case map_of flds f of
        None \<Rightarrow> Inl (odoo_invalid ''%w: %s has no field %s'' [AStr model, AStr f])
      | Some info \<Rightarrow>
          if odoo_lookup d p = JNull then mapped_values c model flds d fs out
          else (case odoo_convert c model f (odoo_lookup d p) info of
                  Inl e \<Rightarrow> Inl e
                | Inr v \<Rightarrow> mapped_values c model flds d fs (AList.update f v out)))"

definition odoo_values ::
  "'w odoo_link \<Rightarrow> string \<Rightarrow> model_fields \<Rightarrow> doc \<Rightarrow> (string \<times> string) list \<Rightarrow> doc \<Rightarrow> odoo_failure + doc" where
  "odoo_values c model flds d mapping constants = mapped_values c model flds d mapping constants"

definition odoo_decode :: "raw \<Rightarrow> odoo_failure + doc" where
  "odoo_decode payload =
     (case payload of
        RawDoc (JObj m) \<Rightarrow> Inr m
      | _ \<Rightarrow> Inl (odoo_invalid ''%w: the payload must be a JSON object'' []))"

fun line_commands ::
  "'w odoo_link \<Rightarrow> odoo_lines \<Rightarrow> string \<Rightarrow> model_fields \<Rightarrow> int \<Rightarrow> json list \<Rightarrow> odoo_failure + json list" where
  "line_commands c l model flds i [] = Inr []"
| "line_commands c l model flds i (x # xs) =
     (case x of
        JObj line \<Rightarrow>
          (case odoo_values c model flds line (ln_Fields l) [] of
             Inl e \<Rightarrow> Inl (e\<lparr>of_Error := Wrap_err ''%s[%d]: %w'' [AStr (ln_From l), AInt i] (of_Error e)\<rparr>)
           | Inr lv \<Rightarrow>
               (case line_commands c l model flds (i + 1) xs of
                  Inl e \<Rightarrow> Inl e
                | Inr cmds \<Rightarrow> Inr (JArr [JNum 0, JNum 0, JObj lv] # cmds)))
      | _ \<Rightarrow> Inl (odoo_invalid ''%w: %s[%d] is not an object'' [AStr (ln_From l), AInt i]))"

definition with_lines ::
  "'w odoo_link \<Rightarrow> odoo_operation \<Rightarrow> model_fields \<Rightarrow> doc \<Rightarrow> odoo_lines \<Rightarrow> doc \<Rightarrow> ('w, doc) odoo_call" where
  "with_lines c op flds d l vals =
     (let wrong = odoo_invalid ''%w: %s.%s is not a one2many field'' [AStr (oo_Model op), AStr (ln_Field l)] in
      case map_of flds (ln_Field l) of
        None \<Rightarrow> fails wrong
      | Some info \<Rightarrow>
          if fi_Type info \<noteq> ''one2many'' \<or> fi_Relation info = '''' then fails wrong
          else then_do (fieldsOf c (fi_Relation info)) (\<lambda>lineFields.
                 case odoo_lookup d (ln_From l) of
                   JArr (x # xs) \<Rightarrow>
                     then_do (given (line_commands c l (fi_Relation info) lineFields 0 (x # xs)))
                       (\<lambda>cmds. give (AList.update (ln_Field l) (JArr cmds) vals))
                 | _ \<Rightarrow> fails (odoo_invalid ''%w: %s must list at least one line'' [AStr (ln_From l)])))"

definition build_record :: "'w odoo_link \<Rightarrow> odoo_operation \<Rightarrow> raw \<Rightarrow> ('w, doc) odoo_call" where
  "build_record c op payload =
     then_do (given (odoo_decode payload)) (\<lambda>d.
     then_do (fieldsOf c (oo_Model op)) (\<lambda>flds.
     then_do (given (odoo_values c (oo_Model op) flds d (oo_Fields op) (oo_Constants op))) (\<lambda>vals.
       case oo_Lines op of None \<Rightarrow> give vals | Some l \<Rightarrow> with_lines c op flds d l vals)))"

section \<open>The dry run\<close>

definition blank_spec :: "string list \<Rightarrow> doc \<Rightarrow> doc" where
  "blank_spec fs spec = foldl (\<lambda>m f. AList.update f (JObj []) m) spec fs"

definition fields_spec :: "odoo_operation \<Rightarrow> doc \<Rightarrow> doc" where
  "fields_spec op vals =
     (let spec = blank_spec (map fst vals) (blank_spec (oo_Preview op) []) in
      case oo_Lines op of
        None \<Rightarrow> spec
      | Some l \<Rightarrow>
          if ln_Preview l = [] then spec
          else AList.update (ln_Field l) (JObj [(''fields'', JObj (blank_spec (map fst (ln_Fields l)) (blank_spec (ln_Preview l) [])))]) spec)"

definition linesOf :: "json \<Rightarrow> json list" where
  "linesOf v =
     (case v of
        JArr cmds \<Rightarrow> concat (map (\<lambda>x. case x of JArr [_, _, JObj vals] \<Rightarrow> [JObj vals] | _ \<Rightarrow> []) cmds)
      | _ \<Rightarrow> [])"

definition preview_record :: "odoo_operation \<Rightarrow> doc \<Rightarrow> doc" where
  "preview_record op res =
     (let r = foldl (\<lambda>m f. AList.update f (odoo_part (JObj res) f) m) [] (oo_Preview op) in
      case oo_Lines op of
        None \<Rightarrow> r
      | Some l \<Rightarrow> if ln_Preview l = [] then r else AList.update (ln_Field l) (case linesOf (odoo_part (JObj res) (ln_Field l)) of [] \<Rightarrow> JNull | ls \<Rightarrow> JArr ls) r)"

definition odoo_Simulate :: "'w odoo_link \<Rightarrow> string \<Rightarrow> raw \<Rightarrow> ('w, raw) odoo_call" where
  "odoo_Simulate c name payload =
     then_do (given (operation_of c name '''')) (\<lambda>op.
       if oo_Action op \<noteq> ''create'' \<or> oo_Preview op = [] then fails (no_status (Sentinel ErrSimulationUnsupported))
       else then_do (build_record c op payload) (\<lambda>vals.
            then_do (odoo_do (oo_Model op) ''onchange'' (oa_onchange (lk_api c) (oo_Model op) vals (sort (map fst vals)) (fields_spec op vals)))
              (\<lambda>(res, warning). give (RawDoc (JObj ([(''mode'', JStr ''onchange''), (''model'', JStr (oo_Model op)),
                 (''record'', JObj (preview_record op res)), (''values'', JObj vals)] @
                 (if warning \<noteq> JNull \<and> warning \<noteq> JBool False then [(''warning'', warning)] else [])))))))"

section \<open>Creating\<close>

record create_result =
  cr_Model :: string
  cr_ID :: int
  cr_Number :: string
  cr_Reference :: string
  cr_Existing :: bool
  cr_Record :: doc

definition marshal_result :: "create_result \<Rightarrow> raw" where
  "marshal_result r =
     RawDoc (JObj ([(''model'', JStr (cr_Model r)), (''id'', JNum (of_int (cr_ID r)))] @
       (if cr_Number r = '''' then [] else [(''number'', JStr (cr_Number r))]) @
       (if cr_Reference r = '''' then [] else [(''reference'', JStr (cr_Reference r))]) @
       (if cr_Existing r then [(''existing'', JBool True)] else []) @
       (if cr_Record r = [] then [] else [(''record'', JObj (cr_Record r))])))"

text \<open>Reading a field of a Go struct from an object: a missing field and null leave it as it is, another type is an error.\<close>

definition string_member :: "doc \<Rightarrow> string \<Rightarrow> string option" where
  "string_member m k = (case map_of m k of None \<Rightarrow> Some '''' | Some JNull \<Rightarrow> Some '''' | Some (JStr s) \<Rightarrow> Some s | _ \<Rightarrow> None)"

definition int_member :: "doc \<Rightarrow> string \<Rightarrow> int option" where
  "int_member m k =
     (case map_of m k of None \<Rightarrow> Some 0 | Some JNull \<Rightarrow> Some 0 | Some (JNum n) \<Rightarrow> if whole_number n then Some \<lfloor>n\<rfloor> else None | _ \<Rightarrow> None)"

definition bool_member :: "doc \<Rightarrow> string \<Rightarrow> bool option" where
  "bool_member m k = (case map_of m k of None \<Rightarrow> Some False | Some JNull \<Rightarrow> Some False | Some (JBool b) \<Rightarrow> Some b | _ \<Rightarrow> None)"

definition doc_member :: "doc \<Rightarrow> string \<Rightarrow> doc option" where
  "doc_member m k = (case map_of m k of None \<Rightarrow> Some [] | Some JNull \<Rightarrow> Some [] | Some (JObj x) \<Rightarrow> Some x | _ \<Rightarrow> None)"

definition unmarshal_result :: "raw \<Rightarrow> create_result option" where
  "unmarshal_result r =
     (case r of
        RawDoc (JObj m) \<Rightarrow>
          (case (string_member m ''model'', int_member m ''id'', string_member m ''number'', string_member m ''reference'',
                 bool_member m ''existing'', doc_member m ''record'') of
             (Some mo, Some i, Some nu, Some rf, Some ex, Some rcd) \<Rightarrow>
               Some \<lparr>cr_Model = mo, cr_ID = i, cr_Number = nu, cr_Reference = rf, cr_Existing = ex, cr_Record = rcd\<rparr>
           | _ \<Rightarrow> None)
      | _ \<Rightarrow> None)"

definition reference_term :: "string \<Rightarrow> string \<Rightarrow> json list" where
  "reference_term f key = [JArr [JStr f, JStr ''='', JStr key]]"

definition id_term :: "int \<Rightarrow> json list" where
  "id_term i = [JArr [JStr ''id'', JStr ''='', JNum (of_int i)]]"

definition odoo_existing :: "'w odoo_link \<Rightarrow> odoo_operation \<Rightarrow> string \<Rightarrow> ('w, doc option) odoo_call" where
  "odoo_existing c op key =
     then_do (odoo_do (oo_Model op) ''search_read''
                (oa_search_read (lk_api c) (oo_Model op) (reference_term (oo_Reference op) key) [''id'', ''display_name'', oo_Reference op] (Some 2)))
       (\<lambda>recs. case recs of
          [] \<Rightarrow> give None
        | [r] \<Rightarrow> give (Some r)
        | _ \<Rightarrow> fails (odoo_invalid ''%w: more than one %s has %s %s; the reference must be unique'' [AStr (oo_Model op), AStr (oo_Reference op), AStr key]))"

definition odoo_insert :: "'w odoo_link \<Rightarrow> odoo_operation \<Rightarrow> doc \<Rightarrow> create_result \<Rightarrow> ('w, raw) odoo_call" where
  "odoo_insert c op vals res =
     then_do (odoo_do (oo_Model op) ''create'' (oa_create (lk_api c) (oo_Model op) vals)) (\<lambda>ids.
       let i = (case ids of [x] \<Rightarrow> id64 (Some x) | _ \<Rightarrow> 0) in
       if i = 0 then fails (no_status (New_err ''odoo %s/create: answered %v, not one record ID'' [AStr (oo_Model op)]))
       else look_at (odoo_do (oo_Model op) ''read'' (oa_read (lk_api c) (oo_Model op) i (''display_name'' # oo_Preview op)))
              (\<lambda>r. case r of
                 Inr [rcd] \<Rightarrow> give (marshal_result (res\<lparr>cr_ID := i, cr_Record := rcd, cr_Number := str_field rcd ''display_name''\<rparr>))
               | _ \<Rightarrow> give (marshal_result (res\<lparr>cr_ID := i\<rparr>))))"

definition no_field :: field_info where
  "no_field = \<lparr>fi_Type = '''', fi_String = '''', fi_Required = False, fi_Readonly = False, fi_Relation = '''', fi_Size = 0\<rparr>"

definition new_result :: "string \<Rightarrow> create_result" where
  "new_result model = \<lparr>cr_Model = model, cr_ID = 0, cr_Number = '''', cr_Reference = '''', cr_Existing = False, cr_Record = []\<rparr>"

definition odoo_create :: "'w odoo_link \<Rightarrow> odoo_operation \<Rightarrow> string \<Rightarrow> raw \<Rightarrow> ('w, raw) odoo_call" where
  "odoo_create c op key payload =
     then_do (build_record c op payload) (\<lambda>vals.
       if oo_Reference op = '''' then odoo_insert c op vals (new_result (oo_Model op))
       else if key = '''' then fails (odoo_invalid ''%w: the write has no idempotency key for %s'' [AStr (oo_Reference op)])
       else then_do (fieldsOf c (oo_Model op)) (\<lambda>flds.
            let ref = (case map_of flds (oo_Reference op) of None \<Rightarrow> no_field | Some i \<Rightarrow> i) in
            if fi_Type ref \<noteq> ''char''
            then fails (odoo_invalid ''%w: %s.%s must be a char field to hold the idempotency key, not %q'' [AStr (oo_Model op), AStr (oo_Reference op), AStr (fi_Type ref)])
            else if 0 < fi_Size ref \<and> fi_Size ref < int (length key)
            then fails (odoo_invalid ''%w: the idempotency key %q is longer than %s.%s holds (%d)'' [AStr key, AStr (oo_Model op), AStr (oo_Reference op), AInt (fi_Size ref)])
            else then_do (odoo_existing c op key) (\<lambda>found.
                 let res = (new_result (oo_Model op))\<lparr>cr_Reference := key\<rparr> in
                 case found of
                   Some rcd \<Rightarrow> give (marshal_result (res\<lparr>cr_ID := id64 (map_of rcd ''id''), cr_Existing := True, cr_Record := rcd,
                                                          cr_Number := str_field rcd ''display_name''\<rparr>))
                 | None \<Rightarrow> odoo_insert c op (AList.update (oo_Reference op) (JStr key) vals) res)))"

section \<open>Cancelling\<close>

definition cancel_method :: "odoo_operation \<Rightarrow> string" where
  "cancel_method op = (if oo_Method op = '''' then ''action_cancel'' else oo_Method op)"

definition cancelled :: "odoo_operation \<Rightarrow> create_result \<Rightarrow> string \<Rightarrow> raw" where
  "cancelled op prior how =
     RawDoc (JObj [(''model'', JStr (oo_Model op)), (''id'', JNum (of_int (cr_ID prior))), (''method'', JStr (cancel_method op)), (how, JBool True)])"

definition odoo_cancel :: "'w odoo_link \<Rightarrow> odoo_operation \<Rightarrow> raw \<Rightarrow> ('w, raw) odoo_call" where
  "odoo_cancel c op payload =
     (case unmarshal_result payload of
        None \<Rightarrow> fails (odoo_invalid ''%w: cancel needs the result of a create'' [])
      | Some prior \<Rightarrow>
          if cr_ID prior = 0 then fails (odoo_invalid ''%w: cancel needs the result of a create'' [])
          else if cr_Model prior \<noteq> oo_Model op
          then fails (odoo_invalid ''%w: cannot cancel a %s with an operation on %s'' [AStr (cr_Model prior), AStr (oo_Model op)])
          else then_do (odoo_do (oo_Model op) ''search'' (oa_search (lk_api c) (oo_Model op) (id_term (cr_ID prior)))) (\<lambda>gone.
               if gone = [] then give (cancelled op prior ''alreadyGone'')
               else look_at (odoo_do (oo_Model op) (cancel_method op)
                               (oa_method (lk_api c) (oo_Model op) (cancel_method op) (cr_ID prior) (cancel_method op = ''action_cancel'')))
                      (\<lambda>r. case r of
                         Inl e \<Rightarrow> if of_Status e = 404 then give (cancelled op prior ''alreadyGone'') else fails e
                       | Inr (JObj action) \<Rightarrow>
                           fails (odoo_invalid ''%w: Odoo answered %s of %s %d with an action (%v) instead of cancelling it; cancel it in Odoo''
                                    [AStr (cancel_method op), AStr (oo_Model op), AInt (cr_ID prior), AStr (gl_Sprint (lk_lib c) (odoo_part (JObj action) ''res_model''))])
                       | Inr _ \<Rightarrow> give (cancelled op prior ''done''))))"

definition odoo_Commit :: "'w odoo_link \<Rightarrow> string \<Rightarrow> string \<Rightarrow> raw \<Rightarrow> ('w, raw) odoo_call" where
  "odoo_Commit c name key payload =
     then_do (given (operation_of c name '''')) (\<lambda>op.
       if oo_Action op = ''create'' then odoo_create c op key payload
       else if oo_Action op = ''cancel'' then odoo_cancel c op payload
       else fails (no_status (New_err ''odoo: operation %q is a %s, not a write'' [AStr name, AStr (oo_Action op)])))"

section \<open>Confirming and reading\<close>

definition confirm_fields :: "odoo_operation \<Rightarrow> string list" where
  "confirm_fields op =
     ''id'' # (if oo_Action op = ''create'' \<and> oo_Reference op \<noteq> '''' then [oo_Reference op]
               else if oo_Action op = ''cancel'' \<and> oo_Method op \<noteq> ''unlink'' then [''state''] else [])"

definition odoo_Confirm :: "'w odoo_link \<Rightarrow> string \<Rightarrow> raw \<Rightarrow> ('w, unit) odoo_call" where
  "odoo_Confirm c name result =
     then_do (given (operation_of c name '''')) (\<lambda>op.
       case (case result of RawDoc (JObj m) \<Rightarrow> (int_member m ''id'', string_member m ''reference'') | _ \<Rightarrow> (None, None)) of
         (Some i, Some reference) \<Rightarrow>
           if i = 0 then fails (no_status (New_err ''odoo: %s's result names no record'' [AStr name]))
           else then_do (odoo_do (oo_Model op) ''search_read'' (oa_search_read (lk_api c) (oo_Model op) (id_term i) (confirm_fields op) None)) (\<lambda>recs.
                if oo_Action op = ''cancel'' \<and> recs = [] then give ()
                else if oo_Action op = ''cancel'' \<and> oo_Method op = ''unlink''
                then fails (no_status (New_err ''%s %d still exists after unlink'' [AStr (oo_Model op), AInt i]))
                else if oo_Action op = ''cancel''
                then (if map_of (hd recs) ''state'' \<noteq> Some (JStr ''cancel'')
                      then fails (no_status (New_err ''%s %d reads back state %v after action_cancel, want cancel'' [AStr (oo_Model op), AInt i]))
                      else give ())
                else if recs = [] then fails (no_status (New_err ''%s %d is not in Odoo after the create'' [AStr (oo_Model op), AInt i]))
                else if oo_Reference op \<noteq> '''' \<and> gl_Sprint (lk_lib c) (odoo_part (JObj (hd recs)) (oo_Reference op)) \<noteq> reference
                then fails (no_status (New_err ''%s %d reads back %s %v, want %q'' [AStr (oo_Model op), AInt i, AStr (oo_Reference op), AStr reference]))
                else give ())
       | _ \<Rightarrow> fails (no_status (New_err ''odoo: %s's result names no record'' [AStr name])))"

definition odoo_Read :: "'w odoo_link \<Rightarrow> string \<Rightarrow> string \<Rightarrow> ('w, raw) odoo_call" where
  "odoo_Read c name i =
     then_do (given (operation_of c name ''get'')) (\<lambda>op.
       case Atoi i of
         None \<Rightarrow> fails (no_status (Sentinel ErrNotFound))
       | Some n \<Rightarrow>
           if n \<le> 0 then fails (no_status (Sentinel ErrNotFound))
           else look_at (odoo_do (oo_Model op) ''search_read'' (oa_search_read (lk_api c) (oo_Model op) (id_term n) (sort (map fst (oo_Fields op))) None))
                  (\<lambda>r. case r of
                     Inl e \<Rightarrow> if of_Status e = 404 then fails (no_status (Sentinel ErrNotFound)) else fails e
                   | Inr [] \<Rightarrow> fails (no_status (Sentinel ErrNotFound))
                   | Inr (rcd # _) \<Rightarrow>
                       then_do (fieldsOf c (oo_Model op)) (\<lambda>types.
                         give (RawDoc (JObj (foldl (\<lambda>out (f, as).
                           AList.update as (case odoo_part (JObj rcd) f of
                             JArr [x, y] \<Rightarrow> (if map_option fi_Type (map_of types f) = Some ''many2one'' then x else JArr [x, y])
                           | v \<Rightarrow> v) out) [] (oo_Fields op)))))))"

section \<open>The target of the guard\<close>

definition to_target :: "('w, 'a) odoo_call \<Rightarrow> 'w odoo_state \<Rightarrow> (goerror + 'a) \<times> 'w odoo_state" where
  "to_target m s = (case m s of (Inl e, s') \<Rightarrow> (Inl (of_Error e), s') | (Inr a, s') \<Rightarrow> (Inr a, s'))"

definition odoo_target :: "'w odoo_link \<Rightarrow> 'w odoo_state target_impl" where
  "odoo_target c =
     \<lparr>ti_Simulate = (\<lambda>name payload. to_target (odoo_Simulate c name payload)),
      ti_Commit = (\<lambda>name key payload. to_target (odoo_Commit c name key payload)),
      ti_Confirm = Some (\<lambda>name result s. case odoo_Confirm c name result s of (Inl e, s') \<Rightarrow> (Some (of_Error e), s') | (Inr _, s') \<Rightarrow> (None, s')),
      ti_Read = Some (\<lambda>name i s. case odoo_Read c name i s of (Inl e, s') \<Rightarrow> ((RawEmpty, Some (of_Error e)), s') | (Inr r, s') \<Rightarrow> ((r, None), s'))\<rparr>"

end
