(* ===== verification/Odoo_Props.thy ===== *)
theory Odoo_Props
  imports Odoo_Writes Guard_World
begin

text \<open>
  A create with a reference field makes one record per idempotency key, however often it is tried and whatever
  fails, also through the guard. What Odoo must do for that is the locale \<open>odoo_keys\<close>; a server that does it is defined at
  the end.
\<close>

section \<open>Results\<close>

lemma whole_number_of_int: "whole_number (of_int i) \<longleftrightarrow> min_int64 \<le> i \<and> i \<le> max_int64"
  by (simp add: whole_number_def)

lemma unmarshal_marshal:
  "min_int64 \<le> cr_ID r \<Longrightarrow> cr_ID r \<le> max_int64 \<Longrightarrow> unmarshal_result (marshal_result r) = Some r"
  by (cases r) (auto simp: unmarshal_result_def marshal_result_def string_member_def int_member_def bool_member_def doc_member_def whole_number_of_int)

section \<open>What a server keeps\<close>

text \<open>\<open>held w k\<close> is the number of records of the model whose reference field is \<open>k\<close>. Calls other than a create do not add records; the
  lookup counts up to its limit of two; a create adds the record it was given, if it is answered, and may have added it if not.\<close>

locale odoo_keys =
  fixes c :: "'w odoo_link" and model field :: string and held :: "'w \<Rightarrow> string \<Rightarrow> nat"
  assumes fields_get: "oa_fields_get (lk_api c) m w = (r1, w') \<Longrightarrow> held w' = held w"
    and search_read: "oa_search_read (lk_api c) m d fs n w = (r2, w') \<Longrightarrow> held w' = held w"
    and lookup: "oa_search_read (lk_api c) model (reference_term field k) fs (Some 2) w = (HttpBody recs, w') \<Longrightarrow> length recs = min 2 (held w k)"
    and search: "oa_search (lk_api c) m d w = (r3, w') \<Longrightarrow> held w' k \<le> held w k"
    and read: "oa_read (lk_api c) m i fs w = (r4, w') \<Longrightarrow> held w' = held w"
    and meth: "oa_method (lk_api c) m me i b w = (r5, w') \<Longrightarrow> held w' k \<le> held w k"
    and create_other: "m \<noteq> model \<Longrightarrow> oa_create (lk_api c) m vals w = (r6, w') \<Longrightarrow> held w' = held w"
    and create: "oa_create (lk_api c) model vals w = (r7, w') \<Longrightarrow> map_of vals field = Some (JStr k) \<Longrightarrow>
      held w' = held w \<or> held w' = (held w)(k := held w k + 1)"
    and created: "oa_create (lk_api c) model vals w = (HttpBody ids, w') \<Longrightarrow> map_of vals field = Some (JStr k) \<Longrightarrow> held w' k = held w k + 1"
    and field_given: "field \<noteq> ''''"
    and by_reference: "lk_Operations c name = Some op \<Longrightarrow> oo_Action op = ''create'' \<Longrightarrow> oo_Model op = model \<Longrightarrow> oo_Reference op = field"
begin

definition unique :: "'w odoo_state \<Rightarrow> bool" where
  "unique s = (\<forall>k. held (os_world s) k \<le> 1)"

text \<open>The same, and the number for one key is fixed.\<close>

definition holding :: "string \<Rightarrow> nat \<Rightarrow> 'w odoo_state \<Rightarrow> bool" where
  "holding k n s = (held (os_world s) k = n)"

lemma safe_do: "(\<And>w w' r. f w = (r, w') \<Longrightarrow> held w' = held w) \<Longrightarrow> safe_call (\<lambda>s. P (held (os_world s))) (odoo_do m me f)"
  by (rule safe_callI) (auto simp: odoo_do_def split: prod.splits)

lemma safe_do_less: "(\<And>w w' r k. f w = (r, w') \<Longrightarrow> held w' k \<le> held w k) \<Longrightarrow> safe_call unique (odoo_do m me f)"
  unfolding safe_call_def odoo_do_def unique_def by (auto split: prod.splits) (meson order_trans)

lemma safe_fieldsOf: "safe_call (\<lambda>s. P (held (os_world s))) (fieldsOf c m)"
proof (rule safe_callI)
  fix s :: "'w odoo_state"
  assume P: "P (held (os_world s))"
  have step: "safe_call (\<lambda>s. P (held (os_world s))) (odoo_do m ''fields_get'' (oa_fields_get (lk_api c) m))"
    by (rule safe_do) (rule fields_get)
  show "P (held (os_world (snd (fieldsOf c m s))))"
  proof (cases "os_fields s m")
    case None
    have "P (held (os_world (snd (then_do (odoo_do m ''fields_get'' (oa_fields_get (lk_api c) m))
        (\<lambda>f t. (Inr f, t\<lparr>os_fields := (os_fields t)(m \<mapsto> f)\<rparr>)) s))))"
      by (rule then_do_step [where I = "\<lambda>s. P (held (os_world s))", OF P step]) simp
    with None show ?thesis by (simp add: fieldsOf_def)
  qed (use P in \<open>simp add: fieldsOf_def\<close>)
qed

lemma safe_build: "safe_call (\<lambda>s. P (held (os_world s))) (build_record c op p)"
  unfolding build_record_def with_lines_def
  by (intro call_rules safe_fieldsOf) (auto split: json.splits list.splits intro!: call_rules)

lemma safe_existing: "safe_call (\<lambda>s. P (held (os_world s))) (odoo_existing c op key)"
  unfolding odoo_existing_def
  by (intro call_rules safe_do) (auto split: list.splits intro!: call_rules dest: search_read)

text \<open>Nothing found means nothing is there.\<close>

lemma existing_None:
  assumes "odoo_existing c op key s = (Inr None, s')" "oo_Model op = model" "oo_Reference op = field"
  shows "held (os_world s') key = 0"
proof -
  obtain r w where a: "oa_search_read (lk_api c) model (reference_term field key) [''id'', ''display_name'', field] (Some 2) (os_world s) = (r, w)" by fastforce
  from assms a have "r = HttpBody [] \<and> os_world s' = w"
    by (auto simp: odoo_existing_def then_do_def odoo_do_def odoo_answer_def Let_def split: http_answer.splits list.splits prod.splits)
  with lookup [of key "[''id'', ''display_name'', field]" "os_world s" "[]" w] search_read a show ?thesis by fastforce
qed

lemma existing_Some:
  assumes "odoo_existing c op key s = (Inr (Some rcd), s')" "oo_Model op = model" "oo_Reference op = field"
  shows "held (os_world s') key = 1"
proof -
  obtain r w where a: "oa_search_read (lk_api c) model (reference_term field key) [''id'', ''display_name'', field] (Some 2) (os_world s) = (r, w)" by fastforce
  from assms a have "r = HttpBody [rcd] \<and> os_world s' = w"
    by (auto simp: odoo_existing_def then_do_def odoo_do_def odoo_answer_def Let_def split: http_answer.splits list.splits prod.splits)
  with lookup [of key "[''id'', ''display_name'', field]" "os_world s" "[rcd]" w] search_read a show ?thesis by fastforce
qed

lemma after_create:
  "safe_call (\<lambda>s. P (held (os_world s)))
     (look_at (odoo_do m ''read'' (oa_read (lk_api c) m i fs)) (\<lambda>r. case r of Inr [rcd] \<Rightarrow> give (g rcd) | _ \<Rightarrow> give h))"
  by (intro call_rules safe_do) (auto split: sum.splits list.splits intro!: call_rules dest: read)

lemma insert_held:
  assumes "oo_Model op = model" "map_of vals field = Some (JStr k)" "odoo_insert c op vals res s = (r, s')"
  shows "held (os_world s') = held (os_world s) \<or> held (os_world s') = (held (os_world s))(k := held (os_world s) k + 1)"
    and "r = Inr raw \<Longrightarrow> held (os_world s') k = held (os_world s) k + 1"
proof -
  obtain a w where cr: "oa_create (lk_api c) model vals (os_world s) = (a, w)" by fastforce
  let ?s1 = "s\<lparr>os_world := w\<rparr>"
  have d: "odoo_do model ''create'' (oa_create (lk_api c) model vals) s = (odoo_answer model ''create'' a, ?s1)"
    by (simp add: odoo_do_def cr)
  let ?P = "\<lambda>h. h = held w"
  note after = safe_callD [OF after_create [where P = ?P], of ?s1, simplified]
  have h: "held (os_world s') = held w"
    using assms(1,3) d
    by (auto simp: odoo_insert_def then_do_def Let_def split: sum.splits if_splits dest: after)
  show "held (os_world s') = held (os_world s) \<or> held (os_world s') = (held (os_world s))(k := held (os_world s) k + 1)"
    using create [OF cr assms(2)] h by simp
  assume "r = Inr raw"
  with assms(1,3) d obtain ids where "a = HttpBody ids"
    by (cases a) (auto simp: odoo_insert_def then_do_def odoo_answer_def Let_def)
  with created [OF _ assms(2)] cr h show "held (os_world s') k = held (os_world s) k + 1" by auto
qed

lemma insert_other: "oo_Model op \<noteq> model \<Longrightarrow> safe_call unique (odoo_insert c op vals res)"
  unfolding odoo_insert_def unique_def
  by (intro call_rules safe_do after_create) (auto dest: create_other intro: after_create)

lemma unique_step: "held w' = held w \<or> held w' = (held w)(k := held w k + 1) \<Longrightarrow> held w k = 0 \<Longrightarrow> \<forall>k. held w k \<le> 1 \<Longrightarrow> \<forall>k. held w' k \<le> 1"
  by auto

lemma safe_as_unique: "(\<And>P. safe_call (\<lambda>s. P (held (os_world s))) m) \<Longrightarrow> safe_call unique m"
  unfolding unique_def [abs_def] by assumption

lemma create_unique:
  assumes "oo_Model op = model \<Longrightarrow> oo_Reference op = field"
  shows "safe_call unique (odoo_create c op key p)"
proof (cases "oo_Model op = model")
  case True
  have build: "safe_call unique (build_record c op p)" and flds: "safe_call unique (fieldsOf c m)" and ex: "safe_call unique (odoo_existing c op key)" for m
    by (rule safe_as_unique, rule safe_build safe_fieldsOf safe_existing)+
  have last: "unique (snd (odoo_insert c op (AList.update field (JStr key) vals) res t))"
    if "odoo_existing c op key t0 = (Inr None, t)" "unique t" for vals res t0 t
  proof -
    obtain r t' where i: "odoo_insert c op (AList.update field (JStr key) vals) res t = (r, t')" by fastforce
    from existing_None [OF that(1) True assms [OF True]] have "held (os_world t) key = 0" .
    with unique_step [OF insert_held(1) [OF True _ i]] that(2) i show ?thesis by (simp add: unique_def update_conv')
  qed
  have tail: "safe_call unique (then_do (odoo_existing c op key) (\<lambda>found. case found of
        None \<Rightarrow> odoo_insert c op (AList.update field (JStr key) vals) res | Some rcd \<Rightarrow> give (g rcd)))" for vals res g
    by (rule safe_callI, erule then_do_step [OF _ ex]) (auto split: option.splits intro: last)
  show ?thesis unfolding odoo_create_def Let_def
    by (intro call_rules build flds tail [unfolded assms [OF True, symmetric]]) (use field_given assms [OF True] in auto)
next
  case False
  have build: "safe_call unique (build_record c op p)" and flds: "safe_call unique (fieldsOf c m)" and ex: "safe_call unique (odoo_existing c op key)" for m
    by (rule safe_as_unique, rule safe_build safe_fieldsOf safe_existing)+
  from False show ?thesis unfolding odoo_create_def Let_def
    by (intro call_rules build flds ex insert_other)
qed

lemma create_held:
  assumes "odoo_create c op key p s = (Inr raw, s')" "oo_Model op = model" "oo_Reference op = field"
  shows "held (os_world s') key = 1"
proof -
  from assms(1) field_given assms(3) obtain found t vals res where
    ex: "odoo_existing c op key t = (Inr found, s') \<and> found \<noteq> None \<or>
         (\<exists>u. odoo_existing c op key t = (Inr None, u) \<and> odoo_insert c op (AList.update field (JStr key) vals) res u = (Inr raw, s'))"
    by (auto simp: odoo_create_def Let_def elim!: then_do_Inr split: if_splits option.splits) blast+
  then show ?thesis
  proof (elim disjE exE conjE)
    assume "odoo_existing c op key t = (Inr found, s')" "found \<noteq> None"
    with existing_Some [OF _ assms(2,3)] show ?thesis by auto
  next
    fix u
    assume u: "odoo_existing c op key t = (Inr None, u)" "odoo_insert c op (AList.update field (JStr key) vals) res u = (Inr raw, s')"
    from insert_held(2) [OF assms(2) _ u(2) refl] existing_None [OF u(1) assms(2,3)] show ?thesis by (simp add: update_conv')
  qed
qed

lemma cancel_unique: "safe_call unique (odoo_cancel c op p)"
  unfolding odoo_cancel_def
  by (intro call_rules safe_do_less) (auto split: sum.splits json.splits intro!: call_rules dest: search meth)

lemma operation_of_Inr: "operation_of c name '''' = Inr op \<Longrightarrow> lk_Operations c name = Some op"
  by (auto simp: operation_of_def split: option.splits if_splits)

lemma Commit_unique: "safe_call unique (odoo_Commit c name key p)"
proof (cases "operation_of c name ''''")
  case (Inl e)
  then show ?thesis by (simp add: odoo_Commit_def safe_fails)
next
  case (Inr op)
  with by_reference [OF operation_of_Inr [OF Inr]] show ?thesis
    by (auto simp: odoo_Commit_def intro!: call_rules create_unique cancel_unique)
qed

lemma Commit_held:
  assumes "odoo_Commit c name key p s = (Inr raw, s')"
  shows "\<exists>op. lk_Operations c name = Some op \<and> (oo_Action op = ''create'' \<and> oo_Model op = model \<longrightarrow> held (os_world s') key = 1)"
proof -
  from assms obtain op where op: "operation_of c name '''' = Inr op" by (cases "operation_of c name ''''") (auto simp: odoo_Commit_def)
  note look = operation_of_Inr [OF op]
  with assms op create_held [OF _ _ by_reference [OF look]] show ?thesis by (auto simp: odoo_Commit_def)
qed

lemma Confirm_keeps: "safe_call (\<lambda>s. P (held (os_world s))) (odoo_Confirm c name result)"
  unfolding odoo_Confirm_def
  by (intro call_rules safe_do) (auto split: option.splits prod.splits intro!: call_rules safe_do dest: search_read)

lemma target_confirm:
  "ti_Confirm (odoo_target c) = Some f \<Longrightarrow> f op r s = (e, s') \<Longrightarrow> held (os_world s') = held (os_world s)"
  using safe_callD [OF Confirm_keeps [where P = "\<lambda>h. h = held (os_world s)"], of s op r]
  by (auto simp: odoo_target_def split: prod.splits sum.splits)

lemma target_commit: "ti_Commit (odoo_target c) op key p s = (r, s') \<Longrightarrow> \<exists>r'. odoo_Commit c op key p s = (r', s') \<and> isl r' = isl r"
  by (auto simp: odoo_target_def to_target_def split: prod.splits sum.splits)

lemma odoo_target_safe: "target_safe unique (odoo_target c)"
  unfolding target_safe_def
proof (intro conjI allI impI safe_callI)
  fix op key p s
  assume u: "unique s"
  obtain r s' where c: "ti_Commit (odoo_target c) op key p s = (r, s')" by fastforce
  from target_commit [OF c] safe_callD [OF Commit_unique u] c show "unique (snd (ti_Commit (odoo_target c) op key p s))" by auto
next
  fix f op r s
  assume f: "ti_Confirm (odoo_target c) = Some f" and u: "unique s"
  obtain e s' where "f op r s = (e, s')" by fastforce
  with target_confirm [OF f this] u show "unique (snd (f op r s))" by (simp add: unique_def)
qed

lemma guarded_once:
  assumes "world_safe unique {odoo_target c} g s" "Commit g req ap s = ((out, err), s')" "out_Status out = StatusCommitted"
  shows "\<exists>r op. generation (gd_Store g) (gs_store s) req = Inr r \<and> lk_Operations c (req_Operation r) = Some op \<and>
           (oo_Action op = ''create'' \<and> oo_Model op = model \<longrightarrow> held (os_world (gs_world s')) (req_IdempotencyKey r) = 1)"
proof -
  from Commit_world(2) [OF assms(2,1,3)] obtain r w w' where
    r: "generation (gd_Store g) (gs_store s) req = Inr r"
       "ti_Commit (odoo_target c) (req_Operation r) (req_IdempotencyKey r) (req_Payload r) w = (Inr (out_Result out), w')"
       "confirmed_by (odoo_target c) (req_Operation r) (out_Result out) w' (gs_world s')" by auto
  from target_commit [OF r(2)] obtain raw where "odoo_Commit c (req_Operation r) (req_IdempotencyKey r) (req_Payload r) w = (Inr raw, w')"
    by (metis isl_def obj_sumE sum.disc(2))
  from Commit_held [OF this] obtain op where
    op: "lk_Operations c (req_Operation r) = Some op" "oo_Action op = ''create'' \<and> oo_Model op = model \<longrightarrow> held (os_world w') (req_IdempotencyKey r) = 1" by blast
  have "held (os_world (gs_world s')) = held (os_world w')" using r(3) target_confirm by (auto simp: confirmed_by_def)
  with op r(1) show ?thesis by auto
qed

end

section \<open>One record per key\<close>


section \<open>A server\<close>

text \<open>A table of orders with its next ID, and what happens to the calls to come, as in the database of the dispatcher.\<close>

record shop =
  sv_rows :: "(int \<times> doc) list"
  sv_next :: int
  sv_replies :: "reply list"

definition sv_call :: "(shop \<Rightarrow> 'a \<times> shop) \<Rightarrow> shop \<Rightarrow> 'a http_answer \<times> shop" where
  "sv_call f w =
     (case sv_replies w of
        [] \<Rightarrow> (case f w of (a, w') \<Rightarrow> (HttpBody a, w'))
      | Answered # rs \<Rightarrow> (case f (w\<lparr>sv_replies := rs\<rparr>) of (a, w') \<Rightarrow> (HttpBody a, w'))
      | Refused e # rs \<Rightarrow> (HttpDown e, w\<lparr>sv_replies := rs\<rparr>)
      | AnswerLost e # rs \<Rightarrow> (HttpDown e, snd (f (w\<lparr>sv_replies := rs\<rparr>))))"

definition row_matches :: "int \<times> doc \<Rightarrow> json \<Rightarrow> bool" where
  "row_matches r t =
     (case t of
        JArr [JStr f, JStr _, v] \<Rightarrow> if f = ''id'' then v = JNum (of_int (fst r)) else map_of (snd r) f = Some v
      | _ \<Rightarrow> False)"

definition rows_of :: "string \<Rightarrow> json list \<Rightarrow> shop \<Rightarrow> (int \<times> doc) list" where
  "rows_of m d w = (if m = ''sale.order'' then filter (\<lambda>r. list_all (row_matches r) d) (sv_rows w) else [])"

definition ref_field :: field_info where
  "ref_field = no_field\<lparr>fi_Type := ''char''\<rparr>"

definition shop_api :: "shop odoo_api" where
  "shop_api =
     \<lparr>oa_fields_get = (\<lambda>m. sv_call (\<lambda>w. ([(''client_order_ref'', ref_field), (''origin'', ref_field)], w))),
      oa_search_read = (\<lambda>m d fs n. sv_call (\<lambda>w.
        (map (\<lambda>(i, r). (''id'', JNum (of_int i)) # r) (case n of None \<Rightarrow> rows_of m d w | Some k \<Rightarrow> take k (rows_of m d w)), w))),
      oa_search = (\<lambda>m d. sv_call (\<lambda>w. (map (\<lambda>(i, r). JNum (of_int i)) (rows_of m d w), w))),
      oa_create = (\<lambda>m vals. sv_call (\<lambda>w.
        if m = ''sale.order'' then ([JNum (of_int (sv_next w))], w\<lparr>sv_rows := sv_rows w @ [(sv_next w, vals)], sv_next := sv_next w + 1\<rparr>)
        else ([], w))),
      oa_read = (\<lambda>m i fs. sv_call (\<lambda>w. (map snd (rows_of m (id_term i) w), w))),
      oa_onchange = (\<lambda>m vals fs spec. sv_call (\<lambda>w. (([], JNull), w))),
      oa_method = (\<lambda>m me i b. sv_call (\<lambda>w.
        (JBool True, w\<lparr>sv_rows := (if me = ''unlink'' then filter (\<lambda>r. fst r \<noteq> i) (sv_rows w)
           else map (\<lambda>(j, r). (j, if j = i then AList.update ''state'' (JStr ''cancel'') r else r)) (sv_rows w))\<rparr>)))\<rparr>"

definition order_op :: odoo_operation where
  "order_op = \<lparr>oo_Action = ''create'', oo_Model = ''sale.order'', oo_Fields = [(''origin'', ''number'')], oo_Constants = [], oo_Lines = None,
     oo_Reference = ''client_order_ref'', oo_Preview = [], oo_Method = ''''\<rparr>"

definition shop_link :: "shop odoo_link" where
  "shop_link =
     \<lparr>lk_api = shop_api,
      lk_Operations = [''create'' \<mapsto> order_op, ''cancel'' \<mapsto> order_op\<lparr>oo_Action := ''cancel''\<rparr>],
      lk_lib = \<lparr>gl_Number = (\<lambda>_. ''''), gl_Sprint = (\<lambda>v. case v of JStr s \<Rightarrow> s | _ \<Rightarrow> ''''), gl_Parse = (\<lambda>_ _. None), gl_Format = (\<lambda>_ _. '''')\<rparr>,
      lk_Float64 = Some, lk_ParseFloat = (\<lambda>_. None)\<rparr>"

definition shop_held :: "shop \<Rightarrow> string \<Rightarrow> nat" where
  "shop_held w k = length (filter (\<lambda>r. map_of (snd r) ''client_order_ref'' = Some (JStr k)) (sv_rows w))"

lemma sv_call_cases:
  assumes "sv_call f w = (r, w')"
  obtains rs a w'' where "f (w\<lparr>sv_replies := rs\<rparr>) = (a, w'')" "w' = w'' \<and> (r = HttpBody a \<or> (\<exists>e. r = HttpDown e)) \<or> w' = w\<lparr>sv_replies := rs\<rparr> \<and> (\<exists>e. r = HttpDown e)"
proof (cases "sv_replies w")
  case Nil
  then have "w\<lparr>sv_replies := []\<rparr> = w" by (cases w) simp
  with Nil assms that [of "[]"] show ?thesis by (auto simp: sv_call_def split: prod.splits)
next
  case (Cons x rs)
  obtain a w'' where "f (w\<lparr>sv_replies := rs\<rparr>) = (a, w'')" by fastforce
  with Cons assms that [of rs] show ?thesis by (cases x) (auto simp: sv_call_def)
qed

lemma shop_held_replies [simp]: "shop_held (w\<lparr>sv_replies := rs\<rparr>) = shop_held w"
  by (simp add: shop_held_def fun_eq_iff)

lemma sv_call_keeps: "sv_call (\<lambda>w. (f w, w)) w = (r, w') \<Longrightarrow> shop_held w' = shop_held w"
  by (erule sv_call_cases) auto

lemma shop_lookup:
  assumes "sv_call (\<lambda>w. (map g (take 2 (rows_of ''sale.order'' (reference_term ''client_order_ref'' k) w)), w)) w = (HttpBody recs, w')"
  shows "length recs = min 2 (shop_held w k)"
  using assms
proof (cases rule: sv_call_cases)
  case (1 rs a w'')
  then have "recs = map g (take 2 (rows_of ''sale.order'' (reference_term ''client_order_ref'' k) (w\<lparr>sv_replies := rs\<rparr>)))" by auto
  then show ?thesis by (simp add: rows_of_def reference_term_def row_matches_def shop_held_def min.commute)
qed

lemma shop_create:
  assumes "sv_call (\<lambda>w. (ids w, w\<lparr>sv_rows := sv_rows w @ [(sv_next w, vals)], sv_next := sv_next w + 1\<rparr>)) w = (r, w')"
    and "map_of vals ''client_order_ref'' = Some (JStr k)"
  shows "shop_held w' = (shop_held w)(k := Suc (shop_held w k)) \<or> shop_held w' = shop_held w \<and> (\<forall>a. r \<noteq> HttpBody a)"
  using assms by (auto elim!: sv_call_cases simp: shop_held_def fun_eq_iff)

lemma shop_method:
  assumes "sv_call (\<lambda>w. (x, w\<lparr>sv_rows := (if u then filter (\<lambda>r. fst r \<noteq> i) (sv_rows w)
           else map (\<lambda>(j, r). (j, if j = i then AList.update ''state'' v r else r)) (sv_rows w))\<rparr>)) w = (r, w')"
  shows "shop_held w' k \<le> shop_held w k"
proof -
  have "length (filter P (filter Q xs)) \<le> length (filter P xs)" for P Q and xs :: "(int \<times> doc) list"
    by (induction xs) auto
  moreover have "length (filter (\<lambda>r. map_of (snd r) ''client_order_ref'' = Some (JStr k))
      (map (\<lambda>(j, r). (j, if j = i then AList.update ''state'' v r else r)) xs)) = length (filter (\<lambda>r. map_of (snd r) ''client_order_ref'' = Some (JStr k)) xs)" for xs
    by (induction xs) (auto simp: update_conv' split: if_splits)
  ultimately show ?thesis using assms by (auto elim!: sv_call_cases simp: shop_held_def split: if_splits)
qed

lemmas shop_link_simps = shop_link_def shop_api_def order_op_def

interpretation shop: odoo_keys shop_link "''sale.order''" "''client_order_ref''" shop_held
proof unfold_locales
  fix k fs w w' and recs :: "doc list"
  assume "oa_search_read (lk_api shop_link) ''sale.order'' (reference_term ''client_order_ref'' k) fs (Some 2) w = (HttpBody recs, w')"
  then show "length recs = min 2 (shop_held w k)" by (simp add: shop_link_simps) (rule shop_lookup)
next
  fix name op
  assume "lk_Operations shop_link name = Some op" "oo_Action op = ''create''"
  then show "oo_Reference op = ''client_order_ref''" by (auto simp: shop_link_simps split: if_splits)
qed (auto simp: shop_link_simps dest: sv_call_keeps shop_method shop_create dest!: shop_create)

text \<open>A guard over it, on the table of claims: the answer to the first create is lost, and the second attempt finds the record.\<close>

definition shop_guard :: "(pg_table, shop odoo_state) guard" where
  "shop_guard =
     \<lparr>gd_Policy = (\<lambda>w i. Inr (WritebackDefault_Decide 0 i)), gd_Approver = None, gd_Audit = (\<lambda>w ev. None),
      gd_Store = pg_ops 0, gd_Validate = None, gd_Now = (\<lambda>w. 0), gd_Wait = (\<lambda>w. ([], w))\<rparr>"

definition shop_state :: "reply list \<Rightarrow> (pg_table, shop odoo_state) guard_state" where
  "shop_state replies =
     \<lparr>gs_store = (\<lambda>_. None), gs_log = [],
      gs_targets = [''erp'' \<mapsto> \<lparr>t_Target = odoo_target shop_link, t_Metered = False, t_gov = newGovernor 10 2 0,
        t_brk = newBreaker \<lparr>cfg_Failures = 0, cfg_Cooldown = 0\<rparr>\<rparr>],
      gs_metered = (\<lambda>_. 0),
      gs_world = \<lparr>os_fields = Map.empty, os_world = \<lparr>sv_rows = [], sv_next = 1, sv_replies = replies\<rparr>\<rparr>\<rparr>"

definition order_request :: request where
  "order_request = demo_request\<lparr>req_Payload := RawDoc (JObj [(''number'', JStr ''A1'')])\<rparr>"

definition shop_run :: "(outcome \<times> goerror option) \<times> (pg_table, shop odoo_state) guard_state" where
  "shop_run = Commit shop_guard order_request None
     (commits shop_guard [(order_request, None)] (shop_state [Answered, Answered, AnswerLost (New_err ''reset'' [])]))"

lemma shop_run_committed: "out_Status (fst (fst shop_run)) = StatusCommitted \<and> length (sv_rows (os_world (gs_world (snd shop_run)))) = 1"
  by code_simp


end
