(* ===== verification/Rest_Writes.thy ===== *)
theory Rest_Writes
  imports Calls Odoo_Writes Dispatch Agent
begin

text \<open>
  The writes of the REST connector (\<open>pkg/connector/rest/rest.go\<close>): filling path templates, building a request from a
  payload, finding the record a retry already made, capturing an update so that it can be undone, confirming and reading; and
  the checks of webhook deliveries (\<open>webhook.go\<close>). What the interface answers to a request is the record \<open>rest_api\<close>, over
  a state of the server, after authentication. A Go map is an association list; a payload \<open>null\<close> is the empty object.
\<close>

section \<open>Templates\<close>

datatype rest_segment = Text char | Var string string

definition name_start :: "char \<Rightarrow> bool" where
  "name_start c \<longleftrightarrow> is_alnum c \<and> \<not> is_digit c \<or> c = CHR ''_''"

text \<open>A variable at the beginning of a string, \<open>\{\{\s*([A-Za-z_][A-Za-z0-9_.]*)\s*\}\}\<close>: its name, its text and what follows it.\<close>

definition rest_hole :: "string \<Rightarrow> (string \<times> string \<times> string) option" where
  "rest_hole s =
     Option.bind (CutPrefix s ''{{'') (\<lambda>s1.
       let s2 = dropWhile tmpl_space s1; n = takeWhile path_char s2 in
       if n = [] \<or> \<not> name_start (hd n) then None
       else map_option (\<lambda>rest. (n, take (length s - length rest) s, rest)) (CutPrefix (dropWhile tmpl_space (dropWhile path_char s2)) ''}}''))"

lemma rest_hole_parts:
  assumes "rest_hole s = Some (n, raw, rest)"
  shows "s = raw @ rest" "raw \<noteq> []" "\<forall>c \<in> set raw. c = CHR ''{'' \<or> c = CHR ''}'' \<or> tmpl_space c \<or> path_char c"
proof -
  from assms obtain s1 s3 where s: "CutPrefix s ''{{'' = Some s1" "s3 = dropWhile tmpl_space (dropWhile path_char (dropWhile tmpl_space s1))"
      "CutPrefix s3 ''}}'' = Some rest" "raw = take (length s - length rest) s"
    by (auto simp: rest_hole_def bind_eq_Some_conv Let_def split: if_splits)
  have cut: "x = p @ r" if "CutPrefix x p = Some r" for x p r :: string
    using that by (auto simp: CutPrefix_def HasPrefix_def split: if_splits) (metis append_take_drop_id)
  let ?a = "takeWhile tmpl_space s1" and ?b = "takeWhile path_char (dropWhile tmpl_space s1)"
    and ?c = "takeWhile tmpl_space (dropWhile path_char (dropWhile tmpl_space s1))"
  have "s1 = ?a @ ?b @ ?c @ s3" by (simp add: s(2))
  with cut [OF s(1)] cut [OF s(3)] have eq: "s = (''{{'' @ ?a @ ?b @ ?c @ ''}}'') @ rest" by simp
  have "raw = take (length s - length rest) ((''{{'' @ ?a @ ?b @ ?c @ ''}}'') @ rest)" using s(4) eq by simp
  also have "length s - length rest = length (''{{'' @ ?a @ ?b @ ?c @ ''}}'')" by (subst eq) simp
  finally have raw: "raw = ''{{'' @ ?a @ ?b @ ?c @ ''}}''" by simp
  with eq show "s = raw @ rest" "raw \<noteq> []" by simp_all
  show "\<forall>c \<in> set raw. c = CHR ''{'' \<or> c = CHR ''}'' \<or> tmpl_space c \<or> path_char c" unfolding raw by (auto dest: set_takeWhileD)
qed

function rest_segments :: "string \<Rightarrow> rest_segment list" where
  "rest_segments [] = []"
| "rest_segments (c # cs) =
     (case rest_hole (c # cs) of
        Some (n, raw, rest) \<Rightarrow> Var n raw # rest_segments rest
      | None \<Rightarrow> Text c # rest_segments cs)"
  by pat_completeness auto

termination rest_segments
proof (relation "measure length")
  fix c and cs n raw rest :: string
  fix x y
  assume "rest_hole (c # cs) = Some x" "(n, y) = x" "(raw, rest) = y"
  then have "rest_hole (c # cs) = Some (n, raw, rest)" by simp
  note parts = rest_hole_parts(1,2) [OF this]
  from parts(1) have "length (c # cs) = length raw + length rest" by (metis length_append)
  moreover from parts(2) have "0 < length raw" by simp
  ultimately show "(rest, c # cs) \<in> measure length" by simp
qed auto

definition double_quotes :: "string \<Rightarrow> string" where
  "double_quotes s = concat (map (\<lambda>c. if c = CHR 0x27 then [c, c] else [c]) s)"

text \<open>The loop of \<open>renderWith\<close>: the names that are missing, the text and the values used; \<open>q\<close> says whether the template is inside a quoted literal.\<close>

fun rest_fill :: "go_lib \<Rightarrow> (string \<Rightarrow> string) \<Rightarrow> doc \<Rightarrow> bool \<Rightarrow> rest_segment list \<Rightarrow> string list \<times> string \<times> doc" where
  "rest_fill lib escape vars q [] = ([], [], [])"
| "rest_fill lib escape vars q (Text c # segs) =
     (case rest_fill lib escape vars (q \<noteq> (c = CHR 0x27)) segs of (missing, out, used) \<Rightarrow> (missing, c # out, used))"
| "rest_fill lib escape vars q (Var n raw # segs) =
     (let v = rest_lookup (JObj vars) n; s = rest_scalar lib v in
      case rest_fill lib escape vars q segs of
        (missing, out, used) \<Rightarrow>
          if s \<in> {'''', ''.'', ''..''} then (n # missing, out, used)
          else (missing, escape (if q then double_quotes s else s) @ out, AList.update n v used))"

record rest_failure =
  rf_Status :: int
  rf_Error :: goerror

definition rest_plain :: "goerror \<Rightarrow> rest_failure" where
  "rest_plain e = \<lparr>rf_Status = 0, rf_Error = e\<rparr>"

definition rest_invalid :: "string \<Rightarrow> arg list \<Rightarrow> rest_failure" where
  "rest_invalid f as = rest_plain (Wrap_sentinel ErrInvalid f as)"

definition renderWith :: "go_lib \<Rightarrow> (string \<Rightarrow> string) \<Rightarrow> string \<Rightarrow> doc \<Rightarrow> rest_failure + string \<times> doc" where
  "renderWith lib escape tmpl vars =
     (case rest_fill lib escape vars False (rest_segments tmpl) of
        (missing, out, used) \<Rightarrow>
          if missing \<noteq> [] then Inl (rest_invalid ''%w: path %s needs %s (not empty, \".\" or \"..\")'' [AStr tmpl, AList missing])
          else Inr (out, used))"

definition rest_render :: "go_lib \<Rightarrow> string \<Rightarrow> doc \<Rightarrow> rest_failure + string \<times> doc" where
  "rest_render lib tmpl vars = renderWith lib PathEscape tmpl vars"

definition TrimRight_char :: "char \<Rightarrow> string \<Rightarrow> string" where
  "TrimRight_char c s = rev (dropWhile (\<lambda>x. x = c) (rev s))"

definition idFrom :: "string \<Rightarrow> string" where
  "idFrom u0 =
     (let u = TrimRight_char CHR ''/'' u0;
          lst = (case CutLast CHR ''/'' u of None \<Rightarrow> u | Some (_, r) \<Rightarrow> r)
      in if HasSuffix u '')''
         then (case CutLast CHR ''('' u of
                 None \<Rightarrow> lst
               | Some (_, r) \<Rightarrow> dropWhile (\<lambda>x. x = CHR 0x27) (TrimRight_char CHR 0x27 (butlast r)))
         else lst)"

section \<open>Requests\<close>

record rest_existing_config =
  ex_Path :: string
  ex_Params :: "(string \<times> string) list"
  ex_Items :: string

record rest_capture =
  cp_Path :: string
  cp_Result :: string

record rest_operation =
  ro_Method :: string
  ro_Path :: string
  ro_Headers :: "(string \<times> string) list"
  ro_IDFrom :: string
  ro_Fields :: "(string \<times> string) list"
  ro_Wrap :: string
  ro_BodyFormat :: string
  ro_Result :: string
  ro_IdempotencyHeader :: string
  ro_Capture :: "rest_capture option"
  ro_Restore :: bool
  ro_NullValue :: "string option"
  ro_Constants :: doc
  ro_KeyField :: string
  ro_Existing :: "rest_existing_config option"

fun field_values :: "doc \<Rightarrow> (string \<times> string) list \<Rightarrow> doc \<Rightarrow> rest_failure + doc" where
  "field_values d [] b = Inr b"
| "field_values d ((api, field) # fs) b =
     (if rest_lookup (JObj d) field = JNull then Inl (rest_invalid ''%w: payload has no %s for %s'' [AStr field, AStr api])
      else field_values d fs (AList.update api (rest_lookup (JObj d) field) b))"

definition rest_values :: "rest_operation \<Rightarrow> doc \<Rightarrow> rest_failure + doc" where
  "rest_values op d =
     (if ro_Fields op = [] then (if ro_Constants op \<noteq> [] then Inr [] else Inr d)
      else field_values d (ro_Fields op) [])"

fun replaceNull :: "string \<Rightarrow> json \<Rightarrow> json" where
  "replaceNull r JNull = JStr r"
| "replaceNull r (JObj x) = JObj (map (\<lambda>(k, v). (k, replaceNull r v)) x)"
| "replaceNull r (JArr xs) = JArr (map (replaceNull r) xs)"
| "replaceNull r v = v"

text \<open>The parts of a dotted key; \<open>\.\<close> is a dot of the key, which the code keeps as a zero byte while it splits.\<close>

fun escaped_dots :: "string \<Rightarrow> string" where
  "escaped_dots (c # d # cs) =
     (if c = CHR 0x5C \<and> d = CHR ''.'' then CHR 0x00 # escaped_dots cs else c # escaped_dots (d # cs))"
| "escaped_dots cs = cs"

definition key_parts :: "string \<Rightarrow> string list" where
  "key_parts k = map (map (\<lambda>c. if c = CHR 0x00 then CHR ''.'' else c)) (Split CHR ''.'' (escaped_dots k))"

fun set_path :: "doc \<Rightarrow> string list \<Rightarrow> json \<Rightarrow> doc" where
  "set_path m [] v = m"
| "set_path m [p] v = AList.update p v m"
| "set_path m (p # q # ps) v =
     AList.update p (JObj (set_path (case map_of m p of Some (JObj c) \<Rightarrow> c | _ \<Rightarrow> []) (q # ps) v)) m"

definition nest :: "doc \<Rightarrow> doc" where
  "nest flat = foldl (\<lambda>m (k, v). set_path m (key_parts k) v) [] flat"

datatype rest_body = NoBody | JSONBody json | FormBody json

definition rest_request :: "rest_operation \<Rightarrow> doc \<Rightarrow> rest_body" where
  "rest_request op vals0 =
     (if ro_BodyFormat op = ''none'' then NoBody
      else (let vals = (if ro_Constants op \<noteq> [] \<and> \<not> ro_Restore op then foldl (\<lambda>m (k, v). AList.update k v m) vals0 (ro_Constants op) else vals0);
                body = JObj (if ro_Fields op \<noteq> [] \<or> ro_Constants op \<noteq> [] \<or> ro_Restore op then nest vals else vals);
                wrapped = (if ro_Wrap op = '''' then body else JObj [(ro_Wrap op, body)])
            in if ro_BodyFormat op = ''form'' then FormBody wrapped
               else (case ro_NullValue op of None \<Rightarrow> JSONBody wrapped | Some n \<Rightarrow> JSONBody (replaceNull n wrapped))))"

text \<open>\<open>encodeForm\<close>: the fields of a form, in the order they are set.\<close>

lemma size_enumerate: "(i, x) \<in> set (enumerate n xs) \<Longrightarrow> size x < Suc (size_list size xs)"
proof -
  assume "(i, x) \<in> set (enumerate n xs)"
  then have "snd (i, x) \<in> set (map snd (enumerate n xs))" unfolding set_map by (rule imageI)
  then have "x \<in> set xs" by simp
  then show ?thesis by (induction xs) auto
qed

lemma size_member: "(k, v) \<in> set x \<Longrightarrow> size v < Suc (size_list (size_prod (\<lambda>_. 0) size) x)"
  by (induction x) auto

function form_pairs :: "go_lib \<Rightarrow> string \<Rightarrow> json \<Rightarrow> (string \<times> string) list" where
  "form_pairs lib prefix (JObj x) =
     concat (map (\<lambda>(k, v). form_pairs lib (if prefix = '''' then k else prefix @ ''['' @ k @ '']'') v) x)"
| "form_pairs lib prefix (JArr xs) =
     concat (map (\<lambda>(i, v). form_pairs lib (prefix @ ''['' @ Itoa i @ '']'') v) (enumerate 0 xs))"
| "form_pairs lib prefix JNull = [(prefix, '''')]"
| "form_pairs lib prefix (JStr s) = [(prefix, s)]"
| "form_pairs lib prefix (JNum n) = [(prefix, gl_Number lib n)]"
| "form_pairs lib prefix (JBool b) = [(prefix, if b then ''true'' else ''false'')]"
  by pat_completeness auto

termination form_pairs
  by (relation "measure (\<lambda>(lib, prefix, v). size v)") (auto dest: size_enumerate size_member)

definition encodeForm :: "go_lib \<Rightarrow> json \<Rightarrow> (string \<times> string) list" where
  "encodeForm lib v = foldl (\<lambda>m (k, x). AList.update k x m) [] (form_pairs lib '''' v)"

section \<open>Calling the interface\<close>

datatype rest_reply =
    AuthFailed goerror
  | NotReached goerror
  | Replied int "(string \<times> string) list" string "json option"
  | Undecodable goerror

record 'w rest_link =
  rl_Send :: "string \<Rightarrow> string \<Rightarrow> (string \<times> string) list \<Rightarrow> (string \<times> string) list \<Rightarrow> rest_body \<Rightarrow> 'w \<Rightarrow> rest_reply \<times> 'w"
  rl_Operations :: "string \<rightharpoonup> rest_operation"
  rl_lib :: go_lib
  rl_Refreshable :: bool

type_synonym ('w, 'a) rest_call = "('w, rest_failure, 'a) call"

definition rest_permanent :: "int \<Rightarrow> bool" where
  "rest_permanent st = (st \<notin> {408, 409, 425, 429} \<and> 400 \<le> st \<and> st < 500)"

definition rest_answer :: "string \<Rightarrow> string \<Rightarrow> rest_reply \<Rightarrow> rest_failure + (string \<times> string) list \<times> json" where
  "rest_answer meth path r =
     (case r of
        AuthFailed e \<Rightarrow> Inl (rest_plain e)
      | NotReached e \<Rightarrow> Inl (rest_plain (Wrap_err ''%s %s: %w'' [AStr meth, AStr path] e))
      | Replied st h msg b \<Rightarrow>
          if 300 \<le> st then Inl \<lparr>rf_Status = st, rf_Error = New_err ''%s %s: HTTP %d: %s'' [AStr meth, AStr path, AInt st, AStr msg]\<rparr>
          else Inr (h, case b of None \<Rightarrow> JNull | Some v \<Rightarrow> v)
      | Undecodable e \<Rightarrow> Inl (rest_plain e))"

text \<open>A request is sent again, once, when it is answered 401 and the credential can be refreshed.\<close>

definition doH ::
  "'w rest_link \<Rightarrow> string \<Rightarrow> string \<Rightarrow> (string \<times> string) list \<Rightarrow> (string \<times> string) list \<Rightarrow> rest_body
     \<Rightarrow> ('w, (string \<times> string) list \<times> json) rest_call" where
  "doH c meth path query header body s =
     (let send = rl_Send c meth path query header body in
      case send s of
        (r, s1) \<Rightarrow>
          if rl_Refreshable c \<and> (case r of Replied st _ _ _ \<Rightarrow> st = 401 | _ \<Rightarrow> False)
          then (case send s1 of (r', s2) \<Rightarrow> (rest_answer meth path r', s2))
          else (rest_answer meth path r, s1))"

definition rest_classify :: "rest_failure \<Rightarrow> rest_failure" where
  "rest_classify f = (if rest_permanent (rf_Status f) then rest_invalid ''%w: %v'' [AErr (text_of (rf_Error f))] else f)"

definition classified :: "('w, 'a) rest_call \<Rightarrow> ('w, 'a) rest_call" where
  "classified m s = (case m s of (Inl f, s') \<Rightarrow> (Inl (rest_classify f), s') | (Inr a, s') \<Rightarrow> (Inr a, s'))"

definition rest_operation_of :: "'w rest_link \<Rightarrow> string \<Rightarrow> rest_failure + rest_operation" where
  "rest_operation_of c name =
     (case rl_Operations c name of
        None \<Rightarrow> Inl (rest_invalid ''%w: operation %q is not configured on this connection'' [AStr name])
      | Some op \<Rightarrow> Inr op)"

definition decodePayload :: "raw \<Rightarrow> rest_failure + doc" where
  "decodePayload payload =
     (case payload of
        RawDoc (JObj m) \<Rightarrow> Inr m
      | RawDoc JNull \<Rightarrow> Inr []
      | _ \<Rightarrow> Inl (rest_invalid ''%w: payload is not a JSON object: %v'' []))"

fun rest_params :: "go_lib \<Rightarrow> doc \<Rightarrow> (string \<times> string) list \<Rightarrow> rest_failure + (string \<times> string) list" where
  "rest_params lib vars [] = Inr []"
| "rest_params lib vars ((k, tmpl) # ps) =
     (case renderWith lib (\<lambda>s. s) tmpl vars of
        Inl e \<Rightarrow> Inl e
      | Inr (v, _) \<Rightarrow> (case rest_params lib vars ps of Inl e \<Rightarrow> Inl e | Inr qs \<Rightarrow> Inr ((k, v) # qs)))"

definition first_item :: "string \<Rightarrow> json \<Rightarrow> rest_failure + doc option" where
  "first_item path resp =
     (case rest_lookup resp path of
        JArr [] \<Rightarrow> Inr None
      | JArr (JObj rcd # _) \<Rightarrow> Inr (Some rcd)
      | JArr _ \<Rightarrow> Inl (rest_plain (New_err ''rest: the lookup for an existing record listed a non-object'' []))
      | _ \<Rightarrow> if emptyList resp path then Inr None
             else Inl (rest_plain (New_err ''rest: the lookup for an existing record answered without a list at %q'' [AStr path])))"

definition rest_existing :: "'w rest_link \<Rightarrow> rest_existing_config \<Rightarrow> doc \<Rightarrow> ('w, doc option) rest_call" where
  "rest_existing c e vars =
     then_do (given (rest_render (rl_lib c) (ex_Path e) vars)) (\<lambda>(path, _).
     then_do (given (rest_params (rl_lib c) vars (ex_Params e))) (\<lambda>q.
     then_do (classified (doH c ''GET'' path q [] NoBody)) (\<lambda>(_, resp). given (first_item (ex_Items e) resp))))"

definition rest_current :: "'w rest_link \<Rightarrow> rest_capture \<Rightarrow> doc \<Rightarrow> ('w, doc) rest_call" where
  "rest_current c cap vars =
     then_do (given (rest_render (rl_lib c) (cp_Path cap) vars)) (\<lambda>(path, _).
     then_do (classified (doH c ''GET'' path [] [] NoBody)) (\<lambda>(_, resp).
       case rest_lookup resp (cp_Result cap) of
         JObj rcd \<Rightarrow> give rcd
       | _ \<Rightarrow> fails (rest_plain (New_err ''rest: %s: no record at %q'' [AStr path, AStr (cp_Result cap)]))))"

definition previous :: "doc \<Rightarrow> doc \<Rightarrow> doc" where
  "previous rcd vals = map (\<lambda>(k, v). (k, rest_lookup (JObj rcd) k)) vals"

definition body_json :: "rest_body \<Rightarrow> json" where
  "body_json b = (case b of NoBody \<Rightarrow> JNull | JSONBody v \<Rightarrow> v | FormBody v \<Rightarrow> v)"

definition rest_Simulate :: "'w rest_link \<Rightarrow> string \<Rightarrow> raw \<Rightarrow> ('w, raw) rest_call" where
  "rest_Simulate c name payload =
     then_do (given (rest_operation_of c name)) (\<lambda>op.
       case ro_Capture op of
         None \<Rightarrow>
           if ro_Restore op \<or> ro_Method op = ''DELETE'' \<or> ro_Method op = ''GET'' then fails (rest_plain (Sentinel ErrSimulationUnsupported))
           else then_do (given (decodePayload payload)) (\<lambda>d.
                then_do (given (rest_values op d)) (\<lambda>vals.
                give (RawDoc (JObj [(''mode'', JStr ''request''), (''request'', JStr (ro_Method op @ '' '' @ ro_Path op)), (''body'', body_json (rest_request op vals))]))))
       | Some cap \<Rightarrow>
           then_do (given (decodePayload payload)) (\<lambda>d.
           then_do (given (rest_values op d)) (\<lambda>vals.
           then_do (rest_current c cap d) (\<lambda>rcd.
           then_do (given (rest_render (rl_lib c) (ro_Path op) d)) (\<lambda>(path, _).
           give (RawDoc (JObj [(''mode'', JStr ''preview''), (''request'', JStr (ro_Method op @ '' '' @ path)),
                                (''current'', JObj (previous rcd vals)), (''proposed'', JObj vals)])))))))"

section \<open>Committing\<close>

record update_result =
  ur_Params :: doc
  ur_Previous :: doc
  ur_Applied :: doc
  ur_Response :: json

definition marshal_update :: "update_result \<Rightarrow> raw" where
  "marshal_update r =
     RawDoc (JObj ([(''params'', JObj (ur_Params r)), (''previous'', JObj (ur_Previous r)), (''applied'', JObj (ur_Applied r))] @
       (if ur_Response r = JNull then [] else [(''response'', ur_Response r)])))"

text \<open>Reading it back: an object that is missing is Go's nil map.\<close>

definition map_member :: "doc \<Rightarrow> string \<Rightarrow> doc option option" where
  "map_member m k = (case map_of m k of None \<Rightarrow> Some None | Some JNull \<Rightarrow> Some None | Some (JObj x) \<Rightarrow> Some (Some x) | _ \<Rightarrow> None)"

definition unmarshal_update :: "raw \<Rightarrow> (doc option \<times> doc option \<times> doc option) option" where
  "unmarshal_update r =
     (case r of
        RawDoc (JObj m) \<Rightarrow>
          (case (map_member m ''params'', map_member m ''previous'', map_member m ''applied'') of
             (Some p, Some v, Some a) \<Rightarrow> Some (p, v, a)
           | _ \<Rightarrow> None)
      | RawDoc JNull \<Rightarrow> Some (None, None, None)
      | _ \<Rightarrow> None)"

text \<open>What \<open>Commit\<close> prepares: the variables of the path, the body, the values and what was captured.\<close>

definition sent_values :: "rest_operation \<Rightarrow> string \<Rightarrow> doc \<Rightarrow> doc" where
  "sent_values op key vals = (if ro_KeyField op = '''' then vals else AList.update (ro_KeyField op) (JStr key) vals)"

definition commit_parts ::
  "'w rest_link \<Rightarrow> rest_operation \<Rightarrow> string \<Rightarrow> string \<Rightarrow> raw \<Rightarrow> doc \<Rightarrow> ('w, doc \<times> rest_body \<times> doc \<times> doc option) rest_call" where
  "commit_parts c op name key payload d =
     (if ro_Restore op
      then (case unmarshal_update payload of
              Some (Some params, Some prev, _) \<Rightarrow> give (params, rest_request op prev, [], None)
            | _ \<Rightarrow> fails (rest_invalid ''%w: restore needs a captured update's result'' []))
      else if ro_Method op = ''DELETE'' then give (d, NoBody, [], None)
      else then_do (given (rest_values op d)) (\<lambda>vals.
             if ro_KeyField op \<noteq> '''' \<and> key = ''''
             then fails (rest_invalid ''%w: %s stores the idempotency key in %s, and the write has none'' [AStr name, AStr (ro_KeyField op)])
             else (let body = rest_request op (sent_values op key vals) in
                   case ro_Capture op of
                     None \<Rightarrow> give (d, body, vals, None)
                   | Some cap \<Rightarrow> then_do (rest_current c cap d) (\<lambda>rcd. give (d, body, vals, Some (previous rcd vals))))))"

definition str_contains :: "string \<Rightarrow> string \<Rightarrow> bool" where
  "str_contains s t = list_ex (\<lambda>i. HasPrefix (drop i s) t) [0..<Suc (length s)]"

definition commit_vars :: "rest_operation \<Rightarrow> string \<Rightarrow> doc \<Rightarrow> doc" where
  "commit_vars op key vars =
     (if key \<noteq> '''' \<and> (str_contains (ro_Path op) ''idempotencyKey'' \<or> ro_Existing op \<noteq> None)
      then AList.update ''idempotencyKey'' (JStr key) vars else vars)"

definition commit_header :: "rest_operation \<Rightarrow> string \<Rightarrow> (string \<times> string) list" where
  "commit_header op key =
     (if ro_IdempotencyHeader op \<noteq> '''' \<and> key \<noteq> '''' then AList.update (ro_IdempotencyHeader op) key (ro_Headers op) else ro_Headers op)"

definition commit_result ::
  "rest_operation \<Rightarrow> string \<Rightarrow> string \<Rightarrow> doc \<Rightarrow> doc \<Rightarrow> doc option \<Rightarrow> (string \<times> string) list \<times> json \<Rightarrow> rest_failure + raw" where
  "commit_result op name path params vals captured answer =
     (case answer of
        (header, resp) \<Rightarrow>
          (let found = rest_lookup resp (ro_Result op);
               u = (case map_of header (ro_IDFrom op) of None \<Rightarrow> '''' | Some u \<Rightarrow> u)
           in if ro_IDFrom op \<noteq> '''' \<and> found = JNull \<and> u = ''''
              then Inl (rest_plain (New_err ''rest: %s answered without a body or a %s header'' [AStr name, AStr (ro_IDFrom op)]))
              else (let result = (if ro_IDFrom op \<noteq> '''' \<and> found = JNull then JObj [(''id'', JStr (idFrom u)), (''url'', JStr u)] else found) in
                    case captured of
                      Some prev \<Rightarrow> Inr (marshal_update \<lparr>ur_Params = params, ur_Previous = prev, ur_Applied = vals, ur_Response = result\<rparr>)
                    | None \<Rightarrow>
                        if ro_Restore op then Inr (RawDoc (JObj [(''restored'', JObj params), (''response'', result)]))
                        else if result = JNull then Inr (RawDoc (JObj [(''request'', JStr (ro_Method op @ '' '' @ path)), (''params'', JObj params)]))
                        else Inr (RawDoc result))))"

definition rest_Commit :: "'w rest_link \<Rightarrow> string \<Rightarrow> string \<Rightarrow> raw \<Rightarrow> ('w, raw) rest_call" where
  "rest_Commit c name key payload =
     then_do (given (rest_operation_of c name)) (\<lambda>op.
       if ro_Method op = ''GET'' then fails (rest_invalid ''%w: %s is a read'' [AStr name])
       else then_do (given (decodePayload payload)) (\<lambda>d.
            then_do (commit_parts c op name key payload d) (\<lambda>(vars0, body, vals, captured).
            let vars = commit_vars op key vars0 in
            then_do (given (rest_render (rl_lib c) (ro_Path op) vars)) (\<lambda>(path, params).
            then_do (case ro_Existing op of None \<Rightarrow> give None | Some e \<Rightarrow> rest_existing c e vars) (\<lambda>found.
            case found of
              Some rcd \<Rightarrow> give (RawDoc (JObj (AList.update ''existing'' (JBool True) rcd)))
            | None \<Rightarrow> then_do (classified (doH c (ro_Method op) path [] (commit_header op key) body))
                        (\<lambda>answer. given (commit_result op name path params vals captured answer)))))))"

section \<open>Confirming and reading\<close>

text \<open>JSON values are compared as values: the order of the fields of an object does not matter.\<close>

fun canonical :: "json \<Rightarrow> json" where
  "canonical (JObj x) = JObj (sort_key fst (map (\<lambda>(k, v). (k, canonical v)) x))"
| "canonical (JArr xs) = JArr (map canonical xs)"
| "canonical v = v"

definition sameJSON :: "json \<Rightarrow> json \<Rightarrow> bool" where
  "sameJSON a b = (canonical a = canonical b)"

fun applied_ok :: "'w rest_link \<Rightarrow> rest_operation \<Rightarrow> string \<Rightarrow> doc \<Rightarrow> doc \<Rightarrow> rest_failure option" where
  "applied_ok c op name rcd [] = None"
| "applied_ok c op name rcd ((k, want) # ws) =
     (let got = rest_lookup (JObj rcd) k in
      if \<not> sameJSON got want \<and> \<not> (ro_BodyFormat op = ''form'' \<and> rest_scalar (rl_lib c) got = rest_scalar (rl_lib c) want)
      then Some (rest_plain (New_err ''rest: %s reads back %s = %v, want %v'' [AStr name, AStr k]))
      else applied_ok c op name rcd ws)"

definition rest_Confirm :: "'w rest_link \<Rightarrow> string \<Rightarrow> raw \<Rightarrow> ('w, unit) rest_call" where
  "rest_Confirm c name result =
     (case rl_Operations c name of
        None \<Rightarrow> give ()
      | Some op \<Rightarrow>
          (case ro_Capture op of
             None \<Rightarrow> give ()
           | Some cap \<Rightarrow>
               if ro_Restore op then give ()
               else (case unmarshal_update result of
                       None \<Rightarrow> fails (rest_plain (New_err ''json'' []))
                     | Some (params, _, applied) \<Rightarrow>
                         then_do (rest_current c cap (case params of None \<Rightarrow> [] | Some p \<Rightarrow> p)) (\<lambda>rcd.
                           case applied_ok c op name rcd (case applied of None \<Rightarrow> [] | Some a \<Rightarrow> a) of
                             None \<Rightarrow> give ()
                           | Some e \<Rightarrow> fails e))))"

definition rest_Read :: "'w rest_link \<Rightarrow> string \<Rightarrow> string \<Rightarrow> ('w, raw) rest_call" where
  "rest_Read c name i =
     (case rl_Operations c name of
        None \<Rightarrow> fails (rest_plain (New_err ''rest: %s is not a read on this connection'' [AStr name]))
      | Some op \<Rightarrow>
          if ro_Method op \<noteq> ''GET'' then fails (rest_plain (New_err ''rest: %s is not a read on this connection'' [AStr name]))
          else (case rest_render (rl_lib c) (ro_Path op) [(''id'', JStr i)] of
                  Inl _ \<Rightarrow> fails (rest_plain (Sentinel ErrNotFound))
                | Inr (path, _) \<Rightarrow>
                    look_at (doH c ''GET'' path [] (ro_Headers op) NoBody) (\<lambda>r.
                      case r of
                        Inl e \<Rightarrow> if rf_Status e = 404 \<or> rf_Status e = 410 then fails (rest_plain (Sentinel ErrNotFound)) else fails e
                      | Inr (_, resp) \<Rightarrow>
                          (case rest_lookup resp (ro_Result op) of
                             JObj rcd \<Rightarrow>
                               if ro_Fields op = [] then give (RawDoc (JObj rcd))
                               else give (RawDoc (JObj (foldl (\<lambda>m (api, as). AList.update as (rest_lookup (JObj rcd) api) m) [(''id'', JStr i)] (ro_Fields op))))
                           | _ \<Rightarrow> fails (rest_plain (Sentinel ErrNotFound))))))"

definition rest_target :: "'w rest_link \<Rightarrow> 'w target_impl" where
  "rest_target c =
     \<lparr>ti_Simulate = (\<lambda>name payload s. case rest_Simulate c name payload s of (Inl e, s') \<Rightarrow> (Inl (rf_Error e), s') | (Inr r, s') \<Rightarrow> (Inr r, s')),
      ti_Commit = (\<lambda>name key payload s. case rest_Commit c name key payload s of (Inl e, s') \<Rightarrow> (Inl (rf_Error e), s') | (Inr r, s') \<Rightarrow> (Inr r, s')),
      ti_Confirm = Some (\<lambda>name result s. case rest_Confirm c name result s of (Inl e, s') \<Rightarrow> (Some (rf_Error e), s') | (Inr _, s') \<Rightarrow> (None, s')),
      ti_Read = Some (\<lambda>name i s. case rest_Read c name i s of (Inl e, s') \<Rightarrow> ((RawEmpty, Some (rf_Error e)), s') | (Inr r, s') \<Rightarrow> ((r, None), s'))\<rparr>"

section \<open>Webhooks\<close>

record webhook_settings =
  wh_Signature :: string
  wh_SecretRef :: string
  wh_Header :: string
  wh_Encoding :: string
  wh_Prefix :: string
  wh_ToleranceSeconds :: int
  wh_Items :: string
  wh_Filter :: "(string \<times> string) list"

definition rest_fieldRE :: "string \<Rightarrow> bool" where
  "rest_fieldRE s = (s \<noteq> [] \<and> name_start (hd s) \<and> list_all path_char s)"

definition hook_validate :: "webhook_settings \<Rightarrow> goerror option" where
  "hook_validate w =
     (if wh_Signature w \<notin> {''stripe'', ''shopify'', ''hmac-sha256''}
      then Some (New_err ''signature must be stripe, shopify or hmac-sha256, not %q'' [AStr (wh_Signature w)])
      else if wh_Signature w = ''hmac-sha256'' \<and> wh_Header w = '''' then Some (New_err ''an hmac-sha256 signature needs its header'' [])
      else if wh_Signature w = ''hmac-sha256'' \<and> wh_Encoding w \<notin> {'''', ''hex'', ''base64''} then Some (New_err ''encoding must be hex or base64'' [])
      else if wh_SecretRef w = '''' then Some (New_err ''secretRef is required: deliveries are only accepted when signed'' [])
      else map_option (\<lambda>(k, _). New_err ''invalid filter field %q'' [AStr k]) (find (\<lambda>(k, _). \<not> rest_fieldRE k) (wh_Filter w)))"

record rest_webhook =
  wb_event :: string
  wb_idPath :: string
  wb_cfg :: webhook_settings
  wb_secret :: string
  wb_err :: "goerror option"

text \<open>The library: HMAC-SHA-256 of a text under a secret, base64, decoding JSON.\<close>

record hook_lib =
  hl_mac :: "string \<Rightarrow> string \<Rightarrow> string"
  hl_base64 :: "string \<Rightarrow> string option"
  hl_json :: "string \<Rightarrow> json option"
  hl_lib :: go_lib

fun hex_DecodeString :: "string \<Rightarrow> string option" where
  "hex_DecodeString [] = Some []"
| "hex_DecodeString [c] = None"
| "hex_DecodeString (a # b # cs) =
     (case (hex_val a, hex_val b) of
        (Some x, Some y) \<Rightarrow> map_option (\<lambda>r. char_of (16 * x + y) # r) (hex_DecodeString cs)
      | _ \<Rightarrow> None)"

definition header_get :: "(string \<times> string) list \<Rightarrow> string \<Rightarrow> string" where
  "header_get h k = (case map_of h k of None \<Rightarrow> '''' | Some v \<Rightarrow> v)"

fun stripe_parts :: "string list \<Rightarrow> string \<Rightarrow> string list \<Rightarrow> string \<times> string list" where
  "stripe_parts [] ts sigs = (ts, sigs)"
| "stripe_parts (kv # kvs) ts sigs =
     (case CutByte CHR ''='' (TrimSpace kv) of
        (k, r) \<Rightarrow>
          (let v = (case r of None \<Rightarrow> '''' | Some x \<Rightarrow> x) in
           if k = ''t'' then stripe_parts kvs v sigs
           else if k = ''v1'' then stripe_parts kvs ts (sigs @ [v])
           else stripe_parts kvs ts sigs))"

definition stripe_tolerance :: "webhook_settings \<Rightarrow> int" where
  "stripe_tolerance w = (if wh_ToleranceSeconds w \<le> 0 then 300 else wh_ToleranceSeconds w)"

text \<open>\<open>verify\<close>: whether a delivery is authentic; every error wraps \<open>ErrUnauthenticated\<close>. The difference of the times wraps around.\<close>

definition hook_verify :: "hook_lib \<Rightarrow> rest_webhook \<Rightarrow> (string \<times> string) list \<Rightarrow> string \<Rightarrow> int \<Rightarrow> bool" where
  "hook_verify lib w header body now =
     (let cfg = wb_cfg w in
      if wh_Signature cfg = ''stripe''
      then (case stripe_parts (Split CHR '','' (header_get header ''Stripe-Signature'')) '''' [] of
              (ts, sigs) \<Rightarrow>
                (case Atoi ts of
                   None \<Rightarrow> False
                 | Some t \<Rightarrow>
                     if sigs = [] then False
                     else (let d = wrap64 (now div 1000000000 - t) in
                           if stripe_tolerance cfg < d \<or> d < - stripe_tolerance cfg then False
                           else list_ex (\<lambda>s. hex_DecodeString s = Some (hl_mac lib (wb_secret w) (ts @ ''.'' @ body))) sigs)))
      else if wh_Signature cfg = ''shopify''
      then hl_base64 lib (header_get header ''X-Shopify-Hmac-Sha256'') = Some (hl_mac lib (wb_secret w) body)
      else (case CutPrefix (header_get header (wh_Header cfg)) (wh_Prefix cfg) of
              None \<Rightarrow> False
            | Some v \<Rightarrow>
                v \<noteq> '''' \<and> (if wh_Encoding cfg = ''base64'' then hl_base64 lib v else hex_DecodeString v) = Some (hl_mac lib (wb_secret w) body)))"

definition hook_matches :: "hook_lib \<Rightarrow> rest_webhook \<Rightarrow> doc \<Rightarrow> bool" where
  "hook_matches lib w item =
     list_all (\<lambda>(k, want). rest_scalar (hl_lib lib) (rest_lookup (JObj item) k) = want) (wh_Filter (wb_cfg w))"

fun hook_items :: "hook_lib \<Rightarrow> rest_webhook \<Rightarrow> json list \<Rightarrow> goerror + run_event list" where
  "hook_items lib w [] = Inr []"
| "hook_items lib w (it # its) =
     (case it of
        JObj item \<Rightarrow>
          if \<not> hook_matches lib w item then hook_items lib w its
          else (let i = rest_scalar (hl_lib lib) (rest_lookup it (wb_idPath w)) in
                if i = '''' then Inl (New_err ''rest: webhook for %s: item without %s'' [AStr (wb_event w), AStr (wb_idPath w)])
                else (case hook_items lib w its of
                        Inl e \<Rightarrow> Inl e
                      | Inr evs \<Rightarrow> Inr (\<lparr>re_ID = i, re_Position = 0, re_Name = wb_event w, re_Payload = RawDoc it\<rparr> # evs)))
      | _ \<Rightarrow> hook_items lib w its)"

definition hook_Receive :: "hook_lib \<Rightarrow> rest_webhook \<Rightarrow> (string \<times> string) list \<Rightarrow> string \<Rightarrow> int \<Rightarrow> received" where
  "hook_Receive lib w header body now =
     (if \<not> hook_verify lib w header body now then Unauthenticated
      else case hl_json lib body of
             None \<Rightarrow> Unusable (New_err ''rest: webhook for %s: body is not JSON: %w'' [AStr (wb_event w)])
           | Some d \<Rightarrow>
               (case (case rest_lookup d (wh_Items (wb_cfg w)) of
                        JArr xs \<Rightarrow> hook_items lib w xs
                      | JObj m \<Rightarrow> hook_items lib w [JObj m]
                      | _ \<Rightarrow> Inl (New_err ''rest: webhook for %s: no item at %q'' [AStr (wb_event w), AStr (wh_Items (wb_cfg w))])) of
                  Inl e \<Rightarrow> Unusable e
                | Inr evs \<Rightarrow> Events evs))"

end
