(* ===== verification/Rest_Props.thy ===== *)
theory Rest_Props
  imports Rest_Writes "HOL-Library.Sublist"
begin

text \<open>
  The REST connector's promises: a value in a path cannot leave its segment, the body of a request holds every value where it
  belongs, a create that looks its key up is made once per key, an update's undo sends back what was there, and a
  delivery is accepted only with a valid signature.
\<close>

section \<open>Paths\<close>

definition plain_lib :: go_lib where
  "plain_lib = \<lparr>gl_Number = (\<lambda>_. ''''), gl_Sprint = (\<lambda>_. ''''), gl_Parse = (\<lambda>_ _. None), gl_Format = (\<lambda>_ _. '''')\<rparr>"

definition seg_text :: "rest_segment \<Rightarrow> string" where
  "seg_text seg = (case seg of Text c \<Rightarrow> [c] | Var n raw \<Rightarrow> raw)"

text \<open>Only dots, and at most two of them: what a server may read as a step up.\<close>

definition dot_like :: "string \<Rightarrow> bool" where
  "dot_like p \<longleftrightarrow> length p \<le> 2 \<and> set p \<subseteq> {CHR ''.''}"

definition stays :: "string \<Rightarrow> string \<Rightarrow> bool" where
  "stays t p \<longleftrightarrow> p = t \<or> \<not> dot_like p"

lemma dot_like_cases: "dot_like s \<longleftrightarrow> s \<in> {'''', ''.'', ''..''}"
proof
  assume d: "dot_like s"
  then consider "s = []" | a where "s = [a]" | a b where "s = [a, b]"
    by (cases s; cases "tl s"; cases "tl (tl s)") (auto simp: dot_like_def)
  then show "s \<in> {'''', ''.'', ''..''}" using d by cases (auto simp: dot_like_def)
qed (auto simp: dot_like_def)

lemma hex_digit_not_slash: "n < 16 \<Longrightarrow> hex_digit n \<noteq> CHR ''/''"
proof
  assume "n < 16" "hex_digit n = CHR ''/''"
  then have "(of_char (hex_digit n) :: nat) = 47" by simp
  with \<open>n < 16\<close> show False by (simp add: hex_digit_def split: if_splits)
qed

lemma escape_char_no_slash: "CHR ''/'' \<notin> set (escape_char c)"
proof (cases "shouldEscape c")
  case True
  have "(of_char c :: nat) mod 256 = of_char c" by simp
  then have "(of_char c :: nat) < 256" by (metis mod_less_divisor zero_less_numeral)
  then have "(of_char c :: nat) div 16 < 16" "(of_char c :: nat) mod 16 < 16" by (simp_all add: less_mult_imp_div_less)
  note this [THEN hex_digit_not_slash]
  with True show ?thesis by (simp add: escape_char_def Let_def eq_commute [of "CHR ''/''"])
next
  case False
  then show ?thesis by (auto simp: escape_char_def shouldEscape_def is_alnum_def is_digit_def Let_def)
qed

lemma PathEscape_no_slash: "CHR ''/'' \<notin> set (PathEscape s)"
  using escape_char_no_slash by (auto simp: PathEscape_def)

lemma escape_char_dots: "set (escape_char c) \<subseteq> {CHR ''.''} \<Longrightarrow> c = CHR ''.'' \<and> escape_char c = [CHR ''.'']"
  by (auto simp: escape_char_def Let_def split: if_splits)

lemma PathEscape_dot_like: "dot_like (PathEscape s) \<Longrightarrow> dot_like s"
proof -
  assume d: "dot_like (PathEscape s)"
  then have "\<forall>c \<in> set s. c = CHR ''.'' \<and> escape_char c = [CHR ''.'']" by (auto simp: dot_like_def PathEscape_def intro!: escape_char_dots)
  moreover from this have "map escape_char s = map (\<lambda>c. [c]) s" by auto
  then have "PathEscape s = concat (map (\<lambda>c. [c]) s)" by (simp only: PathEscape_def)
  then have "PathEscape s = s" by simp
  ultimately show ?thesis using d by simp
qed

lemma double_quotes_dot_like: "dot_like (double_quotes s) \<Longrightarrow> dot_like s"
proof -
  assume d: "dot_like (double_quotes s)"
  then have "\<forall>c \<in> set s. c \<noteq> CHR 0x27" by (fastforce simp: dot_like_def double_quotes_def split: if_splits)
  then have "map (\<lambda>c. if c = CHR 0x27 then [c, c] else [c]) s = map (\<lambda>c. [c]) s" by auto
  then have "double_quotes s = concat (map (\<lambda>c. [c]) s)" by (simp only: double_quotes_def)
  with d show ?thesis by simp
qed

lemma hole_not_dot_like: "s \<notin> {'''', ''.'', ''..''} \<Longrightarrow> \<not> dot_like (PathEscape (if q then double_quotes s else s))"
  using PathEscape_dot_like double_quotes_dot_like dot_like_cases by (metis (full_types))

lemma Split_append: "c \<notin> set a \<Longrightarrow> Split c (a @ t) = (a @ hd (Split c t)) # tl (Split c t)"
proof (induction a)
  case Nil
  then show ?case by (cases "Split c t") simp_all
qed auto

lemma stays_append: "\<not> dot_like h \<Longrightarrow> stays (raw @ t) (h @ p)"
  by (auto simp: stays_def dot_like_def)

lemma stays_Cons: "stays t p \<Longrightarrow> stays (c # t) (c # p)"
  by (auto simp: stays_def dot_like_def)

lemma rest_hole_no_slash: "rest_hole s = Some (n, raw, rest) \<Longrightarrow> CHR ''/'' \<notin> set raw"
proof
  assume h: "rest_hole s = Some (n, raw, rest)" and m: "CHR ''/'' \<in> set raw"
  from bspec [OF rest_hole_parts(3) [OF h] m] have "tmpl_space CHR ''/'' \<or> path_char CHR ''/''" by simp
  moreover have "\<not> tmpl_space CHR ''/''" "\<not> path_char CHR ''/''" by code_simp+
  ultimately show False by blast
qed

lemma fill_stays:
  "rest_fill lib PathEscape vars q (rest_segments t) = ([], out, used) \<Longrightarrow> list_all2 stays (Split CHR ''/'' t) (Split CHR ''/'' out)"
proof (induction t arbitrary: q out used rule: rest_segments.induct)
  case 1
  then show ?case by (simp add: stays_def)
next
  case (2 c cs)
  show ?case
  proof (cases "rest_hole (c # cs)")
    case None
    then obtain m o' u where f: "rest_fill lib PathEscape vars (q \<noteq> (c = CHR 0x27)) (rest_segments cs) = (m, o', u)" by (metis prod_cases3)
    with 2(3) None have o: "m = []" "out = c # o'" by auto
    from 2(1) [OF None] f o(1) have l: "list_all2 stays (Split CHR ''/'' cs) (Split CHR ''/'' o')" by blast
    obtain x xs y ys where "Split CHR ''/'' cs = x # xs" "Split CHR ''/'' o' = y # ys" by (meson Split_not_Nil list.exhaust)
    with l o(2) show ?thesis by (cases "c = CHR ''/''") (auto intro: stays_Cons simp: stays_def [of "[]"])
  next
    case (Some a)
    then obtain n raw rest where h: "rest_hole (c # cs) = Some (n, raw, rest)" by (cases a) auto
    let ?s = "rest_scalar lib (rest_lookup (JObj vars) n)"
    obtain m o' u where f: "rest_fill lib PathEscape vars q (rest_segments rest) = (m, o', u)" by (metis prod_cases3)
    from 2(3) h f have o: "?s \<notin> {'''', ''.'', ''..''}" "m = []" "out = PathEscape (if q then double_quotes ?s else ?s) @ o'"
      by (auto simp: Let_def split: if_splits)
    from 2(2) [OF h refl refl] f o(2) have l: "list_all2 stays (Split CHR ''/'' rest) (Split CHR ''/'' o')" by blast
    have cs: "c # cs = raw @ rest" by (rule rest_hole_parts(1) [OF h])
    from l have "list_all2 stays (tl (Split CHR ''/'' rest)) (tl (Split CHR ''/'' o'))" by (cases "Split CHR ''/'' rest"; cases "Split CHR ''/'' o'") auto
    with stays_append [OF hole_not_dot_like [OF o(1)]] show ?thesis
      unfolding cs o(3) by (subst (1 2) Split_append) (auto simp: rest_hole_no_slash [OF h] PathEscape_no_slash)
  qed
qed

text \<open>C23: A rendered path has the segments of its template: a value cannot add a segment, whatever it contains, and no segment becomes a step to
  the same or the parent resource unless the template has it there itself.\<close>

theorem rest_path_stays:
  assumes "rest_render lib tmpl vars = Inr (path, used)"
  shows "length (Split CHR ''/'' path) = length (Split CHR ''/'' tmpl) \<and>
         (\<forall>i < length (Split CHR ''/'' path). Split CHR ''/'' path ! i \<in> {''.'', ''..''} \<longrightarrow> Split CHR ''/'' path ! i = Split CHR ''/'' tmpl ! i)"
proof -
  from assms have "rest_fill lib PathEscape vars False (rest_segments tmpl) = ([], path, used)"
    by (auto simp: rest_render_def renderWith_def split: prod.splits if_splits)
  from fill_stays [OF this] show ?thesis
    by (auto simp: list_all2_conv_all_nth stays_def dot_like_cases)
qed

theorem rest_path_stays_witness:
  "\<exists>path used. rest_render plain_lib ''/orders/{{id}}'' [(''id'', JStr ''../users'')] = Inr (path, used) \<and> length (Split CHR ''/'' path) = 3"
proof -
  have r: "rest_render plain_lib ''/orders/{{id}}'' [(''id'', JStr ''../users'')] = Inr (''/orders/..%2Fusers'', [(''id'', JStr ''../users'')])"
    by code_simp
  from rest_path_stays [OF r] have "length (Split CHR ''/'' ''/orders/..%2Fusers'') = 3" by simp
  with r show ?thesis by blast
qed

section \<open>Bodies\<close>

fun at_path :: "json \<Rightarrow> string list \<Rightarrow> json option" where
  "at_path v [] = Some v"
| "at_path (JObj m) (p # ps) = Option.bind (map_of m p) (\<lambda>v. at_path v ps)"
| "at_path v (p # ps) = None"

text \<open>Two places of a document of which neither contains the other.\<close>

definition apart :: "string list \<Rightarrow> string list \<Rightarrow> bool" where
  "apart p q \<longleftrightarrow> \<not> prefix p q \<and> \<not> prefix q p"

lemma apart_Cons [simp]: "apart (a # p) (b # q) \<longleftrightarrow> a \<noteq> b \<or> apart p q"
  by (auto simp: apart_def)

lemma apart_Nil [simp]: "\<not> apart [] q" "\<not> apart p []"
  by (auto simp: apart_def)

lemma set_path_same: "ps \<noteq> [] \<Longrightarrow> at_path (JObj (set_path m ps v)) ps = Some v"
  by (induction m ps v rule: set_path.induct) (auto simp: update_conv')

lemma set_path_other: "apart ps qs \<Longrightarrow> at_path (JObj (set_path m ps v)) qs = at_path (JObj m) qs"
proof (induction m ps v arbitrary: qs rule: set_path.induct)
  case (2 m p v)
  then show ?case by (cases qs) (auto simp: update_conv')
next
  case (3 m p q ps v)
  then obtain r rs where qs: "qs = r # rs" by (cases qs) auto
  show ?case
  proof (cases "r = p")
    case True
    with 3 qs have a: "apart (q # ps) rs" by auto
    then obtain x xs where rs: "rs = x # xs" by (cases rs) auto
    let ?c = "case map_of m p of Some (JObj c) \<Rightarrow> c | _ \<Rightarrow> []"
    have "at_path (JObj (set_path m (p # q # ps) v)) qs = at_path (JObj (set_path ?c (q # ps) v)) rs"
      by (simp add: qs True update_conv')
    also have "\<dots> = at_path (JObj ?c) rs" by (rule "3.IH" [OF a])
    also have "\<dots> = at_path (JObj m) qs" by (auto simp: qs True rs split: option.splits json.splits)
    finally show ?thesis .
  qed (simp add: qs update_conv')
qed simp

lemma key_parts_Nil [simp]: "key_parts k \<noteq> []"
  by (simp add: key_parts_def)

lemma nest_steps:
  assumes "\<And>j x. (j, x) \<in> set flat \<Longrightarrow> j \<noteq> k \<Longrightarrow> apart (key_parts j) (key_parts k)" and "distinct (map fst flat)"
  shows "at_path (JObj (foldl (\<lambda>m (k, v). set_path m (key_parts k) v) m flat)) (key_parts k) =
         (case map_of flat k of None \<Rightarrow> at_path (JObj m) (key_parts k) | Some x \<Rightarrow> Some x)"
  using assms
proof (induction flat arbitrary: m)
  case (Cons a flat)
  obtain j x where a: "a = (j, x)" by fastforce
  have IH: "at_path (JObj (foldl (\<lambda>m (k, v). set_path m (key_parts k) v) m flat)) (key_parts k) =
      (case map_of flat k of None \<Rightarrow> at_path (JObj m) (key_parts k) | Some x \<Rightarrow> Some x)" for m
    by (rule Cons.IH) (use Cons.prems in auto)
  show ?case
  proof (cases "j = k")
    case True
    with Cons.prems(2) a have "map_of flat k = None" by (auto simp: map_of_eq_None_iff)
    with IH a True show ?thesis by (simp add: set_path_same)
  next
    case False
    with IH a Cons.prems(1) [of j x] show ?thesis by (simp add: set_path_other split: option.splits)
  qed
qed simp

text \<open>Every value of a request is where its field says, whatever the order the fields are visited in.\<close>

lemma nest_get:
  assumes "\<And>j x. (j, x) \<in> set flat \<Longrightarrow> j \<noteq> k \<Longrightarrow> apart (key_parts j) (key_parts k)" "distinct (map fst flat)" "map_of flat k = Some v"
  shows "at_path (JObj (nest flat)) (key_parts k) = Some v"
  using nest_steps [OF assms(1,2)] assms(3) by (simp add: nest_def)

lemma at_path_replaceNull: "at_path (replaceNull n v) ps = map_option (replaceNull n) (at_path v ps) \<or> at_path v ps = None"
proof (induction v ps rule: at_path.induct)
  case (2 m p ps)
  then show ?case by (cases "map_of m p") (auto simp: map_of_map [unfolded comp_def])
qed auto

lemma at_path_append: "at_path v (ps @ qs) = Option.bind (at_path v ps) (\<lambda>x. at_path x qs)"
  by (induction v ps rule: at_path.induct) (auto split: bind_split)

definition wrap_path :: "rest_operation \<Rightarrow> string list" where
  "wrap_path op = (if ro_Wrap op = '''' then [] else [ro_Wrap op])"

lemma request_place:
  assumes "ro_BodyFormat op \<noteq> ''none''" "ro_Restore op" "ro_NullValue op = None"
  shows "at_path (body_json (rest_request op vals)) (wrap_path op @ ps) = at_path (JObj (nest vals)) ps"
  using assms by (auto simp: rest_request_def wrap_path_def body_json_def Let_def)

section \<open>Undoing an update\<close>

lemma field_values_keys:
  "field_values d fs b = Inr vals \<Longrightarrow> distinct (map fst b) \<Longrightarrow>
     distinct (map fst vals) \<and> fst ` set vals = fst ` set b \<union> fst ` set fs"
proof (induction d fs b rule: field_values.induct)
  case (2 d api field fs b)
  then show ?case by (auto simp: distinct_update update_keys dom_update split: if_splits)
qed auto

lemma map_of_previous: "map_of (previous rcd vals) k = map_option (\<lambda>_. rest_lookup (JObj rcd) k) (map_of vals k)"
  by (induction vals) (auto simp: previous_def)

lemma previous_keys: "map fst (previous rcd vals) = map fst vals"
  by (auto simp: previous_def)

lemma unmarshal_marshal_update: "unmarshal_update (marshal_update r) = Some (Some (ur_Params r), Some (ur_Previous r), Some (ur_Applied r))"
  by (simp add: unmarshal_update_def marshal_update_def map_member_def)

text \<open>What a captured update answers: the values of its path and what the record held.\<close>

lemma Commit_captures:
  assumes "rest_Commit c name key payload s = (Inr res, s')" "rl_Operations c name = Some op" "ro_Capture op = Some cap"
    "\<not> ro_Restore op" "ro_Method op \<noteq> ''DELETE''" "ro_Existing op = None"
  obtains d vals rcd s1 path params resp where
    "decodePayload payload = Inr d" "rest_values op d = Inr vals" "rest_current c cap d s = (Inr rcd, s1)"
    "rest_render (rl_lib c) (ro_Path op) (commit_vars op key d) = Inr (path, params)"
    "res = marshal_update \<lparr>ur_Params = params, ur_Previous = previous rcd vals, ur_Applied = vals, ur_Response = resp\<rparr>"
proof -
  from assms obtain d where d: "decodePayload payload = Inr d" by (cases "decodePayload payload") (auto simp: rest_Commit_def rest_operation_of_def split: if_splits)
  with assms obtain vals where v: "rest_values op d = Inr vals"
    by (cases "rest_values op d") (auto simp: rest_Commit_def rest_operation_of_def commit_parts_def split: if_splits)
  have op: "rest_operation_of c name = Inr op" by (simp add: rest_operation_of_def assms(2))
  from assms(1) d v obtain rcd s1 where cur: "rest_current c cap d s = (Inr rcd, s1)"
    by (cases "rest_current c cap d s"; cases "fst (rest_current c cap d s)")
      (auto simp: rest_Commit_def op commit_parts_def assms Let_def then_do_def split: if_splits)
  let ?b = "rest_request op (sent_values op key vals)"
  have parts: "commit_parts c op name key payload d s = (Inr (d, ?b, vals, Some (previous rcd vals)), s1)"
    using assms(1) d v cur by (auto simp: rest_Commit_def op commit_parts_def assms Let_def then_do_def split: if_splits)
  from assms(1) d parts obtain path params where r: "rest_render (rl_lib c) (ro_Path op) (commit_vars op key d) = Inr (path, params)"
    by (cases "rest_render (rl_lib c) (ro_Path op) (commit_vars op key d)") (auto simp: rest_Commit_def op then_do_def Let_def split: if_splits)
  from assms(1) d parts r obtain answer where "commit_result op name path params vals (Some (previous rcd vals)) answer = Inr res"
    by (auto simp: rest_Commit_def op then_do_def Let_def assms(6) split: if_splits prod.splits sum.splits)
  then obtain resp where "res = marshal_update \<lparr>ur_Params = params, ur_Previous = previous rcd vals, ur_Applied = vals, ur_Response = resp\<rparr>"
    by (auto simp: commit_result_def Let_def split: prod.splits if_splits)
  with that d v cur r show ?thesis by blast
qed


definition crm_link :: "unit rest_link" where
  "crm_link =
     \<lparr>rl_Send = (\<lambda>meth path query header body s.
        (if meth = ''GET'' then Replied 200 [] '''' (Some (JObj [(''status'', JStr ''open''), (''meta'', JObj [(''note'', JStr ''n'')])])) else Replied 204 [] '''' None, s)),
      rl_Operations = [''update'' \<mapsto>
        \<lparr>ro_Method = ''PATCH'', ro_Path = ''/deals/{{id}}'', ro_Headers = [], ro_IDFrom = '''', ro_Fields = [(''status'', ''status''), (''meta.note'', ''note'')],
         ro_Wrap = '''', ro_BodyFormat = '''', ro_Result = '''', ro_IdempotencyHeader = '''', ro_Capture = Some \<lparr>cp_Path = ''/deals/{{id}}'', cp_Result = ''''\<rparr>,
         ro_Restore = False, ro_NullValue = None, ro_Constants = [], ro_KeyField = '''', ro_Existing = None\<rparr>],
      rl_lib = plain_lib, rl_Refreshable = False\<rparr>"

definition crm_update :: rest_operation where
  "crm_update = the (rl_Operations crm_link ''update'')"

definition crm_undo :: rest_operation where
  "crm_undo = crm_update\<lparr>ro_Capture := None, ro_Restore := True, ro_Wrap := ''properties''\<rparr>"

definition crm_payload :: raw where
  "crm_payload = RawDoc (JObj [(''id'', JStr ''7''), (''status'', JStr ''won''), (''note'', JStr ''m'')])"


text \<open>A field whose name has a literal dot is written where \<open>\.\<close> says, but \<open>lookup\<close> reads its name as a path: the value is captured as null, and
  the undo would clear the field.\<close>

theorem previous_loses_escaped:
  "at_path (JObj (nest [(''a'' @ [CHR 0x5C] @ ''.b'', JStr ''new'')])) [''a.b''] = Some (JStr ''new'') \<and>
   previous [(''a.b'', JStr ''old'')] [(''a'' @ [CHR 0x5C] @ ''.b'', JStr ''new'')] = [(''a'' @ [CHR 0x5C] @ ''.b'', JNull)]"
  by code_simp

section \<open>Deliveries\<close>

lemma Atoi_range: "Atoi s = Some t \<Longrightarrow> min_int64 \<le> t \<and> t \<le> max_int64"
  by (auto simp: Atoi_def Let_def split: list.splits if_splits)

text \<open>The difference of two times wraps around, but never into the tolerance.\<close>

lemma wrapped_within:
  assumes "min_int64 \<le> t" "t \<le> max_int64" "0 \<le> n" "n < 2 ^ 62" "0 \<le> tol" "tol < 2 ^ 62"
    and "\<not> tol < wrap64 (n - t)" "\<not> wrap64 (n - t) < - tol"
  shows "\<bar>n - t\<bar> \<le> tol"
proof (cases "n - t \<le> max_int64")
  case True
  with assms(2,3) have "min_int64 \<le> n - t" by (simp add: min_int64_def max_int64_def)
  from wrap64_id [OF this True] assms(7,8) show ?thesis by simp
next
  case False
  with assms(1,4) have "wrap64 (n - t) = n - t - 2 ^ 64"
    using minus_mod_self2 [of "n - t + 9223372036854775808" "18446744073709551616"]
    by (simp add: wrap64_def min_int64_def max_int64_def mod_pos_pos_trivial)
  with assms False show ?thesis by (simp add: min_int64_def max_int64_def)
qed

text \<open>C24: A delivery signed Stripe's way is taken only with a valid signature over its time and body, and only around that time:
  whoever replays a recorded delivery is refused once the tolerance has passed, also with a time chosen so that the difference
  overflows.\<close>

theorem stripe_replay_window:
  assumes "wh_Signature (wb_cfg w) = ''stripe''" "stripe_tolerance (wb_cfg w) < 2 ^ 62"
    and "0 \<le> now" "now div 1000000000 < 2 ^ 62" "0 \<le> later" "later div 1000000000 < 2 ^ 62"
    and "hook_Receive lib w header body now \<noteq> Unauthenticated" "hook_Receive lib w header body later \<noteq> Unauthenticated"
  shows "\<bar>later div 1000000000 - now div 1000000000\<bar> \<le> 2 * stripe_tolerance (wb_cfg w) \<and>
         (\<exists>ts t sigs sig. stripe_parts (Split CHR '','' (header_get header ''Stripe-Signature'')) '''' [] = (ts, sigs) \<and> sig \<in> set sigs \<and>
            hex_DecodeString sig = Some (hl_mac lib (wb_secret w) (ts @ ''.'' @ body)) \<and>
            Atoi ts = Some t \<and> \<bar>now div 1000000000 - t\<bar> \<le> stripe_tolerance (wb_cfg w))"
proof -
  obtain ts sigs where p: "stripe_parts (Split CHR '','' (header_get header ''Stripe-Signature'')) '''' [] = (ts, sigs)" by fastforce
  have tol: "0 \<le> stripe_tolerance (wb_cfg w)" by (simp add: stripe_tolerance_def)
  have taken: "\<exists>t sig. Atoi ts = Some t \<and> \<bar>n div 1000000000 - t\<bar> \<le> stripe_tolerance (wb_cfg w) \<and> sig \<in> set sigs \<and>
      hex_DecodeString sig = Some (hl_mac lib (wb_secret w) (ts @ ''.'' @ body))"
    if "hook_Receive lib w header body n \<noteq> Unauthenticated" "0 \<le> n" "n div 1000000000 < 2 ^ 62" for n
  proof -
    from that(1) have "hook_verify lib w header body n" by (metis hook_Receive_def)
    with assms(1) p obtain t sig where t: "Atoi ts = Some t" "sig \<in> set sigs"
        "hex_DecodeString sig = Some (hl_mac lib (wb_secret w) (ts @ ''.'' @ body))"
        "\<not> stripe_tolerance (wb_cfg w) < wrap64 (n div 1000000000 - t)" "\<not> wrap64 (n div 1000000000 - t) < - stripe_tolerance (wb_cfg w)"
      by (auto simp: hook_verify_def Let_def list_ex_iff split: option.splits if_splits)
    from Atoi_range [OF t(1)] have r: "min_int64 \<le> t" "t \<le> max_int64" by simp_all
    have n: "0 \<le> n div 1000000000" using that(2) by (simp add: pos_imp_zdiv_nonneg_iff)
    from wrapped_within [OF r n that(3) tol assms(2) t(4,5)] t show ?thesis by blast
  qed
  from taken [OF assms(7,3,4)] taken [OF assms(8,5,6)] p show ?thesis by fastforce
qed

definition echo_lib :: hook_lib where
  "echo_lib = \<lparr>hl_mac = (\<lambda>k m. k), hl_base64 = Some, hl_json = (\<lambda>b. Some (JObj [(''id'', JStr b)])), hl_lib = plain_lib\<rparr>"

definition stripe_hook :: rest_webhook where
  "stripe_hook = \<lparr>wb_event = ''invoice'', wb_idPath = ''id'',
     wb_cfg = \<lparr>wh_Signature = ''stripe'', wh_SecretRef = ''s'', wh_Header = '''', wh_Encoding = '''', wh_Prefix = '''', wh_ToleranceSeconds = 0, wh_Items = '''', wh_Filter = []\<rparr>,
     wb_secret = ''K'', wb_err = None\<rparr>"

theorem stripe_replay_window_witness:
  "hook_Receive echo_lib stripe_hook [(''Stripe-Signature'', ''t=60,v1=4b'')] ''x'' 60000000000 \<noteq> Unauthenticated \<and>
   hook_Receive echo_lib stripe_hook [(''Stripe-Signature'', ''t=60,v1=4b'')] ''x'' 360000000000 \<noteq> Unauthenticated \<and>
   \<bar>(360::int) - 60\<bar> \<le> 2 * stripe_tolerance (wb_cfg stripe_hook)"
proof -
  have r: "hook_Receive echo_lib stripe_hook [(''Stripe-Signature'', ''t=60,v1=4b'')] ''x'' 60000000000 \<noteq> Unauthenticated"
      "hook_Receive echo_lib stripe_hook [(''Stripe-Signature'', ''t=60,v1=4b'')] ''x'' 360000000000 \<noteq> Unauthenticated"
    by code_simp+
  have "\<bar>(360000000000::int) div 1000000000 - 60000000000 div 1000000000\<bar> \<le> 2 * stripe_tolerance (wb_cfg stripe_hook)"
    using stripe_replay_window [OF _ _ _ _ _ _ r] by (simp add: stripe_hook_def stripe_tolerance_def)
  with r show ?thesis by simp
qed

end
