(* ===== verification/Rest_Keys.thy ===== *)
theory Rest_Keys
  imports Rest_Props Guard_World
begin

text \<open>
  A create of the REST connector that stores the idempotency key in a field and looks it up first makes one record per key,
  also through the guard, whatever fails in between. What the interface must do for that is the locale \<open>rest_keys\<close>; a server that
  does it is defined at the end.
\<close>

section \<open>Where the key is sent\<close>

definition nests :: "rest_operation \<Rightarrow> bool" where
  "nests op \<longleftrightarrow> ro_Fields op \<noteq> [] \<or> ro_Constants op \<noteq> []"

definition key_place :: "rest_operation \<Rightarrow> string list" where
  "key_place op = wrap_path op @ (if nests op then key_parts (ro_KeyField op) else [ro_KeyField op])"

definition keyed_op :: "rest_operation \<Rightarrow> bool" where
  "keyed_op op \<longleftrightarrow> ro_Method op \<noteq> ''GET'' \<and> ro_Method op \<noteq> ''DELETE'' \<and> \<not> ro_Restore op \<and> ro_BodyFormat op \<noteq> ''none'' \<and>
     ro_KeyField op \<noteq> '''' \<and> ro_Existing op \<noteq> None \<and>
     (\<forall>api \<in> fst ` set (ro_Fields op) \<union> fst ` set (ro_Constants op). apart (key_parts api) (key_parts (ro_KeyField op)))"

lemma update_all_keys:
  "distinct (map fst m) \<Longrightarrow> distinct (map fst (foldl (\<lambda>m (k, v). AList.update k v m) m cs)) \<and>
     fst ` set (foldl (\<lambda>m (k, v). AList.update k v m) m cs) = fst ` set m \<union> fst ` set cs"
proof (induction cs arbitrary: m)
  case (Cons a cs)
  obtain k v where a: "a = (k, v)" by fastforce
  from Cons.IH [of "AList.update k v m"] Cons.prems show ?case by (auto simp: a distinct_update dom_update)
qed simp

lemma update_all_other: "k \<notin> fst ` set cs \<Longrightarrow> map_of (foldl (\<lambda>m (k, v). AList.update k v m) m cs) k = map_of m k"
  by (induction cs arbitrary: m) (auto simp: update_conv')

lemma apart_irrefl [simp]: "\<not> apart p p"
  by (simp add: apart_def)

lemma formed_at:
  "at_path v ps = Some (JStr k) \<Longrightarrow>
     at_path (body_json (if f then FormBody v else case nv of None \<Rightarrow> JSONBody v | Some n \<Rightarrow> JSONBody (replaceNull n v))) ps = Some (JStr k)"
  using at_path_replaceNull [of _ v ps] by (auto simp: body_json_def split: option.splits)

lemma request_key:
  assumes "keyed_op op" "rest_values op d = Inr vals"
  shows "at_path (body_json (rest_request op (sent_values op k vals))) (key_place op) = Some (JStr k)"
proof -
  let ?f = "ro_KeyField op" and ?sent = "sent_values op k vals"
  let ?flat = "if ro_Constants op \<noteq> [] then foldl (\<lambda>m (k, v). AList.update k v m) ?sent (ro_Constants op) else ?sent"
  let ?body = "JObj (if nests op then nest ?flat else ?sent)"
  have sent: "?sent = AList.update ?f (JStr k) vals" using assms(1) by (simp add: keyed_op_def sent_values_def)
  have at: "at_path ?body (if nests op then key_parts ?f else [?f]) = Some (JStr k)"
  proof (cases "nests op")
    case True
    with assms(2) have "distinct (map fst vals) \<and> fst ` set vals \<subseteq> fst ` set (ro_Fields op)"
      using field_values_keys [of d "ro_Fields op" "[]" vals] by (auto simp: rest_values_def nests_def split: if_splits)
    then have s: "distinct (map fst ?sent)" "fst ` set ?sent \<subseteq> insert ?f (fst ` set (ro_Fields op))"
      by (auto simp: sent distinct_update dom_update)
    have flat: "distinct (map fst ?flat)" "fst ` set ?flat \<subseteq> insert ?f (fst ` set (ro_Fields op) \<union> fst ` set (ro_Constants op))"
      using update_all_keys [OF s(1), of "ro_Constants op"] s by auto
    have "?f \<notin> fst ` set (ro_Constants op)" using assms(1) apart_irrefl unfolding keyed_op_def by blast
    then have "map_of ?flat ?f = Some (JStr k)" by (simp add: update_all_other) (simp add: sent update_conv')
    moreover have "apart (key_parts j) (key_parts ?f)" if "(j, x) \<in> set ?flat" "j \<noteq> ?f" for j x
    proof -
      from that flat(2) have "j \<in> fst ` set (ro_Fields op) \<union> fst ` set (ro_Constants op)" by force
      with assms(1) show ?thesis by (simp add: keyed_op_def)
    qed
    ultimately show ?thesis using nest_get [of ?flat ?f "JStr k"] flat(1) True by presburger
  next
    case False
    then show ?thesis by (simp add: sent update_conv')
  qed
  have wrapped: "at_path (if ro_Wrap op = '''' then ?body else JObj [(ro_Wrap op, ?body)]) (key_place op) = Some (JStr k)"
    using at by (simp add: key_place_def wrap_path_def)
  have req: "rest_request op ?sent =
      (let v = (if ro_Wrap op = '''' then ?body else JObj [(ro_Wrap op, ?body)]) in
       if ro_BodyFormat op = ''form'' then FormBody v else case ro_NullValue op of None \<Rightarrow> JSONBody v | Some n \<Rightarrow> JSONBody (replaceNull n v))"
    using assms(1) by (simp add: rest_request_def keyed_op_def nests_def Let_def)
  show ?thesis unfolding req Let_def by (rule formed_at [OF wrapped])
qed

text \<open>The configuration only refuses a key field that is mapped under the same name: when a mapped field lies below the key field, the key is
  overwritten if that field is visited later, and the lookup of a retry finds nothing.\<close>

theorem overlapping_key_is_lost:
  "at_path (JObj (nest [(''ref'', JStr k), (''ref.line'', v)])) [''ref''] = Some (JObj [(''line'', v)])"
proof -
  have "key_parts ''ref'' = [''ref'']" "key_parts ''ref.line'' = [''ref'', ''line'']" by code_simp+
  then show ?thesis by (simp add: nest_def)
qed

section \<open>What an interface keeps\<close>

text \<open>\<open>held w k\<close> is the number of records with the key \<open>k\<close>. Reads do not add records; the lookup for a key lists one exactly when there is one;
  a keyed create adds its record when it is accepted, may have added it when the answer is lost, and does not when it is answered 401;
  the other operations do not add any.\<close>

locale rest_keys =
  fixes c :: "'w rest_link" and held :: "'w \<Rightarrow> string \<Rightarrow> nat"
  assumes reads: "rl_Send c ''GET'' p q h b w = (r1, w') \<Longrightarrow> held w' = held w"
    and lookup: "rl_Operations c name = Some op \<Longrightarrow> keyed_op op \<Longrightarrow> ro_Existing op = Some e \<Longrightarrow>
      map_of vars ''idempotencyKey'' = Some (JStr k) \<Longrightarrow> rest_render (rl_lib c) (ex_Path e) vars = Inr (p, used) \<Longrightarrow>
      rest_params (rl_lib c) vars (ex_Params e) = Inr q \<Longrightarrow> rl_Send c ''GET'' p q [] NoBody w = (Replied st h' msg body, w') \<Longrightarrow> st < 300 \<Longrightarrow>
      first_item (ex_Items e) (case body of None \<Rightarrow> JNull | Some v \<Rightarrow> v) = Inr found \<Longrightarrow> found = None \<longleftrightarrow> held w k = 0"
    and create: "rl_Operations c name = Some op \<Longrightarrow> keyed_op op \<Longrightarrow> rest_render (rl_lib c) (ro_Path op) vars = Inr (p, used) \<Longrightarrow>
      at_path (body_json b) (key_place op) = Some (JStr k) \<Longrightarrow> rl_Send c (ro_Method op) p [] h b w = (r2, w') \<Longrightarrow>
      held w' = held w \<or> held w' = (held w)(k := held w k + 1)"
    and created: "rl_Operations c name = Some op \<Longrightarrow> keyed_op op \<Longrightarrow> rest_render (rl_lib c) (ro_Path op) vars = Inr (p, used) \<Longrightarrow>
      at_path (body_json b) (key_place op) = Some (JStr k) \<Longrightarrow> rl_Send c (ro_Method op) p [] h b w = (Replied st h' msg body, w') \<Longrightarrow>
      if st < 300 then held w' k = held w k + 1 else st = 401 \<longrightarrow> held w' = held w"
    and others: "rl_Operations c name = Some op \<Longrightarrow> \<not> keyed_op op \<Longrightarrow> ro_Method op \<noteq> ''GET'' \<Longrightarrow> rest_render (rl_lib c) (ro_Path op) vars = Inr (p, used) \<Longrightarrow>
      rl_Send c (ro_Method op) p [] h b w = (r3, w') \<Longrightarrow> held w' k \<le> held w k"
begin

definition single :: "'w \<Rightarrow> bool" where
  "single w = (\<forall>k. held w k \<le> 1)"

lemma doH_sends:
  assumes "doH c m p q h b w = (r, w')"
  obtains r1 w1 where "rl_Send c m p q h b w = (r1, w1)"
    "r = rest_answer m p r1 \<and> w' = w1 \<or>
     (\<exists>h' msg body r2. r1 = Replied 401 h' msg body \<and> rl_Send c m p q h b w1 = (r2, w') \<and> r = rest_answer m p r2)"
proof -
  obtain r1 w1 where s: "rl_Send c m p q h b w = (r1, w1)" by fastforce
  with assms that [OF s] show ?thesis by (auto simp: doH_def Let_def split: if_splits prod.splits rest_reply.splits)
qed

lemma read_keeps: "safe_call (\<lambda>w. P (held w)) (doH c ''GET'' p q h b)"
proof (rule safe_callI)
  fix w
  assume P: "P (held w)"
  obtain r w' where d: "doH c ''GET'' p q h b w = (r, w')" by fastforce
  from doH_sends [OF d] reads have "held w' = held w" by metis
  with P d show "P (held (snd (doH c ''GET'' p q h b w)))" by simp
qed

lemma classified_keeps: "safe_call I m \<Longrightarrow> safe_call I (classified m)"
  by (auto simp: safe_call_def classified_def split: prod.splits sum.splits)

lemma answer_Inr: "rest_answer m p r = Inr a \<Longrightarrow> \<exists>st h msg body. r = Replied st h msg body \<and> st < 300 \<and> a = (h, case body of None \<Rightarrow> JNull | Some v \<Rightarrow> v)"
  by (auto simp: rest_answer_def split: rest_reply.splits if_splits)

lemma classified_Inr: "classified m w = (Inr a, w') \<longleftrightarrow> m w = (Inr a, w')"
  by (auto simp: classified_def split: prod.splits sum.splits)

lemma existing_keeps: "safe_call (\<lambda>w. P (held w)) (rest_existing c e vars)"
  unfolding rest_existing_def by (intro call_rules) (auto intro!: call_rules classified_keeps read_keeps)

lemma current_keeps: "safe_call (\<lambda>w. P (held w)) (rest_current c cap vars)"
  unfolding rest_current_def by (intro call_rules) (auto split: json.splits intro!: call_rules classified_keeps read_keeps)

lemma existing_found:
  assumes "rl_Operations c name = Some op" "keyed_op op" "ro_Existing op = Some e" "map_of vars ''idempotencyKey'' = Some (JStr k)"
    "rest_existing c e vars w = (Inr found, w')"
  shows "found = None \<longleftrightarrow> held w' k = 0"
proof -
  from assms(5) obtain p used q where r: "rest_render (rl_lib c) (ex_Path e) vars = Inr (p, used)" "rest_params (rl_lib c) vars (ex_Params e) = Inr q"
    by (cases "rest_render (rl_lib c) (ex_Path e) vars"; cases "rest_params (rl_lib c) vars (ex_Params e)") (auto simp: rest_existing_def)
  with assms(5) obtain h resp where g: "doH c ''GET'' p q [] NoBody w = (Inr (h, resp), w')" "first_item (ex_Items e) resp = Inr found"
    by (auto simp: rest_existing_def classified_Inr elim!: then_do_Inr)
  from doH_sends [OF g(1)] obtain r1 w1 where d: "rl_Send c ''GET'' p q [] NoBody w = (r1, w1)"
    "Inr (h, resp) = rest_answer ''GET'' p r1 \<and> w' = w1 \<or>
     (\<exists>h' msg body r2. r1 = Replied 401 h' msg body \<and> rl_Send c ''GET'' p q [] NoBody w1 = (r2, w') \<and> Inr (h, resp) = rest_answer ''GET'' p r2)"
    by blast
  then obtain v r2 where v: "rl_Send c ''GET'' p q [] NoBody v = (r2, w')" "rest_answer ''GET'' p r2 = Inr (h, resp)" by metis
  from answer_Inr [OF v(2)] obtain st h' msg body where a: "r2 = Replied st h' msg body" "st < 300" "resp = (case body of None \<Rightarrow> JNull | Some v \<Rightarrow> v)" by blast
  from lookup [OF assms(1-4) r v(1) [unfolded a(1)] a(2) g(2) [unfolded a(3)]] reads [OF v(1)] show ?thesis by simp
qed

lemma keyed_send:
  assumes "rl_Operations c name = Some op" "keyed_op op" "rest_render (rl_lib c) (ro_Path op) vars = Inr (p, used)"
    "at_path (body_json b) (key_place op) = Some (JStr k)" "doH c (ro_Method op) p [] h b w = (r, w')"
  shows "held w' = held w \<or> held w' = (held w)(k := held w k + 1)" and "r = Inr a \<Longrightarrow> held w' k = held w k + 1"
proof -
  note laws = create [OF assms(1-4)] created [OF assms(1-4)]
  from doH_sends [OF assms(5)] obtain r1 w1 where d: "rl_Send c (ro_Method op) p [] h b w = (r1, w1)"
    "r = rest_answer (ro_Method op) p r1 \<and> w' = w1 \<or>
     (\<exists>h' msg body r2. r1 = Replied 401 h' msg body \<and> rl_Send c (ro_Method op) p [] h b w1 = (r2, w') \<and> r = rest_answer (ro_Method op) p r2)" by blast
  then obtain v r2 where v: "rl_Send c (ro_Method op) p [] h b v = (r2, w')" "r = rest_answer (ro_Method op) p r2" "held v = held w"
    using laws(2) [where st = 401 and w = w] by fastforce
  show "held w' = held w \<or> held w' = (held w)(k := held w k + 1)" using laws(1) [OF v(1)] v(3) by simp
  assume "r = Inr a"
  with v(2) answer_Inr obtain st h' msg body where a: "r2 = Replied st h' msg body" "st < 300" by metis
  from laws(2) [OF v(1) [unfolded a(1)]] a(2) v(3) show "held w' k = held w k + 1" by simp
qed

lemma other_send:
  assumes "rl_Operations c name = Some op" "\<not> keyed_op op" "ro_Method op \<noteq> ''GET''" "rest_render (rl_lib c) (ro_Path op) vars = Inr (p, used)"
  shows "safe_call single (doH c (ro_Method op) p [] h b)"
proof (rule safe_callI)
  fix w
  assume s: "single w"
  obtain r w' where d: "doH c (ro_Method op) p [] h b w = (r, w')" by fastforce
  have "held w' k \<le> held w k" for k using doH_sends [OF d] others [OF assms] by (metis order_trans)
  with s d show "single (snd (doH c (ro_Method op) p [] h b w))" by (auto simp: single_def intro: order_trans)
qed

lemma as_single: "(\<And>P. safe_call (\<lambda>w. P (held w)) m) \<Longrightarrow> safe_call single m"
  unfolding single_def [abs_def] by assumption

lemma parts_keep: "safe_call (\<lambda>w. P (held w)) (commit_parts c op name key payload d)"
  unfolding commit_parts_def Let_def
  by (intro call_rules current_keeps)

text \<open>What a keyed create sends, and the variables it looks its key up with.\<close>

lemma parts_keyed:
  assumes "keyed_op op" "commit_parts c op name key payload d w = (Inr (vars, body, vals, captured), w')"
  shows "key \<noteq> '''' \<and> at_path (body_json body) (key_place op) = Some (JStr key) \<and>
         map_of (commit_vars op key vars) ''idempotencyKey'' = Some (JStr key)"
proof -
  from assms obtain v where v: "rest_values op d = Inr v" by (cases "rest_values op d") (auto simp: commit_parts_def keyed_op_def)
  with assms have p: "key \<noteq> '''' \<and> body = rest_request op (sent_values op key v)"
    by (auto simp: commit_parts_def keyed_op_def Let_def then_do_def split: if_splits option.splits prod.splits sum.splits)
  with request_key [OF assms(1) v] assms(1) show ?thesis by (auto simp: commit_vars_def keyed_op_def update_conv')
qed

lemma Commit_steps:
  assumes "rest_Commit c name key payload w = (r, w')"
  shows "held w' = held w \<or> (\<exists>op vars0 body vals captured w1 path params w2 a.
    rl_Operations c name = Some op \<and> ro_Method op \<noteq> ''GET'' \<and> (\<exists>d. commit_parts c op name key payload d w = (Inr (vars0, body, vals, captured), w1)) \<and>
    rest_render (rl_lib c) (ro_Path op) (commit_vars op key vars0) = Inr (path, params) \<and> held w2 = held w \<and>
    (\<forall>e. ro_Existing op = Some e \<longrightarrow> rest_existing c e (commit_vars op key vars0) w1 = (Inr None, w2)) \<and>
    doH c (ro_Method op) path [] (commit_header op key) body w2 = (a, w') \<and> (\<not> isl r \<longrightarrow> \<not> isl a))"
  (is "_ \<or> ?sent")
proof (rule disjCI)
  assume none: "\<not> ?sent"
  show "held w' = held w"
  proof (cases "rest_operation_of c name")
    case (Inr op)
    then have op: "rl_Operations c name = Some op" by (auto simp: rest_operation_of_def split: option.splits)
    show ?thesis
    proof (cases "ro_Method op = ''GET'' \<or> isl (decodePayload payload)")
      case False
      then obtain d where d: "decodePayload payload = Inr d" "ro_Method op \<noteq> ''GET''" by (cases "decodePayload payload") auto
      obtain x w1 where p: "commit_parts c op name key payload d w = (x, w1)" by fastforce
      have h1: "held w1 = held w" by (rule safe_callD [OF parts_keep [where P = "\<lambda>h. h = held w"] refl p])
      show ?thesis
      proof (cases x)
        case (Inl e)
        with assms Inr d p h1 show ?thesis by (auto simp: rest_Commit_def then_do_def)
      next
        case x: (Inr y)
        obtain vars0 body vals captured where y: "y = (vars0, body, vals, captured)" by (metis prod_cases4)
        let ?vars = "commit_vars op key vars0"
        show ?thesis
        proof (cases "rest_render (rl_lib c) (ro_Path op) ?vars")
          case (Inl e)
          with assms Inr d p h1 x y show ?thesis by (auto simp: rest_Commit_def then_do_def Let_def)
        next
          case rr: (Inr z)
          obtain path params where z: "z = (path, params)" by fastforce
          let ?ex = "case ro_Existing op of None \<Rightarrow> give None | Some e \<Rightarrow> rest_existing c e ?vars"
          obtain f w2 where f: "?ex w1 = (f, w2)" by fastforce
          have "safe_call (\<lambda>v. held v = held w) ?ex" by (intro call_rules existing_keeps)
          from safe_callD [OF this h1 f] have h2: "held w2 = held w" .
          obtain a w3 where a: "doH c (ro_Method op) path [] (commit_header op key) body w2 = (a, w3)" by fastforce
          have run: "rest_Commit c name key payload w =
              then_do ?ex (\<lambda>found. case found of Some rcd \<Rightarrow> give (RawDoc (JObj (AList.update ''existing'' (JBool True) rcd)))
                | None \<Rightarrow> then_do (classified (doH c (ro_Method op) path [] (commit_header op key) body))
                        (\<lambda>answer. given (commit_result op name path params vals captured answer))) w1"
            using Inr d p x y rr z by (simp add: rest_Commit_def then_do_def [of "commit_parts c op name key payload d"] Let_def)
          show ?thesis
          proof (cases "f = Inr None")
            case True
            have e: "ro_Existing op = Some e \<Longrightarrow> rest_existing c e ?vars w1 = (Inr None, w2)" for e using f True by simp
            have "w' = w3 \<and> (\<not> isl r \<longrightarrow> \<not> isl a)"
              using assms run f True a by (cases a) (auto simp: then_do_def classified_def)
            with none op d p x y rr z h2 e a have False by blast
            then show ?thesis ..
          next
            case False
            with assms run f have "w' = w2" by (cases f) (auto simp: then_do_def split: option.splits)
            with h2 show ?thesis by simp
          qed
        qed
      qed
    next
      case True
      with assms Inr show ?thesis by (cases "decodePayload payload") (auto simp: rest_Commit_def split: if_splits)
    qed
  qed (use assms in \<open>simp add: rest_Commit_def\<close>)
qed

lemma Commit_single: "safe_call single (rest_Commit c name key payload)"
proof (rule safe_callI)
  fix w
  assume s: "single w"
  obtain r w' where r: "rest_Commit c name key payload w = (r, w')" by fastforce
  from Commit_steps [OF r] have "single w'"
  proof (elim disjE exE conjE)
    fix op vars0 body vals captured w1 path params w2 a d
    assume op: "rl_Operations c name = Some op" and get: "ro_Method op \<noteq> ''GET''"
      and p: "commit_parts c op name key payload d w = (Inr (vars0, body, vals, captured), w1)"
      and rr: "rest_render (rl_lib c) (ro_Path op) (commit_vars op key vars0) = Inr (path, params)" and h: "held w2 = held w"
      and ex: "\<forall>e. ro_Existing op = Some e \<longrightarrow> rest_existing c e (commit_vars op key vars0) w1 = (Inr None, w2)"
      and a: "doH c (ro_Method op) path [] (commit_header op key) body w2 = (a, w')"
    have s2: "single w2" using s h by (simp add: single_def)
    show "single w'"
    proof (cases "keyed_op op")
      case True
      then obtain e where e: "ro_Existing op = Some e" by (auto simp: keyed_op_def)
      note k = parts_keyed [OF True p]
      with existing_found [OF op True e _ ex [rule_format, OF e]] have "held w2 key = 0" by simp
      with keyed_send(1) [OF op True rr _ a] k s2 show ?thesis by (auto simp: single_def)
    qed (use safe_callD [OF other_send [OF op _ get rr] s2 a] in simp)
  qed (use s in \<open>simp add: single_def\<close>)
  with r show "single (snd (rest_Commit c name key payload w))" by simp
qed

text \<open>A keyed create that is answered leaves its record.\<close>

lemma Commit_held:
  assumes "rest_Commit c name key payload w = (Inr res, w')" "rl_Operations c name = Some op" "keyed_op op"
  shows "0 < held w' key"
proof -
  have op: "rest_operation_of c name = Inr op" by (simp add: rest_operation_of_def assms(2))
  from assms(3) obtain e where e: "ro_Existing op = Some e" "ro_Method op \<noteq> ''GET''" by (auto simp: keyed_op_def)
  from assms(1) op e(2) obtain d where d: "decodePayload payload = Inr d" by (cases "decodePayload payload") (auto simp: rest_Commit_def)
  from assms(1) op e d obtain vars0 body vals captured w1 where
    p: "commit_parts c op name key payload d w = (Inr (vars0, body, vals, captured), w1)"
    by (cases "commit_parts c op name key payload d w"; cases "fst (commit_parts c op name key payload d w)") (auto simp: rest_Commit_def then_do_def)
  let ?vars = "commit_vars op key vars0"
  from assms(1) op e d p obtain path params where rr: "rest_render (rl_lib c) (ro_Path op) ?vars = Inr (path, params)"
    by (cases "rest_render (rl_lib c) (ro_Path op) ?vars") (auto simp: rest_Commit_def then_do_def Let_def)
  from assms(1) op e d p rr obtain found w2 where f: "rest_existing c e ?vars w1 = (Inr found, w2)"
    by (cases "rest_existing c e ?vars w1"; cases "fst (rest_existing c e ?vars w1)") (auto simp: rest_Commit_def then_do_def Let_def)
  note k = parts_keyed [OF assms(3) p]
  with existing_found [OF assms(2,3) e(1) _ f] have found: "found = None \<longleftrightarrow> held w2 key = 0" by blast
  show ?thesis
  proof (cases found)
    case None
    obtain a w3 where a: "doH c (ro_Method op) path [] (commit_header op key) body w2 = (a, w3)" by fastforce
    with assms(1) op e d p rr f None have "\<not> isl a \<and> w' = w3"
      by (cases a) (auto simp: rest_Commit_def then_do_def Let_def classified_def)
    with keyed_send(2) [OF assms(2,3) rr _ a] k show ?thesis by (cases a) auto
  next
    case (Some rcd)
    with assms(1) op e d p rr f have "w' = w2" by (auto simp: rest_Commit_def then_do_def Let_def)
    with Some found show ?thesis by simp
  qed
qed

lemma Confirm_reads: "safe_call (\<lambda>w. P (held w)) (rest_Confirm c name result)"
  unfolding rest_Confirm_def
  by (intro call_rules) (auto split: option.splits prod.splits intro!: call_rules current_keeps)

lemma target_confirm:
  "ti_Confirm (rest_target c) = Some f \<Longrightarrow> f op r w = (e, w') \<Longrightarrow> held w' = held w"
  using safe_callD [OF Confirm_reads [where P = "\<lambda>h. h = held w"], of w op r]
  by (auto simp: rest_target_def split: prod.splits sum.splits)

lemma target_commit: "ti_Commit (rest_target c) op key p w = (r, w') \<Longrightarrow> \<exists>r'. rest_Commit c op key p w = (r', w') \<and> isl r' = isl r"
  by (auto simp: rest_target_def split: prod.splits sum.splits)

lemma rest_target_safe: "target_safe single (rest_target c)"
  unfolding target_safe_def
proof (intro conjI allI impI safe_callI)
  fix op key p w
  assume u: "single w"
  obtain r w' where c: "ti_Commit (rest_target c) op key p w = (r, w')" by fastforce
  from target_commit [OF c] safe_callD [OF Commit_single u] c show "single (snd (ti_Commit (rest_target c) op key p w))" by auto
next
  fix f op r w
  assume f: "ti_Confirm (rest_target c) = Some f" and u: "single w"
  obtain e w' where "f op r w = (e, w')" by fastforce
  with target_confirm [OF f this] u show "single (snd (f op r w))" by (simp add: single_def)
qed

lemma guarded_held:
  assumes "world_safe single {rest_target c} g s" "Commit g req ap s = ((out, err), s')" "out_Status out = StatusCommitted"
  shows "\<exists>r. generation (gd_Store g) (gs_store s) req = Inr r \<and>
           (\<forall>op. rl_Operations c (req_Operation r) = Some op \<longrightarrow> keyed_op op \<longrightarrow> 0 < held (gs_world s') (req_IdempotencyKey r))"
proof -
  from Commit_world(2) [OF assms(2,1,3)] obtain r w w' where
    r: "generation (gd_Store g) (gs_store s) req = Inr r"
       "ti_Commit (rest_target c) (req_Operation r) (req_IdempotencyKey r) (req_Payload r) w = (Inr (out_Result out), w')"
       "confirmed_by (rest_target c) (req_Operation r) (out_Result out) w' (gs_world s')" by auto
  from target_commit [OF r(2)] obtain raw where c: "rest_Commit c (req_Operation r) (req_IdempotencyKey r) (req_Payload r) w = (Inr raw, w')"
    by (metis isl_def obj_sumE sum.disc(2))
  have "held (gs_world s') = held w'" using r(3) target_confirm by (auto simp: confirmed_by_def)
  with Commit_held [OF c] r(1) show ?thesis by auto
qed

end

section \<open>One record per key\<close>

text \<open>C10: Through the guard, a REST connection whose creates store and look up their idempotency key makes one record per key: after any
  sequence of commits, whatever failed on the way and whether it took effect, no key is held by two records; and when such a create is
  reported as committed, exactly one record holds its key.\<close>

theorem guarded_rest_creates_once:
  assumes "rest_keys c held"
    and "\<And>name t. gs_targets s name = Some t \<Longrightarrow> t_Target t = rest_target c"
    and "\<And>w. \<forall>k. held w k \<le> 1 \<Longrightarrow> \<forall>k. held (snd (gd_Wait g w)) k \<le> 1"
    and "\<forall>k. held (gs_world s) k \<le> 1"
    and "Commit g req ap (commits g writes s) = ((out, err), s')"
  shows "(\<forall>k. held (gs_world s') k \<le> 1) \<and>
         (out_Status out = StatusCommitted \<longrightarrow>
           (\<exists>r. generation (gd_Store g) (gs_store (commits g writes s)) req = Inr r \<and>
             (\<forall>op. rl_Operations c (req_Operation r) = Some op \<longrightarrow> keyed_op op \<longrightarrow> held (gs_world s') (req_IdempotencyKey r) = 1)))"
proof -
  note L = assms(1)
  have I: "rest_keys.single held w = (\<forall>k. held w k \<le> 1)" for w by (rule rest_keys.single_def [OF L])
  have "world_safe (rest_keys.single held) {rest_target c} g s"
    using assms(2,3,4) rest_keys.rest_target_safe [OF L] by (auto simp: world_safe_def safe_call_def I)
  note ws = commits_world [OF this, of writes]
  from Commit_world(1) [OF assms(5) ws] have one: "\<forall>k. held (gs_world s') k \<le> 1" by (simp add: world_safe_def I)
  then have "0 < held (gs_world s') k \<Longrightarrow> held (gs_world s') k = 1" for k by (metis le_neq_implies_less less_one not_less_zero)
  with one rest_keys.guarded_held [OF L ws assms(5)] show ?thesis by blast
qed

section \<open>A server\<close>

text \<open>A list of orders, and what happens to the requests to come.\<close>

record depot =
  dp_rows :: "doc list"
  dp_replies :: "reply list"

definition dp_call :: "(depot \<Rightarrow> rest_reply \<times> depot) \<Rightarrow> depot \<Rightarrow> rest_reply \<times> depot" where
  "dp_call f w =
     (case dp_replies w of
        [] \<Rightarrow> f w
      | Answered # rs \<Rightarrow> f (w\<lparr>dp_replies := rs\<rparr>)
      | Refused e # rs \<Rightarrow> (NotReached e, w\<lparr>dp_replies := rs\<rparr>)
      | AnswerLost e # rs \<Rightarrow> (NotReached e, snd (f (w\<lparr>dp_replies := rs\<rparr>))))"

definition dp_list :: "(string \<times> string) list \<Rightarrow> depot \<Rightarrow> rest_reply \<times> depot" where
  "dp_list q w =
     (Replied 200 [] '''' (Some (JObj [(''value'', JArr (map JObj
        (filter (\<lambda>r. map_of r ''ref'' = map_option JStr (map_of q ''ref'')) (dp_rows w))))])), w)"

definition dp_add :: "rest_body \<Rightarrow> depot \<Rightarrow> rest_reply \<times> depot" where
  "dp_add b w =
     (case body_json b of
        JObj m \<Rightarrow> (Replied 201 [] '''' (Some (JObj m)), w\<lparr>dp_rows := dp_rows w @ [m]\<rparr>)
      | _ \<Rightarrow> (Replied 400 [] ''not an order'' None, w))"

definition dp_drop :: "string \<Rightarrow> depot \<Rightarrow> rest_reply \<times> depot" where
  "dp_drop p w = (Replied 204 [] '''' None, w\<lparr>dp_rows := filter (\<lambda>r. map_of r ''number'' \<noteq> Some (JStr (idFrom p))) (dp_rows w)\<rparr>)"

definition depot_create :: rest_operation where
  "depot_create =
     \<lparr>ro_Method = ''POST'', ro_Path = ''/orders'', ro_Headers = [], ro_IDFrom = '''', ro_Fields = [(''number'', ''number'')],
      ro_Wrap = '''', ro_BodyFormat = '''', ro_Result = '''', ro_IdempotencyHeader = '''', ro_Capture = None, ro_Restore = False,
      ro_NullValue = None, ro_Constants = [], ro_KeyField = ''ref'',
      ro_Existing = Some \<lparr>ex_Path = ''/orders'', ex_Params = [(''ref'', ''{{idempotencyKey}}'')], ex_Items = ''value''\<rparr>\<rparr>"

definition depot_link :: "depot rest_link" where
  "depot_link =
     \<lparr>rl_Send = (\<lambda>meth path query header body. dp_call
        (if meth = ''GET'' then dp_list query else if meth = ''DELETE'' then dp_drop path else dp_add body)),
      rl_Operations = [''create'' \<mapsto> depot_create, ''cancel'' \<mapsto> depot_create\<lparr>ro_Method := ''DELETE'', ro_Path := ''/orders/{{number}}'', ro_Existing := None\<rparr>],
      rl_lib = plain_lib, rl_Refreshable = True\<rparr>"

definition dp_held :: "depot \<Rightarrow> string \<Rightarrow> nat" where
  "dp_held w k = length (filter (\<lambda>r. map_of r ''ref'' = Some (JStr k)) (dp_rows w))"

lemma dp_held_replies [simp]: "dp_held (w\<lparr>dp_replies := rs\<rparr>) = dp_held w"
  by (simp add: dp_held_def fun_eq_iff)

lemma dp_call_cases:
  assumes "dp_call f w = (r, w')"
  obtains rs a w'' where "f (w\<lparr>dp_replies := rs\<rparr>) = (a, w'')" "w' = w'' \<and> (r = a \<or> (\<exists>e. r = NotReached e)) \<or> w' = w\<lparr>dp_replies := rs\<rparr> \<and> (\<exists>e. r = NotReached e)"
proof (cases "dp_replies w")
  case Nil
  then have "w\<lparr>dp_replies := []\<rparr> = w" by (cases w) simp
  with Nil assms that [of "[]"] show ?thesis by (auto simp: dp_call_def split: prod.splits)
next
  case (Cons x rs)
  obtain a w'' where "f (w\<lparr>dp_replies := rs\<rparr>) = (a, w'')" by fastforce
  with Cons assms that [of rs] show ?thesis by (cases x) (auto simp: dp_call_def)
qed

lemma dp_list_keeps: "dp_call (dp_list q) w = (r, w') \<Longrightarrow> dp_held w' = dp_held w"
  by (erule dp_call_cases) (auto simp: dp_list_def)

lemma dp_list_found:
  assumes "dp_call (dp_list [(''ref'', k)]) w = (Replied st h msg body, w')" "first_item ''value'' (case body of None \<Rightarrow> JNull | Some v \<Rightarrow> v) = Inr found"
  shows "found = None \<longleftrightarrow> dp_held w k = 0"
proof -
  let ?rows = "filter (\<lambda>r. map_of r ''ref'' = Some (JStr k)) (dp_rows w)"
  from assms(1) have "body = Some (JObj [(''value'', JArr (map JObj ?rows))])" by (auto elim!: dp_call_cases simp: dp_list_def)
  with assms(2) have "first_item ''value'' (JObj [(''value'', JArr (map JObj ?rows))]) = Inr found" by simp
  then show ?thesis by (cases ?rows) (auto simp: first_item_def rest_lookup_def rest_part_def dp_held_def)
qed

lemma dp_add_held:
  assumes "dp_call (dp_add b) w = (r, w')" "at_path (body_json b) [''ref''] = Some (JStr k)"
  shows "dp_held w' = (dp_held w)(k := Suc (dp_held w k)) \<or> dp_held w' = dp_held w \<and> (\<exists>e. r = NotReached e)"
proof -
  from assms(2) obtain m where m: "body_json b = JObj m" "map_of m ''ref'' = Some (JStr k)"
    by (cases "body_json b") (auto simp: bind_eq_Some_conv)
  with assms(1) show ?thesis by (auto elim!: dp_call_cases simp: dp_add_def dp_held_def fun_eq_iff)
qed

lemma dp_drop_held: "dp_call (dp_drop p) w = (r, w') \<Longrightarrow> dp_held w' k \<le> dp_held w k"
proof (erule dp_call_cases)
  have le: "length (filter P (filter Q xs)) \<le> length (filter P xs)" for P Q and xs :: "doc list" by (induction xs) auto
  fix rs a w''
  assume "dp_drop p (w\<lparr>dp_replies := rs\<rparr>) = (a, w'')"
    "w' = w'' \<and> (r = a \<or> (\<exists>e. r = NotReached e)) \<or> w' = w\<lparr>dp_replies := rs\<rparr> \<and> (\<exists>e. r = NotReached e)"
  then show ?thesis using le by (auto simp: dp_drop_def dp_held_def)
qed

lemma depot_keyed: "keyed_op depot_create" "key_place depot_create = [''ref'']"
proof -
  have k: "key_parts ''number'' = [''number'']" "key_parts ''ref'' = [''ref'']" by code_simp+
  show "keyed_op depot_create" "key_place depot_create = [''ref'']"
    by (auto simp: keyed_op_def key_place_def wrap_path_def nests_def depot_create_def k)
qed

lemma depot_params:
  assumes "map_of vars ''idempotencyKey'' = Some (JStr k)" "rest_params plain_lib vars [(''ref'', ''{{idempotencyKey}}'')] = Inr q"
  shows "q = [(''ref'', k)]"
proof -
  have seg: "rest_segments ''{{idempotencyKey}}'' = [Var ''idempotencyKey'' ''{{idempotencyKey}}'']" by code_simp
  have "rest_lookup (JObj vars) ''idempotencyKey'' = JStr k" using assms(1) by (simp add: rest_lookup_def rest_part_def)
  with assms(2) show ?thesis by (auto simp: renderWith_def seg rest_scalar_def Let_def simp del: rest_segments.simps split: if_splits)
qed

lemmas depot_defs = depot_link_def depot_create_def

interpretation depot: rest_keys depot_link dp_held
proof unfold_locales
  fix name op e vars k p used q w st h' msg body w' found
  assume a: "rl_Operations depot_link name = Some op" "keyed_op op" "ro_Existing op = Some e" "map_of vars ''idempotencyKey'' = Some (JStr k)"
    "rest_params (rl_lib depot_link) vars (ex_Params e) = Inr q" "rl_Send depot_link ''GET'' p q [] NoBody w = (Replied st h' msg body, w')"
    "first_item (ex_Items e) (case body of None \<Rightarrow> JNull | Some v \<Rightarrow> v) = Inr found"
  from a(1,3) have e: "ex_Params e = [(''ref'', ''{{idempotencyKey}}'')]" "ex_Items e = ''value''" by (auto simp: depot_defs split: if_splits)
  with a(4,5) have "q = [(''ref'', k)]" by (intro depot_params) (auto simp: depot_link_def)
  with a(6,7) e dp_list_found show "found = None \<longleftrightarrow> dp_held w k = 0" by (simp add: depot_link_def)
next
  fix name op vars p used b k h w r w'
  assume a: "rl_Operations depot_link name = Some op" "keyed_op op" "at_path (body_json b) (key_place op) = Some (JStr k)"
    "rl_Send depot_link (ro_Method op) p [] h b w = (r, w')"
  then have "op = depot_create" by (auto simp: depot_link_def keyed_op_def split: if_splits)
  with a depot_keyed dp_add_held [of b w r w' k] show "dp_held w' = dp_held w \<or> dp_held w' = (dp_held w)(k := dp_held w k + 1)"
    by (auto simp: depot_defs)
next
  fix name op vars p used b k h w st h' msg body w'
  assume a: "rl_Operations depot_link name = Some op" "keyed_op op" "at_path (body_json b) (key_place op) = Some (JStr k)"
    "rl_Send depot_link (ro_Method op) p [] h b w = (Replied st h' msg body, w')"
  then have op: "op = depot_create" by (auto simp: depot_link_def keyed_op_def split: if_splits)
  with a depot_keyed dp_add_held [of b w "Replied st h' msg body" w' k] have "dp_held w' k = dp_held w k + 1" by (auto simp: depot_defs)
  moreover have "st \<noteq> 401" using a(4) op by (auto simp: depot_defs dp_add_def elim!: dp_call_cases split: json.splits)
  ultimately show "if st < 300 then dp_held w' k = dp_held w k + 1 else st = 401 \<longrightarrow> dp_held w' = dp_held w" by simp
next
  fix name op vars p used h b w r w' k
  assume "rl_Operations depot_link name = Some op" "\<not> keyed_op op" "rl_Send depot_link (ro_Method op) p [] h b w = (r, w')"
  with depot_keyed show "dp_held w' k \<le> dp_held w k" by (auto simp: depot_link_def split: if_splits intro: dp_drop_held)
qed (auto simp: depot_link_def dest: dp_list_keeps)

text \<open>A guard over it, on the table of claims: the answer to the first create is lost, and the second attempt finds the record.\<close>

definition depot_guard :: "(pg_table, depot) guard" where
  "depot_guard =
     \<lparr>gd_Policy = (\<lambda>w i. Inr (WritebackDefault_Decide 0 i)), gd_Approver = None, gd_Audit = (\<lambda>w ev. None),
      gd_Store = pg_ops 0, gd_Validate = None, gd_Now = (\<lambda>w. 0), gd_Wait = (\<lambda>w. ([], w))\<rparr>"

definition depot_state :: "reply list \<Rightarrow> (pg_table, depot) guard_state" where
  "depot_state replies =
     \<lparr>gs_store = (\<lambda>_. None), gs_log = [],
      gs_targets = [''erp'' \<mapsto> \<lparr>t_Target = rest_target depot_link, t_Metered = False, t_gov = newGovernor 10 2 0,
        t_brk = newBreaker \<lparr>cfg_Failures = 0, cfg_Cooldown = 0\<rparr>\<rparr>],
      gs_metered = (\<lambda>_. 0), gs_world = \<lparr>dp_rows = [], dp_replies = replies\<rparr>\<rparr>"

definition depot_request :: request where
  "depot_request = demo_request\<lparr>req_Payload := RawDoc (JObj [(''number'', JStr ''A1'')])\<rparr>"

definition depot_run :: "(outcome \<times> goerror option) \<times> (pg_table, depot) guard_state" where
  "depot_run = Commit depot_guard depot_request None
     (commits depot_guard [(depot_request, None)] (depot_state [Answered, AnswerLost (New_err ''reset'' [])]))"

lemma depot_run_committed: "out_Status (fst (fst depot_run)) = StatusCommitted \<and> length (dp_rows (gs_world (snd depot_run))) = 1"
  by code_simp

theorem guarded_rest_creates_once_witness:
  "out_Status (fst (fst depot_run)) = StatusCommitted \<and> dp_held (gs_world (snd depot_run)) ''k'' \<le> 1"
proof -
  obtain out err s' where r: "depot_run = ((out, err), s')" by (metis prod.collapse)
  have t: "t_Target t = rest_target depot_link" if "gs_targets (depot_state rs) name = Some t" for rs name t
    using that by (auto simp: depot_state_def split: if_splits)
  have "\<forall>k. dp_held (gs_world s') k \<le> 1"
    using guarded_rest_creates_once [OF depot.rest_keys_axioms t _ _ r [unfolded depot_run_def]]
    by (simp add: depot_guard_def) (simp add: depot_state_def dp_held_def)
  then have "dp_held (gs_world (snd depot_run)) ''k'' \<le> 1" unfolding r snd_conv by (rule spec)
  with depot_run_committed show ?thesis by blast
qed

end
