(* ===== verification/Token_Vault.thy ===== *)
theory Token_Vault
  imports Identity
begin

text \<open>
  Where rotated credentials are kept: the interface \<open>connector.TokenStore\<close> with its implementation in memory
  (\<open>pkg/connector/tokens.go\<close>) and the sealed table of the database (\<open>pkg/store/pgstore/tokens.go\<close>). The cipher, base64 and random
  nonces are parameters. A transaction may be refused before the update runs, roll back after it, or commit while its answer is lost.
\<close>

datatype tx_fate = TxCommits | TxRefused goerror | TxRollsBack goerror | TxUnknown goerror

definition tx_error :: "tx_fate \<Rightarrow> goerror option" where
  "tx_error f = (case f of TxCommits \<Rightarrow> None | TxRefused e \<Rightarrow> Some e | TxRollsBack e \<Rightarrow> Some e | TxUnknown e \<Rightarrow> Some e)"

definition tx_kept :: "tx_fate \<Rightarrow> bool" where
  "tx_kept f = (case f of TxCommits \<Rightarrow> True | TxUnknown _ \<Rightarrow> True | _ \<Rightarrow> False)"

lemma tx_simps [simp]:
  "tx_error TxCommits = None" "tx_error (TxRefused e) = Some e" "tx_error (TxRollsBack e) = Some e" "tx_error (TxUnknown e) = Some e"
  "tx_kept TxCommits" "\<not> tx_kept (TxRefused e)" "\<not> tx_kept (TxRollsBack e)" "tx_kept (TxUnknown e)"
  by (simp_all add: tx_error_def tx_kept_def)

text \<open>What an update does with the value under a key: it fails, leaves it or replaces it, and changes the variables \<open>'v\<close> it captured.\<close>

type_synonym 'v token_fn = "string option \<Rightarrow> 'v \<Rightarrow> (goerror + string option) \<times> 'v"

definition UpdateToken :: "tx_fate \<Rightarrow> string \<Rightarrow> 'v token_fn \<Rightarrow> (string \<rightharpoonup> string) \<Rightarrow> 'v \<Rightarrow> goerror option \<times> (string \<rightharpoonup> string) \<times> 'v" where
  "UpdateToken fate key fn m v =
     (case fate of
        TxRefused e \<Rightarrow> (Some e, m, v)
      | _ \<Rightarrow>
          (case fn (m key) v of
             (Inl e, v') \<Rightarrow> (Some e, m, v')
           | (Inr None, v') \<Rightarrow> (tx_error fate, m, v')
           | (Inr (Some next), v') \<Rightarrow> (tx_error fate, if tx_kept fate then m(key \<mapsto> next) else m, v')))"

section \<open>The vault\<close>

record aead =
  ae_Seal :: "string \<Rightarrow> string \<Rightarrow> string \<Rightarrow> string"
  ae_Open :: "string \<Rightarrow> string \<Rightarrow> string \<Rightarrow> string option"
  ae_NonceSize :: nat

record token_vault =
  tv_current :: string
  tv_keys :: "(string \<times> aead) list"

definition tokenKeyIDRE :: "string \<Rightarrow> bool" where
  "tokenKeyIDRE s \<longleftrightarrow> s \<noteq> [] \<and> length s \<le> 64 \<and> list_all (\<lambda>c. is_alnum c \<or> c \<in> {CHR ''.'', CHR ''_'', CHR ''-''}) s"

fun vault_keys :: "(string \<Rightarrow> string option) \<Rightarrow> (string \<Rightarrow> aead) \<Rightarrow> nat \<Rightarrow> string list \<Rightarrow> token_vault \<Rightarrow> goerror + token_vault" where
  "vault_keys b64 gcm i [] v = Inr v"
| "vault_keys b64 gcm i (part # parts) v =
     (case CutByte CHR '':'' (TrimSpace part) of
        (ident, r) \<Rightarrow>
          if r = None \<or> \<not> tokenKeyIDRE ident
          then Inl (New_err ''token keys: entry %d is not id:base64key (the id is 1-64 letters, digits, dots, underscores or dashes)'' [AInt (int i + 1)])
          else (case b64 (the r) of
                  None \<Rightarrow> Inl (New_err ''token key %s: must be 32 bytes, base64-encoded (openssl rand -base64 32)'' [AStr ident])
                | Some key \<Rightarrow>
                    if length key \<noteq> 32 then Inl (New_err ''token key %s: must be 32 bytes, base64-encoded (openssl rand -base64 32)'' [AStr ident])
                    else if map_of (tv_keys v) ident \<noteq> None then Inl (New_err ''token key %s is listed twice'' [AStr ident])
                    else vault_keys b64 gcm (Suc i) parts
                           (v\<lparr>tv_keys := tv_keys v @ [(ident, gcm key)], tv_current := (if tv_current v = '''' then ident else tv_current v)\<rparr>)))"

definition NewTokenVault :: "(string \<Rightarrow> string option) \<Rightarrow> (string \<Rightarrow> aead) \<Rightarrow> string \<Rightarrow> goerror + token_vault" where
  "NewTokenVault b64 gcm keys =
     (if TrimSpace keys = ''''
      then Inl (New_err ''token keys: none set; TURGON_TOKEN_KEYS=id:base64key seals rotated tokens (openssl rand -base64 32)'' [])
      else vault_keys b64 gcm 0 (Split CHR '','' keys) \<lparr>tv_current = '''', tv_keys = []\<rparr>)"

type_synonym token_rows = "string \<rightharpoonup> string \<times> string"

definition vault_open :: "token_vault \<Rightarrow> token_rows \<Rightarrow> string \<Rightarrow> goerror + string option" where
  "vault_open v rows key =
     (case rows key of
        None \<Rightarrow> Inr None
      | Some (keyID, sealed) \<Rightarrow>
          (case map_of (tv_keys v) keyID of
             None \<Rightarrow> Inl (New_err ''token %s is sealed with key %s, which TURGON_TOKEN_KEYS no longer holds'' [AStr key, AStr keyID])
           | Some a \<Rightarrow>
               let n = ae_NonceSize a in
               if length sealed < n then Inl (New_err ''token %s: the sealed value is damaged'' [AStr key])
               else (case ae_Open a (take n sealed) (drop n sealed) key of
                       None \<Rightarrow> Inl (New_err ''token %s cannot be opened with key %s: %w'' [AStr key, AStr keyID])
                     | Some x \<Rightarrow> Inr (Some x))))"

definition vault_UpdateToken ::
  "token_vault \<Rightarrow> string \<Rightarrow> tx_fate \<Rightarrow> string \<Rightarrow> 'v token_fn \<Rightarrow> token_rows \<Rightarrow> 'v \<Rightarrow> goerror option \<times> token_rows \<times> 'v" where
  "vault_UpdateToken v nonce fate key fn rows s =
     (case fate of
        TxRefused e \<Rightarrow> (Some e, rows, s)
      | _ \<Rightarrow>
          (case vault_open v rows key of
             Inl e \<Rightarrow> (Some e, rows, s)
           | Inr cur \<Rightarrow>
               (case fn cur s of
                  (Inl e, s') \<Rightarrow> (Some e, rows, s')
                | (Inr None, s') \<Rightarrow> (tx_error fate, rows, s')
                | (Inr (Some next), s') \<Rightarrow>
                    (tx_error fate,
                     if tx_kept fate
                     then rows(key \<mapsto> (tv_current v, nonce @ ae_Seal (the (map_of (tv_keys v) (tv_current v))) nonce next key)) else rows, s'))))"

section \<open>A vault is a token store\<close>

text \<open>Every key of the vault opens what it sealed, with the nonce size it has.\<close>

definition vault_sound :: "token_vault \<Rightarrow> bool" where
  "vault_sound v \<longleftrightarrow> (\<exists>a. map_of (tv_keys v) (tv_current v) = Some a) \<and>
     (\<forall>i a n x k. map_of (tv_keys v) i = Some a \<longrightarrow> length n = ae_NonceSize a \<longrightarrow> ae_Open a n (ae_Seal a n x k) k = Some x)"

text \<open>The values behind the rows.\<close>

definition vault_view :: "token_vault \<Rightarrow> token_rows \<Rightarrow> (string \<rightharpoonup> string)" where
  "vault_view v rows key = (case vault_open v rows key of Inl _ \<Rightarrow> None | Inr x \<Rightarrow> x)"

definition readable :: "token_vault \<Rightarrow> token_rows \<Rightarrow> bool" where
  "readable v rows \<longleftrightarrow> (\<forall>key. \<not> isl (vault_open v rows key))"

lemma vault_open_sealed:
  assumes "vault_sound v" "map_of (tv_keys v') (tv_current v) = map_of (tv_keys v) (tv_current v)"
    and "length nonce = ae_NonceSize (the (map_of (tv_keys v) (tv_current v)))"
  shows "vault_open v' (rows(key \<mapsto> (tv_current v, nonce @ ae_Seal (the (map_of (tv_keys v) (tv_current v))) nonce next key))) key = Inr (Some next)"
  using assms by (auto simp: vault_open_def vault_sound_def Let_def)

lemma vault_open_other: "k \<noteq> key \<Longrightarrow> vault_open v (rows(key \<mapsto> x)) k = vault_open v rows k"
  by (simp add: vault_open_def)

text \<open>C27: The vault behaves as the plain store it is documented to be: seen through its keys, an update of the sealed table is the update of a map from keys to
  values, for every outcome of the transaction; and what was readable stays so, also for a vault whose first key was changed and that still has the old one.\<close>

theorem vault_refines_token_map:
  assumes "vault_sound v" "readable v rows" "length nonce = ae_NonceSize (the (map_of (tv_keys v) (tv_current v)))"
    and "vault_UpdateToken v nonce fate key fn rows s = (e, rows', s')"
  shows "UpdateToken fate key fn (vault_view v rows) s = (e, vault_view v rows', s') \<and> readable v rows' \<and>
         (readable v' rows \<longrightarrow> map_of (tv_keys v') (tv_current v) = map_of (tv_keys v) (tv_current v) \<longrightarrow> readable v' rows')"
proof -
  from assms(2) obtain cur where cur: "vault_open v rows key = Inr cur" by (metis readable_def isl_def obj_sumE)
  note open_new = vault_open_sealed [OF assms(1) _ assms(3)]
  let ?new = "\<lambda>next. rows(key \<mapsto> (tv_current v, nonce @ ae_Seal (the (map_of (tv_keys v) (tv_current v))) nonce next key))"
  have view: "vault_view v (?new next) = (vault_view v rows)(key \<mapsto> next)" for "next"
  proof
    fix k
    show "vault_view v (?new next) k = ((vault_view v rows)(key \<mapsto> next)) k"
      by (cases "k = key") (simp_all add: vault_view_def open_new vault_open_other del: fun_upd_apply, simp_all add: vault_view_def)
  qed
  have "UpdateToken fate key fn (vault_view v rows) s = (e, vault_view v rows', s')"
    using assms(4) cur view
    by (auto simp: UpdateToken_def vault_UpdateToken_def vault_view_def [of v rows key] split: tx_fate.splits sum.splits prod.splits option.splits)
  moreover have rows': "rows' = rows \<or> (\<exists>next. rows' = ?new next)"
    using assms(4) by (auto simp: vault_UpdateToken_def split: tx_fate.splits sum.splits prod.splits option.splits if_splits)
  moreover have keep: "readable u rows'" if "readable u rows" "map_of (tv_keys u) (tv_current v) = map_of (tv_keys v) (tv_current v)" for u
    using rows' that open_new [OF that(2)] vault_open_other unfolding readable_def by (metis sum.disc(2))
  ultimately show ?thesis using keep [OF assms(2) refl] keep by blast
qed

definition plain_aead :: aead where
  "plain_aead = \<lparr>ae_Seal = (\<lambda>n x k. x), ae_Open = (\<lambda>n x k. Some x), ae_NonceSize = 1\<rparr>"

definition plain_vault :: token_vault where
  "plain_vault = \<lparr>tv_current = ''b'', tv_keys = [(''b'', plain_aead), (''a'', plain_aead)]\<rparr>"

theorem vault_refines_token_map_witness:
  "\<exists>rows. vault_UpdateToken plain_vault ''n'' TxCommits ''k'' (\<lambda>cur v. (Inr (Some ''t''), cur)) [''k'' \<mapsto> (''a'', ''ms'')] None = (None, rows, Some ''s'') \<and>
     UpdateToken TxCommits ''k'' (\<lambda>cur v. (Inr (Some ''t''), cur)) (vault_view plain_vault [''k'' \<mapsto> (''a'', ''ms'')]) None = (None, vault_view plain_vault rows, Some ''s'')"
proof -
  let ?rows = "[''k'' \<mapsto> (''a'', ''ms'')] :: token_rows" and ?fn = "\<lambda>cur v. (Inr (Some ''t''), cur)"
  have s: "vault_sound plain_vault" "readable plain_vault ?rows" "length ''n'' = ae_NonceSize (the (map_of (tv_keys plain_vault) (tv_current plain_vault)))"
    by (auto simp: vault_sound_def readable_def vault_open_def plain_vault_def plain_aead_def split: option.splits if_splits)
  have u: "vault_UpdateToken plain_vault ''n'' TxCommits ''k'' ?fn ?rows None = (None, ?rows(''k'' \<mapsto> (''b'', ''nt'')), Some ''s'')"
    by (simp add: vault_UpdateToken_def vault_open_def plain_vault_def plain_aead_def)
  with vault_refines_token_map [OF s u] show ?thesis by blast
qed

end
