(* ===== verification/Rest_Auth.thy ===== *)
theory Rest_Auth
  imports Token_Vault Rest_Writes
begin

text \<open>
  How the REST and SAP connectors authenticate (\<open>pkg/connector/rest/auth.go\<close>): the checks of a configuration and its secret, the access tokens of the
  client credentials and refresh token grants, sessions, and OAuth 1.0a signatures. The token server, the login and the library (URLs,
  hashes, encodings) are parameters; times are nanoseconds. Names of schemes, hosts and headers are compared as ASCII.
\<close>

section \<open>Configuration\<close>

record auth_config =
  ac_Type :: string
  ac_Header :: string
  ac_TokenURL :: string
  ac_Scopes :: "string list"
  ac_Realm :: string
  ac_ClientAuth :: string
  ac_LoginURL :: string
  ac_Cookies :: "string list"

definition lower_char :: "char \<Rightarrow> char" where
  "lower_char c = (let n = of_char c :: nat in if 65 \<le> n \<and> n \<le> 90 then char_of (n + 32) else c)"

definition ToLower :: "string \<Rightarrow> string" where
  "ToLower s = map lower_char s"

definition upper_char :: "char \<Rightarrow> char" where
  "upper_char c = (let n = of_char c :: nat in if 97 \<le> n \<and> n \<le> 122 then char_of (n - 32) else c)"

definition EqualFold :: "string \<Rightarrow> string \<Rightarrow> bool" where
  "EqualFold a b = (ToLower a = ToLower b)"

text \<open>\<open>url.Parse\<close>: scheme and host, unless it is refused.\<close>

type_synonym url_parse = "string \<Rightarrow> (string \<times> string) option"

definition http_url :: "url_parse \<Rightarrow> string \<Rightarrow> bool" where
  "http_url parse u = (case parse u of None \<Rightarrow> False | Some (scheme, host) \<Rightarrow> scheme \<in> {''https'', ''http''} \<and> host \<noteq> '''')"

definition auth_validate :: "url_parse \<Rightarrow> auth_config \<Rightarrow> goerror option" where
  "auth_validate parse a =
     (let t = ac_Type a in
      if t \<in> {''bearer'', ''basic'', ''none''} then None
      else if t = ''oauth1'' then
        (if ac_Realm a = '''' then Some (New_err ''auth: oauth1 needs a realm (the NetSuite account ID, e.g. 1234567_SB1)'' []) else None)
      else if t = ''header'' then
        (if ac_Header a = '''' \<or> EqualFold (ac_Header a) ''Authorization''
         then Some (New_err ''auth: header needs a header name other than Authorization (use bearer)'' []) else None)
      else if t = ''session'' then
        (if \<not> http_url parse (ac_LoginURL a) then Some (New_err ''auth: session needs an http(s) loginURL'' []) else None)
      else if t \<in> {''oauth2'', ''oauth2-refresh''} then
        (if \<not> http_url parse (ac_TokenURL a) then Some (New_err ''auth: %s needs an http(s) tokenURL'' [AStr t])
         else if ac_ClientAuth a \<noteq> '''' \<and> ac_ClientAuth a \<noteq> ''basic'' \<and> ac_ClientAuth a \<noteq> ''body''
         then Some (New_err ''auth: clientAuth must be basic or body, got %q'' [AStr (ac_ClientAuth a)])
         else None)
      else Some (New_err ''auth: type must be bearer, header, basic, oauth2, oauth2-refresh, oauth1, session or none, got %q'' [AStr t]))"

definition SameOrigin :: "url_parse \<Rightarrow> auth_config \<Rightarrow> string \<times> string \<Rightarrow> goerror option" where
  "SameOrigin parse a base =
     (if ac_Type a \<noteq> ''session'' then None
      else case parse (ac_LoginURL a) of
             None \<Rightarrow> Some (New_err ''auth: session needs an http(s) loginURL'' [])
           | Some (scheme, host) \<Rightarrow>
               if \<not> EqualFold scheme (fst base) \<or> \<not> EqualFold host (snd base)
               then Some (New_err ''auth: the session's loginURL (%s://%s) and the API (%s://%s) must share scheme and host'' [AStr scheme, AStr host, AStr (fst base), AStr (snd base)])
               else None)"

section \<open>Authenticators\<close>

record oauth1_creds =
  oc_ConsumerKey :: string
  oc_ConsumerSecret :: string
  oc_TokenID :: string
  oc_TokenSecret :: string

record token_state =
  ts_Seed :: string
  ts_RefreshToken :: string
  ts_AccessToken :: string
  ts_Expires :: int

record rotation =
  rn_spent :: string
  rn_state :: token_state

record authenticator =
  au_cfg :: auth_config
  au_secret :: string
  au_clientID :: string
  au_clientSecret :: string
  au_oauth1 :: oauth1_creds
  au_token :: string
  au_expires :: int
  au_refreshToken :: string
  au_tokens :: bool
  au_tokenKey :: string
  au_legacyKey :: string
  au_rejected :: string
  au_pending :: "rotation option"

text \<open>The library: decoding the secret, the two hashes in hexadecimal, the encoding of a stored state, \<open>url.QueryEscape\<close>, base64 and HMAC-SHA-256.\<close>

record auth_lib =
  al_Secret :: "string \<Rightarrow> json option"
  al_Sum8 :: "string \<Rightarrow> string"
  al_Sum12 :: "string \<Rightarrow> string"
  al_Marshal :: "token_state \<Rightarrow> string"
  al_Unmarshal :: "string \<Rightarrow> token_state option"
  al_QueryEscape :: "string \<Rightarrow> string"
  al_Base64 :: "string \<Rightarrow> string"
  al_Mac :: "string \<Rightarrow> string \<Rightarrow> string"

definition no_creds :: oauth1_creds where
  "no_creds = \<lparr>oc_ConsumerKey = '''', oc_ConsumerSecret = '''', oc_TokenID = '''', oc_TokenSecret = ''''\<rparr>"

definition blank_authenticator :: "auth_config \<Rightarrow> string \<Rightarrow> authenticator" where
  "blank_authenticator cfg secret =
     \<lparr>au_cfg = cfg, au_secret = secret, au_clientID = '''', au_clientSecret = '''', au_oauth1 = no_creds, au_token = '''', au_expires = 0,
      au_refreshToken = '''', au_tokens = False, au_tokenKey = '''', au_legacyKey = '''', au_rejected = '''', au_pending = None\<rparr>"

definition secret_strings :: "auth_lib \<Rightarrow> string \<Rightarrow> string list \<Rightarrow> string list option" where
  "secret_strings lib secret names =
     (case al_Secret lib secret of
        Some (JObj m) \<Rightarrow>
          (let vs = map (string_member m) names in
           if list_all (\<lambda>v. v \<noteq> None \<and> v \<noteq> Some '''') vs then Some (map the vs) else None)
      | _ \<Rightarrow> None)"

definition newAuthenticator :: "auth_lib \<Rightarrow> auth_config \<Rightarrow> string \<Rightarrow> goerror + authenticator" where
  "newAuthenticator lib cfg secret0 =
     (let secret = TrimSpace secret0; a = blank_authenticator cfg secret; t = ac_Type cfg in
      if t = ''bearer'' \<or> t = ''header'' then
        (if secret = '''' then Inl (New_err ''auth: the secret must hold the %s token'' [AStr t]) else Inr a)
      else if t = ''basic'' then
        (if CHR '':'' \<notin> set secret then Inl (New_err ''auth: the basic secret must be user:password'' []) else Inr a)
      else if t = ''oauth2'' then
        (case secret_strings lib secret [''clientId'', ''clientSecret''] of
           Some [i, s] \<Rightarrow> Inr (a\<lparr>au_clientID := i, au_clientSecret := s\<rparr>)
         | _ \<Rightarrow> Inl (New_err ''auth: the oauth2 secret must be clientId, clientSecret'' []))
      else if t = ''oauth2-refresh'' then
        (case secret_strings lib secret [''clientId'', ''clientSecret'', ''refreshToken''] of
           Some [i, s, r] \<Rightarrow> Inr (a\<lparr>au_clientID := i, au_clientSecret := s, au_refreshToken := r\<rparr>)
         | _ \<Rightarrow> Inl (New_err ''auth: the oauth2-refresh secret must be clientId, clientSecret, refreshToken'' []))
      else if t = ''session'' then
        (case al_Secret lib secret of
           Some (JObj (x # xs)) \<Rightarrow> Inr a
         | _ \<Rightarrow> Inl (New_err ''auth: the session secret must be the body of the login'' []))
      else if t = ''oauth1'' then
        (case secret_strings lib secret [''consumerKey'', ''consumerSecret'', ''tokenId'', ''tokenSecret''] of
           Some [ck, cs, ti, tk] \<Rightarrow> Inr (a\<lparr>au_oauth1 := \<lparr>oc_ConsumerKey = ck, oc_ConsumerSecret = cs, oc_TokenID = ti, oc_TokenSecret = tk\<rparr>\<rparr>)
         | _ \<Rightarrow> Inl (New_err ''auth: the oauth1 secret must be consumerKey, consumerSecret, tokenId, tokenSecret'' []))
      else Inr a)"

definition NewAuthenticator :: "auth_lib \<Rightarrow> url_parse \<Rightarrow> auth_config \<Rightarrow> string \<Rightarrow> goerror + authenticator" where
  "NewAuthenticator lib parse cfg secret =
     (case auth_validate parse cfg of Some e \<Rightarrow> Inl e | None \<Rightarrow> newAuthenticator lib cfg secret)"

definition refreshable :: "authenticator \<Rightarrow> bool" where
  "refreshable a = (ac_Type (au_cfg a) \<in> {''oauth2'', ''oauth2-refresh'', ''session''})"

definition useTokens :: "auth_lib \<Rightarrow> string \<Rightarrow> authenticator \<Rightarrow> authenticator" where
  "useTokens lib key a =
     (let base = ac_TokenURL (au_cfg a) @ [CHR 0x00] @ au_clientID a in
      a\<lparr>au_tokens := True, au_legacyKey := key @ ''@'' @ al_Sum8 lib base,
        au_tokenKey := key @ ''@'' @ al_Sum12 lib (base @ [CHR 0x00] @ au_refreshToken a)\<rparr>)"

text \<open>\<open>invalidate\<close>: \<open>sent\<close> is the token or the cookies of the request that was refused, \<open>None\<close> when there is no request.\<close>

definition invalidate :: "string option \<Rightarrow> authenticator \<Rightarrow> authenticator" where
  "invalidate sent a =
     (if au_token a = '''' then a
      else case sent of
             Some s \<Rightarrow> if s \<noteq> au_token a then a else a\<lparr>au_rejected := au_token a, au_token := ''''\<rparr>
           | None \<Rightarrow> a\<lparr>au_rejected := au_token a, au_token := ''''\<rparr>)"

section \<open>Tokens\<close>

record token_request =
  tq_URL :: string
  tq_Form :: "(string \<times> string) list"
  tq_Basic :: "(string \<times> string) option"

datatype token_answer = TokenDown goerror | TokenStatus int string | TokenBody "(string \<times> string \<times> int) option"

definition client_request :: "auth_lib \<Rightarrow> authenticator \<Rightarrow> (string \<times> string) list \<Rightarrow> token_request" where
  "client_request lib a form =
     (let body = ac_ClientAuth (au_cfg a) = ''body'' in
      \<lparr>tq_URL = ac_TokenURL (au_cfg a),
       tq_Form = form @ (if body then [(''client_id'', au_clientID a), (''client_secret'', au_clientSecret a)] else []),
       tq_Basic = (if body then None else Some (al_QueryEscape lib (au_clientID a), al_QueryEscape lib (au_clientSecret a)))\<rparr>)"

definition token_life :: "int \<Rightarrow> int" where
  "token_life expires_in = (let life = wrap64 (expires_in * 1000000000) in if life \<le> 0 then 3600000000000 else life)"

definition token_margin :: "int \<Rightarrow> int" where
  "token_margin life = (if life < 240000000000 then life div 4 else 60000000000)"

definition token_failure :: "string \<Rightarrow> auth_config \<Rightarrow> token_answer \<Rightarrow> goerror" where
  "token_failure what cfg r =
     (case r of
        TokenDown e \<Rightarrow> Wrap_err (what @ '': %w'') [] e
      | TokenStatus st b \<Rightarrow> New_err ''POST %s: HTTP %d: %s'' [AStr (ac_TokenURL cfg), AInt st, AStr b]
      | TokenBody _ \<Rightarrow> New_err (what @ '': no access_token in the response'') [])"

definition auth_current ::
  "auth_lib \<Rightarrow> (token_request \<Rightarrow> 'w \<Rightarrow> token_answer \<times> 'w) \<Rightarrow> int \<Rightarrow> int \<Rightarrow> authenticator \<Rightarrow> 'w \<Rightarrow> (goerror + string) \<times> authenticator \<times> 'w" where
  "auth_current lib send now later a w =
     (if au_token a \<noteq> '''' \<and> now < au_expires a then (Inr (au_token a), a, w)
      else (let scopes = ac_Scopes (au_cfg a);
                form = [(''grant_type'', ''client_credentials'')] @ (if scopes \<noteq> [] then [(''scope'', Join scopes '' '')] else [])
            in case send (client_request lib a form) w of
                 (TokenBody (Some (access, _, expires_in)), w') \<Rightarrow>
                   if access = '''' then (Inl (token_failure ''oauth2 token'' (au_cfg a) (TokenBody None)), a, w')
                   else (let life = token_life expires_in in
                         (Inr access, a\<lparr>au_token := access, au_expires := later + (life - token_margin life)\<rparr>, w'))
               | (r, w') \<Rightarrow> (Inl (token_failure ''oauth2 token'' (au_cfg a) r), a, w')))"

definition refreshGrant ::
  "auth_lib \<Rightarrow> (token_request \<Rightarrow> 'w \<Rightarrow> token_answer \<times> 'w) \<Rightarrow> authenticator \<Rightarrow> string \<Rightarrow> 'w \<Rightarrow> (goerror + string \<times> string \<times> int) \<times> 'w" where
  "refreshGrant lib send a refresh w =
     (case send (client_request lib a [(''grant_type'', ''refresh_token''), (''refresh_token'', refresh)]) w of
        (TokenBody (Some (access, next, expires_in)), w') \<Rightarrow>
          if access = '''' then (Inl (token_failure ''oauth2 refresh'' (au_cfg a) (TokenBody None)), w')
          else (Inr (access, next, token_life expires_in), w')
      | (r, w') \<Rightarrow> (Inl (token_failure ''oauth2 refresh'' (au_cfg a) r), w'))"

text \<open>The variables that the updates of \<open>refreshed\<close> share.\<close>

record 'w refresh_vars =
  gv_auth :: authenticator
  gv_world :: 'w
  gv_legacy :: "token_state option"
  gv_token :: string
  gv_expires :: int

definition legacy_fn :: "auth_lib \<Rightarrow> string \<Rightarrow> 'w refresh_vars token_fn" where
  "legacy_fn lib seed cur v =
     (Inr None,
      case Option.bind cur (al_Unmarshal lib) of
        None \<Rightarrow> v
      | Some st \<Rightarrow> if ts_Seed st = seed \<and> ts_RefreshToken st \<noteq> '''' then v\<lparr>gv_legacy := Some st\<rparr> else v)"

definition no_state :: token_state where
  "no_state = \<lparr>ts_Seed = '''', ts_RefreshToken = '''', ts_AccessToken = '''', ts_Expires = 0\<rparr>"

text \<open>The state an update starts from, and whether it has to be stored.\<close>

definition start_state :: "auth_lib \<Rightarrow> string \<Rightarrow> string \<Rightarrow> token_state option \<Rightarrow> string option \<Rightarrow> goerror + token_state \<times> bool" where
  "start_state lib seed token legacy cur =
     (let check = (\<lambda>(st, ch). if ts_Seed st \<noteq> seed \<or> ts_RefreshToken st = '''' then (no_state\<lparr>ts_Seed := seed, ts_RefreshToken := token\<rparr>, True) else (st, ch)) in
      case cur of
        Some b \<Rightarrow>
          (case al_Unmarshal lib b of
             None \<Rightarrow> Inl (New_err ''oauth2-refresh: the stored token is not readable: %w'' [])
           | Some st \<Rightarrow> Inr (check (st, False)))
      | None \<Rightarrow> Inr (check (case legacy of Some st \<Rightarrow> (st, True) | None \<Rightarrow> (no_state, False))))"

definition missed_rotation :: "token_state \<times> bool \<Rightarrow> rotation option \<Rightarrow> token_state \<times> bool \<times> rotation option" where
  "missed_rotation s pending =
     (case s of
        (st, ch) \<Rightarrow>
          (case pending of
             None \<Rightarrow> (st, ch, None)
           | Some p \<Rightarrow> if ts_RefreshToken st = rn_spent p then (rn_state p, True, Some p) else (st, ch, None)))"

definition refresh_fn ::
  "auth_lib \<Rightarrow> (token_request \<Rightarrow> 'w \<Rightarrow> token_answer \<times> 'w) \<Rightarrow> string \<Rightarrow> int \<Rightarrow> int \<Rightarrow> 'w refresh_vars token_fn" where
  "refresh_fn lib send seed now later cur v =
     (case start_state lib seed (au_refreshToken (gv_auth v)) (gv_legacy v) cur of
        Inl e \<Rightarrow> (Inl e, v)
      | Inr s \<Rightarrow>
          (case missed_rotation s (au_pending (gv_auth v)) of
             (st, changed, pending) \<Rightarrow>
               (let a = (gv_auth v)\<lparr>au_pending := pending\<rparr> in
                if ts_AccessToken st = '''' \<or> ts_AccessToken st = au_rejected a \<or> \<not> now < ts_Expires st
                then (case refreshGrant lib send a (ts_RefreshToken st) (gv_world v) of
                        (Inl e, w') \<Rightarrow> (Inl e, v\<lparr>gv_auth := a, gv_world := w'\<rparr>)
                      | (Inr (access, next, life), w') \<Rightarrow>
                          (let st' = st\<lparr>ts_AccessToken := access, ts_Expires := later + (life - token_margin life),
                                        ts_RefreshToken := (if next \<noteq> '''' then next else ts_RefreshToken st)\<rparr>;
                               spent = (case pending of None \<Rightarrow> ts_RefreshToken st | Some p \<Rightarrow> rn_spent p)
                           in (Inr (Some (al_Marshal lib st')),
                               v\<lparr>gv_auth := a\<lparr>au_pending := Some \<lparr>rn_spent = spent, rn_state = st'\<rparr>\<rparr>, gv_world := w',
                                 gv_token := access, gv_expires := ts_Expires st'\<rparr>)))
                else (Inr (if changed then Some (al_Marshal lib st) else None),
                      v\<lparr>gv_auth := a, gv_token := ts_AccessToken st, gv_expires := ts_Expires st\<rparr>))))"

definition ErrNoTokenStore :: goerror where
  "ErrNoTokenStore = New_err ''oauth2-refresh keeps the refresh tokens the server rotates in Turgon's database'' []"

text \<open>\<open>refreshed\<close> over a token store: what becomes of its two transactions is given, as are the times it reads.\<close>

definition refreshed ::
  "auth_lib \<Rightarrow> (token_request \<Rightarrow> 'w \<Rightarrow> token_answer \<times> 'w) \<Rightarrow> tx_fate \<times> tx_fate \<Rightarrow> int \<times> int \<times> int \<Rightarrow> authenticator \<Rightarrow> (string \<rightharpoonup> string) \<Rightarrow> 'w
     \<Rightarrow> (goerror + string) \<times> authenticator \<times> (string \<rightharpoonup> string) \<times> 'w" where
  "refreshed lib send fates clock a store w =
     (case clock of
        (now0, now, later) \<Rightarrow>
          if au_token a \<noteq> '''' \<and> now0 < au_expires a then (Inr (au_token a), a, store, w)
          else if \<not> au_tokens a then (Inl ErrNoTokenStore, a, store, w)
          else (let seed = al_Sum8 lib (au_refreshToken a);
                    v = \<lparr>gv_auth = a, gv_world = w, gv_legacy = None, gv_token = '''', gv_expires = 0\<rparr>
                in case (if au_legacyKey a = '''' then (None, store, v) else UpdateToken (fst fates) (au_legacyKey a) (legacy_fn lib seed) store v) of
                     (Some e, store1, v1) \<Rightarrow> (Inl e, gv_auth v1, store1, gv_world v1)
                   | (None, store1, v1) \<Rightarrow>
                       (case UpdateToken (snd fates) (au_tokenKey a) (refresh_fn lib send seed now later) store1 v1 of
                          (Some e, store2, v2) \<Rightarrow> (Inl e, gv_auth v2, store2, gv_world v2)
                        | (None, store2, v2) \<Rightarrow>
                            (Inr (gv_token v2),
                             (gv_auth v2)\<lparr>au_pending := None, au_legacyKey := '''', au_token := gv_token v2, au_expires := gv_expires v2\<rparr>,
                             store2, gv_world v2))))"

section \<open>Sessions\<close>

datatype login_answer = LoginDown goerror | LoginStatus int string | LoginOk "(string \<times> string) list" "rat option"

definition auth_session ::
  "('w \<Rightarrow> login_answer \<times> 'w) \<Rightarrow> int \<Rightarrow> int \<Rightarrow> authenticator \<Rightarrow> 'w \<Rightarrow> (goerror + string) \<times> authenticator \<times> 'w" where
  "auth_session login now later a w =
     (if au_token a \<noteq> '''' \<and> now < au_expires a then (Inr (au_token a), a, w)
      else case login w of
             (LoginDown e, w') \<Rightarrow> (Inl (Wrap_err ''session login: %w'' [] e), a, w')
           | (LoginStatus st b, w') \<Rightarrow> (Inl (New_err ''POST %s: HTTP %d: %s'' [AStr (ac_LoginURL (au_cfg a)), AInt st, AStr b]), a, w')
           | (LoginOk cookies minutes, w') \<Rightarrow>
               (let keep = ac_Cookies (au_cfg a);
                    parts = map (\<lambda>(n, v). n @ ''='' @ v) (filter (\<lambda>(n, v). keep = [] \<or> n \<in> set keep) cookies);
                    life = (case minutes of Some m \<Rightarrow> if 0 < m then wrap64 (trunc_int (fl (m * 60000000000))) else 1800000000000 | None \<Rightarrow> 1800000000000)
                in if parts = [] then (Inl (New_err ''session login: %s set no session cookie'' [AStr (ac_LoginURL (au_cfg a))]), a, w')
                   else (let cookie = Join parts ''; '' in
                         (Inr cookie, a\<lparr>au_token := cookie, au_expires := later + go_div (wrap64 (life * 3)) 4\<rparr>, w'))))"

section \<open>OAuth 1.0a\<close>

definition oauth_char :: "char \<Rightarrow> string" where
  "oauth_char c =
     (if is_alnum c \<or> c \<in> {CHR ''-'', CHR ''.'', CHR ''_'', CHR ''~''} then [c]
      else let n = (of_char c :: nat) in [CHR ''%'', hex_digit (n div 16), hex_digit (n mod 16)])"

definition oauthEscape :: "string \<Rightarrow> string" where
  "oauthEscape s = concat (map oauth_char s)"

definition oauth_pair :: "string \<times> string \<Rightarrow> string" where
  "oauth_pair kv = oauthEscape (fst kv) @ ''='' @ oauthEscape (snd kv)"

definition oauth_params :: "string \<Rightarrow> oauth1_creds \<Rightarrow> nat \<Rightarrow> string \<Rightarrow> (string \<times> string) list" where
  "oauth_params meth c t nonce =
     [(''oauth_consumer_key'', oc_ConsumerKey c), (''oauth_nonce'', nonce), (''oauth_signature_method'', meth), (''oauth_timestamp'', Itoa t),
      (''oauth_token'', oc_TokenID c), (''oauth_version'', ''1.0'')]"

definition oauth_base :: "string \<Rightarrow> string \<times> string \<times> string \<Rightarrow> (string \<times> string) list \<Rightarrow> string" where
  "oauth_base meth u params =
     (case u of
        (scheme, host, path) \<Rightarrow>
          map upper_char meth @ ''&'' @ oauthEscape (ToLower scheme @ ''://'' @ ToLower host @ path) @ ''&'' @
          oauthEscape (Join (sort (map oauth_pair params)) ''&''))"

definition signOAuth1 ::
  "auth_lib \<Rightarrow> string \<Rightarrow> string \<Rightarrow> string \<times> string \<times> string \<Rightarrow> (string \<times> string) list \<Rightarrow> string \<Rightarrow> oauth1_creds \<Rightarrow> nat \<Rightarrow> string \<Rightarrow> string" where
  "signOAuth1 lib sigMethod meth u query realm c t nonce =
     (let params = oauth_params sigMethod c t nonce;
          mac = al_Mac lib (oauthEscape (oc_ConsumerSecret c) @ ''&'' @ oauthEscape (oc_TokenSecret c)) (oauth_base meth u (params @ query));
          signed = sort_key fst (params @ [(''oauth_signature'', al_Base64 lib mac)])
      in ''OAuth realm='' @ [CHR 0x22] @ oauthEscape realm @ [CHR 0x22] @
         concat (map (\<lambda>(k, v). '', '' @ k @ ''='' @ [CHR 0x22] @ oauthEscape v @ [CHR 0x22]) signed))"

section \<open>Applying a credential\<close>

text \<open>\<open>apply\<close>: the header it sets, if any. The request is its method, address and query.\<close>

definition auth_apply ::
  "auth_lib \<Rightarrow> (token_request \<Rightarrow> 'w \<Rightarrow> token_answer \<times> 'w) \<Rightarrow> ('w \<Rightarrow> login_answer \<times> 'w) \<Rightarrow> tx_fate \<times> tx_fate \<Rightarrow> int \<times> int \<times> int \<Rightarrow> string
     \<Rightarrow> string \<times> (string \<times> string \<times> string) \<times> (string \<times> string) list \<Rightarrow> authenticator \<Rightarrow> (string \<rightharpoonup> string) \<Rightarrow> 'w
     \<Rightarrow> (goerror + (string \<times> string) option) \<times> authenticator \<times> (string \<rightharpoonup> string) \<times> 'w" where
  "auth_apply lib send login fates clock nonce req a store w =
     (let t = ac_Type (au_cfg a); now = fst clock; later = snd (snd clock);
          bearer = (\<lambda>r. case r of Inl e \<Rightarrow> Inl e | Inr token \<Rightarrow> Inr (Some (''Authorization'', ''Bearer '' @ token)))
      in if t = ''bearer'' then (bearer (Inr (au_secret a)), a, store, w)
         else if t = ''header'' then (Inr (Some (ac_Header (au_cfg a), au_secret a)), a, store, w)
         else if t = ''basic'' then (Inr (Some (''Authorization'', ''Basic '' @ al_Base64 lib (au_secret a))), a, store, w)
         else if t = ''oauth2'' then (case auth_current lib send now later a w of (r, a', w') \<Rightarrow> (bearer r, a', store, w'))
         else if t = ''oauth2-refresh'' then (case refreshed lib send fates clock a store w of (r, a', store', w') \<Rightarrow> (bearer r, a', store', w'))
         else if t = ''session''
         then (case auth_session login now later a w of
                 (Inl e, a', w') \<Rightarrow> (Inl e, a', store, w')
               | (Inr cookie, a', w') \<Rightarrow> (Inr (Some (''Cookie'', cookie)), a', store, w'))
         else if t = ''oauth1''
         then (case req of (meth, u, query) \<Rightarrow>
                 (Inr (Some (''Authorization'', signOAuth1 lib ''HMAC-SHA256'' meth u query (ac_Realm (au_cfg a)) (au_oauth1 a) (nat (now div 1000000000)) nonce)), a, store, w))
         else (Inr None, a, store, w))"

end
