(* ===== verification/Token_Fleet.thy ===== *)
theory Token_Fleet
  imports Rest_Auth
begin

text \<open>
  Refresh tokens that the server rotates, used by any number of workers over one store whose transactions may fail: the token the server
  accepts is never lost while the workers run. \<open>rot_step\<close> is what a call of \<open>refreshed\<close> does to the token in the store, the token the
  server accepts and the rotations the workers hold in memory; its invariant is shown by rule induction, and the code's calls are
  steps of it. What the server must do is the locale \<open>token_server\<close>: an answer that is not a grant has not spent the token.
\<close>

section \<open>Rotations\<close>

record rot =
  rt_held :: string
  rt_cur :: string
  rt_issued :: "string set"
  rt_pend :: "nat \<Rightarrow> (string \<times> string) option"

definition rot_kept :: "nat \<Rightarrow> rot \<Rightarrow> (string \<times> string) option" where
  "rot_kept i s = (case rt_pend s i of Some p \<Rightarrow> if fst p = rt_held s then Some p else None | None \<Rightarrow> None)"

definition offered :: "nat \<Rightarrow> rot \<Rightarrow> string" where
  "offered i s = (case rot_kept i s of Some p \<Rightarrow> snd p | None \<Rightarrow> rt_held s)"

inductive rot_step :: "rot \<Rightarrow> rot \<Rightarrow> bool" where
  idle: "rot_step s s"
| hold_missed: "rot_step s (s\<lparr>rt_pend := (rt_pend s)(i := rot_kept i s)\<rparr>)"
| hold_unknown: "rot_step s (s\<lparr>rt_held := offered i s, rt_pend := (rt_pend s)(i := rot_kept i s)\<rparr>)"
| hold_done: "rot_step s (s\<lparr>rt_held := offered i s, rt_pend := (rt_pend s)(i := None)\<rparr>)"
| grant_missed: "offered i s = rt_cur s \<Longrightarrow> c' = rt_cur s \<or> c' \<notin> rt_issued s \<Longrightarrow> rt_issued s \<subseteq> I \<Longrightarrow> c' \<in> I \<Longrightarrow>
    rot_step s (s\<lparr>rt_cur := c', rt_issued := I, rt_pend := (rt_pend s)(i := Some (rt_held s, c'))\<rparr>)"
| grant_unknown: "offered i s = rt_cur s \<Longrightarrow> c' = rt_cur s \<or> c' \<notin> rt_issued s \<Longrightarrow> rt_issued s \<subseteq> I \<Longrightarrow> c' \<in> I \<Longrightarrow>
    rot_step s (s\<lparr>rt_held := c', rt_cur := c', rt_issued := I, rt_pend := (rt_pend s)(i := Some (rt_held s, c'))\<rparr>)"
| grant_done: "offered i s = rt_cur s \<Longrightarrow> c' = rt_cur s \<or> c' \<notin> rt_issued s \<Longrightarrow> rt_issued s \<subseteq> I \<Longrightarrow> c' \<in> I \<Longrightarrow>
    rot_step s (s\<lparr>rt_held := c', rt_cur := c', rt_issued := I, rt_pend := (rt_pend s)(i := None)\<rparr>)"

text \<open>The store has the token in force, or a worker can bring it there.\<close>

definition bridged :: "rot \<Rightarrow> bool" where
  "bridged s \<longleftrightarrow> rt_held s = rt_cur s \<or> (\<exists>i. rt_pend s i = Some (rt_held s, rt_cur s))"

definition rot_ok :: "rot \<Rightarrow> bool" where
  "rot_ok s \<longleftrightarrow> bridged s \<and>
     (\<forall>i r. rt_pend s i = Some (rt_held s, r) \<longrightarrow> r = rt_held s \<or> r = rt_cur s) \<and>
     (\<forall>i r. rt_pend s i = Some (rt_cur s, r) \<longrightarrow> r = rt_cur s) \<and>
     (\<forall>i j r q. rt_pend s i = Some (rt_held s, r) \<longrightarrow> r \<noteq> rt_held s \<longrightarrow> rt_pend s j = Some (rt_held s, q) \<longrightarrow> i \<noteq> j \<longrightarrow> q = rt_held s) \<and>
     (\<forall>i p. rt_pend s i = Some p \<longrightarrow> fst p \<in> rt_issued s) \<and> rt_held s \<in> rt_issued s \<and> rt_cur s \<in> rt_issued s"

lemma rot_okD:
  assumes "rot_ok s"
  shows "rt_pend s i = Some (rt_held s, r) \<Longrightarrow> r = rt_held s \<or> r = rt_cur s"
    and "rt_pend s i = Some (rt_cur s, r) \<Longrightarrow> r = rt_cur s"
    and "rt_pend s i = Some (rt_held s, r) \<Longrightarrow> r \<noteq> rt_held s \<Longrightarrow> rt_pend s j = Some (rt_held s, q) \<Longrightarrow> i \<noteq> j \<Longrightarrow> q = rt_held s"
    and "rt_pend s i = Some p \<Longrightarrow> fst p \<in> rt_issued s" "rt_held s \<in> rt_issued s" "rt_cur s \<in> rt_issued s"
    and "bridged s"
  using assms unfolding rot_ok_def by blast+

lemma kept_cases:
  obtains "rot_kept i s = None" "offered i s = rt_held s" | r where "rt_pend s i = Some (rt_held s, r)" "rot_kept i s = Some (rt_held s, r)" "offered i s = r"
proof (cases "rot_kept i s")
  case (Some p)
  then have "rt_pend s i = Some (rt_held s, snd p) \<and> p = (rt_held s, snd p)"
    by (cases p) (auto simp: rot_kept_def split: option.splits if_splits)
  with Some that(2) [of "snd p"] show ?thesis by (simp add: offered_def)
qed (use that(1) in \<open>simp add: offered_def\<close>)

text \<open>The worker whose token is the one in force, when the store has another one, holds the only such rotation.\<close>

lemma others_hold:
  assumes "rot_ok s" "offered i s = rt_cur s" "rt_pend s j = Some (rt_held s, q)" "j \<noteq> i"
  shows "q = rt_held s"
proof (cases rule: kept_cases [of i s])
  case 1
  with assms rot_okD(2) [OF assms(1)] show ?thesis by metis
next
  case (2 r)
  with assms rot_okD(2,3) [OF assms(1)] show ?thesis by metis
qed

lemma rot_ok_fewer:
  assumes "rot_ok s" "\<And>j x. pd j = Some x \<Longrightarrow> rt_pend s j = Some x" "bridged (s\<lparr>rt_pend := pd\<rparr>)"
  shows "rot_ok (s\<lparr>rt_pend := pd\<rparr>)"
proof -
  note d = rot_okD [OF assms(1)]
  have "pd i = Some (rt_held s, r) \<Longrightarrow> r = rt_held s \<or> r = rt_cur s" "pd i = Some (rt_cur s, r) \<Longrightarrow> r = rt_cur s"
    "pd i = Some (rt_held s, r) \<Longrightarrow> r \<noteq> rt_held s \<Longrightarrow> pd j = Some (rt_held s, q) \<Longrightarrow> i \<noteq> j \<Longrightarrow> q = rt_held s"
    "pd i = Some p \<Longrightarrow> fst p \<in> rt_issued s" for i j r q p
    using d(1) [OF assms(2)] d(2) [OF assms(2)] d(3) [OF assms(2) _ assms(2)] d(4) [OF assms(2)] by blast+
  with assms(3) d(5,6) show ?thesis unfolding rot_ok_def by simp
qed

lemma hold_ok:
  assumes ok: "rot_ok s" and p: "p = None \<or> p = rot_kept i s" and h: "h = offered i s \<or> h = rt_held s \<and> p = rot_kept i s"
  shows "rot_ok (s\<lparr>rt_held := h, rt_pend := (rt_pend s)(i := p)\<rparr>)"
proof (cases "h = rt_cur s")
  case True
  have "rt_pend s j = Some (rt_cur s, r) \<Longrightarrow> r = rt_cur s" for j r by (rule rot_okD(2) [OF ok])
  moreover have "p = Some x \<Longrightarrow> rt_pend s i = Some x" for x using p by (auto simp: rot_kept_def split: option.splits if_splits)
  ultimately show ?thesis using True rot_okD(4-6) [OF ok] unfolding rot_ok_def bridged_def by (auto split: if_splits) 
next
  case False
  have h': "h = rt_held s" using h rot_okD(1) [OF ok] False by (cases rule: kept_cases [of i s]) auto
  have own: "p = Some x \<Longrightarrow> rt_pend s i = Some x" for x using p by (auto simp: rot_kept_def split: option.splits if_splits)
  from rot_okD(7) [OF ok] False h' obtain k where k: "rt_pend s k = Some (rt_held s, rt_cur s)" by (auto simp: bridged_def)
  have "k = i \<Longrightarrow> p = Some (rt_held s, rt_cur s)"
    using k h False h' by (auto simp: rot_kept_def offered_def)
  with k have "\<exists>k. ((rt_pend s)(i := p)) k = Some (rt_held s, rt_cur s)" by (metis fun_upd_apply)
  then have b: "bridged (s\<lparr>rt_pend := (rt_pend s)(i := p)\<rparr>)" by (simp add: bridged_def)
  have "s\<lparr>rt_held := h, rt_pend := (rt_pend s)(i := p)\<rparr> = s\<lparr>rt_pend := (rt_pend s)(i := p)\<rparr>" by (simp add: h')
  with rot_ok_fewer [OF ok _ b] own show ?thesis by (auto split: if_splits)
qed

lemma grant_ok:
  assumes ok: "rot_ok s" and c: "offered i s = rt_cur s" "c' = rt_cur s \<or> c' \<notin> rt_issued s" "rt_issued s \<subseteq> I" "c' \<in> I"
    and p: "p = Some (rt_held s, c') \<or> p = None \<and> h = c'" and h: "h = rt_held s \<or> h = c'"
  shows "rot_ok (s\<lparr>rt_held := h, rt_cur := c', rt_issued := I, rt_pend := (rt_pend s)(i := p)\<rparr>)"
proof -
  have cur: "rt_pend s j = Some (c', r) \<Longrightarrow> r = c'" for j r
    using c(2) rot_okD(2,4) [OF ok] by force
  have held: "rt_held s = c' \<Longrightarrow> c' = rt_cur s" using c(2) rot_okD(5) [OF ok] by auto
  have other: "rt_pend s j = Some (rt_held s, q) \<Longrightarrow> j \<noteq> i \<Longrightarrow> q = rt_held s" for j q by (rule others_hold [OF ok c(1)])
  have issued: "rt_pend s j = Some x \<Longrightarrow> fst x \<in> I" "rt_held s \<in> I" for j x using rot_okD(4,5) [OF ok] c(3) by blast+
  have b: "bridged (s\<lparr>rt_held := h, rt_cur := c', rt_issued := I, rt_pend := (rt_pend s)(i := p)\<rparr>)"
    using p h by (auto simp: bridged_def)
  show ?thesis unfolding rot_ok_def using b p h cur other issued c(4) by (auto split: if_splits)
qed

lemma rot_step_ok: "rot_step s s' \<Longrightarrow> rot_ok s \<Longrightarrow> rot_ok s'"
proof (induction rule: rot_step.induct)
  case (hold_missed s i)
  from hold_ok [OF hold_missed, of "rot_kept i s" i "rt_held s"] show ?case by simp
next
  case (hold_unknown s i)
  from hold_ok [OF hold_unknown, of "rot_kept i s" i "offered i s"] show ?case by simp
next
  case (hold_done s i)
  from hold_ok [OF hold_done, of None i "offered i s"] show ?case by simp
next
  case (grant_missed i s c' I)
  from grant_ok [OF grant_missed(5,1-4), of "Some (rt_held s, c')" "rt_held s"] show ?case by simp
next
  case (grant_unknown i s c' I)
  from grant_ok [OF grant_unknown(5,1-4), of "Some (rt_held s, c')" c'] show ?case by simp
next
  case (grant_done i s c' I)
  from grant_ok [OF grant_done(5,1-4), of None c'] show ?case by simp
qed

lemma hold_step:
  assumes "p = rot_kept i s \<and> (h = rt_held s \<or> h = offered i s) \<or> p = None \<and> h = offered i s"
  shows "rot_step s (s\<lparr>rt_held := h, rt_cur := rt_cur s, rt_issued := rt_issued s, rt_pend := (rt_pend s)(i := p)\<rparr>)"
  using assms rot_step.hold_missed [of s i] rot_step.hold_unknown [of s i] rot_step.hold_done [of s i] by auto

lemma grant_step:
  assumes "offered i s = rt_cur s" "c' = rt_cur s \<or> c' \<notin> rt_issued s" "rt_issued s \<subseteq> I" "c' \<in> I"
    and "p = Some (rt_held s, c') \<and> (h = rt_held s \<or> h = c') \<or> p = None \<and> h = c'"
  shows "rot_step s (s\<lparr>rt_held := h, rt_cur := c', rt_issued := I, rt_pend := (rt_pend s)(i := p)\<rparr>)"
  using assms(5) rot_step.grant_missed [OF assms(1-4)] rot_step.grant_unknown [OF assms(1-4)] rot_step.grant_done [OF assms(1-4)] by auto

lemma bridge_offers: "rot_ok s \<Longrightarrow> rt_held s = rt_cur s \<or> rt_pend s i = Some (rt_held s, rt_cur s) \<Longrightarrow> offered i s = rt_cur s"
  by (cases rule: kept_cases [of i s]) (auto dest: rot_okD(2) simp: rot_kept_def)

section \<open>Workers\<close>

definition legacy_of :: "auth_lib \<Rightarrow> string \<Rightarrow> (string \<rightharpoonup> string) \<Rightarrow> string \<Rightarrow> token_state option" where
  "legacy_of lib seed m key =
     (if key = '''' then None
      else case Option.bind (m key) (al_Unmarshal lib) of
             Some st \<Rightarrow> if ts_Seed st = seed \<and> ts_RefreshToken st \<noteq> '''' then Some st else None
           | None \<Rightarrow> None)"

definition seed_of :: "auth_lib \<Rightarrow> authenticator \<Rightarrow> string" where
  "seed_of lib a = al_Sum8 lib (au_refreshToken a)"

text \<open>The refresh token a call starts from: the stored one, the one an earlier release stored, or the seed.\<close>

definition in_force :: "auth_lib \<Rightarrow> authenticator \<Rightarrow> (string \<rightharpoonup> string) \<Rightarrow> string" where
  "in_force lib a m =
     (case start_state lib (seed_of lib a) (au_refreshToken a) (legacy_of lib (seed_of lib a) m (au_legacyKey a)) (m (au_tokenKey a)) of
        Inl _ \<Rightarrow> '''' | Inr (st, _) \<Rightarrow> ts_RefreshToken st)"

record 'w token_fleet =
  tf_workers :: "nat \<Rightarrow> authenticator"
  tf_store :: "string \<rightharpoonup> string"
  tf_world :: 'w

inductive token_step :: "auth_lib \<Rightarrow> (token_request \<Rightarrow> 'w \<Rightarrow> token_answer \<times> 'w) \<Rightarrow> authenticator \<Rightarrow> 'w token_fleet \<Rightarrow> 'w token_fleet \<Rightarrow> bool"
  for lib send a0 where
  call: "refreshed lib send fates clock (tf_workers F i) (tf_store F) (tf_world F) = (r, a', m', w') \<Longrightarrow>
    token_step lib send a0 F (F\<lparr>tf_workers := (tf_workers F)(i := a'), tf_store := m', tf_world := w'\<rparr>)"
| refuse: "token_step lib send a0 F (F\<lparr>tf_workers := (tf_workers F)(i := invalidate sent (tf_workers F i))\<rparr>)"
| restart: "au_pending (tf_workers F i) = None \<Longrightarrow> token_step lib send a0 F (F\<lparr>tf_workers := (tf_workers F)(i := a0)\<rparr>)"

definition same_app :: "authenticator \<Rightarrow> authenticator \<Rightarrow> bool" where
  "same_app a0 a \<longleftrightarrow> au_cfg a = au_cfg a0 \<and> au_clientID a = au_clientID a0 \<and> au_clientSecret a = au_clientSecret a0 \<and>
     au_refreshToken a = au_refreshToken a0 \<and> au_tokenKey a = au_tokenKey a0 \<and> au_tokens a \<and> au_legacyKey a \<in> {au_legacyKey a0, ''''}"

definition pend_of :: "authenticator \<Rightarrow> (string \<times> string) option" where
  "pend_of a = map_option (\<lambda>p. (rn_spent p, ts_RefreshToken (rn_state p))) (au_pending a)"

lemma refreshGrant_same: "same_app a0 a \<Longrightarrow> refreshGrant lib send (a\<lparr>au_pending := p\<rparr>) r w = refreshGrant lib send a0 r w"
proof -
  assume s: "same_app a0 a"
  have c: "client_request lib (a\<lparr>au_pending := p\<rparr>) f = client_request lib a0 f" for f
    using s by (simp add: client_request_def same_app_def Let_def)
  have "au_cfg (a\<lparr>au_pending := p\<rparr>) = au_cfg a0" using s by (simp add: same_app_def)
  with c show ?thesis by (simp only: refreshGrant_def)
qed

lemma legacy_update:
  assumes "UpdateToken f k (legacy_fn lib seed) m v = (e, m', v')"
  shows "m' = m \<and> gv_auth v' = gv_auth v \<and> gv_world v' = gv_world v"
    and "e = None \<Longrightarrow> gv_legacy v = None \<Longrightarrow> k \<noteq> '''' \<Longrightarrow> gv_legacy v' = legacy_of lib seed m k"
  using assms
  by (auto simp: UpdateToken_def legacy_fn_def legacy_of_def split: tx_fate.splits option.splits if_splits)

lemma start_state_ok:
  assumes "start_state lib seed token legacy cur = Inr (st, ch)" "token \<noteq> ''''"
  shows "ts_Seed st = seed \<and> ts_RefreshToken st \<noteq> '''' \<and> (\<not> ch \<longrightarrow> cur \<noteq> None)"
  using assms by (auto simp: start_state_def no_state_def Let_def split: option.splits if_splits)

text \<open>What the server promises: it takes the token in force only, answers with the same token or one it never gave before, and an error has spent nothing.\<close>

locale token_server =
  fixes lib :: auth_lib and send :: "token_request \<Rightarrow> 'w \<Rightarrow> token_answer \<times> 'w" and a0 :: authenticator
    and cur :: "'w \<Rightarrow> string" and issued :: "'w \<Rightarrow> string set"
  assumes codec: "al_Unmarshal lib (al_Marshal lib st) = Some st"
    and granted: "refreshGrant lib send a0 r w = (Inr (access, nxt, life), w') \<Longrightarrow>
      r = cur w \<and> cur w' = (if nxt = '''' then r else nxt) \<and> (cur w' = cur w \<or> cur w' \<notin> issued w) \<and> issued w \<subseteq> issued w' \<and> cur w' \<in> issued w'"
    and refused: "refreshGrant lib send a0 r w = (Inl e, w') \<Longrightarrow> cur w' = cur w \<and> issued w' = issued w"
    and seeded: "au_refreshToken a0 \<noteq> ''''"
begin

abbreviation "seed \<equiv> seed_of lib a0"

abbreviation "held m \<equiv> in_force lib a0 m"

definition rot_of :: "'w token_fleet \<Rightarrow> rot" where
  "rot_of F = \<lparr>rt_held = held (tf_store F), rt_cur = cur (tf_world F), rt_issued = issued (tf_world F), rt_pend = (\<lambda>i. pend_of (tf_workers F i))\<rparr>"

definition tokens_ok :: "'w token_fleet \<Rightarrow> bool" where
  "tokens_ok F \<longleftrightarrow>
     (\<forall>i. same_app a0 (tf_workers F i) \<and> (au_legacyKey (tf_workers F i) = au_legacyKey a0 \<or> tf_store F (au_tokenKey a0) \<noteq> None)) \<and>
     (\<forall>b. tf_store F (au_tokenKey a0) = Some b \<longrightarrow> al_Unmarshal lib b \<noteq> None) \<and>
     (\<forall>i p. au_pending (tf_workers F i) = Some p \<longrightarrow> ts_Seed (rn_state p) = seed \<and> ts_RefreshToken (rn_state p) \<noteq> '''')"

lemma rot_of_upd:
  "rot_of (F\<lparr>tf_workers := (tf_workers F)(i := a'), tf_store := m', tf_world := w'\<rparr>) =
     (rot_of F)\<lparr>rt_held := held m', rt_cur := cur w', rt_issued := issued w', rt_pend := (rt_pend (rot_of F))(i := pend_of a')\<rparr>"
  by (auto simp: rot_of_def)

lemma tokens_ok_upd:
  assumes "tokens_ok F" "same_app a0 a'" "m' = tf_store F \<or> (\<exists>st. m' = (tf_store F)(au_tokenKey a0 \<mapsto> al_Marshal lib st))"
    "au_legacyKey a' = au_legacyKey (tf_workers F i) \<or> m' (au_tokenKey a0) \<noteq> None"
    "\<And>p. au_pending a' = Some p \<Longrightarrow> ts_Seed (rn_state p) = seed \<and> ts_RefreshToken (rn_state p) \<noteq> ''''"
  shows "tokens_ok (F\<lparr>tf_workers := (tf_workers F)(i := a'), tf_store := m', tf_world := w'\<rparr>)"
  using assms unfolding tokens_ok_def by (auto simp: codec)

lemma held_stored:
  "ts_Seed st = seed \<Longrightarrow> ts_RefreshToken st \<noteq> '''' \<Longrightarrow> held (m(au_tokenKey a0 \<mapsto> al_Marshal lib st)) = ts_RefreshToken st"
  by (simp add: in_force_def start_state_def codec)

lemma starts_held:
  assumes "tokens_ok F" "tf_store F (au_tokenKey a0) = None \<Longrightarrow> legacy = legacy_of lib seed (tf_store F) (au_legacyKey a0)"
  obtains st ch where "start_state lib seed (au_refreshToken a0) legacy (tf_store F (au_tokenKey a0)) = Inr (st, ch)"
    "ts_RefreshToken st = held (tf_store F)" "ts_Seed st = seed" "ts_RefreshToken st \<noteq> ''''" "\<not> ch \<Longrightarrow> tf_store F (au_tokenKey a0) \<noteq> None"
proof -
  have e: "start_state lib seed (au_refreshToken a0) legacy (tf_store F (au_tokenKey a0)) =
      start_state lib seed (au_refreshToken a0) (legacy_of lib seed (tf_store F) (au_legacyKey a0)) (tf_store F (au_tokenKey a0))"
    using assms(2) by (cases "tf_store F (au_tokenKey a0)") (simp_all add: start_state_def)
  have "\<exists>st ch. start_state lib seed (au_refreshToken a0) legacy (tf_store F (au_tokenKey a0)) = Inr (st, ch)"
    using assms(1) by (auto simp: start_state_def tokens_ok_def Let_def split: option.splits)
  then obtain st ch where s: "start_state lib seed (au_refreshToken a0) legacy (tf_store F (au_tokenKey a0)) = Inr (st, ch)" by blast
  moreover from s e have "ts_RefreshToken st = held (tf_store F)" by (simp add: in_force_def)
  ultimately show ?thesis using that start_state_ok [OF s seeded] by blast
qed

definition sound_auth :: "authenticator \<Rightarrow> bool" where
  "sound_auth a \<longleftrightarrow> same_app a0 a \<and> (\<forall>p. au_pending a = Some p \<longrightarrow> ts_Seed (rn_state p) = seed \<and> ts_RefreshToken (rn_state p) \<noteq> [])"

lemma refresh_outcome:
  assumes ok: "tokens_ok F" and i: "a = tf_workers F i" "gv_auth v = a" "gv_world v = tf_world F"
    and legacy: "tf_store F (au_tokenKey a0) = None \<longrightarrow> gv_legacy v = legacy_of lib seed (tf_store F) (au_legacyKey a0)"
    and fn: "refresh_fn lib send seed now later (tf_store F (au_tokenKey a0)) v = (r, v')"
  obtains
    (Refused) e where "r = Inl e" "pend_of (gv_auth v') = rot_kept i (rot_of F)" "cur (gv_world v') = cur (tf_world F)" "issued (gv_world v') = issued (tf_world F)"
      "sound_auth (gv_auth v')" "au_legacyKey (gv_auth v') = au_legacyKey a"
  | (Held) nx where "r = Inr nx" "pend_of (gv_auth v') = rot_kept i (rot_of F)" "gv_world v' = tf_world F"
      "case nx of None \<Rightarrow> offered i (rot_of F) = held (tf_store F) \<and> tf_store F (au_tokenKey a0) \<noteq> None
       | Some b \<Rightarrow> \<exists>st. b = al_Marshal lib st \<and> ts_Seed st = seed \<and> ts_RefreshToken st \<noteq> '''' \<and> ts_RefreshToken st = offered i (rot_of F)"
      "sound_auth (gv_auth v')" "au_legacyKey (gv_auth v') = au_legacyKey a"
  | (Granted) st where "r = Inr (Some (al_Marshal lib st))" "ts_Seed st = seed" "ts_RefreshToken st \<noteq> ''''"
      "offered i (rot_of F) = cur (tf_world F)" "ts_RefreshToken st = cur (gv_world v')" "pend_of (gv_auth v') = Some (held (tf_store F), cur (gv_world v'))"
      "cur (gv_world v') = cur (tf_world F) \<or> cur (gv_world v') \<notin> issued (tf_world F)" "issued (tf_world F) \<subseteq> issued (gv_world v')"
      "cur (gv_world v') \<in> issued (gv_world v')"
      "sound_auth (gv_auth v')" "au_legacyKey (gv_auth v') = au_legacyKey a"
proof -
  from ok i have app: "same_app a0 a" and pend: "\<And>p. au_pending a = Some p \<Longrightarrow> ts_Seed (rn_state p) = seed \<and> ts_RefreshToken (rn_state p) \<noteq> ''''"
    by (auto simp: tokens_ok_def)
  from starts_held [OF ok legacy [rule_format]] obtain st ch where
    s: "start_state lib seed (au_refreshToken a0) (gv_legacy v) (tf_store F (au_tokenKey a0)) = Inr (st, ch)"
    "ts_RefreshToken st = held (tf_store F)" "ts_Seed st = seed" "ts_RefreshToken st \<noteq> ''''" "\<not> ch \<Longrightarrow> tf_store F (au_tokenKey a0) \<noteq> None" by blast
  obtain st1 ch1 pd where m: "missed_rotation (st, ch) (au_pending a) = (st1, ch1, pd)" by (metis prod_cases3)
  let ?a = "a\<lparr>au_pending := pd\<rparr>"
  have kept: "rot_kept i (rot_of F) = (case au_pending a of Some p \<Rightarrow> if rn_spent p = held (tf_store F) then Some (rn_spent p, ts_RefreshToken (rn_state p)) else None | None \<Rightarrow> None)"
    by (cases "au_pending a") (simp_all add: rot_kept_def rot_of_def pend_of_def i(1))
  have "ts_Seed st1 = seed \<and> ts_RefreshToken st1 \<noteq> [] \<and> ts_RefreshToken st1 = offered i (rot_of F) \<and> pend_of ?a = rot_kept i (rot_of F) \<and>
      (case pd of None \<Rightarrow> ts_RefreshToken st1 | Some p \<Rightarrow> rn_spent p) = held (tf_store F) \<and> (\<not> ch1 \<longrightarrow> \<not> ch \<and> offered i (rot_of F) = held (tf_store F))"
  proof (cases "\<exists>p. au_pending a = Some p \<and> rn_spent p = held (tf_store F)")
    case True
    then obtain p where p: "au_pending a = Some p" "rn_spent p = held (tf_store F)" by blast
    with m s(2) have "st1 = rn_state p" "ch1" "pd = Some p" by (auto simp: missed_rotation_def)
    with p kept pend [OF p(1)] show ?thesis by (simp add: offered_def pend_of_def)
  next
    case False
    then have k: "rot_kept i (rot_of F) = None" using kept by (auto split: option.splits)
    from False m s(2) have "st1 = st" "ch1 = ch" "pd = None" by (auto simp: missed_rotation_def split: option.splits if_splits)
    with k s(2-4) show ?thesis by (simp add: offered_def pend_of_def) (simp add: rot_of_def)
  qed
  then have st1: "ts_Seed st1 = seed" "ts_RefreshToken st1 \<noteq> []" "ts_RefreshToken st1 = offered i (rot_of F)" "pend_of ?a = rot_kept i (rot_of F)"
      "(case pd of None \<Rightarrow> ts_RefreshToken st1 | Some p \<Rightarrow> rn_spent p) = held (tf_store F)" "\<not> ch1 \<Longrightarrow> \<not> ch \<and> offered i (rot_of F) = held (tf_store F)" by blast+
  have sound: "sound_auth ?a" "au_legacyKey ?a = au_legacyKey a"
    using app pend m by (auto simp: sound_auth_def same_app_def missed_rotation_def split: option.splits if_splits)
  have refresh: "au_refreshToken (gv_auth v) = au_refreshToken a0" using app i by (simp add: same_app_def)
  note step = fn [unfolded refresh_fn_def refresh s(1) sum.case, unfolded i(2) m prod.case, unfolded Let_def i(3) refreshGrant_same [OF app]]
  show thesis
  proof (cases "ts_AccessToken st1 = '''' \<or> ts_AccessToken st1 = au_rejected ?a \<or> \<not> now < ts_Expires st1")
    case True
    note step1 = step [unfolded if_P [OF True]]
    obtain g w' where g: "refreshGrant lib send a0 (ts_RefreshToken st1) (tf_world F) = (g, w')" by fastforce
    show thesis
    proof (cases g)
      case (Inl e)
      from step1 [unfolded g Inl] have rv: "r = Inl e" "v' = v\<lparr>gv_auth := ?a, gv_world := w'\<rparr>" by simp_all
      show thesis by (rule Refused [OF rv(1)]) (simp_all add: rv(2) st1(4) sound refused [OF g [unfolded Inl]])
    next
      case (Inr x)
      obtain access nxt life where x: "x = (access, nxt, life)" by (metis prod_cases3)
      note law = granted [OF g [unfolded Inr x]]
      let ?st = "st1\<lparr>ts_AccessToken := access, ts_Expires := later + (life - token_margin life),
              ts_RefreshToken := (if nxt \<noteq> '''' then nxt else ts_RefreshToken st1)\<rparr>"
      let ?b = "?a\<lparr>au_pending := Some \<lparr>rn_spent = held (tf_store F), rn_state = ?st\<rparr>\<rparr>"
      from step1 [unfolded g Inr x prod.case sum.case st1(5)] have rv: "r = Inr (Some (al_Marshal lib ?st))" "gv_auth v' = ?b" "gv_world v' = w'" by auto
      have cur: "ts_RefreshToken ?st = cur w'" using law by simp
      have b: "sound_auth ?b" using sound(1) st1(1,2) by (simp add: sound_auth_def same_app_def)
      show thesis
        by (rule Granted [OF rv(1)], unfold rv(2,3)) (use law st1(1-3) cur b sound(2) in \<open>auto simp: pend_of_def split: if_splits\<close>)
    qed
  next
    case False
    note step1 = step [unfolded if_not_P [OF False]]
    have rv: "r = Inr (if ch1 then Some (al_Marshal lib st1) else None)" "gv_auth v' = ?a" "gv_world v' = tf_world F" using step1 i(3) by auto
    show thesis
      by (rule Held [OF rv(1)], unfold rv(2,3)) (use st1 s(5) sound in auto)
  qed
qed

text \<open>Every call is a step of the rotations.\<close>

lemma UpdateToken_cases:
  assumes "UpdateToken f k fn m v = (e, m', v')"
  obtains (NotRun) x where "e = Some x" "m' = m" "v' = v"
  | (Failed) x where "fn (m k) v = (Inl x, v')" "e = Some x" "m' = m"
  | (Ran) nx where "fn (m k) v = (Inr nx, v')" "m' = (case nx of Some b \<Rightarrow> if tx_kept f then m(k \<mapsto> b) else m | None \<Rightarrow> m)" "e = tx_error f" "e = None \<Longrightarrow> tx_kept f"
proof (cases "\<exists>x. f = TxRefused x")
  case True
  with assms NotRun show ?thesis by (auto simp: UpdateToken_def)
next
  case False
  obtain r v1 where r: "fn (m k) v = (r, v1)" by fastforce
  have u: "UpdateToken f k fn m v = (case r of Inl x \<Rightarrow> (Some x, m, v1) | Inr None \<Rightarrow> (tx_error f, m, v1)
      | Inr (Some b) \<Rightarrow> (tx_error f, if tx_kept f then m(k \<mapsto> b) else m, v1))"
    using False r by (cases f) (auto simp: UpdateToken_def split: sum.splits option.splits)
  have kept: "tx_error f = None \<Longrightarrow> tx_kept f" by (cases f) simp_all
  show ?thesis
  proof (cases r)
    case (Inl x)
    with u assms r Failed show ?thesis by simp
  next
    case (Inr nx)
    with u assms r kept Ran show ?thesis by (auto split: option.splits)
  qed
qed

lemma legacy_run:
  assumes "tokens_ok F" "a = tf_workers F i"
    "(if au_legacyKey a = '''' then (None, tf_store F, v) else UpdateToken f (au_legacyKey a) (legacy_fn lib seed) (tf_store F) v) = (e, m1, v1)"
    "gv_legacy v = None"
  shows "m1 = tf_store F \<and> gv_auth v1 = gv_auth v \<and> gv_world v1 = gv_world v"
    and "e = None \<Longrightarrow> tf_store F (au_tokenKey a0) = None \<Longrightarrow> gv_legacy v1 = legacy_of lib seed (tf_store F) (au_legacyKey a0)"
proof -
  have k: "tf_store F (au_tokenKey a0) = None \<Longrightarrow> au_legacyKey a = au_legacyKey a0" using assms(1,2) by (auto simp: tokens_ok_def)
  show "m1 = tf_store F \<and> gv_auth v1 = gv_auth v \<and> gv_world v1 = gv_world v"
    using assms(3) by (auto split: if_splits dest: legacy_update(1))
  show "e = None \<Longrightarrow> tf_store F (au_tokenKey a0) = None \<Longrightarrow> gv_legacy v1 = legacy_of lib seed (tf_store F) (au_legacyKey a0)"
    using assms(3,4) k legacy_update(2) by (auto simp: legacy_of_def split: if_splits)
qed

lemma update_step:
  assumes ok: "tokens_ok F" and i: "gv_auth v = tf_workers F i" "gv_world v = tf_world F"
    and legacy: "tf_store F (au_tokenKey a0) = None \<longrightarrow> gv_legacy v = legacy_of lib seed (tf_store F) (au_legacyKey a0)"
    and u: "UpdateToken f (au_tokenKey a0) (refresh_fn lib send seed now later) (tf_store F) v = (e, m', v')"
    and a': "a' = (if e = None then (gv_auth v')\<lparr>au_pending := None, au_legacyKey := '''', au_token := t, au_expires := x\<rparr> else gv_auth v')"
  shows "tokens_ok (F\<lparr>tf_workers := (tf_workers F)(i := a'), tf_store := m', tf_world := gv_world v'\<rparr>) \<and>
         rot_step (rot_of F) (rot_of (F\<lparr>tf_workers := (tf_workers F)(i := a'), tf_store := m', tf_world := gv_world v'\<rparr>)) \<and>
         (e = None \<longrightarrow> offered i (rot_of F) = cur (tf_world F) \<longrightarrow> held m' = cur (gv_world v'))"
proof -
  let ?K = "au_tokenKey a0" and ?s = "rot_of F"
  have sel: "rt_held ?s = held (tf_store F)" "rt_cur ?s = cur (tf_world F)" "rt_issued ?s = issued (tf_world F)" by (simp_all add: rot_of_def)
  have sound: "sound_auth (tf_workers F i)" using ok by (auto simp: tokens_ok_def sound_auth_def)
  have fin: "sound_auth (gv_auth v') \<Longrightarrow> sound_auth a'" by (auto simp: a' sound_auth_def same_app_def)
  have keeps: "tokens_ok (F\<lparr>tf_workers := (tf_workers F)(i := a'), tf_store := m', tf_world := gv_world v'\<rparr>)"
    if "sound_auth (gv_auth v')" "au_legacyKey (gv_auth v') = au_legacyKey (tf_workers F i)"
      "m' = tf_store F \<or> (\<exists>st. m' = (tf_store F)(?K \<mapsto> al_Marshal lib st))" "e = None \<Longrightarrow> m' ?K \<noteq> None"
    using that(2-4) fin [OF that(1)] by (intro tokens_ok_upd [OF ok]) (auto simp: a' sound_auth_def)
  from u show ?thesis
  proof (cases rule: UpdateToken_cases)
    case (NotRun y)
    with a' i have "F\<lparr>tf_workers := (tf_workers F)(i := a'), tf_store := m', tf_world := gv_world v'\<rparr> = F" by simp
    with ok NotRun(1) show ?thesis by (simp add: rot_step.idle)
  next
    case (Failed y)
    show ?thesis
    proof (cases rule: refresh_outcome [OF ok refl i legacy Failed(1)])
      case (1 y')
      have "rot_step ?s (?s\<lparr>rt_held := held m', rt_cur := cur (gv_world v'), rt_issued := issued (gv_world v'), rt_pend := (rt_pend ?s)(i := pend_of a')\<rparr>)"
        using hold_step [of "pend_of a'" i ?s "held m'"] 1 Failed a' by (auto simp: sel)
      with keeps [OF 1(5,6)] Failed(2,3) show ?thesis unfolding rot_of_upd by blast
    qed auto
  next
    case (Ran nx)
    show ?thesis
    proof (cases rule: refresh_outcome [OF ok refl i legacy Ran(1)])
      case Held: (2 nx')
      have h: "held m' = (if tx_kept f then offered i ?s else held (tf_store F))" "tx_kept f \<Longrightarrow> m' ?K \<noteq> None"
          "m' = tf_store F \<or> (\<exists>st. m' = (tf_store F)(?K \<mapsto> al_Marshal lib st))"
        using Held(1,4) Ran(2) by (auto simp: held_stored split: option.splits if_splits)
      have p: "pend_of a' = (if e = None then None else rot_kept i ?s)" using Held(2) by (simp add: a' pend_of_def)
      have "rot_step ?s (?s\<lparr>rt_held := held m', rt_cur := cur (gv_world v'), rt_issued := issued (gv_world v'), rt_pend := (rt_pend ?s)(i := pend_of a')\<rparr>)"
        using hold_step [of "pend_of a'" i ?s "held m'"] h(1) p Held(3) Ran(4) by (auto simp: sel)
      with keeps [OF Held(5,6) h(3)] h(1,2) Ran(4) Held(3) show ?thesis unfolding rot_of_upd by auto
    next
      case Granted: (3 st)
      have h: "held m' = (if tx_kept f then cur (gv_world v') else held (tf_store F))" "tx_kept f \<Longrightarrow> m' ?K \<noteq> None"
          "m' = tf_store F \<or> (\<exists>st. m' = (tf_store F)(?K \<mapsto> al_Marshal lib st))"
        using Granted(1-3,5) Ran(2) by (auto simp: held_stored)
      have p: "pend_of a' = (if e = None then None else Some (held (tf_store F), cur (gv_world v')))" using Granted(6) by (simp add: a' pend_of_def)
      have "rot_step ?s (?s\<lparr>rt_held := held m', rt_cur := cur (gv_world v'), rt_issued := issued (gv_world v'), rt_pend := (rt_pend ?s)(i := pend_of a')\<rparr>)"
        using h(1) p Ran(4) Granted(4,7-9) by (intro grant_step) (auto simp: sel)
      with keeps [OF Granted(10,11) h(3)] h(1,2) Ran(4) show ?thesis unfolding rot_of_upd by auto
    qed auto
  qed
qed

lemma refreshed_step:
  assumes ok: "tokens_ok F" and r: "refreshed lib send fates clock (tf_workers F i) (tf_store F) (tf_world F) = (res, a', m', w')"
  shows "tokens_ok (F\<lparr>tf_workers := (tf_workers F)(i := a'), tf_store := m', tf_world := w'\<rparr>) \<and>
         rot_step (rot_of F) (rot_of (F\<lparr>tf_workers := (tf_workers F)(i := a'), tf_store := m', tf_world := w'\<rparr>)) \<and>
         (\<not> isl res \<longrightarrow> \<not> (au_token (tf_workers F i) \<noteq> [] \<and> fst clock < au_expires (tf_workers F i)) \<longrightarrow> offered i (rot_of F) = cur (tf_world F) \<longrightarrow> held m' = cur w')"
proof -
  let ?a = "tf_workers F i" and ?m = "tf_store F" and ?w = "tf_world F"
  obtain now0 now later where clock: "clock = (now0, now, later)" by (metis prod_cases3)
  have app: "au_tokens ?a" "au_tokenKey ?a = au_tokenKey a0" "au_refreshToken ?a = au_refreshToken a0" using ok by (auto simp: tokens_ok_def same_app_def)
  let ?v = "\<lparr>gv_auth = ?a, gv_world = ?w, gv_legacy = None, gv_token = '''', gv_expires = 0\<rparr>"
  obtain e1 m1 v1 where l: "(if au_legacyKey ?a = '''' then (None, ?m, ?v) else UpdateToken (fst fates) (au_legacyKey ?a) (legacy_fn lib seed) ?m ?v) = (e1, m1, v1)"
    by (metis prod_cases3)
  note run = legacy_run [OF ok refl l, simplified]
  obtain e2 m2 v2 where u: "UpdateToken (snd fates) (au_tokenKey a0) (refresh_fn lib send seed now later) ?m v1 = (e2, m2, v2)" by (metis prod_cases3)
  have idle: "tokens_ok (F\<lparr>tf_workers := (tf_workers F)(i := ?a), tf_store := ?m, tf_world := ?w\<rparr>) \<and>
      rot_step (rot_of F) (rot_of (F\<lparr>tf_workers := (tf_workers F)(i := ?a), tf_store := ?m, tf_world := ?w\<rparr>))"
    using ok by (simp add: rot_step.idle)
  show ?thesis
  proof (cases "(au_token ?a \<noteq> '''' \<and> now0 < au_expires ?a) \<or> e1 \<noteq> None")
    case True
    with r have "a' = ?a \<and> m' = ?m \<and> w' = ?w \<and> (isl res \<or> au_token ?a \<noteq> [] \<and> fst clock < au_expires ?a)"
      using run(1) l by (auto simp: refreshed_def clock app seed_of_def [symmetric] Let_def split: if_splits)
    with idle show ?thesis by auto
  next
    case False
    then have e1: "e1 = None" by simp
    from r False have "m' = m2 \<and> w' = gv_world v2 \<and> (\<not> isl res \<longrightarrow> e2 = None) \<and>
        a' = (if e2 = None then (gv_auth v2)\<lparr>au_pending := None, au_legacyKey := '''', au_token := gv_token v2, au_expires := gv_expires v2\<rparr> else gv_auth v2)"
      using run(1) l u by (auto simp: refreshed_def clock app seed_of_def [symmetric] Let_def split: if_splits option.splits)
    with update_step [OF ok _ _ _ u] run(1) run(2) [OF e1] show ?thesis by auto
  qed
qed

lemma token_step_ok:
  assumes "token_step lib send a0 F F'" "tokens_ok F" "rot_ok (rot_of F)" "same_app a0 a0" "au_pending a0 = None"
  shows "tokens_ok F' \<and> rot_ok (rot_of F')"
  using assms(1)
proof cases
  case (call fates clock i r a' m' w')
  with refreshed_step [OF assms(2) call(2)] rot_step_ok assms(3) show ?thesis by blast
next
  case (refuse i sent)
  have "same_app a0 (invalidate sent (tf_workers F i)) = same_app a0 (tf_workers F i)" "au_pending (invalidate sent (tf_workers F i)) = au_pending (tf_workers F i)"
      "au_legacyKey (invalidate sent (tf_workers F i)) = au_legacyKey (tf_workers F i)"
    by (auto simp: invalidate_def same_app_def split: option.splits)
  with assms(2) have "tokens_ok F'" "rot_of F' = rot_of F" by (auto simp: refuse tokens_ok_def rot_of_def pend_of_def)
  with assms(3) show ?thesis by simp
next
  case (restart i)
  with assms(2,4,5) have "tokens_ok F'" "rot_of F' = rot_of F" by (auto simp: tokens_ok_def rot_of_def pend_of_def)
  with assms(3) show ?thesis by simp
qed

lemma reach_ok:
  assumes "(token_step lib send a0)\<^sup>*\<^sup>* F F'" "tokens_ok F" "rot_ok (rot_of F)" "same_app a0 a0" "au_pending a0 = None"
  shows "tokens_ok F' \<and> rot_ok (rot_of F')"
  using assms(1) by (induction rule: rtranclp_induct) (use assms(2-5) token_step_ok in blast)+

lemma fresh_ok:
  assumes "\<And>i. tf_workers F i = a0" "same_app a0 a0" "au_pending a0 = None"
    "\<And>b. tf_store F (au_tokenKey a0) = Some b \<Longrightarrow> al_Unmarshal lib b \<noteq> None" "held (tf_store F) = cur (tf_world F)" "cur (tf_world F) \<in> issued (tf_world F)"
  shows "tokens_ok F \<and> rot_ok (rot_of F)"
  using assms by (auto simp: tokens_ok_def rot_ok_def bridged_def rot_of_def pend_of_def)

end

section \<open>The token in force is not lost\<close>


section \<open>A server\<close>

text \<open>It accepts one token at a time, counts the tokens it gave and records what was presented. The encoding of a stored state marks every character of a
  string and writes times in base 256.\<close>

fun mark :: "string \<Rightarrow> string" where
  "mark [] = ''.''"
| "mark (c # cs) = CHR ''-'' # c # mark cs"

fun unmark :: "string \<Rightarrow> (string \<times> string) option" where
  "unmark (x # cs) =
     (if x = CHR ''.'' then Some ([], cs)
      else case cs of c # cs' \<Rightarrow> map_option (\<lambda>(s, r). (c # s, r)) (unmark cs') | [] \<Rightarrow> None)"
| "unmark [] = None"

lemma unmark_mark [simp]: "unmark (mark s @ r) = Some (s, r)"
  by (induction s) auto

function int_bytes :: "int \<Rightarrow> string" where
  "int_bytes n = (if n \<le> 0 then [] else char_of (n mod 256) # int_bytes (n div 256))"
  by pat_completeness auto

termination int_bytes
  by (relation "measure nat") auto

declare int_bytes.simps [simp del]

fun bytes_int :: "string \<Rightarrow> int" where
  "bytes_int [] = 0"
| "bytes_int (c # cs) = of_char c + 256 * bytes_int cs"

lemma bytes_int_bytes: "0 \<le> n \<Longrightarrow> bytes_int (int_bytes n) = n"
  by (induction n rule: int_bytes.induct) (subst int_bytes.simps, auto simp: pos_imp_zdiv_nonneg_iff)

definition plain_marshal :: "token_state \<Rightarrow> string" where
  "plain_marshal st = mark (ts_Seed st) @ mark (ts_RefreshToken st) @ mark (ts_AccessToken st) @
     (if ts_Expires st < 0 then CHR ''-'' # int_bytes (- ts_Expires st) else CHR ''+'' # int_bytes (ts_Expires st))"

definition plain_unmarshal :: "string \<Rightarrow> token_state option" where
  "plain_unmarshal s =
     Option.bind (unmark s) (\<lambda>(a, s1). Option.bind (unmark s1) (\<lambda>(b, s2). Option.bind (unmark s2) (\<lambda>(c, s3).
       case s3 of [] \<Rightarrow> None
       | x # ds \<Rightarrow> Some \<lparr>ts_Seed = a, ts_RefreshToken = b, ts_AccessToken = c, ts_Expires = (if x = CHR ''-'' then - bytes_int ds else bytes_int ds)\<rparr>)))"

lemma plain_codec: "plain_unmarshal (plain_marshal st) = Some st"
  by (cases st) (simp add: plain_unmarshal_def plain_marshal_def bytes_int_bytes)

definition plain_auth_lib :: auth_lib where
  "plain_auth_lib = \<lparr>al_Secret = (\<lambda>_. None), al_Sum8 = (\<lambda>s. s), al_Sum12 = (\<lambda>s. s), al_Marshal = plain_marshal, al_Unmarshal = plain_unmarshal,
     al_QueryEscape = (\<lambda>s. s), al_Base64 = (\<lambda>s. s), al_Mac = (\<lambda>k m. k)\<rparr>"

record issuer =
  is_given :: nat
  is_presented :: "string list"

definition nth_token :: "nat \<Rightarrow> string" where
  "nth_token n = CHR ''r'' # Itoa n"

definition issuer_send :: "token_request \<Rightarrow> issuer \<Rightarrow> token_answer \<times> issuer" where
  "issuer_send q w =
     (let t = (case map_of (tq_Form q) ''refresh_token'' of None \<Rightarrow> '''' | Some t \<Rightarrow> t);
          w' = w\<lparr>is_presented := is_presented w @ [t]\<rparr>
      in if t = nth_token (is_given w) then (TokenBody (Some (''access'', nth_token (is_given w + 1), 3600)), w'\<lparr>is_given := is_given w + 1\<rparr>)
         else (TokenStatus 400 ''invalid_grant'', w'))"

definition books_auth :: authenticator where
  "books_auth = useTokens plain_auth_lib ''rest/books''
     ((blank_authenticator \<lparr>ac_Type = ''oauth2-refresh'', ac_Header = '''', ac_TokenURL = ''https://id'', ac_Scopes = [], ac_Realm = '''', ac_ClientAuth = '''',
        ac_LoginURL = '''', ac_Cookies = []\<rparr> ''s'')\<lparr>au_clientID := ''c'', au_clientSecret := ''s'', au_refreshToken := nth_token 0\<rparr>)"

lemma issuer_grant:
  "refreshGrant lib issuer_send a r w =
     (if r = nth_token (is_given w)
      then (Inr (''access'', nth_token (is_given w + 1), token_life 3600), w\<lparr>is_presented := is_presented w @ [r], is_given := is_given w + 1\<rparr>)
      else (Inl (token_failure ''oauth2 refresh'' (au_cfg a) (TokenStatus 400 ''invalid_grant'')), w\<lparr>is_presented := is_presented w @ [r]\<rparr>))"
  by (simp add: refreshGrant_def issuer_send_def client_request_def Let_def)

interpretation books: token_server plain_auth_lib issuer_send books_auth "\<lambda>w. nth_token (is_given w)" "\<lambda>w. nth_token ` {..is_given w}"
proof unfold_locales
  have inj: "nth_token m = nth_token n \<longleftrightarrow> m = n" for m n by (auto simp: nth_token_def dest: Itoa_inj)
  fix r access nxt life e and w w' :: issuer
  show "r = nth_token (is_given w) \<and> nth_token (is_given w') = (if nxt = '''' then r else nxt) \<and>
      (nth_token (is_given w') = nth_token (is_given w) \<or> nth_token (is_given w') \<notin> nth_token ` {..is_given w}) \<and>
      nth_token ` {..is_given w} \<subseteq> nth_token ` {..is_given w'} \<and> nth_token (is_given w') \<in> nth_token ` {..is_given w'}"
    if "refreshGrant plain_auth_lib issuer_send books_auth r w = (Inr (access, nxt, life), w')"
    using that by (auto simp: issuer_grant inj image_iff split: if_splits) (auto simp: nth_token_def)
  show "nth_token (is_given w') = nth_token (is_given w) \<and> nth_token ` {..is_given w'} = nth_token ` {..is_given w}"
    if "refreshGrant plain_auth_lib issuer_send books_auth r w = (Inl e, w')"
    using that by (auto simp: issuer_grant split: if_splits)
qed (simp_all add: plain_auth_lib_def plain_codec books_auth_def useTokens_def nth_token_def Let_def)

definition books_fleet :: "issuer token_fleet" where
  "books_fleet = \<lparr>tf_workers = (\<lambda>_. books_auth), tf_store = (\<lambda>_. None), tf_world = \<lparr>is_given = 0, is_presented = []\<rparr>\<rparr>"

text \<open>The first worker refreshes and the store does not take the new token.\<close>

definition books_missed :: "(goerror + string) \<times> authenticator \<times> (string \<rightharpoonup> string) \<times> issuer" where
  "books_missed = refreshed plain_auth_lib issuer_send (TxCommits, TxRollsBack (New_err ''connection reset'' [])) (1, 1, 1) books_auth (\<lambda>_. None) \<lparr>is_given = 0, is_presented = []\<rparr>"

definition books_after :: "issuer token_fleet" where
  "books_after = (case books_missed of (_, a, m, w) \<Rightarrow> books_fleet\<lparr>tf_workers := (tf_workers books_fleet)(0 := a), tf_store := m, tf_world := w\<rparr>)"

lemma books_after_differs: "in_force plain_auth_lib books_auth (tf_store books_after) \<noteq> nth_token (is_given (tf_world books_after))"
  by code_simp


text \<open>The documentation says that two workers never spend the same single-use token. When the store misses a rotation, another worker starts
  from the stored token and presents it again; a server that revokes a token family on reuse ends the authorization.\<close>

theorem other_worker_spends_again:
  "is_presented (snd (snd (snd (refreshed plain_auth_lib issuer_send (TxCommits, TxCommits) (2, 2, 2) books_auth (tf_store books_after) (tf_world books_after))))) =
   [nth_token 0, nth_token 0]"
  by code_simp

end
