(* ===== verification/Spec2Isabelle.thy ===== *)
theory Spec2Isabelle
  imports Prelude Float64 Semver Policy Audit_Log Guard_Types Idempotency Governor Guard Guard_Props Guard_Flows
    Api Api_Objects Api_Props Catalog Report Verifier Verify_Recipe Verify_Props Verify_Blueprint Verify_Demo
    Compiler Compiler_Props Compiler_Stack Compiler_Writes Compiler_Tools
    Identity Identity_Props Template Activities Workflow Workflow_Props Workflow_Demo Workflow_Findings
    Netguard Netguard_Props Agent Agent_Props
    Pg_Inbox Sources Source_Props Dispatch Dispatch_Props Dispatch_Fleet Dispatch_Claims Source_Claims
    Engine_New Change_Capture Capture_Props
    Calls Guard_World Odoo_Writes Odoo_Props Rest_Writes Rest_Props Rest_Keys Token_Vault Rest_Auth Auth_Props Token_Fleet
begin

text \<open>
  A verification library for Turgon, an integration platform: events of a source system start runs, a run
  maps the event and writes it to other systems, and every write passes a guard that asks the policy, and a person where it
  must, claims an idempotency key, limits the rate, and keeps an audit log. Agents write through the same guard.

  \<^bold>\<open>The program and its model.\<close> Stateful code is explicit state passing over records that have the fields of the Go structs; an
  error is a value of \<open>goerror\<close> (its message with its arguments, and the sentinels it wraps), a result is \<open>goerror + 'a\<close>. Strings are
  byte strings, \<open>int64\<close> wraps by \<open>wrap64\<close> or is a \<^typ>\<open>64 word\<close>, a \<open>float64\<close> is a rational rounded to 53 bits, JSON is the datatype
  \<open>json\<close>, a Go map is an association list or a HOL map, and where the iteration order of a Go map matters it is an argument. The theories, in the order
  in which data flows:

  \<^item> Shared: \<open>Prelude\<close> (strings, errors, JSON, Go's library functions), \<open>Float64\<close>, \<open>Calls\<close> (code that calls and returns at the first error).
  \<^item> Declarations: \<open>Semver\<close> (\<open>pkg/semver\<close>), \<open>Api\<close>, \<open>Api_Objects\<close>, \<open>Api_Props\<close> (\<open>apis/v1alpha1\<close>: connectors, connections, mappings, recipes,
    stacks and their validation), \<open>Catalog\<close> (\<open>pkg/catalog\<close>).
  \<^item> Verifier (\<open>pkg/verifier\<close>): \<open>Report\<close>, \<open>Verifier\<close>, \<open>Verify_Recipe\<close>, \<open>Verify_Blueprint\<close> follow the stages of the code; \<open>Verify_Props\<close> says what a verdict
    means; \<open>Verify_Demo\<close> is a stack that passes.
  \<^item> Compiler (\<open>pkg/compiler/compiler.go\<close>): \<open>Compiler\<close> is \<open>Compile\<close> with the builder and \<open>ParseSpec\<close>; \<open>Compiler_Props\<close>, \<open>Compiler_Stack\<close>,
    \<open>Compiler_Writes\<close>, \<open>Compiler_Tools\<close> show that it never dereferences nil, compiles only what was verified, and does not depend on map order.
  \<^item> Policy and audit: \<open>Policy\<close> (\<open>pkg/policy\<close>), \<open>Audit_Log\<close> (\<open>pkg/audit\<close>, the hash chain).
  \<^item> Write guard (\<open>pkg/writeguard\<close>): \<open>Guard_Types\<close>, \<open>Idempotency\<close> (the store's contract as the locale \<open>idem_store\<close>, interpreted on the memory
    store and on the table of \<open>pkg/store/pgstore\<close>), \<open>Governor\<close> (token bucket, semaphore, breaker), \<open>Guard\<close> (Prepare, Commit, Execute, Compensate, Read,
    saga), \<open>Guard_Props\<close>, \<open>Guard_Flows\<close>, and \<open>Guard_World\<close>, what the guard does to the system behind it.
  \<^item> Runs (\<open>pkg/engine\<close>): \<open>Template\<close>, \<open>Activities\<close>, \<open>Workflow\<close> (recipe runs and agent writes over a runtime that loses results, retries,
    delivers signals and interleaves other runs), \<open>Workflow_Props\<close>, \<open>Workflow_Demo\<close>, \<open>Workflow_Findings\<close>; \<open>Identity\<close>, \<open>Identity_Props\<close> (\<open>pkg/identity\<close>).
  \<^item> Events: \<open>Pg_Inbox\<close> (cursors, inbox, positions, locks and cross-references of \<open>pkg/store/pgstore\<close>, \<open>TemporalStarter\<close>), \<open>Sources\<close> (\<open>Poll\<close> of the
    SAP, Salesforce, Odoo, REST and PostgreSQL connectors), \<open>Change_Capture\<close> (the \<open>pgoutput\<close> decoder and the replication slot), \<open>Dispatch\<close> (the
    dispatcher, webhooks, subscriptions), \<open>Engine_New\<close> (assembling a runtime, policy packs), with \<open>Source_Props\<close>, \<open>Source_Claims\<close>, \<open>Capture_Props\<close>,
    \<open>Dispatch_Props\<close>, \<open>Dispatch_Fleet\<close>, \<open>Dispatch_Claims\<close>.
  \<^item> Writes of connectors: \<open>Odoo_Writes\<close>, \<open>Odoo_Props\<close> (\<open>pkg/connector/odoo/odoo.go\<close>), \<open>Rest_Writes\<close>, \<open>Rest_Props\<close>, \<open>Rest_Keys\<close> (\<open>pkg/connector/rest/rest.go\<close>, \<open>webhook.go\<close>).
  \<^item> Credentials of connectors: \<open>Rest_Auth\<close>, \<open>Auth_Props\<close>, \<open>Token_Fleet\<close> (\<open>pkg/connector/rest/auth.go\<close>), \<open>Token_Vault\<close> (\<open>pkg/connector/tokens.go\<close>, \<open>pkg/store/pgstore/tokens.go\<close>).
  \<^item> Agents and network: \<open>Agent\<close>, \<open>Agent_Props\<close> (\<open>pkg/agent\<close>), \<open>Netguard\<close>, \<open>Netguard_Props\<close> (\<open>pkg/netguard\<close>).

  \<^bold>\<open>What is shown.\<close> A write happens only after the policy granted it, with the approval it carries, and is audited; its key makes a
  retry a duplicate, and a failed commit leaves no claim. A run commits only what was approved, and undoes, newest first, what it
  wrote when it fails. What the compiler emits is what the verifier found deployable. The breaker refines the three-state circuit, the
  governor stays within its limits, the chain of the audit log commits to its entries. A delivered event is not lost, whatever workers, failures and
  interleavings there are: \<open>Dispatch_Fleet\<close> is a step relation over the calls of any number of workers with its invariant by rule induction, and the code's own
  \<open>drain\<close> is a path of it. A connector that looks its key up before it creates makes one record per key, also through the guard. The undo of an update sends back
  what was there, a value in a path cannot leave its segment, a signed delivery is taken only around its time, and a rotated refresh token is not lost,
  although transactions of the token store fail (\<open>Token_Fleet\<close>, by a simulation of the code's calls by steps of rotations). The theorems that show
  where the code falls short of its documentation (a cursor that passes an event tied with it, a pruned delivery, a large transaction
  that stops change capture, a half-open trial that is never given back, and others) are listed with their sources in the findings of the manifest.

  \<^bold>\<open>Interfaces.\<close> Locales state what one component relies on of another, with client lemmas proved in them and an interpretation on the model's
  definitions: the de-duplication store, the event source and its refinements for each connector, the servers behind the connectors.

  \<^bold>\<open>Parameters.\<close> Code that is not in the repository is an argument: hashes and encodings, JSONata, Rego, Wasm modules, the answers of Temporal, PostgreSQL, HTTP
  interfaces and DNS, URL and time parsing, logarithm and exponential. What a theorem needs of them is a hypothesis or a
  locale, and its witness gives a concrete function.

  \<^bold>\<open>Bounds.\<close> Loops are structural or have a measure. A guard tries at most 49 keys, as the code does; pages are bounded as configured;
  \<open>reconcile\<close> is a partial function, and \<open>reconcile_terminates\<close> shows that it returns.

  \<^bold>\<open>Not modelled.\<close> The writes of the SAP, Salesforce and PostgreSQL connectors and the discovery of schemas; metrics, log lines and the text of requests; JSON and YAML decoding below the level of values; reading files; migrations and the audit
  and review tables of the store; training of match weights; clients of secret stores, Kafka and gRPC; encryption of payloads; the Wasm
  runtime; the A2A and MCP framing, the console, the operator, the appliance and the command line, which are wiring and HTTP handlers around
  the parts above.
\<close>

end
